(* ===== verification/Bytes.thy ===== *)
theory Bytes
  imports Prelude "HOL-Library.Monad_Syntax"
begin

text \<open>
  Byte buffers and the reads the decoders make on them. A slice or index expression of Go panics
  when it is out of range; here it returns \<open>None\<close>, and a decoder is written in the option monad, so
  that \<open>None\<close> is exactly the run that panics. \<open>le_nat\<close> and \<open>be_nat\<close> are
  \<open>binary.LittleEndian\<close> and \<open>binary.BigEndian\<close> on a slice.
\<close>

type_synonym bytes = "u8 list"

definition slice :: "bytes \<Rightarrow> nat \<Rightarrow> nat \<Rightarrow> bytes option" where
  "slice data a b = (if a \<le> b \<and> b \<le> length data then Some (take (b - a) (drop a data)) else None)"

definition index :: "bytes \<Rightarrow> nat \<Rightarrow> u8 option" where
  "index data i = (if i < length data then Some (data ! i) else None)"

fun le_nat :: "bytes \<Rightarrow> nat" where
  "le_nat [] = 0"
| "le_nat (b # bs) = unat b + 256 * le_nat bs"

definition be_nat :: "bytes \<Rightarrow> nat" where
  "be_nat bs = le_nat (rev bs)"

definition le16 :: "bytes \<Rightarrow> nat \<Rightarrow> u16 option" where
  "le16 data i = map_option (\<lambda>b. of_nat (le_nat b)) (slice data i (i + 2))"

definition le32 :: "bytes \<Rightarrow> nat \<Rightarrow> u32 option" where
  "le32 data i = map_option (\<lambda>b. of_nat (le_nat b)) (slice data i (i + 4))"

definition le64 :: "bytes \<Rightarrow> nat \<Rightarrow> u64 option" where
  "le64 data i = map_option (\<lambda>b. of_nat (le_nat b)) (slice data i (i + 8))"

definition be16 :: "bytes \<Rightarrow> nat \<Rightarrow> u16 option" where
  "be16 data i = map_option (\<lambda>b. of_nat (be_nat b)) (slice data i (i + 2))"

definition be32 :: "bytes \<Rightarrow> nat \<Rightarrow> u32 option" where
  "be32 data i = map_option (\<lambda>b. of_nat (be_nat b)) (slice data i (i + 4))"

text \<open>\<open>string(b)\<close>: the bytes of the string are the bytes of the slice.\<close>

definition char_of_byte :: "u8 \<Rightarrow> char" where
  "char_of_byte b = char_of (unat b)"

definition string_of_bytes :: "bytes \<Rightarrow> string" where
  "string_of_bytes = map char_of_byte"

definition byte_of_char :: "char \<Rightarrow> u8" where
  "byte_of_char c = of_nat (of_char c)"

definition bytes_of_string :: "string \<Rightarrow> bytes" where
  "bytes_of_string = map byte_of_char"

lemma length_bytes_of_string [simp]: "length (bytes_of_string s) = length s"
  by (simp add: bytes_of_string_def)

lemma length_string_of_bytes [simp]: "length (string_of_bytes s) = length s"
  by (simp add: string_of_bytes_def)

lemma string_of_bytes_of_string [simp]: "string_of_bytes (bytes_of_string s) = s"
proof -
  have "char_of_byte (byte_of_char c) = c" for c
  proof -
    have "of_char c < (256::nat)" by simp
    then show ?thesis
      by (simp add: char_of_byte_def byte_of_char_def unat_of_nat)
  qed
  then show ?thesis by (simp add: string_of_bytes_def bytes_of_string_def map_idI)
qed

section \<open>Reads inside the buffer succeed\<close>

named_theorems byte_read "reads of a buffer that are in range"

lemma slice_ok [byte_read]:
  "a \<le> b \<Longrightarrow> b \<le> length data \<Longrightarrow> slice data a b = Some (take (b - a) (drop a data))"
  by (simp add: slice_def)

lemma index_ok [byte_read]: "i < length data \<Longrightarrow> index data i = Some (data ! i)"
  by (simp add: index_def)

lemma le16_ok [byte_read]:
  "i + 2 \<le> length data \<Longrightarrow> le16 data i = Some (of_nat (le_nat (take 2 (drop i data))))"
  by (simp add: le16_def slice_def)

lemma le32_ok [byte_read]:
  "i + 4 \<le> length data \<Longrightarrow> le32 data i = Some (of_nat (le_nat (take 4 (drop i data))))"
  by (simp add: le32_def slice_def)

lemma le64_ok [byte_read]:
  "i + 8 \<le> length data \<Longrightarrow> le64 data i = Some (of_nat (le_nat (take 8 (drop i data))))"
  by (simp add: le64_def slice_def)

lemma be16_ok [byte_read]:
  "i + 2 \<le> length data \<Longrightarrow> be16 data i = Some (of_nat (be_nat (take 2 (drop i data))))"
  by (simp add: be16_def slice_def)

lemma be32_ok [byte_read]:
  "i + 4 \<le> length data \<Longrightarrow> be32 data i = Some (of_nat (be_nat (take 4 (drop i data))))"
  by (simp add: be32_def slice_def)

section \<open>Writing a machine integer and reading it back\<close>

fun put_le :: "nat \<Rightarrow> nat \<Rightarrow> bytes" where
  "put_le 0 n = []"
| "put_le (Suc k) n = of_nat (n mod 256) # put_le k (n div 256)"

definition put_le16 :: "u16 \<Rightarrow> bytes" where "put_le16 w = put_le 2 (unat w)"
definition put_le32 :: "u32 \<Rightarrow> bytes" where "put_le32 w = put_le 4 (unat w)"
definition put_le64 :: "u64 \<Rightarrow> bytes" where "put_le64 w = put_le 8 (unat w)"

lemma length_put_le [simp]: "length (put_le k n) = k"
  by (induction k arbitrary: n) auto

lemma length_put [simp]:
  "length (put_le16 a) = 2" "length (put_le32 b) = 4" "length (put_le64 c) = 8"
  by (simp_all add: put_le16_def put_le32_def put_le64_def)

lemma le_nat_put_le: "n < 256 ^ k \<Longrightarrow> le_nat (put_le k n) = n"
proof (induction k arbitrary: n)
  case (Suc k)
  have "n div 256 < 256 ^ k"
    using Suc.prems by (simp add: less_mult_imp_div_less mult.commute)
  then have "le_nat (put_le k (n div 256)) = n div 256"
    by (rule Suc.IH)
  moreover have "unat (of_nat (n mod 256) :: u8) = n mod 256"
    by (simp add: unat_of_nat)
  ultimately show ?case by simp
qed simp

lemma le_nat_put [simp]:
  "le_nat (put_le16 a) = unat a" "le_nat (put_le32 b) = unat b" "le_nat (put_le64 c) = unat c"
  using unat_lt_2p[of a] unat_lt_2p[of b] unat_lt_2p[of c]
  by (simp_all add: put_le16_def put_le32_def put_le64_def le_nat_put_le)

lemma take_put_append [simp]:
  "take 2 (put_le16 a @ r) = put_le16 a" "take 4 (put_le32 b @ r) = put_le32 b"
  "take 8 (put_le64 c @ r) = put_le64 c"
  by simp_all

lemma le_nat_bound: "le_nat bs < 256 ^ length bs"
proof (induction bs)
  case (Cons b bs)
  have "unat b < 256" using unat_lt_2p[of b] by simp
  then show ?case using Cons.IH by simp
qed simp

lemma be_nat_bound: "be_nat bs < 256 ^ length bs"
  using le_nat_bound[of "rev bs"] by (simp add: be_nat_def)

end
