(* ===== verification/Events.thy ===== *)
theory Events
  imports Bytes
begin

text \<open>
  \<open>pkg/ebpf/types.go\<close>: the event record that flows through the agent, its accessors, the built-in
  lists of paths, ports and names, and \<open>DecodeEvent\<close>, which reads an event from a ring-buffer sample.
  A fixed-size array is a byte list (of that length in every event the decoder produces).
\<close>

section \<open>Constants\<close>

definition CatProcess :: u8 where "CatProcess = 1"
definition CatFile :: u8 where "CatFile = 2"
definition CatNetwork :: u8 where "CatNetwork = 3"
definition CatEscape :: u8 where "CatEscape = 4"
definition CatPrivilege :: u8 where "CatPrivilege = 5"
definition CatCredential :: u8 where "CatCredential = 6"

lemmas cat_defs = CatProcess_def CatFile_def CatNetwork_def CatEscape_def CatPrivilege_def CatCredential_def

definition CategoryName :: "(u8 \<times> string) list" where
  "CategoryName =
    [(CatProcess, ''PROCESS''), (CatFile, ''FILE''), (CatNetwork, ''NETWORK''),
     (CatEscape, ''ESCAPE''), (CatPrivilege, ''PRIVILEGE''), (CatCredential, ''CREDENTIAL'')]"

definition EvtExec :: u8 where "EvtExec = 1"
definition EvtFork :: u8 where "EvtFork = 2"
definition EvtExit :: u8 where "EvtExit = 3"
definition EvtFileOpen :: u8 where "EvtFileOpen = 10"
definition EvtFileUnlink :: u8 where "EvtFileUnlink = 11"
definition EvtFileMemfd :: u8 where "EvtFileMemfd = 12"
definition EvtFileRename :: u8 where "EvtFileRename = 13"
definition EvtNetConnect :: u8 where "EvtNetConnect = 20"
definition EvtNetListen :: u8 where "EvtNetListen = 21"
definition EvtNetState :: u8 where "EvtNetState = 22"
definition EvtNetUDP :: u8 where "EvtNetUDP = 23"
definition EvtSetns :: u8 where "EvtSetns = 30"
definition EvtUnshare :: u8 where "EvtUnshare = 31"
definition EvtMount :: u8 where "EvtMount = 32"
definition EvtPtrace :: u8 where "EvtPtrace = 33"
definition EvtModuleLoad :: u8 where "EvtModuleLoad = 34"
definition EvtBpfLoad :: u8 where "EvtBpfLoad = 35"
definition EvtSetuid :: u8 where "EvtSetuid = 40"
definition EvtSetresuid :: u8 where "EvtSetresuid = 41"
definition EvtCapset :: u8 where "EvtCapset = 42"
definition EvtChmod :: u8 where "EvtChmod = 43"
definition EvtCredAccess :: u8 where "EvtCredAccess = 50"

lemmas evt_defs = EvtExec_def EvtFork_def EvtExit_def EvtFileOpen_def EvtFileUnlink_def
  EvtFileMemfd_def EvtFileRename_def EvtNetConnect_def EvtNetListen_def EvtNetState_def
  EvtNetUDP_def EvtSetns_def EvtUnshare_def EvtMount_def EvtPtrace_def EvtModuleLoad_def
  EvtBpfLoad_def EvtSetuid_def EvtSetresuid_def EvtCapset_def EvtChmod_def EvtCredAccess_def

definition EventTypeName :: "(u8 \<times> string) list" where
  "EventTypeName =
    [(EvtExec, ''EXEC''), (EvtFork, ''FORK''), (EvtExit, ''EXIT''),
     (EvtFileOpen, ''FILE_OPEN''), (EvtFileUnlink, ''FILE_UNLINK''),
     (EvtFileMemfd, ''FILE_MEMFD''), (EvtFileRename, ''FILE_RENAME''),
     (EvtNetConnect, ''NET_CONNECT''), (EvtNetListen, ''NET_LISTEN''),
     (EvtNetState, ''NET_STATE''), (EvtNetUDP, ''NET_UDP''),
     (EvtSetns, ''SETNS''), (EvtUnshare, ''UNSHARE''), (EvtMount, ''MOUNT''),
     (EvtPtrace, ''PTRACE''), (EvtModuleLoad, ''MODULE_LOAD''), (EvtBpfLoad, ''BPF_LOAD''),
     (EvtSetuid, ''SETUID''), (EvtSetresuid, ''SETRESUID''), (EvtCapset, ''CAPSET''),
     (EvtChmod, ''CHMOD''), (EvtCredAccess, ''CRED_ACCESS'')]"

definition MaxCommLen :: nat where "MaxCommLen = 16"
definition MaxPathLen :: nat where "MaxPathLen = 256"
definition MaxArgsLen :: nat where "MaxArgsLen = 128"
definition MaxIPv4Addr :: nat where "MaxIPv4Addr = 4"
definition NSCount :: nat where "NSCount = 8"

lemmas size_defs = MaxCommLen_def MaxPathLen_def MaxArgsLen_def MaxIPv4Addr_def NSCount_def

section \<open>The event record\<close>

record process_payload =
  pp_Filename :: bytes
  pp_Args :: bytes

record file_payload =
  fp_Path :: bytes
  fp_Flags :: u32
  fp_Mode :: u32

record network_payload =
  np_LocalAddr :: bytes
  np_RemoteAddr :: bytes
  np_LocalPort :: u16
  np_RemotePort :: u16
  np_Protocol :: u8
  np_Family :: u8

record escape_payload =
  ep_NSType :: u32
  ep_TargetNS :: "u32 list"
  ep_NSCount :: u8

record privilege_payload =
  vp_OldUID :: u32
  vp_NewUID :: u32
  vp_Capability :: u32
  vp_ModeFlags :: u32

record scarlet_event =
  TimestampNS :: u64
  PID :: u32
  TGID :: u32
  PPID :: u32
  UID :: u32
  GID :: u32
  CgroupID :: u64
  PIDNSLevel :: u32
  Category :: u8
  EventType :: u8
  SyscallNr :: u16
  Comm :: bytes
  PayProcess :: process_payload
  PayFile :: file_payload
  PayNetwork :: network_payload
  PayEscape :: escape_payload
  PayPrivilege :: privilege_payload

text \<open>The zero values of the payload structs, which a fresh \<open>ScarletEvent\<close> holds.\<close>

definition zero_process :: process_payload where
  "zero_process = \<lparr>pp_Filename = replicate MaxPathLen 0, pp_Args = replicate MaxArgsLen 0\<rparr>"
definition zero_file :: file_payload where
  "zero_file = \<lparr>fp_Path = replicate MaxPathLen 0, fp_Flags = 0, fp_Mode = 0\<rparr>"
definition zero_network :: network_payload where
  "zero_network = \<lparr>np_LocalAddr = replicate MaxIPv4Addr 0, np_RemoteAddr = replicate MaxIPv4Addr 0,
     np_LocalPort = 0, np_RemotePort = 0, np_Protocol = 0, np_Family = 0\<rparr>"
definition zero_escape :: escape_payload where
  "zero_escape = \<lparr>ep_NSType = 0, ep_TargetNS = replicate NSCount 0, ep_NSCount = 0\<rparr>"
definition zero_privilege :: privilege_payload where
  "zero_privilege = \<lparr>vp_OldUID = 0, vp_NewUID = 0, vp_Capability = 0, vp_ModeFlags = 0\<rparr>"

lemmas zero_defs = zero_process_def zero_file_def zero_network_def zero_escape_def zero_privilege_def

definition zero_event :: scarlet_event where
  "zero_event = \<lparr>TimestampNS = 0, PID = 0, TGID = 0, PPID = 0, UID = 0, GID = 0, CgroupID = 0,
     PIDNSLevel = 0, Category = 0, EventType = 0, SyscallNr = 0, Comm = replicate MaxCommLen 0,
     PayProcess = zero_process, PayFile = zero_file, PayNetwork = zero_network,
     PayEscape = zero_escape, PayPrivilege = zero_privilege\<rparr>"

section \<open>Accessors\<close>

definition nullTerminatedString :: "bytes \<Rightarrow> string" where
  "nullTerminatedString b = string_of_bytes (takeWhile (\<lambda>c. c \<noteq> 0) b)"

definition CategoryString :: "scarlet_event \<Rightarrow> string" where
  "CategoryString e = (case map_of CategoryName (Category e) of
     Some name \<Rightarrow> name
   | None \<Rightarrow> ''UNKNOWN('' @ show_word (Category e) @ '')'')"

definition EventTypeString :: "scarlet_event \<Rightarrow> string" where
  "EventTypeString e = (case map_of EventTypeName (EventType e) of
     Some name \<Rightarrow> name
   | None \<Rightarrow> ''UNKNOWN('' @ show_word (EventType e) @ '')'')"

definition CommString :: "scarlet_event \<Rightarrow> string" where
  "CommString e = nullTerminatedString (Comm e)"

definition Filename :: "scarlet_event \<Rightarrow> string" where
  "Filename e = nullTerminatedString (pp_Filename (PayProcess e))"

definition Args :: "scarlet_event \<Rightarrow> string" where
  "Args e = nullTerminatedString (pp_Args (PayProcess e))"

definition FilePath :: "scarlet_event \<Rightarrow> string" where
  "FilePath e = nullTerminatedString (fp_Path (PayFile e))"

definition dotted_quad :: "bytes \<Rightarrow> string" where
  "dotted_quad addr = join ''.'' (map show_word addr)"

definition RemoteIP :: "scarlet_event \<Rightarrow> string" where
  "RemoteIP e = dotted_quad (np_RemoteAddr (PayNetwork e))"

definition LocalIP :: "scarlet_event \<Rightarrow> string" where
  "LocalIP e = dotted_quad (np_LocalAddr (PayNetwork e))"

definition RemotePort :: "scarlet_event \<Rightarrow> u16" where
  "RemotePort e = np_RemotePort (PayNetwork e)"

definition LocalPort :: "scarlet_event \<Rightarrow> u16" where
  "LocalPort e = np_LocalPort (PayNetwork e)"

definition IsContainer :: "scarlet_event \<Rightarrow> bool" where
  "IsContainer e \<longleftrightarrow> PIDNSLevel e > 0"

definition IsHost :: "scarlet_event \<Rightarrow> bool" where
  "IsHost e \<longleftrightarrow> PIDNSLevel e = 0"

section \<open>Built-in lists\<close>

definition SensitivePaths :: "string list" where
  "SensitivePaths =
    [''/etc/shadow'', ''/etc/passwd'', ''/etc/sudoers'', ''/root/.ssh'', ''/root/.ssh/'',
     ''/var/run/docker.sock'', ''/proc/1/ns'', ''/proc/1/environ'', ''/proc/1/maps'',
     ''/proc/kallsyms'', ''/proc/self/exe'', ''/proc/self/fd'', ''/var/run/secrets/kubernetes.io/'']"

fun IsSensitivePath_loop :: "string list \<Rightarrow> string \<Rightarrow> bool" where
  "IsSensitivePath_loop [] path = False"
| "IsSensitivePath_loop (prefix # ps) path =
     (if length path \<ge> length prefix \<and> take (length prefix) path = prefix then True
      else IsSensitivePath_loop ps path)"

definition IsSensitivePath :: "string \<Rightarrow> bool" where
  "IsSensitivePath path = IsSensitivePath_loop SensitivePaths path"

definition event_IsSensitivePath :: "scarlet_event \<Rightarrow> bool" where
  "event_IsSensitivePath e =
     (if Category e \<noteq> CatFile then False else IsSensitivePath (FilePath e))"

definition MinerPoolPorts :: "u16 list" where
  "MinerPoolPorts =
    [25, 3333, 3334, 3335, 3336, 3357, 4444, 5555, 5556, 5588, 5730, 6099,
     6666, 7777, 7778, 8333, 8888, 8899, 9332, 9999, 14433, 14444, 45560, 45700]"

definition IsMinerPoolPort :: "u16 \<Rightarrow> bool" where
  "IsMinerPoolPort port \<longleftrightarrow> port \<in> set MinerPoolPorts"

definition C2Ports :: "u16 list" where
  "C2Ports = [4444, 1337, 31337, 6666, 8080, 9001, 1234, 4443]"

definition IsC2Port :: "u16 \<Rightarrow> bool" where
  "IsC2Port port \<longleftrightarrow> port \<in> set C2Ports"

definition CloudMetadataIPs :: "string list" where
  "CloudMetadataIPs = [''169.254.169.254'', ''168.63.129.16'']"

definition IsCloudMetadataIP :: "string \<Rightarrow> bool" where
  "IsCloudMetadataIP ip \<longleftrightarrow> ip \<in> set CloudMetadataIPs"

definition ShellBinaries :: "string list" where
  "ShellBinaries = [''bash'', ''sh'', ''zsh'', ''dash'', ''ksh'', ''tcsh'', ''fish'', ''csh'']"

definition IsShellProcess :: "string \<Rightarrow> bool" where
  "IsShellProcess comm \<longleftrightarrow> comm \<in> set ShellBinaries"

definition MinerBinaries :: "string list" where
  "MinerBinaries =
    [''xmrig'', ''ccminer'', ''t-rex'', ''nanominer'', ''pwnrig'', ''minerd'', ''xmr-stak'',
     ''cpuminer'', ''cgminer'', ''bfgminer'', ''claymore'', ''ethminer'', ''phoenixminer'',
     ''nbminer'', ''lolMiner'']"

definition IsMinerProcess :: "string \<Rightarrow> bool" where
  "IsMinerProcess comm \<longleftrightarrow> comm \<in> set MinerBinaries"

definition DNSPort :: u16 where "DNSPort = 53"

definition IsDNSPort :: "u16 \<Rightarrow> bool" where
  "IsDNSPort port \<longleftrightarrow> port = DNSPort"

definition EventStructSize :: nat where "EventStructSize = 432"

definition SizeofScarletEvent :: nat where "SizeofScarletEvent = EventStructSize"

lemma IsSensitivePath_loop_iff:
  "IsSensitivePath_loop ps path \<longleftrightarrow> (\<exists>p \<in> set ps. has_prefix path p)"
  by (induction ps) (auto simp: has_prefix_def)

lemma IsSensitivePath_iff: "IsSensitivePath path \<longleftrightarrow> (\<exists>p \<in> set SensitivePaths. has_prefix path p)"
  by (simp add: IsSensitivePath_def IsSensitivePath_loop_iff)

lemma char_of_byte_nonzero: "c \<noteq> 0 \<Longrightarrow> char_of_byte c \<noteq> CHR 0x00"
proof
  assume "c \<noteq> 0" and "char_of_byte c = CHR 0x00"
  then have "(of_char (char_of_byte c) :: nat) = 0" by simp
  then have "unat c mod 256 = 0" by (simp add: char_of_byte_def)
  moreover have "unat c < 256" using unat_lt_2p[of c] by simp
  ultimately show False using \<open>c \<noteq> 0\<close> by (simp add: unat_eq_zero)
qed

lemma nullTerminatedString_no_nul: "CHR 0x00 \<notin> set (nullTerminatedString b)"
proof
  assume "CHR 0x00 \<in> set (nullTerminatedString b)"
  then obtain c where "c \<in> set (takeWhile (\<lambda>c. c \<noteq> 0) b)" and c: "char_of_byte c = CHR 0x00"
    by (auto simp: nullTerminatedString_def string_of_bytes_def)
  then have "c \<noteq> 0" by (auto dest: set_takeWhileD)
  with c show False by (simp add: char_of_byte_nonzero)
qed

lemma nullTerminatedString_zeros [simp]: "nullTerminatedString (replicate n 0) = []"
  by (cases n) (auto simp: nullTerminatedString_def string_of_bytes_def)

text \<open>A path padded with NUL bytes, as the kernel writes it, is read back exactly.\<close>

lemma nullTerminatedString_pad:
  assumes "0 \<notin> set (bytes_of_string s)"
  shows "nullTerminatedString (bytes_of_string s @ replicate n 0) = s"
proof -
  have "takeWhile (\<lambda>c. c \<noteq> 0) (bytes_of_string s @ replicate n 0) = bytes_of_string s"
    using assms by (cases n) (auto simp: takeWhile_append takeWhile_eq_all_conv)
  then show ?thesis by (simp add: nullTerminatedString_def)
qed

end
