(* ===== verification/Decode.thy ===== *)
theory Decode
  imports Events
begin

text \<open>
  \<open>DecodeEvent\<close> of \<open>pkg/ebpf/types.go\<close> and the wire layouts of
  \<open>struct scarlet_event\<close> of \<open>pkg/ebpf/include/security_scarlet_event.h\<close>, packed and naturally aligned.
  \<open>None\<close> is a panic (an out-of-range slice); \<open>Some (Inl msg)\<close> is the error return. The decoder never
  panics, drops a payload that does not fit and inverts the packed layout; the probes are compiled to
  the other one, of which it reads every member from \<open>cgroup_id\<close> on at the wrong place.
\<close>

definition decode_error :: "nat \<Rightarrow> string" where
  "decode_error n = ''event data too short: '' @ show_nat n @ '' bytes''"

section \<open>The decoder\<close>

text \<open>The eight \<open>target_ns\<close> words of an escape payload, read in a loop.\<close>

fun read_target_ns :: "bytes \<Rightarrow> nat \<Rightarrow> nat \<Rightarrow> (u32 list) option" where
  "read_target_ns data off 0 = Some []"
| "read_target_ns data off (Suc n) =
     do { w \<leftarrow> le32 data off; ws \<leftarrow> read_target_ns data (off + 4) n; Some (w # ws) }"

definition decode_payload :: "bytes \<Rightarrow> nat \<Rightarrow> scarlet_event \<Rightarrow> scarlet_event option" where
  "decode_payload data off e =
    (if Category e = CatProcess then
       if off + MaxPathLen + MaxArgsLen \<le> length data then
         do { f \<leftarrow> slice data off (off + MaxPathLen);
              a \<leftarrow> slice data (off + MaxPathLen) (off + MaxPathLen + MaxArgsLen);
              Some (e\<lparr>PayProcess := \<lparr>pp_Filename = f, pp_Args = a\<rparr>\<rparr>) }
       else Some e
     else if Category e = CatFile then
       if off + MaxPathLen + 4 + 4 \<le> length data then
         do { p \<leftarrow> slice data off (off + MaxPathLen);
              fl \<leftarrow> le32 data (off + MaxPathLen);
              md \<leftarrow> le32 data (off + MaxPathLen + 4);
              Some (e\<lparr>PayFile := \<lparr>fp_Path = p, fp_Flags = fl, fp_Mode = md\<rparr>\<rparr>) }
       else Some e
     else if Category e = CatNetwork then
       if off + 4 + 4 + 2 + 2 + 1 + 1 + 2 \<le> length data then
         do { la \<leftarrow> slice data off (off + 4);
              ra \<leftarrow> slice data (off + 4) (off + 8);
              lp \<leftarrow> le16 data (off + 8);
              rp \<leftarrow> le16 data (off + 10);
              pr \<leftarrow> index data (off + 12);
              fa \<leftarrow> index data (off + 13);
              Some (e\<lparr>PayNetwork := \<lparr>np_LocalAddr = la, np_RemoteAddr = ra, np_LocalPort = lp,
                       np_RemotePort = rp, np_Protocol = pr, np_Family = fa\<rparr>\<rparr>) }
       else Some e
     else if Category e = CatEscape then
       if off + 4 + NSCount * 4 + 1 + 3 \<le> length data then
         do { nt \<leftarrow> le32 data off;
              ns \<leftarrow> read_target_ns data (off + 4) NSCount;
              c \<leftarrow> index data (off + 4 + NSCount * 4);
              Some (e\<lparr>PayEscape := \<lparr>ep_NSType = nt, ep_TargetNS = ns, ep_NSCount = c\<rparr>\<rparr>) }
       else Some e
     else if Category e = CatPrivilege then
       if off + 4 * 4 \<le> length data then
         do { ou \<leftarrow> le32 data off;
              nu \<leftarrow> le32 data (off + 4);
              cp \<leftarrow> le32 data (off + 8);
              mf \<leftarrow> le32 data (off + 12);
              Some (e\<lparr>PayPrivilege := \<lparr>vp_OldUID = ou, vp_NewUID = nu, vp_Capability = cp,
                       vp_ModeFlags = mf\<rparr>\<rparr>) }
       else Some e
     else Some e)"

definition decode_header :: "bytes \<Rightarrow> scarlet_event option" where
  "decode_header data =
    do { ts \<leftarrow> le64 data 0;
         pid \<leftarrow> le32 data 8;
         tgid \<leftarrow> le32 data 12;
         ppid \<leftarrow> le32 data 16;
         uid \<leftarrow> le32 data 20;
         gid \<leftarrow> le32 data 24;
         cg \<leftarrow> le64 data 28;
         ns \<leftarrow> le32 data 36;
         cat \<leftarrow> index data 40;
         et \<leftarrow> index data 41;
         sn \<leftarrow> le16 data 42;
         comm \<leftarrow> slice data 46 (46 + MaxCommLen);
         Some (zero_event\<lparr>TimestampNS := ts, PID := pid, TGID := tgid, PPID := ppid, UID := uid,
           GID := gid, CgroupID := cg, PIDNSLevel := ns, Category := cat, EventType := et,
           SyscallNr := sn, Comm := comm\<rparr>) }"

definition DecodeEvent :: "bytes \<Rightarrow> (string + scarlet_event) option" where
  "DecodeEvent data =
    (if length data < 64 then Some (Inl (decode_error (length data)))
     else do { e \<leftarrow> decode_header data;
               e' \<leftarrow> decode_payload data (46 + MaxCommLen) e;
               Some (Inr e') })"

section \<open>The wire layout\<close>

text \<open>
  \<open>struct scarlet_event\<close> of \<open>pkg/ebpf/include/security_scarlet_event.h\<close>, the sample a probe leaves in
  the ring buffer. The header packs the struct only \<open>#ifndef __BPF__\<close>, and the probes are compiled with
  \<open>clang -target bpf\<close> (\<open>Makefile\<close>, \<open>Dockerfile\<close>), a target that predefines \<open>__BPF__\<close>. So there are two
  layouts: \<open>encode_event True\<close> is the packed one, which \<open>DecodeEvent\<close> is documented to read, and
  \<open>encode_event False\<close> the one the probes write, with each member at its natural alignment. A probe does
  not clear the reserved memory: bytes it does not write, alignment gaps, \<open>_pad\<close> and the rest of the
  payload union, keep what the memory held, \<open>old\<close> by offset.
\<close>

definition encode_payload :: "scarlet_event \<Rightarrow> bytes" where
  "encode_payload e =
    (if Category e = CatProcess then pp_Filename (PayProcess e) @ pp_Args (PayProcess e)
     else if Category e = CatFile then
       fp_Path (PayFile e) @ put_le32 (fp_Flags (PayFile e)) @ put_le32 (fp_Mode (PayFile e))
     else if Category e = CatNetwork then
       np_LocalAddr (PayNetwork e) @ np_RemoteAddr (PayNetwork e) @
       put_le16 (np_LocalPort (PayNetwork e)) @ put_le16 (np_RemotePort (PayNetwork e)) @
       [np_Protocol (PayNetwork e), np_Family (PayNetwork e)]
     else if Category e = CatEscape then
       put_le32 (ep_NSType (PayEscape e)) @ concat (map put_le32 (ep_TargetNS (PayEscape e))) @
       [ep_NSCount (PayEscape e)]
     else if Category e = CatPrivilege then
       put_le32 (vp_OldUID (PayPrivilege e)) @ put_le32 (vp_NewUID (PayPrivilege e)) @
       put_le32 (vp_Capability (PayPrivilege e)) @ put_le32 (vp_ModeFlags (PayPrivilege e))
     else [])"

text \<open>The payload is a C union, so every sample has the size of the largest member.\<close>

definition union_size :: nat where "union_size = MaxPathLen + MaxArgsLen"

text \<open>The members in order: alignment, size, and the bytes that are written.\<close>

definition event_members :: "scarlet_event \<Rightarrow> (nat \<times> nat \<times> bytes) list" where
  "event_members e =
     [(8, 8, put_le64 (TimestampNS e)), (4, 4, put_le32 (PID e)), (4, 4, put_le32 (TGID e)),
      (4, 4, put_le32 (PPID e)), (4, 4, put_le32 (UID e)), (4, 4, put_le32 (GID e)),
      (8, 8, put_le64 (CgroupID e)), (4, 4, put_le32 (PIDNSLevel e)),
      (1, 1, [Category e]), (1, 1, [EventType e]), (2, 2, put_le16 (SyscallNr e)), (1, 2, []),
      (1, MaxCommLen, Comm e), (4, union_size, encode_payload e)]"

definition round_up :: "nat \<Rightarrow> nat \<Rightarrow> nat" where
  "round_up a n = (n + a - 1) div a * a"

definition held :: "(nat \<Rightarrow> u8) \<Rightarrow> nat \<Rightarrow> nat \<Rightarrow> bytes" where
  "held old m n = map old [m..<n]"

text \<open>The C layout rule: a member starts at the next multiple of its alignment, at once if packed.\<close>

fun lay_out :: "bool \<Rightarrow> (nat \<Rightarrow> u8) \<Rightarrow> nat \<Rightarrow> (nat \<times> nat \<times> bytes) list \<Rightarrow> bytes" where
  "lay_out packed old n [] = []"
| "lay_out packed old n ((a, sz, b) # ms) =
     (let at = (if packed then n else round_up a n)
      in held old n at @ b @ held old (at + length b) (at + sz) @ lay_out packed old (at + sz) ms)"

definition encode_event :: "bool \<Rightarrow> (nat \<Rightarrow> u8) \<Rightarrow> scarlet_event \<Rightarrow> bytes" where
  "encode_event packed old e =
    (let d = lay_out packed old 0 (event_members e)
     in if packed then d else d @ held old (length d) (round_up 8 (length d)))"

text \<open>The events the kernel can produce: fixed array lengths, and only the payload of the category set.\<close>

definition wf_event :: "scarlet_event \<Rightarrow> bool" where
  "wf_event e \<longleftrightarrow>
     length (Comm e) = MaxCommLen \<and>
     length (pp_Filename (PayProcess e)) = MaxPathLen \<and> length (pp_Args (PayProcess e)) = MaxArgsLen \<and>
     length (fp_Path (PayFile e)) = MaxPathLen \<and>
     length (np_LocalAddr (PayNetwork e)) = MaxIPv4Addr \<and> length (np_RemoteAddr (PayNetwork e)) = MaxIPv4Addr \<and>
     length (ep_TargetNS (PayEscape e)) = NSCount"

definition one_payload :: "scarlet_event \<Rightarrow> bool" where
  "one_payload e \<longleftrightarrow>
     (Category e \<noteq> CatProcess \<longrightarrow> PayProcess e = zero_process) \<and>
     (Category e \<noteq> CatFile \<longrightarrow> PayFile e = zero_file) \<and>
     (Category e \<noteq> CatNetwork \<longrightarrow> PayNetwork e = zero_network) \<and>
     (Category e \<noteq> CatEscape \<longrightarrow> PayEscape e = zero_escape) \<and>
     (Category e \<noteq> CatPrivilege \<longrightarrow> PayPrivilege e = zero_privilege)"

section \<open>Totality\<close>

lemma read_target_ns_ok:
  "off + 4 * n \<le> length data \<Longrightarrow> \<exists>ws. read_target_ns data off n = Some ws \<and> length ws = n"
proof (induction n arbitrary: off)
  case (Suc n)
  have "off + 4 + 4 * n \<le> length data" using Suc.prems by simp
  then obtain ws where "read_target_ns data (off + 4) n = Some ws" "length ws = n"
    using Suc.IH by blast
  with Suc.prems show ?case by (simp add: byte_read)
qed simp

lemma decode_header_ok:
  assumes "62 \<le> length data"
  obtains e where "decode_header data = Some e" and "wf_event e" and "one_payload e"
    and "PayProcess e = zero_process" and "PayFile e = zero_file"
  using assms
  by (simp add: decode_header_def byte_read size_defs wf_event_def one_payload_def zero_event_def zero_defs)

definition payload_ok :: "scarlet_event \<Rightarrow> scarlet_event option \<Rightarrow> bool" where
  "payload_ok e r \<longleftrightarrow> (\<exists>e'. r = Some e' \<and> wf_event e' \<and> one_payload e' \<and> Category e' = Category e)"

lemma decode_payload_escape_ok:
  assumes wf: "wf_event e" "one_payload e" and cat: "Category e = CatEscape"
  shows "payload_ok e (decode_payload data off e)"
proof (cases "off + 4 + NSCount * 4 + 1 + 3 \<le> length data")
  case True
  then obtain ws where "read_target_ns data (off + 4) NSCount = Some ws" "length ws = NSCount"
    using read_target_ns_ok[of "off + 4" NSCount data] by (auto simp: size_defs)
  with True wf cat show ?thesis
    by (simp add: payload_ok_def decode_payload_def byte_read wf_event_def one_payload_def cat_defs)
qed (use wf cat in \<open>simp add: payload_ok_def decode_payload_def cat_defs\<close>)

lemma decode_payload_process_ok:
  "wf_event e \<Longrightarrow> one_payload e \<Longrightarrow> Category e = CatProcess \<Longrightarrow> payload_ok e (decode_payload data off e)"
  by (simp add: payload_ok_def decode_payload_def byte_read wf_event_def one_payload_def size_defs cat_defs)

lemma decode_payload_file_ok:
  "wf_event e \<Longrightarrow> one_payload e \<Longrightarrow> Category e = CatFile \<Longrightarrow> payload_ok e (decode_payload data off e)"
  by (simp add: payload_ok_def decode_payload_def byte_read wf_event_def one_payload_def size_defs cat_defs)

lemma decode_payload_network_ok:
  "wf_event e \<Longrightarrow> one_payload e \<Longrightarrow> Category e = CatNetwork \<Longrightarrow> payload_ok e (decode_payload data off e)"
  by (simp add: payload_ok_def decode_payload_def byte_read wf_event_def one_payload_def size_defs cat_defs)

lemma decode_payload_privilege_ok:
  "wf_event e \<Longrightarrow> one_payload e \<Longrightarrow> Category e = CatPrivilege \<Longrightarrow> payload_ok e (decode_payload data off e)"
  by (simp add: payload_ok_def decode_payload_def byte_read wf_event_def one_payload_def size_defs cat_defs)

lemma decode_payload_ok:
  assumes "wf_event e" and "one_payload e"
  shows "payload_ok e (decode_payload data off e)"
proof -
  consider "Category e = CatProcess" | "Category e = CatFile" | "Category e = CatNetwork"
    | "Category e = CatEscape" | "Category e = CatPrivilege"
    | "Category e \<notin> {CatProcess, CatFile, CatNetwork, CatEscape, CatPrivilege}"
    by blast
  then show ?thesis
    using assms decode_payload_process_ok decode_payload_file_ok decode_payload_network_ok
      decode_payload_escape_ok decode_payload_privilege_ok
    by cases (auto simp: payload_ok_def decode_payload_def)
qed

section \<open>Round trip\<close>

text \<open>The packed header with the two \<open>_pad\<close> bytes \<open>p\<close>.\<close>

definition packed_header :: "bytes \<Rightarrow> scarlet_event \<Rightarrow> bytes" where
  "packed_header p e =
     put_le64 (TimestampNS e) @ put_le32 (PID e) @ put_le32 (TGID e) @ put_le32 (PPID e) @
     put_le32 (UID e) @ put_le32 (GID e) @ put_le64 (CgroupID e) @ put_le32 (PIDNSLevel e) @
     [Category e, EventType e] @ put_le16 (SyscallNr e) @ p @ Comm e"

lemma length_packed_header:
  "length p = 2 \<Longrightarrow> length (Comm e) = MaxCommLen \<Longrightarrow> length (packed_header p e) = 62"
  by (simp add: packed_header_def size_defs)

lemma length_held [simp]: "length (held old m n) = n - m"
  by (simp add: held_def)

lemma held_same [simp]: "n \<le> m \<Longrightarrow> held old m n = []"
  by (simp add: held_def)

lemma length_concat_put: "length (concat (map put_le32 ws)) = 4 * length ws"
  by (induction ws) auto

lemma length_encode_payload: "wf_event e \<Longrightarrow> length (encode_payload e) \<le> union_size"
  by (simp add: encode_payload_def wf_event_def size_defs union_size_def length_concat_put)

lemma lay_out_full:
  "length b = sz \<Longrightarrow> lay_out packed old n ((a, sz, b) # ms) =
     held old n (if packed then n else round_up a n) @ b @ lay_out packed old ((if packed then n else round_up a n) + sz) ms"
  by (simp add: Let_def)

lemma packed_layout:
  assumes "wf_event e"
  shows "encode_event True old e = packed_header (held old 44 46) e @
    (encode_payload e @ held old (62 + length (encode_payload e)) 446)"
proof -
  have l: "length (Comm e) = 16" using assms by (simp add: wf_event_def size_defs)
  show ?thesis
    by (simp add: encode_event_def event_members_def packed_header_def union_size_def size_defs l del: lay_out.simps(2) add: lay_out_full)
       (simp add: Let_def l)
qed

lemma round_ups:
  "round_up 8 0 = 0" "round_up 4 8 = 8" "round_up 4 12 = 12" "round_up 4 16 = 16" "round_up 4 20 = 20"
  "round_up 4 24 = 24" "round_up 8 28 = 32" "round_up 4 40 = 40" "round_up (Suc 0) n = n" "round_up 2 46 = 46"
  "round_up 4 66 = 68" "round_up 8 452 = 456"
  by (simp_all add: round_up_def)

lemma natural_layout:
  assumes "wf_event e"
  shows "encode_event False old e =
    put_le64 (TimestampNS e) @ put_le32 (PID e) @ put_le32 (TGID e) @ put_le32 (PPID e) @
    put_le32 (UID e) @ put_le32 (GID e) @ held old 28 32 @ put_le64 (CgroupID e) @ put_le32 (PIDNSLevel e) @
    [Category e, EventType e] @ put_le16 (SyscallNr e) @ held old 48 50 @ Comm e @ held old 66 68 @
    encode_payload e @ held old (68 + length (encode_payload e)) 452 @ held old 452 456"
proof -
  have l: "length (Comm e) = 16" using assms by (simp add: wf_event_def size_defs)
  have lp: "length (encode_payload e) \<le> 384"
    using length_encode_payload[OF assms] by (simp add: union_size_def size_defs)
  have m: "lay_out False old 0 (event_members e) =
    put_le64 (TimestampNS e) @ put_le32 (PID e) @ put_le32 (TGID e) @ put_le32 (PPID e) @
    put_le32 (UID e) @ put_le32 (GID e) @ held old 28 32 @ put_le64 (CgroupID e) @ put_le32 (PIDNSLevel e) @
    [Category e, EventType e] @ put_le16 (SyscallNr e) @ held old 48 50 @ Comm e @ held old 66 68 @
    encode_payload e @ held old (68 + length (encode_payload e)) 452"
    by (simp add: event_members_def union_size_def size_defs l lay_out_full round_ups del: lay_out.simps(2))
       (simp add: Let_def l round_ups)
  have "length (lay_out False old 0 (event_members e)) = 452"
    unfolding m using l lp by simp
  then show ?thesis by (simp add: encode_event_def Let_def round_ups) (simp add: m)
qed

lemma length_encode_event:
  assumes "wf_event e"
  shows "length (encode_event True old e) = 446" and "length (encode_event False old e) = 456"
  using assms length_encode_payload[OF assms]
  by (simp_all add: packed_layout natural_layout length_packed_header wf_event_def union_size_def size_defs)

lemma slice_append_right:
  "length h \<le> a \<Longrightarrow> a \<le> b \<Longrightarrow> slice (h @ r) a b = slice r (a - length h) (b - length h)"
  by (auto simp: slice_def drop_append diff_diff_left)

lemma read_append_right:
  "length h \<le> a \<Longrightarrow> le64 (h @ r) a = le64 r (a - length h)"
  "length h \<le> a \<Longrightarrow> le32 (h @ r) a = le32 r (a - length h)"
  "length h \<le> a \<Longrightarrow> le16 (h @ r) a = le16 r (a - length h)"
  "length h \<le> a \<Longrightarrow> index (h @ r) a = index r (a - length h)"
  by (auto simp: le64_def le32_def le16_def slice_append_right index_def nth_append Suc_diff_le)

lemma read_Cons_right:
  "0 < a \<Longrightarrow> le64 (x # r) a = le64 r (a - 1)"
  "0 < a \<Longrightarrow> le32 (x # r) a = le32 r (a - 1)"
  "0 < a \<Longrightarrow> le16 (x # r) a = le16 r (a - 1)"
  "0 < a \<Longrightarrow> index (x # r) a = index r (a - 1)"
  "0 < a \<Longrightarrow> a \<le> b \<Longrightarrow> slice (x # r) a b = slice r (a - 1) (b - 1)"
  using read_append_right[of "[x]" a r] slice_append_right[of "[x]" a b r] by auto

lemma read_here:
  "le64 (put_le64 w @ r) 0 = Some w"
  "le32 (put_le32 v @ r) 0 = Some v"
  "le16 (put_le16 u @ r) 0 = Some u"
  "le32 (put_le32 v) 0 = Some v"
  "index (x # r) 0 = Some x"
  by (simp_all add: le64_def le32_def le16_def slice_def index_def)

lemma slice_here: "length m = n \<Longrightarrow> slice (m @ r) 0 n = Some m"
  by (simp add: slice_def)

lemma slice_here_all: "length m = n \<Longrightarrow> slice m 0 n = Some m"
  by (simp add: slice_def)

lemmas wire_reads = read_append_right read_Cons_right read_here slice_append_right slice_here slice_here_all

lemma decode_header_encode:
  assumes "length p = 2" and "length (Comm e) = MaxCommLen"
  shows "decode_header (packed_header p e @ r) =
    Some (zero_event\<lparr>TimestampNS := TimestampNS e, PID := PID e, TGID := TGID e, PPID := PPID e,
      UID := UID e, GID := GID e, CgroupID := CgroupID e, PIDNSLevel := PIDNSLevel e,
      Category := Category e, EventType := EventType e, SyscallNr := SyscallNr e, Comm := Comm e\<rparr>)"
proof -
  let ?d = "packed_header p e @ r"
  have "le64 ?d 0 = Some (TimestampNS e)" "le32 ?d 8 = Some (PID e)" "le32 ?d 12 = Some (TGID e)"
    "le32 ?d 16 = Some (PPID e)" "le32 ?d 20 = Some (UID e)" "le32 ?d 24 = Some (GID e)"
    by (simp_all add: packed_header_def wire_reads)
  moreover have "le64 ?d 28 = Some (CgroupID e)" "le32 ?d 36 = Some (PIDNSLevel e)"
    "index ?d 40 = Some (Category e)" "index ?d 41 = Some (EventType e)"
    "le16 ?d 42 = Some (SyscallNr e)"
    by (simp_all add: packed_header_def wire_reads)
  moreover have "slice ?d 46 62 = Some (Comm e)"
    using assms by (simp add: packed_header_def wire_reads size_defs)
  ultimately show ?thesis by (simp add: decode_header_def size_defs)
qed

lemma read_target_ns_shift:
  "length h \<le> off \<Longrightarrow> read_target_ns (h @ r) off n = read_target_ns r (off - length h) n"
proof (induction n arbitrary: off)
  case (Suc n)
  have "read_target_ns (h @ r) (off + 4) n = read_target_ns r (off - length h + 4) n"
    using Suc.IH[of "off + 4"] Suc.prems by simp
  with Suc.prems show ?case
    by (simp only: read_target_ns.simps read_append_right(2))
qed simp

lemma read_target_ns_encode:
  "read_target_ns (concat (map put_le32 ws) @ r) 0 (length ws) = Some ws"
proof (induction ws)
  case (Cons w ws)
  have "read_target_ns (put_le32 w @ concat (map put_le32 ws) @ r) 4 (length ws) = Some ws"
    using Cons.IH by (simp add: read_target_ns_shift)
  then show ?case by (simp add: wire_reads)
qed simp

lemma decode_payload_shift:
  "decode_payload (h @ r) (length h) e = decode_payload r 0 e"
  by (simp add: decode_payload_def read_append_right slice_append_right read_target_ns_shift add.assoc)

text \<open>The event the header read leaves, with the payload still zero.\<close>

definition header_of :: "scarlet_event \<Rightarrow> scarlet_event" where
  "header_of e = e\<lparr>PayProcess := zero_process, PayFile := zero_file, PayNetwork := zero_network,
     PayEscape := zero_escape, PayPrivilege := zero_privilege\<rparr>"

lemma decode_header_encode':
  "length p = 2 \<Longrightarrow> wf_event e \<Longrightarrow> decode_header (packed_header p e @ r) = Some (header_of e)"
  by (simp add: decode_header_encode wf_event_def header_of_def zero_event_def)

lemma decode_payload_encode:
  assumes wf: "wf_event e" and one: "one_payload e" and len: "length (encode_payload e @ z) = union_size"
  shows "decode_payload (encode_payload e @ z) 0 (header_of e) = Some e"
proof -
  let ?d = "encode_payload e @ z"
  have u: "length ?d = 384" using len by (simp add: union_size_def size_defs)
  consider (P) "Category e = CatProcess" | (F) "Category e = CatFile" | (N) "Category e = CatNetwork"
    | (E) "Category e = CatEscape" | (V) "Category e = CatPrivilege"
    | (O) "Category e \<notin> {CatProcess, CatFile, CatNetwork, CatEscape, CatPrivilege}"
    by blast
  then show ?thesis
  proof cases
    case P
    then have "slice ?d 0 256 = Some (pp_Filename (PayProcess e))"
      "slice ?d 256 384 = Some (pp_Args (PayProcess e))"
      using wf by (simp_all add: encode_payload_def wf_event_def size_defs wire_reads)
    with P u one show ?thesis
      by (simp add: decode_payload_def header_of_def size_defs one_payload_def cat_defs)
  next
    case F
    then have "slice ?d 0 256 = Some (fp_Path (PayFile e))" "le32 ?d 256 = Some (fp_Flags (PayFile e))"
      "le32 ?d 260 = Some (fp_Mode (PayFile e))"
      using wf by (simp_all add: encode_payload_def wf_event_def size_defs wire_reads cat_defs)
    with F u one show ?thesis
      by (simp add: decode_payload_def header_of_def size_defs one_payload_def cat_defs)
  next
    case N
    then have "slice ?d 0 4 = Some (np_LocalAddr (PayNetwork e))"
      "slice ?d 4 8 = Some (np_RemoteAddr (PayNetwork e))"
      "le16 ?d 8 = Some (np_LocalPort (PayNetwork e))" "le16 ?d 10 = Some (np_RemotePort (PayNetwork e))"
      "index ?d 12 = Some (np_Protocol (PayNetwork e))" "index ?d 13 = Some (np_Family (PayNetwork e))"
      using wf by (simp_all add: encode_payload_def wf_event_def size_defs wire_reads cat_defs)
    with N u one show ?thesis
      by (simp add: decode_payload_def header_of_def size_defs one_payload_def cat_defs)
  next
    case E
    let ?ns = "ep_TargetNS (PayEscape e)"
    have d: "?d = put_le32 (ep_NSType (PayEscape e)) @ (concat (map put_le32 ?ns) @
        (ep_NSCount (PayEscape e) # z))"
      using E by (simp add: encode_payload_def cat_defs)
    have l: "length ?ns = 8" using wf by (simp add: wf_event_def size_defs)
    have "le32 ?d 0 = Some (ep_NSType (PayEscape e))" by (simp only: d read_here)
    moreover have "read_target_ns ?d 4 8 = Some ?ns"
      using read_target_ns_encode[of ?ns] l by (simp only: d) (simp add: read_target_ns_shift)
    moreover have "index ?d 36 = Some (ep_NSCount (PayEscape e))"
      using l by (simp only: d) (simp add: read_append_right length_concat_put read_here)
    ultimately show ?thesis using E u one
      by (simp add: decode_payload_def header_of_def size_defs one_payload_def cat_defs)
  next
    case V
    then have "le32 ?d 0 = Some (vp_OldUID (PayPrivilege e))" "le32 ?d 4 = Some (vp_NewUID (PayPrivilege e))"
      "le32 ?d 8 = Some (vp_Capability (PayPrivilege e))" "le32 ?d 12 = Some (vp_ModeFlags (PayPrivilege e))"
      by (simp_all add: encode_payload_def wire_reads cat_defs)
    with V u one show ?thesis
      by (simp add: decode_payload_def header_of_def size_defs one_payload_def cat_defs)
  next
    case O
    with one show ?thesis by (simp add: decode_payload_def header_of_def one_payload_def)
  qed
qed

lemma decode_header_category: "decode_header data = Some e \<Longrightarrow> index data 40 = Some (Category e)"
  by (auto simp: decode_header_def bind_eq_Some_conv)

lemma DecodeEvent_category:
  assumes "DecodeEvent data = Some (Inr e)"
  shows "index data 40 = Some (Category e)"
proof -
  have len: "62 \<le> length data" using assms by (auto simp: DecodeEvent_def split: if_splits)
  then obtain e0 where e0: "decode_header data = Some e0" "wf_event e0" "one_payload e0"
    using decode_header_ok by blast
  moreover obtain e1 where "decode_payload data (46 + MaxCommLen) e0 = Some e1" "Category e1 = Category e0"
    using decode_payload_ok[OF e0(2,3)] unfolding payload_ok_def by blast
  moreover from this e0 assms have "e1 = e" by (simp add: DecodeEvent_def split: if_splits)
  ultimately show ?thesis using decode_header_category by metis
qed

section \<open>Properties\<close>

text \<open>C19: \<open>DecodeEvent\<close> never panics on any ring-buffer sample. It returns the error exactly for
  samples shorter than 64 bytes; otherwise it returns an event whose arrays have their fixed lengths
  and in which no payload but the one of the event's category is set.\<close>

theorem decode_total:
  "\<exists>r. DecodeEvent data = Some r \<and>
     (case r of Inl msg \<Rightarrow> length data < 64 \<and> msg = decode_error (length data)
      | Inr e \<Rightarrow> 64 \<le> length data \<and> wf_event e \<and> one_payload e)"
proof (cases "length data < 64")
  case False
  then obtain e where e: "decode_header data = Some e" "wf_event e" "one_payload e"
    using decode_header_ok[of data] by auto
  then obtain e' where "decode_payload data 62 e = Some e'" "wf_event e'" "one_payload e'"
    using decode_payload_ok[of e data 62] by (auto simp: payload_ok_def)
  with e False show ?thesis by (simp add: DecodeEvent_def size_defs)
qed (simp add: DecodeEvent_def)

section \<open>What the decoder makes of a probe's sample\<close>

lemma put_le_le_nat: "put_le (length bs) (le_nat bs) = bs"
proof (induction bs)
  case (Cons b bs)
  have "unat b < 256" using unat_lt_2p[of b] by simp
  then show ?case using Cons.IH by simp
qed simp

lemma put_le_onto:
  "length bs = 2 \<Longrightarrow> put_le16 (of_nat (le_nat bs)) = bs"
  "length bs = 4 \<Longrightarrow> put_le32 (of_nat (le_nat bs)) = bs"
  "length bs = 8 \<Longrightarrow> put_le64 (of_nat (le_nat bs)) = bs"
  using le_nat_bound[of bs] put_le_le_nat[of bs]
  by (simp_all add: put_le16_def put_le32_def put_le64_def unat_of_nat)

lemma decode_payload_header:
  assumes "decode_payload data off e = Some e'"
  shows "TimestampNS e' = TimestampNS e" and "PID e' = PID e" and "TGID e' = TGID e" and "PPID e' = PPID e"
    and "UID e' = UID e" and "GID e' = GID e" and "CgroupID e' = CgroupID e"
    and "PIDNSLevel e' = PIDNSLevel e" and "Category e' = Category e" and "EventType e' = EventType e"
    and "SyscallNr e' = SyscallNr e" and "Comm e' = Comm e"
  using assms by (auto simp: decode_payload_def bind_eq_Some_conv split: if_splits)

text \<open>The header fields the decoder returns for a naturally aligned sample of \<open>e\<close>.\<close>

definition misread :: "(nat \<Rightarrow> u8) \<Rightarrow> scarlet_event \<Rightarrow> scarlet_event \<Rightarrow> bool" where
  "misread old e e' \<longleftrightarrow>
     TimestampNS e' = TimestampNS e \<and> PID e' = PID e \<and> TGID e' = TGID e \<and> PPID e' = PPID e \<and>
     UID e' = UID e \<and> GID e' = GID e \<and>
     put_le64 (CgroupID e') = held old 28 32 @ take 4 (put_le64 (CgroupID e)) \<and>
     put_le32 (PIDNSLevel e') = drop 4 (put_le64 (CgroupID e)) \<and>
     [Category e', EventType e'] @ put_le16 (SyscallNr e') = put_le32 (PIDNSLevel e) \<and>
     Comm e' = put_le16 (SyscallNr e) @ held old 48 50 @ take 12 (Comm e)"

lemma natural_misread:
  assumes wf: "wf_event e"
  shows "\<exists>e'. DecodeEvent (encode_event False old e) = Some (Inr e') \<and> misread old e e'"
proof -
  let ?d = "encode_event False old e"
  define n where "n = put_le32 (PIDNSLevel e)"
  define sy where "sy = (of_nat (le_nat (drop 2 n)) :: u16)"
  define h where "h = e\<lparr>CgroupID := of_nat (le_nat (held old 28 32 @ take 4 (put_le64 (CgroupID e)))),
    PIDNSLevel := of_nat (le_nat (drop 4 (put_le64 (CgroupID e)))), Category := n ! 0, EventType := n ! 1,
    SyscallNr := sy,
    Comm := put_le16 (SyscallNr e) @ held old 48 50 @ take 12 (Comm e)\<rparr>"
  have ln: "length n = 4" by (simp add: n_def)
  then have sy: "put_le16 sy = drop 2 n" unfolding sy_def by (intro put_le_onto) simp
  from ln obtain a b c d where n4: "n = [a, b, c, d]" by (auto simp: length_Suc_conv numeral_eq_Suc)
  have l: "length (Comm e) = 16" using wf by (simp add: wf_event_def size_defs)
  have m: "misread old e h"
    using n4 unfolding misread_def h_def by (simp add: put_le_onto sy n_def[symmetric])
  have "?d = packed_header [Category e, EventType e] h @
      (drop 12 (Comm e) @ held old 66 68 @ encode_payload e @ held old (68 + length (encode_payload e)) 452 @ held old 452 456)"
    unfolding natural_layout[OF wf] packed_header_def h_def
    using n4 by (simp add: put_le_onto sy n_def[symmetric])
  moreover have hw: "wf_event h" using wf l by (simp add: h_def wf_event_def size_defs)
  ultimately have hd: "decode_header ?d = Some (header_of h)" by (simp add: decode_header_encode')
  have "wf_event (header_of h)" "one_payload (header_of h)"
    using hw by (simp_all add: header_of_def wf_event_def one_payload_def zero_defs size_defs)
  then obtain e' where e': "decode_payload ?d (46 + MaxCommLen) (header_of h) = Some e'"
    using decode_payload_ok unfolding payload_ok_def by blast
  have "DecodeEvent ?d = Some (Inr e')"
    by (simp add: DecodeEvent_def hd e' length_encode_event(2)[OF wf])
  moreover have "misread old e e'"
    using m decode_payload_header[OF e'] by (simp add: misread_def header_of_def)
  ultimately show ?thesis by blast
qed

text \<open>The depth of a PID namespace is at most 32, so its upper three bytes are zero: every sample a
  probe writes is decoded with event type 0 and system call 0, which no probe sends, and with the
  depth as its category, whatever the probe reported.\<close>

lemma probe_type_lost:
  assumes "wf_event e" and "unat (PIDNSLevel e) < 256"
  shows "\<exists>e'. DecodeEvent (encode_event False old e) = Some (Inr e') \<and> EventType e' = 0 \<and> SyscallNr e' = 0 \<and>
    unat (Category e') = unat (PIDNSLevel e)"
proof -
  have n: "put_le32 (PIDNSLevel e) = [of_nat (unat (PIDNSLevel e)), 0, 0, 0]"
  proof -
    have four: "4 = Suc (Suc (Suc (Suc 0)))" by simp
    show ?thesis unfolding put_le32_def four put_le.simps using assms(2) by (simp add: div_less mod_less)
  qed
  obtain e' where e': "DecodeEvent (encode_event False old e) = Some (Inr e')" "misread old e e'"
    using natural_misread[OF assms(1)] by blast
  then have m: "Category e' = of_nat (unat (PIDNSLevel e))" "EventType e' = 0" "put_le16 (SyscallNr e') = [0, 0]"
    using n by (simp_all add: misread_def)
  have "unat (SyscallNr e') = 0" using arg_cong[OF m(3), of le_nat] by simp
  then have "SyscallNr e' = 0" by (simp add: unat_eq_zero)
  moreover have "unat (Category e') = unat (PIDNSLevel e)"
    using m(1) assms(2) by (simp only: unat_of_nat) simp
  ultimately show ?thesis using m(2) e'(1) by blast
qed

section \<open>The properties of the round trip\<close>

text \<open>C10: \<open>DecodeEvent\<close> and the two layouts of the C header, whatever the reserved memory held. Every
  well-formed event written in the packed layout, which \<open>DecodeEvent\<close> is documented to read, is decoded
  to exactly that event, whatever its category. Written as the probes are compiled, at natural alignment,
  it is decoded without an error to an event that has its first six fields and no other: the cgroup
  identifier is four stale bytes and the low half of the real one, the namespace level is its high half,
  category, event type and system call are the bytes of the namespace level, and the task name begins with
  the system call number.\<close>

theorem decode_encode:
  assumes "wf_event e" and "one_payload e"
  shows "DecodeEvent (encode_event True old e) = Some (Inr e) \<and>
    (\<exists>e'. DecodeEvent (encode_event False old e) = Some (Inr e') \<and> misread old e e')"
proof -
  let ?z = "held old (62 + length (encode_payload e)) 446" and ?p = "held old 44 46"
  note d = packed_layout[OF assms(1), of old]
  have len: "length (encode_payload e @ ?z) = union_size"
    using length_encode_payload[OF assms(1)] by (simp add: union_size_def size_defs)
  have h: "length (packed_header ?p e) = 46 + MaxCommLen"
    using assms(1) by (simp add: wf_event_def length_packed_header size_defs)
  have "decode_payload (encode_event True old e) (46 + MaxCommLen) (header_of e) = Some e"
    using decode_payload_shift[of "packed_header ?p e"] decode_payload_encode[OF assms len] d h by metis
  moreover have "decode_header (encode_event True old e) = Some (header_of e)"
    by (simp add: d decode_header_encode' assms(1))
  ultimately have "DecodeEvent (encode_event True old e) = Some (Inr e)"
    by (simp add: DecodeEvent_def length_encode_event(1)[OF assms(1)])
  with natural_misread[OF assms(1)] show ?thesis by blast
qed

definition sample_exec :: scarlet_event where
  "sample_exec = zero_event\<lparr>PID := 4321, Category := CatProcess, EventType := EvtExec,
     Comm := bytes_of_string ''bash'' @ replicate 12 0,
     PayProcess := \<lparr>pp_Filename = bytes_of_string ''/bin/bash'' @ replicate 247 0,
       pp_Args = bytes_of_string ''-i'' @ replicate 126 0\<rparr>\<rparr>"

lemma wf_sample_exec: "wf_event sample_exec" "one_payload sample_exec"
  by (simp_all add: sample_exec_def wf_event_def one_payload_def zero_event_def zero_defs size_defs cat_defs)

theorem decode_encode_witness:
  "wf_event sample_exec \<and> one_payload sample_exec \<and>
   DecodeEvent (encode_event True (\<lambda>_. 0) sample_exec) = Some (Inr sample_exec) \<and>
   (\<exists>e'. DecodeEvent (encode_event False (\<lambda>_. 0) sample_exec) = Some (Inr e') \<and>
     misread (\<lambda>_. 0) sample_exec e')"
  using decode_encode[OF wf_sample_exec] wf_sample_exec by simp

text \<open>A process sample of \<open>EventStructSize\<close> bytes (the size the package reports for the struct) is
  too short for the process payload, which ends at byte 446: the decoder returns an event with an empty
  file name and an empty command line.\<close>

theorem decode_struct_size_drops_process:
  assumes "length data = SizeofScarletEvent" and "DecodeEvent data = Some (Inr e)"
    and "Category e = CatProcess"
  shows "Filename e = [] \<and> Args e = []"
proof -
  have len: "length data = 432" using assms(1) by (simp add: SizeofScarletEvent_def EventStructSize_def)
  then obtain e0 where e0: "decode_header data = Some e0" "wf_event e0" "one_payload e0"
      "PayProcess e0 = zero_process"
    using decode_header_ok[of data] by auto
  obtain e1 where e1: "decode_payload data 62 e0 = Some e1" "Category e1 = Category e0"
    using decode_payload_ok[OF e0(2,3), of data 62] by (auto simp: payload_ok_def)
  have "e1 = e" using assms(2) e0(1) e1(1) len by (simp add: DecodeEvent_def size_defs)
  then have "e = e0" using e1 assms(3) len by (simp add: decode_payload_def size_defs)
  then show ?thesis using e0(4) by (simp add: Filename_def Args_def zero_process_def)
qed

theorem decode_struct_size_drops_process_witness:
  "\<exists>e. DecodeEvent (replicate 40 0 @ [CatProcess] @ replicate 391 0) = Some (Inr e) \<and>
     Category e = CatProcess \<and> Filename e = [] \<and> Args e = []"
proof -
  let ?d = "replicate 40 0 @ [CatProcess] @ replicate 391 0 :: bytes"
  obtain r where r: "DecodeEvent ?d = Some r"
    and l: "case r of Inl msg \<Rightarrow> length ?d < 64 \<and> msg = decode_error (length ?d)
            | Inr e \<Rightarrow> 64 \<le> length ?d \<and> wf_event e \<and> one_payload e"
    using decode_total[of ?d] by blast
  from r l obtain e where e: "DecodeEvent ?d = Some (Inr e)" by (cases r) auto
  have "index ?d 40 = Some CatProcess" by (simp add: index_def nth_append)
  then have "Category e = CatProcess" using DecodeEvent_category[OF e] by simp
  moreover have "length ?d = SizeofScarletEvent"
    by (simp add: SizeofScarletEvent_def EventStructSize_def)
  ultimately show ?thesis using decode_struct_size_drops_process[OF _ e] e by blast
qed

end
