(* ===== verification/Cond_Parser.thy ===== *)
theory Cond_Parser
  imports Prelude
begin

text \<open>
  The condition parser of \<open>pkg/rules/compiler.go\<close>: whitespace normalisation, macro expansion, the
  parenthesis-aware splitting helpers and the recursive descent parser that turns a condition string
  into an expression tree. The parser's mutual recursion is written with fuel (\<open>None\<close> is "out of
  fuel"); \<open>parse_fuel\<close> shows that the fuel \<open>compileCondition\<close> gives it always suffices, i.e. that
  the Go recursion ends on every input.
\<close>

section \<open>Expression trees\<close>

record condition_check =
  cc_Field :: string
  cc_Op :: string
  cc_Values :: "string list"

datatype cond_expr =
  CAnd cond_expr cond_expr
| COr cond_expr cond_expr
| CNot cond_expr
| CLeaf condition_check

section \<open>Whitespace and macros\<close>

text \<open>\<open>\s\<close> of the regular expressions.\<close>

definition re_space :: "char \<Rightarrow> bool" where
  "re_space c \<longleftrightarrow> c \<in> set [CHR '' '', CHR 0x09, CHR 0x0A, CHR 0x0C, CHR 0x0D]"

function collapse_ws :: "string \<Rightarrow> string" where
  "collapse_ws [] = []"
| "collapse_ws (c # cs) =
     (if re_space c then CHR '' '' # collapse_ws (dropWhile re_space cs) else c # collapse_ws cs)"
  by pat_completeness auto
termination
  by (relation "measure length") (auto simp: length_dropWhile_le le_imp_less_Suc)

definition normalizeWhitespace :: "string \<Rightarrow> string" where
  "normalizeWhitespace s = trim_space (collapse_ws s)"

text \<open>
  One macro: \<open>(^|[\s(,])name($|[\s),])\<close> is replaced, leftmost match first and without overlap, by the
  parenthesised macro condition between the two delimiters. The delimiter after a match is consumed
  by it. (A macro condition with a dollar sign, which the replacement template would interpret, is
  not modelled.)
\<close>

definition left_delim :: "char \<Rightarrow> bool" where
  "left_delim c \<longleftrightarrow> re_space c \<or> c = CHR ''('' \<or> c = CHR '',''"

definition right_delim :: "char \<Rightarrow> bool" where
  "right_delim c \<longleftrightarrow> re_space c \<or> c = CHR '')'' \<or> c = CHR '',''"

definition name_here :: "string \<Rightarrow> string \<Rightarrow> bool" where
  "name_here name s \<longleftrightarrow> has_prefix s name \<and>
     (case drop (length name) s of [] \<Rightarrow> True | d # _ \<Rightarrow> right_delim d)"

function replace_macro :: "string \<Rightarrow> string \<Rightarrow> bool \<Rightarrow> string \<Rightarrow> string \<times> bool" where
  "replace_macro name cond at_start s =
    (if at_start \<and> name_here name s then
       (let r = drop (length name) s
        in (''('' @ cond @ '')'' @ take 1 r @ fst (replace_macro name cond False (drop 1 r)), True))
     else (case s of
       [] \<Rightarrow> ([], False)
     | c # cs \<Rightarrow>
         if left_delim c \<and> name_here name cs then
           (let r = drop (length name) cs
            in (c # ''('' @ cond @ '')'' @ take 1 r @ fst (replace_macro name cond False (drop 1 r)), True))
         else (case replace_macro name cond False cs of (t, m) \<Rightarrow> (c # t, m))))"
  by pat_completeness auto
termination
  by (relation "measures [\<lambda>(n, c, b, s). length s, \<lambda>(n, c, b, s). if b then 1 else 0]") auto

declare replace_macro.simps [simp del]

fun expand_round :: "(string \<times> string) list \<Rightarrow> string \<Rightarrow> string \<times> bool" where
  "expand_round [] condition = (condition, False)"
| "expand_round ((name, cond) # ms) condition =
     (case replace_macro name cond True condition of (condition', matched) \<Rightarrow>
      (case expand_round ms (if matched then condition' else condition) of (r, changed) \<Rightarrow>
        (r, matched \<or> changed)))"

text \<open>At most ten rounds; \<open>orders k\<close> is the order in which round \<open>k\<close> ranges over the macro map.\<close>

fun expand_rounds :: "nat \<Rightarrow> (nat \<Rightarrow> (string \<times> string) list) \<Rightarrow> string \<Rightarrow> string" where
  "expand_rounds 0 orders condition = condition"
| "expand_rounds (Suc k) orders condition =
     (case expand_round (orders (10 - Suc k)) condition of (condition', changed) \<Rightarrow>
        if changed then expand_rounds k orders condition' else condition')"

definition expandMacros :: "(nat \<Rightarrow> (string \<times> string) list) \<Rightarrow> string \<Rightarrow> string" where
  "expandMacros orders condition = expand_rounds 10 orders condition"

section \<open>Depth-aware splitting\<close>

definition paren_step :: "int \<Rightarrow> char \<Rightarrow> int" where
  "paren_step d c = (if c = CHR ''('' then d + 1 else if c = CHR '')'' then d - 1 else d)"

text \<open>\<open>cur\<close> is the part read since the last separator, in reverse.\<close>

fun split_loop :: "string \<Rightarrow> int \<Rightarrow> string \<Rightarrow> string \<Rightarrow> string list" where
  "split_loop sep d cur [] = [trim_space (rev cur)]"
| "split_loop sep d cur (c # cs) =
     (let d' = paren_step d c
      in if d' = 0 \<and> has_prefix (c # cs) sep
         then trim_space (rev cur) # split_loop sep d' [] (drop (length sep - 1) cs)
         else split_loop sep d' (c # cur) cs)"

definition splitAtDepth0 :: "string \<Rightarrow> string \<Rightarrow> string list" where
  "splitAtDepth0 s sep = split_loop sep 0 [] s"

fun contains_loop :: "string \<Rightarrow> int \<Rightarrow> string \<Rightarrow> bool" where
  "contains_loop op d [] = False"
| "contains_loop op d (c # cs) =
     (let d' = paren_step d c
      in if d' = 0 \<and> has_prefix (c # cs) op then True else contains_loop op d' cs)"

definition containsOperatorAtDepth0 :: "string \<Rightarrow> string \<Rightarrow> bool" where
  "containsOperatorAtDepth0 s op = contains_loop op 0 s"

text \<open>The balance check of \<open>stripOuterParens\<close> and \<open>isBalanced\<close>: depth 0 is reached at the last byte only.\<close>

fun balance_loop :: "int \<Rightarrow> string \<Rightarrow> bool" where
  "balance_loop d [] \<longleftrightarrow> d = 0"
| "balance_loop d (c # cs) \<longleftrightarrow>
     (let d' = paren_step d c in if d' = 0 \<and> cs \<noteq> [] then False else balance_loop d' cs)"

definition isBalanced :: "string \<Rightarrow> bool" where
  "isBalanced s \<longleftrightarrow>
     (if length s < 2 \<or> hd s \<noteq> CHR ''('' \<or> last s \<noteq> CHR '')'' then False else balance_loop 0 s)"

definition stripOuterParens :: "string \<Rightarrow> string \<times> bool" where
  "stripOuterParens s0 =
    (let s = trim_space s0
     in if length s < 2 \<or> hd s \<noteq> CHR ''('' \<or> last s \<noteq> CHR '')'' then (s, False)
        else if balance_loop 0 s then (butlast (tl s), True) else (s, False))"

lemma length_trim_le [simp]: "length (trim_space s) \<le> length s"
  by (rule length_dropWhile_rev_le)

lemma strip_shorter: "stripOuterParens s = (t, True) \<Longrightarrow> length t < length s"
proof -
  assume a: "stripOuterParens s = (t, True)"
  then have "t = butlast (tl (trim_space s))" "2 \<le> length (trim_space s)"
    by (auto simp: stripOuterParens_def Let_def split: if_splits)
  then have "length t < length (trim_space s)" by simp
  then show ?thesis by (rule less_le_trans) simp
qed

lemma strip_rec: "(x, True) = stripOuterParens s \<Longrightarrow> length (trim_space x) < length s"
  by (rule le_less_trans[OF length_trim_le strip_shorter]) simp

function strip_all :: "string \<Rightarrow> string" where
  "strip_all expr =
     (case stripOuterParens expr of (s, changed) \<Rightarrow>
        if changed then strip_all (trim_space s) else expr)"
  by pat_completeness auto
termination
  by (relation "measure length") (simp_all add: strip_rec)

declare strip_all.simps [simp del]

section \<open>Atomic checks\<close>

definition paren_wrapped :: "string \<Rightarrow> bool" where
  "paren_wrapped v \<longleftrightarrow> has_prefix v ''('' \<and> has_suffix v '')''"

text \<open>\<open>valStr[1:len-1]\<close>, used under \<open>paren_wrapped\<close>, so on at least two bytes.\<close>

definition inner :: "string \<Rightarrow> string" where
  "inner v = butlast (tl v)"

definition list_values :: "(string \<rightharpoonup> string list) \<Rightarrow> string \<Rightarrow> string list" where
  "list_values lsts rhs =
    (let v0 = trim_space rhs; v = (if paren_wrapped v0 then inner v0 else v0)
     in case lsts v of Some items \<Rightarrow> items | None \<Rightarrow> map trim_space (split_on (CHR '','') v))"

definition single_value :: "string \<Rightarrow> string" where
  "single_value rhs =
    (let v = trim_space rhs in if paren_wrapped v \<and> isBalanced v then inner v else v)"

definition parseSingleCheck :: "(string \<rightharpoonup> string list) \<Rightarrow> string \<Rightarrow> string + condition_check" where
  "parseSingleCheck lsts expr =
    (if expr = ''container'' \<or> expr = ''container.id != host'' then
       Inr \<lparr>cc_Field = ''container'', cc_Op = ''is_container'', cc_Values = []\<rparr>
     else (case split_first '' not in '' expr of Some (l, r) \<Rightarrow>
       Inr \<lparr>cc_Field = trim_space l, cc_Op = ''not_in'', cc_Values = list_values lsts r\<rparr>
     | None \<Rightarrow> (case split_first '' in '' expr of Some (l, r) \<Rightarrow>
       Inr \<lparr>cc_Field = trim_space l, cc_Op = ''in'', cc_Values = list_values lsts r\<rparr>
     | None \<Rightarrow> (case split_first '' contains '' expr of Some (l, r) \<Rightarrow>
       Inr \<lparr>cc_Field = trim_space l, cc_Op = ''contains'', cc_Values = [single_value r]\<rparr>
     | None \<Rightarrow> (case split_first '' startswith '' expr of Some (l, r) \<Rightarrow>
       Inr \<lparr>cc_Field = trim_space l, cc_Op = ''startswith'', cc_Values = [single_value r]\<rparr>
     | None \<Rightarrow> (case split_first '' pmatch '' expr of Some (l, r) \<Rightarrow>
       Inr \<lparr>cc_Field = trim_space l, cc_Op = ''pmatch'',
            cc_Values = map trim_space (split_on (CHR '','') (single_value r))\<rparr>
     | None \<Rightarrow> (case split_first '' = '' expr of Some (l, r) \<Rightarrow>
       Inr \<lparr>cc_Field = trim_space l, cc_Op = ''='', cc_Values = [trim_space r]\<rparr>
     | None \<Rightarrow> (case split_first '' != '' expr of Some (l, r) \<Rightarrow>
       Inr \<lparr>cc_Field = trim_space l, cc_Op = ''!='', cc_Values = [trim_space r]\<rparr>
     | None \<Rightarrow>
       if str_contains expr ''evt.type'' then
         Inr \<lparr>cc_Field = ''evt.type'', cc_Op = ''any'', cc_Values = []\<rparr>
       else if expr = ''evt.is_open_exec'' then
         Inr \<lparr>cc_Field = ''evt.is_open_exec'', cc_Op = ''bool'', cc_Values = []\<rparr>
       else Inl (''unrecognized condition: '' @ expr)))))))))"

definition false_check :: condition_check where
  "false_check = \<lparr>cc_Field = ''passthrough'', cc_Op = ''false'', cc_Values = []\<rparr>"

section \<open>The recursive descent parser\<close>

type_synonym parse_result = "(string + cond_expr) option"

text \<open>The loop over the parts after the first, building a left-associative tree.\<close>

fun fold_parts :: "(string \<Rightarrow> parse_result) \<Rightarrow> (cond_expr \<Rightarrow> cond_expr \<Rightarrow> cond_expr) \<Rightarrow>
    cond_expr \<Rightarrow> string list \<Rightarrow> parse_result" where
  "fold_parts f mk node [] = Some (Inr node)"
| "fold_parts f mk node (p # ps) =
     (case f p of
        None \<Rightarrow> None
      | Some (Inl err) \<Rightarrow> Some (Inl err)
      | Some (Inr right) \<Rightarrow> fold_parts f mk (mk node right) ps)"

definition parse_parts :: "(string \<Rightarrow> parse_result) \<Rightarrow> (cond_expr \<Rightarrow> cond_expr \<Rightarrow> cond_expr) \<Rightarrow>
    string list \<Rightarrow> parse_result" where
  "parse_parts f mk parts =
     (case f (hd parts) of
        None \<Rightarrow> None
      | Some (Inl err) \<Rightarrow> Some (Inl err)
      | Some (Inr node) \<Rightarrow> fold_parts f mk node (tl parts))"

fun parseOrExpr :: "(string \<rightharpoonup> string list) \<Rightarrow> nat \<Rightarrow> string \<Rightarrow> parse_result"
and parseAndExpr :: "(string \<rightharpoonup> string list) \<Rightarrow> nat \<Rightarrow> string \<Rightarrow> parse_result"
and parseLeafExpr :: "(string \<rightharpoonup> string list) \<Rightarrow> nat \<Rightarrow> string \<Rightarrow> parse_result" where
  "parseOrExpr lsts 0 expr = None"
| "parseOrExpr lsts (Suc n) expr =
     parse_parts (parseAndExpr lsts n) COr (splitAtDepth0 expr '' or '')"
| "parseAndExpr lsts 0 expr = None"
| "parseAndExpr lsts (Suc n) expr =
     parse_parts (parseLeafExpr lsts n) CAnd (splitAtDepth0 expr '' and '')"
| "parseLeafExpr lsts 0 expr0 = None"
| "parseLeafExpr lsts (Suc n) expr0 =
     (let expr = trim_space expr0
      in if expr = [] then Some (Inl ''empty leaf expression'')
         else if has_prefix expr ''not '' then
           (case parseLeafExpr lsts n (drop 4 expr) of
              None \<Rightarrow> None
            | Some (Inl err) \<Rightarrow> Some (Inl err)
            | Some (Inr node) \<Rightarrow> Some (Inr (CNot node)))
         else
           let expr' = strip_all expr
           in if containsOperatorAtDepth0 expr' '' or '' \<or> containsOperatorAtDepth0 expr' '' and ''
              then parseOrExpr lsts n expr'
              else (case parseSingleCheck lsts expr' of
                      Inl err \<Rightarrow> Some (Inr (CLeaf false_check))
                    | Inr check \<Rightarrow> Some (Inr (CLeaf check))))"

definition parseConditionExpr :: "(string \<rightharpoonup> string list) \<Rightarrow> string \<Rightarrow> parse_result" where
  "parseConditionExpr lsts condition =
    (let c = to_lower (trim_space condition)
     in if c = [] then Some (Inl ''empty condition'')
        else parseOrExpr lsts (3 * length c + 3) c)"

section \<open>Lemmas: splitting\<close>

lemma trim_space_idem [simp]: "trim_space (trim_space s) = trim_space s"
proof -
  define m where "m = dropWhile is_space s"
  define t where "t = rev (dropWhile is_space (rev m))"
  have hd_m: "m = [] \<or> \<not> is_space (hd m)"
    using hd_dropWhile[of is_space s] by (auto simp: m_def)
  have pre: "\<exists>r. m = t @ r"
    by (rule exI[of _ "rev (takeWhile is_space (rev m))"])
      (simp add: t_def flip: rev_append)
  have "t = [] \<or> \<not> is_space (hd t)"
    using hd_m pre by (cases t) auto
  then have 1: "dropWhile is_space t = t" by (cases t) auto
  have 2: "dropWhile is_space (rev t) = rev t"
    by (simp add: t_def dropWhile_idem)
  have "trim_space t = t" using 1 2 by (simp add: trim_space_def)
  then show ?thesis by (simp add: trim_space_def t_def m_def)
qed

lemma split_loop_ne: "split_loop sep d cur s \<noteq> []"
  by (induction sep d cur s rule: split_loop.induct) (auto simp: Let_def)

lemma split_loop_single:
  "\<not> contains_loop sep d s \<Longrightarrow> split_loop sep d cur s = [trim_space (rev cur @ s)]"
  by (induction sep d cur s rule: split_loop.induct) (auto simp: Let_def split: if_splits)

lemma split_loop_length:
  "p \<in> set (split_loop sep d cur s) \<Longrightarrow> length p \<le> length cur + length s"
proof (induction sep d cur s rule: split_loop.induct)
  case (1 sep d cur)
  then show ?case using length_trim_le[of "rev cur"] by simp
next
  case (2 sep d cur c cs)
  show ?case
  proof (cases "paren_step d c = 0 \<and> has_prefix (c # cs) sep")
    case True
    with 2(3) consider "p = trim_space (rev cur)"
      | "p \<in> set (split_loop sep (paren_step d c) [] (drop (length sep - 1) cs))" by auto
    then show ?thesis
    proof cases
      case 1
      then show ?thesis using length_trim_le[of "rev cur"] by simp
    next
      case b: 2
      show ?thesis using 2(1)[OF refl True b] by simp
    qed
  next
    case False
    with 2(3) have "p \<in> set (split_loop sep (paren_step d c) (c # cur) cs)" by (simp add: Let_def)
    from 2(2)[OF refl False this] show ?thesis by simp
  qed
qed

lemma split_loop_shorter:
  "contains_loop sep d s \<Longrightarrow> p \<in> set (split_loop sep d cur s) \<Longrightarrow> length p < length cur + length s"
proof (induction sep d cur s rule: split_loop.induct)
  case (2 sep d cur c cs)
  show ?case
  proof (cases "paren_step d c = 0 \<and> has_prefix (c # cs) sep")
    case True
    with 2(4) consider "p = trim_space (rev cur)"
      | "p \<in> set (split_loop sep (paren_step d c) [] (drop (length sep - 1) cs))" by auto
    then show ?thesis
    proof cases
      case 1
      then show ?thesis using length_trim_le[of "rev cur"] by simp
    next
      case b: 2
      show ?thesis using split_loop_length[OF b] by simp
    qed
  next
    case False
    with 2(3,4) have "contains_loop sep (paren_step d c) cs"
      "p \<in> set (split_loop sep (paren_step d c) (c # cur) cs)" by (auto simp: Let_def)
    from 2(2)[OF refl False this] show ?thesis by simp
  qed
qed simp

lemma split_ne [simp]: "splitAtDepth0 s sep \<noteq> []"
  by (simp add: splitAtDepth0_def split_loop_ne)

lemma split_single:
  "\<not> containsOperatorAtDepth0 s sep \<Longrightarrow> splitAtDepth0 s sep = [trim_space s]"
  by (simp add: splitAtDepth0_def containsOperatorAtDepth0_def split_loop_single)

lemma split_length: "p \<in> set (splitAtDepth0 s sep) \<Longrightarrow> length p \<le> length s"
  using split_loop_length[of p sep 0 "[]" s] by (simp add: splitAtDepth0_def)

lemma split_shorter:
  "containsOperatorAtDepth0 s sep \<Longrightarrow> p \<in> set (splitAtDepth0 s sep) \<Longrightarrow> length p < length s"
  using split_loop_shorter[of sep 0 s p "[]"]
  by (simp add: splitAtDepth0_def containsOperatorAtDepth0_def)

lemma strip_all_cases:
  "trim_space e = e \<Longrightarrow> trim_space (strip_all e) = strip_all e \<and>
     (strip_all e = e \<or> length (strip_all e) < length e)"
proof (induction e rule: strip_all.induct)
  case (1 e)
  obtain s ch where st: "stripOuterParens e = (s, ch)" by force
  show ?case
  proof (cases ch)
    case True
    have *: "strip_all e = strip_all (trim_space s)"
      by (subst strip_all.simps) (simp add: st True)
    have "length (trim_space s) < length e"
      using strip_shorter[of e s] st True le_less_trans[OF length_trim_le] by simp
    moreover have "trim_space (strip_all (trim_space s)) = strip_all (trim_space s) \<and>
      (strip_all (trim_space s) = trim_space s \<or> length (strip_all (trim_space s)) < length (trim_space s))"
      by (rule 1(1)[OF st[symmetric] True]) simp
    ultimately show ?thesis unfolding * by auto
  next
    case False
    then have "strip_all e = e" by (subst strip_all.simps) (simp add: st)
    with 1(2) show ?thesis by simp
  qed
qed

section \<open>The parser returns on every input\<close>

lemma fold_parts_total:
  "(\<And>p. p \<in> set ps \<Longrightarrow> f p \<noteq> None) \<Longrightarrow> fold_parts f mk node ps \<noteq> None"
  by (induction f mk node ps rule: fold_parts.induct) (auto split: option.splits sum.splits)

lemma parse_parts_total:
  "ps \<noteq> [] \<Longrightarrow> (\<And>p. p \<in> set ps \<Longrightarrow> f p \<noteq> None) \<Longrightarrow> parse_parts f mk ps \<noteq> None"
  by (cases ps; simp add: parse_parts_def split: option.splits sum.splits)
    (metis fold_parts_total not_None_eq)

text \<open>
  The fuel that suffices, per function, on an expression of length \<open>n\<close>. A leaf that is re-parsed
  either got shorter or contains an operator, and then the two splitting levels make it shorter.
\<close>

lemma parse_fuel:
  "(3 * length e + 1 \<le> k \<longrightarrow> parseLeafExpr lsts k e \<noteq> None) \<and>
   (3 * length e + 2 \<le> k \<longrightarrow> parseAndExpr lsts k e \<noteq> None) \<and>
   (3 * length e + 3 \<le> k \<longrightarrow> parseOrExpr lsts k e \<noteq> None)"
proof (induction "length e" arbitrary: e k rule: less_induct)
  case less
  have leafS: "parseLeafExpr lsts m p \<noteq> None" if "length p < length e" "3 * length p + 1 \<le> m" for p m
    using less that by blast
  have andS: "parseAndExpr lsts m p \<noteq> None" if "length p < length e" "3 * length p + 2 \<le> m" for p m
    using less that by blast
  have orS: "parseOrExpr lsts m p \<noteq> None" if "length p < length e" "3 * length p + 3 \<le> m" for p m
    using less that by blast
  have and_op: "parseAndExpr lsts m x \<noteq> None"
    if "length x \<le> length e" "containsOperatorAtDepth0 x '' and ''" "3 * length x \<le> m + 1" for m x
  proof -
    have "0 < length x" using that(2) by (auto simp: containsOperatorAtDepth0_def)
    with that(3) have "0 < m" by linarith
    then obtain m' where m: "m = Suc m'" by (cases m) auto
    show ?thesis unfolding m parseAndExpr.simps
      by (rule parse_parts_total, simp, rule leafS)
        (use split_shorter[OF that(2)] that m in force)+
  qed
  have or_op: "parseOrExpr lsts m x \<noteq> None"
    if "length x \<le> length e" "trim_space x = x"
      "containsOperatorAtDepth0 x '' or '' \<or> containsOperatorAtDepth0 x '' and ''"
      "3 * length x \<le> m" for m x
  proof -
    have "0 < length x" using that(3) by (auto simp: containsOperatorAtDepth0_def)
    with that(4) have "0 < m" by linarith
    then obtain m' where m: "m = Suc m'" by (cases m) auto
    show ?thesis
    proof (cases "containsOperatorAtDepth0 x '' or ''")
      case True
      show ?thesis unfolding m parseOrExpr.simps
        by (rule parse_parts_total, simp, rule andS)
          (use split_shorter[OF True] that m in force)+
    next
      case False
      with that show ?thesis unfolding m parseOrExpr.simps
        using and_op[of x m'] m by (intro parse_parts_total) (auto simp: split_single)
    qed
  qed
  have leaf: "parseLeafExpr lsts m x \<noteq> None" if "length x \<le> length e" "3 * length x + 1 \<le> m" for m x
  proof -
    from that(2) obtain m' where m: "m = Suc m'" by (cases m) auto
    define t where "t = trim_space x"
    have lt: "length t \<le> length x" "trim_space t = t" by (simp_all add: t_def)
    have "parseLeafExpr lsts m' (drop 4 t) \<noteq> None" if "has_prefix t ''not ''"
    proof -
      have "length (drop 4 t) + 4 \<le> length t" using that by (simp add: has_prefix_def)
      then show ?thesis
        using leafS[of "drop 4 t" m'] lt(1) \<open>length x \<le> length e\<close> \<open>3 * length x + 1 \<le> m\<close> m by linarith
    qed
    moreover have "parseOrExpr lsts m' (strip_all t) \<noteq> None"
      if "containsOperatorAtDepth0 (strip_all t) '' or '' \<or> containsOperatorAtDepth0 (strip_all t) '' and ''"
      using or_op[of "strip_all t" m'] orS[of "strip_all t" m'] strip_all_cases[OF lt(2)] lt(1) that
        \<open>length x \<le> length e\<close> \<open>3 * length x + 1 \<le> m\<close> m by fastforce
    ultimately show ?thesis
      unfolding m parseLeafExpr.simps
      by (auto simp: Let_def simp flip: t_def split: option.splits sum.splits)
  qed
  have "and": "parseAndExpr lsts m x \<noteq> None" if "length x \<le> length e" "3 * length x + 2 \<le> m" for m x
  proof -
    from that(2) obtain m' where m: "m = Suc m'" by (cases m) auto
    show ?thesis unfolding m parseAndExpr.simps
      by (rule parse_parts_total, simp, rule leaf) (use split_length that m in force)+
  qed
  have "parseOrExpr lsts m e \<noteq> None" if "3 * length e + 3 \<le> m" for m
  proof -
    from that obtain m' where m: "m = Suc m'" by (cases m) auto
    show ?thesis unfolding m parseOrExpr.simps
      by (rule parse_parts_total, simp, rule "and") (use split_length that m in force)+
  qed
  with leaf "and" show ?case by blast
qed

lemma parse_total: "parseConditionExpr lsts s \<noteq> None"
  using parse_fuel by (simp add: parseConditionExpr_def Let_def)

section \<open>More fuel does not change the result\<close>

lemma fold_parts_mono:
  "(\<And>p x. f p = Some x \<Longrightarrow> g p = Some x) \<Longrightarrow> fold_parts f mk node ps = Some r \<Longrightarrow>
     fold_parts g mk node ps = Some r"
proof (induction ps arbitrary: node)
  case (Cons p ps)
  from Cons.prems(2) obtain y where y: "f p = Some y" by (cases "f p") auto
  with Cons.prems(1) have "g p = Some y" .
  with y Cons.prems(2) Cons.IH[OF Cons.prems(1)] show ?case by (cases y) auto
qed simp

lemma parse_parts_mono:
  assumes "\<And>p x. f p = Some x \<Longrightarrow> g p = Some x" "parse_parts f mk ps = Some r"
  shows "parse_parts g mk ps = Some r"
proof -
  obtain y where y: "f (hd ps) = Some y" using assms(2) by (auto simp: parse_parts_def split: option.splits)
  with assms(1) have "g (hd ps) = Some y" .
  with y assms(2) fold_parts_mono[of f g, OF assms(1)] show ?thesis
    by (cases y) (auto simp: parse_parts_def)
qed

lemma parse_mono_Suc:
  "(\<forall>s r. parseOrExpr lsts n s = Some r \<longrightarrow> parseOrExpr lsts (Suc n) s = Some r) \<and>
   (\<forall>s r. parseAndExpr lsts n s = Some r \<longrightarrow> parseAndExpr lsts (Suc n) s = Some r) \<and>
   (\<forall>s r. parseLeafExpr lsts n s = Some r \<longrightarrow> parseLeafExpr lsts (Suc n) s = Some r)"
proof (induction n)
  case (Suc n)
  have "parseOrExpr lsts (Suc (Suc n)) s = Some r" if "parseOrExpr lsts (Suc n) s = Some r" for s r
    using that unfolding parseOrExpr.simps(2)
    by (rule parse_parts_mono[rotated]) (use Suc in blast)
  moreover have "parseAndExpr lsts (Suc (Suc n)) s = Some r" if "parseAndExpr lsts (Suc n) s = Some r" for s r
    using that unfolding parseAndExpr.simps(2)
    by (rule parse_parts_mono[rotated]) (use Suc in blast)
  moreover have "parseLeafExpr lsts (Suc (Suc n)) s = Some r"
    if a: "parseLeafExpr lsts (Suc n) s = Some r" for s r
  proof -
    define t where "t = trim_space s"
    consider "t = []" | "t \<noteq> []" "has_prefix t ''not ''" | "t \<noteq> []" "\<not> has_prefix t ''not ''" by blast
    then show ?thesis
    proof cases
      case 1
      with a show ?thesis unfolding parseLeafExpr.simps(2) Let_def t_def[symmetric] by simp
    next
      case 2
      obtain y where y: "parseLeafExpr lsts n (drop 4 t) = Some y"
        using a 2 unfolding parseLeafExpr.simps(2) Let_def t_def[symmetric]
        by (auto split: option.splits)
      with Suc have "parseLeafExpr lsts (Suc n) (drop 4 t) = Some y" by blast
      with y a 2 show ?thesis
        unfolding parseLeafExpr.simps(2)[of _ "Suc n"] parseLeafExpr.simps(2)[of _ n s]
          Let_def t_def[symmetric] by simp
    next
      case 3
      with a Suc show ?thesis
        unfolding parseLeafExpr.simps(2)[of _ "Suc n"] parseLeafExpr.simps(2)[of _ n s]
          Let_def t_def[symmetric] by (auto split: if_splits)
    qed
  qed
  ultimately show ?case by blast
qed simp

lemma parse_mono:
  assumes "n \<le> m"
  shows "parseOrExpr lsts n s = Some r \<Longrightarrow> parseOrExpr lsts m s = Some r"
    and "parseAndExpr lsts n s = Some r \<Longrightarrow> parseAndExpr lsts m s = Some r"
    and "parseLeafExpr lsts n s = Some r \<Longrightarrow> parseLeafExpr lsts m s = Some r"
  using assms by (induction rule: dec_induct) (auto dest: parse_mono_Suc[THEN conjunct1, rule_format]
    parse_mono_Suc[THEN conjunct2, THEN conjunct1, rule_format]
    parse_mono_Suc[THEN conjunct2, THEN conjunct2, rule_format] simp del: parseOrExpr.simps parseAndExpr.simps parseLeafExpr.simps)

text \<open>C18: The condition parser returns on every input: its recursion ends, and the result does not
  depend on how much fuel beyond \<open>3 * length + 3\<close> the model gives it.\<close>

theorem parser_returns:
  "\<exists>r. parseConditionExpr lsts s = Some r \<and>
     (to_lower (trim_space s) \<noteq> [] \<longrightarrow>
       (\<forall>n. 3 * length (to_lower (trim_space s)) + 3 \<le> n \<longrightarrow>
          parseOrExpr lsts n (to_lower (trim_space s)) = Some r))"
proof -
  obtain r where r: "parseConditionExpr lsts s = Some r" using parse_total[of lsts s] by auto
  moreover have "parseOrExpr lsts n (to_lower (trim_space s)) = Some r"
    if "to_lower (trim_space s) \<noteq> []" "3 * length (to_lower (trim_space s)) + 3 \<le> n" for n
    using parse_mono(1)[OF that(2), of lsts] r that(1) unfolding parseConditionExpr_def Let_def by auto
  ultimately show ?thesis by blast
qed

theorem parser_returns_witness:
  "\<exists>r. parseOrExpr (\<lambda>_. None) 100 ''(a or b'' = Some r"
proof -
  have e: "to_lower (trim_space ''(a or b'') = ''(a or b''"
    by (simp add: to_lower_def lower_char_def trim_space_def is_space_def)
  obtain r where "\<forall>n\<ge>24. parseOrExpr (\<lambda>_. None) n ''(a or b'' = Some r"
    using parser_returns[of "\<lambda>_. None" "''(a or b''", unfolded e] by auto
  then have "parseOrExpr (\<lambda>_. None) 100 ''(a or b'' = Some r" by (rule allE[of _ 100]) simp
  then show ?thesis ..
qed

end
