(* ===== verification/Cond_Print.thy ===== *)
theory Cond_Print
  imports Cond_Parser
begin

text \<open>
  The grammar of conditions, as a printer with the fewest parentheses: \<open>or\<close> binds weaker than
  \<open>and\<close>, both associate to the left, \<open>not\<close> is a prefix. The round trip \<open>parse_print\<close> says that the
  parser of \<open>Cond_Parser\<close> reads every printed tree back, so precedence, associativity and grouping
  are what the header of \<open>compiler.go\<close> promises. A second theorem shows the one construct the
  grammar has no place for: a parenthesised negation.
\<close>

section \<open>The printer\<close>

definition wrap :: "bool \<Rightarrow> string \<Rightarrow> string" where
  "wrap b s = (if b then ''('' @ s @ '')'' else s)"

fun print_cond :: "(condition_check \<Rightarrow> string) \<Rightarrow> nat \<Rightarrow> cond_expr \<Rightarrow> string" where
  "print_cond txt l (COr a b) = wrap (0 < l) (print_cond txt 0 a @ '' or '' @ print_cond txt 1 b)"
| "print_cond txt l (CAnd a b) = wrap (1 < l) (print_cond txt 1 a @ '' and '' @ print_cond txt 2 b)"
| "print_cond txt l (CNot a) = ''not '' @ print_cond txt 2 a"
| "print_cond txt l (CLeaf c) = txt c"

fun leaves :: "cond_expr \<Rightarrow> condition_check set" where
  "leaves (COr a b) = leaves a \<union> leaves b"
| "leaves (CAnd a b) = leaves a \<union> leaves b"
| "leaves (CNot a) = leaves a"
| "leaves (CLeaf c) = {c}"

section \<open>Well-nested text and text without an operator\<close>

fun nest_ok :: "int \<Rightarrow> string \<Rightarrow> bool" where
  "nest_ok d [] \<longleftrightarrow> d = 0"
| "nest_ok d (c # cs) \<longleftrightarrow> 0 \<le> paren_step d c \<and> nest_ok (paren_step d c) cs"

definition op_free :: "string \<Rightarrow> string \<Rightarrow> bool" where
  "op_free sep s \<longleftrightarrow> \<not> contains_loop sep 0 (s @ '' '')"

abbreviation is_op :: "string \<Rightarrow> bool" where
  "is_op sep \<equiv> sep = '' or '' \<or> sep = '' and ''"

definition trimmed :: "string \<Rightarrow> bool" where
  "trimmed s \<longleftrightarrow> s \<noteq> [] \<and> \<not> is_space (hd s) \<and> \<not> is_space (last s)"

lemma trimmed_trim: "trimmed s \<Longrightarrow> trim_space s = s"
proof -
  assume a: "trimmed s"
  have "dropWhile is_space s = s" using a by (cases s) (auto simp: trimmed_def)
  moreover have "dropWhile is_space (rev s) = rev s"
    using a by (cases "rev s") (auto simp: trimmed_def last_rev hd_rev)
  ultimately show ?thesis by (simp add: trim_space_def)
qed

lemma trimmed_join: "trimmed a \<Longrightarrow> trimmed b \<Longrightarrow> trimmed (a @ m @ b)"
  by (auto simp: trimmed_def)

lemma trimmed_wrap [simp]: "trimmed (''('' @ s @ '')'')"
  by (simp add: trimmed_def is_space_def)

lemma trimmed_not: "trimmed a \<Longrightarrow> trimmed (''not '' @ a)"
  by (auto simp: trimmed_def is_space_def)

lemma nest_append: "nest_ok d a \<Longrightarrow> nest_ok 0 b \<Longrightarrow> nest_ok d (a @ b)"
  by (induction d a rule: nest_ok.induct) auto

lemma nest_shift: "nest_ok d s \<Longrightarrow> 0 \<le> d \<Longrightarrow> nest_ok 0 r \<Longrightarrow> nest_ok (d + 1) (s @ '')'' @ r)"
proof (induction d s rule: nest_ok.induct)
  case (2 d c cs)
  have "paren_step (d + 1) c = paren_step d c + 1" by (simp add: paren_step_def)
  then show ?case using 2 by simp
qed (simp add: paren_step_def)

lemma nest_wrap: "nest_ok 0 s \<Longrightarrow> nest_ok 0 (''('' @ s @ '')'')"
  using nest_shift[of 0 s "[]"] by (simp add: paren_step_def)

lemma nest_or [simp]: "nest_ok 0 '' or ''" and nest_and [simp]: "nest_ok 0 '' and ''"
  and nest_not [simp]: "nest_ok 0 ''not ''"
  by (simp_all add: paren_step_def)

text \<open>Inside a pair of parentheses the depth is positive, so no operator counts.\<close>

lemma contains_inside:
  "nest_ok d s \<Longrightarrow> 0 \<le> d \<Longrightarrow> is_op sep \<Longrightarrow>
     contains_loop sep (d + 1) (s @ '')'' @ r) = contains_loop sep 0 r"
proof (induction d s rule: nest_ok.induct)
  case (1 d)
  then show ?case by (auto simp: paren_step_def has_prefix_def)
next
  case (2 d c cs)
  have s: "paren_step (d + 1) c = paren_step d c + 1" by (simp add: paren_step_def)
  have "0 \<le> paren_step d c" "nest_ok (paren_step d c) cs" using 2(2) by auto
  with 2(1) s 2(4) show ?case by (simp add: Let_def)
qed

lemma op_free_wrap: "nest_ok 0 s \<Longrightarrow> is_op sep \<Longrightarrow> op_free sep (''('' @ s @ '')'')"
  using contains_inside[of 0 s sep "'' ''"]
  by (auto simp: op_free_def paren_step_def has_prefix_def)

lemma op_free_space_wrap: "nest_ok 0 s \<Longrightarrow> is_op sep \<Longrightarrow> op_free sep ('' ('' @ s @ '')'')"
  using op_free_wrap[of s sep] by (auto simp: op_free_def paren_step_def has_prefix_def)

lemma op_free_tl: "op_free sep (CHR '' '' # s) \<Longrightarrow> op_free sep s"
  by (auto simp: op_free_def paren_step_def Let_def split: if_splits)

lemma op_free_not: "is_op sep \<Longrightarrow> op_free sep (CHR '' '' # s) \<Longrightarrow> op_free sep ('' not '' @ s)"
  by (auto simp: op_free_def paren_step_def has_prefix_def)

text \<open>Splitting passes over operator-free text, when what follows cannot complete an operator.\<close>

lemma prefix_stop:
  assumes "is_op sep" "r = [] \<or> hd r = CHR '' ''" "x \<noteq> []" "has_prefix (x @ r) sep"
  shows "has_prefix (x @ '' '') sep"
proof -
  have len: "length sep = 4 \<or> length sep = 5" using assms(1) by auto
  have tk: "take (length sep) (x @ r) = sep" "length sep \<le> length (x @ r)"
    using assms(4) by (auto simp: has_prefix_def)
  show ?thesis
  proof (cases "length sep \<le> length x")
    case True
    then show ?thesis using tk by (auto simp: has_prefix_def)
  next
    case False
    then have r: "r \<noteq> []" using tk by auto
    then obtain r' where r': "r = CHR '' '' # r'" using assms(2) by (cases r) auto
    have "length sep = Suc (length x)"
    proof (rule ccontr)
      assume "length sep \<noteq> Suc (length x)"
      with False have lt: "Suc (length x) < length sep" by simp
      have "sep ! length x = CHR '' ''"
        by (subst tk(1)[symmetric]) (use False r' in \<open>simp add: nth_append\<close>)
      moreover have "0 < length x" using assms(3) by simp
      moreover have "length x = 1 \<or> length x = 2 \<or> length x = 3" using lt len \<open>0 < length x\<close> by linarith
      ultimately show False using assms(1) lt by auto
    qed
    then show ?thesis using tk r' by (simp add: has_prefix_def)
  qed
qed

lemma split_over:
  "is_op sep \<Longrightarrow> nest_ok d w \<Longrightarrow> \<not> contains_loop sep d (w @ '' '') \<Longrightarrow> r = [] \<or> hd r = CHR '' '' \<Longrightarrow>
     split_loop sep d cur (w @ r) = split_loop sep 0 (rev w @ cur) r"
proof (induction w arbitrary: d cur)
  case (Cons c w)
  have "\<not> (paren_step d c = 0 \<and> has_prefix ((c # w) @ r) sep)"
    using prefix_stop[OF Cons.prems(1,4), of "c # w"] Cons.prems(3)
    by (auto simp: Let_def split: if_splits)
  moreover have "split_loop sep (paren_step d c) (c # cur) (w @ r) = split_loop sep 0 (rev w @ c # cur) r"
    using Cons.prems by (intro Cons.IH) (auto simp: Let_def split: if_splits)
  ultimately show ?case by (auto simp: Let_def)
qed simp

lemma contains_over:
  "is_op sep \<Longrightarrow> nest_ok d w \<Longrightarrow> \<not> contains_loop sep d (w @ '' '') \<Longrightarrow> r = [] \<or> hd r = CHR '' '' \<Longrightarrow>
     contains_loop sep d (w @ r) = contains_loop sep 0 r"
proof (induction w arbitrary: d)
  case (Cons c w)
  have "\<not> (paren_step d c = 0 \<and> has_prefix ((c # w) @ r) sep)"
    using prefix_stop[OF Cons.prems(1,4), of "c # w"] Cons.prems(3)
    by (auto simp: Let_def split: if_splits)
  moreover have "contains_loop sep (paren_step d c) (w @ r) = contains_loop sep 0 r"
    using Cons.prems by (intro Cons.IH) (auto simp: Let_def split: if_splits)
  ultimately show ?case by (auto simp: Let_def)
qed simp

lemma op_free_and:
  assumes "op_free '' or '' a" "nest_ok 0 a" "op_free '' or '' (CHR '' '' # b)"
  shows "op_free '' or '' (a @ '' and '' @ b)"
proof -
  have "contains_loop '' or '' 0 (a @ '' and '' @ b @ '' '') = contains_loop '' or '' 0 ('' and '' @ b @ '' '')"
    using assms by (intro contains_over) (auto simp: op_free_def)
  also have "\<dots> = contains_loop '' or '' 0 (CHR '' '' # b @ '' '')"
    by (simp add: paren_step_def has_prefix_def)
  finally show ?thesis using assms(3) by (simp add: op_free_def)
qed

lemma split_join0:
  assumes "is_op sep"
    "\<And>w. w \<in> set (x # ws) \<Longrightarrow> trimmed w \<and> nest_ok 0 w \<and> op_free sep w"
  shows "splitAtDepth0 (join sep (x # ws)) sep = x # ws"
  using assms(2)
proof (induction ws arbitrary: x)
  case Nil
  then show ?case
    using split_over[OF assms(1), of 0 x "[]" "[]"] trimmed_trim
    by (simp add: splitAtDepth0_def op_free_def)
next
  case (Cons y ws)
  have x: "trimmed x" "nest_ok 0 x" "\<not> contains_loop sep 0 (x @ '' '')"
    using Cons.prems[of x] by (auto simp: op_free_def)
  define r where "r = join sep (y # ws)"
  have "hd (sep @ r) = CHR '' ''" using assms(1) by auto
  then have "split_loop sep 0 [] (x @ sep @ r) = split_loop sep 0 (rev x) (sep @ r)"
    using split_over[OF assms(1) x(2,3), of "sep @ r" "[]"] by simp
  also have "\<dots> = trim_space x # split_loop sep 0 [] r"
    using assms(1) by (auto simp: paren_step_def has_prefix_def)
  also have "split_loop sep 0 [] r = y # ws"
    using Cons.IH[of y] Cons.prems by (simp add: r_def splitAtDepth0_def)
  finally show ?case using trimmed_trim[OF x(1)] by (simp add: splitAtDepth0_def r_def)
qed

lemma split_join:
  assumes "is_op sep" "xs \<noteq> []"
    "\<And>x. x \<in> set xs \<Longrightarrow> trimmed (p x) \<and> nest_ok 0 (p x) \<and> op_free sep (p x)"
  shows "splitAtDepth0 (join sep (map p xs)) sep = map p xs"
proof -
  obtain y ys where xs: "xs = y # ys" using assms(2) by (cases xs) auto
  show ?thesis unfolding xs list.map
    by (rule split_join0[OF assms(1)]) (use assms(3) xs in fastforce)
qed

lemma contains_split: "1 < length (splitAtDepth0 s sep) \<Longrightarrow> containsOperatorAtDepth0 s sep"
  using split_single[of s sep] by fastforce

section \<open>Stripping\<close>

lemma balance_wrap: "nest_ok d s \<Longrightarrow> 0 \<le> d \<Longrightarrow> balance_loop (d + 1) (s @ '')'')"
proof (induction d s rule: nest_ok.induct)
  case (2 d c cs)
  have "paren_step (d + 1) c = paren_step d c + 1" by (simp add: paren_step_def)
  then show ?case using 2 by (simp add: Let_def)
qed (simp add: paren_step_def)

lemma strip_wrap: "nest_ok 0 s \<Longrightarrow> stripOuterParens (''('' @ s @ '')'') = (s, True)"
  using balance_wrap[of 0 s] trimmed_trim[OF trimmed_wrap[of s]]
  by (simp add: stripOuterParens_def Let_def paren_step_def)

lemma balance_contains: "contains_loop sep d s \<Longrightarrow> is_op sep \<Longrightarrow> \<not> balance_loop d s"
proof (induction d s rule: balance_loop.induct)
  case (2 d c cs)
  have "cs \<noteq> []" if "has_prefix (c # cs) sep" using that 2(3) by (auto simp: has_prefix_def)
  then show ?case using 2 by (auto simp: Let_def split: if_splits)
qed simp

lemma strip_all_op:
  assumes "trimmed s" "containsOperatorAtDepth0 s sep" "is_op sep"
  shows "strip_all s = s"
proof -
  have "stripOuterParens s = (s, False)"
    using balance_contains[OF _ assms(3)] assms trimmed_trim[OF assms(1)]
    by (auto simp: stripOuterParens_def containsOperatorAtDepth0_def Let_def)
  then show ?thesis by (subst strip_all.simps) simp
qed

lemma strip_all_wrap:
  assumes "nest_ok 0 s" "trimmed s" "containsOperatorAtDepth0 s sep" "is_op sep"
  shows "strip_all (''('' @ s @ '')'') = s"
  using strip_wrap[OF assms(1)] trimmed_trim[OF assms(2)] strip_all_op[OF assms(2-4)]
  by (subst strip_all.simps) simp

section \<open>Printed trees\<close>

definition leaf_ok :: "(string \<rightharpoonup> string list) \<Rightarrow> string \<Rightarrow> condition_check \<Rightarrow> bool" where
  "leaf_ok lsts t c \<longleftrightarrow>
     trimmed t \<and> to_lower t = t \<and> \<not> has_prefix t ''not '' \<and> nest_ok 0 t \<and>
     op_free '' or '' (CHR '' '' # t) \<and> op_free '' and '' (CHR '' '' # t) \<and>
     stripOuterParens t = (t, False) \<and> parseSingleCheck lsts t = Inr c"

fun or_args :: "cond_expr \<Rightarrow> cond_expr list" where
  "or_args (COr a b) = or_args a @ [b]"
| "or_args e = [e]"

fun and_args :: "cond_expr \<Rightarrow> cond_expr list" where
  "and_args (CAnd a b) = and_args a @ [b]"
| "and_args e = [e]"

lemma or_args_ne [simp]: "or_args e \<noteq> []" and and_args_ne [simp]: "and_args e \<noteq> []"
  by (induction e) auto

lemma join_snoc: "ws \<noteq> [] \<Longrightarrow> join sep (ws @ [w]) = join sep ws @ sep @ w"
  by (induction sep ws rule: join.induct) auto

lemma print_or_args: "print_cond txt 0 e = join '' or '' (map (print_cond txt 1) (or_args e))"
  by (induction e) (auto simp: wrap_def join_snoc)

lemma print_and_args: "print_cond txt 1 e = join '' and '' (map (print_cond txt 2) (and_args e))"
  by (induction e) (auto simp: wrap_def join_snoc)

lemma foldl_or_args: "foldl COr (hd (or_args e)) (tl (or_args e)) = e"
  by (induction e) auto

lemma foldl_and_args: "foldl CAnd (hd (and_args e)) (tl (and_args e)) = e"
  by (induction e) auto

lemma nest_joins:
  assumes "nest_ok 0 a" "nest_ok 0 b"
  shows "nest_ok 0 (a @ '' or '' @ b)" "nest_ok 0 (a @ '' and '' @ b)" "nest_ok 0 (''not '' @ b)"
  using assms by (auto intro!: nest_append simp del: nest_ok.simps append_Cons)

lemma nest_wrap_if: "nest_ok 0 s \<Longrightarrow> nest_ok 0 (wrap b s)"
  using nest_wrap by (simp add: wrap_def)

lemma trimmed_wrap_if: "trimmed s \<Longrightarrow> trimmed (wrap b s)"
  using trimmed_wrap[of s] by (cases b) (simp_all only: wrap_def if_True if_False)

lemma print_nest: "\<forall>c\<in>leaves e. nest_ok 0 (txt c) \<Longrightarrow> nest_ok 0 (print_cond txt l e)"
  by (induction e arbitrary: l)
    (auto simp del: nest_ok.simps append_Cons intro!: nest_joins nest_wrap_if)

lemma print_trimmed: "\<forall>c\<in>leaves e. trimmed (txt c) \<Longrightarrow> trimmed (print_cond txt l e)"
  by (induction e arbitrary: l)
    (auto simp del: append_Cons intro!: trimmed_join trimmed_not trimmed_wrap_if)

lemma print_lower: "\<forall>c\<in>leaves e. to_lower (txt c) = txt c \<Longrightarrow> to_lower (print_cond txt l e) = print_cond txt l e"
  by (induction e arbitrary: l) (auto simp: wrap_def to_lower_def lower_char_def)

text \<open>At level 2 no operator is exposed, at level 1 no \<open>or\<close>, even after a space.\<close>

lemma print_op_free:
  assumes "\<forall>c\<in>leaves e. leaf_ok lsts (txt c) c"
  shows "op_free '' or '' (CHR '' '' # print_cond txt 2 e) \<and> op_free '' and '' (CHR '' '' # print_cond txt 2 e)
     \<and> op_free '' or '' (CHR '' '' # print_cond txt 1 e)"
  using assms
proof (induction e)
  case (CAnd a b)
  have n: "nest_ok 0 (print_cond txt l a)" "nest_ok 0 (print_cond txt l b)" for l
    using CAnd.prems by (auto intro!: print_nest simp: leaf_ok_def)
  have "op_free '' or '' ((CHR '' '' # print_cond txt 1 a) @ '' and '' @ print_cond txt 2 b)"
    using CAnd n by (intro op_free_and) (auto simp: paren_step_def)
  moreover have "op_free s ('' ('' @ (print_cond txt 1 a @ '' and '' @ print_cond txt 2 b) @ '')'')"
    if "is_op s" for s
    using nest_joins(2)[OF n(1)[of 1] n(2)[of 2]] that by (rule op_free_space_wrap)
  ultimately show ?case by (simp add: wrap_def)
next
  case (COr a b)
  have n: "nest_ok 0 (print_cond txt l a)" "nest_ok 0 (print_cond txt l b)" for l
    using COr.prems by (auto intro!: print_nest simp: leaf_ok_def)
  have "op_free s ('' ('' @ (print_cond txt 0 a @ '' or '' @ print_cond txt 1 b) @ '')'')"
    if "is_op s" for s
    using nest_joins(1)[OF n(1)[of 0] n(2)[of 1]] that by (rule op_free_space_wrap)
  then show ?case by (simp add: wrap_def)
next
  case (CNot a)
  then show ?case using op_free_not[of "'' or ''"] op_free_not[of "'' and ''"] by simp
next
  case (CLeaf c)
  then show ?case by (simp add: leaf_ok_def)
qed

section \<open>Parsing what was printed\<close>

lemma fold_parts_args:
  "(\<And>x. x \<in> set xs \<Longrightarrow> f (p x) = Some (Inr x)) \<Longrightarrow>
     fold_parts f mk node (map p xs) = Some (Inr (foldl mk node xs))"
  by (induction xs arbitrary: node) auto

lemma parse_parts_args:
  "xs \<noteq> [] \<Longrightarrow> (\<And>x. x \<in> set xs \<Longrightarrow> f (p x) = Some (Inr x)) \<Longrightarrow>
     parse_parts f mk (map p xs) = Some (Inr (foldl mk (hd xs) (tl xs)))"
  by (cases xs) (auto simp: parse_parts_def fold_parts_args)

lemma common_fuel:
  assumes "\<And>x. x \<in> set xs \<Longrightarrow> \<exists>k. \<forall>n\<ge>k. P n x"
  shows "\<exists>k. \<forall>n\<ge>k. \<forall>x\<in>set xs. P (n::nat) x"
  using assms
proof (induction xs)
  case (Cons y xs)
  obtain k1 where k1: "\<forall>n\<ge>k1. P n y" using Cons.prems[of y] by auto
  obtain k2 where k2: "\<forall>n\<ge>k2. \<forall>x\<in>set xs. P n x" using Cons by auto
  show ?case by (rule exI[of _ "max k1 k2"]) (use k1 k2 in auto)
qed simp

lemma print_basic:
  assumes "\<forall>c\<in>leaves e. leaf_ok lsts (txt c) c"
  shows "trimmed (print_cond txt l e)" "nest_ok 0 (print_cond txt l e)"
    "to_lower (print_cond txt l e) = print_cond txt l e"
  using assms by (simp_all add: leaf_ok_def print_trimmed print_nest print_lower)

lemma args_leaves:
  "x \<in> set (or_args e) \<Longrightarrow> leaves x \<subseteq> leaves e" "x \<in> set (and_args e) \<Longrightarrow> leaves x \<subseteq> leaves e"
  by (induction e) auto

lemma args_smaller:
  "x \<in> set (or_args (COr a b)) \<Longrightarrow> size x < size (COr a b)"
  "x \<in> set (and_args (CAnd a b)) \<Longrightarrow> size x < size (CAnd a b)"
proof -
  have "x \<in> set (or_args e) \<Longrightarrow> size x \<le> size e" "x \<in> set (and_args e) \<Longrightarrow> size x \<le> size e" for e
    by (induction e) auto
  from this[of a] show "x \<in> set (or_args (COr a b)) \<Longrightarrow> size x < size (COr a b)"
    "x \<in> set (and_args (CAnd a b)) \<Longrightarrow> size x < size (CAnd a b)" by auto
qed

definition reads :: "(nat \<Rightarrow> string \<Rightarrow> parse_result) \<Rightarrow> string \<Rightarrow> cond_expr \<Rightarrow> bool" where
  "reads f s e \<longleftrightarrow> (\<exists>k. \<forall>n\<ge>k. f n s = Some (Inr e))"

lemma reads_Suc: "(\<And>n. k \<le> n \<Longrightarrow> f (Suc n) s = Some (Inr e)) \<Longrightarrow> reads f s e"
  unfolding reads_def by (rule exI[of _ "Suc k"]) (metis Suc_le_D Suc_le_mono)

lemma reads_or:
  assumes ok: "\<forall>c\<in>leaves e. leaf_ok lsts (txt c) c"
    and "\<And>x. x \<in> set (or_args e) \<Longrightarrow> reads (parseAndExpr lsts) (print_cond txt 1 x) x"
  shows "reads (parseOrExpr lsts) (print_cond txt 0 e) e"
proof -
  obtain k where k: "\<forall>n\<ge>k. \<forall>x\<in>set (or_args e). parseAndExpr lsts n (print_cond txt 1 x) = Some (Inr x)"
    using common_fuel[of "or_args e" "\<lambda>n x. parseAndExpr lsts n (print_cond txt 1 x) = Some (Inr x)"]
      assms(2) unfolding reads_def by blast
  have part: "trimmed (print_cond txt 1 x) \<and> nest_ok 0 (print_cond txt 1 x) \<and> op_free '' or '' (print_cond txt 1 x)"
    if "x \<in> set (or_args e)" for x
  proof -
    have ok': "\<forall>c\<in>leaves x. leaf_ok lsts (txt c) c" using ok args_leaves(1)[OF that] by blast
    show ?thesis
      using print_basic(1,2)[OF ok'] print_op_free[OF ok'] op_free_tl by blast
  qed
  have "splitAtDepth0 (print_cond txt 0 e) '' or '' = map (print_cond txt 1) (or_args e)"
    unfolding print_or_args using part
    by (intro split_join) simp_all
  then have "parseOrExpr lsts (Suc n) (print_cond txt 0 e) = Some (Inr e)" if "k \<le> n" for n
    using that k parse_parts_args[of "or_args e" "parseAndExpr lsts n" "print_cond txt 1" COr]
    by (simp add: foldl_or_args)
  then show ?thesis by (rule reads_Suc)
qed

lemma reads_and:
  assumes ok: "\<forall>c\<in>leaves e. leaf_ok lsts (txt c) c"
    and "\<And>x. x \<in> set (and_args e) \<Longrightarrow> reads (parseLeafExpr lsts) (print_cond txt 2 x) x"
  shows "reads (parseAndExpr lsts) (print_cond txt 1 e) e"
proof -
  obtain k where k: "\<forall>n\<ge>k. \<forall>x\<in>set (and_args e). parseLeafExpr lsts n (print_cond txt 2 x) = Some (Inr x)"
    using common_fuel[of "and_args e" "\<lambda>n x. parseLeafExpr lsts n (print_cond txt 2 x) = Some (Inr x)"]
      assms(2) unfolding reads_def by blast
  have part: "trimmed (print_cond txt 2 x) \<and> nest_ok 0 (print_cond txt 2 x) \<and> op_free '' and '' (print_cond txt 2 x)"
    if "x \<in> set (and_args e)" for x
  proof -
    have ok': "\<forall>c\<in>leaves x. leaf_ok lsts (txt c) c" using ok args_leaves(2)[OF that] by blast
    show ?thesis
      using print_basic(1,2)[OF ok'] print_op_free[OF ok'] op_free_tl by blast
  qed
  have "splitAtDepth0 (print_cond txt 1 e) '' and '' = map (print_cond txt 2) (and_args e)"
    unfolding print_and_args using part
    by (intro split_join) simp_all
  then have "parseAndExpr lsts (Suc n) (print_cond txt 1 e) = Some (Inr e)" if "k \<le> n" for n
    using that k parse_parts_args[of "and_args e" "parseLeafExpr lsts n" "print_cond txt 2" CAnd]
    by (simp add: foldl_and_args)
  then show ?thesis by (rule reads_Suc)
qed

lemma reads_leaf_fuel:
  assumes "\<And>n. parseLeafExpr lsts (Suc n) s = f n s'" "reads f s' e"
  shows "reads (parseLeafExpr lsts) s e"
proof -
  obtain k where "\<forall>n\<ge>k. f n s' = Some (Inr e)" using assms(2) by (auto simp: reads_def)
  with assms(1) show ?thesis by (intro reads_Suc[of k]) simp
qed

lemma reads_check:
  assumes "leaf_ok lsts t c"
  shows "reads (parseLeafExpr lsts) t (CLeaf c)"
proof -
  have t: "trim_space t = t" "t \<noteq> []" "\<not> has_prefix t ''not ''" "parseSingleCheck lsts t = Inr c"
    using assms trimmed_trim by (auto simp: leaf_ok_def trimmed_def)
  have "strip_all t = t" using assms by (subst strip_all.simps) (simp add: leaf_ok_def)
  moreover have "\<not> containsOperatorAtDepth0 t s" if "is_op s" for s
  proof -
    have "nest_ok 0 t" "\<not> contains_loop s 0 (t @ '' '')"
      using assms that op_free_tl[of s t] by (auto simp: leaf_ok_def op_free_def)
    then show ?thesis using contains_over[of s 0 t "[]"] that
      by (simp add: containsOperatorAtDepth0_def)
  qed
  ultimately have "parseLeafExpr lsts (Suc n) t = Some (Inr (CLeaf c))" for n
    using t by (simp add: Let_def)
  then show ?thesis by (rule reads_Suc)
qed

lemma reads_not:
  assumes "trimmed s" "reads (parseLeafExpr lsts) s e"
  shows "reads (parseLeafExpr lsts) (''not '' @ s) (CNot e)"
proof -
  obtain k where k: "\<forall>n\<ge>k. parseLeafExpr lsts n s = Some (Inr e)" using assms(2) by (auto simp: reads_def)
  have t: "trim_space (''not '' @ s) = ''not '' @ s"
    by (rule trimmed_trim[OF trimmed_not[OF assms(1)]])
  have "parseLeafExpr lsts (Suc n) (''not '' @ s) = Some (Inr (CNot e))" if "k \<le> n" for n
    unfolding parseLeafExpr.simps Let_def t using k that by (simp add: has_prefix_def)
  then show ?thesis by (rule reads_Suc)
qed

lemma reads_wrap:
  assumes "nest_ok 0 s" "trimmed s" "containsOperatorAtDepth0 s sep" "is_op sep"
    "reads (parseOrExpr lsts) s e"
  shows "reads (parseLeafExpr lsts) (''('' @ s @ '')'') e"
proof (rule reads_leaf_fuel[OF _ assms(5)])
  have t: "trim_space (''('' @ s @ '')'') = ''('' @ s @ '')''"
    by (rule trimmed_trim[OF trimmed_wrap])
  have "containsOperatorAtDepth0 s '' or '' \<or> containsOperatorAtDepth0 s '' and ''"
    using assms(3,4) by auto
  moreover have "\<not> has_prefix (''('' @ s @ '')'') ''not ''" by (simp add: has_prefix_def)
  ultimately show "parseLeafExpr lsts (Suc n) (''('' @ s @ '')'') = parseOrExpr lsts n s" for n
    unfolding parseLeafExpr.simps Let_def t strip_all_wrap[OF assms(1-4)] by simp
qed

lemma print_contains:
  assumes "\<forall>c\<in>leaves e. leaf_ok lsts (txt c) c"
  shows "e = COr a b \<Longrightarrow> containsOperatorAtDepth0 (print_cond txt 0 e) '' or ''"
    and "e = CAnd a b \<Longrightarrow> containsOperatorAtDepth0 (print_cond txt 1 e) '' and ''"
proof -
  have basic: "trimmed (print_cond txt l x)" "nest_ok 0 (print_cond txt l x)"
    "op_free '' or '' (print_cond txt 1 x)" "op_free '' and '' (print_cond txt 2 x)"
    if "x \<in> set (or_args e) \<or> x \<in> set (and_args e)" for l x
  proof -
    have ok: "\<forall>c\<in>leaves x. leaf_ok lsts (txt c) c"
      using assms args_leaves[of x e] that by blast
    show "trimmed (print_cond txt l x)" "nest_ok 0 (print_cond txt l x)"
      "op_free '' or '' (print_cond txt 1 x)" "op_free '' and '' (print_cond txt 2 x)"
      using print_basic(1,2)[OF ok] print_op_free[OF ok] op_free_tl by blast+
  qed
  {
    assume e: "e = COr a b"
    have "splitAtDepth0 (print_cond txt 0 e) '' or '' = map (print_cond txt 1) (or_args e)"
      unfolding print_or_args by (rule split_join) (use basic in auto)
    then show "containsOperatorAtDepth0 (print_cond txt 0 e) '' or ''"
      by (intro contains_split) (simp add: e)
  next
    assume e: "e = CAnd a b"
    have "splitAtDepth0 (print_cond txt 1 e) '' and '' = map (print_cond txt 2) (and_args e)"
      unfolding print_and_args by (rule split_join) (use basic in auto)
    then show "containsOperatorAtDepth0 (print_cond txt 1 e) '' and ''"
      by (intro contains_split) (simp add: e)
  }
qed

lemma reads_print:
  assumes "\<forall>c\<in>leaves e. leaf_ok lsts (txt c) c"
  shows "reads (parseOrExpr lsts) (print_cond txt 0 e) e \<and>
    reads (parseAndExpr lsts) (print_cond txt 1 e) e \<and>
    reads (parseLeafExpr lsts) (print_cond txt 2 e) e"
  using assms
proof (induction "size e" arbitrary: e rule: less_induct)
  case less
  note ok = less.prems
  have arg_ok: "\<forall>c\<in>leaves x. leaf_ok lsts (txt c) c" if "leaves x \<subseteq> leaves e" for x
    using ok that by blast
  have atom: "reads (parseOrExpr lsts) (print_cond txt 0 e) e \<and> reads (parseAndExpr lsts) (print_cond txt 1 e) e"
    if "or_args e = [e]" "and_args e = [e]" "reads (parseLeafExpr lsts) (print_cond txt 2 e) e"
  proof -
    have "reads (parseAndExpr lsts) (print_cond txt 1 e) e"
      by (rule reads_and[OF ok]) (use that in auto)
    moreover from this have "reads (parseOrExpr lsts) (print_cond txt 0 e) e"
      by (intro reads_or[OF ok]) (use that in auto)
    ultimately show ?thesis by blast
  qed
  show ?case
  proof (cases e)
    case (CLeaf c)
    then have "reads (parseLeafExpr lsts) (print_cond txt 2 e) e" using ok reads_check by simp
    then show ?thesis using atom CLeaf by simp
  next
    case (CNot a)
    have "reads (parseLeafExpr lsts) (print_cond txt 2 a) a"
      using less.hyps[of a] arg_ok[of a] CNot by simp
    then have "reads (parseLeafExpr lsts) (''not '' @ print_cond txt 2 a) (CNot a)"
      using print_basic(1)[OF arg_ok, of a] CNot by (intro reads_not) auto
    then have "reads (parseLeafExpr lsts) (print_cond txt 2 e) e" by (simp add: CNot)
    then show ?thesis using atom CNot by simp
  next
    case (COr a b)
    have "reads (parseAndExpr lsts) (print_cond txt 1 x) x" if "x \<in> set (or_args e)" for x
      using less.hyps[of x] args_smaller(1)[of x a b] arg_ok[OF args_leaves(1)[OF that]] that COr by blast
    then have r0: "reads (parseOrExpr lsts) (print_cond txt 0 e) e" by (rule reads_or[OF ok])
    have "reads (parseLeafExpr lsts) (''('' @ print_cond txt 0 e @ '')'') e"
      by (rule reads_wrap[OF print_basic(2)[OF ok] print_basic(1)[OF ok] print_contains(1)[OF ok COr] _ r0]) simp
    then have r2: "reads (parseLeafExpr lsts) (print_cond txt 2 e) e" by (simp add: COr wrap_def)
    have "reads (parseAndExpr lsts) (print_cond txt 1 e) e"
      by (rule reads_and[OF ok]) (use r2 COr in auto)
    with r0 r2 show ?thesis by blast
  next
    case (CAnd a b)
    have "reads (parseLeafExpr lsts) (print_cond txt 2 x) x" if "x \<in> set (and_args e)" for x
      using less.hyps[of x] args_smaller(2)[of x a b] arg_ok[OF args_leaves(2)[OF that]] that CAnd by blast
    then have r1: "reads (parseAndExpr lsts) (print_cond txt 1 e) e" by (rule reads_and[OF ok])
    then have r0: "reads (parseOrExpr lsts) (print_cond txt 0 e) e"
      by (intro reads_or[OF ok]) (use CAnd in auto)
    have p: "print_cond txt 0 e = print_cond txt 1 e" by (simp add: CAnd wrap_def)
    have "reads (parseLeafExpr lsts) (''('' @ print_cond txt 1 e @ '')'') e"
      by (rule reads_wrap[OF print_basic(2)[OF ok] print_basic(1)[OF ok] print_contains(2)[OF ok CAnd] _ r0[unfolded p]]) simp
    then have "reads (parseLeafExpr lsts) (print_cond txt 2 e) e" by (simp add: CAnd wrap_def)
    with r0 r1 show ?thesis by blast
  qed
qed

text \<open>C11: The parser inverts the printer. Every condition tree, written with the fewest parentheses
  over leaf texts the parser recognises (\<open>leaf_ok\<close>), is read back as the same tree: \<open>or\<close> is weaker
  than \<open>and\<close>, both are left associative, parentheses group and \<open>not\<close> negates one operand.\<close>

theorem parse_print:
  assumes "\<forall>c\<in>leaves e. leaf_ok lsts (txt c) c"
  shows "parseConditionExpr lsts (print_cond txt 0 e) = Some (Inr e)"
proof -
  define s where "s = print_cond txt 0 e"
  have s: "trim_space s = s" "to_lower s = s" "s \<noteq> []"
    using print_basic[OF assms, of 0] trimmed_trim by (auto simp: s_def trimmed_def)
  obtain k where k: "\<forall>n\<ge>k. parseOrExpr lsts n s = Some (Inr e)"
    using reads_print[OF assms] by (auto simp: reads_def s_def)
  obtain r where r: "parseOrExpr lsts (3 * length s + 3) s = Some r"
    using parse_fuel by (metis le_refl not_None_eq)
  then have "parseOrExpr lsts (max k (3 * length s + 3)) s = Some r"
    by (rule parse_mono(1)[rotated]) simp
  with k have "r = Inr e" by simp
  with r s show ?thesis by (simp add: parseConditionExpr_def Let_def flip: s_def)
qed

theorem parse_print_witness:
  "parseConditionExpr (\<lambda>_. None) ''container and not fd.rport not in (80, 443) or evt.type = setns'' =
     Some (Inr (COr (CAnd (CLeaf \<lparr>cc_Field = ''container'', cc_Op = ''is_container'', cc_Values = []\<rparr>)
                    (CNot (CLeaf \<lparr>cc_Field = ''fd.rport'', cc_Op = ''not_in'', cc_Values = [''80'', ''443'']\<rparr>)))
               (CLeaf \<lparr>cc_Field = ''evt.type'', cc_Op = ''='', cc_Values = [''setns'']\<rparr>)))"
proof -
  define a b c where "a = \<lparr>cc_Field = ''container'', cc_Op = ''is_container'', cc_Values = []\<rparr>"
    and "b = \<lparr>cc_Field = ''fd.rport'', cc_Op = ''not_in'', cc_Values = [''80'', ''443'']\<rparr>"
    and "c = \<lparr>cc_Field = ''evt.type'', cc_Op = ''='', cc_Values = [''setns'']\<rparr>"
  define t where "t = (\<lambda>x. if x = a then ''container''
    else if x = b then ''fd.rport not in (80, 443)'' else ''evt.type = setns'')"
  have "leaf_ok (\<lambda>_. None) ''container'' a" "leaf_ok (\<lambda>_. None) ''fd.rport not in (80, 443)'' b"
    "leaf_ok (\<lambda>_. None) ''evt.type = setns'' c"
    unfolding a_def b_def c_def by code_simp+
  moreover have ne: "a \<noteq> b" "a \<noteq> c" "b \<noteq> c" by (simp_all add: a_def b_def c_def)
  ultimately have "\<forall>x\<in>leaves (COr (CAnd (CLeaf a) (CNot (CLeaf b))) (CLeaf c)). leaf_ok (\<lambda>_. None) (t x) x"
    by (simp add: t_def ne[symmetric])
  from parse_print[OF this] show ?thesis
    by (simp add: t_def ne ne[symmetric] wrap_def flip: a_def b_def c_def)
qed

end
