(* ===== verification/Cond_Eval.thy ===== *)
theory Cond_Eval
  imports Events Cond_Print
begin

text \<open>
  The second half of \<open>pkg/rules/compiler.go\<close>: the compiler from expression trees to closures. A
  closure of type \<open>RuleCondition\<close> is a function on the enriched event; its value \<open>None\<close> is the
  run-time panic of an index out of range (\<open>check.Values[0]\<close>), so that "a compiled rule never
  panics" is a theorem (\<open>compiled_never_panics\<close>) and not an assumption.
\<close>

section \<open>The event a condition sees\<close>

record enriched_for_rule =
  er_Event :: scarlet_event
  er_ContainerID :: string
  er_ContainerName :: string
  er_ContainerImage :: string
  er_ContainerAttributed :: bool
  er_PodName :: string
  er_Namespace :: string
  er_ServiceAccount :: string
  er_PodLabels :: "string \<rightharpoonup> string"
  er_Privileged :: bool
  er_NodeName :: string

type_synonym rule_condition = "enriched_for_rule \<Rightarrow> bool option"

abbreviation never :: rule_condition where
  "never \<equiv> (\<lambda>event. Some False)"

abbreviation always :: rule_condition where
  "always \<equiv> (\<lambda>event. Some True)"

text \<open>\<open>check.Values[0]\<close>.\<close>

fun first_value :: "string list \<Rightarrow> string option" where
  "first_value [] = None"
| "first_value (v # vs) = Some v"

section \<open>Event types\<close>

definition syscallToEventType :: "string \<Rightarrow> u8" where
  "syscallToEventType name0 =
    (let name = to_lower (trim_space name0) in
     if name \<in> set [''execve'', ''execveat''] then EvtExec
     else if name \<in> set [''fork'', ''clone'', ''clone3''] then EvtFork
     else if name \<in> set [''exit'', ''exit_group''] then EvtExit
     else if name \<in> set [''open'', ''openat'', ''openat2'', ''creat''] then EvtFileOpen
     else if name \<in> set [''unlinkat'', ''unlink''] then EvtFileUnlink
     else if name = ''memfd_create'' then EvtFileMemfd
     else if name \<in> set [''renameat'', ''renameat2'', ''rename''] then EvtFileRename
     else if name \<in> set [''connect'', ''sendto'', ''sendmsg''] then EvtNetConnect
     else if name = ''listen'' then EvtNetListen
     else if name = ''setns'' then EvtSetns
     else if name = ''unshare'' then EvtUnshare
     else if name = ''mount'' then EvtMount
     else if name = ''ptrace'' then EvtPtrace
     else if name \<in> set [''init_module'', ''finit_module''] then EvtModuleLoad
     else if name = ''bpf'' then EvtBpfLoad
     else if name \<in> set [''setuid'', ''setresuid''] then EvtSetuid
     else if name = ''capset'' then EvtCapset
     else if name \<in> set [''chmod'', ''fchmodat'', ''fchmod''] then EvtChmod
     else if name \<in> set [''dup2'', ''dup3'', ''dup''] then EvtNetConnect
     else 0)"

definition compileEventTypeCheck :: "condition_check \<Rightarrow> rule_condition" where
  "compileEventTypeCheck check =
    (let matching = (\<lambda>types event. Some (EventType (er_Event event) \<in> set types)) in
     if cc_Op check = ''='' then
       (case cc_Values check of
          [] \<Rightarrow> matching []
        | v # _ \<Rightarrow> (let et = syscallToEventType v in if et \<noteq> 0 then matching [et] else never))
     else if cc_Op check = ''in'' then
       (let types = filter (\<lambda>et. et \<noteq> 0) (map syscallToEventType (cc_Values check))
        in if types = [] then never else matching types)
     else if cc_Op check = ''any'' then always
     else never)"

section \<open>Macro shortcuts and fields\<close>

definition compileMacroCheck :: "condition_check \<Rightarrow> rule_condition" where
  "compileMacroCheck check = (\<lambda>event. let ev = er_Event event; f = cc_Field check in Some (
     if f = ''spawned_process'' then EventType ev = EvtExec
     else if f = ''setns_call'' then EventType ev = EvtSetns
     else if f = ''net_outbound'' then
       Category ev = CatNetwork \<and> (EventType ev = EvtNetConnect \<or> EventType ev = EvtNetUDP)
     else if f = ''shell_procs'' then IsShellProcess (CommString ev)
     else if f = ''miner_procs'' then IsMinerProcess (CommString ev)
     else if f = ''minerpool_connection'' then
       (if Category ev \<noteq> CatNetwork then False else IsMinerPoolPort (RemotePort ev))
     else if f = ''sensitive_file_read'' then Category ev = CatFile \<and> event_IsSensitivePath ev
     else if f = ''cloud_metadata_access'' then
       (if Category ev \<noteq> CatNetwork then False else IsCloudMetadataIP (RemoteIP ev))
     else if f = ''open_write'' then
       (if Category ev \<noteq> CatFile \<or> EventType ev \<noteq> EvtFileOpen then False
        else fp_Flags (PayFile ev) AND 1 \<noteq> 0 \<or> fp_Flags (PayFile ev) AND 2 \<noteq> 0)
     else False))"

definition in_value_set :: "condition_check \<Rightarrow> string \<Rightarrow> bool" where
  "in_value_set check v \<longleftrightarrow> v \<in> set (map to_lower (cc_Values check))"

definition with_first :: "condition_check \<Rightarrow> (string \<Rightarrow> bool) \<Rightarrow> bool option" where
  "with_first check p = map_option p (first_value (cc_Values check))"

definition compileFieldCheck :: "string \<Rightarrow> condition_check \<Rightarrow> rule_condition" where
  "compileFieldCheck field check = (\<lambda>event.
    let ev = er_Event event; op = cc_Op check; vals = cc_Values check in
    if field = ''proc.name'' then
      (if op = ''in'' then Some (in_value_set check (to_lower (CommString ev)))
       else if op = ''contains'' then with_first check (str_contains (to_lower (CommString ev)))
       else Some False)
    else if field = ''proc.cmdline'' then
      Some (list_ex (\<lambda>v. str_contains (to_lower (Args ev)) (to_lower v)) vals)
    else if field = ''proc.exe'' then
      (if op = ''startswith'' then with_first check (has_prefix (Filename ev))
       else if op = ''contains'' then with_first check (str_contains (to_lower (Filename ev)))
       else Some False)
    else if field = ''proc.cwd'' then
      (if op = ''startswith'' then with_first check (has_prefix (Filename ev)) else Some False)
    else if field = ''fd.rport'' then
      (let port = show_word (RemotePort ev) in
       if op = ''in'' then Some (in_value_set check port)
       else if op = ''not_in'' then Some (\<not> in_value_set check port)
       else if op = ''='' then with_first check (\<lambda>v. port = v)
       else Some False)
    else if field = ''fd.rip'' \<or> field = ''fd.rip.name'' then
      (let ip = RemoteIP ev in
       if op = ''in'' then Some (in_value_set check ip)
       else if op = ''not_in'' then Some (\<not> in_value_set check ip)
       else if op = ''contains'' then with_first check (str_contains ip)
       else Some False)
    else if field = ''fd.name'' then
      (if op = ''pmatch'' then Some (list_ex (has_prefix (FilePath ev)) vals)
       else if op = ''contains'' then with_first check (str_contains (FilePath ev))
       else Some False)
    else if field = ''evt.arg.nstype'' then
      (let ns = show_word (ep_NSType (PayEscape ev)) in
       if op = ''='' then with_first check (\<lambda>v. ns = v)
       else if op = ''in'' then Some (in_value_set check ns)
       else Some False)
    else if field = ''evt.arg.flags'' then
      (let flags = fp_Flags (PayFile ev) in
       Some (list_ex (\<lambda>v. (to_lower v = ''o_wronly'' \<and> flags AND 1 \<noteq> 0) \<or>
                          (to_lower v = ''o_rdwr'' \<and> flags AND 2 \<noteq> 0)) vals))
    else if field = ''evt.arg.mode'' then
      (let modeFlags = vp_ModeFlags (PayPrivilege ev) in
       Some (list_ex (\<lambda>v. (str_contains (to_lower v) ''s_isuid'' \<and> modeFlags AND 2048 \<noteq> 0) \<or>
                          (str_contains (to_lower v) ''s_isgid'' \<and> modeFlags AND 1024 \<noteq> 0)) vals))
    else Some False)"

section \<open>One check\<close>

definition macro_fields :: "string list" where
  "macro_fields = [''spawned_process'', ''setns_call'', ''net_outbound'', ''open_write'',
     ''minerpool_connection'', ''sensitive_file_read'', ''cloud_metadata_access'',
     ''shell_procs'', ''miner_procs'']"

definition is_container_event :: rule_condition where
  "is_container_event = (\<lambda>event. Some (er_ContainerAttributed event \<and> er_ContainerID event \<noteq> []))"

definition compileSingleCheck :: "condition_check \<Rightarrow> rule_condition" where
  "compileSingleCheck check =
    (let field = cc_Field check; op = cc_Op check; first = first_value (cc_Values check) in
     if field = ''container'' then is_container_event
     else if field = ''evt.type'' then compileEventTypeCheck check
     else if field \<in> set macro_fields then compileMacroCheck check
     else if field = ''container.id'' then
       (if op = ''!='' \<and> first = Some ''host'' then is_container_event else never)
     else if field = ''proc.name'' then compileFieldCheck ''proc.name'' check
     else if field = ''proc.cmdline'' then compileFieldCheck ''proc.cmdline'' check
     else if field = ''proc.exe'' then compileFieldCheck ''proc.exe'' check
     else if field = ''proc.cwd'' then compileFieldCheck ''proc.cwd'' check
     else if field = ''fd.rip'' \<or> field = ''fd.rip.name'' then compileFieldCheck ''fd.rip'' check
     else if field = ''fd.rport'' then compileFieldCheck ''fd.rport'' check
     else if field = ''fd.name'' then compileFieldCheck ''fd.name'' check
     else if field = ''fd.type'' then
       (if op = ''='' \<and> first = Some ''socket'' then
          (\<lambda>event. Some (Category (er_Event event) = CatNetwork))
        else if op = ''='' \<and> first = Some ''file'' then
          (\<lambda>event. Some (Category (er_Event event) = CatFile))
        else never)
     else if field = ''fd.fd'' then never
     else if field = ''evt.arg.flags'' then compileFieldCheck ''evt.arg.flags'' check
     else if field = ''evt.arg.mode'' then compileFieldCheck ''evt.arg.mode'' check
     else if field = ''evt.arg.nstype'' then compileFieldCheck ''evt.arg.nstype'' check
     else if field = ''evt.is_open_exec'' then
       (\<lambda>event. Some (Category (er_Event event) = CatFile \<and>
          fp_Flags (PayFile (er_Event event)) AND 1 \<noteq> 0))
     else if field = ''evt.dir'' then
       (if op = ''='' \<and> first = Some ''<'' then always else never)
     else if field = ''passthrough'' then (if op = ''true'' then always else never)
     else never)"

section \<open>Expression trees\<close>

text \<open>The closures short-circuit as Go's \<open>&&\<close> and \<open>||\<close> do.\<close>

fun compileExpr :: "cond_expr \<Rightarrow> rule_condition" where
  "compileExpr (CAnd l r) = (\<lambda>event. case compileExpr l event of
     None \<Rightarrow> None | Some b \<Rightarrow> if b then compileExpr r event else Some False)"
| "compileExpr (COr l r) = (\<lambda>event. case compileExpr l event of
     None \<Rightarrow> None | Some b \<Rightarrow> if b then Some True else compileExpr r event)"
| "compileExpr (CNot l) = (\<lambda>event. map_option Not (compileExpr l event))"
| "compileExpr (CLeaf check) = compileSingleCheck check"

definition compileCondition ::
  "(string \<rightharpoonup> string list) \<Rightarrow> (nat \<Rightarrow> (string \<times> string) list) \<Rightarrow> string \<Rightarrow> (string + rule_condition) option" where
  "compileCondition lsts macro_orders condition =
     (case parseConditionExpr lsts (expandMacros macro_orders (normalizeWhitespace condition)) of
        None \<Rightarrow> None
      | Some (Inl err) \<Rightarrow> Some (Inl err)
      | Some (Inr expr) \<Rightarrow> Some (Inr (compileExpr expr)))"

section \<open>Compiled conditions never panic\<close>

text \<open>What the closures rely on: a check with an operator on one value has that value.\<close>

definition values_ok :: "condition_check \<Rightarrow> bool" where
  "values_ok check \<longleftrightarrow> (cc_Op check \<in> set [''contains'', ''startswith'', ''='', ''!=''] \<longrightarrow> cc_Values check \<noteq> [])"

lemma result_if:
  "(P \<Longrightarrow> pred_sum T Q a) \<Longrightarrow> (\<not> P \<Longrightarrow> pred_sum T Q b) \<Longrightarrow> pred_sum T Q (if P then a else b)"
  by simp

lemma result_case:
  "pred_sum T Q n \<Longrightarrow> (\<And>l r. pred_sum T Q (f l r)) \<Longrightarrow>
     pred_sum T Q (case x of None \<Rightarrow> n | Some (l, r) \<Rightarrow> f l r)"
  by (cases x) auto

lemma parseSingleCheck_pred: "pred_sum (\<lambda>_. True) values_ok (parseSingleCheck lsts s)"
  unfolding parseSingleCheck_def
  by (intro result_if result_case) (simp_all add: values_ok_def)

lemma parseSingleCheck_ok: "parseSingleCheck lsts s = Inr check \<Longrightarrow> values_ok check"
  using parseSingleCheck_pred[of lsts s] by simp

lemma with_first_ok:
  "values_ok check \<Longrightarrow> cc_Op check \<in> set [''contains'', ''startswith'', ''='', ''!=''] \<Longrightarrow> with_first check p \<noteq> None"
  by (cases "cc_Values check") (auto simp: with_first_def values_ok_def)

lemma if_not_None: "(P \<Longrightarrow> a \<noteq> None) \<Longrightarrow> (\<not> P \<Longrightarrow> b \<noteq> None) \<Longrightarrow> (if P then a else b) \<noteq> None"
  by simp

lemma compileFieldCheck_ok: "values_ok check \<Longrightarrow> compileFieldCheck field check event \<noteq> None"
  unfolding compileFieldCheck_def Let_def
  by (intro if_not_None option.distinct(2) with_first_ok) simp_all

lemma compileEventTypeCheck_ok: "compileEventTypeCheck check event \<noteq> None"
  by (auto simp: compileEventTypeCheck_def Let_def split: list.splits)

lemma if_closure: "(P \<Longrightarrow> f ev \<noteq> None) \<Longrightarrow> (\<not> P \<Longrightarrow> g ev \<noteq> None) \<Longrightarrow> (if P then f else g) ev \<noteq> None"
  by simp

lemma compileSingleCheck_ok: "values_ok check \<Longrightarrow> compileSingleCheck check event \<noteq> None"
  unfolding compileSingleCheck_def Let_def
  by (intro if_closure compileFieldCheck_ok compileEventTypeCheck_ok)
    (simp_all add: compileMacroCheck_def is_container_event_def Let_def)

lemma fold_parts_leaves:
  assumes "\<forall>p e. f p = Some (Inr e) \<longrightarrow> (\<forall>c\<in>leaves e. P c)"
    "\<forall>a b. leaves (mk a b) = leaves a \<union> leaves b"
  shows "fold_parts f mk node ps = Some (Inr e) \<Longrightarrow> \<forall>c\<in>leaves node. P c \<Longrightarrow> \<forall>c\<in>leaves e. P c"
proof (induction ps arbitrary: node)
  case (Cons p ps)
  then obtain r where r: "f p = Some (Inr r)" "fold_parts f mk (mk node r) ps = Some (Inr e)"
    by (auto split: option.splits sum.splits)
  show ?case using Cons.IH[OF r(2)] assms r(1) Cons.prems(2) by (metis Un_iff)
qed simp

lemma parse_parts_leaves:
  assumes "\<forall>p e. f p = Some (Inr e) \<longrightarrow> (\<forall>c\<in>leaves e. P c)"
    "\<forall>a b. leaves (mk a b) = leaves a \<union> leaves b" "parse_parts f mk ps = Some (Inr e)"
  shows "\<forall>c\<in>leaves e. P c"
proof -
  obtain node where n: "f (hd ps) = Some (Inr node)" "fold_parts f mk node (tl ps) = Some (Inr e)"
    using assms(3) by (auto simp: parse_parts_def split: option.splits sum.splits)
  show ?thesis
    using fold_parts_leaves[OF assms(1,2) n(2)] assms(1) n(1) by blast
qed

lemma parse_leaves_ok:
  "(\<forall>s e. parseOrExpr lsts n s = Some (Inr e) \<longrightarrow> (\<forall>c\<in>leaves e. values_ok c)) \<and>
   (\<forall>s e. parseAndExpr lsts n s = Some (Inr e) \<longrightarrow> (\<forall>c\<in>leaves e. values_ok c)) \<and>
   (\<forall>s e. parseLeafExpr lsts n s = Some (Inr e) \<longrightarrow> (\<forall>c\<in>leaves e. values_ok c))"
proof (induction n)
  case (Suc n)
  have "\<forall>c\<in>leaves e. values_ok c" if "parseOrExpr lsts (Suc n) s = Some (Inr e)" for s e
    by (rule parse_parts_leaves[OF _ _ that[unfolded parseOrExpr.simps]]) (use Suc in auto)
  moreover have "\<forall>c\<in>leaves e. values_ok c" if "parseAndExpr lsts (Suc n) s = Some (Inr e)" for s e
    by (rule parse_parts_leaves[OF _ _ that[unfolded parseAndExpr.simps]]) (use Suc in auto)
  moreover have "\<forall>c\<in>leaves e. values_ok c" if "parseLeafExpr lsts (Suc n) s = Some (Inr e)" for s e
  proof -
    have "values_ok false_check" by (simp add: values_ok_def false_check_def)
    then show ?thesis
      using that Suc parseSingleCheck_ok[of lsts] unfolding parseLeafExpr.simps Let_def
      by (auto split: if_splits option.splits sum.splits)
  qed
  ultimately show ?case by blast
qed simp

lemma compileExpr_ok: "\<forall>c\<in>leaves e. values_ok c \<Longrightarrow> compileExpr e event \<noteq> None"
  by (induction e) (auto split: option.splits simp: compileSingleCheck_ok[simplified])

lemma compileCondition_total:
  "case compileCondition lsts orders condition of
     None \<Rightarrow> False
   | Some (Inl err) \<Rightarrow> True
   | Some (Inr f) \<Rightarrow> (\<forall>event. \<exists>b. f event = Some b)"
proof -
  define s where "s = expandMacros orders (normalizeWhitespace condition)"
  obtain r where r: "parseConditionExpr lsts s = Some r" using parse_total[of lsts s] by auto
  show ?thesis
  proof (cases r)
    case (Inl err)
    with r show ?thesis by (simp add: compileCondition_def flip: s_def)
  next
    case (Inr e)
    with r have "\<forall>c\<in>leaves e. values_ok c"
      using parse_leaves_ok[of lsts] by (auto simp: parseConditionExpr_def Let_def split: if_splits)
    with r Inr show ?thesis
      using compileExpr_ok[of e] by (simp add: compileCondition_def flip: s_def)
  qed
qed

text \<open>Compiling a condition always returns, with a closure or with an error, and a closure it
  returns never panics: for every condition text, lists, macros and macro iteration orders, the
  closure has a value on every event.\<close>

theorem compiled_never_panics:
  "case compileCondition lsts orders condition of
     None \<Rightarrow> False
   | Some (Inl err) \<Rightarrow> True
   | Some (Inr f) \<Rightarrow> (\<forall>event. \<exists>b. f event = Some b)"
  by (rule compileCondition_total)

section \<open>What a condition means\<close>

text \<open>The Boolean reading of a tree, over the values of its leaves.\<close>

fun holds :: "cond_expr \<Rightarrow> enriched_for_rule \<Rightarrow> bool" where
  "holds (CAnd l r) event \<longleftrightarrow> holds l event \<and> holds r event"
| "holds (COr l r) event \<longleftrightarrow> holds l event \<or> holds r event"
| "holds (CNot l) event \<longleftrightarrow> \<not> holds l event"
| "holds (CLeaf check) event \<longleftrightarrow> compileSingleCheck check event = Some True"

lemma compileExpr_holds: "\<forall>c\<in>leaves e. values_ok c \<Longrightarrow> compileExpr e event = Some (holds e event)"
proof (induction e)
  case (CLeaf check)
  then show ?case using compileSingleCheck_ok[of check event] by auto
qed (auto split: option.splits)

text \<open>C12: A printed condition means what its tree says. The closure compiled from the text of a
  tree computes the Boolean combination of its leaf checks, whatever the nesting: the short-circuit
  closures and the parser's precedence implement \<open>and\<close>, \<open>or\<close>, \<open>not\<close> and parentheses.\<close>

theorem compile_print_holds:
  assumes "\<forall>c\<in>leaves e. leaf_ok lsts (txt c) c"
    and "normalizeWhitespace (print_cond txt 0 e) = print_cond txt 0 e"
  shows "\<exists>f. compileCondition lsts (\<lambda>_. []) (print_cond txt 0 e) = Some (Inr f) \<and>
    (\<forall>event. f event = Some (holds e event))"
proof -
  have "expandMacros (\<lambda>_. []) s = s" for s
    by (simp add: expandMacros_def eval_nat_numeral)
  then have "compileCondition lsts (\<lambda>_. []) (print_cond txt 0 e) = Some (Inr (compileExpr e))"
    using parse_print[OF assms(1)] assms(2) by (simp add: compileCondition_def)
  moreover have "\<forall>c\<in>leaves e. values_ok c"
    using assms(1) parseSingleCheck_ok unfolding leaf_ok_def by blast
  ultimately show ?thesis using compileExpr_holds by blast
qed

theorem compile_print_holds_witness:
  "\<exists>f. compileCondition (\<lambda>_. None) (\<lambda>_. []) ''not container'' = Some (Inr f) \<and>
    (\<forall>event. f event = Some (\<not> (er_ContainerAttributed event \<and> er_ContainerID event \<noteq> [])))"
proof -
  define a where "a = \<lparr>cc_Field = ''container'', cc_Op = ''is_container'', cc_Values = []\<rparr>"
  have "leaf_ok (\<lambda>_. None) ''container'' a" unfolding a_def by code_simp
  moreover have "normalizeWhitespace ''not container'' = ''not container''" by code_simp
  ultimately show ?thesis
    using compile_print_holds[of "CNot (CLeaf a)" "\<lambda>_. None" "\<lambda>_. ''container''"]
    by (simp add: a_def compileSingleCheck_def is_container_event_def Let_def)
qed

section \<open>Constructs that are silently false\<close>

definition compiles_to :: "string \<Rightarrow> rule_condition \<Rightarrow> bool" where
  "compiles_to s f \<longleftrightarrow> compileCondition (\<lambda>_. None) (\<lambda>_. []) s = Some (Inr f)"

lemma compiles_toI:
  "parseConditionExpr (\<lambda>_. None) (expandMacros (\<lambda>_. []) (normalizeWhitespace s)) = Some (Inr e) \<Longrightarrow>
     compileExpr e = f \<Longrightarrow> compiles_to s f"
  by (simp add: compiles_to_def compileCondition_def)

text \<open>Operators and groupings that are accepted and then never match. A parenthesised negation
  is compiled to a constant false check (it is not read as a negation), equality and inequality on
  a process name and inequality on a port have no closure, and a list test on a path has none
  either: each of these texts compiles without an error to the closure that is false on every
  event. The unparenthesised negation is the only form that negates.\<close>

theorem silently_false:
  "compiles_to ''(not container)'' never \<and>
   compiles_to ''evt.type = execve and (not proc.name in (bash, sh))'' never \<and>
   compiles_to ''proc.name = bash'' never \<and>
   compiles_to ''proc.name != bash'' never \<and>
   compiles_to ''proc.name not in (bash, sh)'' never \<and>
   compiles_to ''fd.rport != 22'' never \<and>
   compiles_to ''fd.name in (/etc/shadow)'' never \<and>
   compiles_to ''not container'' (\<lambda>event. map_option Not (is_container_event event))"
proof (intro conjI)
  show "compiles_to ''(not container)'' never"
    by (rule compiles_toI[of _ "CLeaf false_check"], code_simp)
      (simp add: compileSingleCheck_def false_check_def Let_def macro_fields_def)
  show "compiles_to ''proc.name = bash'' never"
    by (rule compiles_toI[of _ "CLeaf \<lparr>cc_Field = ''proc.name'', cc_Op = ''='', cc_Values = [''bash'']\<rparr>"],
        code_simp) (simp add: compileSingleCheck_def Let_def macro_fields_def compileFieldCheck_def)
  show "compiles_to ''proc.name != bash'' never"
    by (rule compiles_toI[of _ "CLeaf \<lparr>cc_Field = ''proc.name'', cc_Op = ''!='', cc_Values = [''bash'']\<rparr>"],
        code_simp) (simp add: compileSingleCheck_def Let_def macro_fields_def compileFieldCheck_def)
  show "compiles_to ''proc.name not in (bash, sh)'' never"
    by (rule compiles_toI[of _ "CLeaf \<lparr>cc_Field = ''proc.name'', cc_Op = ''not_in'', cc_Values = [''bash'', ''sh'']\<rparr>"],
        code_simp) (simp add: compileSingleCheck_def Let_def macro_fields_def compileFieldCheck_def)
  show "compiles_to ''fd.rport != 22'' never"
    by (rule compiles_toI[of _ "CLeaf \<lparr>cc_Field = ''fd.rport'', cc_Op = ''!='', cc_Values = [''22'']\<rparr>"],
        code_simp) (simp add: compileSingleCheck_def Let_def macro_fields_def compileFieldCheck_def)
  show "compiles_to ''fd.name in (/etc/shadow)'' never"
    by (rule compiles_toI[of _ "CLeaf \<lparr>cc_Field = ''fd.name'', cc_Op = ''in'', cc_Values = [''/etc/shadow'']\<rparr>"],
        code_simp) (simp add: compileSingleCheck_def Let_def macro_fields_def compileFieldCheck_def)
  have *: "compileSingleCheck \<lparr>cc_Field = ''not proc.name'', cc_Op = ''in'', cc_Values = vs\<rparr> = never" for vs
    by (simp add: compileSingleCheck_def Let_def macro_fields_def)
  show "compiles_to ''evt.type = execve and (not proc.name in (bash, sh))'' never"
    by (rule compiles_toI[of _ "CAnd (CLeaf \<lparr>cc_Field = ''evt.type'', cc_Op = ''='', cc_Values = [''execve'']\<rparr>)
          (CLeaf \<lparr>cc_Field = ''not proc.name'', cc_Op = ''in'', cc_Values = [''bash'', ''sh'']\<rparr>)"], code_simp)
      (rule ext, simp add: * compileSingleCheck_ok[unfolded not_None_eq] values_ok_def split: option.split)
  show "compiles_to ''not container'' (\<lambda>event. map_option Not (is_container_event event))"
    by (rule compiles_toI[of _ "CNot (CLeaf \<lparr>cc_Field = ''container'', cc_Op = ''is_container'', cc_Values = []\<rparr>)"],
        code_simp) (simp add: compileSingleCheck_def Let_def)
qed

text \<open>Path conditions are case-folded on one side only. The parser lower-cases the whole
  condition while \<open>pmatch\<close> and \<open>startswith\<close> compare with the path as the kernel reports it, so a
  pattern written with an upper-case letter tests another path than the one written.\<close>

theorem path_pattern_case_folded:
  "compiles_to ''fd.name pmatch (/etc/X11)''
     (\<lambda>event. Some (has_prefix (FilePath (er_Event event)) ''/etc/x11'')) \<and>
   compiles_to ''proc.exe startswith /opt/App/''
     (\<lambda>event. Some (has_prefix (Filename (er_Event event)) ''/opt/app/'')) \<and>
   \<not> has_prefix ''/etc/X11/xorg.conf'' ''/etc/x11''"
proof (intro conjI)
  show "compiles_to ''fd.name pmatch (/etc/X11)''
     (\<lambda>event. Some (has_prefix (FilePath (er_Event event)) ''/etc/x11''))"
    by (rule compiles_toI[of _ "CLeaf \<lparr>cc_Field = ''fd.name'', cc_Op = ''pmatch'', cc_Values = [''/etc/x11'']\<rparr>"],
        code_simp) (simp add: compileSingleCheck_def Let_def macro_fields_def compileFieldCheck_def)
  show "compiles_to ''proc.exe startswith /opt/App/''
     (\<lambda>event. Some (has_prefix (Filename (er_Event event)) ''/opt/app/''))"
    by (rule compiles_toI[of _ "CLeaf \<lparr>cc_Field = ''proc.exe'', cc_Op = ''startswith'', cc_Values = [''/opt/app/'']\<rparr>"],
        code_simp) (simp add: compileSingleCheck_def Let_def macro_fields_def compileFieldCheck_def with_first_def)
  show "\<not> has_prefix ''/etc/X11/xorg.conf'' ''/etc/x11''" by (simp add: has_prefix_def)
qed

end
