(* ===== verification/Rule_Files.thy ===== *)
theory Rule_Files
  imports Cond_Eval
begin

text \<open>
  \<open>pkg/rules/types.go\<close> and \<open>pkg/rules/parser.go\<close>: priorities and rule matches, and the reading of a
  rule file. The YAML library is not part of the repository: what it returns, an array of maps from
  strings to untyped values, is where the model starts. Of such a value the code looks at strings
  and sequences only, so every other kind of value is \<open>YOther\<close>.
\<close>

section \<open>Priorities and matches\<close>

definition ActionAlert :: string where "ActionAlert = ''alert''"
definition ActionEnforce :: string where "ActionEnforce = ''enforce''"
definition ActionSimulated :: string where "ActionSimulated = ''simulate''"
definition ActionSuppress :: string where "ActionSuppress = ''suppress''"

lemmas action_defs = ActionAlert_def ActionEnforce_def ActionSimulated_def ActionSuppress_def

definition PriorityOrder :: "(string \<times> int) list" where
  "PriorityOrder =
    [(''DEBUG'', 0), (''INFO'', 1), (''NOTICE'', 2), (''WARNING'', 3), (''ERROR'', 4),
     (''CRITICAL'', 5), (''ALERT'', 6), (''EMERGENCY'', 7)]"

text \<open>A missing key of a Go map of ints reads as 0.\<close>

definition priority_rank :: "string \<Rightarrow> int" where
  "priority_rank p = (case map_of PriorityOrder p of Some r \<Rightarrow> r | None \<Rightarrow> 0)"

record rule_match =
  rm_RuleID :: string
  rm_RuleName :: string
  rm_Priority :: string
  rm_Action :: string
  rm_Output :: string
  rm_Tags :: "string list"

definition IsMoreSevere :: "rule_match \<Rightarrow> rule_match \<Rightarrow> bool" where
  "IsMoreSevere m other =
    (let myRank = priority_rank (rm_Priority m); otherRank = priority_rank (rm_Priority other)
     in if myRank \<noteq> otherRank then myRank > otherRank
        else if rm_Action m = ActionEnforce \<and> rm_Action other \<noteq> ActionEnforce then True
        else False)"

text \<open>The order behind \<open>IsMoreSevere\<close>: priority first, an enforcing action breaks ties.\<close>

definition severity :: "string \<Rightarrow> string \<Rightarrow> int" where
  "severity priority action = 2 * priority_rank priority + (if action = ActionEnforce then 1 else 0)"

lemma IsMoreSevere_severity:
  "IsMoreSevere m other \<longleftrightarrow> severity (rm_Priority other) (rm_Action other) < severity (rm_Priority m) (rm_Action m)"
  by (auto simp: IsMoreSevere_def severity_def Let_def)

section \<open>Definitions read from a file\<close>

datatype yval = YStr string | YSeq "yval list" | YOther

type_synonym yaml_map = "(string \<times> yval) list"

record list_def =
  ld_Name :: string
  ld_Items :: "string list"

record macro_def =
  md_Name :: string
  md_Condition :: string

record correlate_def =
  cd_Window :: string
  cd_Signals :: "string list"
  cd_Logic :: string
  cd_GroupBy :: "string list"

record exception_def =
  xd_Name :: string
  xd_Fields :: "string list"
  xd_Comps :: "string list"
  xd_Values :: "string list list"

record rule_def =
  rd_ID :: string
  rd_Name :: string
  rd_Desc :: string
  rd_Condition :: string
  rd_Output :: string
  rd_Priority :: string
  rd_Tags :: "string list"
  rd_Action :: string
  rd_Correlate :: "correlate_def option"
  rd_Exceptions :: "exception_def list"

datatype raw_item = ItemList list_def | ItemMacro macro_def | ItemRule rule_def | ItemNone

fun yaml_str :: "yval option \<Rightarrow> string option" where
  "yaml_str (Some (YStr s)) = Some s"
| "yaml_str _ = None"

fun toStringSlice :: "yval \<Rightarrow> string list" where
  "toStringSlice (YSeq vs) = List.map_filter (\<lambda>v. yaml_str (Some v)) vs"
| "toStringSlice _ = []"

definition str_field :: "yaml_map \<Rightarrow> string \<Rightarrow> string" where
  "str_field m k = (case yaml_str (map_of m k) of Some s \<Rightarrow> s | None \<Rightarrow> [])"

definition parse_rule_map :: "string \<Rightarrow> yaml_map \<Rightarrow> rule_def" where
  "parse_rule_map name m =
    \<lparr>rd_ID = str_field m ''id'', rd_Name = name, rd_Desc = str_field m ''desc'',
     rd_Condition = str_field m ''condition'', rd_Output = str_field m ''output'',
     rd_Priority = str_field m ''priority'',
     rd_Tags = (case map_of m ''tags'' of Some tags \<Rightarrow> toStringSlice tags | None \<Rightarrow> []),
     rd_Action = str_field m ''action'', rd_Correlate = None, rd_Exceptions = []\<rparr>"

definition parseMapToItem :: "yaml_map \<Rightarrow> raw_item" where
  "parseMapToItem m =
    (case (yaml_str (map_of m ''list''), map_of m ''items'') of
       (Some name, Some itemsRaw) \<Rightarrow> ItemList \<lparr>ld_Name = name, ld_Items = toStringSlice itemsRaw\<rparr>
     | _ \<Rightarrow>
       (case (yaml_str (map_of m ''macro''), yaml_str (map_of m ''condition'')) of
          (Some name, Some cond) \<Rightarrow> ItemMacro \<lparr>md_Name = name, md_Condition = cond\<rparr>
        | _ \<Rightarrow>
          (case yaml_str (map_of m ''rule'') of
             Some name \<Rightarrow> ItemRule (parse_rule_map name m)
           | None \<Rightarrow> ItemNone)))"

text \<open>The two shapes \<open>parseRawItems\<close> tries, as the YAML library decodes them: a top-level array, or a
  document whose \<open>items\<close> is one.\<close>

record yaml_decoded =
  yd_array :: "yaml_map list option"
  yd_items :: "yaml_map list option"

definition parseRawItems :: "yaml_decoded \<Rightarrow> string + raw_item list" where
  "parseRawItems d =
    (case yd_array d of
       Some rawArray \<Rightarrow> Inr (map parseMapToItem rawArray)
     | None \<Rightarrow>
       (case yd_items d of
          Some its \<Rightarrow> if 0 < length its then Inr (map parseMapToItem its)
                      else Inl ''failed to parse rule file: unrecognized format''
        | None \<Rightarrow> Inl ''failed to parse rule file: unrecognized format''))"

section \<open>Rule identifiers\<close>

text \<open>\<open>strings.ReplaceAll(s, old, new)\<close> for a non-empty \<open>old\<close>: leftmost matches, not overlapping.\<close>

function replace_all :: "string \<Rightarrow> string \<Rightarrow> string \<Rightarrow> string" where
  "replace_all old new [] = []"
| "replace_all old new (c # cs) =
     (if has_prefix (c # cs) old then new @ replace_all old new (drop (length old - 1) cs)
      else c # replace_all old new cs)"
  by pat_completeness auto
termination by (relation "measure (\<lambda>(old, new, s). length s)") auto

lemma has_prefix_double_dash:
  "has_prefix (c # cs) ''--'' \<Longrightarrow> c = CHR ''-'' \<and> (\<exists>r. cs = CHR ''-'' # r)"
  by (cases cs) (auto simp: has_prefix_def)

lemma replace_dashes_le: "length (replace_all ''--'' ''-'' s) \<le> length s"
proof (induction "''--''" "''-''" s rule: replace_all.induct)
  case (2 c cs)
  show ?case
  proof (cases "has_prefix (c # cs) ''--''")
    case True
    then obtain r where "cs = CHR ''-'' # r" using has_prefix_double_dash by blast
    with 2(1)[OF True] True show ?thesis by simp
  qed (use 2 in auto)
qed simp

lemma replace_dashes_less:
  "str_contains s ''--'' \<Longrightarrow> length (replace_all ''--'' ''-'' s) < length s"
proof (induction "''--''" "''-''" s rule: replace_all.induct)
  case (2 c cs)
  show ?case
  proof (cases "has_prefix (c # cs) ''--''")
    case True
    then obtain r where r: "cs = CHR ''-'' # r" using has_prefix_double_dash by blast
    have "length (replace_all ''--'' ''-'' r) \<le> length r" by (rule replace_dashes_le)
    with True r show ?thesis by simp
  qed (use 2 in auto)
qed simp

function collapse_dashes :: "string \<Rightarrow> string" where
  "collapse_dashes s = (if str_contains s ''--'' then collapse_dashes (replace_all ''--'' ''-'' s) else s)"
  by pat_completeness auto
termination by (relation "measure length") (simp_all add: replace_dashes_less)

declare collapse_dashes.simps [simp del]

definition trim_char :: "char \<Rightarrow> string \<Rightarrow> string" where
  "trim_char c s = rev (dropWhile ((=) c) (rev (dropWhile ((=) c) s)))"

text \<open>The em dash of the source is the three bytes E2 80 94.\<close>

definition sanitizeRuleID :: "string \<Rightarrow> string" where
  "sanitizeRuleID name =
    (let s = to_lower name;
         s = replace_all '' '' ''-'' s;
         s = replace_all ''_'' ''-'' s;
         s = replace_all [CHR 0xE2, CHR 0x80, CHR 0x94] ''-'' s;
         s = replace_all '','' [] s;
         s = replace_all ''('' [] s;
         s = replace_all '')'' [] s;
         s = replace_all ''/'' ''-'' s
     in trim_char (CHR ''-'') (collapse_dashes s))"

section \<open>Reading a file\<close>

text \<open>\<open>norm_window\<close> stands for \<open>parseDuration\<close> followed by \<open>Duration.String\<close> of the standard library, on
  the window of a correlation.\<close>

definition finish_rule :: "(string \<Rightarrow> string + string) \<Rightarrow> rule_def \<Rightarrow> string + rule_def" where
  "finish_rule norm_window rd0 =
    (let rd1 = (if rd_ID rd0 = [] then rd0\<lparr>rd_ID := sanitizeRuleID (rd_Name rd0)\<rparr> else rd0);
         rd2 = (if rd_Action rd1 = [] then rd1\<lparr>rd_Action := ActionAlert\<rparr> else rd1)
     in case rd_Correlate rd2 of
          None \<Rightarrow> Inr rd2
        | Some c \<Rightarrow>
          (case norm_window (cd_Window c) of
             Inl err \<Rightarrow> Inl (''rule '' @ rd_Name rd2 @ '': invalid correlate window: '' @ err)
           | Inr w \<Rightarrow> Inr (rd2\<lparr>rd_Correlate := Some (c\<lparr>cd_Window := w\<rparr>)\<rparr>)))"

fun parse_items :: "(string \<Rightarrow> string + string) \<Rightarrow> raw_item list \<Rightarrow>
    string + (rule_def list \<times> macro_def list \<times> list_def list)" where
  "parse_items nw [] = Inr ([], [], [])"
| "parse_items nw (item # its) =
     (case item of
        ItemList l \<Rightarrow> map_sum id (\<lambda>(rs, ms, ls). (rs, ms, l # ls)) (parse_items nw its)
      | ItemMacro m \<Rightarrow> map_sum id (\<lambda>(rs, ms, ls). (rs, m # ms, ls)) (parse_items nw its)
      | ItemRule rd \<Rightarrow>
          (case finish_rule nw rd of
             Inl err \<Rightarrow> Inl err
           | Inr r \<Rightarrow> map_sum id (\<lambda>(rs, ms, ls). (r # rs, ms, ls)) (parse_items nw its))
      | ItemNone \<Rightarrow> parse_items nw its)"

definition ParseYAML :: "(string \<Rightarrow> string + string) \<Rightarrow> yaml_decoded \<Rightarrow>
    string + (rule_def list \<times> macro_def list \<times> list_def list)" where
  "ParseYAML nw d = (case parseRawItems d of Inl err \<Rightarrow> Inl err | Inr its \<Rightarrow> parse_items nw its)"

section \<open>What every parsed rule has\<close>

definition plain_rule :: "rule_def \<Rightarrow> bool" where
  "plain_rule r \<longleftrightarrow> rd_Action r \<noteq> [] \<and> rd_Correlate r = None \<and> rd_Exceptions r = []"

lemma finish_parsed_rule:
  "\<exists>r. finish_rule nw (parse_rule_map name m) = Inr r \<and> plain_rule r"
  by (auto simp: finish_rule_def parse_rule_map_def plain_rule_def ActionAlert_def Let_def)

lemma parse_items_plain:
  "\<forall>i\<in>set its. \<forall>rd. i = ItemRule rd \<longrightarrow> (\<exists>r. finish_rule nw rd = Inr r \<and> plain_rule r) \<Longrightarrow>
     \<exists>rs ms ls. parse_items nw its = Inr (rs, ms, ls) \<and> (\<forall>r\<in>set rs. plain_rule r)"
proof (induction its)
  case (Cons i its)
  then obtain rs ms ls where t: "parse_items nw its = Inr (rs, ms, ls)" "\<forall>r\<in>set rs. plain_rule r"
    by auto
  show ?case
  proof (cases i)
    case (ItemRule rd)
    with Cons.prems obtain r where "finish_rule nw rd = Inr r" "plain_rule r" by auto
    with t ItemRule show ?thesis by simp
  qed (use t in simp_all)
qed simp

lemma parseMapToItem_rule: "parseMapToItem m = ItemRule rd \<Longrightarrow> \<exists>name. rd = parse_rule_map name m"
  by (auto simp: parseMapToItem_def split: option.splits)

lemma ParseYAML_result:
  "parseRawItems d = Inr its \<Longrightarrow>
     \<exists>rs ms ls. ParseYAML nw d = Inr (rs, ms, ls) \<and> (\<forall>r\<in>set rs. plain_rule r)"
proof -
  assume a: "parseRawItems d = Inr its"
  then obtain raw where "its = map parseMapToItem raw"
    by (auto simp: parseRawItems_def split: option.splits if_splits)
  have "\<exists>rs ms ls. parse_items nw its = Inr (rs, ms, ls) \<and> (\<forall>r\<in>set rs. plain_rule r)"
  proof (intro parse_items_plain ballI allI impI)
    fix i rd assume "i \<in> set its" "i = ItemRule rd"
    with \<open>its = map parseMapToItem raw\<close> obtain m where "parseMapToItem m = ItemRule rd" by auto
    then show "\<exists>r. finish_rule nw rd = Inr r \<and> plain_rule r"
      using parseMapToItem_rule[of m rd] finish_parsed_rule[of nw] by auto
  qed
  with a show ?thesis by (simp add: ParseYAML_def)
qed

text \<open>Reading a rule file never fails after the YAML has been decoded, and it drops what the file
  says under \<open>exceptions\<close> and \<open>correlate\<close>: every rule it returns has an action, no exception and no
  correlation. (The map keys are never read, although \<open>RuleDef\<close> has fields for both.)\<close>

theorem files_drop_exceptions:
  "case ParseYAML nw d of
     Inl err \<Rightarrow> parseRawItems d = Inl err
   | Inr (rs, ms, ls) \<Rightarrow> list_all (\<lambda>r. rd_Action r \<noteq> [] \<and> rd_Correlate r = None \<and> rd_Exceptions r = []) rs"
proof (cases "parseRawItems d")
  case (Inl err)
  then show ?thesis by (simp add: ParseYAML_def)
next
  case (Inr its)
  then show ?thesis
    using ParseYAML_result[of d its nw] by (auto simp: list_all_iff plain_rule_def)
qed

section \<open>Generated identifiers\<close>

lemma set_replace_all: "set (replace_all old new s) \<subseteq> set new \<union> set s"
proof (induction old new s rule: replace_all.induct)
  case (2 old new c cs)
  then show ?case using set_drop_subset[of "length old - 1" cs] by auto
qed simp

lemma replace_all_removes: "x \<notin> set new \<Longrightarrow> x \<notin> set (replace_all [x] new s)"
proof (induction "[x]" new s rule: replace_all.induct)
  case (2 new c cs)
  then show ?case by (cases "c = x") (auto simp: has_prefix_def)
qed simp

lemma collapse_dashes_clean: "\<not> str_contains (collapse_dashes s) ''--'' \<and> set (collapse_dashes s) \<subseteq> insert (CHR ''-'') (set s)"
proof (induction s rule: collapse_dashes.induct)
  case (1 s)
  show ?case
  proof (cases "str_contains s ''--''")
    case True
    then have "collapse_dashes s = collapse_dashes (replace_all ''--'' ''-'' s)"
      by (subst collapse_dashes.simps) simp
    with 1[OF True] show ?thesis using set_replace_all[of "''--''" "''-''" s] by auto
  next
    case False
    then show ?thesis by (subst (1 2) collapse_dashes.simps) auto
  qed
qed

lemma trim_char_part: "\<exists>a b. s = a @ trim_char c s @ b"
proof -
  define m where "m = dropWhile ((=) c) s"
  have "s = takeWhile ((=) c) s @ m" by (simp add: m_def)
  moreover have "m = rev (dropWhile ((=) c) (rev m)) @ rev (takeWhile ((=) c) (rev m))"
    by (simp flip: rev_append)
  ultimately show ?thesis unfolding trim_char_def m_def[symmetric] by metis
qed

lemma trim_char_ends: "trim_char c s = [] \<or> hd (trim_char c s) \<noteq> c \<and> last (trim_char c s) \<noteq> c"
proof -
  define m where "m = dropWhile ((=) c) s"
  define t where "t = rev (dropWhile ((=) c) (rev m))"
  have m: "m = [] \<or> hd m \<noteq> c" using hd_dropWhile[of "(=) c" s] unfolding m_def by metis
  have "m = t @ rev (takeWhile ((=) c) (rev m))" by (simp add: t_def flip: rev_append)
  then have "t = [] \<or> hd t \<noteq> c" using m by (metis Nil_is_append_conv hd_append2)
  moreover have "t = [] \<or> last t \<noteq> c"
    using hd_dropWhile[of "(=) c" "rev m"]
    unfolding t_def by (metis last_rev rev_is_Nil_conv)
  ultimately show ?thesis by (auto simp: trim_char_def t_def m_def)
qed

text \<open>The identifier made from a rule name is clean: no blank, underscore, comma, parenthesis or
  slash, no two dashes in a row (the loop that merges them ends on every name) and no dash at
  either end.\<close>

theorem sanitizeRuleID_clean:
  "\<not> str_contains (sanitizeRuleID name) ''--'' \<and>
   set (sanitizeRuleID name) \<inter> set '' _,()/'' = {} \<and>
   (sanitizeRuleID name = [] \<or> hd (sanitizeRuleID name) \<noteq> CHR ''-'' \<and> last (sanitizeRuleID name) \<noteq> CHR ''-'')"
proof -
  define s0 where "s0 = replace_all '' '' ''-'' (to_lower name)"
  define s1 where "s1 = replace_all ''_'' ''-'' s0"
  define s2 where "s2 = replace_all [CHR 0xE2, CHR 0x80, CHR 0x94] ''-'' s1"
  define s3 where "s3 = replace_all '','' [] s2"
  define s4 where "s4 = replace_all ''('' [] s3"
  define s5 where "s5 = replace_all '')'' [] s4"
  define s6 where "s6 = replace_all ''/'' ''-'' s5"
  define t where "t = collapse_dashes s6"
  have id: "sanitizeRuleID name = trim_char (CHR ''-'') t"
    by (simp add: sanitizeRuleID_def t_def s6_def s5_def s4_def s3_def s2_def s1_def s0_def)
  have sub: "set s6 \<subseteq> insert (CHR ''-'') (set s5)" "set s5 \<subseteq> set s4" "set s4 \<subseteq> set s3" "set s3 \<subseteq> set s2"
    "set s2 \<subseteq> insert (CHR ''-'') (set s1)" "set s1 \<subseteq> insert (CHR ''-'') (set s0)"
    using set_replace_all[of "''/''" "''-''" s5] set_replace_all[of "'')''" "[]" s4]
      set_replace_all[of "''(''" "[]" s3] set_replace_all[of "'',''" "[]" s2]
      set_replace_all[of "[CHR 0xE2, CHR 0x80, CHR 0x94]" "''-''" s1] set_replace_all[of "''_''" "''-''" s0]
    by (auto simp: s6_def s5_def s4_def s3_def s2_def s1_def)
  have rem: "CHR '' '' \<notin> set s0" "CHR ''_'' \<notin> set s1" "CHR '','' \<notin> set s3" "CHR ''('' \<notin> set s4"
    "CHR '')'' \<notin> set s5" "CHR ''/'' \<notin> set s6"
    by (simp_all add: s0_def s1_def s3_def s4_def s5_def s6_def replace_all_removes)
  have "x \<in> set s3 \<and> x \<in> set s4 \<and> x \<in> set s5 \<and> x \<in> set s1 \<and> x \<in> set s0"
    if "x \<in> set s6" "x \<noteq> CHR ''-''" for x
    using sub that by blast
  then have "set s6 \<inter> set '' _,()/'' = {}" using rem by auto
  moreover have "set t \<subseteq> insert (CHR ''-'') (set s6)" "\<not> str_contains t ''--''"
    using collapse_dashes_clean[of s6] by (auto simp: t_def)
  moreover obtain a b where "t = a @ sanitizeRuleID name @ b"
    using trim_char_part[of t "CHR ''-''"] id by auto
  ultimately have "set (sanitizeRuleID name) \<inter> set '' _,()/'' = {}"
    "\<not> str_contains (sanitizeRuleID name) ''--''"
    by (auto simp: str_contains_iff) (metis append.assoc)
  then show ?thesis using trim_char_ends[of "CHR ''-''" t] id by auto
qed

end
