(* ===== verification/Engine.thy ===== *)
theory Engine
  imports Rule_Files "HOL-Library.Monad_Syntax"
begin

text \<open>
  \<open>pkg/rules/engine.go\<close>: compiled rules, their buckets, evaluation of an event, loading and
  reloading. The rule map is an association list (its order is the order a \<open>range\<close> visits), the
  buckets are a function from event types. What the operating system and the YAML library return
  for a configured path is an argument (\<open>rule_path\<close>); the iteration order of the macro map in
  each expansion round is the argument \<open>ord\<close>, that of the replacement map of \<open>formatOutput\<close> the
  argument \<open>fo\<close>.
\<close>

section \<open>Data\<close>

record correlation_spec =
  cs_Window :: duration
  cs_Signals :: "string list"
  cs_Logic :: string
  cs_GroupBy :: "string list"

record exception_rec =
  xc_Name :: string
  xc_Fields :: "string list"
  xc_Comps :: "string list"
  xc_Values :: "string list list"

record compiled_rule =
  cr_ID :: string
  cr_Name :: string
  cr_Description :: string
  cr_Priority :: string
  cr_Action :: string
  cr_Output :: string
  cr_Tags :: "string list"
  cr_Category :: u8
  cr_EventTypes :: "u8 list"
  cr_Condition :: rule_condition
  cr_Correlate :: "correlation_spec option"
  cr_Exceptions :: "exception_rec list"

record engine =
  eg_buckets :: "u8 \<Rightarrow> compiled_rule list"
  eg_rules :: "(string \<times> compiled_rule) list"
  eg_lists :: "string \<rightharpoonup> string list"
  eg_ruleCount :: int
  eg_enforceCount :: int
  eg_alertCount :: int
  eg_evalCount :: int

definition default_lists :: "(string \<times> string list) list" where
  "default_lists =
    [(''shell_binaries'', [''bash'', ''sh'', ''zsh'', ''dash'', ''ksh'', ''tcsh'', ''fish'', ''csh'']),
     (''miner_binaries'', [''xmrig'', ''ccminer'', ''t-rex'', ''nanominer'', ''pwnrig'', ''minerd'',
        ''xmr-stak'', ''cpuminer'', ''cgminer'', ''bfgminer'']),
     (''miner_pool_ports'', [''25'', ''3333'', ''3334'', ''3335'', ''3336'', ''3357'', ''4444'', ''5555'',
        ''5556'', ''5588'', ''5730'', ''6099'', ''6666'', ''7777'', ''7778'', ''8333'', ''8888'', ''8899'',
        ''9332'', ''9999'', ''14433'', ''14444'', ''45560'', ''45700'']),
     (''miner_domains'', [''asia1.ethpool.org'', ''ca.minexmr.com'', ''cn.stratum.slushpool.com'',
        ''de.minexmr.com'', ''eth-ar.dwarfpool.com'', ''fr.minexmr.com'', ''mine.moneropool.com'',
        ''pool.minexmr.com'', ''xmr.crypto-pool.fr'']),
     (''sensitive_paths'', SensitivePaths),
     (''c2_ports'', [''4444'', ''1337'', ''31337'', ''6666'', ''8080'', ''9001'', ''1234'', ''4443'']),
     (''cloud_metadata_ips'', [''169.254.169.254'', ''168.63.129.16''])]"

definition loadDefaultLists :: "engine \<Rightarrow> engine" where
  "loadDefaultLists e = e\<lparr>eg_lists := eg_lists e ++ map_of default_lists\<rparr>"

definition empty_engine :: engine where
  "empty_engine = \<lparr>eg_buckets = (\<lambda>_. []), eg_rules = [], eg_lists = Map.empty,
     eg_ruleCount = 0, eg_enforceCount = 0, eg_alertCount = 0, eg_evalCount = 0\<rparr>"

section \<open>Exceptions\<close>

definition resolveEventField :: "string \<Rightarrow> enriched_for_rule \<Rightarrow> string" where
  "resolveEventField field event =
    (let ev = er_Event event in
     if field = ''container.image.repository'' \<or> field = ''container.image'' then er_ContainerImage event
     else if field = ''container.name'' then er_ContainerName event
     else if field = ''container.id'' then er_ContainerID event
     else if field = ''proc.name'' then CommString ev
     else if field = ''proc.cmdline'' then Args ev
     else if field = ''proc.exe'' then Filename ev
     else if field = ''namespace'' then er_Namespace event
     else if field = ''pod.name'' then er_PodName event
     else if field = ''serviceaccount'' \<or> field = ''sa'' then er_ServiceAccount event
     else if field = ''fd.name'' then FilePath ev
     else if field = ''fd.rip'' then RemoteIP ev
     else if field = ''fd.rport'' then show_word (RemotePort ev)
     else [])"

definition engineListContains :: "string \<Rightarrow> string \<Rightarrow> bool" where
  "engineListContains list value = list_ex (\<lambda>item. trim_space item = value) (split_on (CHR '','') list)"

definition matchField :: "string \<Rightarrow> string \<Rightarrow> string \<Rightarrow> bool" where
  "matchField cmp eventValue expectedValue =
    (if cmp = ''='' \<or> cmp = ''equals'' then eventValue = expectedValue
     else if cmp = ''!='' \<or> cmp = ''not_equals'' then eventValue \<noteq> expectedValue
     else if cmp = ''in'' then engineListContains expectedValue eventValue
     else if cmp = ''contains'' then str_contains eventValue expectedValue
     else if cmp = ''startswith'' then has_prefix eventValue expectedValue
     else eventValue = expectedValue)"

text \<open>The comparator for a field: the one at its index when there is one and it is not empty.\<close>

definition pick_comp :: "string list \<Rightarrow> string" where
  "pick_comp comps = (case comps of [] \<Rightarrow> ''='' | c # _ \<Rightarrow> if c \<noteq> [] then c else ''='')"

fun matchValueRow :: "string list \<Rightarrow> string list \<Rightarrow> string list \<Rightarrow> enriched_for_rule \<Rightarrow> bool" where
  "matchValueRow [] comps vals event = True"
| "matchValueRow (field # fds) comps [] event = False"
| "matchValueRow (field # fds) comps (v # vals) event =
     (if \<not> matchField (pick_comp comps) (resolveEventField field event) v then False
      else matchValueRow fds (tl comps) vals event)"

definition evaluateException :: "exception_rec \<Rightarrow> enriched_for_rule \<Rightarrow> bool" where
  "evaluateException exc event =
     list_ex (\<lambda>row. matchValueRow (xc_Fields exc) (xc_Comps exc) row event) (xc_Values exc)"

definition matchException :: "compiled_rule \<Rightarrow> enriched_for_rule \<Rightarrow> bool" where
  "matchException rule event = list_ex (\<lambda>exc. evaluateException exc event) (cr_Exceptions rule)"

section \<open>Output text\<close>

definition replacements :: "enriched_for_rule \<Rightarrow> (string \<times> string) list" where
  "replacements event =
    (let ev = er_Event event in
     [(''%proc.name'', CommString ev),
      (''%proc.pid'', show_word (PID ev)),
      (''%proc.cmdline'', Args ev),
      (''%proc.exe'', Filename ev),
      (''%user.name'', ''uid='' @ show_word (UID ev)),
      (''%container.id'', er_ContainerID event),
      (''%container.name'', er_ContainerName event),
      (''%container.image.repository'', er_ContainerImage event),
      (''%fd.name'', FilePath ev),
      (''%fd.rip'', RemoteIP ev),
      (''%fd.rport'', show_word (RemotePort ev)),
      (''%evt.type'', EventTypeString ev),
      (''%evt.arg.nstype'', show_word (ep_NSType (PayEscape ev)))])"

type_synonym format_order = "(string \<times> string) list \<Rightarrow> (string \<times> string) list"

definition formatOutput :: "format_order \<Rightarrow> string \<Rightarrow> enriched_for_rule \<Rightarrow> string" where
  "formatOutput fo template event =
     fold (\<lambda>(key, val) out. replace_all key val out) (fo (replacements event)) template"

section \<open>Evaluation\<close>

text \<open>Candidates from a further bucket: those whose identifier has not been seen.\<close>

fun add_unseen :: "compiled_rule list \<Rightarrow> string set \<Rightarrow> compiled_rule list \<Rightarrow> compiled_rule list \<times> string set" where
  "add_unseen cands seen [] = (cands, seen)"
| "add_unseen cands seen (r # rs) =
     (if cr_ID r \<notin> seen then add_unseen (cands @ [r]) (insert (cr_ID r) seen) rs
      else add_unseen cands seen rs)"

definition candidates :: "engine \<Rightarrow> scarlet_event \<Rightarrow> compiled_rule list" where
  "candidates e raw =
    (let c0 = eg_buckets e (EventType raw); seen0 = set (map cr_ID c0);
         (c1, seen1) = add_unseen c0 seen0 (eg_buckets e (Category raw));
         (c2, seen2) = add_unseen c1 seen1 (eg_buckets e 0)
     in c2)"

definition make_match :: "format_order \<Rightarrow> compiled_rule \<Rightarrow> enriched_for_rule \<Rightarrow> rule_match" where
  "make_match fo rule event =
    \<lparr>rm_RuleID = cr_ID rule, rm_RuleName = cr_Name rule, rm_Priority = cr_Priority rule,
     rm_Action = cr_Action rule, rm_Output = formatOutput fo (cr_Output rule) event,
     rm_Tags = cr_Tags rule\<rparr>"

fun eval_loop :: "format_order \<Rightarrow> enriched_for_rule \<Rightarrow> rule_match option \<Rightarrow> compiled_rule list \<Rightarrow>
    rule_match option option" where
  "eval_loop fo event best [] = Some best"
| "eval_loop fo event best (rule # rs) =
     (if cr_Category rule \<noteq> 0 \<and> cr_Category rule \<noteq> Category (er_Event event) then eval_loop fo event best rs
      else do {
        b \<leftarrow> cr_Condition rule event;
        if \<not> b then eval_loop fo event best rs
        else if matchException rule event then eval_loop fo event best rs
        else
          let match = make_match fo rule event
          in eval_loop fo event
               (case best of None \<Rightarrow> Some match
                | Some old \<Rightarrow> if IsMoreSevere match old then Some match else best) rs
      })"

definition Evaluate :: "format_order \<Rightarrow> engine \<Rightarrow> enriched_for_rule \<Rightarrow> (engine \<times> rule_match option) option" where
  "Evaluate fo e event =
     (let e' = e\<lparr>eg_evalCount := eg_evalCount e + 1\<rparr>
      in map_option (\<lambda>m. (e', m)) (eval_loop fo event None (candidates e' (er_Event event))))"

definition EvaluateRule :: "format_order \<Rightarrow> engine \<Rightarrow> enriched_for_rule \<Rightarrow> (engine \<times> rule_match option) option" where
  "EvaluateRule fo e event = Evaluate fo e event"

section \<open>Compilation of a rule\<close>

definition inferEventTypes :: "string \<Rightarrow> u8 list" where
  "inferEventTypes condition =
    (let cond = to_lower condition; has = str_contains cond;
         types =
           (if has ''execve'' \<or> has ''spawned_process'' then [EvtExec] else []) @
           (if has ''fork'' \<or> has ''clone'' then [EvtFork] else []) @
           (if has ''open'' \<or> has ''file_open'' then [EvtFileOpen] else []) @
           (if has ''unlink'' then [EvtFileUnlink] else []) @
           (if has ''memfd'' then [EvtFileMemfd] else []) @
           (if has ''connect'' \<or> has ''net_outbound'' then [EvtNetConnect, EvtNetUDP] else []) @
           (if has ''listen'' then [EvtNetListen] else []) @
           (if has ''setns'' then [EvtSetns] else []) @
           (if has ''unshare'' then [EvtUnshare] else []) @
           (if has ''mount'' then [EvtMount] else []) @
           (if has ''ptrace'' then [EvtPtrace] else []) @
           (if has ''bpf'' \<and> \<not> has ''ebpf'' then [EvtBpfLoad] else []) @
           (if has ''setuid'' then [EvtSetuid] else []) @
           (if has ''capset'' then [EvtCapset] else []) @
           (if has ''chmod'' \<or> has ''suid'' \<or> has ''sgid'' then [EvtChmod] else []) @
           (if has ''dup'' then [EvtExec, EvtNetConnect] else [])
     in if types = [] then [0] else types)"

definition inferCategory :: "string \<Rightarrow> u8" where
  "inferCategory condition =
    (let cond = to_lower condition; has = str_contains cond in
     if has ''escape'' \<or> has ''setns'' \<or> has ''unshare'' \<or> has ''mount'' \<or> has ''docker.sock'' then CatEscape
     else if has ''network'' \<or> has ''connect'' \<or> has ''outbound'' \<or> has ''listen'' then CatNetwork
     else if has ''file'' \<or> has ''open'' \<or> has ''sensitive'' \<or> has ''drift'' then CatFile
     else if has ''privilege'' \<or> has ''setuid'' \<or> has ''chmod'' \<or> has ''capset'' then CatPrivilege
     else if has ''credential'' \<or> has ''shadow'' \<or> has ''metadata'' then CatCredential
     else 0)"

type_synonym macro_order = "nat \<Rightarrow> (string \<times> string) list \<Rightarrow> (string \<times> string) list"

text \<open>\<open>the\<close> is safe: \<open>compiled_never_panics\<close> shows that the compiler always returns. \<open>parse_dur\<close> is
  \<open>time.ParseDuration\<close> (0 on an error, which the code ignores).\<close>

definition compileRule :: "macro_order \<Rightarrow> (string \<Rightarrow> duration) \<Rightarrow> engine \<Rightarrow> rule_def \<Rightarrow> (string \<times> string) list \<Rightarrow>
    string + compiled_rule" where
  "compileRule ord parse_dur e def macros =
    (let types = inferEventTypes (rd_Condition def);
         category = (if 0 \<in> set types then 0 else inferCategory (rd_Condition def))
     in case the (compileCondition (eg_lists e) (\<lambda>k. ord k macros) (rd_Condition def)) of
          Inl err \<Rightarrow> Inl (''rule '' @ rd_Name def @ '': condition compilation failed: '' @ err)
        | Inr cond \<Rightarrow> Inr
            \<lparr>cr_ID = rd_ID def, cr_Name = rd_Name def, cr_Description = rd_Desc def,
             cr_Priority = rd_Priority def, cr_Action = rd_Action def, cr_Output = rd_Output def,
             cr_Tags = rd_Tags def, cr_Category = category, cr_EventTypes = types, cr_Condition = cond,
             cr_Correlate = map_option (\<lambda>c. \<lparr>cs_Window = parse_dur (cd_Window c), cs_Signals = cd_Signals c,
               cs_Logic = cd_Logic c, cs_GroupBy = cd_GroupBy c\<rparr>) (rd_Correlate def),
             cr_Exceptions = map (\<lambda>x. \<lparr>xc_Name = xd_Name x, xc_Fields = xd_Fields x,
               xc_Comps = xd_Comps x, xc_Values = xd_Values x\<rparr>) (rd_Exceptions def)\<rparr>)"

section \<open>Loading\<close>

fun add_to_buckets :: "compiled_rule \<Rightarrow> u8 list \<Rightarrow> (u8 \<Rightarrow> compiled_rule list) \<Rightarrow> u8 \<Rightarrow> compiled_rule list" where
  "add_to_buckets rule [] b = b"
| "add_to_buckets rule (t # ts) b = add_to_buckets rule ts (b(t := b t @ [rule]))"

definition addCompiledRule :: "compiled_rule \<Rightarrow> engine \<Rightarrow> engine" where
  "addCompiledRule rule e =
    (let e1 = e\<lparr>eg_rules := AList.update (cr_ID rule) rule (eg_rules e),
                eg_buckets := add_to_buckets rule (cr_EventTypes rule) (eg_buckets e),
                eg_ruleCount := eg_ruleCount e + 1\<rparr>
     in if cr_Action rule = ActionEnforce then e1\<lparr>eg_enforceCount := eg_enforceCount e1 + 1\<rparr>
        else if cr_Action rule = ActionAlert then e1\<lparr>eg_alertCount := eg_alertCount e1 + 1\<rparr>
        else e1)"

fun compile_rules :: "macro_order \<Rightarrow> (string \<Rightarrow> duration) \<Rightarrow> (string \<times> string) list \<Rightarrow> rule_def list \<Rightarrow> engine \<Rightarrow> engine" where
  "compile_rules ord pd macros [] e = e"
| "compile_rules ord pd macros (rd # rds) e =
     (case compileRule ord pd e rd macros of
        Inl err \<Rightarrow> compile_rules ord pd macros rds e
      | Inr compiled \<Rightarrow> compile_rules ord pd macros rds (addCompiledRule compiled e))"

text \<open>The loader's state: the engine and the macro map that accumulates over documents. The error of
  \<open>ParseYAML\<close> leaves both unchanged (it has no other effect on a decoded document, by
  \<open>files_drop_exceptions\<close>).\<close>

definition loadYAML :: "macro_order \<Rightarrow> (string \<Rightarrow> duration) \<Rightarrow> (string \<Rightarrow> string + string) \<Rightarrow> yaml_decoded \<Rightarrow>
    engine \<times> (string \<times> string) list \<Rightarrow> (engine \<times> (string \<times> string) list) \<times> string option" where
  "loadYAML ord pd nw src st =
    (case ParseYAML nw src of
       Inl err \<Rightarrow> (st, Some err)
     | Inr (ruleDefs, macroDefs, listDefs) \<Rightarrow>
        (let e1 = (fst st)\<lparr>eg_lists := fold (\<lambda>l m. m(ld_Name l \<mapsto> ld_Items l)) listDefs (eg_lists (fst st))\<rparr>;
             macros = fold (\<lambda>m al. AList.update (md_Name m) (md_Condition m) al) macroDefs (snd st)
         in ((compile_rules ord pd macros ruleDefs e1, macros), None)))"

record dir_entry =
  de_Name :: string
  de_IsDir :: bool
  de_Data :: "string + yaml_decoded"

datatype rule_path =
  PathError string
| PathDir "string + dir_entry list"
| PathFile "string + yaml_decoded"

fun load_entries :: "(yaml_decoded \<Rightarrow> 's \<Rightarrow> 's \<times> string option) \<Rightarrow> dir_entry list \<Rightarrow> 's \<Rightarrow> 's \<times> string option" where
  "load_entries load [] st = (st, None)"
| "load_entries load (ent # ents) st =
     (if de_IsDir ent then load_entries load ents st
      else if \<not> has_suffix (de_Name ent) ''.yaml'' \<and> \<not> has_suffix (de_Name ent) ''.yml'' then load_entries load ents st
      else (case de_Data ent of
              Inl err \<Rightarrow> (st, Some err)
            | Inr data \<Rightarrow>
               (case load data st of
                  (st', Some err) \<Rightarrow> (st', Some (de_Name ent @ '': '' @ err))
                | (st', None) \<Rightarrow> load_entries load ents st')))"

fun loadRulePath :: "(yaml_decoded \<Rightarrow> 's \<Rightarrow> 's \<times> string option) \<Rightarrow> rule_path \<Rightarrow> 's \<Rightarrow> 's \<times> string option" where
  "loadRulePath load (PathError err) st = (st, Some err)"
| "loadRulePath load (PathDir (Inl err)) st = (st, Some err)"
| "loadRulePath load (PathDir (Inr entries)) st = load_entries load entries st"
| "loadRulePath load (PathFile (Inl err)) st = (st, Some err)"
| "loadRulePath load (PathFile (Inr data)) st = load data st"

text \<open>A configured path that fails is logged and skipped; the built-in catalog must load.\<close>

definition loadRules :: "(yaml_decoded \<Rightarrow> engine \<times> (string \<times> string) list \<Rightarrow> (engine \<times> (string \<times> string) list) \<times> string option) \<Rightarrow>
    yaml_decoded \<Rightarrow> rule_path list \<Rightarrow> engine \<Rightarrow> engine \<times> string option" where
  "loadRules load catalog paths e =
    (case load catalog (e, []) of
       (st, Some err) \<Rightarrow> (fst st, Some (''failed to load default rules: '' @ err))
     | (st, None) \<Rightarrow> (fst (fold (\<lambda>p st. fst (loadRulePath load p st)) paths st), None))"

definition NewEngine :: "(yaml_decoded \<Rightarrow> engine \<times> (string \<times> string) list \<Rightarrow> (engine \<times> (string \<times> string) list) \<times> string option) \<Rightarrow>
    yaml_decoded \<Rightarrow> rule_path list \<Rightarrow> string + engine" where
  "NewEngine load catalog paths =
    (case loadRules load catalog paths (loadDefaultLists empty_engine) of
       (e, Some err) \<Rightarrow> Inl (''failed to load rules: '' @ err)
     | (e, None) \<Rightarrow> Inr e)"

definition Reload :: "(yaml_decoded \<Rightarrow> engine \<times> (string \<times> string) list \<Rightarrow> (engine \<times> (string \<times> string) list) \<times> string option) \<Rightarrow>
    yaml_decoded \<Rightarrow> rule_path list \<Rightarrow> engine \<Rightarrow> engine \<times> string option" where
  "Reload load catalog paths e =
     loadRules load catalog paths
       (e\<lparr>eg_buckets := (\<lambda>_. []), eg_rules := [], eg_ruleCount := 0, eg_enforceCount := 0, eg_alertCount := 0\<rparr>)"

section \<open>Accessors and validation\<close>

definition AllRules :: "engine \<Rightarrow> compiled_rule list" where
  "AllRules e = map snd (eg_rules e)"

definition CorrelationRules :: "engine \<Rightarrow> compiled_rule list" where
  "CorrelationRules e = filter (\<lambda>r. cr_Correlate r \<noteq> None) (map snd (eg_rules e))"

record validation_result =
  vr_Rules :: nat
  vr_Macros :: nat
  vr_Lists :: nat
  vr_Errors :: "string list"

definition ValidateYAML :: "macro_order \<Rightarrow> (string \<Rightarrow> duration) \<Rightarrow> (string \<Rightarrow> string + string) \<Rightarrow> yaml_decoded \<Rightarrow> validation_result" where
  "ValidateYAML ord pd nw data =
    (case ParseYAML nw data of
       Inl err \<Rightarrow> \<lparr>vr_Rules = 0, vr_Macros = 0, vr_Lists = 0, vr_Errors = [err]\<rparr>
     | Inr (ruleDefs, macroDefs, listDefs) \<Rightarrow>
        (let e0 = loadDefaultLists empty_engine;
             macros = fold (\<lambda>m al. AList.update (md_Name m) (md_Condition m) al) macroDefs [];
             e1 = e0\<lparr>eg_lists := fold (\<lambda>l m. m(ld_Name l \<mapsto> ld_Items l)) listDefs (eg_lists e0)\<rparr>
         in \<lparr>vr_Rules = length ruleDefs, vr_Macros = length macroDefs, vr_Lists = length listDefs,
             vr_Errors = List.map_filter (\<lambda>rd. case compileRule ord pd e1 rd macros of
                Inl err \<Rightarrow> Some (''rule '' @ [CHR 0x22] @ rd_Name rd @ [CHR 0x22] @ '': '' @ err) | Inr _ \<Rightarrow> None) ruleDefs\<rparr>))"

end
