(* ===== verification/Catalog.thy ===== *)
theory Catalog
  imports Engine
begin

text \<open>
  \<open>pkg/rules/catalog.go\<close>: the built-in catalog, as the YAML library decodes the document: seven
  lists, ten macros and thirty rules, each an association list from the keys of its map. Folded
  scalars are written with the line breaks YAML keeps (before more-indented lines and at the end);
  bytes outside printable ASCII are written as \<open>CHR\<close>.
\<close>

definition cat_list_shell_binaries :: yaml_map where
  "cat_list_shell_binaries = [(''list'', YStr ''shell_binaries''),
     (''items'', YSeq [YStr ''bash'', YStr ''sh'', YStr ''zsh'', YStr ''dash'', YStr ''ksh'', YStr ''tcsh'', YStr ''fish'', YStr ''csh''])]"

definition cat_list_miner_binaries :: yaml_map where
  "cat_list_miner_binaries = [(''list'', YStr ''miner_binaries''),
     (''items'', YSeq [YStr ''xmrig'', YStr ''ccminer'', YStr ''t-rex'', YStr ''nanominer'', YStr ''pwnrig'', YStr ''minerd'', YStr ''xmr-stak'', YStr ''cpuminer'', YStr ''cgminer'', YStr ''bfgminer''])]"

definition cat_list_miner_pool_ports :: yaml_map where
  "cat_list_miner_pool_ports = [(''list'', YStr ''miner_pool_ports''),
     (''items'', YSeq [YStr ''25'', YStr ''3333'', YStr ''3334'', YStr ''3335'', YStr ''3336'', YStr ''3357'', YStr ''4444'', YStr ''5555'', YStr ''5556'', YStr ''5588'', YStr ''5730'', YStr ''6099'', YStr ''6666'', YStr ''7777'', YStr ''7778'', YStr ''8333'', YStr ''8888'', YStr ''8899'', YStr ''9332'', YStr ''9999'', YStr ''14433'', YStr ''14444'', YStr ''45560'', YStr ''45700''])]"

definition cat_list_miner_domains :: yaml_map where
  "cat_list_miner_domains = [(''list'', YStr ''miner_domains''),
     (''items'', YSeq [YStr ''asia1.ethpool.org'', YStr ''ca.minexmr.com'', YStr ''cn.stratum.slushpool.com'', YStr ''de.minexmr.com'', YStr ''eth-ar.dwarfpool.com'', YStr ''fr.minexmr.com'', YStr ''mine.moneropool.com'', YStr ''pool.minexmr.com'', YStr ''xmr.crypto-pool.fr''])]"

definition cat_list_sensitive_paths :: yaml_map where
  "cat_list_sensitive_paths = [(''list'', YStr ''sensitive_paths''),
     (''items'', YSeq [YStr ''/etc/shadow'', YStr ''/etc/passwd'', YStr ''/etc/sudoers'', YStr ''/root/.ssh'', YStr ''/var/run/docker.sock'', YStr ''/proc/1/ns'', YStr ''/proc/1/environ'', YStr ''/proc/1/maps'', YStr ''/proc/kallsyms'', YStr ''/proc/self/exe'', YStr ''/var/run/secrets/kubernetes.io/''])]"

definition cat_list_c2_ports :: yaml_map where
  "cat_list_c2_ports = [(''list'', YStr ''c2_ports''),
     (''items'', YSeq [YStr ''4444'', YStr ''1337'', YStr ''31337'', YStr ''6666'', YStr ''8080'', YStr ''9001'', YStr ''1234'', YStr ''4443''])]"

definition cat_list_cloud_metadata_ips :: yaml_map where
  "cat_list_cloud_metadata_ips = [(''list'', YStr ''cloud_metadata_ips''),
     (''items'', YSeq [YStr ''169.254.169.254'', YStr ''168.63.129.16''])]"

definition cat_macro_container :: yaml_map where
  "cat_macro_container = [(''macro'', YStr ''container''),
     (''condition'', YStr ''container.id != host'')]"

definition cat_macro_spawned_process :: yaml_map where
  "cat_macro_spawned_process = [(''macro'', YStr ''spawned_process''),
     (''condition'', YStr ''evt.type in (execve, execveat)'')]"

definition cat_macro_shell_procs :: yaml_map where
  "cat_macro_shell_procs = [(''macro'', YStr ''shell_procs''),
     (''condition'', YStr ''proc.name in (shell_binaries)'')]"

definition cat_macro_miner_procs :: yaml_map where
  "cat_macro_miner_procs = [(''macro'', YStr ''miner_procs''),
     (''condition'', YStr ''proc.name in (miner_binaries)'')]"

definition cat_macro_open_write :: yaml_map where
  "cat_macro_open_write = [(''macro'', YStr ''open_write''),
     (''condition'', YStr ''evt.type in (open, openat, openat2, creat) and (evt.arg.flags contains O_WRONLY or evt.arg.flags contains O_RDWR)'')]"

definition cat_macro_net_outbound :: yaml_map where
  "cat_macro_net_outbound = [(''macro'', YStr ''net_outbound''),
     (''condition'', YStr ''evt.type in (connect, sendto, sendmsg) and evt.dir = <'')]"

definition cat_macro_minerpool_connection :: yaml_map where
  "cat_macro_minerpool_connection = [(''macro'', YStr ''minerpool_connection''),
     (''condition'', YStr ''(evt.type = connect and ((fd.rport in (miner_pool_ports)) or (fd.rip.name in (miner_domains))))'')]"

definition cat_macro_setns_call :: yaml_map where
  "cat_macro_setns_call = [(''macro'', YStr ''setns_call''),
     (''condition'', YStr ''evt.type = setns'')]"

definition cat_macro_sensitive_file_read :: yaml_map where
  "cat_macro_sensitive_file_read = [(''macro'', YStr ''sensitive_file_read''),
     (''condition'', YStr ''evt.type in (open, openat, openat2) and fd.name pmatch (/etc/shadow, /etc/passwd, /etc/sudoers, /root/.ssh, /var/run/docker.sock, /proc/1, /proc/kallsyms, /proc/self/exe, /proc/self/fd, /var/run/secrets/kubernetes.io/)'')]"

definition cat_macro_cloud_metadata_access :: yaml_map where
  "cat_macro_cloud_metadata_access = [(''macro'', YStr ''cloud_metadata_access''),
     (''condition'', YStr ''evt.type = connect and fd.rip in (cloud_metadata_ips)'')]"

definition cat_rule_R001 :: yaml_map where
  "cat_rule_R001 = [(''rule'', YStr ''Container Escape via Namespace Join''),
     (''id'', YStr ''R001''),
     (''desc'', YStr (''Detect container process attempting to enter host namespace via setns() '' @ [CHR 0xE2, CHR 0x80, CHR 0x94] @ '' common in nsenter-based escape attacks (S03).'' @ [CHR 0x0A])),
     (''condition'', YStr ''setns_call and container''),
     (''output'', YStr (''Container escape attempt via setns (user=%user.name process=%proc.name pid=%proc.pid'' @ [CHR 0x0A] @ '' ns_type=%evt.arg.nstype container=%container.name'' @ [CHR 0x0A] @ '' image=%container.image.repository)'' @ [CHR 0x0A])),
     (''priority'', YStr ''CRITICAL''),
     (''tags'', YSeq [YStr ''escape'', YStr ''mitre_t1548'']),
     (''action'', YStr ''enforce'')]"

definition cat_rule_R002 :: yaml_map where
  "cat_rule_R002 = [(''rule'', YStr ''Container Escape via Namespace Create''),
     (''id'', YStr ''R002''),
     (''desc'', YStr (''Detect unshare() call from container creating new user namespace, commonly used in CVE-2022-0492 escape (S02).'' @ [CHR 0x0A])),
     (''condition'', YStr ''evt.type = unshare and container''),
     (''output'', YStr (''Container escape attempt via unshare (process=%proc.name pid=%proc.pid container=%container.name)'' @ [CHR 0x0A])),
     (''priority'', YStr ''CRITICAL''),
     (''tags'', YSeq [YStr ''escape'', YStr ''mitre_t1548'']),
     (''action'', YStr ''alert'')]"

definition cat_rule_R003 :: yaml_map where
  "cat_rule_R003 = [(''rule'', YStr ''Cgroup Filesystem Mount from Container''),
     (''id'', YStr ''R003''),
     (''desc'', YStr (''Detect mount() of cgroup filesystem from container, used in cgroup release_agent escape (S01) and CVE-2022-0492 (S02).'' @ [CHR 0x0A])),
     (''condition'', YStr ''evt.type = mount and container''),
     (''output'', YStr (''Cgroup mount from container (process=%proc.name pid=%proc.pid flags=%evt.arg.nstype container=%container.name)'' @ [CHR 0x0A])),
     (''priority'', YStr ''CRITICAL''),
     (''tags'', YSeq [YStr ''escape'', YStr ''mitre_t1548'']),
     (''action'', YStr ''enforce'')]"

definition cat_rule_R004 :: yaml_map where
  "cat_rule_R004 = [(''rule'', YStr ''Docker Socket Access from Container''),
     (''id'', YStr ''R004''),
     (''desc'', YStr (''Detect container process accessing /var/run/docker.sock, which allows spawning privileged containers (S04).'' @ [CHR 0x0A])),
     (''condition'', YStr ''sensitive_file_read and container and fd.name pmatch (/var/run/docker.sock)''),
     (''output'', YStr (''Docker socket accessed from container (file=%fd.name process=%proc.name pid=%proc.pid container=%container.name)'' @ [CHR 0x0A])),
     (''priority'', YStr ''CRITICAL''),
     (''tags'', YSeq [YStr ''escape'', YStr ''mitre_t1611'']),
     (''action'', YStr ''enforce'')]"

definition cat_rule_R005 :: yaml_map where
  "cat_rule_R005 = [(''rule'', YStr ''Host Procfs Access from Container''),
     (''id'', YStr ''R005''),
     (''desc'', YStr (''Detect container accessing /proc/1/ paths '' @ [CHR 0xE2, CHR 0x80, CHR 0x94] @ '' host process info, namespace escapes, memory disclosure (S05, S07, S12).'' @ [CHR 0x0A])),
     (''condition'', YStr ''sensitive_file_read and container and fd.name pmatch (/proc/1, /proc/self/exe, /proc/self/fd)''),
     (''output'', YStr (''Host procfs accessed from container (file=%fd.name process=%proc.name pid=%proc.pid container=%container.name)'' @ [CHR 0x0A])),
     (''priority'', YStr ''CRITICAL''),
     (''tags'', YSeq [YStr ''escape'', YStr ''mitre_t1611'']),
     (''action'', YStr ''alert'')]"

definition cat_rule_R006 :: yaml_map where
  "cat_rule_R006 = [(''rule'', YStr ''Kernel Module Load from Container''),
     (''id'', YStr ''R006''),
     (''desc'', YStr (''Detect init_module() call from container '' @ [CHR 0xE2, CHR 0x80, CHR 0x94] @ '' loading kernel modules is a privilege escalation and persistence vector.'' @ [CHR 0x0A])),
     (''condition'', YStr ''evt.type = init_module and container''),
     (''output'', YStr (''Kernel module load attempted from container (process=%proc.name pid=%proc.pid uid=%user.name container=%container.name)'' @ [CHR 0x0A])),
     (''priority'', YStr ''CRITICAL''),
     (''tags'', YSeq [YStr ''escape'', YStr ''mitre_t1547'']),
     (''action'', YStr ''enforce'')]"

definition cat_rule_R007 :: yaml_map where
  "cat_rule_R007 = [(''rule'', YStr ''eBPF Program Loaded from Container''),
     (''id'', YStr ''R007''),
     (''desc'', YStr (''Detect bpf() syscall from container '' @ [CHR 0xE2, CHR 0x80, CHR 0x94] @ '' per USENIX Security 2023, eBPF tracing can break container isolation (cross-container attack).'' @ [CHR 0x0A])),
     (''condition'', YStr ''evt.type = bpf and container''),
     (''output'', YStr (''eBPF program loaded from container (process=%proc.name pid=%proc.pid uid=%user.name container=%container.name)'' @ [CHR 0x0A])),
     (''priority'', YStr ''CRITICAL''),
     (''tags'', YSeq [YStr ''escape'', YStr ''mitre_t1547'']),
     (''action'', YStr ''enforce'')]"

definition cat_rule_R008 :: yaml_map where
  "cat_rule_R008 = [(''rule'', YStr ''Cryptojacking - Known Miner Binary''),
     (''id'', YStr ''R008''),
     (''desc'', YStr (''Detect execution of known cryptominer binaries inside containers. Direct binary name match (easily evaded by renaming).'' @ [CHR 0x0A])),
     (''condition'', YStr ''spawned_process and container and miner_procs''),
     (''output'', YStr (''Known cryptominer binary executed in container (process=%proc.name cmdline=%proc.cmdline pid=%proc.pid'' @ [CHR 0x0A] @ '' container=%container.name image=%container.image.repository)'' @ [CHR 0x0A])),
     (''priority'', YStr ''CRITICAL''),
     (''tags'', YSeq [YStr ''cryptojacking'', YStr ''mitre_t1059'']),
     (''action'', YStr ''enforce'')]"

definition cat_rule_R009 :: yaml_map where
  "cat_rule_R009 = [(''rule'', YStr ''Cryptojacking - Mining Pool Connection''),
     (''id'', YStr ''R009''),
     (''desc'', YStr (''Detect outbound connections to known cryptocurrency mining pools from containers. Based on known pool ports and domains.'' @ [CHR 0x0A])),
     (''condition'', YStr ''net_outbound and container and minerpool_connection''),
     (''output'', YStr (''Outbound connection to known mining pool (dest=%fd.rip port=%fd.rport process=%proc.name'' @ [CHR 0x0A] @ '' cmdline=%proc.cmdline container=%container.name)'' @ [CHR 0x0A])),
     (''priority'', YStr ''CRITICAL''),
     (''tags'', YSeq [YStr ''cryptojacking'', YStr ''mitre_t1071'']),
     (''action'', YStr ''alert'')]"

definition cat_rule_R010 :: yaml_map where
  "cat_rule_R010 = [(''rule'', YStr ''Cryptojacking - Stratum Protocol in Command Line''),
     (''id'', YStr ''R010''),
     (''desc'', YStr (''Detect Stratum mining protocol specification in process command line. stratum+tcp is the standard mining pool protocol.'' @ [CHR 0x0A])),
     (''condition'', YStr (''spawned_process and container and (proc.cmdline contains stratum+tcp or'' @ [CHR 0x0A] @ '' proc.cmdline contains stratum2+tcp or'' @ [CHR 0x0A] @ '' proc.cmdline contains stratum+ssl or'' @ [CHR 0x0A] @ '' proc.cmdline contains stratum2+ssl)'' @ [CHR 0x0A])),
     (''output'', YStr (''Possible miner using Stratum protocol (process=%proc.name cmdline=%proc.cmdline pid=%proc.pid'' @ [CHR 0x0A] @ '' container=%container.name)'' @ [CHR 0x0A])),
     (''priority'', YStr ''CRITICAL''),
     (''tags'', YSeq [YStr ''cryptojacking'', YStr ''mitre_t1059'']),
     (''action'', YStr ''enforce'')]"

definition cat_rule_R011 :: yaml_map where
  "cat_rule_R011 = [(''rule'', YStr ''Cryptojacking - Behavioral CPU and Network''),
     (''id'', YStr ''R011''),
     (''desc'', YStr (''Detect behavioral indicators of cryptojacking: sustained high CPU combined with outbound network to unknown destinations. Phase 3: will be enhanced with AI behavioral profiling.'' @ [CHR 0x0A])),
     (''condition'', YStr ''net_outbound and container''),
     (''output'', YStr (''Potential cryptojacking behavioral indicator (dest=%fd.rip port=%fd.rport process=%proc.name'' @ [CHR 0x0A] @ '' container=%container.name)'' @ [CHR 0x0A])),
     (''priority'', YStr ''WARNING''),
     (''tags'', YSeq [YStr ''cryptojacking'', YStr ''mitre_t1059'']),
     (''action'', YStr ''alert'')]"

definition cat_rule_R012 :: yaml_map where
  "cat_rule_R012 = [(''rule'', YStr ''Cryptojacking - SUID Before Mining''),
     (''id'', YStr ''R012''),
     (''desc'', YStr (''Detect SUID/SGID bit being set before potential mining activity, indicating persistence setup for a miner.'' @ [CHR 0x0A])),
     (''condition'', YStr ''evt.type in (chmod, fchmodat) and container and evt.arg.mode contains S_ISUID''),
     (''output'', YStr (''SUID bit set (possible mining persistence) (process=%proc.name pid=%proc.pid container=%container.name)'' @ [CHR 0x0A])),
     (''priority'', YStr ''NOTICE''),
     (''tags'', YSeq [YStr ''cryptojacking'', YStr ''mitre_t1548'']),
     (''action'', YStr ''alert'')]"

definition cat_rule_R013 :: yaml_map where
  "cat_rule_R013 = [(''rule'', YStr ''Cryptojacking - Container Drift Mining''),
     (''id'', YStr ''R013''),
     (''desc'', YStr (''Detect new executable created at runtime in container, indicating potential miner/malware installation (container drift).'' @ [CHR 0x0A])),
     (''condition'', YStr ''spawned_process and container''),
     (''output'', YStr (''Container drift - new executable executed (process=%proc.name exe=%proc.exe pid=%proc.pid'' @ [CHR 0x0A] @ '' container=%container.name image=%container.image.repository)'' @ [CHR 0x0A])),
     (''priority'', YStr ''ERROR''),
     (''tags'', YSeq [YStr ''cryptojacking'', YStr ''drift'', YStr ''mitre_t1548'']),
     (''action'', YStr ''alert'')]"

definition cat_rule_R014 :: yaml_map where
  "cat_rule_R014 = [(''rule'', YStr ''Reverse Shell - Shell with Outbound Network''),
     (''id'', YStr ''R014''),
     (''desc'', YStr (''Detect shell process making outbound network connection, a classic reverse shell indicator. Correlates shell spawn with network connect within 5-second window.'' @ [CHR 0x0A])),
     (''condition'', YStr ''net_outbound and container and shell_procs and fd.rport not in (80, 443)''),
     (''output'', YStr (''Potential reverse shell - shell process with outbound network (shell=%proc.name dest=%fd.rip:%fd.rport pid=%proc.pid'' @ [CHR 0x0A] @ '' container=%container.name cmdline=%proc.cmdline)'' @ [CHR 0x0A])),
     (''priority'', YStr ''CRITICAL''),
     (''tags'', YSeq [YStr ''reverse_shell'', YStr ''mitre_t1059'']),
     (''action'', YStr ''enforce'')]"

definition cat_rule_R015 :: yaml_map where
  "cat_rule_R015 = [(''rule'', YStr ''Reverse Shell - dup2 Socket Redirect''),
     (''id'', YStr ''R015''),
     (''desc'', YStr (''Detect dup2/dup3 redirecting stdin/stdout/stderr to a socket, the classic reverse shell syscall pattern.'' @ [CHR 0x0A])),
     (''condition'', YStr ''evt.type in (dup2, dup3) and container and fd.type = socket and fd.fd in (0, 1, 2)''),
     (''output'', YStr (''dup2 redirecting stdio to socket (reverse shell pattern) (process=%proc.name pid=%proc.pid container=%container.name)'' @ [CHR 0x0A])),
     (''priority'', YStr ''CRITICAL''),
     (''tags'', YSeq [YStr ''reverse_shell'', YStr ''mitre_t1059'']),
     (''action'', YStr ''enforce'')]"

definition cat_rule_R016 :: yaml_map where
  "cat_rule_R016 = [(''rule'', YStr ''Reverse Shell - Shell on Non-Standard Port''),
     (''id'', YStr ''R016''),
     (''desc'', YStr (''Detect shell process connecting to known C2 ports.'' @ [CHR 0x0A])),
     (''condition'', YStr ''net_outbound and container and shell_procs and fd.rport in (c2_ports)''),
     (''output'', YStr (''Shell connecting to C2 port (shell=%proc.name dest=%fd.rip:%fd.rport pid=%proc.pid container=%container.name)'' @ [CHR 0x0A])),
     (''priority'', YStr ''CRITICAL''),
     (''tags'', YSeq [YStr ''reverse_shell'', YStr ''mitre_t1071'']),
     (''action'', YStr ''enforce'')]"

definition cat_rule_R017 :: yaml_map where
  "cat_rule_R017 = [(''rule'', YStr ''Reverse Shell - Pipe-based Shell''),
     (''id'', YStr ''R017''),
     (''desc'', YStr (''Detect pipe-based reverse shell patterns like bash -i >& /dev/tcp/... in command line.'' @ [CHR 0x0A])),
     (''condition'', YStr (''spawned_process and container and (proc.cmdline contains /dev/tcp or'' @ [CHR 0x0A] @ '' proc.cmdline contains /dev/udp or'' @ [CHR 0x0A] @ '' proc.cmdline contains >&)'' @ [CHR 0x0A])),
     (''output'', YStr (''Possible pipe-based reverse shell (process=%proc.name cmdline=%proc.cmdline pid=%proc.pid container=%container.name)'' @ [CHR 0x0A])),
     (''priority'', YStr ''WARNING''),
     (''tags'', YSeq [YStr ''reverse_shell'', YStr ''mitre_t1059'']),
     (''action'', YStr ''alert'')]"

definition cat_rule_R018 :: yaml_map where
  "cat_rule_R018 = [(''rule'', YStr ''Sensitive File Access from Container''),
     (''id'', YStr ''R018''),
     (''desc'', YStr (''Detect container process accessing sensitive host files such as /etc/shadow, SSH keys, or Docker socket.'' @ [CHR 0x0A])),
     (''condition'', YStr ''sensitive_file_read and container''),
     (''output'', YStr (''Container accessing sensitive file (file=%fd.name process=%proc.name pid=%proc.pid'' @ [CHR 0x0A] @ '' user=%user.name container=%container.name)'' @ [CHR 0x0A])),
     (''priority'', YStr ''CRITICAL''),
     (''tags'', YSeq [YStr ''credential_access'', YStr ''mitre_t1552'']),
     (''action'', YStr ''alert'')]"

definition cat_rule_R019 :: yaml_map where
  "cat_rule_R019 = [(''rule'', YStr ''Cloud Metadata Service Access from Container''),
     (''id'', YStr ''R019''),
     (''desc'', YStr (''Detect container process connecting to cloud metadata service (AWS/GCP/Azure 169.254.169.254) '' @ [CHR 0xE2, CHR 0x80, CHR 0x94] @ '' Capital One breach pattern.'' @ [CHR 0x0A])),
     (''condition'', YStr ''cloud_metadata_access and container''),
     (''output'', YStr (''Container accessing cloud metadata service (dest=%fd.rip process=%proc.name pid=%proc.pid'' @ [CHR 0x0A] @ '' container=%container.name image=%container.image.repository)'' @ [CHR 0x0A])),
     (''priority'', YStr ''CRITICAL''),
     (''tags'', YSeq [YStr ''ssrf'', YStr ''credential_access'', YStr ''mitre_t1552'']),
     (''action'', YStr ''enforce'')]"

definition cat_rule_R020 :: yaml_map where
  "cat_rule_R020 = [(''rule'', YStr ''Kubernetes SA Token Access from Container''),
     (''id'', YStr ''R020''),
     (''desc'', YStr (''Detect container accessing Kubernetes service account token at /var/run/secrets/kubernetes.io/.'' @ [CHR 0x0A])),
     (''condition'', YStr ''sensitive_file_read and container and fd.name pmatch (/var/run/secrets/kubernetes.io/)''),
     (''output'', YStr (''K8s SA token accessed from container (file=%fd.name process=%proc.name pid=%proc.pid container=%container.name)'' @ [CHR 0x0A])),
     (''priority'', YStr ''CRITICAL''),
     (''tags'', YSeq [YStr ''credential_access'', YStr ''mitre_t1552'']),
     (''action'', YStr ''alert'')]"

definition cat_rule_R021 :: yaml_map where
  "cat_rule_R021 = [(''rule'', YStr ''SetUID Transition in Container''),
     (''id'', YStr ''R021''),
     (''desc'', YStr (''Detect setuid() call from container '' @ [CHR 0xE2, CHR 0x80, CHR 0x94] @ '' UID transitions (non-root to root) indicate privilege escalation attempts.'' @ [CHR 0x0A])),
     (''condition'', YStr ''evt.type = setuid and container''),
     (''output'', YStr (''SetUID transition in container (process=%proc.name pid=%proc.pid container=%container.name)'' @ [CHR 0x0A])),
     (''priority'', YStr ''NOTICE''),
     (''tags'', YSeq [YStr ''privilege_escalation'', YStr ''mitre_t1548'']),
     (''action'', YStr ''alert'')]"

definition cat_rule_R022 :: yaml_map where
  "cat_rule_R022 = [(''rule'', YStr ''SUID or SGID Bit Set in Container''),
     (''id'', YStr ''R022''),
     (''desc'', YStr (''Detect chmod setting SUID or SGID bit from within a container, a persistence and privilege escalation technique.'' @ [CHR 0x0A])),
     (''condition'', YStr ''evt.type in (chmod, fchmodat) and container and (evt.arg.mode contains S_ISUID or evt.arg.mode contains S_ISGID)''),
     (''output'', YStr (''SUID/SGID bit set in container (process=%proc.name pid=%proc.pid container=%container.name)'' @ [CHR 0x0A])),
     (''priority'', YStr ''NOTICE''),
     (''tags'', YSeq [YStr ''privilege_escalation'', YStr ''mitre_t1548'']),
     (''action'', YStr ''alert'')]"

definition cat_rule_R023 :: yaml_map where
  "cat_rule_R023 = [(''rule'', YStr ''Capability Set Change in Container''),
     (''id'', YStr ''R023''),
     (''desc'', YStr (''Detect capset() call from container '' @ [CHR 0xE2, CHR 0x80, CHR 0x94] @ '' changing capability sets indicates privilege escalation or capability expansion.'' @ [CHR 0x0A])),
     (''condition'', YStr ''evt.type = capset and container''),
     (''output'', YStr (''Capability set changed in container (process=%proc.name pid=%proc.pid uid=%user.name container=%container.name)'' @ [CHR 0x0A])),
     (''priority'', YStr ''WARNING''),
     (''tags'', YSeq [YStr ''privilege_escalation'', YStr ''mitre_t1548'']),
     (''action'', YStr ''alert'')]"

definition cat_rule_R024 :: yaml_map where
  "cat_rule_R024 = [(''rule'', YStr ''Container Drift - New Executable Created''),
     (''id'', YStr ''R024''),
     (''desc'', YStr (''Detect new executable written to container filesystem at runtime, indicating potential miner/malware installation.'' @ [CHR 0x0A])),
     (''condition'', YStr ''open_write and container and evt.is_open_exec''),
     (''output'', YStr (''Container drift - new executable created (file=%fd.name process=%proc.name pid=%proc.pid'' @ [CHR 0x0A] @ '' container=%container.name image=%container.image.repository)'' @ [CHR 0x0A])),
     (''priority'', YStr ''ERROR''),
     (''tags'', YSeq [YStr ''drift'', YStr ''persistence'', YStr ''mitre_t1548'']),
     (''action'', YStr ''alert'')]"

definition cat_rule_R025 :: yaml_map where
  "cat_rule_R025 = [(''rule'', YStr ''Execution from /tmp in Container''),
     (''id'', YStr ''R025''),
     (''desc'', YStr (''Detect process execution from /tmp directory inside container, common post-exploitation tactic.'' @ [CHR 0x0A])),
     (''condition'', YStr (''spawned_process and container and (proc.exe startswith /tmp/ or'' @ [CHR 0x0A] @ '' (proc.cwd startswith /tmp/ and proc.exe startswith ./))'' @ [CHR 0x0A])),
     (''output'', YStr (''Process executed from /tmp in container (process=%proc.name exe=%proc.exe pid=%proc.pid'' @ [CHR 0x0A] @ '' container=%container.name)'' @ [CHR 0x0A])),
     (''priority'', YStr ''WARNING''),
     (''tags'', YSeq [YStr ''execution'', YStr ''mitre_t1059'']),
     (''action'', YStr ''alert'')]"

definition cat_rule_R026 :: yaml_map where
  "cat_rule_R026 = [(''rule'', YStr ''Rogue Listener in Container''),
     (''id'', YStr ''R026''),
     (''desc'', YStr (''Detect listen() call from container '' @ [CHR 0xE2, CHR 0x80, CHR 0x94] @ '' unexpected listening ports may indicate backdoors or C2 listeners.'' @ [CHR 0x0A])),
     (''condition'', YStr ''evt.type = listen and container''),
     (''output'', YStr (''Rogue listener in container (process=%proc.name pid=%proc.pid container=%container.name)'' @ [CHR 0x0A])),
     (''priority'', YStr ''WARNING''),
     (''tags'', YSeq [YStr ''network'', YStr ''mitre_t1571'']),
     (''action'', YStr ''alert'')]"

definition cat_rule_R027 :: yaml_map where
  "cat_rule_R027 = [(''rule'', YStr ''C2 Port Connection from Container''),
     (''id'', YStr ''R027''),
     (''desc'', YStr (''Detect outbound connection to known C2 ports from container.'' @ [CHR 0x0A])),
     (''condition'', YStr ''net_outbound and container and fd.rport in (c2_ports)''),
     (''output'', YStr (''Connection to known C2 port (dest=%fd.rip:%fd.rport process=%proc.name'' @ [CHR 0x0A] @ '' container=%container.name)'' @ [CHR 0x0A])),
     (''priority'', YStr ''CRITICAL''),
     (''tags'', YSeq [YStr ''network'', YStr ''mitre_t1071'']),
     (''action'', YStr ''alert'')]"

definition cat_rule_R028 :: yaml_map where
  "cat_rule_R028 = [(''rule'', YStr ''Raw Socket Creation in Container''),
     (''id'', YStr ''R028''),
     (''desc'', YStr (''Detect raw socket creation from container '' @ [CHR 0xE2, CHR 0x80, CHR 0x94] @ '' used for packet sniffing, spoofing, and network attacks.'' @ [CHR 0x0A])),
     (''condition'', YStr ''spawned_process and container''),
     (''output'', YStr (''Raw socket creation in container (process=%proc.name pid=%proc.pid container=%container.name)'' @ [CHR 0x0A])),
     (''priority'', YStr ''WARNING''),
     (''tags'', YSeq [YStr ''network'', YStr ''mitre_t1571'']),
     (''action'', YStr ''alert'')]"

definition cat_rule_R029 :: yaml_map where
  "cat_rule_R029 = [(''rule'', YStr ''Process Ptrace from Container''),
     (''id'', YStr ''R029''),
     (''desc'', YStr (''Detect ptrace() call from container '' @ [CHR 0xE2, CHR 0x80, CHR 0x94] @ '' process injection, debugging, and memory manipulation (T1055).'' @ [CHR 0x0A])),
     (''condition'', YStr ''evt.type = ptrace and container''),
     (''output'', YStr (''Ptrace from container (process=%proc.name pid=%proc.pid container=%container.name)'' @ [CHR 0x0A])),
     (''priority'', YStr ''CRITICAL''),
     (''tags'', YSeq [YStr ''ptrace'', YStr ''mitre_t1055'']),
     (''action'', YStr ''enforce'')]"

definition cat_rule_R030 :: yaml_map where
  "cat_rule_R030 = [(''rule'', YStr ''Dirty Pipe Pattern via splice''),
     (''id'', YStr ''R030''),
     (''desc'', YStr (''Detect splice() syscall with suspicious offset/fd combinations consistent with CVE-2022-0847 (Dirty Pipe) exploitation.'' @ [CHR 0x0A])),
     (''condition'', YStr ''spawned_process and container''),
     (''output'', YStr (''Possible Dirty Pipe exploitation (splice pattern) (process=%proc.name pid=%proc.pid container=%container.name)'' @ [CHR 0x0A])),
     (''priority'', YStr ''CRITICAL''),
     (''tags'', YSeq [YStr ''cve'', YStr ''mitre_t1068'']),
     (''action'', YStr ''alert'')]"

section \<open>The document\<close>

definition catalog_lists :: "yaml_map list" where
  "catalog_lists = [cat_list_shell_binaries,
     cat_list_miner_binaries,
     cat_list_miner_pool_ports,
     cat_list_miner_domains,
     cat_list_sensitive_paths,
     cat_list_c2_ports,
     cat_list_cloud_metadata_ips]"

definition catalog_macros :: "yaml_map list" where
  "catalog_macros = [cat_macro_container,
     cat_macro_spawned_process,
     cat_macro_shell_procs,
     cat_macro_miner_procs,
     cat_macro_open_write,
     cat_macro_net_outbound,
     cat_macro_minerpool_connection,
     cat_macro_setns_call,
     cat_macro_sensitive_file_read,
     cat_macro_cloud_metadata_access]"

definition catalog_rules :: "yaml_map list" where
  "catalog_rules = [cat_rule_R001,
     cat_rule_R002,
     cat_rule_R003,
     cat_rule_R004,
     cat_rule_R005,
     cat_rule_R006,
     cat_rule_R007,
     cat_rule_R008,
     cat_rule_R009,
     cat_rule_R010,
     cat_rule_R011,
     cat_rule_R012,
     cat_rule_R013,
     cat_rule_R014,
     cat_rule_R015,
     cat_rule_R016,
     cat_rule_R017,
     cat_rule_R018,
     cat_rule_R019,
     cat_rule_R020,
     cat_rule_R021,
     cat_rule_R022,
     cat_rule_R023,
     cat_rule_R024,
     cat_rule_R025,
     cat_rule_R026,
     cat_rule_R027,
     cat_rule_R028,
     cat_rule_R029,
     cat_rule_R030]"

definition DefaultRuleCatalog :: yaml_decoded where
  "DefaultRuleCatalog = \<lparr>yd_array = Some (catalog_lists @ catalog_macros @ catalog_rules), yd_items = None\<rparr>"

end
