(* ===== verification/Engine_Facts.thy ===== *)
theory Engine_Facts
  imports Engine
begin

text \<open>
  The rule engine: evaluation returns a most severe applying candidate, the buckets and counters
  follow the rules that were added, and what an exception means.
\<close>

section \<open>Evaluation\<close>

definition applies :: "compiled_rule \<Rightarrow> enriched_for_rule \<Rightarrow> bool" where
  "applies r event \<longleftrightarrow> (cr_Category r = 0 \<or> cr_Category r = Category (er_Event event)) \<and>
     cr_Condition r event = Some True \<and> \<not> matchException r event"

definition rule_severity :: "compiled_rule \<Rightarrow> int" where
  "rule_severity r = severity (cr_Priority r) (cr_Action r)"

definition total_rule :: "compiled_rule \<Rightarrow> bool" where
  "total_rule r \<longleftrightarrow> (\<forall>event. cr_Condition r event \<noteq> None)"

text \<open>\<open>m\<close> is the first most severe of the applying rules \<open>rs\<close>.\<close>

definition best_of :: "format_order \<Rightarrow> enriched_for_rule \<Rightarrow> compiled_rule list \<Rightarrow> rule_match option \<Rightarrow> bool" where
  "best_of fo event rs m \<longleftrightarrow>
     (case m of
        None \<Rightarrow> \<forall>r\<in>set rs. \<not> applies r event
      | Some x \<Rightarrow> \<exists>as r bs. rs = as @ r # bs \<and> applies r event \<and> x = make_match fo r event \<and>
          (\<forall>r'\<in>set as. applies r' event \<longrightarrow> rule_severity r' < rule_severity r) \<and>
          (\<forall>r'\<in>set bs. applies r' event \<longrightarrow> rule_severity r' \<le> rule_severity r))"

lemma more_severe_make:
  "IsMoreSevere (make_match fo r event) (make_match fo r' event) \<longleftrightarrow> rule_severity r' < rule_severity r"
  by (simp add: IsMoreSevere_severity make_match_def rule_severity_def)

lemma eval_loop_snoc:
  "eval_loop fo event best (rs @ [r]) = do {
     b \<leftarrow> eval_loop fo event best rs;
     eval_loop fo event b [r]
   }"
  by (induction fo event best rs rule: eval_loop.induct) (auto simp: Let_def split: Option.bind_split)

lemma best_of_Nil [simp]: "best_of fo event [] None"
  by (simp add: best_of_def)

lemma best_of_skip: "best_of fo event rs m \<Longrightarrow> \<not> applies r event \<Longrightarrow> best_of fo event (rs @ [r]) m"
  by (cases m) (auto simp: best_of_def, metis append.assoc append_Cons in_set_conv_decomp Un_iff set_append set_ConsD empty_iff empty_set)

lemma best_of_first:
  "best_of fo event rs None \<Longrightarrow> applies r event \<Longrightarrow> best_of fo event (rs @ [r]) (Some (make_match fo r event))"
  unfolding best_of_def option.case
  by (intro exI[of _ rs] exI[of _ r] exI[of _ "[]"]) auto

lemma best_of_keep:
  assumes "best_of fo event rs (Some x)" "applies r event" "\<not> IsMoreSevere (make_match fo r event) x"
  shows "best_of fo event (rs @ [r]) (Some x)"
proof -
  obtain as r0 bs where 1: "rs = as @ r0 # bs" "applies r0 event" "x = make_match fo r0 event"
    "\<forall>r'\<in>set as. applies r' event \<longrightarrow> rule_severity r' < rule_severity r0"
    "\<forall>r'\<in>set bs. applies r' event \<longrightarrow> rule_severity r' \<le> rule_severity r0"
    using assms(1) by (auto simp: best_of_def)
  with assms(3) have "rule_severity r \<le> rule_severity r0" by (simp add: more_severe_make)
  with 1 show ?thesis
    unfolding best_of_def option.case
    by (intro exI[of _ as] exI[of _ r0] exI[of _ "bs @ [r]"]) auto
qed

lemma best_of_replace:
  assumes "best_of fo event rs (Some x)" "applies r event" "IsMoreSevere (make_match fo r event) x"
  shows "best_of fo event (rs @ [r]) (Some (make_match fo r event))"
proof -
  obtain as r0 bs where 1: "rs = as @ r0 # bs" "x = make_match fo r0 event"
    "\<forall>r'\<in>set as. applies r' event \<longrightarrow> rule_severity r' < rule_severity r0"
    "\<forall>r'\<in>set bs. applies r' event \<longrightarrow> rule_severity r' \<le> rule_severity r0"
    using assms(1) by (auto simp: best_of_def)
  with assms(3) have "rule_severity r0 < rule_severity r" by (simp add: more_severe_make)
  with 1 assms(2) show ?thesis
    unfolding best_of_def option.case
    by (intro exI[of _ rs] exI[of _ r] exI[of _ "[]"]) fastforce
qed

lemma eval_loop_best:
  "\<forall>r\<in>set rs. cr_Condition r event \<noteq> None \<Longrightarrow>
     \<exists>m. eval_loop fo event None rs = Some m \<and> best_of fo event rs m"
proof (induction rs rule: rev_induct)
  case (snoc r rs)
  then obtain m where m: "eval_loop fo event None rs = Some m" "best_of fo event rs m" by auto
  obtain b where b: "cr_Condition r event = Some b" using snoc.prems by auto
  show ?case
  proof (cases "applies r event")
    case False
    then have "eval_loop fo event m [r] = Some m" using b by (auto simp: applies_def)
    with m best_of_skip[OF m(2) False] show ?thesis by (simp add: eval_loop_snoc)
  next
    case True
    then have e: "eval_loop fo event m [r] = Some (case m of None \<Rightarrow> Some (make_match fo r event)
        | Some old \<Rightarrow> if IsMoreSevere (make_match fo r event) old then Some (make_match fo r event) else m)"
      using b by (auto simp: applies_def Let_def)
    show ?thesis
      using m e True best_of_first[of fo event rs r] best_of_keep[of fo event rs _ r] best_of_replace[of fo event rs _ r]
      by (cases m) (auto simp: eval_loop_snoc)
  qed
qed simp

section \<open>Candidates\<close>

lemma add_unseen_spec:
  assumes "add_unseen cs seen rs = (cs', seen')" "seen = cr_ID ` set cs"
  shows "seen' = cr_ID ` set cs' \<and> set cs \<subseteq> set cs' \<and> set cs' \<subseteq> set cs \<union> set rs \<and>
    cr_ID ` set rs \<subseteq> cr_ID ` set cs' \<and> (distinct (map cr_ID cs) \<longrightarrow> distinct (map cr_ID cs'))"
  using assms
proof (induction cs seen rs rule: add_unseen.induct)
  case (2 cs seen r rs)
  show ?case
  proof (cases "cr_ID r \<in> seen")
    case True
    with 2(2)[OF _ _ 2(4)] 2(3,4) show ?thesis by auto
  next
    case False
    with 2(3) have a: "add_unseen (cs @ [r]) (insert (cr_ID r) seen) rs = (cs', seen')" by simp
    from 2(1)[OF False a] 2(4) False show ?thesis by auto
  qed
qed simp

lemma candidates_spec:
  "set (eg_buckets e (EventType raw)) \<subseteq> set (candidates e raw)"
  "set (candidates e raw) \<subseteq> set (eg_buckets e (EventType raw)) \<union> set (eg_buckets e (Category raw)) \<union> set (eg_buckets e 0)"
  "cr_ID ` (set (eg_buckets e (EventType raw)) \<union> set (eg_buckets e (Category raw)) \<union> set (eg_buckets e 0))
     \<subseteq> cr_ID ` set (candidates e raw)"
  "distinct (map cr_ID (eg_buckets e (EventType raw))) \<Longrightarrow> distinct (map cr_ID (candidates e raw))"
proof -
  define c0 where "c0 = eg_buckets e (EventType raw)"
  obtain c1 s1 where 1: "add_unseen c0 (set (map cr_ID c0)) (eg_buckets e (Category raw)) = (c1, s1)" by force
  obtain c2 s2 where 2: "add_unseen c1 s1 (eg_buckets e 0) = (c2, s2)" by force
  have c: "candidates e raw = c2" using 1 2 by (simp add: candidates_def c0_def Let_def)
  note a = add_unseen_spec[OF 1]
  then have s1: "s1 = cr_ID ` set c1" by simp
  note b = add_unseen_spec[OF 2 s1]
  have m: "cr_ID ` set c0 \<subseteq> cr_ID ` set c1" "cr_ID ` set c1 \<subseteq> cr_ID ` set c2"
    using a b by (auto intro: image_mono)
  show "set (eg_buckets e (EventType raw)) \<subseteq> set (candidates e raw)"
    using a b c by (auto simp: c0_def)
  show "set (candidates e raw) \<subseteq> set (eg_buckets e (EventType raw)) \<union> set (eg_buckets e (Category raw)) \<union> set (eg_buckets e 0)"
    using a b c by (auto simp: c0_def)
  show "cr_ID ` (set (eg_buckets e (EventType raw)) \<union> set (eg_buckets e (Category raw)) \<union> set (eg_buckets e 0))
     \<subseteq> cr_ID ` set (candidates e raw)"
  proof -
    have "cr_ID ` set (eg_buckets e (Category raw)) \<subseteq> cr_ID ` set c1"
      "cr_ID ` set (eg_buckets e 0) \<subseteq> cr_ID ` set c2"
      using a b by simp_all
    with m show ?thesis unfolding image_Un c c0_def[symmetric] by (meson Un_least subset_trans)
  qed
  show "distinct (map cr_ID (eg_buckets e (EventType raw))) \<Longrightarrow> distinct (map cr_ID (candidates e raw))"
    using a b c unfolding c0_def by auto
qed

text \<open>C5: Evaluation returns the first most severe applying candidate. When the candidates' closures
  are total, \<open>Evaluate\<close> returns; it yields no match exactly when no candidate passes the category
  filter, its condition and its exceptions, and otherwise the match of a candidate such that no
  earlier one is as severe and no later one is more severe (priority first, then \<open>enforce\<close>).\<close>

theorem Evaluate_best:
  assumes "\<forall>r\<in>set (candidates e (er_Event event)). total_rule r"
  shows "\<exists>m. Evaluate fo e event = Some (e\<lparr>eg_evalCount := eg_evalCount e + 1\<rparr>, m) \<and>
    best_of fo event (candidates e (er_Event event)) m"
proof -
  have c: "candidates (e\<lparr>eg_evalCount := n\<rparr>) raw = candidates e raw" for n raw
    by (simp add: candidates_def)
  have "\<forall>r\<in>set (candidates e (er_Event event)). cr_Condition r event \<noteq> None"
    using assms by (simp add: total_rule_def)
  from eval_loop_best[OF this, of fo] show ?thesis
    by (auto simp: Evaluate_def c)
qed

text \<open>A rule for the witnesses: it matches executions, unless the process is \<open>bash\<close>.\<close>

definition demo_rule :: "string \<Rightarrow> string \<Rightarrow> compiled_rule" where
  "demo_rule i prio =
    \<lparr>cr_ID = i, cr_Name = i, cr_Description = [], cr_Priority = prio, cr_Action = ActionAlert,
     cr_Output = ''pid %proc.pid'', cr_Tags = [], cr_Category = 0, cr_EventTypes = [EvtExec],
     cr_Condition = (\<lambda>event. Some (EventType (er_Event event) = EvtExec)), cr_Correlate = None,
     cr_Exceptions = [\<lparr>xc_Name = ''shells'', xc_Fields = [''proc.name''], xc_Comps = [], xc_Values = [[''bash'']]\<rparr>]\<rparr>"

definition demo_event :: enriched_for_rule where
  "demo_event =
    \<lparr>er_Event = zero_event\<lparr>EventType := EvtExec, Category := CatProcess\<rparr>, er_ContainerID = ''c1'',
     er_ContainerName = ''web'', er_ContainerImage = ''nginx'', er_ContainerAttributed = True,
     er_PodName = [], er_Namespace = [], er_ServiceAccount = [], er_PodLabels = Map.empty,
     er_Privileged = False, er_NodeName = []\<rparr>"

lemma demo_event_simps [simp]:
  "EventType (er_Event demo_event) = EvtExec" "Category (er_Event demo_event) = CatProcess"
  "er_ContainerID demo_event = ''c1''" "er_ContainerAttributed demo_event"
  "er_ContainerImage demo_event = ''nginx''"
  by (simp_all add: demo_event_def)

theorem Evaluate_best_witness:
  "\<exists>m. Evaluate id (addCompiledRule (demo_rule ''A'' ''WARNING'')
          (addCompiledRule (demo_rule ''B'' ''CRITICAL'') empty_engine)) demo_event =
       Some ((addCompiledRule (demo_rule ''A'' ''WARNING'')
          (addCompiledRule (demo_rule ''B'' ''CRITICAL'') empty_engine))\<lparr>eg_evalCount := 1\<rparr>, m) \<and>
     best_of id demo_event [demo_rule ''B'' ''CRITICAL'', demo_rule ''A'' ''WARNING''] m"
proof -
  define e where "e = addCompiledRule (demo_rule ''A'' ''WARNING'')
          (addCompiledRule (demo_rule ''B'' ''CRITICAL'') empty_engine)"
  have b: "eg_buckets e EvtExec = [demo_rule ''B'' ''CRITICAL'', demo_rule ''A'' ''WARNING'']"
    and b2: "eg_buckets e CatProcess = [demo_rule ''B'' ''CRITICAL'', demo_rule ''A'' ''WARNING'']"
    and b3: "eg_buckets e 0 = []"
    and n: "eg_evalCount e = 0"
    by (simp_all add: e_def addCompiledRule_def demo_rule_def empty_engine_def ActionAlert_def
        ActionEnforce_def EvtExec_def CatProcess_def)
  then have c: "candidates e (er_Event demo_event) = [demo_rule ''B'' ''CRITICAL'', demo_rule ''A'' ''WARNING'']"
    by (simp add: candidates_def)
  have "\<forall>r\<in>set (candidates e (er_Event demo_event)). total_rule r"
    unfolding c by (simp add: total_rule_def demo_rule_def)
  from Evaluate_best[OF this, of id] show ?thesis unfolding c n e_def[symmetric] by simp
qed

section \<open>Buckets and counters\<close>

lemma add_to_buckets_spec:
  "add_to_buckets r ts b t = b t @ replicate (count_list ts t) r"
  by (induction r ts b arbitrary: t rule: add_to_buckets.induct) (auto simp: replicate_append_same)

lemma addCompiledRule_simps [simp]:
  "eg_buckets (addCompiledRule r e) t = eg_buckets e t @ replicate (count_list (cr_EventTypes r) t) r"
  "eg_rules (addCompiledRule r e) = AList.update (cr_ID r) r (eg_rules e)"
  "eg_lists (addCompiledRule r e) = eg_lists e"
  "eg_ruleCount (addCompiledRule r e) = eg_ruleCount e + 1"
  "eg_evalCount (addCompiledRule r e) = eg_evalCount e"
  by (simp_all add: addCompiledRule_def Let_def add_to_buckets_spec)

lemma addCompiledRule_counts:
  "eg_enforceCount (addCompiledRule r e) = eg_enforceCount e + (if cr_Action r = ActionEnforce then 1 else 0)"
  "eg_alertCount (addCompiledRule r e) = eg_alertCount e + (if cr_Action r = ActionAlert then 1 else 0)"
  by (simp_all add: addCompiledRule_def Let_def action_defs)

text \<open>What holds of the lookup structures as long as no identifier is added twice.\<close>

definition engine_inv :: "engine \<Rightarrow> bool" where
  "engine_inv e \<longleftrightarrow>
     distinct (map fst (eg_rules e)) \<and> (\<forall>(k, r)\<in>set (eg_rules e). k = cr_ID r) \<and>
     eg_ruleCount e = int (length (eg_rules e)) \<and>
     eg_enforceCount e = int (length (filter (\<lambda>r. cr_Action r = ActionEnforce) (AllRules e))) \<and>
     eg_alertCount e = int (length (filter (\<lambda>r. cr_Action r = ActionAlert) (AllRules e))) \<and>
     (\<forall>t. set (eg_buckets e t) = {r \<in> set (AllRules e). t \<in> set (cr_EventTypes r)}) \<and>
     ((\<forall>r\<in>set (AllRules e). distinct (cr_EventTypes r)) \<longrightarrow> (\<forall>t. distinct (map cr_ID (eg_buckets e t))))"

lemma engine_inv_init [inv_intro]: "engine_inv empty_engine"
  by (simp add: engine_inv_def empty_engine_def AllRules_def)

lemma engine_inv_lists [inv_intro]: "engine_inv e \<Longrightarrow> engine_inv (e\<lparr>eg_lists := l\<rparr>)"
  by (simp add: engine_inv_def AllRules_def)

lemma count_list_distinct: "distinct ts \<Longrightarrow> count_list ts t \<le> 1"
  by (induction ts) (auto simp: count_list_0_iff)

lemma engine_inv_add [inv_intro]:
  assumes "engine_inv e" "cr_ID r \<notin> fst ` set (eg_rules e)"
  shows "engine_inv (addCompiledRule r e)"
proof -
  have rules: "eg_rules (addCompiledRule r e) = eg_rules e @ [(cr_ID r, r)]"
    using assms(2) by (simp add: update_fresh)
  have all: "AllRules (addCompiledRule r e) = AllRules e @ [r]"
    unfolding AllRules_def rules by simp
  have bucket: "set (eg_buckets (addCompiledRule r e) t) =
      {q \<in> set (AllRules e @ [r]). t \<in> set (cr_EventTypes q)}" for t
    using assms(1) by (auto simp: engine_inv_def count_list_0_iff)
  have "distinct (map cr_ID (eg_buckets (addCompiledRule r e) t))"
    if "\<forall>q\<in>set (AllRules e @ [r]). distinct (cr_EventTypes q)" for t
  proof -
    have "cr_ID r \<notin> cr_ID ` set (eg_buckets e t)"
    proof
      assume "cr_ID r \<in> cr_ID ` set (eg_buckets e t)"
      moreover have "set (eg_buckets e t) \<subseteq> set (AllRules e)"
        using assms(1) by (simp add: engine_inv_def)
      ultimately obtain q where "q \<in> set (AllRules e)" "cr_ID q = cr_ID r" by force
      then obtain k where k: "(k, q) \<in> set (eg_rules e)" by (auto simp: AllRules_def)
      then have "k = cr_ID q" using assms(1) unfolding engine_inv_def by blast
      with k \<open>cr_ID q = cr_ID r\<close> assms(2) show False by force
    qed
    moreover have "count_list (cr_EventTypes r) t = 0 \<or> count_list (cr_EventTypes r) t = 1"
      using that count_list_distinct[of "cr_EventTypes r" t] by auto
    moreover have "distinct (map cr_ID (eg_buckets e t))"
      using assms(1) that unfolding engine_inv_def by simp
    ultimately show ?thesis by (elim disjE) simp_all
  qed
  with assms show ?thesis
    unfolding engine_inv_def all rules bucket
    by (auto simp: engine_inv_def addCompiledRule_counts)
qed

text \<open>C20: Adding rules keeps the lookup structures consistent as long as every identifier is new:
  the buckets hold exactly the rules of the rule map under each of their event types, the three
  counters count the map's rules, and no bucket holds two rules with one identifier.\<close>

theorem engine_consistent:
  "distinct (map cr_ID rs) \<Longrightarrow> engine_inv (fold addCompiledRule rs empty_engine)"
proof -
  have "engine_inv e \<Longrightarrow> distinct (map cr_ID rs) \<Longrightarrow> set (map cr_ID rs) \<inter> fst ` set (eg_rules e) = {} \<Longrightarrow>
    engine_inv (fold addCompiledRule rs e)" for e
  proof (induction rs arbitrary: e)
    case (Cons r rs)
    have "engine_inv (fold addCompiledRule rs (addCompiledRule r e))"
      using Cons.prems by (intro Cons.IH engine_inv_add) (auto simp: update_fresh)
    then show ?case by simp
  qed simp
  then show "distinct (map cr_ID rs) \<Longrightarrow> engine_inv (fold addCompiledRule rs empty_engine)"
    using engine_inv_init by (simp add: empty_engine_def)
qed

theorem engine_consistent_witness:
  "engine_inv (fold addCompiledRule [demo_rule ''A'' ''WARNING'', demo_rule ''B'' ''CRITICAL''] empty_engine)"
  by (rule engine_consistent) (simp add: demo_rule_def)

text \<open>Replacing a rule does not replace it. Adding a second rule under an identifier that is
  taken updates the rule map, but the first rule stays in the buckets of its event types, so it is
  still evaluated, and it is counted again.\<close>

theorem override_keeps_old_rule:
  assumes "cr_ID r2 = cr_ID r1" "t \<in> set (cr_EventTypes r1)"
  shows "map_of (eg_rules (addCompiledRule r2 (addCompiledRule r1 e))) (cr_ID r1) = Some r2 \<and>
    r1 \<in> set (eg_buckets (addCompiledRule r2 (addCompiledRule r1 e)) t) \<and>
    eg_ruleCount (addCompiledRule r2 (addCompiledRule r1 e)) = eg_ruleCount e + 2"
  using assms by (auto simp: update_conv count_list_0_iff)

theorem override_keeps_old_rule_witness:
  "demo_rule ''A'' ''CRITICAL'' \<in> set (eg_buckets (addCompiledRule (demo_rule ''A'' ''DEBUG'')
     (addCompiledRule (demo_rule ''A'' ''CRITICAL'') empty_engine)) EvtExec)"
  using override_keeps_old_rule[of "demo_rule ''A'' ''DEBUG''" "demo_rule ''A'' ''CRITICAL''" EvtExec empty_engine]
  by (simp add: demo_rule_def)

end
