(* ===== verification/Catalog_Meaning.thy ===== *)
theory Catalog_Meaning
  imports Engine_Facts
begin

text \<open>
  What each rule of the built-in catalog detects. For every rule the condition text is expanded,
  parsed and compiled by the model (the kernel evaluates the parser on the text, for every order in
  which the macros may be visited), and the closure is shown to compute a readable predicate on the
  event: \<open>catalog_spec\<close>.
\<close>

section \<open>The vocabulary of the catalog\<close>

definition ck :: "string \<Rightarrow> string \<Rightarrow> string list \<Rightarrow> cond_expr" where
  "ck f op vs = CLeaf \<lparr>cc_Field = f, cc_Op = op, cc_Values = vs\<rparr>"

definition in_container :: "enriched_for_rule \<Rightarrow> bool" where
  "in_container ev \<longleftrightarrow> er_ContainerAttributed ev \<and> er_ContainerID ev \<noteq> []"

definition evt :: "u8 \<Rightarrow> enriched_for_rule \<Rightarrow> bool" where
  "evt t ev \<longleftrightarrow> EventType (er_Event ev) = t"

definition path_under :: "string list \<Rightarrow> enriched_for_rule \<Rightarrow> bool" where
  "path_under ps ev \<longleftrightarrow> list_ex (has_prefix (FilePath (er_Event ev))) ps"

definition comm_in :: "string list \<Rightarrow> enriched_for_rule \<Rightarrow> bool" where
  "comm_in names ev \<longleftrightarrow> to_lower (CommString (er_Event ev)) \<in> set names"

definition cmd_has :: "string list \<Rightarrow> enriched_for_rule \<Rightarrow> bool" where
  "cmd_has ss ev \<longleftrightarrow> list_ex (str_contains (to_lower (Args (er_Event ev)))) ss"

definition port_in :: "u16 list \<Rightarrow> enriched_for_rule \<Rightarrow> bool" where
  "port_in ports ev \<longleftrightarrow> RemotePort (er_Event ev) \<in> set ports"

definition mode_has :: "u32 \<Rightarrow> enriched_for_rule \<Rightarrow> bool" where
  "mode_has b ev \<longleftrightarrow> vp_ModeFlags (PayPrivilege (er_Event ev)) AND b \<noteq> 0"

definition flags_have :: "u32 \<Rightarrow> enriched_for_rule \<Rightarrow> bool" where
  "flags_have b ev \<longleftrightarrow> fp_Flags (PayFile (er_Event ev)) AND b \<noteq> 0"

definition catalog_sensitive :: "string list" where
  "catalog_sensitive = [''/etc/shadow'', ''/etc/passwd'', ''/etc/sudoers'', ''/root/.ssh'',
     ''/var/run/docker.sock'', ''/proc/1'', ''/proc/kallsyms'', ''/proc/self/exe'', ''/proc/self/fd'',
     ''/var/run/secrets/kubernetes.io/'']"

definition catalog_spec :: "(string \<times> (enriched_for_rule \<Rightarrow> bool)) list" where
  "catalog_spec =
    [
(''R001'', \<lambda>ev. evt EvtSetns ev \<and> in_container ev),
     (''R002'', \<lambda>ev. evt EvtUnshare ev \<and> in_container ev),
     (''R003'', \<lambda>ev. evt EvtMount ev \<and> in_container ev),
     (''R004'', \<lambda>ev. evt EvtFileOpen ev \<and> in_container ev \<and> path_under [''/var/run/docker.sock''] ev),
     (''R005'', \<lambda>ev. evt EvtFileOpen ev \<and> in_container ev \<and> path_under [''/proc/1'', ''/proc/self/exe'', ''/proc/self/fd''] ev),
     (''R006'', \<lambda>ev. evt EvtModuleLoad ev \<and> in_container ev),
     (''R007'', \<lambda>ev. evt EvtBpfLoad ev \<and> in_container ev),
     (''R008'', \<lambda>ev. evt EvtExec ev \<and> in_container ev \<and> comm_in [''xmrig'', ''ccminer'', ''t-rex'', ''nanominer'', ''pwnrig'', ''minerd'', ''xmr-stak'', ''cpuminer'', ''cgminer'', ''bfgminer''] ev),
     (''R009'', \<lambda>ev. evt EvtNetConnect ev \<and> in_container ev \<and> port_in MinerPoolPorts ev),
     (''R010'', \<lambda>ev. evt EvtExec ev \<and> in_container ev \<and> cmd_has [''stratum+tcp'', ''stratum2+tcp'', ''stratum+ssl'', ''stratum2+ssl''] ev),
     (''R011'', \<lambda>ev. evt EvtNetConnect ev \<and> in_container ev),
     (''R012'', \<lambda>ev. evt EvtChmod ev \<and> in_container ev \<and> mode_has 2048 ev),
     (''R013'', \<lambda>ev. evt EvtExec ev \<and> in_container ev),
     (''R014'', \<lambda>ev. evt EvtNetConnect ev \<and> in_container ev \<and> comm_in ShellBinaries ev \<and> \<not> port_in [80, 443] ev),
     (''R015'', \<lambda>ev. False),
     (''R016'', \<lambda>ev. evt EvtNetConnect ev \<and> in_container ev \<and> comm_in ShellBinaries ev \<and> port_in C2Ports ev),
     (''R017'', \<lambda>ev. evt EvtExec ev \<and> in_container ev \<and> cmd_has [''/dev/tcp'', ''/dev/udp'', ''>&''] ev),
     (''R018'', \<lambda>ev. evt EvtFileOpen ev \<and> in_container ev \<and> path_under catalog_sensitive ev),
     (''R019'', \<lambda>ev. evt EvtNetConnect ev \<and> in_container ev \<and> IsCloudMetadataIP (RemoteIP (er_Event ev))),
     (''R020'', \<lambda>ev. evt EvtFileOpen ev \<and> in_container ev \<and> path_under [''/var/run/secrets/kubernetes.io/''] ev),
     (''R021'', \<lambda>ev. evt EvtSetuid ev \<and> in_container ev),
     (''R022'', \<lambda>ev. evt EvtChmod ev \<and> in_container ev \<and> (mode_has 2048 ev \<or> mode_has 1024 ev)),
     (''R023'', \<lambda>ev. evt EvtCapset ev \<and> in_container ev),
     (''R024'', \<lambda>ev. evt EvtFileOpen ev \<and> in_container ev \<and> Category (er_Event ev) = CatFile \<and> flags_have 1 ev),
     (''R025'', \<lambda>ev. evt EvtExec ev \<and> in_container ev \<and> has_prefix (Filename (er_Event ev)) ''/tmp/''),
     (''R026'', \<lambda>ev. evt EvtNetListen ev \<and> in_container ev),
     (''R027'', \<lambda>ev. evt EvtNetConnect ev \<and> in_container ev \<and> port_in C2Ports ev),
     (''R028'', \<lambda>ev. evt EvtExec ev \<and> in_container ev),
     (''R029'', \<lambda>ev. evt EvtPtrace ev \<and> in_container ev),
     (''R030'', \<lambda>ev. evt EvtExec ev \<and> in_container ev)]"


section \<open>Leaves\<close>

lemma holds_container [simp]: "holds (ck ''container'' op vs) ev \<longleftrightarrow> in_container ev"
  by (simp add: ck_def compileSingleCheck_def is_container_event_def in_container_def)

lemma holds_type_eq [simp]:
  "holds (ck ''evt.type'' ''='' [v]) ev \<longleftrightarrow> syscallToEventType v \<noteq> 0 \<and> evt (syscallToEventType v) ev"
  by (simp add: ck_def compileSingleCheck_def compileEventTypeCheck_def evt_def Let_def)

lemma holds_type_in [simp]:
  "holds (ck ''evt.type'' ''in'' vs) ev \<longleftrightarrow> list_ex (\<lambda>v. syscallToEventType v \<noteq> 0 \<and> evt (syscallToEventType v) ev) vs"
  by (auto simp: ck_def compileSingleCheck_def compileEventTypeCheck_def evt_def Let_def list_ex_iff
      filter_empty_conv)

lemma holds_dir [simp]: "holds (ck ''evt.dir'' ''='' [''<'']) ev"
  by (simp add: ck_def compileSingleCheck_def macro_fields_def Let_def)

lemma holds_path [simp]: "holds (ck ''fd.name'' ''pmatch'' vs) ev \<longleftrightarrow> path_under vs ev"
  by (simp add: ck_def compileSingleCheck_def compileFieldCheck_def macro_fields_def path_under_def Let_def)

lemma holds_comm [simp]: "holds (ck ''proc.name'' ''in'' vs) ev \<longleftrightarrow> comm_in (map to_lower vs) ev"
  by (simp add: ck_def compileSingleCheck_def compileFieldCheck_def macro_fields_def comm_in_def
      in_value_set_def Let_def)

lemma holds_cmd [simp]: "holds (ck ''proc.cmdline'' op vs) ev \<longleftrightarrow> cmd_has (map to_lower vs) ev"
  by (simp add: ck_def compileSingleCheck_def compileFieldCheck_def macro_fields_def cmd_has_def
      list_ex_iff Let_def)

lemma holds_port_in [simp]:
  "holds (ck ''fd.rport'' ''in'' vs) ev \<longleftrightarrow> show_word (RemotePort (er_Event ev)) \<in> set (map to_lower vs)"
  by (simp add: ck_def compileSingleCheck_def compileFieldCheck_def macro_fields_def in_value_set_def Let_def)

lemma holds_port_not_in [simp]:
  "holds (ck ''fd.rport'' ''not_in'' vs) ev \<longleftrightarrow> show_word (RemotePort (er_Event ev)) \<notin> set (map to_lower vs)"
  by (simp add: ck_def compileSingleCheck_def compileFieldCheck_def macro_fields_def in_value_set_def Let_def)

lemma holds_rip [simp]:
  "holds (ck ''fd.rip'' ''in'' vs) ev \<longleftrightarrow> RemoteIP (er_Event ev) \<in> set (map to_lower vs)"
  "holds (ck ''fd.rip.name'' ''in'' vs) ev \<longleftrightarrow> RemoteIP (er_Event ev) \<in> set (map to_lower vs)"
  by (simp_all add: ck_def compileSingleCheck_def compileFieldCheck_def macro_fields_def in_value_set_def Let_def)

lemma holds_exe [simp]:
  "holds (ck ''proc.exe'' ''startswith'' [v]) ev \<longleftrightarrow> has_prefix (Filename (er_Event ev)) v"
  "holds (ck ''proc.cwd'' ''startswith'' [v]) ev \<longleftrightarrow> has_prefix (Filename (er_Event ev)) v"
  by (simp_all add: ck_def compileSingleCheck_def compileFieldCheck_def macro_fields_def with_first_def Let_def)

lemma holds_fd_fd [simp]: "\<not> holds (ck ''fd.fd'' op vs) ev"
  by (simp add: ck_def compileSingleCheck_def macro_fields_def Let_def)

lemma holds_mode [simp]:
  "holds (ck ''evt.arg.mode'' op [''s_isuid'']) ev \<longleftrightarrow> mode_has 2048 ev"
  "holds (ck ''evt.arg.mode'' op [''s_isgid'']) ev \<longleftrightarrow> mode_has 1024 ev"
  by (simp_all add: ck_def compileSingleCheck_def compileFieldCheck_def macro_fields_def mode_has_def Let_def
      to_lower_def lower_char_def has_prefix_def)

lemma holds_flags [simp]:
  "holds (ck ''evt.arg.flags'' op [''o_wronly'']) ev \<longleftrightarrow> flags_have 1 ev"
  "holds (ck ''evt.arg.flags'' op [''o_rdwr'']) ev \<longleftrightarrow> flags_have 2 ev"
  by (simp_all add: ck_def compileSingleCheck_def compileFieldCheck_def macro_fields_def flags_have_def Let_def
      to_lower_def lower_char_def)

lemma holds_open_exec [simp]:
  "holds (ck ''evt.is_open_exec'' op vs) ev \<longleftrightarrow> Category (er_Event ev) = CatFile \<and> flags_have 1 ev"
  by (simp add: ck_def compileSingleCheck_def macro_fields_def flags_have_def Let_def)

lemma syscall_types [simp]:
  "syscallToEventType ''setns'' = EvtSetns" "syscallToEventType ''unshare'' = EvtUnshare"
  "syscallToEventType ''mount'' = EvtMount" "syscallToEventType ''open'' = EvtFileOpen"
  "syscallToEventType ''openat'' = EvtFileOpen" "syscallToEventType ''openat2'' = EvtFileOpen"
  "syscallToEventType ''creat'' = EvtFileOpen" "syscallToEventType ''init_module'' = EvtModuleLoad"
  "syscallToEventType ''bpf'' = EvtBpfLoad" "syscallToEventType ''execve'' = EvtExec"
  "syscallToEventType ''execveat'' = EvtExec" "syscallToEventType ''connect'' = EvtNetConnect"
  "syscallToEventType ''sendto'' = EvtNetConnect" "syscallToEventType ''sendmsg'' = EvtNetConnect"
  "syscallToEventType ''chmod'' = EvtChmod" "syscallToEventType ''fchmodat'' = EvtChmod"
  "syscallToEventType ''setuid'' = EvtSetuid" "syscallToEventType ''capset'' = EvtCapset"
  "syscallToEventType ''listen'' = EvtNetListen" "syscallToEventType ''ptrace'' = EvtPtrace"
  by code_simp+

lemma evt_nonzero [simp]:
  "EvtSetns \<noteq> 0" "EvtUnshare \<noteq> 0" "EvtMount \<noteq> 0" "EvtFileOpen \<noteq> 0" "EvtModuleLoad \<noteq> 0" "EvtBpfLoad \<noteq> 0"
  "EvtExec \<noteq> 0" "EvtNetConnect \<noteq> 0" "EvtChmod \<noteq> 0" "EvtSetuid \<noteq> 0" "EvtCapset \<noteq> 0" "EvtNetListen \<noteq> 0"
  "EvtPtrace \<noteq> 0"
  by (simp_all add: evt_defs)

text \<open>Ports are compared as decimal texts; that is comparing the ports.\<close>

lemma port_texts:
  "map to_lower ps = map show_word ports \<Longrightarrow> show_word (p :: u16) \<in> set (map to_lower ps) \<longleftrightarrow> p \<in> set ports"
  by auto

text \<open>A dotted quad has digits and dots only, so it is no domain name.\<close>

lemma show_nat_digits: "c \<in> set (show_nat n) \<Longrightarrow> \<exists>d<10. c = digit_char d"
proof (induction n rule: show_nat.induct)
  case (1 n)
  show ?case
  proof (cases "n < 10")
    case True
    with 1(2) show ?thesis by (subst (asm) show_nat.simps) auto
  next
    case False
    with 1(2) have "c \<in> set (show_nat (n div 10)) \<or> c = digit_char (n mod 10)"
      by (subst (asm) show_nat.simps) auto
    with 1(1)[OF False] show ?thesis by (metis mod_less_divisor zero_less_numeral)
  qed
qed

lemma join_chars: "c \<in> set (join sep ws) \<Longrightarrow> c \<in> set sep \<or> (\<exists>w\<in>set ws. c \<in> set w)"
  by (induction sep ws rule: join.induct) auto

lemma dotted_quad_chars: "c \<in> set (dotted_quad b) \<Longrightarrow> c = CHR ''.'' \<or> (\<exists>d<10. c = digit_char d)"
  using join_chars[of c "''.''" "map show_word b"] show_nat_digits
  by (auto simp: dotted_quad_def show_word_def)

lemma RemoteIP_no_letter: "CHR ''r'' \<in> set s \<or> CHR ''m'' \<in> set s \<Longrightarrow> RemoteIP ev \<noteq> s"
proof
  assume a: "CHR ''r'' \<in> set s \<or> CHR ''m'' \<in> set s" and "RemoteIP ev = s"
  then obtain c where "c = CHR ''r'' \<or> c = CHR ''m''" "c \<in> set (RemoteIP ev)" by blast
  then obtain d where "d < 10" "c = digit_char d" using dotted_quad_chars by (auto simp: RemoteIP_def)
  moreover have "of_char (digit_char d) = (48 + d :: nat)" if "d < 10" for d
    using that by (simp add: digit_char_def)
  ultimately show False using \<open>c = CHR ''r'' \<or> c = CHR ''m''\<close> by fastforce
qed

section \<open>The rules\<close>

definition tree_R001 :: cond_expr where
  "tree_R001 =
      (CAnd (ck ''evt.type'' ''='' [''setns'']) (ck ''container'' ''is_container'' []))"

definition tree_R002 :: cond_expr where
  "tree_R002 =
      (CAnd (ck ''evt.type'' ''='' [''unshare'']) (ck ''container'' ''is_container'' []))"

definition tree_R003 :: cond_expr where
  "tree_R003 =
      (CAnd (ck ''evt.type'' ''='' [''mount'']) (ck ''container'' ''is_container'' []))"

definition tree_R004 :: cond_expr where
  "tree_R004 =
      (CAnd (CAnd (CAnd (ck ''evt.type'' ''in'' [''open'', ''openat'', ''openat2'']) (ck ''fd.name''
      ''pmatch'' [''/etc/shadow'', ''/etc/passwd'', ''/etc/sudoers'', ''/root/.ssh'',
      ''/var/run/docker.sock'', ''/proc/1'', ''/proc/kallsyms'', ''/proc/self/exe'', ''/proc/self/fd'',
      ''/var/run/secrets/kubernetes.io/''])) (ck ''container'' ''is_container'' [])) (ck ''fd.name''
      ''pmatch'' [''/var/run/docker.sock'']))"

definition tree_R005 :: cond_expr where
  "tree_R005 =
      (CAnd (CAnd (CAnd (ck ''evt.type'' ''in'' [''open'', ''openat'', ''openat2'']) (ck ''fd.name''
      ''pmatch'' [''/etc/shadow'', ''/etc/passwd'', ''/etc/sudoers'', ''/root/.ssh'',
      ''/var/run/docker.sock'', ''/proc/1'', ''/proc/kallsyms'', ''/proc/self/exe'', ''/proc/self/fd'',
      ''/var/run/secrets/kubernetes.io/''])) (ck ''container'' ''is_container'' [])) (ck ''fd.name''
      ''pmatch'' [''/proc/1'', ''/proc/self/exe'', ''/proc/self/fd'']))"

definition tree_R006 :: cond_expr where
  "tree_R006 =
      (CAnd (ck ''evt.type'' ''='' [''init_module'']) (ck ''container'' ''is_container'' []))"

definition tree_R007 :: cond_expr where
  "tree_R007 =
      (CAnd (ck ''evt.type'' ''='' [''bpf'']) (ck ''container'' ''is_container'' []))"

definition tree_R008 :: cond_expr where
  "tree_R008 =
      (CAnd (CAnd (ck ''evt.type'' ''in'' [''execve'', ''execveat'']) (ck ''container'' ''is_container'' []))
      (ck ''proc.name'' ''in'' [''xmrig'', ''ccminer'', ''t-rex'', ''nanominer'', ''pwnrig'', ''minerd'',
      ''xmr-stak'', ''cpuminer'', ''cgminer'', ''bfgminer'']))"

definition tree_R009 :: cond_expr where
  "tree_R009 =
      (CAnd (CAnd (CAnd (ck ''evt.type'' ''in'' [''connect'', ''sendto'', ''sendmsg'']) (ck ''evt.dir'' ''=''
      [''<''])) (ck ''container'' ''is_container'' [])) (CAnd (ck ''evt.type'' ''='' [''connect'']) (COr (ck
      ''fd.rport'' ''in'' [''25'', ''3333'', ''3334'', ''3335'', ''3336'', ''3357'', ''4444'', ''5555'',
      ''5556'', ''5588'', ''5730'', ''6099'', ''6666'', ''7777'', ''7778'', ''8333'', ''8888'', ''8899'',
      ''9332'', ''9999'', ''14433'', ''14444'', ''45560'', ''45700'']) (ck ''fd.rip.name'' ''in''
      [''asia1.ethpool.org'', ''ca.minexmr.com'', ''cn.stratum.slushpool.com'', ''de.minexmr.com'',
      ''eth-ar.dwarfpool.com'', ''fr.minexmr.com'', ''mine.moneropool.com'', ''pool.minexmr.com'',
      ''xmr.crypto-pool.fr'']))))"

definition tree_R010 :: cond_expr where
  "tree_R010 =
      (CAnd (CAnd (ck ''evt.type'' ''in'' [''execve'', ''execveat'']) (ck ''container'' ''is_container'' []))
      (COr (COr (COr (ck ''proc.cmdline'' ''contains'' [''stratum+tcp'']) (ck ''proc.cmdline'' ''contains''
      [''stratum2+tcp''])) (ck ''proc.cmdline'' ''contains'' [''stratum+ssl''])) (ck ''proc.cmdline''
      ''contains'' [''stratum2+ssl''])))"

definition tree_R011 :: cond_expr where
  "tree_R011 =
      (CAnd (CAnd (ck ''evt.type'' ''in'' [''connect'', ''sendto'', ''sendmsg'']) (ck ''evt.dir'' ''=''
      [''<''])) (ck ''container'' ''is_container'' []))"

definition tree_R012 :: cond_expr where
  "tree_R012 =
      (CAnd (CAnd (ck ''evt.type'' ''in'' [''chmod'', ''fchmodat'']) (ck ''container'' ''is_container'' []))
      (ck ''evt.arg.mode'' ''contains'' [''s_isuid'']))"

definition tree_R013 :: cond_expr where
  "tree_R013 =
      (CAnd (ck ''evt.type'' ''in'' [''execve'', ''execveat'']) (ck ''container'' ''is_container'' []))"

definition tree_R014 :: cond_expr where
  "tree_R014 =
      (CAnd (CAnd (CAnd (CAnd (ck ''evt.type'' ''in'' [''connect'', ''sendto'', ''sendmsg'']) (ck ''evt.dir''
      ''='' [''<''])) (ck ''container'' ''is_container'' [])) (ck ''proc.name'' ''in'' [''bash'', ''sh'',
      ''zsh'', ''dash'', ''ksh'', ''tcsh'', ''fish'', ''csh''])) (ck ''fd.rport'' ''not_in'' [''80'',
      ''443'']))"

definition tree_R015 :: cond_expr where
  "tree_R015 =
      (CAnd (CAnd (CAnd (ck ''evt.type'' ''in'' [''dup2'', ''dup3'']) (ck ''container'' ''is_container'' []))
      (ck ''fd.type'' ''='' [''socket''])) (ck ''fd.fd'' ''in'' [''0'', ''1'', ''2'']))"

definition tree_R016 :: cond_expr where
  "tree_R016 =
      (CAnd (CAnd (CAnd (CAnd (ck ''evt.type'' ''in'' [''connect'', ''sendto'', ''sendmsg'']) (ck ''evt.dir''
      ''='' [''<''])) (ck ''container'' ''is_container'' [])) (ck ''proc.name'' ''in'' [''bash'', ''sh'',
      ''zsh'', ''dash'', ''ksh'', ''tcsh'', ''fish'', ''csh''])) (ck ''fd.rport'' ''in'' [''4444'', ''1337'',
      ''31337'', ''6666'', ''8080'', ''9001'', ''1234'', ''4443'']))"

definition tree_R017 :: cond_expr where
  "tree_R017 =
      (CAnd (CAnd (ck ''evt.type'' ''in'' [''execve'', ''execveat'']) (ck ''container'' ''is_container'' []))
      (COr (COr (ck ''proc.cmdline'' ''contains'' [''/dev/tcp'']) (ck ''proc.cmdline'' ''contains''
      [''/dev/udp''])) (ck ''proc.cmdline'' ''contains'' [''>&''])))"

definition tree_R018 :: cond_expr where
  "tree_R018 =
      (CAnd (CAnd (ck ''evt.type'' ''in'' [''open'', ''openat'', ''openat2'']) (ck ''fd.name'' ''pmatch''
      [''/etc/shadow'', ''/etc/passwd'', ''/etc/sudoers'', ''/root/.ssh'', ''/var/run/docker.sock'',
      ''/proc/1'', ''/proc/kallsyms'', ''/proc/self/exe'', ''/proc/self/fd'',
      ''/var/run/secrets/kubernetes.io/''])) (ck ''container'' ''is_container'' []))"

definition tree_R019 :: cond_expr where
  "tree_R019 =
      (CAnd (CAnd (ck ''evt.type'' ''='' [''connect'']) (ck ''fd.rip'' ''in'' [''169.254.169.254'',
      ''168.63.129.16''])) (ck ''container'' ''is_container'' []))"

definition tree_R020 :: cond_expr where
  "tree_R020 =
      (CAnd (CAnd (CAnd (ck ''evt.type'' ''in'' [''open'', ''openat'', ''openat2'']) (ck ''fd.name''
      ''pmatch'' [''/etc/shadow'', ''/etc/passwd'', ''/etc/sudoers'', ''/root/.ssh'',
      ''/var/run/docker.sock'', ''/proc/1'', ''/proc/kallsyms'', ''/proc/self/exe'', ''/proc/self/fd'',
      ''/var/run/secrets/kubernetes.io/''])) (ck ''container'' ''is_container'' [])) (ck ''fd.name''
      ''pmatch'' [''/var/run/secrets/kubernetes.io/'']))"

definition tree_R021 :: cond_expr where
  "tree_R021 =
      (CAnd (ck ''evt.type'' ''='' [''setuid'']) (ck ''container'' ''is_container'' []))"

definition tree_R022 :: cond_expr where
  "tree_R022 =
      (CAnd (CAnd (ck ''evt.type'' ''in'' [''chmod'', ''fchmodat'']) (ck ''container'' ''is_container'' []))
      (COr (ck ''evt.arg.mode'' ''contains'' [''s_isuid'']) (ck ''evt.arg.mode'' ''contains''
      [''s_isgid''])))"

definition tree_R023 :: cond_expr where
  "tree_R023 =
      (CAnd (ck ''evt.type'' ''='' [''capset'']) (ck ''container'' ''is_container'' []))"

definition tree_R024 :: cond_expr where
  "tree_R024 =
      (CAnd (CAnd (CAnd (ck ''evt.type'' ''in'' [''open'', ''openat'', ''openat2'', ''creat'']) (COr (ck
      ''evt.arg.flags'' ''contains'' [''o_wronly'']) (ck ''evt.arg.flags'' ''contains'' [''o_rdwr'']))) (ck
      ''container'' ''is_container'' [])) (ck ''evt.is_open_exec'' ''bool'' []))"

definition tree_R025 :: cond_expr where
  "tree_R025 =
      (CAnd (CAnd (ck ''evt.type'' ''in'' [''execve'', ''execveat'']) (ck ''container'' ''is_container'' []))
      (COr (ck ''proc.exe'' ''startswith'' [''/tmp/'']) (CAnd (ck ''proc.cwd'' ''startswith'' [''/tmp/''])
      (ck ''proc.exe'' ''startswith'' [''./'']))))"

definition tree_R026 :: cond_expr where
  "tree_R026 =
      (CAnd (ck ''evt.type'' ''='' [''listen'']) (ck ''container'' ''is_container'' []))"

definition tree_R027 :: cond_expr where
  "tree_R027 =
      (CAnd (CAnd (CAnd (ck ''evt.type'' ''in'' [''connect'', ''sendto'', ''sendmsg'']) (ck ''evt.dir'' ''=''
      [''<''])) (ck ''container'' ''is_container'' [])) (ck ''fd.rport'' ''in'' [''4444'', ''1337'',
      ''31337'', ''6666'', ''8080'', ''9001'', ''1234'', ''4443'']))"

definition tree_R028 :: cond_expr where
  "tree_R028 =
      (CAnd (ck ''evt.type'' ''in'' [''execve'', ''execveat'']) (ck ''container'' ''is_container'' []))"

definition tree_R029 :: cond_expr where
  "tree_R029 =
      (CAnd (ck ''evt.type'' ''='' [''ptrace'']) (ck ''container'' ''is_container'' []))"

definition tree_R030 :: cond_expr where
  "tree_R030 =
      (CAnd (ck ''evt.type'' ''in'' [''execve'', ''execveat'']) (ck ''container'' ''is_container'' []))"


section \<open>What the trees mean\<close>

lemma digit_chars:
  "digit_char 0 = CHR ''0''" "digit_char 1 = CHR ''1''" "digit_char 2 = CHR ''2''" "digit_char 3 = CHR ''3''" "digit_char 4 = CHR ''4''" "digit_char 5 = CHR ''5''" "digit_char 6 = CHR ''6''" "digit_char 7 = CHR ''7''" "digit_char 8 = CHR ''8''" "digit_char 9 = CHR ''9''"
"digit_char (Suc 0) = CHR ''1''"
  by code_simp+

lemma port_lists:
  "map to_lower [''4444'', ''1337'', ''31337'', ''6666'', ''8080'', ''9001'', ''1234'', ''4443''] = map show_word C2Ports"
  "map to_lower [''80'', ''443''] = map show_word [80 :: u16, 443]"
  "map to_lower [''25'', ''3333'', ''3334'', ''3335'', ''3336'', ''3357'', ''4444'', ''5555'', ''5556'', ''5588'',
     ''5730'', ''6099'', ''6666'', ''7777'', ''7778'', ''8333'', ''8888'', ''8899'', ''9332'', ''9999'', ''14433'',
     ''14444'', ''45560'', ''45700''] = map show_word MinerPoolPorts"
  by (simp_all add: C2Ports_def MinerPoolPorts_def show_word_def show_nat.simps digit_chars
      to_lower_def lower_char_def)

lemmas port_facts = port_lists[THEN port_texts]

lemma lower_lists:
  "map to_lower [''xmrig'', ''ccminer'', ''t-rex'', ''nanominer'', ''pwnrig'', ''minerd'', ''xmr-stak'', ''cpuminer'',
     ''cgminer'', ''bfgminer''] = [''xmrig'', ''ccminer'', ''t-rex'', ''nanominer'', ''pwnrig'', ''minerd'', ''xmr-stak'',
     ''cpuminer'', ''cgminer'', ''bfgminer'']"
  "map to_lower [''bash'', ''sh'', ''zsh'', ''dash'', ''ksh'', ''tcsh'', ''fish'', ''csh''] = ShellBinaries"
  "map to_lower [''169.254.169.254'', ''168.63.129.16''] = CloudMetadataIPs"
  "map to_lower [s1] = [to_lower s1]"
  "to_lower ''stratum+tcp'' = ''stratum+tcp''" "to_lower ''stratum2+tcp'' = ''stratum2+tcp''"
  "to_lower ''stratum+ssl'' = ''stratum+ssl''" "to_lower ''stratum2+ssl'' = ''stratum2+ssl''"
  "to_lower ''/dev/tcp'' = ''/dev/tcp''" "to_lower ''/dev/udp'' = ''/dev/udp''" "to_lower ''>&'' = ''>&''"
  by code_simp+

definition catalog_domains :: "string list" where
  "catalog_domains = [''asia1.ethpool.org'', ''ca.minexmr.com'', ''cn.stratum.slushpool.com'', ''de.minexmr.com'',
     ''eth-ar.dwarfpool.com'', ''fr.minexmr.com'', ''mine.moneropool.com'', ''pool.minexmr.com'', ''xmr.crypto-pool.fr'']"

lemma domains_letters:
  "list_all (\<lambda>s. CHR ''r'' \<in> set s \<or> CHR ''m'' \<in> set s) (map to_lower catalog_domains)"
  by code_simp

lemma no_domain: "(RemoteIP ev \<in> set (map to_lower catalog_domains)) = False"
  using domains_letters RemoteIP_no_letter unfolding list_all_iff by blast

text \<open>A path under a prefix that is itself under a sensitive prefix is sensitive.\<close>

lemma path_under_sensitive:
  "path_under catalog_sensitive ev \<and> path_under [''/var/run/docker.sock''] ev \<longleftrightarrow> path_under [''/var/run/docker.sock''] ev"
  "path_under catalog_sensitive ev \<and> path_under [''/proc/1'', ''/proc/self/exe'', ''/proc/self/fd''] ev \<longleftrightarrow>
     path_under [''/proc/1'', ''/proc/self/exe'', ''/proc/self/fd''] ev"
  "path_under catalog_sensitive ev \<and> path_under [''/var/run/secrets/kubernetes.io/''] ev \<longleftrightarrow>
     path_under [''/var/run/secrets/kubernetes.io/''] ev"
proof -
  have sub: "set ps \<subseteq> set qs \<Longrightarrow> path_under ps ev \<Longrightarrow> path_under qs ev" for ps qs
    by (auto simp: path_under_def list_ex_iff)
  show "path_under catalog_sensitive ev \<and> path_under [''/var/run/docker.sock''] ev \<longleftrightarrow> path_under [''/var/run/docker.sock''] ev"
    using sub[of "[''/var/run/docker.sock'']" catalog_sensitive] by (auto simp: catalog_sensitive_def)
  show "path_under catalog_sensitive ev \<and> path_under [''/proc/1'', ''/proc/self/exe'', ''/proc/self/fd''] ev \<longleftrightarrow>
     path_under [''/proc/1'', ''/proc/self/exe'', ''/proc/self/fd''] ev"
    using sub[of "[''/proc/1'', ''/proc/self/exe'', ''/proc/self/fd'']" catalog_sensitive]
    by (auto simp: catalog_sensitive_def)
  show "path_under catalog_sensitive ev \<and> path_under [''/var/run/secrets/kubernetes.io/''] ev \<longleftrightarrow>
     path_under [''/var/run/secrets/kubernetes.io/''] ev"
    using sub[of "[''/var/run/secrets/kubernetes.io/'']" catalog_sensitive] by (auto simp: catalog_sensitive_def)
qed

lemma cmd_has_Cons: "cmd_has (a # b # cs) ev \<longleftrightarrow> cmd_has [a] ev \<or> cmd_has (b # cs) ev"
  by (simp add: cmd_has_def)


lemma means_R001: "holds tree_R001 ev \<longleftrightarrow> evt EvtSetns ev \<and> in_container ev"
  by (simp add: tree_R001_def)

lemma means_R002: "holds tree_R002 ev \<longleftrightarrow> evt EvtUnshare ev \<and> in_container ev"
  by (simp add: tree_R002_def)

lemma means_R003: "holds tree_R003 ev \<longleftrightarrow> evt EvtMount ev \<and> in_container ev"
  by (simp add: tree_R003_def)

lemma means_R004: "holds tree_R004 ev \<longleftrightarrow> evt EvtFileOpen ev \<and> in_container ev \<and> path_under [''/var/run/docker.sock''] ev"
  by (unfold tree_R004_def holds.simps holds_path, fold catalog_sensitive_def) (use path_under_sensitive[of ev] in auto)

lemma means_R005: "holds tree_R005 ev \<longleftrightarrow> evt EvtFileOpen ev \<and> in_container ev \<and> path_under [''/proc/1'', ''/proc/self/exe'', ''/proc/self/fd''] ev"
  by (unfold tree_R005_def holds.simps holds_path, fold catalog_sensitive_def) (use path_under_sensitive[of ev] in auto)

lemma means_R006: "holds tree_R006 ev \<longleftrightarrow> evt EvtModuleLoad ev \<and> in_container ev"
  by (simp add: tree_R006_def)

lemma means_R007: "holds tree_R007 ev \<longleftrightarrow> evt EvtBpfLoad ev \<and> in_container ev"
  by (simp add: tree_R007_def)

lemma means_R008: "holds tree_R008 ev \<longleftrightarrow> evt EvtExec ev \<and> in_container ev \<and> comm_in [''xmrig'', ''ccminer'', ''t-rex'', ''nanominer'', ''pwnrig'', ''minerd'', ''xmr-stak'', ''cpuminer'', ''cgminer'', ''bfgminer''] ev"
  by (unfold tree_R008_def holds.simps holds_comm holds_cmd holds_port_in holds_port_not_in holds_rip port_facts lower_lists) (auto simp: port_in_def cmd_has_Cons IsCloudMetadataIP_def)

lemma means_R009: "holds tree_R009 ev \<longleftrightarrow> evt EvtNetConnect ev \<and> in_container ev \<and> port_in MinerPoolPorts ev"
  by (unfold tree_R009_def, fold catalog_domains_def, unfold holds.simps holds_port_in holds_rip port_facts no_domain) (auto simp: port_in_def)

lemma means_R010: "holds tree_R010 ev \<longleftrightarrow> evt EvtExec ev \<and> in_container ev \<and> cmd_has [''stratum+tcp'', ''stratum2+tcp'', ''stratum+ssl'', ''stratum2+ssl''] ev"
  by (unfold tree_R010_def holds.simps holds_comm holds_cmd holds_port_in holds_port_not_in holds_rip port_facts lower_lists) (auto simp: port_in_def cmd_has_Cons IsCloudMetadataIP_def)

lemma means_R011: "holds tree_R011 ev \<longleftrightarrow> evt EvtNetConnect ev \<and> in_container ev"
  by (simp add: tree_R011_def)

lemma means_R012: "holds tree_R012 ev \<longleftrightarrow> evt EvtChmod ev \<and> in_container ev \<and> mode_has 2048 ev"
  by (simp add: tree_R012_def)

lemma means_R013: "holds tree_R013 ev \<longleftrightarrow> evt EvtExec ev \<and> in_container ev"
  by (simp add: tree_R013_def)

lemma means_R014: "holds tree_R014 ev \<longleftrightarrow> evt EvtNetConnect ev \<and> in_container ev \<and> comm_in ShellBinaries ev \<and> \<not> port_in [80, 443] ev"
  by (unfold tree_R014_def holds.simps holds_comm holds_cmd holds_port_in holds_port_not_in holds_rip port_facts lower_lists) (auto simp: port_in_def cmd_has_Cons IsCloudMetadataIP_def)

lemma means_R015: "holds tree_R015 ev \<longleftrightarrow> False"
  by (simp add: tree_R015_def)

lemma means_R016: "holds tree_R016 ev \<longleftrightarrow> evt EvtNetConnect ev \<and> in_container ev \<and> comm_in ShellBinaries ev \<and> port_in C2Ports ev"
  by (unfold tree_R016_def holds.simps holds_comm holds_cmd holds_port_in holds_port_not_in holds_rip port_facts lower_lists) (auto simp: port_in_def cmd_has_Cons IsCloudMetadataIP_def)

lemma means_R017: "holds tree_R017 ev \<longleftrightarrow> evt EvtExec ev \<and> in_container ev \<and> cmd_has [''/dev/tcp'', ''/dev/udp'', ''>&''] ev"
  by (unfold tree_R017_def holds.simps holds_comm holds_cmd holds_port_in holds_port_not_in holds_rip port_facts lower_lists) (auto simp: port_in_def cmd_has_Cons IsCloudMetadataIP_def)

lemma means_R018: "holds tree_R018 ev \<longleftrightarrow> evt EvtFileOpen ev \<and> in_container ev \<and> path_under catalog_sensitive ev"
  by (unfold tree_R018_def holds.simps holds_path, fold catalog_sensitive_def) (use path_under_sensitive[of ev] in auto)

lemma means_R019: "holds tree_R019 ev \<longleftrightarrow> evt EvtNetConnect ev \<and> in_container ev \<and> IsCloudMetadataIP (RemoteIP (er_Event ev))"
  by (unfold tree_R019_def holds.simps holds_comm holds_cmd holds_port_in holds_port_not_in holds_rip port_facts lower_lists) (auto simp: port_in_def cmd_has_Cons IsCloudMetadataIP_def)

lemma means_R020: "holds tree_R020 ev \<longleftrightarrow> evt EvtFileOpen ev \<and> in_container ev \<and> path_under [''/var/run/secrets/kubernetes.io/''] ev"
  by (unfold tree_R020_def holds.simps holds_path, fold catalog_sensitive_def) (use path_under_sensitive[of ev] in auto)

lemma means_R021: "holds tree_R021 ev \<longleftrightarrow> evt EvtSetuid ev \<and> in_container ev"
  by (simp add: tree_R021_def)

lemma means_R022: "holds tree_R022 ev \<longleftrightarrow> evt EvtChmod ev \<and> in_container ev \<and> (mode_has 2048 ev \<or> mode_has 1024 ev)"
  by (simp add: tree_R022_def)

lemma means_R023: "holds tree_R023 ev \<longleftrightarrow> evt EvtCapset ev \<and> in_container ev"
  by (simp add: tree_R023_def)

lemma means_R024: "holds tree_R024 ev \<longleftrightarrow> evt EvtFileOpen ev \<and> in_container ev \<and> Category (er_Event ev) = CatFile \<and> flags_have 1 ev"
  by (auto simp: tree_R024_def)

lemma means_R025: "holds tree_R025 ev \<longleftrightarrow> evt EvtExec ev \<and> in_container ev \<and> has_prefix (Filename (er_Event ev)) ''/tmp/''"
  by (auto simp: tree_R025_def)

lemma means_R026: "holds tree_R026 ev \<longleftrightarrow> evt EvtNetListen ev \<and> in_container ev"
  by (simp add: tree_R026_def)

lemma means_R027: "holds tree_R027 ev \<longleftrightarrow> evt EvtNetConnect ev \<and> in_container ev \<and> port_in C2Ports ev"
  by (unfold tree_R027_def holds.simps holds_comm holds_cmd holds_port_in holds_port_not_in holds_rip port_facts lower_lists) (auto simp: port_in_def cmd_has_Cons IsCloudMetadataIP_def)

lemma means_R028: "holds tree_R028 ev \<longleftrightarrow> evt EvtExec ev \<and> in_container ev"
  by (simp add: tree_R028_def)

lemma means_R029: "holds tree_R029 ev \<longleftrightarrow> evt EvtPtrace ev \<and> in_container ev"
  by (simp add: tree_R029_def)

lemma means_R030: "holds tree_R030 ev \<longleftrightarrow> evt EvtExec ev \<and> in_container ev"
  by (simp add: tree_R030_def)

end
