(* ===== verification/Macro_Order.thy ===== *)
theory Macro_Order
  imports Cond_Parser "HOL-Library.Multiset"
begin

text \<open>
  Macro expansion ranges over a Go map, so each round visits the macros in an arbitrary order. For
  conditions that are conjunctions of atoms, each of them a macro name or a text in which no macro
  name stands alone, this theory shows what the ten rounds compute: every atom that is a macro name
  is replaced by its parenthesised condition, whatever the order in each round
  (\<open>expandMacros_atoms\<close>). The conditions of the built-in catalog have this form.
\<close>

section \<open>Text without a standalone name\<close>

fun word_free :: "string \<Rightarrow> string \<Rightarrow> bool" where
  "word_free n [] = True"
| "word_free n (c # cs) = (if name_here n (c # cs) then False else word_free n cs)"

text \<open>A macro name: one word, which the connective does not end in.\<close>

definition macro_name :: "string \<Rightarrow> bool" where
  "macro_name n \<longleftrightarrow> n \<noteq> [] \<and> word_free n ''and'' \<and> list_all (\<lambda>c. \<not> left_delim c \<and> \<not> right_delim c) n"

lemma name_here_code [code]:
  "name_here name s =
    (if has_prefix s name then (case drop (length name) s of [] \<Rightarrow> True | d # _ \<Rightarrow> right_delim d) else False)"
  by (simp add: name_here_def)

definition blank_or_end :: "string \<Rightarrow> bool" where
  "blank_or_end r \<longleftrightarrow> r = [] \<or> hd r = CHR '' ''"

lemma delim_space [simp]: "left_delim CHR '' ''" "right_delim CHR '' ''"
  by (simp_all add: left_delim_def right_delim_def re_space_def)

lemma macro_name_no_space: "macro_name n \<Longrightarrow> CHR '' '' \<notin> set n"
  by (auto simp: macro_name_def list_all_iff)

lemma name_here_cut:
  assumes "macro_name n" "blank_or_end r" "s \<noteq> []"
  shows "name_here n (s @ r) \<longleftrightarrow> name_here n s"
proof -
  have p: "has_prefix (s @ r) n \<longleftrightarrow> has_prefix s n"
  proof
    assume a: "has_prefix (s @ r) n"
    show "has_prefix s n"
    proof (cases "length n \<le> length s")
      case True
      with a show ?thesis by (simp add: has_prefix_def)
    next
      case False
      with a have "r \<noteq> []" "n = take (length n) (s @ r)" by (auto simp: has_prefix_def)
      then obtain r' where "r = CHR '' '' # r'" using assms(2) by (cases r) (auto simp: blank_or_end_def)
      with False \<open>n = take (length n) (s @ r)\<close> have "CHR '' '' \<in> set n"
        by (metis (no_types, lifting) Suc_diff_le Suc_leI append_take_drop_id diff_Suc_Suc in_set_conv_decomp
            not_le take_Suc_Cons take_all_iff take_append leI less_imp_le Suc_diff_Suc)
      with macro_name_no_space[OF assms(1)] show ?thesis by simp
    qed
  next
    assume "has_prefix s n"
    then show "has_prefix (s @ r) n" by (simp add: has_prefix_def)
  qed
  show ?thesis
  proof (cases "has_prefix s n")
    case True
    then have "length n \<le> length s" by (simp add: has_prefix_def)
    then show ?thesis using p True assms(2)
      by (cases "drop (length n) s"; cases r) (auto simp: name_here_def blank_or_end_def)
  next
    case False
    with p show ?thesis by (simp add: name_here_def)
  qed
qed

lemma name_here_blank: "macro_name n \<Longrightarrow> blank_or_end r \<Longrightarrow> \<not> name_here n r"
  using macro_name_no_space[of n]
  by (cases n; cases r) (auto simp: name_here_def has_prefix_def blank_or_end_def macro_name_def)

lemma replace_start: "\<not> name_here n s \<Longrightarrow> replace_macro n x b s = replace_macro n x False s"
  by (subst (1 2) replace_macro.simps) simp

lemma replace_skip:
  "\<not> name_here n cs \<or> \<not> left_delim c \<Longrightarrow> replace_macro n x False (c # cs) =
     (c # fst (replace_macro n x False cs), snd (replace_macro n x False cs))"
  by (subst replace_macro.simps) (auto split: prod.split)

text \<open>The scan passes over text in which the name does not stand alone.\<close>

lemma replace_over:
  assumes "macro_name n" "blank_or_end r"
  shows "word_free n s \<Longrightarrow> replace_macro n x False (s @ r) =
    (s @ fst (replace_macro n x False r), snd (replace_macro n x False r))"
proof (induction s)
  case (Cons c s)
  have "\<not> name_here n (s @ r)"
  proof (cases "s = []")
    case True
    then show ?thesis using name_here_blank[OF assms] by simp
  next
    case False
    moreover have "\<not> name_here n s"
      using Cons.prems False by (cases s) (auto split: if_splits)
    ultimately show ?thesis using name_here_cut[OF assms] by simp
  qed
  moreover have "word_free n s" using Cons.prems by (auto split: if_splits)
  ultimately show ?case using Cons.IH by (simp add: replace_skip)
qed simp

lemma word_free_start: "word_free n s \<Longrightarrow> s \<noteq> [] \<Longrightarrow> \<not> name_here n s"
  by (cases s) (auto split: if_splits)

declare word_free.simps [simp del]

section \<open>Conjunctions of atoms\<close>

abbreviation conj_text :: "string list \<Rightarrow> string" where
  "conj_text as \<equiv> join '' and '' as"

definition subst_atom :: "string \<Rightarrow> string \<Rightarrow> string \<Rightarrow> string" where
  "subst_atom n x a = (if a = n then ''('' @ x @ '')'' else a)"

definition atom_ok :: "string \<Rightarrow> string \<Rightarrow> bool" where
  "atom_ok n a \<longleftrightarrow> a \<noteq> [] \<and> (a = n \<or> word_free n a)"

lemma name_here_self: "blank_or_end r \<Longrightarrow> name_here n (n @ r)"
  by (cases r) (auto simp: name_here_def blank_or_end_def has_prefix_def)

lemma replace_and:
  assumes "macro_name n"
  shows "replace_macro n x False (''and '' @ t) =
    (''and'' @ fst (replace_macro n x False (CHR '' '' # t)), snd (replace_macro n x False (CHR '' '' # t)))"
  using replace_over[OF assms, of "CHR '' '' # t" "''and''" x] assms
  by (simp add: blank_or_end_def macro_name_def)

lemma conj_text_Cons: "as \<noteq> [] \<Longrightarrow> conj_text (a # as) = a @ CHR '' '' # ''and'' @ CHR '' '' # conj_text as"
  by (cases as) auto

lemma atom_start:
  assumes "macro_name n" "atom_ok n a" "a \<noteq> n" "blank_or_end r"
  shows "\<not> name_here n (a @ r)"
proof -
  have "a \<noteq> []" "word_free n a" using assms by (auto simp: atom_ok_def)
  then have "\<not> name_here n a" by (simp add: word_free_start)
  with name_here_cut[OF assms(1,4) \<open>a \<noteq> []\<close>] show ?thesis by simp
qed

lemma replace_match:
  "name_here n s \<Longrightarrow> left_delim c \<Longrightarrow> replace_macro n x False (c # s) =
     (c # ''('' @ x @ '')'' @ take 1 (drop (length n) s) @ fst (replace_macro n x False (drop 1 (drop (length n) s))), True)"
  by (subst replace_macro.simps) (simp add: Let_def)

lemma conj_replace_blank:
  assumes "macro_name n"
  shows "as \<noteq> [] \<Longrightarrow> \<forall>a\<in>set as. atom_ok n a \<Longrightarrow>
    replace_macro n x False (CHR '' '' # conj_text as) =
      (CHR '' '' # conj_text (map (subst_atom n x) as), n \<in> set as)"
proof (induction as)
  case (Cons a as)
  define r where "r = (if as = [] then [] else CHR '' '' # ''and'' @ CHR '' '' # conj_text as)"
  have r: "blank_or_end r" by (simp add: r_def blank_or_end_def)
  have eq1: "conj_text (a # as) = a @ r"
    unfolding r_def using conj_text_Cons[of as a] by (cases "as = []") simp_all
  have eq2: "conj_text (map (subst_atom n x) (a # as)) = subst_atom n x a @
      (if as = [] then [] else CHR '' '' # ''and'' @ CHR '' '' # conj_text (map (subst_atom n x) as))"
    using conj_text_Cons[of "map (subst_atom n x) as" "subst_atom n x a"] by (cases "as = []") simp_all
  have IH: "replace_macro n x False (''and'' @ CHR '' '' # conj_text as) =
      (''and'' @ CHR '' '' # conj_text (map (subst_atom n x) as), n \<in> set as)" if "as \<noteq> []"
    using Cons that replace_and[OF assms, of x "conj_text as"] by simp
  show ?case
  proof (cases "a = n")
    case True
    have "replace_macro n x False (CHR '' '' # n @ r) =
        (CHR '' '' # ''('' @ x @ '')'' @ take 1 r @ fst (replace_macro n x False (drop 1 r)), True)"
      using replace_match[OF name_here_self[OF r] delim_space(1), of n x] by simp
    moreover have "take 1 r @ fst (replace_macro n x False (drop 1 r)) =
        (if as = [] then [] else CHR '' '' # ''and'' @ CHR '' '' # conj_text (map (subst_atom n x) as))"
    proof (cases "as = []")
      case True
      have "replace_macro n x False [] = ([], False)"
        by (subst replace_macro.simps) simp
      with True show ?thesis by (simp add: r_def)
    next
      case False
      with IH show ?thesis by (simp add: r_def)
    qed
    ultimately show ?thesis unfolding eq1 eq2 using True by (simp add: subst_atom_def)
  next
    case False
    then have ok: "word_free n a" "\<not> name_here n (a @ r)"
      using Cons.prems atom_start[OF assms _ False r] by (auto simp: atom_ok_def)
    have "replace_macro n x False (CHR '' '' # a @ r) =
        (CHR '' '' # a @ fst (replace_macro n x False r), snd (replace_macro n x False r))"
      using replace_over[OF assms r ok(1), of x] ok(2) by (simp add: replace_skip)
    moreover have "replace_macro n x False r =
        ((if as = [] then [] else CHR '' '' # ''and'' @ CHR '' '' # conj_text (map (subst_atom n x) as)), n \<in> set as)"
    proof (cases "as = []")
      case True
      have "replace_macro n x False [] = ([], False)"
        by (subst replace_macro.simps) simp
      with True show ?thesis by (simp add: r_def)
    next
      case ne: False
      have "\<not> name_here n (''and'' @ CHR '' '' # conj_text as)"
        using name_here_cut[OF assms, of "CHR '' '' # conj_text as" "''and''"] assms
          word_free_start[of n "''and''"]
        by (simp add: blank_or_end_def macro_name_def)
      then show ?thesis using IH[OF ne] ne by (simp add: r_def replace_skip)
    qed
    ultimately show ?thesis unfolding eq1 eq2 using False by (auto simp: subst_atom_def)
  qed
qed simp

lemma conj_replace:
  assumes "macro_name n" "as \<noteq> []" "\<forall>a\<in>set as. atom_ok n a"
  shows "replace_macro n x True (conj_text as) = (conj_text (map (subst_atom n x) as), n \<in> set as)"
proof -
  have b: "replace_macro n x False (CHR '' '' # conj_text as) =
      (CHR '' '' # conj_text (map (subst_atom n x) as), n \<in> set as)"
    using assms by (rule conj_replace_blank)
  show ?thesis
  proof (cases "name_here n (conj_text as)")
    case True
    from b show ?thesis
      unfolding replace_match[OF True delim_space(1)]
      by (subst replace_macro.simps) (simp add: True Let_def)
  next
    case False
    from b show ?thesis
      using replace_skip[of n "conj_text as" "CHR '' ''" x] False replace_start[OF False, of x True]
      by (cases "replace_macro n x False (conj_text as)") simp
  qed
qed

section \<open>A round, and ten rounds\<close>

text \<open>The table of macros: distinct names, and conditions in which, parenthesised, no macro name
  stands alone.\<close>

definition table_ok :: "(string \<times> string) list \<Rightarrow> bool" where
  "table_ok ms \<longleftrightarrow> distinct (map fst ms) \<and>
     list_all (\<lambda>(n, x). macro_name n \<and> list_all (\<lambda>(n', x'). word_free n (''('' @ x' @ '')'')) ms) ms"

lemma table_okD:
  assumes "table_ok ms"
  shows "distinct (map fst ms)" "(n, x) \<in> set ms \<Longrightarrow> macro_name n"
    "(n, x) \<in> set ms \<Longrightarrow> (n', x') \<in> set ms \<Longrightarrow> word_free n (''('' @ x' @ '')'')"
  using assms unfolding table_ok_def list_all_iff by blast+

definition atoms_ok :: "(string \<times> string) list \<Rightarrow> string list \<Rightarrow> bool" where
  "atoms_ok ms as \<longleftrightarrow> as \<noteq> [] \<and> list_all (\<lambda>a. list_all (\<lambda>(n, x). atom_ok n a) ms) as"

definition expand_atom :: "(string \<times> string) list \<Rightarrow> string \<Rightarrow> string" where
  "expand_atom ms a = (case map_of ms a of Some x \<Rightarrow> ''('' @ x @ '')'' | None \<Rightarrow> a)"

lemma atoms_okD: "atoms_ok ms as \<Longrightarrow> (n, x) \<in> set ms \<Longrightarrow> \<forall>a\<in>set as. atom_ok n a"
  unfolding atoms_ok_def list_all_iff by blast

lemma atoms_okI:
  "as \<noteq> [] \<Longrightarrow> (\<And>a n x. a \<in> set as \<Longrightarrow> (n, x) \<in> set ms \<Longrightarrow> atom_ok n a) \<Longrightarrow> atoms_ok ms as"
  unfolding atoms_ok_def list_all_iff by blast

lemma subst_atom_ok:
  assumes "table_ok ms" "(n, x) \<in> set ms" "(n', x') \<in> set ms" "atom_ok n' a"
  shows "atom_ok n' (subst_atom n x a)"
proof (cases "a = n")
  case True
  have "word_free n' (''('' @ x @ '')'')" by (rule table_okD(3)[OF assms(1,3,2)])
  with True show ?thesis by (simp add: atom_ok_def subst_atom_def)
next
  case False
  with assms(4) show ?thesis by (simp add: subst_atom_def)
qed

lemma atoms_ok_subst:
  "table_ok ms \<Longrightarrow> (n, x) \<in> set ms \<Longrightarrow> atoms_ok ms as \<Longrightarrow> atoms_ok ms (map (subst_atom n x) as)"
proof (rule atoms_okI)
  assume a: "table_ok ms" "(n, x) \<in> set ms" "atoms_ok ms as"
  then show "map (subst_atom n x) as \<noteq> []" by (simp add: atoms_ok_def)
  fix b n' x' assume "b \<in> set (map (subst_atom n x) as)" and m: "(n', x') \<in> set ms"
  then obtain c where c: "c \<in> set as" "b = subst_atom n x c" by auto
  have "atom_ok n' c" using atoms_okD[OF a(3) m] c(1) by blast
  then show "atom_ok n' b" unfolding c(2) by (rule subst_atom_ok[OF a(1,2) m])
qed

text \<open>An expanded atom is not a name of the table, so later macros of the round leave it alone.\<close>

lemma paren_not_name: "table_ok ms \<Longrightarrow> (n, x) \<in> set ms \<Longrightarrow> ''('' @ y @ '')'' \<noteq> n"
  using table_okD(2)[of ms n x] by (auto simp: macro_name_def left_delim_def)

lemma fold_subst_paren:
  "table_ok ms \<Longrightarrow> set l \<subseteq> set ms \<Longrightarrow> fold (\<lambda>(n, x). subst_atom n x) l (''('' @ y @ '')'') = ''('' @ y @ '')''"
proof (induction l)
  case (Cons m l)
  obtain n x where m: "m = (n, x)" by force
  then show ?case using Cons paren_not_name[of ms n x y] by (simp add: subst_atom_def)
qed simp

lemma fold_subst_expand:
  assumes "table_ok ms"
  shows "set l \<subseteq> set ms \<Longrightarrow> distinct (map fst l) \<Longrightarrow> fold (\<lambda>(n, x). subst_atom n x) l a = expand_atom l a"
proof (induction l)
  case (Cons m l)
  obtain n x where m: "m = (n, x)" by force
  show ?case
  proof (cases "a = n")
    case True
    then show ?thesis
      using m Cons.prems fold_subst_paren[OF assms, of l x]
      by (simp add: subst_atom_def[of n] expand_atom_def)
  next
    case False
    then show ?thesis using m Cons by (simp add: subst_atom_def expand_atom_def)
  qed
qed (simp add: expand_atom_def)

lemma expand_round_atoms:
  assumes "table_ok ms"
  shows "set l \<subseteq> set ms \<Longrightarrow> atoms_ok ms as \<Longrightarrow>
    fst (expand_round l (conj_text as)) = conj_text (map (fold (\<lambda>(n, x). subst_atom n x) l) as) \<and>
    (snd (expand_round l (conj_text as)) \<longrightarrow> (\<exists>a\<in>set as. \<exists>(n, x)\<in>set ms. a = n))"
proof (induction l arbitrary: as)
  case (Cons m l)
  obtain n x where m: "m = (n, x)" by force
  then have in_ms: "(n, x) \<in> set ms" using Cons.prems by simp
  then have nm: "macro_name n" by (rule table_okD(2)[OF assms])
  have ne: "as \<noteq> []" using Cons.prems by (simp add: atoms_ok_def)
  have rep: "replace_macro n x True (conj_text as) = (conj_text (map (subst_atom n x) as), n \<in> set as)"
    by (rule conj_replace[OF nm ne atoms_okD[OF Cons.prems(2) in_ms]])
  have same_text: "conj_text (map (subst_atom n x) as) = conj_text as" if "n \<notin> set as"
  proof -
    have "map (subst_atom n x) as = as" using that by (intro map_idI) (auto simp: subst_atom_def)
    then show ?thesis by simp
  qed
  define as' where "as' = map (subst_atom n x) as"
  have okas: "atoms_ok ms as'" unfolding as'_def by (rule atoms_ok_subst[OF assms in_ms Cons.prems(2)])
  have IH: "fst (expand_round l (conj_text as')) = conj_text (map (fold (\<lambda>(n, x). subst_atom n x) l) as')"
    "snd (expand_round l (conj_text as')) \<Longrightarrow> \<exists>a\<in>set as'. \<exists>(n, x)\<in>set ms. a = n"
    using Cons.IH[OF _ okas] Cons.prems by auto
  have back_to: "\<exists>a\<in>set as. \<exists>(n, x)\<in>set ms. a = n" if "\<exists>a\<in>set as'. \<exists>(n, x)\<in>set ms. a = n"
    using that paren_not_name[OF assms] unfolding as'_def subst_atom_def by fastforce
  have res: "expand_round (m # l) (conj_text as) =
      (fst (expand_round l (conj_text as')), n \<in> set as \<or> snd (expand_round l (conj_text as')))"
    using rep same_text by (cases "expand_round l (conj_text as')") (auto simp: m as'_def)
  show ?case
    unfolding res fst_conv snd_conv
  proof (intro conjI impI)
    show "fst (expand_round l (conj_text as')) = conj_text (map (fold (\<lambda>(n, x). subst_atom n x) (m # l)) as)"
      using IH(1) by (simp add: as'_def m comp_def)
    assume "n \<in> set as \<or> snd (expand_round l (conj_text as'))"
    then show "\<exists>a\<in>set as. \<exists>(n, x)\<in>set ms. a = n"
      using in_ms IH(2) back_to by blast
  qed
qed (simp add: case_prod_beta)

lemma map_of_mset: "mset l = mset ms \<Longrightarrow> distinct (map fst ms) \<Longrightarrow> map_of l = map_of ms"
  by (metis map_of_inject_set mset_eq_setD distinct_map mset_map mset_eq_imp_distinct_iff set_mset_mset)

text \<open>Whatever the order of each round, the first round expands every atom and a second round has
  nothing left to do.\<close>

lemma expandMacros_atoms:
  assumes "table_ok ms" "atoms_ok ms as" "\<And>k. mset (orders k) = mset ms"
  shows "expandMacros orders (conj_text as) = conj_text (map (expand_atom ms) as)"
proof -
  have sub: "set (orders k) \<subseteq> set ms" for k using mset_eq_setD[OF assms(3)] by blast
  have dms: "distinct (map fst ms)" using assms(1) by (simp add: table_ok_def)
  have dist: "distinct (map fst (orders k))" for k
    using dms assms(3)[of k] by (metis mset_eq_imp_distinct_iff mset_map)
  have exp: "fold (\<lambda>(n, x). subst_atom n x) (orders k) a = expand_atom ms a" for k a
    using fold_subst_expand[OF assms(1) sub dist] map_of_mset[OF assms(3) dms]
    by (simp add: expand_atom_def)
  define bs where "bs = map (expand_atom ms) as"
  have b: "\<forall>b\<in>set bs. (\<exists>n x. (n, x) \<in> set ms \<and> b = ''('' @ x @ '')'') \<or> b \<in> set as \<and> map_of ms b = None"
    unfolding bs_def expand_atom_def by (auto split: option.splits dest: map_of_SomeD)
  have ok: "atoms_ok ms bs"
  proof (rule atoms_okI)
    show "bs \<noteq> []" using assms(2) by (simp add: bs_def atoms_ok_def)
    fix b' n x assume b': "b' \<in> set bs" and m: "(n, x) \<in> set ms"
    from b b' consider n' x' where "(n', x') \<in> set ms" "b' = ''('' @ x' @ '')''" | "b' \<in> set as" by blast
    then show "atom_ok n b'"
    proof cases
      case 1
      then show ?thesis using table_okD(3)[OF assms(1) m] by (simp add: atom_ok_def)
    next
      case 2
      then show ?thesis using atoms_okD[OF assms(2) m] by blast
    qed
  qed
  have free: "\<not> (\<exists>a\<in>set bs. \<exists>(n, x)\<in>set ms. a = n)"
  proof
    assume "\<exists>a\<in>set bs. \<exists>(n, x)\<in>set ms. a = n"
    then obtain n x where m: "n \<in> set bs" "(n, x) \<in> set ms" by blast
    with b paren_not_name[OF assms(1) m(2)] have "map_of ms n = None" by force
    with m(2) show False by (simp add: map_of_eq_None_iff) force
  qed
  have again: "map (expand_atom ms) bs = bs"
  proof (rule map_idI)
    fix a assume "a \<in> set bs"
    with free have "map_of ms a = None" by (auto simp: map_of_eq_None_iff)
    then show "expand_atom ms a = a" by (simp add: expand_atom_def)
  qed
  have f: "fold (\<lambda>(n, x). subst_atom n x) (orders k) = expand_atom ms" for k
    by (rule ext) (rule exp)
  have r0: "fst (expand_round (orders k) (conj_text as)) = conj_text bs" for k
    using expand_round_atoms[OF assms(1) sub[of k] assms(2), unfolded f] by (simp add: bs_def)
  have r1: "expand_round (orders k) (conj_text bs) = (conj_text bs, False)" for k
  proof -
    have "fst (expand_round (orders k) (conj_text bs)) = conj_text bs \<and> \<not> snd (expand_round (orders k) (conj_text bs))"
      using expand_round_atoms[OF assms(1) sub[of k] ok, unfolded f again] free by blast
    then show ?thesis by (cases "expand_round (orders k) (conj_text bs)") simp
  qed
  have "expand_rounds (Suc 8) orders (conj_text bs) = conj_text bs"
    unfolding expand_rounds.simps(2)[of 8] using r1[of "10 - Suc 8"] by simp
  then have "expand_rounds (Suc (Suc 8)) orders (conj_text as) = conj_text bs"
    unfolding expand_rounds.simps(2)[of "Suc 8"] using r0[of "10 - Suc (Suc 8)"]
    by (cases "expand_round (orders (10 - Suc (Suc 8))) (conj_text as)") (simp del: expand_rounds.simps)
  moreover have "Suc (Suc 8) = (10::nat)" by simp
  ultimately show ?thesis by (simp only: expandMacros_def bs_def)
qed

end
