(* ===== verification/Catalog_Compile.thy ===== *)
theory Catalog_Compile
  imports Catalog Catalog_Meaning Macro_Order
begin

text \<open>
  The conditions of the built-in catalog, expanded and parsed by the model: for every order in which
  the macros may be visited, the text of each rule compiles to the tree of \<open>Catalog_Meaning\<close>. The
  kernel evaluates the parser on each text.
\<close>

section \<open>The tables the conditions are compiled with\<close>

definition catalog_macro_table :: "(string \<times> string) list" where
  "catalog_macro_table = map (\<lambda>m. (str_field m ''macro'', str_field m ''condition'')) catalog_macros"

definition catalog_list_table :: "string \<rightharpoonup> string list" where
  "catalog_list_table = map_of (rev (map (\<lambda>m. (str_field m ''list'', toStringSlice (the (map_of m ''items'')))) catalog_lists) @ default_lists)"

text \<open>The condition is a conjunction of the atoms \<open>as\<close>, and with the macros among them expanded it is
  parsed to the tree \<open>e\<close>.\<close>

definition catalog_compiles :: "string \<Rightarrow> string list \<Rightarrow> cond_expr \<Rightarrow> bool" where
  "catalog_compiles condition as e \<longleftrightarrow>
     normalizeWhitespace condition = conj_text as \<and> atoms_ok catalog_macro_table as \<and>
     parseConditionExpr catalog_list_table (conj_text (map (expand_atom catalog_macro_table) as)) = Some (Inr e)"

lemma catalog_table_ok: "table_ok catalog_macro_table"
  by code_simp

lemma catalog_compilesD:
  assumes "catalog_compiles condition as e" "\<And>k. mset (orders k) = mset catalog_macro_table"
  shows "compileCondition catalog_list_table orders condition = Some (Inr (compileExpr e)) \<and>
    compileExpr e = (\<lambda>ev. Some (holds e ev))"
proof -
  have x: "expandMacros orders (normalizeWhitespace condition) = conj_text (map (expand_atom catalog_macro_table) as)"
    using assms expandMacros_atoms[OF catalog_table_ok] by (simp add: catalog_compiles_def)
  have "parseConditionExpr catalog_list_table (expandMacros orders (normalizeWhitespace condition)) = Some (Inr e)"
    using assms(1) unfolding x by (simp add: catalog_compiles_def)
  moreover from this have "\<forall>c\<in>leaves e. values_ok c"
    using parse_leaves_ok[of catalog_list_table] by (auto simp: parseConditionExpr_def Let_def split: if_splits)
  ultimately show ?thesis
    using compileExpr_holds[of e] by (auto simp: compileCondition_def)
qed

section \<open>The rules\<close>

lemma compiles_R001: "catalog_compiles (str_field cat_rule_R001 ''condition'')
      [''setns_call'',
       ''container'']
      tree_R001"
  by code_simp

lemma compiles_R002: "catalog_compiles (str_field cat_rule_R002 ''condition'')
      [''evt.type = unshare'',
       ''container'']
      tree_R002"
  by code_simp

lemma compiles_R003: "catalog_compiles (str_field cat_rule_R003 ''condition'')
      [''evt.type = mount'',
       ''container'']
      tree_R003"
  by code_simp

lemma compiles_R004: "catalog_compiles (str_field cat_rule_R004 ''condition'')
      [''sensitive_file_read'',
       ''container'',
       ''fd.name pmatch (/var/run/docker.sock)'']
      tree_R004"
  by code_simp

lemma compiles_R005: "catalog_compiles (str_field cat_rule_R005 ''condition'')
      [''sensitive_file_read'',
       ''container'',
       ''fd.name pmatch (/proc/1, /proc/self/exe, /proc/self/fd)'']
      tree_R005"
  by code_simp

lemma compiles_R006: "catalog_compiles (str_field cat_rule_R006 ''condition'')
      [''evt.type = init_module'',
       ''container'']
      tree_R006"
  by code_simp

lemma compiles_R007: "catalog_compiles (str_field cat_rule_R007 ''condition'')
      [''evt.type = bpf'',
       ''container'']
      tree_R007"
  by code_simp

lemma compiles_R008: "catalog_compiles (str_field cat_rule_R008 ''condition'')
      [''spawned_process'',
       ''container'',
       ''miner_procs'']
      tree_R008"
  by code_simp

lemma compiles_R009: "catalog_compiles (str_field cat_rule_R009 ''condition'')
      [''net_outbound'',
       ''container'',
       ''minerpool_connection'']
      tree_R009"
  by code_simp

lemma compiles_R010: "catalog_compiles (str_field cat_rule_R010 ''condition'')
      [''spawned_process'',
       ''container'',
       ''(proc.cmdline contains stratum+tcp or proc.cmdline contains stratum2+tcp or proc.cmdline contains stratum+ssl or proc.cmdline contains stratum2+ssl)'']
      tree_R010"
  by code_simp

lemma compiles_R011: "catalog_compiles (str_field cat_rule_R011 ''condition'')
      [''net_outbound'',
       ''container'']
      tree_R011"
  by code_simp

lemma compiles_R012: "catalog_compiles (str_field cat_rule_R012 ''condition'')
      [''evt.type in (chmod, fchmodat)'',
       ''container'',
       ''evt.arg.mode contains S_ISUID'']
      tree_R012"
  by code_simp

lemma compiles_R013: "catalog_compiles (str_field cat_rule_R013 ''condition'')
      [''spawned_process'',
       ''container'']
      tree_R013"
  by code_simp

lemma compiles_R014: "catalog_compiles (str_field cat_rule_R014 ''condition'')
      [''net_outbound'',
       ''container'',
       ''shell_procs'',
       ''fd.rport not in (80, 443)'']
      tree_R014"
  by code_simp

lemma compiles_R015: "catalog_compiles (str_field cat_rule_R015 ''condition'')
      [''evt.type in (dup2, dup3)'',
       ''container'',
       ''fd.type = socket'',
       ''fd.fd in (0, 1, 2)'']
      tree_R015"
  by code_simp

lemma compiles_R016: "catalog_compiles (str_field cat_rule_R016 ''condition'')
      [''net_outbound'',
       ''container'',
       ''shell_procs'',
       ''fd.rport in (c2_ports)'']
      tree_R016"
  by code_simp

lemma compiles_R017: "catalog_compiles (str_field cat_rule_R017 ''condition'')
      [''spawned_process'',
       ''container'',
       ''(proc.cmdline contains /dev/tcp or proc.cmdline contains /dev/udp or proc.cmdline contains >&)'']
      tree_R017"
  by code_simp

lemma compiles_R018: "catalog_compiles (str_field cat_rule_R018 ''condition'')
      [''sensitive_file_read'',
       ''container'']
      tree_R018"
  by code_simp

lemma compiles_R019: "catalog_compiles (str_field cat_rule_R019 ''condition'')
      [''cloud_metadata_access'',
       ''container'']
      tree_R019"
  by code_simp

lemma compiles_R020: "catalog_compiles (str_field cat_rule_R020 ''condition'')
      [''sensitive_file_read'',
       ''container'',
       ''fd.name pmatch (/var/run/secrets/kubernetes.io/)'']
      tree_R020"
  by code_simp

lemma compiles_R021: "catalog_compiles (str_field cat_rule_R021 ''condition'')
      [''evt.type = setuid'',
       ''container'']
      tree_R021"
  by code_simp

lemma compiles_R022: "catalog_compiles (str_field cat_rule_R022 ''condition'')
      [''evt.type in (chmod, fchmodat)'',
       ''container'',
       ''(evt.arg.mode contains S_ISUID or evt.arg.mode contains S_ISGID)'']
      tree_R022"
  by code_simp

lemma compiles_R023: "catalog_compiles (str_field cat_rule_R023 ''condition'')
      [''evt.type = capset'',
       ''container'']
      tree_R023"
  by code_simp

lemma compiles_R024: "catalog_compiles (str_field cat_rule_R024 ''condition'')
      [''open_write'',
       ''container'',
       ''evt.is_open_exec'']
      tree_R024"
  by code_simp

lemma compiles_R025: "catalog_compiles (str_field cat_rule_R025 ''condition'')
      [''spawned_process'',
       ''container'',
       ''(proc.exe startswith /tmp/ or (proc.cwd startswith /tmp/ and proc.exe startswith ./))'']
      tree_R025"
  by code_simp

lemma compiles_R026: "catalog_compiles (str_field cat_rule_R026 ''condition'')
      [''evt.type = listen'',
       ''container'']
      tree_R026"
  by code_simp

lemma compiles_R027: "catalog_compiles (str_field cat_rule_R027 ''condition'')
      [''net_outbound'',
       ''container'',
       ''fd.rport in (c2_ports)'']
      tree_R027"
  by code_simp

lemma compiles_R028: "catalog_compiles (str_field cat_rule_R028 ''condition'')
      [''spawned_process'',
       ''container'']
      tree_R028"
  by code_simp

lemma compiles_R029: "catalog_compiles (str_field cat_rule_R029 ''condition'')
      [''evt.type = ptrace'',
       ''container'']
      tree_R029"
  by code_simp

lemma compiles_R030: "catalog_compiles (str_field cat_rule_R030 ''condition'')
      [''spawned_process'',
       ''container'']
      tree_R030"
  by code_simp

end
