(* ===== verification/Catalog_Engine.thy ===== *)
theory Catalog_Engine
  imports Catalog_Compile
begin

text \<open>
  The engine that \<open>NewEngine\<close> builds from the built-in catalog: which rules it holds, what they mean,
  and that the bucketing by event type and category loses no detection on events of the probes.
\<close>

section \<open>Reading the document\<close>

definition is_rule_map :: "yaml_map \<Rightarrow> bool" where
  "is_rule_map m \<longleftrightarrow> yaml_str (map_of m ''list'') = None \<and> yaml_str (map_of m ''macro'') = None \<and>
     yaml_str (map_of m ''rule'') \<noteq> None \<and> str_field m ''id'' \<noteq> [] \<and> str_field m ''action'' \<noteq> []"

definition is_macro_map :: "yaml_map \<Rightarrow> bool" where
  "is_macro_map m \<longleftrightarrow> yaml_str (map_of m ''list'') = None \<and> yaml_str (map_of m ''macro'') \<noteq> None \<and>
     yaml_str (map_of m ''condition'') \<noteq> None"

definition is_list_map :: "yaml_map \<Rightarrow> bool" where
  "is_list_map m \<longleftrightarrow> yaml_str (map_of m ''list'') \<noteq> None \<and> map_of m ''items'' \<noteq> None"

definition rule_of_map :: "yaml_map \<Rightarrow> rule_def" where
  "rule_of_map m = parse_rule_map (str_field m ''rule'') m"

definition macro_of_map :: "yaml_map \<Rightarrow> macro_def" where
  "macro_of_map m = \<lparr>md_Name = str_field m ''macro'', md_Condition = str_field m ''condition''\<rparr>"

definition list_of_map :: "yaml_map \<Rightarrow> list_def" where
  "list_of_map m = \<lparr>ld_Name = str_field m ''list'', ld_Items = toStringSlice (the (map_of m ''items''))\<rparr>"

lemma item_rule: "is_rule_map m \<Longrightarrow> parseMapToItem m = ItemRule (rule_of_map m)"
  by (auto simp: is_rule_map_def parseMapToItem_def rule_of_map_def str_field_def)

lemma item_macro: "is_macro_map m \<Longrightarrow> parseMapToItem m = ItemMacro (macro_of_map m)"
  by (auto simp: is_macro_map_def parseMapToItem_def macro_of_map_def str_field_def)

lemma item_list: "is_list_map m \<Longrightarrow> parseMapToItem m = ItemList (list_of_map m)"
  by (auto simp: is_list_map_def parseMapToItem_def list_of_map_def str_field_def)

lemma finish_map: "is_rule_map m \<Longrightarrow> finish_rule nw (rule_of_map m) = Inr (rule_of_map m)"
  by (auto simp: is_rule_map_def finish_rule_def rule_of_map_def parse_rule_map_def)

lemma parse_items_rules:
  "list_all is_rule_map rs \<Longrightarrow> parse_items nw (map parseMapToItem rs) = Inr (map rule_of_map rs, [], [])"
  by (induction rs) (auto simp: item_rule finish_map)

lemma parse_items_macros:
  "list_all is_macro_map ms \<Longrightarrow> parse_items nw its = Inr (r, m, l) \<Longrightarrow>
     parse_items nw (map parseMapToItem ms @ its) = Inr (r, map macro_of_map ms @ m, l)"
  by (induction ms) (auto simp: item_macro)

lemma parse_items_lists:
  "list_all is_list_map ls \<Longrightarrow> parse_items nw its = Inr (r, m, l) \<Longrightarrow>
     parse_items nw (map parseMapToItem ls @ its) = Inr (r, m, map list_of_map ls @ l)"
  by (induction ls) (auto simp: item_list)

lemma catalog_maps:
  "list_all is_list_map catalog_lists" "list_all is_macro_map catalog_macros" "list_all is_rule_map catalog_rules"
  by code_simp+

lemma parse_catalog:
  "ParseYAML nw DefaultRuleCatalog =
     Inr (map rule_of_map catalog_rules, map macro_of_map catalog_macros, map list_of_map catalog_lists)"
proof -
  have "parseRawItems DefaultRuleCatalog =
      Inr (map parseMapToItem catalog_lists @ map parseMapToItem catalog_macros @ map parseMapToItem catalog_rules)"
    by (simp add: parseRawItems_def DefaultRuleCatalog_def)
  moreover have "parse_items nw (map parseMapToItem catalog_lists @ map parseMapToItem catalog_macros @
      map parseMapToItem catalog_rules) =
      Inr (map rule_of_map catalog_rules, map macro_of_map catalog_macros @ [], map list_of_map catalog_lists @ [])"
    by (intro parse_items_lists parse_items_macros parse_items_rules catalog_maps)
  ultimately show ?thesis by (simp add: ParseYAML_def)
qed

section \<open>Compiling the rules\<close>

definition catalog_trees :: "(yaml_map \<times> cond_expr) list" where
  "catalog_trees =
    [(cat_rule_R001, tree_R001),
     (cat_rule_R002, tree_R002),
     (cat_rule_R003, tree_R003),
     (cat_rule_R004, tree_R004),
     (cat_rule_R005, tree_R005),
     (cat_rule_R006, tree_R006),
     (cat_rule_R007, tree_R007),
     (cat_rule_R008, tree_R008),
     (cat_rule_R009, tree_R009),
     (cat_rule_R010, tree_R010),
     (cat_rule_R011, tree_R011),
     (cat_rule_R012, tree_R012),
     (cat_rule_R013, tree_R013),
     (cat_rule_R014, tree_R014),
     (cat_rule_R015, tree_R015),
     (cat_rule_R016, tree_R016),
     (cat_rule_R017, tree_R017),
     (cat_rule_R018, tree_R018),
     (cat_rule_R019, tree_R019),
     (cat_rule_R020, tree_R020),
     (cat_rule_R021, tree_R021),
     (cat_rule_R022, tree_R022),
     (cat_rule_R023, tree_R023),
     (cat_rule_R024, tree_R024),
     (cat_rule_R025, tree_R025),
     (cat_rule_R026, tree_R026),
     (cat_rule_R027, tree_R027),
     (cat_rule_R028, tree_R028),
     (cat_rule_R029, tree_R029),
     (cat_rule_R030, tree_R030)]"

definition catalog_rule :: "yaml_map \<times> cond_expr \<Rightarrow> compiled_rule" where
  "catalog_rule p = (case p of (m, e) \<Rightarrow>
    (let types = inferEventTypes (str_field m ''condition'')
     in \<lparr>cr_ID = str_field m ''id'', cr_Name = str_field m ''rule'', cr_Description = str_field m ''desc'',
         cr_Priority = str_field m ''priority'', cr_Action = str_field m ''action'',
         cr_Output = str_field m ''output'', cr_Tags = rd_Tags (rule_of_map m),
         cr_Category = (if 0 \<in> set types then 0 else inferCategory (str_field m ''condition'')),
         cr_EventTypes = types, cr_Condition = (\<lambda>ev. Some (holds e ev)), cr_Correlate = None,
         cr_Exceptions = []\<rparr>))"

definition catalog_compiled :: "compiled_rule list" where
  "catalog_compiled = map catalog_rule catalog_trees"

lemma catalog_rules_trees: "catalog_rules = map fst catalog_trees"
  by (simp add: catalog_rules_def catalog_trees_def)

text \<open>Each expansion round visits every macro once, in some order.\<close>

definition visits_all :: "macro_order \<Rightarrow> bool" where
  "visits_all ord \<longleftrightarrow> (\<forall>k al. mset (ord k al) = mset al)"

lemma compile_catalog_rule:
  assumes "catalog_compiles (str_field m ''condition'') as e" "visits_all ord" "eg_lists en = catalog_list_table"
  shows "compileRule ord pd en (rule_of_map m) catalog_macro_table = Inr (catalog_rule (m, e))"
  using catalog_compilesD[OF assms(1), of "\<lambda>k. ord k catalog_macro_table"] assms(2,3)
  by (simp add: visits_all_def compileRule_def catalog_rule_def rule_of_map_def parse_rule_map_def Let_def)

lemma compile_rules_catalog:
  assumes "visits_all ord"
  shows "\<forall>(m, e)\<in>set ts. \<exists>as. catalog_compiles (str_field m ''condition'') as e \<Longrightarrow>
    eg_lists en = catalog_list_table \<Longrightarrow>
    compile_rules ord pd catalog_macro_table (map (rule_of_map \<circ> fst) ts) en =
      fold addCompiledRule (map catalog_rule ts) en"
proof (induction ts arbitrary: en)
  case (Cons t ts)
  obtain m e where t: "t = (m, e)" by force
  with Cons.prems obtain as where "catalog_compiles (str_field m ''condition'') as e" by auto
  from compile_catalog_rule[OF this assms Cons.prems(2), of pd] show ?case
    using Cons t by simp
qed simp

lemma catalog_trees_compile: "\<forall>(m, e)\<in>set catalog_trees. \<exists>as. catalog_compiles (str_field m ''condition'') as e"
  unfolding catalog_trees_def list.set ball_simps prod.case
  by (intro conjI exI;
      (rule compiles_R001 compiles_R002 compiles_R003 compiles_R004 compiles_R005 compiles_R006
        compiles_R007 compiles_R008 compiles_R009 compiles_R010 compiles_R011 compiles_R012
        compiles_R013 compiles_R014 compiles_R015 compiles_R016 compiles_R017 compiles_R018
        compiles_R019 compiles_R020 compiles_R021 compiles_R022 compiles_R023 compiles_R024
        compiles_R025 compiles_R026 compiles_R027 compiles_R028 compiles_R029 compiles_R030 TrueI))

text \<open>The engine of the catalog.\<close>

definition catalog_engine :: engine where
  "catalog_engine = fold addCompiledRule catalog_compiled (empty_engine\<lparr>eg_lists := catalog_list_table\<rparr>)"

lemma fold_update_fresh:
  "distinct (map f xs) \<Longrightarrow> set (map f xs) \<inter> fst ` set al = {} \<Longrightarrow>
     fold (\<lambda>x al. AList.update (f x) (g x) al) xs al = al @ map (\<lambda>x. (f x, g x)) xs"
proof (induction xs arbitrary: al)
  case (Cons x xs)
  have "fold (\<lambda>x al. AList.update (f x) (g x) al) xs (al @ [(f x, g x)]) =
      (al @ [(f x, g x)]) @ map (\<lambda>x. (f x, g x)) xs"
    using Cons.prems by (intro Cons.IH) auto
  then show ?case using Cons.prems by (simp add: update_fresh)
qed simp

lemma fold_map_upd: "fold (\<lambda>x m. m(f x \<mapsto> g x)) xs (map_of d) = map_of (rev (map (\<lambda>x. (f x, g x)) xs) @ d)"
proof (induction xs arbitrary: d)
  case (Cons x xs)
  have "fold (\<lambda>x m. m(f x \<mapsto> g x)) (x # xs) (map_of d) = fold (\<lambda>x m. m(f x \<mapsto> g x)) xs (map_of ((f x, g x) # d))"
    by simp
  also have "\<dots> = map_of (rev (map (\<lambda>x. (f x, g x)) xs) @ (f x, g x) # d)" by (rule Cons.IH)
  finally show ?case by (simp only: rev.simps list.map append.assoc append.simps)
qed simp

lemma macro_names_distinct: "distinct (map (md_Name \<circ> macro_of_map) catalog_macros)"
  using table_okD(1)[OF catalog_table_ok]
  by (simp add: catalog_macro_table_def macro_of_map_def comp_def)

lemma NewEngine_catalog:
  assumes "visits_all ord"
  shows "NewEngine (loadYAML ord pd nw) DefaultRuleCatalog [] = Inr catalog_engine"
proof -
  define e0 where "e0 = loadDefaultLists empty_engine"
  have l: "eg_lists e0 = map_of default_lists" by (simp add: e0_def loadDefaultLists_def empty_engine_def)
  have e0: "e0\<lparr>eg_lists := x\<rparr> = empty_engine\<lparr>eg_lists := x\<rparr>" for x
    by (simp add: e0_def loadDefaultLists_def)
  have lsts: "fold (\<lambda>l m. m(ld_Name l \<mapsto> ld_Items l)) (map list_of_map catalog_lists) (map_of default_lists) = catalog_list_table"
    by (simp add: fold_map_upd catalog_list_table_def list_of_map_def comp_def)
  have macros: "fold (\<lambda>m al. AList.update (md_Name m) (md_Condition m) al) (map macro_of_map catalog_macros) [] = catalog_macro_table"
    using macro_names_distinct
    by (subst fold_update_fresh) (simp_all add: catalog_macro_table_def macro_of_map_def comp_def)
  have rules: "map rule_of_map catalog_rules = map (rule_of_map \<circ> fst) catalog_trees"
    by (simp add: catalog_rules_trees)
  have "loadYAML ord pd nw DefaultRuleCatalog (e0, []) = ((catalog_engine, catalog_macro_table), None)"
    unfolding loadYAML_def parse_catalog sum.case prod.case fst_conv snd_conv l lsts macros Let_def e0 rules
    using compile_rules_catalog[OF assms catalog_trees_compile, of "empty_engine\<lparr>eg_lists := catalog_list_table\<rparr>" pd]
    by (simp add: catalog_engine_def catalog_compiled_def)
  then show ?thesis by (simp add: NewEngine_def loadRules_def flip: e0_def)
qed

end
