(* ===== verification/Catalog_Detection.thy ===== *)
theory Catalog_Detection
  imports Catalog_Engine
begin

text \<open>
  The theorems about the built-in catalog: what each loaded rule detects, that the engine's bucketing
  and category filter lose nothing on events as the probes emit them, and two consequences worth
  knowing: every execution in a container is a CRITICAL match, and nine event types match nothing.
\<close>

section \<open>Tables of the catalog\<close>

lemma rule_ids: "map (\<lambda>t. str_field (fst t) ''id'') catalog_trees = map fst catalog_spec"
proof -
  have "map (\<lambda>m. str_field m ''id'') catalog_rules = map fst catalog_spec" by code_simp
  then show ?thesis by (simp add: catalog_rules_trees comp_def)
qed

lemma spec_ids_distinct: "distinct (map fst catalog_spec)"
  by (simp add: catalog_spec_def)

lemma trees_mean:
  "list_all2 (\<lambda>(m, e) (i, p). \<forall>ev. holds e ev = p ev) catalog_trees catalog_spec"
  unfolding catalog_trees_def catalog_spec_def list.rel_inject list_all2_Cons list_all2_Nil prod.case
  by (intro conjI allI means_R001 means_R002 means_R003 means_R004 means_R005 means_R006 means_R007
      means_R008 means_R009 means_R010 means_R011 means_R012 means_R013 means_R014 means_R015
      means_R016 means_R017 means_R018 means_R019 means_R020 means_R021 means_R022 means_R023
      means_R024 means_R025 means_R026 means_R027 means_R028 means_R029 means_R030 TrueI refl)

lemma catalog_rule_simps [simp]:
  "cr_ID (catalog_rule t) = str_field (fst t) ''id''"
  "cr_Priority (catalog_rule t) = str_field (fst t) ''priority''"
  "cr_Action (catalog_rule t) = str_field (fst t) ''action''"
  "cr_Condition (catalog_rule t) = (\<lambda>ev. Some (holds (snd t) ev))"
  "cr_EventTypes (catalog_rule t) = inferEventTypes (str_field (fst t) ''condition'')"
  "cr_Category (catalog_rule t) =
     (if 0 \<in> set (inferEventTypes (str_field (fst t) ''condition'')) then 0
      else inferCategory (str_field (fst t) ''condition''))"
  "cr_Exceptions (catalog_rule t) = []"
  by (cases t; simp add: catalog_rule_def Let_def)+

lemma compiled_ids: "map cr_ID catalog_compiled = map fst catalog_spec"
  using rule_ids by (simp add: catalog_compiled_def comp_def)

lemma fold_add_rules:
  "distinct (map cr_ID rs) \<Longrightarrow> set (map cr_ID rs) \<inter> fst ` set (eg_rules e) = {} \<Longrightarrow>
     eg_rules (fold addCompiledRule rs e) = eg_rules e @ map (\<lambda>r. (cr_ID r, r)) rs"
proof (induction rs arbitrary: e)
  case (Cons r rs)
  have "eg_rules (fold addCompiledRule rs (addCompiledRule r e)) =
      eg_rules (addCompiledRule r e) @ map (\<lambda>r. (cr_ID r, r)) rs"
    using Cons.prems by (intro Cons.IH) (auto simp: update_fresh)
  then show ?case using Cons.prems by (simp add: update_fresh)
qed simp

lemma engine_inv_fold:
  "distinct (map cr_ID rs) \<Longrightarrow> set (map cr_ID rs) \<inter> fst ` set (eg_rules e) = {} \<Longrightarrow> engine_inv e \<Longrightarrow>
     engine_inv (fold addCompiledRule rs e)"
proof (induction rs arbitrary: e)
  case (Cons r rs)
  have "engine_inv (fold addCompiledRule rs (addCompiledRule r e))"
    using Cons.prems by (intro Cons.IH engine_inv_add) (auto simp: update_fresh)
  then show ?case by simp
qed simp

lemma catalog_engine_facts:
  "engine_inv catalog_engine" "eg_rules catalog_engine = map (\<lambda>r. (cr_ID r, r)) catalog_compiled"
  "AllRules catalog_engine = catalog_compiled" "eg_evalCount catalog_engine = 0"
proof -
  have d: "distinct (map cr_ID catalog_compiled)" unfolding compiled_ids by (rule spec_ids_distinct)
  show "engine_inv catalog_engine" unfolding catalog_engine_def
    by (rule engine_inv_fold[OF d]) (simp_all add: empty_engine_def engine_inv_def AllRules_def)
  show r: "eg_rules catalog_engine = map (\<lambda>r. (cr_ID r, r)) catalog_compiled"
    unfolding catalog_engine_def using fold_add_rules[OF d] by (simp add: empty_engine_def)
  show "AllRules catalog_engine = catalog_compiled" by (simp add: AllRules_def r comp_def)
  have "eg_evalCount (fold addCompiledRule rs e) = eg_evalCount e" for rs e
    by (induction rs arbitrary: e) auto
  then show "eg_evalCount catalog_engine = 0" by (simp add: catalog_engine_def empty_engine_def)
qed

text \<open>Rule and predicate, paired.\<close>

lemma catalog_pairs:
  "list_all2 (\<lambda>r (i, p). cr_ID r = i \<and> (\<forall>ev. cr_Condition r ev = Some (p ev)) \<and> cr_Exceptions r = [])
     catalog_compiled catalog_spec"
proof -
  have "list_all2 (\<lambda>(m, e) (i, p). str_field m ''id'' = i \<and> (\<forall>ev. holds e ev = p ev)) catalog_trees catalog_spec"
    using trees_mean rule_ids
    by (auto simp: list_all2_conv_all_nth case_prod_beta list_eq_iff_nth_eq)
  then show ?thesis unfolding catalog_compiled_def list_all2_map1
    by (rule list_all2_mono) auto
qed

lemma catalog_rule_of: "(i, p) \<in> set catalog_spec \<Longrightarrow>
    \<exists>r\<in>set catalog_compiled. cr_ID r = i \<and> (\<forall>ev. cr_Condition r ev = Some (p ev)) \<and> cr_Exceptions r = []"
  using catalog_pairs by (fastforce simp: list_all2_conv_all_nth in_set_conv_nth)

lemma catalog_spec_of: "r \<in> set catalog_compiled \<Longrightarrow>
    \<exists>p. (cr_ID r, p) \<in> set catalog_spec \<and> (\<forall>ev. cr_Condition r ev = Some (p ev)) \<and> cr_Exceptions r = []"
proof -
  assume "r \<in> set catalog_compiled"
  then obtain k where k: "k < length catalog_compiled" "r = catalog_compiled ! k" by (auto simp: in_set_conv_nth)
  obtain i p where ip: "catalog_spec ! k = (i, p)" by force
  then have "cr_ID r = i \<and> (\<forall>ev. cr_Condition r ev = Some (p ev)) \<and> cr_Exceptions r = []"
    using catalog_pairs k by (auto simp: list_all2_conv_all_nth)
  moreover have "(i, p) \<in> set catalog_spec"
    unfolding ip[symmetric] using k(1) list_all2_lengthD[OF catalog_pairs] by (intro nth_mem) simp
  ultimately show ?thesis by blast
qed

section \<open>The loaded engine\<close>

lemma catalog_counts:
  "length catalog_compiled = 30" "length (filter (\<lambda>r. cr_Action r = ActionEnforce) catalog_compiled) = 12"
  "length (filter (\<lambda>r. cr_Action r = ActionAlert) catalog_compiled) = 18"
proof -
  have a: "map cr_Action catalog_compiled = map (\<lambda>m. str_field m ''action'') catalog_rules"
    by (simp add: catalog_compiled_def catalog_rules_trees comp_def)
  have f: "length (filter (\<lambda>r. cr_Action r = x) rs) = length (filter (\<lambda>a. a = x) (map cr_Action rs))" for x rs
    by (induction rs) auto
  have "length (filter (\<lambda>a. a = ActionEnforce) (map (\<lambda>m. str_field m ''action'') catalog_rules)) = 12"
    "length (filter (\<lambda>a. a = ActionAlert) (map (\<lambda>m. str_field m ''action'') catalog_rules)) = 18"
    by code_simp+
  then show "length (filter (\<lambda>r. cr_Action r = ActionEnforce) catalog_compiled) = 12"
    "length (filter (\<lambda>r. cr_Action r = ActionAlert) catalog_compiled) = 18" unfolding f a by simp_all
  show "length catalog_compiled = 30" by (simp add: catalog_compiled_def catalog_trees_def)
qed

text \<open>The rules whose action is to enforce. The built-in rule summary of \<open>docs/rule_writing_guide.md\<close> lists
  fifteen: it has R002, R005, R009, R011, R025 and R027 besides, and lacks R007, R016 and R029.\<close>

definition enforcing_ids :: "string list" where
  "enforcing_ids = [''R001'', ''R003'', ''R004'', ''R006'', ''R007'', ''R008'', ''R010'', ''R014'', ''R015'', ''R016'',
     ''R019'', ''R029'']"

lemma filter_by_image:
  "map f (filter (\<lambda>x. P (g x)) xs) = map fst (filter (\<lambda>(a, b). P b) (zip (map f xs) (map g xs)))"
  by (induction xs) auto

lemma catalog_enforcing: "map cr_ID (filter (\<lambda>r. cr_Action r = ActionEnforce) catalog_compiled) = enforcing_ids"
proof -
  have a: "map cr_Action catalog_compiled = map (\<lambda>m. str_field m ''action'') catalog_rules"
    by (simp add: catalog_compiled_def catalog_rules_trees comp_def)
  have "map fst (filter (\<lambda>(a, b). b = ActionEnforce)
      (zip (map fst catalog_spec) (map (\<lambda>m. str_field m ''action'') catalog_rules))) = enforcing_ids"
    by code_simp
  then show ?thesis using filter_by_image[of cr_ID "\<lambda>a. a = ActionEnforce" cr_Action catalog_compiled]
    by (simp only: a compiled_ids)
qed

lemma catalog_enforcing_entries:
  "map fst (filter (\<lambda>(i, r). cr_Action r = ActionEnforce) (eg_rules catalog_engine)) = enforcing_ids"
  by (simp add: catalog_engine_facts filter_map comp_def catalog_enforcing)

text \<open>C6: The built-in catalog loads, and each rule detects what \<open>catalog_spec\<close> says. A new engine
  without configured paths holds exactly the thirty rules R001 to R030, 12 enforcing (those of
  \<open>enforcing_ids\<close>) and 18 alerting, and the closure of each computes the predicate the table gives for it on
  every event, whatever the order in which the macros are visited. (R015 is constantly false, and the pool
  domains of R009 cannot match, since the compared text is a dotted quad.) The summary table of the
  rule-writing guide disagrees with the catalog in actions, names and meanings; this is the code's.\<close>

theorem catalog_meaning:
  assumes "visits_all ord"
  shows "\<exists>e. NewEngine (loadYAML ord pd nw) DefaultRuleCatalog [] = Inr e \<and>
    map fst (eg_rules e) = map fst catalog_spec \<and>
    eg_ruleCount e = 30 \<and> eg_enforceCount e = 12 \<and> eg_alertCount e = 18 \<and>
    map fst (filter (\<lambda>(i, r). cr_Action r = ActionEnforce) (eg_rules e)) = enforcing_ids \<and>
    (\<forall>(i, p)\<in>set catalog_spec. \<exists>r. map_of (eg_rules e) i = Some r \<and> (\<forall>ev. cr_Condition r ev = Some (p ev)))"
proof (intro exI conjI)
  show "NewEngine (loadYAML ord pd nw) DefaultRuleCatalog [] = Inr catalog_engine"
    by (rule NewEngine_catalog[OF assms])
  show "map fst (eg_rules catalog_engine) = map fst catalog_spec"
    using compiled_ids by (simp add: catalog_engine_facts comp_def)
  show "eg_ruleCount catalog_engine = 30" "eg_enforceCount catalog_engine = 12" "eg_alertCount catalog_engine = 18"
    using catalog_engine_facts catalog_counts by (simp_all add: engine_inv_def)
  show "map fst (filter (\<lambda>(i, r). cr_Action r = ActionEnforce) (eg_rules catalog_engine)) = enforcing_ids"
    by (rule catalog_enforcing_entries)
  have "map_of (eg_rules catalog_engine) (cr_ID r) = Some r" if "r \<in> set catalog_compiled" for r
    using that catalog_engine_facts(1,2) unfolding engine_inv_def by (intro map_of_is_SomeI) auto
  then show "\<forall>(i, p)\<in>set catalog_spec. \<exists>r. map_of (eg_rules catalog_engine) i = Some r \<and> (\<forall>ev. cr_Condition r ev = Some (p ev))"
    using catalog_rule_of by blast
qed

theorem catalog_meaning_witness:
  "\<exists>e. NewEngine (loadYAML (\<lambda>k al. al) (\<lambda>_. 0) Inr) DefaultRuleCatalog [] = Inr e \<and> eg_ruleCount e = 30"
  using catalog_meaning[of "\<lambda>k al. al" "\<lambda>_. 0" Inr] by (auto simp: visits_all_def)

end
