(* ===== verification/Exceptions.thy ===== *)
theory Exceptions
  imports Engine_Facts
begin

text \<open>
  \<open>pkg/pipeline/exceptions.go\<close>: the exception evaluator of the pipeline, its own comparison loops and
  the policy evaluator that stands in for OPA; and the comparison of this evaluator with the one
  inside the rule engine, which is meant to decide the same question.
\<close>

section \<open>Comparison\<close>

text \<open>\<open>item\<close> is the text since the last comma, in reverse.\<close>

fun listContains_loop :: "string \<Rightarrow> string \<Rightarrow> string \<Rightarrow> bool" where
  "listContains_loop item [] value \<longleftrightarrow> rev item = value"
| "listContains_loop item (c # cs) value \<longleftrightarrow>
     (if c = CHR '','' then (if rev item = value then True else listContains_loop [] cs value)
      else listContains_loop (c # item) cs value)"

definition listContains :: "string \<Rightarrow> string \<Rightarrow> bool" where
  "listContains list value = listContains_loop [] list value"

fun containsSubstring_loop :: "nat \<Rightarrow> string \<Rightarrow> string \<Rightarrow> bool" where
  "containsSubstring_loop 0 s substr = False"
| "containsSubstring_loop (Suc n) s substr =
     (if take (length substr) s = substr then True else containsSubstring_loop n (tl s) substr)"

text \<open>\<open>i <= len(value) - len(substr)\<close> in signed arithmetic: no iteration when the pattern is longer.\<close>

definition containsSubstring :: "string \<Rightarrow> string \<Rightarrow> bool" where
  "containsSubstring s substr = containsSubstring_loop (nat (int (length s) - int (length substr) + 1)) s substr"

definition pl_matchField :: "string \<Rightarrow> string \<Rightarrow> string \<Rightarrow> bool" where
  "pl_matchField cmp eventValue expectedValue =
    (if cmp = ''='' \<or> cmp = ''equals'' then eventValue = expectedValue
     else if cmp = ''!='' \<or> cmp = ''not_equals'' then eventValue \<noteq> expectedValue
     else if cmp = ''in'' then listContains expectedValue eventValue
     else if cmp = ''contains'' then containsSubstring eventValue expectedValue
     else if cmp = ''startswith'' then
       length eventValue \<ge> length expectedValue \<and> take (length expectedValue) eventValue = expectedValue
     else if cmp = ''endswith'' then
       length eventValue \<ge> length expectedValue \<and>
       drop (length eventValue - length expectedValue) eventValue = expectedValue
     else eventValue = expectedValue)"

definition pl_resolveEventField :: "string \<Rightarrow> enriched_for_rule \<Rightarrow> string" where
  "pl_resolveEventField field event =
    (let ev = er_Event event in
     if field \<in> set [''container.image.repository'', ''container.image''] then er_ContainerImage event
     else if field = ''container.name'' then er_ContainerName event
     else if field = ''container.id'' then er_ContainerID event
     else if field = ''proc.name'' then CommString ev
     else if field = ''proc.cmdline'' then Args ev
     else if field = ''proc.exe'' then Filename ev
     else if field = ''namespace'' then er_Namespace event
     else if field = ''pod.name'' then er_PodName event
     else if field \<in> set [''serviceaccount'', ''sa''] then er_ServiceAccount event
     else if field = ''fd.name'' then FilePath ev
     else if field = ''fd.rip'' then RemoteIP ev
     else if field = ''fd.rport'' then show_word (RemotePort ev)
     else [])"

fun pl_matchValueRow :: "string list \<Rightarrow> string list \<Rightarrow> string list \<Rightarrow> enriched_for_rule \<Rightarrow> bool" where
  "pl_matchValueRow [] comps vals event = True"
| "pl_matchValueRow (field # fds) comps [] event = False"
| "pl_matchValueRow (field # fds) comps (v # vals) event =
     (if \<not> pl_matchField (pick_comp comps) (pl_resolveEventField field event) v then False
      else pl_matchValueRow fds (tl comps) vals event)"

definition pl_matchException :: "exception_rec \<Rightarrow> enriched_for_rule \<Rightarrow> bool" where
  "pl_matchException exc event =
     list_ex (\<lambda>row. pl_matchValueRow (xc_Fields exc) (xc_Comps exc) row event) (xc_Values exc)"

section \<open>The policy evaluator and the evaluator\<close>

record opa_evaluator =
  opa_policies :: "string \<rightharpoonup> string"
  opa_enabled :: bool

definition NewOPAEvaluator :: opa_evaluator where
  "NewOPAEvaluator = \<lparr>opa_policies = Map.empty, opa_enabled = True\<rparr>"

definition AddPolicy :: "string \<Rightarrow> string \<Rightarrow> opa_evaluator \<Rightarrow> opa_evaluator" where
  "AddPolicy ruleID regoQuery o' = o'\<lparr>opa_policies := (opa_policies o')(ruleID \<mapsto> regoQuery)\<rparr>"

definition RemovePolicy :: "string \<Rightarrow> opa_evaluator \<Rightarrow> opa_evaluator" where
  "RemovePolicy ruleID o' = o'\<lparr>opa_policies := (opa_policies o')(ruleID := None)\<rparr>"

definition HasPolicy :: "string \<Rightarrow> opa_evaluator \<Rightarrow> bool" where
  "HasPolicy ruleID o' \<longleftrightarrow> opa_policies o' ruleID \<noteq> None"

text \<open>Registered policies are not evaluated: the placeholder after the lookup returns false.\<close>

definition opa_Evaluate :: "string \<Rightarrow> opa_evaluator \<Rightarrow> bool" where
  "opa_Evaluate ruleID o' =
    (if \<not> opa_enabled o' then False
     else if opa_policies o' ruleID = None then False
     else False)"

definition EvaluateException :: "opa_evaluator option \<Rightarrow> compiled_rule \<Rightarrow> enriched_for_rule \<Rightarrow> bool" where
  "EvaluateException opa rule event =
    (if list_ex (\<lambda>exc. pl_matchException exc event) (cr_Exceptions rule) then True
     else (case opa of
             None \<Rightarrow> False
           | Some o' \<Rightarrow> if opa_Evaluate (cr_ID rule) o' then True else False))"

section \<open>The loops\<close>

lemma listContains_loop_split:
  "listContains_loop item cs v \<longleftrightarrow>
     v \<in> set ((rev item @ hd (split_on (CHR '','') cs)) # tl (split_on (CHR '','') cs))"
proof (induction item cs v rule: listContains_loop.induct)
  case (2 item c cs v)
  show ?case
  proof (cases "c = CHR '',''")
    case True
    with 2(1) show ?thesis by (cases "split_on (CHR '','') cs") auto
  next
    case False
    then show ?thesis using 2(2)[OF False]
      by (simp only: listContains_loop.simps if_False split_on_simps2 list.sel simp_thms) simp
  qed
qed auto

lemma listContains_iff: "listContains list v \<longleftrightarrow> v \<in> set (split_on (CHR '','') list)"
  by (cases "split_on (CHR '','') list") (auto simp: listContains_def listContains_loop_split)

lemma containsSubstring_loop_iff:
  "n + length substr = length s + 1 \<Longrightarrow> containsSubstring_loop n s substr \<longleftrightarrow> str_contains s substr"
proof (induction n s substr rule: containsSubstring_loop.induct)
  case (1 s substr)
  then have "\<not> str_contains s substr" by (auto simp: str_contains_iff)
  then show ?case by simp
next
  case (2 n s substr)
  show ?case
  proof (cases s)
    case Nil
    with 2(2) have "substr = []" by simp
    then show ?thesis by (simp add: Nil)
  next
    case (Cons c cs)
    with 2 show ?thesis by (auto simp: has_prefix_def)
  qed
qed

lemma containsSubstring_iff: "containsSubstring s substr \<longleftrightarrow> str_contains s substr"
proof (cases "length substr \<le> length s")
  case True
  then show ?thesis unfolding containsSubstring_def by (intro containsSubstring_loop_iff) linarith
next
  case False
  then have "\<not> str_contains s substr" by (auto simp: str_contains_iff)
  with False show ?thesis by (simp add: containsSubstring_def)
qed

section \<open>Two evaluators\<close>

text \<open>An exception on which the two agree: no \<open>endswith\<close>, and no blank around the items of an \<open>in\<close>.\<close>

definition tidy_list :: "string \<Rightarrow> bool" where
  "tidy_list v \<longleftrightarrow> list_all (\<lambda>item. trim_space item = item) (split_on (CHR '','') v)"

definition common_exception :: "exception_rec \<Rightarrow> bool" where
  "common_exception exc \<longleftrightarrow> ''endswith'' \<notin> set (xc_Comps exc) \<and>
     (''in'' \<in> set (xc_Comps exc) \<longrightarrow> list_all (list_all tidy_list) (xc_Values exc))"

lemma resolve_same: "pl_resolveEventField field event = resolveEventField field event"
  by (simp add: pl_resolveEventField_def resolveEventField_def Let_def)

lemma engineListContains_tidy: "tidy_list l \<Longrightarrow> engineListContains l v \<longleftrightarrow> listContains l v"
  by (auto simp: tidy_list_def engineListContains_def listContains_iff list_all_iff list_ex_iff)

lemma matchField_same:
  "cmp \<noteq> ''endswith'' \<Longrightarrow> (cmp = ''in'' \<Longrightarrow> tidy_list v) \<Longrightarrow> pl_matchField cmp x v = matchField cmp x v"
  by (auto simp: pl_matchField_def matchField_def engineListContains_tidy containsSubstring_iff has_prefix_def)

lemma matchValueRow_same:
  "''endswith'' \<notin> set comps \<Longrightarrow> (''in'' \<in> set comps \<Longrightarrow> list_all tidy_list vals) \<Longrightarrow>
     pl_matchValueRow fds comps vals event = matchValueRow fds comps vals event"
proof (induction fds comps vals event rule: pl_matchValueRow.induct)
  case (3 field fds comps v vals event)
  have p: "pick_comp comps = ''='' \<or> pick_comp comps \<in> set comps"
    by (cases comps) (auto simp: pick_comp_def)
  then have "pl_matchField (pick_comp comps) (resolveEventField field event) v =
      matchField (pick_comp comps) (resolveEventField field event) v"
    using 3(2,3) by (intro matchField_same) auto
  moreover have "set (tl comps) \<subseteq> set comps" by (cases comps) auto
  ultimately show ?case using 3 by (auto simp: resolve_same)
qed simp_all

text \<open>The two exception evaluators agree on common exceptions. For every rule whose exceptions
  use no \<open>endswith\<close> and whose \<open>in\<close> lists have no blanks around their items, the pipeline's
  evaluator, with or without policies, suppresses exactly what the engine's does.\<close>

theorem evaluators_agree:
  assumes "list_all common_exception (cr_Exceptions rule)"
  shows "EvaluateException opa rule event = matchException rule event"
proof -
  have "pl_matchException exc event = evaluateException exc event" if "common_exception exc" for exc
    using that unfolding pl_matchException_def evaluateException_def common_exception_def
    by (auto simp: list_ex_iff list_all_iff intro!: bex_cong matchValueRow_same)
  then show ?thesis using assms
    by (auto simp: EvaluateException_def matchException_def opa_Evaluate_def list_ex_iff list_all_iff
        split: option.splits)
qed

theorem evaluators_agree_witness:
  "EvaluateException None (demo_rule ''A'' ''WARNING'') demo_event = False \<and>
   matchException (demo_rule ''A'' ''WARNING'') demo_event = False"
proof -
  have "list_all common_exception (cr_Exceptions (demo_rule ''A'' ''WARNING''))"
    by (simp add: demo_rule_def common_exception_def)
  moreover have "matchException (demo_rule ''A'' ''WARNING'') demo_event = False"
    by (simp add: matchException_def demo_rule_def evaluateException_def resolveEventField_def
        CommString_def demo_event_def zero_event_def matchField_def pick_comp_def)
  ultimately show ?thesis using evaluators_agree[of "demo_rule ''A'' ''WARNING''" None demo_event] by simp
qed

text \<open>Where the two evaluators differ. A blank after a comma in an \<open>in\<close> list, and every use of
  \<open>endswith\<close>, is judged differently: the pipeline does not trim list items, and the engine compares
  for equality under a comparator it does not know.\<close>

theorem evaluators_differ:
  "matchField ''in'' ''sh'' ''bash, sh'' \<and> \<not> pl_matchField ''in'' ''sh'' ''bash, sh'' \<and>
   pl_matchField ''endswith'' ''/usr/bin/sh'' ''/sh'' \<and> \<not> matchField ''endswith'' ''/usr/bin/sh'' ''/sh''"
  by code_simp

section \<open>What an exception means\<close>

definition row_matches :: "string list \<Rightarrow> string list \<Rightarrow> string list \<Rightarrow> enriched_for_rule \<Rightarrow> bool" where
  "row_matches fds comps vals event \<longleftrightarrow> length fds \<le> length vals \<and>
     (\<forall>i<length fds. matchField (if i < length comps \<and> comps ! i \<noteq> [] then comps ! i else ''='')
        (resolveEventField (fds ! i) event) (vals ! i))"

lemma matchValueRow_iff: "matchValueRow fds comps vals event \<longleftrightarrow> row_matches fds comps vals event"
proof (induction fds comps vals event rule: matchValueRow.induct)
  case (3 field fds comps v vals event)
  have "row_matches (field # fds) comps (v # vals) event \<longleftrightarrow>
      matchField (pick_comp comps) (resolveEventField field event) v \<and> row_matches fds (tl comps) vals event"
    unfolding row_matches_def by (cases comps) (auto simp: All_less_Suc2 pick_comp_def)
  with 3 show ?case by simp
qed (auto simp: row_matches_def)

text \<open>C21: An exception is Falco's: a rule match is suppressed exactly when some value row of some
  exception has a value for every field and every field compares as its comparator (or equality,
  when none is given) says. The action of the rule plays no part: rules that enforce are suppressed too,
  although \<open>docs/rule_writing_guide.md\<close> says that they cannot be bypassed.\<close>

theorem exception_meaning:
  "matchException (rule\<lparr>cr_Action := action\<rparr>) event \<longleftrightarrow>
     (\<exists>exc\<in>set (cr_Exceptions rule). \<exists>row\<in>set (xc_Values exc).
        row_matches (xc_Fields exc) (xc_Comps exc) row event)"
  by (simp add: matchException_def evaluateException_def list_ex_iff matchValueRow_iff)

end
