(* ===== verification/Alert.thy ===== *)
theory Alert
  imports Engine_Facts Complex_Main
begin

text \<open>
  \<open>pkg/output/alert.go\<close>: the alert record and its two emitters. A \<open>float64\<close> is a \<open>real\<close>; rounding,
  NaN and the infinities are not modelled. A time is the number of nanoseconds since Go's zero time,
  so \<open>IsZero\<close> compares with 0. JSON encoding and the file writes are outside the repository: the
  encoder is a parameter and the outcome of a write is an argument.
\<close>

section \<open>The alert record\<close>

definition OutActionAlert :: string where "OutActionAlert = ''alert''"
definition OutActionEnforce :: string where "OutActionEnforce = ''enforce''"
definition OutActionSimulated :: string where "OutActionSimulated = ''simulate''"

lemmas out_action_defs = OutActionAlert_def OutActionEnforce_def OutActionSimulated_def

record enforcement_alert =
  ea_Action :: string
  ea_Signal :: string
  ea_TargetPID :: u32
  ea_Success :: bool
  ea_Reason :: string
  ea_LatencyUS :: int
  ea_RuleID :: string

record correlation_alert =
  ca_RuleID :: string
  ca_GroupKey :: string
  ca_MatchedSignals :: nat
  ca_WindowStart :: time
  ca_WindowEnd :: time
  ca_Description :: string

record alert =
  al_Timestamp :: time
  al_RuleID :: string
  al_RuleName :: string
  al_Priority :: string
  al_Action :: string
  al_Output :: string
  al_ProcessName :: string
  al_PID :: u32
  al_PPID :: u32
  al_UID :: u32
  al_GID :: u32
  al_Category :: string
  al_EventType :: string
  al_ContainerID :: string
  al_ContainerName :: string
  al_ContainerImage :: string
  al_PodName :: string
  al_Namespace :: string
  al_ServiceAccount :: string
  al_NodeName :: string
  al_Tags :: "string list"
  al_Simulated :: bool
  al_EnforcementResult :: "enforcement_alert option"
  al_CorrelationResult :: "correlation_alert option"
  al_EventCount :: u64
  al_Coalesced :: bool
  al_Filename :: string
  al_CmdLine :: string
  al_FilePath :: string
  al_FileFlags :: u32
  al_FileMode :: u32
  al_RemoteIP :: string
  al_RemotePort :: u16
  al_LocalIP :: string
  al_LocalPort :: u16
  al_NSType :: u32
  al_OldUID :: u32
  al_NewUID :: u32
  al_Capability :: u32
  al_ModeFlags :: u32
  al_AnomalyScore :: real

text \<open>The zero value of the struct: what a composite literal leaves out.\<close>

definition zero_alert :: alert where
  "zero_alert =
    \<lparr>al_Timestamp = 0, al_RuleID = [], al_RuleName = [], al_Priority = [], al_Action = [],
     al_Output = [], al_ProcessName = [], al_PID = 0, al_PPID = 0, al_UID = 0, al_GID = 0,
     al_Category = [], al_EventType = [], al_ContainerID = [], al_ContainerName = [],
     al_ContainerImage = [], al_PodName = [], al_Namespace = [], al_ServiceAccount = [],
     al_NodeName = [], al_Tags = [], al_Simulated = False, al_EnforcementResult = None,
     al_CorrelationResult = None, al_EventCount = 0, al_Coalesced = False, al_Filename = [],
     al_CmdLine = [], al_FilePath = [], al_FileFlags = 0, al_FileMode = 0, al_RemoteIP = [],
     al_RemotePort = 0, al_LocalIP = [], al_LocalPort = 0, al_NSType = 0, al_OldUID = 0,
     al_NewUID = 0, al_Capability = 0, al_ModeFlags = 0, al_AnomalyScore = 0\<rparr>"

section \<open>The alert emitter\<close>

text \<open>\<open>AlertEmitter\<close>: the lines of the alert file (absent when none is open), the alerts printed
  instead, the alerts handed to the webhook goroutine and whether a webhook is configured.\<close>

record alert_emitter =
  em_file :: "string list option"
  em_stdout :: "string list"
  em_hooks :: "alert list"
  em_webhook :: bool
  em_count :: u64

type_synonym json_encoder = "alert \<Rightarrow> string option"

definition stamp :: "time \<Rightarrow> alert \<Rightarrow> alert" where
  "stamp now a = (if al_Timestamp a = 0 then a\<lparr>al_Timestamp := now\<rparr> else a)"

text \<open>\<open>Emit\<close>; \<open>written\<close> is the outcome of the file write.\<close>

definition em_Emit :: "json_encoder \<Rightarrow> bool \<Rightarrow> time \<Rightarrow> alert \<Rightarrow> alert_emitter \<Rightarrow> alert_emitter" where
  "em_Emit marshal written now a e =
    (let e = e\<lparr>em_count := em_count e + 1\<rparr>; a = stamp now a in
     case marshal a of
       None \<Rightarrow> e
     | Some data \<Rightarrow>
         (let e = (case em_file e of
                     Some lines \<Rightarrow> if written then e\<lparr>em_file := Some (lines @ [data])\<rparr> else e
                   | None \<Rightarrow> e\<lparr>em_stdout := em_stdout e @ [data]\<rparr>)
          in if em_webhook e then e\<lparr>em_hooks := em_hooks e @ [a]\<rparr> else e))"

text \<open>The directory part that \<open>NewAlertEmitter\<close> creates.\<close>

fun lastIndex_from :: "string \<Rightarrow> char \<Rightarrow> nat \<Rightarrow> int" where
  "lastIndex_from s c 0 = -1"
| "lastIndex_from s c (Suc i) = (if s ! i = c then int i else lastIndex_from s c i)"

definition lastIndex :: "string \<Rightarrow> char \<Rightarrow> int" where
  "lastIndex s c = lastIndex_from s c (length s)"

definition alert_dir :: "string \<Rightarrow> string" where
  "alert_dir path =
    (let lastSlash = lastIndex path CHR ''/'' in if 0 \<le> lastSlash then take (nat lastSlash) path else [])"

text \<open>\<open>NewAlertEmitter\<close>; \<open>mkdir\<close> and \<open>open_ok\<close> are the answers of the file system, \<open>old\<close> the lines
  the file had (it is opened for appending).\<close>

definition NewAlertEmitter ::
    "(string \<Rightarrow> bool) \<Rightarrow> (string \<Rightarrow> bool) \<Rightarrow> string list \<Rightarrow> string \<Rightarrow> bool \<Rightarrow> string + alert_emitter" where
  "NewAlertEmitter mkdir open_ok old path hook =
    (let e = \<lparr>em_file = None, em_stdout = [], em_hooks = [], em_webhook = hook, em_count = 0\<rparr> in
     if path \<noteq> [] then
       if alert_dir path \<noteq> [] \<and> \<not> mkdir (alert_dir path)
       then Inl (''failed to create alert directory '' @ alert_dir path)
       else if open_ok path then Inr (e\<lparr>em_file := Some old\<rparr>) else Inr e
     else Inr e)"

section \<open>The test emitter\<close>

record test_emitter =
  te_alerts :: "alert list"

definition NewAlertEmitterForTest :: test_emitter where
  "NewAlertEmitterForTest = \<lparr>te_alerts = []\<rparr>"

definition te_Emit :: "alert \<Rightarrow> test_emitter \<Rightarrow> test_emitter" where
  "te_Emit a t = t\<lparr>te_alerts := te_alerts t @ [a]\<rparr>"

definition te_Count :: "test_emitter \<Rightarrow> u64" where
  "te_Count t = word_of_nat (length (te_alerts t))"

definition te_LastAlert :: "test_emitter \<Rightarrow> alert option" where
  "te_LastAlert t = (if te_alerts t = [] then None else Some (te_alerts t ! (length (te_alerts t) - 1)))"

section \<open>The sink interface\<close>

text \<open>What the pipeline relies on when it hands an alert to an emitter: the alert is delivered at
  the end of what was delivered before, whole except for the timestamp of an unstamped alert, and the
  counter of the sink counts the calls.\<close>

locale alert_sink =
  fixes emit :: "time \<Rightarrow> alert \<Rightarrow> 's \<Rightarrow> 's"
    and delivered :: "'s \<Rightarrow> 'd list"
    and encode :: "alert \<Rightarrow> 'd"
    and counted :: "'s \<Rightarrow> u64"
    and good :: "'s \<Rightarrow> bool"
  assumes good_emit: "good s \<Longrightarrow> good (emit t a s)"
    and delivered_emit: "good s \<Longrightarrow> al_Timestamp a \<noteq> 0 \<Longrightarrow> delivered (emit t a s) = delivered s @ [encode a]"
    and counted_emit: "good s \<Longrightarrow> counted (emit t a s) = counted s + 1"
begin

lemma good_fold: "good s \<Longrightarrow> good (fold (\<lambda>(t, a). emit t a) tas s)"
  by (induction tas arbitrary: s) (auto intro: good_emit)

lemma delivered_fold:
  "good s \<Longrightarrow> \<forall>(t, a)\<in>set tas. al_Timestamp a \<noteq> 0 \<Longrightarrow>
     delivered (fold (\<lambda>(t, a). emit t a) tas s) = delivered s @ map (encode \<circ> snd) tas"
  by (induction tas arbitrary: s) (auto simp: delivered_emit good_emit)

lemma counted_fold: "good s \<Longrightarrow> counted (fold (\<lambda>(t, a). emit t a) tas s) = counted s + word_of_nat (length tas)"
  by (induction tas arbitrary: s) (auto simp: counted_emit good_emit)

end

text \<open>The file emitter, while writes succeed and every alert has an encoding.\<close>

interpretation file_sink: alert_sink "em_Emit (Some \<circ> enc) True" "the \<circ> em_file" enc em_count "\<lambda>e. em_file e \<noteq> None" for enc
  by unfold_locales (auto simp: em_Emit_def stamp_def Let_def split: option.splits)

interpretation test_sink: alert_sink "\<lambda>_. te_Emit" te_alerts "\<lambda>a. a" te_Count "\<lambda>_. True"
  by unfold_locales (auto simp: te_Emit_def te_Count_def)

lemma lastIndex_from_spec:
  "lastIndex_from s c n = -1 \<and> (\<forall>i<n. s ! i \<noteq> c) \<or>
   (\<exists>i<n. lastIndex_from s c n = int i \<and> s ! i = c \<and> (\<forall>j. i < j \<and> j < n \<longrightarrow> s ! j \<noteq> c))"
proof (induction n)
  case (Suc n)
  then show ?case using less_Suc_eq by auto
qed simp

lemma emit_file_lines:
  "em_file e = Some old \<Longrightarrow> \<forall>(t, a)\<in>set tas. al_Timestamp a \<noteq> 0 \<Longrightarrow>
     the (em_file (fold (\<lambda>(t, a). em_Emit (Some \<circ> enc) True t a) tas e)) = old @ map (enc \<circ> snd) tas"
  using file_sink.delivered_fold[of e tas enc] by simp

end
