(* ===== verification/Rate_Limiter.thy ===== *)
theory Rate_Limiter
  imports Alert
begin

text \<open>
  The per-pod rate limiter of \<open>pkg/pipeline/response.go\<close>: a fixed window per key, opened by the first
  call and reopened by the first call after its end, and a periodic sweep of ended windows. The main
  theorem bounds what the limiter grants in any interval of the window's length.
\<close>

record rate_counter =
  rc_count :: int
  rc_resetAt :: time

record rate_limiter =
  rl_maxPerWindow :: int
  rl_window :: duration
  rl_counters :: "string \<rightharpoonup> rate_counter"
  rl_stopped :: bool

definition NewRateLimiter :: "int \<Rightarrow> duration \<Rightarrow> rate_limiter" where
  "NewRateLimiter mx window =
    \<lparr>rl_maxPerWindow = mx, rl_window = window, rl_counters = Map.empty, rl_stopped = False\<rparr>"

text \<open>\<open>Allow\<close>, at the time \<open>now\<close>. The counter is shared by pointer; it is written back here.\<close>

definition Allow :: "time \<Rightarrow> string \<Rightarrow> rate_limiter \<Rightarrow> bool \<times> rate_limiter" where
  "Allow now key rl =
    (let fresh = (True, rl\<lparr>rl_counters := (rl_counters rl)(key \<mapsto>
                    \<lparr>rc_count = 1, rc_resetAt = now + rl_window rl\<rparr>)\<rparr>) in
     case rl_counters rl key of
       None \<Rightarrow> fresh
     | Some counter \<Rightarrow>
         if rc_resetAt counter < now then fresh
         else if rl_maxPerWindow rl \<le> rc_count counter then (False, rl)
         else (True, rl\<lparr>rl_counters := (rl_counters rl)(key \<mapsto> counter\<lparr>rc_count := rc_count counter + 1\<rparr>)\<rparr>))"

text \<open>One tick of \<open>cleanup\<close>; after \<open>Close\<close> the goroutine has ended.\<close>

definition cleanup_tick :: "time \<Rightarrow> rate_limiter \<Rightarrow> rate_limiter" where
  "cleanup_tick now rl =
    (if rl_stopped rl then rl
     else rl\<lparr>rl_counters := (\<lambda>key. case rl_counters rl key of
              None \<Rightarrow> None
            | Some counter \<Rightarrow> if rc_resetAt counter < now then None else Some counter)\<rparr>)"

definition Close :: "rate_limiter \<Rightarrow> rate_limiter" where
  "Close rl = (if rl_stopped rl then rl else rl\<lparr>rl_stopped := True\<rparr>)"

lemma Allow_conf [simp]:
  "rl_maxPerWindow (snd (Allow now key rl)) = rl_maxPerWindow rl"
  "rl_window (snd (Allow now key rl)) = rl_window rl"
  "rl_stopped (snd (Allow now key rl)) = rl_stopped rl"
  by (auto simp: Allow_def Let_def split: option.splits)

lemma Allow_other: "k \<noteq> key \<Longrightarrow> rl_counters (snd (Allow now key rl)) k = rl_counters rl k"
  by (auto simp: Allow_def Let_def split: option.splits)

lemma cleanup_conf [simp]:
  "rl_maxPerWindow (cleanup_tick now rl) = rl_maxPerWindow rl"
  "rl_window (cleanup_tick now rl) = rl_window rl"
  by (auto simp: cleanup_tick_def)

section \<open>A run of the limiter\<close>

datatype limiter_op = LCall time string | LSweep time

fun op_time :: "limiter_op \<Rightarrow> time" where
  "op_time (LCall t k) = t"
| "op_time (LSweep t) = t"

text \<open>The granted calls of a run, in order.\<close>

fun limiter_run :: "limiter_op list \<Rightarrow> rate_limiter \<Rightarrow> (time \<times> string) list \<times> rate_limiter" where
  "limiter_run [] rl = ([], rl)"
| "limiter_run (LCall t k # ops) rl =
     (let (ok, rl) = Allow t k rl; (gs, rl) = limiter_run ops rl
      in (if ok then (t, k) # gs else gs, rl))"
| "limiter_run (LSweep t # ops) rl = limiter_run ops (cleanup_tick t rl)"

definition in_span :: "duration \<Rightarrow> time \<Rightarrow> time list \<Rightarrow> int" where
  "in_span w t0 G = int (length (filter (\<lambda>t. t0 \<le> t \<and> t \<le> t0 + w) G))"

definition since :: "time \<Rightarrow> time list \<Rightarrow> int" where
  "since t0 G = int (length (filter (\<lambda>t. t0 \<le> t) G))"

text \<open>\<open>G\<close> are the grants of one key so far and \<open>c\<close> its counter, at time \<open>T\<close>: no interval of
  length \<open>w\<close> holds more than twice the maximum, and what a new window could overlap is one window.\<close>

definition budget_inv :: "int \<Rightarrow> duration \<Rightarrow> time \<Rightarrow> time list \<Rightarrow> rate_counter option \<Rightarrow> bool" where
  "budget_inv mx w T G c \<longleftrightarrow> (\<forall>t0. in_span w t0 G \<le> 2 * mx) \<and>
    (case c of
       None \<Rightarrow> (\<forall>g\<in>set G. g < T) \<and> (\<forall>t0. T - w \<le> t0 \<longrightarrow> since t0 G \<le> mx)
     | Some c \<Rightarrow> rc_resetAt c - w \<le> T \<and> (\<exists>A B. G = A @ B \<and> int (length B) = rc_count c \<and> rc_count c \<le> mx \<and>
         (\<forall>b\<in>set B. rc_resetAt c - w \<le> b \<and> b \<le> rc_resetAt c) \<and> (\<forall>a\<in>set A. a < rc_resetAt c - w) \<and>
         (\<forall>t0. rc_resetAt c - 2 * w \<le> t0 \<longrightarrow> since t0 A \<le> mx)))"

lemma in_span_append [simp]: "in_span w t0 (A @ B) = in_span w t0 A + in_span w t0 B"
  by (simp add: in_span_def)

lemma since_append [simp]: "since t0 (A @ B) = since t0 A + since t0 B"
  by (simp add: since_def)

lemma in_span_le_since: "in_span w t0 G \<le> since t0 G"
  unfolding in_span_def since_def by (induction G) auto

lemma in_span_le_length: "in_span w t0 G \<le> int (length G)"
  by (simp add: in_span_def)

lemma since_le_length: "since t0 G \<le> int (length G)"
  by (simp add: since_def)

lemma since_none: "\<forall>a\<in>set A. a < t0 \<Longrightarrow> since t0 A = 0"
  by (auto simp: since_def filter_empty_conv)

lemma in_span_none: "\<forall>b\<in>set B. t0 + w < b \<Longrightarrow> in_span w t0 B = 0"
  by (auto simp: in_span_def filter_empty_conv)

lemma budget_inv_SomeI:
  assumes "\<forall>t0. in_span w t0 G \<le> 2 * mx" "rc_resetAt c - w \<le> T" "G = A @ B"
    "int (length B) = rc_count c" "rc_count c \<le> mx"
    "\<forall>b\<in>set B. rc_resetAt c - w \<le> b \<and> b \<le> rc_resetAt c" "\<forall>a\<in>set A. a < rc_resetAt c - w"
    "\<forall>t0. rc_resetAt c - 2 * w \<le> t0 \<longrightarrow> since t0 A \<le> mx"
  shows "budget_inv mx w T G (Some c)"
  using assms unfolding budget_inv_def option.case by blast

text \<open>Opening a window at \<open>now\<close>, when what precedes it is one window at most.\<close>

lemma budget_open:
  assumes w: "0 < w" "1 \<le> mx" and G: "\<forall>t0. in_span w t0 G \<le> 2 * mx" "\<forall>g\<in>set G. g < now"
    "\<forall>t0. now - w \<le> t0 \<longrightarrow> since t0 G \<le> mx"
  shows "budget_inv mx w now (G @ [now]) (Some \<lparr>rc_count = 1, rc_resetAt = now + w\<rparr>)"
proof -
  have "in_span w t0 (G @ [now]) \<le> 2 * mx" for t0
  proof (cases "t0 \<le> now \<and> now \<le> t0 + w")
    case True
    then have "since t0 G \<le> mx" using G(3) by simp
    then have "in_span w t0 G \<le> mx" using in_span_le_since[of w t0 G] by linarith
    moreover have "in_span w t0 [now] \<le> 1" using in_span_le_length[of w t0 "[now]"] by simp
    ultimately show ?thesis using w(2) by simp
  next
    case False
    then have "in_span w t0 [now] = 0" by (auto simp: in_span_def)
    then show ?thesis using G(1) by simp
  qed
  then have "\<forall>t0. in_span w t0 (G @ [now]) \<le> 2 * mx" by blast
  then show ?thesis
    using w G by (intro budget_inv_SomeI[where A = G and B = "[now]"]) auto
qed

lemma budget_call:
  assumes w: "0 < w" "1 \<le> mx" and inv: "budget_inv mx w T G c" and T: "T \<le> now"
    and al: "rl_maxPerWindow rl = mx" "rl_window rl = w" "rl_counters rl k = c"
    and step: "Allow now k rl = (ok, rl')"
  shows "budget_inv mx w now (if ok then G @ [now] else G) (rl_counters rl' k) \<and> rl_counters rl' k \<noteq> None"
proof (cases c)
  case None
  have i: "\<forall>t0. in_span w t0 G \<le> 2 * mx" "\<forall>g\<in>set G. g < T" "\<forall>t0. T - w \<le> t0 \<longrightarrow> since t0 G \<le> mx"
    using inv None by (simp_all add: budget_inv_def)
  have "\<forall>t0. now - w \<le> t0 \<longrightarrow> since t0 G \<le> mx" using i(3) T by auto
  moreover have "\<forall>g\<in>set G. g < now" using i(2) T by force
  moreover note i(1)
  ultimately show ?thesis
    using budget_open[OF w, of G now] None al step by (auto simp: Allow_def)
next
  case (Some d)
  obtain A B where AB: "G = A @ B" "int (length B) = rc_count d" "rc_count d \<le> mx"
    "\<forall>b\<in>set B. rc_resetAt d - w \<le> b \<and> b \<le> rc_resetAt d" "\<forall>a\<in>set A. a < rc_resetAt d - w"
    "\<forall>t0. rc_resetAt d - 2 * w \<le> t0 \<longrightarrow> since t0 A \<le> mx"
    "rc_resetAt d - w \<le> T"
    using inv Some by (auto simp: budget_inv_def)
  have G: "\<forall>t0. in_span w t0 G \<le> 2 * mx" using inv by (simp add: budget_inv_def)
  consider (reset) "rc_resetAt d < now" | (full) "now \<le> rc_resetAt d" "mx \<le> rc_count d"
    | (more) "now \<le> rc_resetAt d" "rc_count d < mx" by linarith
  then show ?thesis
  proof cases
    case reset
    have "since t0 G \<le> mx" if "now - w \<le> t0" for t0
    proof -
      have "since t0 A = 0" using AB(5) that reset by (intro since_none) force
      then show ?thesis using AB(1-3) since_le_length[of t0 B] by simp
    qed
    moreover have "\<forall>g\<in>set G. g < now" using AB(1,4,5) reset w(1) by force
    ultimately show ?thesis
      using budget_open[OF w G] reset Some al step by (auto simp: Allow_def)
  next
    case full
    then show ?thesis using inv Some al step T by (auto simp: Allow_def budget_inv_def)
  next
    case more
    have "in_span w t0 (G @ [now]) \<le> 2 * mx" for t0
    proof (cases "t0 \<le> now \<and> now \<le> t0 + w")
      case True
      then have "since t0 A \<le> mx" using AB(6,7) T more(1) by force
      then have "in_span w t0 A \<le> mx" using in_span_le_since[of w t0 A] by linarith
      moreover have "in_span w t0 (B @ [now]) \<le> rc_count d + 1"
        using in_span_le_length[of w t0 "B @ [now]"] AB(2) by simp
      ultimately show ?thesis using more(2) AB(1) by simp
    next
      case False
      then have "in_span w t0 [now] = 0" by (auto simp: in_span_def)
      then show ?thesis using G by simp
    qed
    then have "\<forall>t0. in_span w t0 (G @ [now]) \<le> 2 * mx" by blast
    then have "budget_inv mx w now (G @ [now]) (Some (d\<lparr>rc_count := rc_count d + 1\<rparr>))"
      using AB T more by (intro budget_inv_SomeI[where A = A and B = "B @ [now]"]) auto
    then show ?thesis using more Some al step by (auto simp: Allow_def)
  qed
qed

lemma budget_sweep:
  assumes w: "0 < w" and inv: "budget_inv mx w T G (rl_counters rl k)" and T: "T \<le> now"
  shows "budget_inv mx w now G (rl_counters (cleanup_tick now rl) k)"
proof (cases "rl_counters rl k")
  case None
  then show ?thesis using inv T
    by (auto simp: cleanup_tick_def budget_inv_def split: option.splits)
next
  case (Some d)
  show ?thesis
  proof (cases "rc_resetAt d < now \<and> \<not> rl_stopped rl")
    case False
    then show ?thesis using inv T Some by (auto simp: cleanup_tick_def budget_inv_def)
  next
    case True
    obtain A B where AB: "G = A @ B" "int (length B) = rc_count d" "rc_count d \<le> mx"
      "\<forall>b\<in>set B. rc_resetAt d - w \<le> b \<and> b \<le> rc_resetAt d" "\<forall>a\<in>set A. a < rc_resetAt d - w"
      using inv Some by (auto simp: budget_inv_def)
    have "since t0 G \<le> mx" if "now - w \<le> t0" for t0
    proof -
      have "since t0 A = 0" using AB(5) that True by (intro since_none) force
      then show ?thesis using AB(1-3) since_le_length[of t0 B] by simp
    qed
    moreover have "\<forall>g\<in>set G. g < now" using AB(1,4,5) True w by force
    ultimately show ?thesis using inv Some True by (auto simp: cleanup_tick_def budget_inv_def)
  qed
qed

definition grants_of :: "string \<Rightarrow> (time \<times> string) list \<Rightarrow> time list" where
  "grants_of k gs = map fst (filter (\<lambda>g. snd g = k) gs)"

lemma grants_of_simps [simp]:
  "grants_of k [] = []"
  "grants_of k ((t, k') # gs) = (if k' = k then t # grants_of k gs else grants_of k gs)"
  by (simp_all add: grants_of_def)

lemma budget_run:
  assumes "0 < w" "1 \<le> mx"
  shows "sorted (T # map op_time ops) \<Longrightarrow> budget_inv mx w T G (rl_counters rl k) \<Longrightarrow>
    rl_maxPerWindow rl = mx \<Longrightarrow> rl_window rl = w \<Longrightarrow>
    \<forall>t0. in_span w t0 (G @ grants_of k (fst (limiter_run ops rl))) \<le> 2 * mx"
proof (induction ops arbitrary: T G rl)
  case Nil
  then show ?case by (simp add: budget_inv_def)
next
  case (Cons op ops)
  show ?case
  proof (cases op)
    case (LSweep t)
    then show ?thesis
      using Cons.IH[of t G "cleanup_tick t rl"] Cons.prems budget_sweep[OF assms(1) Cons.prems(2), of t] by simp
  next
    case (LCall t k')
    obtain ok rl' where a: "Allow t k' rl = (ok, rl')" by force
    obtain gs r where g: "limiter_run ops rl' = (gs, r)" by force
    have conf: "rl_maxPerWindow rl' = mx" "rl_window rl' = w"
      using Allow_conf[of t k' rl] a Cons.prems(3,4) by auto
    have srt: "sorted (t # map op_time ops)" "T \<le> t" using Cons.prems(1) LCall by simp_all
    show ?thesis
    proof (cases "k' = k")
      case True
      have "budget_inv mx w t (if ok then G @ [t] else G) (rl_counters rl' k)"
        using budget_call[OF assms Cons.prems(2) srt(2) Cons.prems(3,4) refl] a True by blast
      from Cons.IH[OF srt(1) this conf] show ?thesis using LCall a g True by (cases ok) (simp_all del: in_span_append)
    next
      case False
      have "rl_counters rl' k = rl_counters rl k" using Allow_other[of k k' t rl] a False by simp
      then have "budget_inv mx w t G (rl_counters rl' k)"
        using Cons.prems(2) srt(2) by (auto simp: budget_inv_def split: option.splits)
      from Cons.IH[OF srt(1) this conf] show ?thesis using LCall a g False by (cases ok) (simp_all del: in_span_append)
    qed
  qed
qed

text \<open>C25: The rate limiter keeps the kill budget. In a run of calls and sweeps at non-decreasing times,
  the calls granted for one key in any closed interval of the window's length are at most twice the
  maximum per window, wherever the interval lies (a fixed window lets two budgets meet at a border,
  and no more), and whatever is asked for other keys.\<close>

theorem limiter_bound:
  assumes "sorted (map op_time ops)" "0 < window" "1 \<le> mx"
  shows "length (filter (\<lambda>(t, k'). k' = k \<and> t0 \<le> t \<and> t \<le> t0 + window)
      (fst (limiter_run ops (NewRateLimiter mx window)))) \<le> 2 * nat mx"
proof -
  define gs where "gs = fst (limiter_run ops (NewRateLimiter mx window))"
  define T where "T = (case ops of [] \<Rightarrow> 0 | op # _ \<Rightarrow> op_time op)"
  have "sorted (T # map op_time ops)" using assms(1) by (cases ops) (auto simp: T_def)
  then have "in_span window t0 (grants_of k gs) \<le> 2 * mx"
    using budget_run[OF assms(2,3), of T ops "[]" "NewRateLimiter mx window" k] assms(3)
    by (simp add: gs_def NewRateLimiter_def budget_inv_def in_span_def since_def)
  moreover have "in_span window t0 (grants_of k gs) =
      int (length (filter (\<lambda>(t, k'). k' = k \<and> t0 \<le> t \<and> t \<le> t0 + window) gs))"
    by (induction gs) (auto simp: in_span_def grants_of_def)
  ultimately show ?thesis using assms(3) by (simp add: gs_def)
qed

theorem limiter_bound_witness:
  "length (filter (\<lambda>(t, k'). k' = ''a/b'' \<and> 5 \<le> t \<and> t \<le> 5 + 10)
      (fst (limiter_run [LCall 0 ''a/b'', LCall 9 ''a/b'', LCall 10 ''a/b'', LCall 11 ''a/b'', LCall 12 ''a/b'']
        (NewRateLimiter 2 10)))) \<le> 4"
  using limiter_bound[of "[LCall 0 ''a/b'', LCall 9 ''a/b'', LCall 10 ''a/b'', LCall 11 ''a/b'', LCall 12 ''a/b'']" 10 2 "''a/b''" 5]
  by simp

end
