(* ===== verification/Audit_Log.thy ===== *)
theory Audit_Log
  imports Alert
begin

text \<open>
  \<open>pkg/pipeline/enforcement_log.go\<close>: the in-memory log of enforcement decisions, which keeps the
  newest \<open>maxSize\<close> of them, and its summaries. The log is specified by the complete history of the
  recorded results: at every moment it holds the last \<open>maxSize\<close> of them, in order.
\<close>

section \<open>Results and the log\<close>

definition EnforceSIGTERM :: string where "EnforceSIGTERM = ''sigterm''"
definition EnforceSIGKILL :: string where "EnforceSIGKILL = ''sigkill''"
definition EnforceLSMDeny :: string where "EnforceLSMDeny = ''lsm_deny''"
definition EnforceNetBlock :: string where "EnforceNetBlock = ''net_block''"

record enforcement_result =
  rs_Action :: string
  rs_Signal :: string
  rs_TargetPID :: u32
  rs_Success :: bool
  rs_Reason :: string
  rs_RuleID :: string
  rs_Container :: string
  rs_Namespace :: string
  rs_Timestamp :: time
  rs_LatencyUS :: int

record audit_log =
  ad_entries :: "enforcement_result list"
  ad_maxSize :: nat

definition NewEnforcementAuditLog :: audit_log where
  "NewEnforcementAuditLog = \<lparr>ad_entries = [], ad_maxSize = 10000\<rparr>"

text \<open>\<open>Record\<close>. \<open>l.entries[1:]\<close> is read only when the log is full, and the one constructor makes
  it hold 10000 entries, so the slice is never taken of an empty log.\<close>

definition Record :: "enforcement_result \<Rightarrow> audit_log \<Rightarrow> audit_log" where
  "Record res l =
    (let kept = (if ad_maxSize l \<le> length (ad_entries l) then drop 1 (ad_entries l) else ad_entries l)
     in l\<lparr>ad_entries := kept @ [res]\<rparr>)"

definition Entries :: "audit_log \<Rightarrow> enforcement_result list" where
  "Entries l = ad_entries l"

text \<open>\<open>Recent\<close>: a Go \<open>nil\<close> slice is the empty list.\<close>

definition Recent :: "int \<Rightarrow> audit_log \<Rightarrow> enforcement_result list" where
  "Recent n l =
    (let n = (if n > int (length (ad_entries l)) then int (length (ad_entries l)) else n)
     in if n \<le> 0 then [] else drop (length (ad_entries l) - nat n) (ad_entries l))"

definition Count :: "audit_log \<Rightarrow> nat" where
  "Count l = length (ad_entries l)"

text \<open>\<open>counts[k]++\<close> on a Go map.\<close>

definition bump :: "string \<Rightarrow> (string \<rightharpoonup> int) \<Rightarrow> (string \<rightharpoonup> int)" where
  "bump k m = m(k \<mapsto> (case m k of None \<Rightarrow> 0 | Some n \<Rightarrow> n) + 1)"

definition CountByReason :: "audit_log \<Rightarrow> (string \<rightharpoonup> int)" where
  "CountByReason l = fold (\<lambda>e m. bump (rs_Reason e) m) (ad_entries l) Map.empty"

definition CountByRule :: "audit_log \<Rightarrow> (string \<rightharpoonup> int)" where
  "CountByRule l = fold (\<lambda>e m. if rs_RuleID e \<noteq> [] then bump (rs_RuleID e) m else m) (ad_entries l) Map.empty"

definition is_kill :: "enforcement_result \<Rightarrow> bool" where
  "is_kill e \<longleftrightarrow> rs_Success e \<and> (rs_Action e = EnforceSIGKILL \<or> rs_Action e = EnforceSIGTERM)"

definition SuccessfulKills :: "audit_log \<Rightarrow> int" where
  "SuccessfulKills l = fold (\<lambda>e n. if is_kill e then n + 1 else n) (ad_entries l) 0"

definition SkippedEnforcements :: "audit_log \<Rightarrow> int" where
  "SkippedEnforcements l = fold (\<lambda>e n. if \<not> rs_Success e then n + 1 else n) (ad_entries l) 0"

record audit_summary =
  su_Timestamp :: time
  su_TotalDecisions :: nat
  su_SuccessfulKills :: int
  su_SkippedEnforcements :: int
  su_ByReason :: "string \<rightharpoonup> int"
  su_ByRule :: "string \<rightharpoonup> int"

definition summary_step :: "enforcement_result \<Rightarrow> audit_summary \<Rightarrow> audit_summary" where
  "summary_step e s =
    (let s = (if is_kill e then s\<lparr>su_SuccessfulKills := su_SuccessfulKills s + 1\<rparr> else s);
         s = (if \<not> rs_Success e then s\<lparr>su_SkippedEnforcements := su_SkippedEnforcements s + 1\<rparr> else s);
         s = s\<lparr>su_ByReason := bump (rs_Reason e) (su_ByReason s)\<rparr>
     in if rs_RuleID e \<noteq> [] then s\<lparr>su_ByRule := bump (rs_RuleID e) (su_ByRule s)\<rparr> else s)"

definition Summary :: "time \<Rightarrow> audit_log \<Rightarrow> audit_summary" where
  "Summary now l = fold summary_step (ad_entries l)
     \<lparr>su_Timestamp = now, su_TotalDecisions = length (ad_entries l), su_SuccessfulKills = 0,
      su_SkippedEnforcements = 0, su_ByReason = Map.empty, su_ByRule = Map.empty\<rparr>"

section \<open>The log against the history\<close>

definition last_n :: "nat \<Rightarrow> 'a list \<Rightarrow> 'a list" where
  "last_n k xs = drop (length xs - k) xs"

lemma last_n_snoc: "0 < k \<Longrightarrow> last_n k (xs @ [x]) = (if k \<le> length xs then drop 1 (last_n k xs) else last_n k xs) @ [x]"
  by (auto simp: last_n_def Suc_diff_le)

lemma length_last_n [simp]: "length (last_n k xs) = min k (length xs)"
  by (auto simp: last_n_def)

lemma last_n_last_n: "last_n k (last_n m xs) = last_n (min k m) xs"
  by (auto simp: last_n_def min_def intro: arg_cong[where f = "\<lambda>n. drop n xs"])

text \<open>A bounded log, as the response actor uses it.\<close>

locale bounded_log =
  fixes append :: "'e \<Rightarrow> 's \<Rightarrow> 's" and view :: "'s \<Rightarrow> 'e list" and cap :: "'s \<Rightarrow> nat"
  assumes cap_append: "cap (append x s) = cap s"
    and view_append: "0 < cap s \<Longrightarrow> length (view s) \<le> cap s \<Longrightarrow> view (append x s) = last_n (cap s) (view s @ [x])"
begin

lemma cap_fold: "cap (fold append xs s) = cap s"
  by (induction xs arbitrary: s) (simp_all add: cap_append)

lemma view_fold: "0 < cap s \<Longrightarrow> length (view s) \<le> cap s \<Longrightarrow> view (fold append xs s) = last_n (cap s) (view s @ xs)"
proof (induction xs rule: rev_induct)
  case Nil
  then show ?case by (simp add: last_n_def)
next
  case (snoc x xs)
  then have v: "view (fold append xs s) = last_n (cap s) (view s @ xs)" by simp
  have "view (fold append (xs @ [x]) s) = last_n (cap s) (last_n (cap s) (view s @ xs) @ [x])"
    using snoc.prems by (simp add: view_append cap_fold v)
  also have "\<dots> = last_n (cap s) (view s @ xs @ [x])"
    using snoc.prems(1) last_n_snoc[of "cap s" "view s @ xs" x] last_n_snoc[of "cap s" "last_n (cap s) (view s @ xs)" x]
    by (simp add: last_n_last_n)
  finally show ?case .
qed

lemma never_overfull: "0 < cap s \<Longrightarrow> length (view s) \<le> cap s \<Longrightarrow> length (view (fold append xs s)) \<le> cap s"
  by (simp add: view_fold)

end

lemma Record_simps [simp]:
  "ad_maxSize (Record x l) = ad_maxSize l"
  "ad_entries (Record x l) = (if ad_maxSize l \<le> length (ad_entries l) then drop 1 (ad_entries l) else ad_entries l) @ [x]"
  by (simp_all add: Record_def Let_def)

interpretation audit: bounded_log Record Entries ad_maxSize
  by unfold_locales (auto simp: Entries_def last_n_def)

section \<open>The summaries count\<close>

lemma fold_bump:
  "fold (\<lambda>e m. if P e then bump (key e) m else m) es m0 k =
     (let n = length (filter (\<lambda>e. P e \<and> key e = k) es)
      in if n = 0 then m0 k else Some ((case m0 k of None \<Rightarrow> 0 | Some c \<Rightarrow> c) + int n))"
  by (induction es arbitrary: m0) (auto simp: bump_def Let_def split: option.splits)

lemma fold_tally: "fold (\<lambda>e n. if P e then n + 1 else n) es n0 = n0 + int (length (filter P es))"
  by (induction es arbitrary: n0) auto

lemma fold_summary_simps:
  "su_SuccessfulKills (fold summary_step es s) = fold (\<lambda>e n. if is_kill e then n + 1 else n) es (su_SuccessfulKills s)"
  "su_SkippedEnforcements (fold summary_step es s) = fold (\<lambda>e n. if \<not> rs_Success e then n + 1 else n) es (su_SkippedEnforcements s)"
  "su_ByReason (fold summary_step es s) = fold (\<lambda>e m. bump (rs_Reason e) m) es (su_ByReason s)"
  "su_ByRule (fold summary_step es s) = fold (\<lambda>e m. if rs_RuleID e \<noteq> [] then bump (rs_RuleID e) m else m) es (su_ByRule s)"
  "su_TotalDecisions (fold summary_step es s) = su_TotalDecisions s"
  "su_Timestamp (fold summary_step es s) = su_Timestamp s"
  by (induction es arbitrary: s) (auto simp: summary_step_def Let_def)

lemma Recent_suffix: "0 \<le> n \<Longrightarrow> Recent n l = last_n (nat n) (Entries l)"
  by (auto simp: Recent_def last_n_def Entries_def Let_def)

text \<open>The audit log is the newest part of the history, and its summaries count it. After any
  sequence of recorded results a new log holds the last 10000 of them in order, \<open>Recent\<close> gives the
  last of these, and the summary's numbers are exact counts over the entries kept: kills, skips,
  entries per reason and entries per non-empty rule identifier (with no key for what does not occur),
  the same as the separate counting functions give.\<close>

theorem audit_log_counts:
  fixes rs :: "enforcement_result list" and n :: nat
  defines "l \<equiv> fold Record rs NewEnforcementAuditLog"
  shows "Entries l = last_n 10000 rs \<and>
    Recent (int n) l = last_n (min n 10000) rs \<and>
    su_TotalDecisions (Summary now l) = Count l \<and>
    su_SuccessfulKills (Summary now l) = SuccessfulKills l \<and>
    SuccessfulKills l = int (length (filter is_kill (last_n 10000 rs))) \<and>
    su_SkippedEnforcements (Summary now l) = SkippedEnforcements l \<and>
    SkippedEnforcements l = int (length (filter (\<lambda>e. \<not> rs_Success e) (last_n 10000 rs))) \<and>
    su_ByReason (Summary now l) = CountByReason l \<and>
    su_ByRule (Summary now l) = CountByRule l \<and>
    (\<forall>k. CountByReason l k = (let c = length (filter (\<lambda>e. rs_Reason e = k) (last_n 10000 rs))
                                in if c = 0 then None else Some (int c))) \<and>
    (\<forall>k. CountByRule l k = (let c = length (filter (\<lambda>e. rs_RuleID e \<noteq> [] \<and> rs_RuleID e = k) (last_n 10000 rs))
                              in if c = 0 then None else Some (int c)))"
proof -
  have e: "Entries l = last_n 10000 rs"
    using audit.view_fold[of NewEnforcementAuditLog rs]
    by (simp add: l_def NewEnforcementAuditLog_def Entries_def)
  then have a: "ad_entries l = last_n 10000 rs" by (simp add: Entries_def)
  have r: "Recent (int n) l = last_n (min n 10000) rs"
    by (simp add: Recent_suffix e last_n_last_n)
  have k: "SuccessfulKills l = int (length (filter is_kill (last_n 10000 rs)))"
    "SkippedEnforcements l = int (length (filter (\<lambda>e. \<not> rs_Success e) (last_n 10000 rs)))"
    by (simp_all add: SuccessfulKills_def SkippedEnforcements_def a fold_tally)
  have m: "CountByReason l k = (let c = length (filter (\<lambda>e. rs_Reason e = k) (last_n 10000 rs))
        in if c = 0 then None else Some (int c))"
    "CountByRule l k = (let c = length (filter (\<lambda>e. rs_RuleID e \<noteq> [] \<and> rs_RuleID e = k) (last_n 10000 rs))
        in if c = 0 then None else Some (int c))" for k
    using fold_bump[of "\<lambda>_. True" rs_Reason "last_n 10000 rs" Map.empty k]
      fold_bump[of "\<lambda>e. rs_RuleID e \<noteq> []" rs_RuleID "last_n 10000 rs" Map.empty k]
    by (simp_all add: CountByReason_def CountByRule_def a Let_def)
  show ?thesis
    using e r k m by (simp add: Summary_def fold_summary_simps Count_def SuccessfulKills_def
        SkippedEnforcements_def CountByReason_def CountByRule_def)
qed

end
