(* ===== verification/Response.thy ===== *)
theory Response
  imports Rate_Limiter Audit_Log Machine
begin

text \<open>
  \<open>pkg/pipeline/response.go\<close>: the response actor, which kills the process of a matched event unless
  one of seven safety rules forbids it, and \<open>EnrichedEvent\<close> of \<open>pipeline.go\<close>. The operating system is a
  parameter: \<open>killing(2)\<close> answers from the signals sent so far, which the actor's state records. A graceful
  kill leaves an escalation pending, the goroutine that sleeps for the grace period; it is a step of
  its own that any other operation may precede. \<open>log.Printf\<close> has no effect on the state.
\<close>

section \<open>Events, kernel and state\<close>

record enriched_event =
  ev_RawEvent :: scarlet_event
  ev_ContainerID :: string
  ev_ContainerName :: string
  ev_ContainerImage :: string
  ev_ContainerAttributed :: bool
  ev_PodName :: string
  ev_Namespace :: string
  ev_ServiceAccount :: string
  ev_PodLabels :: "string \<rightharpoonup> string"
  ev_Privileged :: bool
  ev_NodeName :: string
  ev_AnomalyScore :: real

definition EnforceModeGraceful :: string where "EnforceModeGraceful = ''graceful''"
definition EnforceModeImmediate :: string where "EnforceModeImmediate = ''immediate''"

record response_config =
  rf_Mode :: string
  rf_GracePeriodSeconds :: int
  rf_MaxKillsPerPod :: int
  rf_WindowSeconds :: int
  rf_ProtectedNamespaces :: "string list"

definition DefaultResponseActorConfig :: response_config where
  "DefaultResponseActorConfig =
    \<lparr>rf_Mode = EnforceModeImmediate, rf_GracePeriodSeconds = 5, rf_MaxKillsPerPod = 10,
     rf_WindowSeconds = 60, rf_ProtectedNamespaces = [''kube-system'', ''kube-public'']\<rparr>"

type_synonym signals = "(u32 \<times> nat) list"
type_synonym kernel = "signals \<Rightarrow> u32 \<Rightarrow> nat \<Rightarrow> string option"

text \<open>What the escalation goroutine captures.\<close>

record escalation =
  es_PID :: u32
  es_RuleID :: string
  es_Container :: string
  es_Namespace :: string
  es_Grace :: duration

record response_actor =
  ra_config :: response_config
  ra_mode :: string
  ra_rateLimiter :: rate_limiter
  ra_agentPID :: int
  ra_auditLog :: audit_log
  ra_pending :: "escalation list"
  ra_sent :: signals

definition NewResponseActorWithConfig :: "int \<Rightarrow> string \<Rightarrow> response_config \<Rightarrow> response_actor" where
  "NewResponseActorWithConfig pid mode cfg =
    (let window = Seconds (rf_WindowSeconds cfg);
         window = (if window \<le> 0 then Seconds 60 else window);
         maxKills = (if rf_MaxKillsPerPod cfg \<le> 0 then 10 else rf_MaxKillsPerPod cfg)
     in \<lparr>ra_config = cfg, ra_mode = mode, ra_rateLimiter = NewRateLimiter maxKills window,
         ra_agentPID = pid, ra_auditLog = NewEnforcementAuditLog, ra_pending = [], ra_sent = []\<rparr>)"

definition NewResponseActor :: "int \<Rightarrow> string \<Rightarrow> response_actor" where
  "NewResponseActor pid mode = NewResponseActorWithConfig pid mode DefaultResponseActorConfig"

definition SetMode :: "string \<Rightarrow> response_actor \<Rightarrow> response_actor" where
  "SetMode mode r = r\<lparr>ra_mode := mode\<rparr>"

section \<open>Signals\<close>

definition kill :: "kernel \<Rightarrow> u32 \<Rightarrow> nat \<Rightarrow> response_actor \<Rightarrow> string option \<times> response_actor" where
  "kill K pid sig r = (K (ra_sent r) pid sig, r\<lparr>ra_sent := ra_sent r @ [(pid, sig)]\<rparr>)"

definition sendSIGKILL :: "kernel \<Rightarrow> u32 \<Rightarrow> response_actor \<Rightarrow> string option \<times> response_actor" where
  "sendSIGKILL K pid r =
    (case kill K pid 9 r of
       (Some err, r) \<Rightarrow> (Some (''kill('' @ show_word pid @ '', SIGKILL): '' @ err), r)
     | (None, r) \<Rightarrow>
         (case kill K pid 0 r of
            (None, r) \<Rightarrow> (Some (''pid '' @ show_word pid @
               '' still alive after SIGKILL (zombie or insufficient privilege)''), r)
          | (Some _, r) \<Rightarrow> (None, r)))"

definition sendSIGTERM :: "kernel \<Rightarrow> u32 \<Rightarrow> response_actor \<Rightarrow> string option \<times> response_actor" where
  "sendSIGTERM K pid r =
    (case kill K pid 15 r of
       (Some err, r) \<Rightarrow> (Some (''kill('' @ show_word pid @ '', SIGTERM): '' @ err), r)
     | (None, r) \<Rightarrow> (None, r))"

section \<open>Enforcement\<close>

text \<open>The result every path starts from; \<open>start\<close> is the clock at the call.\<close>

definition base_result :: "string \<Rightarrow> string \<Rightarrow> enriched_event \<Rightarrow> rule_match \<Rightarrow> time \<Rightarrow> enforcement_result" where
  "base_result action sig event m start =
    \<lparr>rs_Action = action, rs_Signal = sig, rs_TargetPID = PID (ev_RawEvent event), rs_Success = False,
     rs_Reason = [], rs_RuleID = rm_RuleID m, rs_Container = ev_ContainerName event,
     rs_Namespace = ev_Namespace event, rs_Timestamp = start, rs_LatencyUS = 0\<rparr>"

text \<open>\<open>fin\<close> is the clock after the signal.\<close>

definition executeImmediateKill ::
    "kernel \<Rightarrow> time \<Rightarrow> time \<Rightarrow> enriched_event \<Rightarrow> rule_match \<Rightarrow> response_actor \<Rightarrow> enforcement_result \<times> response_actor" where
  "executeImmediateKill K start fin event m r =
    (let (killErr, r) = sendSIGKILL K (PID (ev_RawEvent event)) r;
         res = (base_result EnforceSIGKILL ''SIGKILL'' event m start)\<lparr>rs_LatencyUS := (fin - start) div 1000\<rparr>
     in case killErr of
          Some err \<Rightarrow> (res\<lparr>rs_Success := False, rs_Reason := ''kill_failed: '' @ err\<rparr>, r)
        | None \<Rightarrow> (res\<lparr>rs_Success := True, rs_Reason := ''killed''\<rparr>, r))"

definition executeGracefulKill ::
    "kernel \<Rightarrow> time \<Rightarrow> time \<Rightarrow> enriched_event \<Rightarrow> rule_match \<Rightarrow> response_actor \<Rightarrow> enforcement_result \<times> response_actor" where
  "executeGracefulKill K start fin event m r =
    (let gracePeriod = Seconds (rf_GracePeriodSeconds (ra_config r));
         gracePeriod = (if gracePeriod \<le> 0 then Seconds 5 else gracePeriod);
         pid = PID (ev_RawEvent event);
         res = (base_result EnforceSIGTERM ''SIGTERM'' event m start)\<lparr>rs_LatencyUS := (fin - start) div 1000\<rparr>
     in case sendSIGTERM K pid r of
          (Some _, r) \<Rightarrow> executeImmediateKill K start fin event m r
        | (None, r) \<Rightarrow>
            (res\<lparr>rs_Success := True, rs_Reason := ''sigterm_delivered''\<rparr>,
             r\<lparr>ra_pending := ra_pending r @
               [\<lparr>es_PID = pid, es_RuleID = rm_RuleID m, es_Container = ev_ContainerName event,
                 es_Namespace = ev_Namespace event, es_Grace = gracePeriod\<rparr>]\<rparr>))"

text \<open>The goroutine after its sleep, at the time \<open>now\<close>.\<close>

definition escalate :: "kernel \<Rightarrow> time \<Rightarrow> escalation \<Rightarrow> response_actor \<Rightarrow> response_actor" where
  "escalate K now g r =
    (case kill K (es_PID g) 0 r of
       (Some _, r) \<Rightarrow> r
     | (None, r) \<Rightarrow>
         (let (killErr, r) = sendSIGKILL K (es_PID g) r;
              esc = \<lparr>rs_Action = EnforceSIGKILL, rs_Signal = ''SIGKILL'', rs_TargetPID = es_PID g,
                     rs_Success = False, rs_Reason = [], rs_RuleID = es_RuleID g,
                     rs_Container = es_Container g, rs_Namespace = es_Namespace g, rs_Timestamp = now,
                     rs_LatencyUS = es_Grace g div 1000\<rparr>;
              esc = (case killErr of
                       Some err \<Rightarrow> esc\<lparr>rs_Success := False, rs_Reason := ''kill_failed_after_grace: '' @ err\<rparr>
                     | None \<Rightarrow> esc\<lparr>rs_Success := True, rs_Reason := ''killed_after_grace''\<rparr>)
          in r\<lparr>ra_auditLog := Record esc (ra_auditLog r)\<rparr>))"

text \<open>A skipped enforcement: recorded in the audit log and returned.\<close>

definition skip_with :: "enforcement_result \<Rightarrow> string \<Rightarrow> response_actor \<Rightarrow> enforcement_result \<times> response_actor" where
  "skip_with res reason r =
    (let res = res\<lparr>rs_Success := False, rs_Reason := reason\<rparr>
     in (res, r\<lparr>ra_auditLog := Record res (ra_auditLog r)\<rparr>))"

definition podKey :: "enriched_event \<Rightarrow> string" where
  "podKey event = ev_Namespace event @ ''/'' @ ev_PodName event"

text \<open>\<open>Enforce\<close>: the clock readings are \<open>start\<close>, \<open>now\<close> (in \<open>Allow\<close>) and \<open>fin\<close>.\<close>

definition Enforce ::
    "kernel \<Rightarrow> time \<Rightarrow> time \<Rightarrow> time \<Rightarrow> enriched_event \<Rightarrow> rule_match \<Rightarrow> response_actor \<Rightarrow> enforcement_result \<times> response_actor" where
  "Enforce K start now fin event m r =
    (let res = base_result EnforceSIGKILL [] event m start; raw = ev_RawEvent event in
     if \<not> ev_ContainerAttributed event \<or> ev_ContainerID event = [] then skip_with res ''no_container_id'' r
     else if ra_mode r = ''simulate'' then skip_with res ''simulate_mode'' r
     else if ev_Namespace event \<in> set (rf_ProtectedNamespaces (ra_config r)) then skip_with res ''protected_namespace'' r
     else if PID raw = 0 \<or> PID raw = 1 then skip_with res ''init_process'' r
     else if uint (PID raw) = ra_agentPID r \<or> uint (PPID raw) = ra_agentPID r then skip_with res ''self_preservation'' r
     else
       (let (ok, rl) = Allow now (podKey event) (ra_rateLimiter r); r = r\<lparr>ra_rateLimiter := rl\<rparr> in
        if \<not> ok then skip_with res ''rate_limited'' r
        else if ev_Namespace event = [] then skip_with res ''no_namespace_scope'' r
        else
          (let (res, r) =
             (if rm_Action m = ActionEnforce then
                if rf_Mode (ra_config r) = EnforceModeGraceful then executeGracefulKill K start fin event m r
                else executeImmediateKill K start fin event m r
              else (res\<lparr>rs_Action := rm_Action m, rs_Success := False, rs_Reason := ''non_enforce_action''\<rparr>, r))
           in (res, r\<lparr>ra_auditLog := Record res (ra_auditLog r)\<rparr>))))"

text \<open>\<open>Stop\<close>: the pending escalations end, in some order \<open>ord\<close>, each at its own time; then the
  limiter's goroutine.\<close>

definition Stop :: "kernel \<Rightarrow> (escalation \<times> time) list \<Rightarrow> response_actor \<Rightarrow> response_actor" where
  "Stop K ord r =
    (let r = fold (\<lambda>(g, t). escalate K t g) ord (r\<lparr>ra_pending := []\<rparr>)
     in r\<lparr>ra_rateLimiter := Close (ra_rateLimiter r)\<rparr>)"

section \<open>What the seven rules demand\<close>

definition enforceable :: "enriched_event \<Rightarrow> response_actor \<Rightarrow> bool" where
  "enforceable event r \<longleftrightarrow>
     ev_ContainerAttributed event \<and> ev_ContainerID event \<noteq> [] \<and> ra_mode r \<noteq> ''simulate'' \<and>
     ev_Namespace event \<notin> set (rf_ProtectedNamespaces (ra_config r)) \<and>
     PID (ev_RawEvent event) \<noteq> 0 \<and> PID (ev_RawEvent event) \<noteq> 1 \<and>
     uint (PID (ev_RawEvent event)) \<noteq> ra_agentPID r \<and> uint (PPID (ev_RawEvent event)) \<noteq> ra_agentPID r"

text \<open>What an operation may do to the signals and the pending escalations: append signals to \<open>pid\<close>
  and escalations against \<open>pid\<close>.\<close>

definition targets_only :: "u32 \<Rightarrow> response_actor \<Rightarrow> response_actor \<Rightarrow> bool" where
  "targets_only pid r r' \<longleftrightarrow>
     (\<exists>ss. ra_sent r' = ra_sent r @ ss \<and> (\<forall>(p, s)\<in>set ss. p = pid \<and> s \<in> {0, 9, 15})) \<and>
     (\<exists>ps. ra_pending r' = ra_pending r @ ps \<and> (\<forall>g\<in>set ps. es_PID g = pid)) \<and>
     ra_config r' = ra_config r \<and> ra_mode r' = ra_mode r \<and> ra_agentPID r' = ra_agentPID r"

lemma targets_only_refl [intro, simp]: "targets_only pid r r"
  by (simp add: targets_only_def)

lemma targets_only_trans [trans]: "targets_only pid r q \<Longrightarrow> targets_only pid q s \<Longrightarrow> targets_only pid r s"
  unfolding targets_only_def by (auto simp: ball_Un)

lemma targets_only_sent: "s \<in> {0, 9, 15} \<Longrightarrow> targets_only pid r (r\<lparr>ra_sent := ra_sent r @ [(pid, s)]\<rparr>)"
  by (auto simp: targets_only_def)

lemma targets_only_pending: "es_PID g = pid \<Longrightarrow> targets_only pid r (r\<lparr>ra_pending := ra_pending r @ [g]\<rparr>)"
  by (auto simp: targets_only_def)

lemma kill_targets: "kill K pid s r = (e, r') \<Longrightarrow> s \<in> {0, 9, 15} \<Longrightarrow> targets_only pid r r'"
  by (auto simp: kill_def intro: targets_only_sent)

lemma sendSIGKILL_targets: "sendSIGKILL K pid r = (e, r') \<Longrightarrow> targets_only pid r r'"
proof -
  assume a: "sendSIGKILL K pid r = (e, r')"
  obtain e1 q where q: "kill K pid 9 r = (e1, q)" by force
  obtain e2 t where t: "kill K pid 0 q = (e2, t)" by force
  have "targets_only pid r q" "targets_only pid q t" using kill_targets[OF q] kill_targets[OF t] by auto
  moreover have "r' = q \<or> r' = t" using a unfolding sendSIGKILL_def q
    by (cases e1; cases e2) (simp_all add: t)
  ultimately show ?thesis using targets_only_trans by blast
qed

lemma sendSIGTERM_targets: "sendSIGTERM K pid r = (e, r') \<Longrightarrow> targets_only pid r r'"
  unfolding sendSIGTERM_def by (auto split: prod.splits option.splits dest!: kill_targets)

lemma immediate_targets:
  "executeImmediateKill K start fin event m r = (res, r') \<Longrightarrow> targets_only (PID (ev_RawEvent event)) r r'"
  by (auto simp: executeImmediateKill_def Let_def split: prod.splits option.splits dest!: sendSIGKILL_targets)

lemma graceful_targets:
  assumes "executeGracefulKill K start fin event m r = (res, r')"
  shows "targets_only (PID (ev_RawEvent event)) r r'"
proof (cases "sendSIGTERM K (PID (ev_RawEvent event)) r")
  case (Pair e q)
  then have "targets_only (PID (ev_RawEvent event)) r q" by (rule sendSIGTERM_targets)
  moreover have "targets_only (PID (ev_RawEvent event)) q r'"
    using assms Pair immediate_targets[of K start fin event m q res r']
    by (cases e) (auto simp: executeGracefulKill_def Let_def intro: targets_only_pending)
  ultimately show ?thesis by (rule targets_only_trans)
qed

lemma skip_with_frame: "skip_with res reason r = (res', r') \<Longrightarrow> ra_sent r' = ra_sent r \<and> ra_pending r' = ra_pending r
    \<and> ra_config r' = ra_config r \<and> ra_mode r' = ra_mode r \<and> ra_agentPID r' = ra_agentPID r
    \<and> ra_auditLog r' = Record res' (ra_auditLog r) \<and> rs_Success res' = False \<and> rs_Reason res' = reason"
  by (auto simp: skip_with_def Let_def)

text \<open>The checks in front of the limiter, and what remains behind them.\<close>

definition safety_reasons :: "string list" where
  "safety_reasons = [''no_container_id'', ''simulate_mode'', ''protected_namespace'', ''init_process'', ''self_preservation'']"

lemma Enforce_not_enforceable:
  assumes "\<not> enforceable event r"
  shows "\<exists>reason\<in>set safety_reasons.
    Enforce K start now fin event m r = skip_with (base_result EnforceSIGKILL [] event m start) reason r"
proof (cases "\<not> ev_ContainerAttributed event \<or> ev_ContainerID event = []")
  case True
  then show ?thesis by (intro bexI[of _ "''no_container_id''"]) (simp_all add: Enforce_def Let_def safety_reasons_def)
next
  case c1: False
  show ?thesis
  proof (cases "ra_mode r = ''simulate''")
    case True
    with c1 show ?thesis by (intro bexI[of _ "''simulate_mode''"]) (simp_all add: Enforce_def Let_def safety_reasons_def)
  next
    case c2: False
    show ?thesis
    proof (cases "ev_Namespace event \<in> set (rf_ProtectedNamespaces (ra_config r))")
      case True
      with c1 c2 show ?thesis
        by (intro bexI[of _ "''protected_namespace''"]) (simp_all add: Enforce_def Let_def safety_reasons_def)
    next
      case c3: False
      show ?thesis
      proof (cases "PID (ev_RawEvent event) = 0 \<or> PID (ev_RawEvent event) = 1")
        case True
        with c1 c2 c3 show ?thesis
          by (intro bexI[of _ "''init_process''"]) (simp_all add: Enforce_def Let_def safety_reasons_def)
      next
        case c4: False
        with assms c1 c2 c3 have "uint (PID (ev_RawEvent event)) = ra_agentPID r \<or> uint (PPID (ev_RawEvent event)) = ra_agentPID r"
          by (simp add: enforceable_def)
        with c1 c2 c3 c4 show ?thesis
          by (intro bexI[of _ "''self_preservation''"]) (simp_all add: Enforce_def Let_def safety_reasons_def)
      qed
    qed
  qed
qed

lemma Enforce_enforceable:
  "enforceable event r \<Longrightarrow> Enforce K start now fin event m r =
     (let res = base_result EnforceSIGKILL [] event m start;
          (ok, rl) = Allow now (podKey event) (ra_rateLimiter r); r = r\<lparr>ra_rateLimiter := rl\<rparr> in
        if \<not> ok then skip_with res ''rate_limited'' r
        else if ev_Namespace event = [] then skip_with res ''no_namespace_scope'' r
        else
          (let (res, r) =
             (if rm_Action m = ActionEnforce then
                if rf_Mode (ra_config r) = EnforceModeGraceful then executeGracefulKill K start fin event m r
                else executeImmediateKill K start fin event m r
              else (res\<lparr>rs_Action := rm_Action m, rs_Success := False, rs_Reason := ''non_enforce_action''\<rparr>, r))
           in (res, r\<lparr>ra_auditLog := Record res (ra_auditLog r)\<rparr>)))"
  by (simp add: Enforce_def enforceable_def Let_def)

lemma targets_only_log [simp]: "targets_only pid r (r'\<lparr>ra_auditLog := l\<rparr>) = targets_only pid r r'"
  by (simp add: targets_only_def)

lemma targets_only_limiter [simp]: "targets_only pid (r\<lparr>ra_rateLimiter := l\<rparr>) r' = targets_only pid r r'"
  by (simp add: targets_only_def)

lemma skip_with_targets: "skip_with res reason r = (res', r') \<Longrightarrow> targets_only pid r r'"
  by (auto simp: skip_with_def Let_def)

text \<open>The three ends behind the limiter.\<close>

lemma Enforce_cases:
  assumes "Enforce K start now fin event m r = (res, r')"
  obtains (unsafe) reason where "\<not> enforceable event r"
      "skip_with (base_result EnforceSIGKILL [] event m start) reason r = (res, r')"
  | (limited) rl reason where "enforceable event r"
      "Allow now (podKey event) (ra_rateLimiter r) = (reason \<noteq> ''rate_limited'', rl)"
      "skip_with (base_result EnforceSIGKILL [] event m start) reason (r\<lparr>ra_rateLimiter := rl\<rparr>) = (res, r')"
      "reason = ''rate_limited'' \<or> reason = ''no_namespace_scope'' \<and> ev_Namespace event = []"
  | (alerting) rl where "enforceable event r" "Allow now (podKey event) (ra_rateLimiter r) = (True, rl)"
      "ev_Namespace event \<noteq> []" "rm_Action m \<noteq> ActionEnforce"
      "res = (base_result EnforceSIGKILL [] event m start)\<lparr>rs_Action := rm_Action m, rs_Success := False, rs_Reason := ''non_enforce_action''\<rparr>"
      "r' = r\<lparr>ra_rateLimiter := rl, ra_auditLog := Record res (ra_auditLog r)\<rparr>"
  | (killing) rl q where "enforceable event r" "Allow now (podKey event) (ra_rateLimiter r) = (True, rl)"
      "ev_Namespace event \<noteq> []" "rm_Action m = ActionEnforce"
      "(if rf_Mode (ra_config r) = EnforceModeGraceful then executeGracefulKill K start fin event m (r\<lparr>ra_rateLimiter := rl\<rparr>)
        else executeImmediateKill K start fin event m (r\<lparr>ra_rateLimiter := rl\<rparr>)) = (res, q)"
      "r' = q\<lparr>ra_auditLog := Record res (ra_auditLog q)\<rparr>"
proof (cases "enforceable event r")
  case False
  with Enforce_not_enforceable[OF False, of K start now fin m] assms unsafe show ?thesis by auto
next
  case e: True
  obtain ok rl where a: "Allow now (podKey event) (ra_rateLimiter r) = (ok, rl)" by force
  note E = assms[unfolded Enforce_enforceable[OF e] a Let_def prod.case]
  show ?thesis
  proof (cases "ok \<and> ev_Namespace event \<noteq> []")
    case False
    then show ?thesis
      using E a e limited[of "if ok then ''no_namespace_scope'' else ''rate_limited''" rl] by (simp split: if_splits)
  next
    case n: True
    show ?thesis
    proof (cases "rm_Action m = ActionEnforce")
      case False
      with E n have x: "(base_result EnforceSIGKILL [] event m start)\<lparr>rs_Action := rm_Action m, rs_Success := False,
            rs_Reason := ''non_enforce_action''\<rparr> = res \<and> r\<lparr>ra_rateLimiter := rl, ra_auditLog := Record res (ra_auditLog r)\<rparr> = r'"
        by (simp split: if_splits) (metis)
      with alerting[OF e _ _ False, of rl] a n show ?thesis by simp
    next
      case True
      obtain x q where x: "(if rf_Mode (ra_config r) = EnforceModeGraceful then executeGracefulKill K start fin event m (r\<lparr>ra_rateLimiter := rl\<rparr>)
        else executeImmediateKill K start fin event m (r\<lparr>ra_rateLimiter := rl\<rparr>)) = (x, q)" by force
      with E n True have "x = res" "r' = q\<lparr>ra_auditLog := Record res (ra_auditLog q)\<rparr>"
        by (simp_all split: if_splits)
      with killing[OF e _ _ True, of rl q] a n x show ?thesis by simp
    qed
  qed
qed

lemma kill_branch_targets:
  "(if g then executeGracefulKill K start fin event m r else executeImmediateKill K start fin event m r) = (res, q) \<Longrightarrow>
     targets_only (PID (ev_RawEvent event)) r q"
  by (cases g) (auto dest: graceful_targets immediate_targets)

lemma Enforce_targets:
  assumes "Enforce K start now fin event m r = (res, r')"
  shows "targets_only (PID (ev_RawEvent event)) r r'"
  using assms
proof (cases rule: Enforce_cases)
  case (killing rl q)
  then show ?thesis using kill_branch_targets[OF killing(5)] by simp
next
  case (unsafe reason)
  then show ?thesis by (auto dest: skip_with_targets)
next
  case (limited reason rl)
  from skip_with_targets[OF limited(3)] show ?thesis by simp
next
  case (alerting rl)
  show ?thesis unfolding alerting(6) by (simp add: targets_only_def)
qed

section \<open>Properties of a call\<close>

text \<open>No signal without all seven safety rules. If \<open>Enforce\<close> sends a signal or leaves an escalation
  pending, then the event has a container, the actor does not simulate, the namespace is neither
  protected nor empty, the process is not 0, 1, the agent or a child of the agent, the limiter
  granted the pod's call and the rule's action is to enforce; and every new signal and escalation is
  against the event's own process.\<close>

theorem enforce_safe:
  assumes "Enforce K start now fin event m r = (res, r')"
    and "ra_sent r' \<noteq> ra_sent r \<or> ra_pending r' \<noteq> ra_pending r"
  shows "enforceable event r \<and> ev_Namespace event \<noteq> [] \<and> rm_Action m = ActionEnforce \<and>
    fst (Allow now (podKey event) (ra_rateLimiter r)) \<and> targets_only (PID (ev_RawEvent event)) r r'"
  using assms(1)
proof (cases rule: Enforce_cases)
  case (killing rl q)
  then show ?thesis using Enforce_targets[OF assms(1)] by simp
qed (use assms(2) in \<open>auto simp: skip_with_def Let_def\<close>)

lemma kill_keeps: "kill K pid s r = (e, q) \<Longrightarrow> ra_auditLog q = ra_auditLog r"
  by (auto simp: kill_def)

lemma sendSIGKILL_keeps: "sendSIGKILL K pid r = (e, r') \<Longrightarrow> ra_auditLog r' = ra_auditLog r \<and> ra_rateLimiter r' = ra_rateLimiter r"
  unfolding sendSIGKILL_def kill_def by (auto split: option.splits)

lemma immediate_keeps: "executeImmediateKill K start fin event m r = (res, r') \<Longrightarrow>
    ra_auditLog r' = ra_auditLog r \<and> ra_rateLimiter r' = ra_rateLimiter r"
  by (auto simp: executeImmediateKill_def Let_def split: prod.splits option.splits dest!: sendSIGKILL_keeps)

lemma graceful_keeps: "executeGracefulKill K start fin event m r = (res, r') \<Longrightarrow>
    ra_auditLog r' = ra_auditLog r \<and> ra_rateLimiter r' = ra_rateLimiter r"
  unfolding executeGracefulKill_def sendSIGTERM_def kill_def Let_def
  by (auto split: option.splits dest!: immediate_keeps)

text \<open>C28: Every decision is on record, and every granted call costs budget. A call appends exactly its
  own result to the audit log; a call that the first five rules stop leaves the limiter alone; any
  other call takes from the pod's budget what \<open>Allow\<close> grants, also when the namespace is empty or
  the rule only alerts, so that nothing is killed.\<close>

theorem enforce_records:
  assumes "Enforce K start now fin event m r = (res, r')"
  shows "ra_auditLog r' = Record res (ra_auditLog r) \<and>
    ra_rateLimiter r' = (if enforceable event r then snd (Allow now (podKey event) (ra_rateLimiter r)) else ra_rateLimiter r)"
  using assms
proof (cases rule: Enforce_cases)
  case (killing rl q)
  then have "ra_auditLog q = ra_auditLog r \<and> ra_rateLimiter q = rl"
    by (auto split: if_splits dest: immediate_keeps graceful_keeps)
  then show ?thesis using killing by simp
qed (auto simp: skip_with_def Let_def)

section \<open>The actor as a machine\<close>

inductive actor_step :: "kernel \<Rightarrow> response_actor \<Rightarrow> response_actor \<Rightarrow> bool" for K where
  step_enforce: "Enforce K start now fin event m r = (res, r') \<Longrightarrow> actor_step K r r'"
| step_mode: "actor_step K r (SetMode mode r)"
| step_escalate: "ra_pending r = ps @ g # qs \<Longrightarrow> actor_step K r (escalate K t g (r\<lparr>ra_pending := ps @ qs\<rparr>))"
| step_sweep: "actor_step K r (r\<lparr>ra_rateLimiter := cleanup_tick t (ra_rateLimiter r)\<rparr>)"

inductive_cases actor_stepE: "actor_step K r r'"

definition spared :: "response_actor \<Rightarrow> u32 \<Rightarrow> bool" where
  "spared r p \<longleftrightarrow> p = 0 \<or> p = 1 \<or> uint p = ra_agentPID r"

definition actor_safe :: "response_actor \<Rightarrow> bool" where
  "actor_safe r \<longleftrightarrow> (\<forall>(p, s)\<in>set (ra_sent r). \<not> spared r p) \<and> (\<forall>g\<in>set (ra_pending r). \<not> spared r (es_PID g)) \<and>
     ad_maxSize (ra_auditLog r) = 10000 \<and> length (Entries (ra_auditLog r)) \<le> 10000"

lemma actor_safe_targets:
  "actor_safe r \<Longrightarrow> targets_only pid r r' \<Longrightarrow> \<not> spared r pid \<Longrightarrow> ra_auditLog r' = ra_auditLog r \<Longrightarrow> actor_safe r'"
  unfolding actor_safe_def targets_only_def spared_def by auto

lemma actor_safe_record: "actor_safe r \<Longrightarrow> actor_safe (r\<lparr>ra_auditLog := Record res (ra_auditLog r)\<rparr>)"
  using audit.never_overfull[of "ra_auditLog r" "[res]"] by (simp add: actor_safe_def spared_def)

lemma actor_safe_skip: "actor_safe r \<Longrightarrow> skip_with b reason r = (res, r') \<Longrightarrow> actor_safe r'"
  using actor_safe_record[of r res] by (auto simp: skip_with_def Let_def)

lemma actor_safe_limiter [simp]: "actor_safe (r\<lparr>ra_rateLimiter := rl\<rparr>) = actor_safe r"
  by (simp add: actor_safe_def spared_def)

lemma actor_safe_enforce:
  assumes "actor_safe r" "Enforce K start now fin event m r = (res, r')"
  shows "actor_safe r'"
  using assms(2)
proof (cases rule: Enforce_cases)
  case (killing rl q)
  have "ra_auditLog q = ra_auditLog r" using killing(5) by (auto split: if_splits dest: immediate_keeps graceful_keeps)
  moreover have "\<not> spared r (PID (ev_RawEvent event))" using killing(1) by (auto simp: enforceable_def spared_def)
  ultimately have "actor_safe q"
    using actor_safe_targets[OF assms(1)] kill_branch_targets[OF killing(5)] by simp
  then show ?thesis using killing(6) actor_safe_record by simp
qed (use assms(1) actor_safe_skip actor_safe_record[of "r\<lparr>ra_rateLimiter := _\<rparr>"] in \<open>fastforce+\<close>)

lemma escalate_cases:
  obtains (gone) e q where "kill K (es_PID g) 0 r = (Some e, q)" "escalate K t g r = q"
  | (alive) q e q' esc where "kill K (es_PID g) 0 r = (None, q)" "sendSIGKILL K (es_PID g) q = (e, q')"
      "escalate K t g r = q'\<lparr>ra_auditLog := Record esc (ra_auditLog q')\<rparr>"
proof -
  obtain e q where q: "kill K (es_PID g) 0 r = (e, q)" by force
  obtain e' q' where q': "sendSIGKILL K (es_PID g) q = (e', q')" by force
  show ?thesis
  proof (cases e)
    case None
    then show ?thesis using alive[of q e' q'] q q' by (simp add: escalate_def Let_def)
  next
    case (Some err)
    then show ?thesis using gone[of err q] q by (simp add: escalate_def)
  qed
qed

lemma actor_safe_escalate:
  assumes "actor_safe r" "\<not> spared r (es_PID g)"
  shows "actor_safe (escalate K t g r)"
proof (cases rule: escalate_cases[of K g r t])
  case (gone e q)
  then have "ra_auditLog q = ra_auditLog r" using kill_keeps by blast
  then show ?thesis using gone actor_safe_targets[OF assms(1) kill_targets[OF gone(1)]] assms(2) by simp
next
  case (alive q e q' esc)
  have "targets_only (es_PID g) r q'"
    using targets_only_trans[OF kill_targets[OF alive(1)] sendSIGKILL_targets[OF alive(2)]] by simp
  moreover have "ra_auditLog q' = ra_auditLog r"
    using kill_keeps[OF alive(1)] sendSIGKILL_keeps[OF alive(2)] by simp
  ultimately have "actor_safe q'" using actor_safe_targets[OF assms(1)] assms(2) by blast
  then show ?thesis unfolding alive(3) by (rule actor_safe_record)
qed

interpretation actor: invariant_system
  "\<lambda>r. \<exists>pid mode cfg. r = NewResponseActorWithConfig pid mode cfg" "actor_step K" actor_safe for K
proof
  fix r
  show "\<exists>pid mode cfg. r = NewResponseActorWithConfig pid mode cfg \<Longrightarrow> actor_safe r"
    by (auto simp: NewResponseActorWithConfig_def actor_safe_def NewEnforcementAuditLog_def Entries_def)
next
  fix r r'
  assume r: "actor_safe r" and "actor_step K r r'"
  from this(2) show "actor_safe r'"
  proof (cases rule: actor_step.cases)
    case (step_enforce start now fin event m res)
    then show ?thesis using actor_safe_enforce[OF r] by blast
  next
    case (step_mode mode)
    then show ?thesis using r by (simp add: SetMode_def actor_safe_def spared_def)
  next
    case (step_escalate ps g qs t)
    have "actor_safe (r\<lparr>ra_pending := ps @ qs\<rparr>)" "\<not> spared (r\<lparr>ra_pending := ps @ qs\<rparr>) (es_PID g)"
      using r step_escalate by (auto simp: actor_safe_def spared_def)
    then show ?thesis using actor_safe_escalate step_escalate by simp
  qed (use r in simp)
qed

text \<open>C22: The untouchable processes stay untouched. In every state that a response actor can reach, by
  any interleaving of enforcements, mode changes, sweeps and escalations and with any kernel, no
  signal was sent to process 0, to process 1 or to the agent, no pending escalation is against one of
  them, and the audit log holds at most 10000 entries.\<close>

theorem response_reachable_safe:
  assumes "(actor_step K)\<^sup>*\<^sup>* (NewResponseActorWithConfig pid mode cfg) r"
  shows "actor_safe r"
  using actor.reachable_inv[OF _ assms] by blast

text \<open>An escalation does not look at the mode. Whatever mode is set while it is pending, the
  escalation does the same; in particular it sends SIGKILL to a process that is still alive although
  the actor has been switched to simulation or audit in the meantime.\<close>

theorem escalation_ignores_mode:
  "ra_sent (escalate K t g (SetMode mode r)) = ra_sent (escalate K t g r) \<and>
   (K (ra_sent r) (es_PID g) 0 = None \<longrightarrow>
      (es_PID g, 9) \<in> set (drop (length (ra_sent r)) (ra_sent (escalate K t g (SetMode mode r)))))"
  by (cases "K (ra_sent r) (es_PID g) 0"; cases "K (ra_sent r @ [(es_PID g, 0)]) (es_PID g) 9")
    (auto simp: escalate_def sendSIGKILL_def kill_def SetMode_def Let_def split: option.splits)

section \<open>Concrete runs\<close>

text \<open>A kernel in which every signal arrives and the target is dead afterwards.\<close>

definition demo_kernel :: kernel where
  "demo_kernel ss pid sig = (if sig = 0 then Some ''no such process'' else None)"

definition demo_enriched :: enriched_event where
  "demo_enriched =
    \<lparr>ev_RawEvent = zero_event\<lparr>EventType := EvtExec, Category := CatProcess, PID := 7, PPID := 6\<rparr>,
     ev_ContainerID = ''c1'', ev_ContainerName = ''web'', ev_ContainerImage = ''nginx'',
     ev_ContainerAttributed = True, ev_PodName = ''p'', ev_Namespace = ''prod'', ev_ServiceAccount = [],
     ev_PodLabels = Map.empty, ev_Privileged = False, ev_NodeName = [], ev_AnomalyScore = 0\<rparr>"

definition demo_kill_match :: rule_match where
  "demo_kill_match =
    \<lparr>rm_RuleID = ''R001'', rm_RuleName = ''r'', rm_Priority = ''CRITICAL'', rm_Action = ActionEnforce,
     rm_Output = [], rm_Tags = []\<rparr>"

lemmas demo_response_defs = demo_kernel_def demo_enriched_def demo_kill_match_def NewResponseActor_def
  NewResponseActorWithConfig_def DefaultResponseActorConfig_def NewEnforcementAuditLog_def
  NewRateLimiter_def podKey_def action_defs

definition demo_after :: "enforcement_result \<times> response_actor" where
  "demo_after = Enforce demo_kernel 0 1 2 demo_enriched demo_kill_match (NewResponseActor 42 ''enforce'')"

lemma demo_after_sent: "ra_sent (snd demo_after) = [(7, 9), (7, 0)]" "rs_Reason (fst demo_after) = ''killed''"
  unfolding demo_after_def Enforce_def
  by (simp_all add: demo_response_defs Let_def Allow_def executeImmediateKill_def sendSIGKILL_def kill_def
      EnforceModeImmediate_def EnforceModeGraceful_def)

theorem enforce_safe_witness:
  "enforceable demo_enriched (NewResponseActor 42 ''enforce'') \<and> rs_Reason (fst demo_after) = ''killed''"
  using enforce_safe[of demo_kernel 0 1 2 demo_enriched demo_kill_match "NewResponseActor 42 ''enforce''" "fst demo_after" "snd demo_after"]
    demo_after_sent
  by (simp add: demo_after_def NewResponseActor_def NewResponseActorWithConfig_def)

theorem enforce_records_witness:
  "ad_entries (ra_auditLog (snd demo_after)) = [fst demo_after]"
  using enforce_records[of demo_kernel 0 1 2 demo_enriched demo_kill_match "NewResponseActor 42 ''enforce''" "fst demo_after" "snd demo_after"]
  by (simp add: demo_after_def NewResponseActor_def NewResponseActorWithConfig_def NewEnforcementAuditLog_def)

theorem response_reachable_safe_witness:
  "actor_safe (snd demo_after) \<and> ra_sent (snd demo_after) = [(7, 9), (7, 0)]"
proof -
  have "actor_step demo_kernel (NewResponseActor 42 ''enforce'') (snd demo_after)"
    unfolding demo_after_def by (rule step_enforce) (rule prod.collapse[symmetric])
  then have "(actor_step demo_kernel)\<^sup>*\<^sup>* (NewResponseActor 42 ''enforce'') (snd demo_after)"
    by (rule r_into_rtranclp)
  then show ?thesis
    using response_reachable_safe[of demo_kernel 42 "''enforce''" DefaultResponseActorConfig "snd demo_after"] demo_after_sent
    by (simp add: NewResponseActor_def)
qed

end
