(* ===== verification/Coalescer.thy ===== *)
theory Coalescer
  imports Alert "HOL-Library.Multiset"
begin

text \<open>
  \<open>pkg/pipeline/coalescer.go\<close>: alerts of one rule, container and process are merged until the next
  flush. The flush ranges over a Go map, so its order is an argument (\<open>perm\<close>); the emitter is the one
  of the test double, a list of alerts, or absent. The caller of \<open>Add\<close> emits the alert itself when
  \<open>Add\<close> returns false (\<open>emitAlert\<close> of \<open>pipeline.go\<close>), which \<open>coalesce_run\<close> repeats.
\<close>

record coalesce_key =
  ck_RuleID :: string
  ck_ContainerID :: string
  ck_ProcessName :: string

record coalesce_entry =
  ce_Key :: coalesce_key
  ce_First :: alert
  ce_Count :: u64
  ce_LastSeen :: time

record coalescer =
  co_window :: duration
  co_entries :: "(coalesce_key \<times> coalesce_entry) list"

definition NewCoalescer :: "duration \<Rightarrow> coalescer" where
  "NewCoalescer window = \<lparr>co_window = window, co_entries = []\<rparr>"

definition coalesce_key_of :: "alert \<Rightarrow> coalesce_key" where
  "coalesce_key_of a = \<lparr>ck_RuleID = al_RuleID a, ck_ContainerID = al_ContainerID a, ck_ProcessName = al_ProcessName a\<rparr>"

definition co_Add :: "time \<Rightarrow> alert \<Rightarrow> coalescer \<Rightarrow> bool \<times> coalescer" where
  "co_Add now a c =
    (let key = coalesce_key_of a in
     case map_of (co_entries c) key of
       Some entry \<Rightarrow>
         (True, c\<lparr>co_entries := AList.update key (entry\<lparr>ce_Count := ce_Count entry + 1, ce_LastSeen := now\<rparr>) (co_entries c)\<rparr>)
     | None \<Rightarrow>
         (False, c\<lparr>co_entries := AList.update key
            \<lparr>ce_Key = key, ce_First = a, ce_Count = 1, ce_LastSeen = now\<rparr> (co_entries c)\<rparr>))"

text \<open>What \<open>Flush\<close> emits for one entry.\<close>

definition flush_alert :: "coalesce_entry \<Rightarrow> alert" where
  "flush_alert entry =
    (if 1 < ce_Count entry then (ce_First entry)\<lparr>al_EventCount := ce_Count entry, al_Coalesced := True\<rparr>
     else ce_First entry)"

definition co_Flush ::
    "((coalesce_key \<times> coalesce_entry) list \<Rightarrow> (coalesce_key \<times> coalesce_entry) list) \<Rightarrow> coalescer \<Rightarrow>
     test_emitter option \<Rightarrow> coalescer \<times> test_emitter option" where
  "co_Flush perm c emitter =
    (let entries = co_entries c; c = c\<lparr>co_entries := []\<rparr> in
     case emitter of
       None \<Rightarrow> (c, None)
     | Some t \<Rightarrow> (c, Some (fold (\<lambda>(k, entry). te_Emit (flush_alert entry)) (perm entries) t)))"

definition co_Count :: "coalescer \<Rightarrow> nat" where
  "co_Count c = length (co_entries c)"

section \<open>A window\<close>

text \<open>Alerts that arrive between two flushes, each emitted by the caller unless it was merged.\<close>

fun coalesce_run :: "(time \<times> alert) list \<Rightarrow> coalescer \<times> test_emitter \<Rightarrow> coalescer \<times> test_emitter" where
  "coalesce_run [] (c, t) = (c, t)"
| "coalesce_run ((now, a) # as) (c, t) =
     (case co_Add now a c of
        (True, c) \<Rightarrow> coalesce_run as (c, t)
      | (False, c) \<Rightarrow> coalesce_run as (c, te_Emit a t))"

definition alerts_of :: "coalesce_key \<Rightarrow> alert list \<Rightarrow> alert list" where
  "alerts_of k as = filter (\<lambda>a. coalesce_key_of a = k) as"

text \<open>The state after the alerts \<open>as\<close>: one entry per key that occurred, holding the first alert of its
  group and the group's size, and one emitted alert per key, in the order of the keys.\<close>

definition window_state :: "alert list \<Rightarrow> coalescer \<Rightarrow> test_emitter \<Rightarrow> test_emitter \<Rightarrow> bool" where
  "window_state as c t0 t \<longleftrightarrow>
     distinct (map fst (co_entries c)) \<and> set (map fst (co_entries c)) = coalesce_key_of ` set as \<and>
     (\<forall>(k, e)\<in>set (co_entries c). ce_First e = hd (alerts_of k as) \<and> ce_Count e = word_of_nat (length (alerts_of k as)) \<and>
        coalesce_key_of (ce_First e) = k) \<and>
     te_alerts t = te_alerts t0 @ map (ce_First \<circ> snd) (co_entries c)"

lemma alerts_of_append [simp]: "alerts_of k (as @ bs) = alerts_of k as @ alerts_of k bs"
  by (simp add: alerts_of_def)

lemma alerts_of_single [simp]: "alerts_of k [a] = (if coalesce_key_of a = k then [a] else [])"
  by (simp add: alerts_of_def)

lemma alerts_of_Nil_iff: "alerts_of k as = [] \<longleftrightarrow> k \<notin> coalesce_key_of ` set as"
  by (auto simp: alerts_of_def filter_empty_conv)

lemma map_update_first:
  "map_of al k = Some e \<Longrightarrow> ce_First e' = ce_First e \<Longrightarrow>
     map (ce_First \<circ> snd) (AList.update k e' al) = map (ce_First \<circ> snd) al"
  by (induction al) auto

lemma update_new: "map_of al k = None \<Longrightarrow> AList.update k e al = al @ [(k, e)]"
  by (induction al) (auto split: if_splits)

lemma window_state_add:
  assumes w: "window_state as c t0 t" and add: "co_Add now a c = (b, c')"
  shows "window_state (as @ [a]) c' t0 (if b then t else te_Emit a t)"
proof (cases "map_of (co_entries c) (coalesce_key_of a)")
  case None
  then have fresh: "coalesce_key_of a \<notin> set (map fst (co_entries c))" by (auto simp: map_of_eq_None_iff)
  then have g: "alerts_of (coalesce_key_of a) as = []" using w by (auto simp: alerts_of_Nil_iff window_state_def)
  have same: "coalesce_key_of a \<noteq> k" if "(k, e) \<in> set (co_entries c)" for k e
    using fresh that by force
  have mem: "k \<in> coalesce_key_of ` set as" if "(k, e) \<in> set (co_entries c)" for k e
    using w that by (force simp: window_state_def)
  show ?thesis
    using add None w g fresh same mem
    by (auto simp: co_Add_def Let_def window_state_def update_new te_Emit_def)
next
  case (Some e)
  have d: "distinct (map fst (co_entries c))" using w by (simp add: window_state_def)
  have i: "(coalesce_key_of a, e) \<in> set (co_entries c)" using Some by (rule map_of_SomeD)
  have "\<forall>p\<in>set (co_entries c). ce_First (snd p) = hd (alerts_of (fst p) as) \<and>
      ce_Count (snd p) = word_of_nat (length (alerts_of (fst p) as)) \<and> coalesce_key_of (ce_First (snd p)) = fst p"
    using w unfolding window_state_def case_prod_beta by blast
  from bspec[OF this i] have e: "ce_First e = hd (alerts_of (coalesce_key_of a) as)"
    "ce_Count e = word_of_nat (length (alerts_of (coalesce_key_of a) as))"
    "coalesce_key_of (ce_First e) = coalesce_key_of a" unfolding fst_conv snd_conv by blast+
  have "coalesce_key_of a \<in> fst ` set (co_entries c)" using i by force
  then have "alerts_of (coalesce_key_of a) as \<noteq> []" using w by (simp add: window_state_def alerts_of_Nil_iff)
  note e = e this
  define e' where "e' = e\<lparr>ce_Count := ce_Count e + 1, ce_LastSeen := now\<rparr>"
  have c': "co_entries c' = AList.update (coalesce_key_of a) e' (co_entries c)" "b"
    using add Some by (auto simp: co_Add_def Let_def e'_def)
  have ent: "ce_First x = hd (alerts_of k (as @ [a])) \<and> ce_Count x = word_of_nat (length (alerts_of k (as @ [a]))) \<and>
      coalesce_key_of (ce_First x) = k" if "(k, x) \<in> set (co_entries c')" for k x
  proof (cases "k = coalesce_key_of a")
    case True
    then have "x = e'" using that d by (simp add: c' set_update_keys)
    then show ?thesis using True e by (simp add: e'_def ac_simps)
  next
    case False
    then have "(k, x) \<in> set (co_entries c)" using that d by (simp add: c' set_update_keys)
    then show ?thesis using w False by (auto simp: window_state_def)
  qed
  have "set (map fst (co_entries c')) = coalesce_key_of ` set (as @ [a])"
    using w by (simp add: c' keys_update_insert window_state_def)
  moreover have "te_alerts t = te_alerts t0 @ map (ce_First \<circ> snd) (co_entries c')"
    using w map_update_first[OF Some, of e'] by (simp add: c' e'_def window_state_def)
  moreover have "distinct (map fst (co_entries c'))" using d by (simp add: c')
  ultimately show ?thesis using ent c'(2) unfolding window_state_def by auto
qed

lemma run_window: "coalesce_run bs (c, t) = (c', t') \<Longrightarrow> co_window c' = co_window c"
proof (induction bs arbitrary: c t)
  case (Cons b bs)
  obtain now a where b: "b = (now, a)" by force
  obtain m c1 where add: "co_Add now a c = (m, c1)" by force
  then have "co_window c1 = co_window c" by (auto simp: co_Add_def Let_def split: option.splits)
  then show ?case using Cons add b by (cases m) auto
qed simp

lemma window_state_run:
  "window_state as c t0 t \<Longrightarrow> coalesce_run bs (c, t) = (c', t') \<Longrightarrow> window_state (as @ map snd bs) c' t0 t'"
proof (induction bs arbitrary: as c t)
  case (Cons b bs)
  obtain now a where b: "b = (now, a)" by force
  obtain m c1 where add: "co_Add now a c = (m, c1)" by force
  from window_state_add[OF Cons.prems(1) add] Cons.IH[of "as @ [a]" c1 "if m then t else te_Emit a t"] Cons.prems(2)
  show ?case by (cases m) (auto simp: b add)
qed simp

lemma te_fold: "te_alerts (fold (\<lambda>(k, entry). te_Emit (flush_alert entry)) es t) = te_alerts t @ map (flush_alert \<circ> snd) es"
  by (induction es arbitrary: t) (auto simp: te_Emit_def)

text \<open>C26: What reaches the emitter in one window. Between a flush that emptied the coalescer and the
  next flush, of the alerts that share rule, container and process only the first is emitted; the
  flush then emits one alert per group, whatever the map's order, which for a group of one is that
  same alert once more, and for a larger group its first alert with the exact count of the group
  (modulo \<open>2 ^ 64\<close>). So a group of one is reported twice.\<close>

theorem coalesce_window:
  assumes "coalesce_run bs (NewCoalescer w, t0) = (c, t)" and "\<forall>es. mset (perm es) = mset es"
  shows "\<exists>firsts rest. te_alerts t = te_alerts t0 @ firsts \<and> co_Flush perm c (Some t) = (NewCoalescer w, Some \<lparr>te_alerts = te_alerts t @ rest\<rparr>) \<and>
    distinct (map coalesce_key_of firsts) \<and> set (map coalesce_key_of firsts) = coalesce_key_of ` snd ` set bs \<and>
    (\<forall>a\<in>set firsts. a = hd (alerts_of (coalesce_key_of a) (map snd bs))) \<and>
    mset rest = mset (map (\<lambda>a. let n = word_of_nat (length (alerts_of (coalesce_key_of a) (map snd bs))) in
       if 1 < n then a\<lparr>al_EventCount := n, al_Coalesced := True\<rparr> else a) firsts)"
proof -
  have "window_state [] (NewCoalescer w) t0 t0" by (simp add: window_state_def NewCoalescer_def)
  from window_state_run[OF this assms(1)] have w: "window_state (map snd bs) c t0 t" by simp
  define firsts where "firsts = map (ce_First \<circ> snd) (co_entries c)"
  have e: "ce_First en = hd (alerts_of k (map snd bs)) \<and> ce_Count en = word_of_nat (length (alerts_of k (map snd bs))) \<and> coalesce_key_of (ce_First en) = k"
    if "(k, en) \<in> set (co_entries c)" for k en
    using w that by (auto simp: window_state_def)
  have keys: "map coalesce_key_of firsts = map fst (co_entries c)" using e by (auto simp: firsts_def)
  have win: "co_window c = w" using run_window[OF assms(1)] by (simp add: NewCoalescer_def)
  define rest where "rest = map (flush_alert \<circ> snd) (perm (co_entries c))"
  have "te_alerts t = te_alerts t0 @ firsts" using w by (simp add: window_state_def firsts_def)
  moreover have "co_Flush perm c (Some t) = (NewCoalescer w, Some \<lparr>te_alerts = te_alerts t @ rest\<rparr>)"
    using te_fold[of "perm (co_entries c)" t] win
    by (simp add: co_Flush_def NewCoalescer_def Let_def rest_def test_emitter.equality coalescer.equality)
  moreover have "distinct (map coalesce_key_of firsts)" "set (map coalesce_key_of firsts) = coalesce_key_of ` snd ` set bs"
    unfolding keys using w by (auto simp: window_state_def)
  moreover have "\<forall>a\<in>set firsts. a = hd (alerts_of (coalesce_key_of a) (map snd bs))"
    using e by (fastforce simp: firsts_def)
  moreover have "mset rest = mset (map (\<lambda>a. let n = word_of_nat (length (alerts_of (coalesce_key_of a) (map snd bs))) in
       if 1 < n then a\<lparr>al_EventCount := n, al_Coalesced := True\<rparr> else a) firsts)"
  proof -
    have cnt: "ce_Count en = word_of_nat (length (alerts_of (coalesce_key_of (ce_First en)) (map snd bs)))"
      if "(k, en) \<in> set (co_entries c)" for k en
    proof -
      from e[OF that] have k: "coalesce_key_of (ce_First en) = k" by blast
      show ?thesis unfolding k using e[OF that] by blast
    qed
    have "mset rest = mset (map (flush_alert \<circ> snd) (co_entries c))"
      unfolding rest_def mset_map using assms(2) by simp
    also have "map (flush_alert \<circ> snd) (co_entries c) = map (\<lambda>a. let n = word_of_nat (length (alerts_of (coalesce_key_of a) (map snd bs))) in
       if 1 < n then a\<lparr>al_EventCount := n, al_Coalesced := True\<rparr> else a) firsts"
      unfolding firsts_def using cnt by (auto simp: flush_alert_def Let_def)
    finally show ?thesis .
  qed
  ultimately show ?thesis by blast
qed

definition demo_alert :: "string \<Rightarrow> string \<Rightarrow> alert" where
  "demo_alert i out = zero_alert\<lparr>al_Timestamp := 1, al_RuleID := i, al_Output := out\<rparr>"

theorem coalesce_window_witness:
  "\<exists>c t firsts. coalesce_run [(1, demo_alert ''R1'' ''a''), (2, demo_alert ''R1'' ''b''), (3, demo_alert ''R2'' ''c'')]
      (NewCoalescer 5, NewAlertEmitterForTest) = (c, t) \<and> te_alerts t = firsts \<and>
      set (map al_RuleID firsts) = {''R1'', ''R2''}"
proof -
  let ?bs = "[(1, demo_alert ''R1'' ''a''), (2, demo_alert ''R1'' ''b''), (3, demo_alert ''R2'' ''c'')]"
  obtain c t where r: "coalesce_run ?bs (NewCoalescer 5, NewAlertEmitterForTest) = (c, t)" by force
  from coalesce_window[OF r, of "\<lambda>es. es"] obtain firsts where f: "te_alerts t = te_alerts NewAlertEmitterForTest @ firsts"
    "set (map coalesce_key_of firsts) = coalesce_key_of ` snd ` set ?bs" by auto
  have "set (map al_RuleID firsts) = ck_RuleID ` set (map coalesce_key_of firsts)"
    by (force simp: coalesce_key_of_def)
  also have "\<dots> = {''R1'', ''R2''}" unfolding f(2) by (simp add: coalesce_key_of_def demo_alert_def)
  finally show ?thesis using r f(1) by (auto simp: NewAlertEmitterForTest_def)
qed

end
