(* ===== verification/Correlate.thy ===== *)
theory Correlate
  imports Alert Machine
begin

text \<open>
  \<open>pkg/correlate/correlate.go\<close>: the multi-signal correlation engine. Its rules and windows are Go maps
  that the code ranges over: they are association lists, and the order of each range is an argument
  (a record of permutations). The clock readings within one call are taken equal, as \<open>now\<close>. An index
  into an empty slice is \<open>None\<close>; the printing of a duration is a parameter. The result channel is its
  buffer and capacity; a send that would block drops the result.
\<close>

section \<open>Signals, specifications, windows\<close>

record signal =
  sg_Name :: string
  sg_Timestamp :: time
  sg_PID :: u32
  sg_ContainerID :: string
  sg_Namespace :: string
  sg_RuleID :: string
  sg_Extra :: "string \<rightharpoonup> string"

definition LogicAll :: string where "LogicAll = ''all''"
definition LogicAny :: string where "LogicAny = ''any''"

record corr_spec =
  sp_RuleID :: string
  sp_Window :: duration
  sp_Signals :: "string list"
  sp_Logic :: string
  sp_GroupBy :: "string list"

record correlation_result =
  cs_RuleID :: string
  cs_MatchedSignals :: "signal list"
  cs_WindowStart :: time
  cs_WindowEnd :: time
  cs_GroupKey :: string
  cs_PID :: u32
  cs_ContainerID :: string
  cs_Namespace :: string
  cs_Description :: string

record signal_window =
  sw_RuleID :: string
  sw_GroupKey :: string
  sw_Spec :: corr_spec
  sw_signals :: "(string \<times> signal) list"
  sw_started :: time
  sw_fired :: bool

definition Matches :: "signal_window \<Rightarrow> bool" where
  "Matches sw =
    (if sp_Logic (sw_Spec sw) = LogicAll
     then (\<forall>sigName\<in>set (sp_Signals (sw_Spec sw)). map_of (sw_signals sw) sigName \<noteq> None)
     else if sp_Logic (sw_Spec sw) = LogicAny then length (sw_signals sw) > 0
     else length (sw_signals sw) = length (sp_Signals (sw_Spec sw)))"

definition IsExpired :: "time \<Rightarrow> signal_window \<Rightarrow> bool" where
  "IsExpired now sw \<longleftrightarrow> now - sw_started sw > sp_Window (sw_Spec sw)"

section \<open>The correlator\<close>

type_synonym window_key = "string \<times> string"

record correlator =
  cl_rules :: "(string \<times> corr_spec) list"
  cl_windows :: "(window_key \<times> signal_window) list"
  cl_maxWindows :: nat
  cl_resultCh :: "(correlation_result list \<times> nat) option"
  cl_correlationsFired :: u64
  cl_signalsProcessed :: u64
  cl_windowsCreated :: u64
  cl_windowsExpired :: u64

text \<open>The orders of the three ranges over maps, and the library's printing of a duration.\<close>

record range_orders =
  ro_rules :: "(string \<times> corr_spec) list \<Rightarrow> (string \<times> corr_spec) list"
  ro_windows :: "(window_key \<times> signal_window) list \<Rightarrow> (window_key \<times> signal_window) list"
  ro_signals :: "(string \<times> signal) list \<Rightarrow> (string \<times> signal) list"
  ro_duration :: "duration \<Rightarrow> string"

definition fair_orders :: "range_orders \<Rightarrow> bool" where
  "fair_orders ord \<longleftrightarrow> (\<forall>xs. set (ro_rules ord xs) = set xs \<and> length (ro_rules ord xs) = length xs) \<and>
     (\<forall>xs. set (ro_windows ord xs) = set xs \<and> length (ro_windows ord xs) = length xs) \<and>
     (\<forall>xs. set (ro_signals ord xs) = set xs \<and> length (ro_signals ord xs) = length xs)"

definition NewCorrelator :: correlator where
  "NewCorrelator = \<lparr>cl_rules = [], cl_windows = [], cl_maxWindows = 10000, cl_resultCh = None,
     cl_correlationsFired = 0, cl_signalsProcessed = 0, cl_windowsCreated = 0, cl_windowsExpired = 0\<rparr>"

definition SetResultChannel :: "nat \<Rightarrow> correlator \<Rightarrow> correlator" where
  "SetResultChannel cap c = c\<lparr>cl_resultCh := Some ([], cap)\<rparr>"

definition corr_AddRule :: "corr_spec \<Rightarrow> correlator \<Rightarrow> correlator" where
  "corr_AddRule spec c = c\<lparr>cl_rules := AList.update (sp_RuleID spec) spec (cl_rules c)\<rparr>"

definition corr_RemoveRule :: "string \<Rightarrow> correlator \<Rightarrow> correlator" where
  "corr_RemoveRule ruleID c =
    c\<lparr>cl_rules := AList.delete ruleID (cl_rules c),
      cl_windows := filter (\<lambda>(key, w). fst key \<noteq> ruleID) (cl_windows c)\<rparr>"

definition signalMatchesRule :: "signal \<Rightarrow> corr_spec \<Rightarrow> bool" where
  "signalMatchesRule sig spec \<longleftrightarrow> (\<exists>sigName\<in>set (sp_Signals spec). sg_Name sig = sigName)"

definition group_part :: "signal \<Rightarrow> string \<Rightarrow> string" where
  "group_part sig fld =
    (if fld = ''proc.pid'' \<or> fld = ''pid'' then ''pid:'' @ show_word (sg_PID sig)
     else if fld = ''container.id'' \<or> fld = ''container_id'' then ''cid:'' @ sg_ContainerID sig
     else if fld = ''namespace'' then ''ns:'' @ sg_Namespace sig
     else (case sg_Extra sig fld of Some v \<Rightarrow> fld @ '':'' @ v | None \<Rightarrow> []))"

primrec group_key_loop :: "signal \<Rightarrow> string list \<Rightarrow> string \<Rightarrow> string" where
  "group_key_loop sig [] key = key"
| "group_key_loop sig (fld # flds) key = group_key_loop sig flds (key @ group_part sig fld)"

definition buildGroupKey :: "signal \<Rightarrow> corr_spec \<Rightarrow> string" where
  "buildGroupKey sig spec =
    (if sp_GroupBy spec = [] then ''global''
     else let key = group_key_loop sig (sp_GroupBy spec) [] in if key = [] then ''global'' else key)"

definition buildResult :: "range_orders \<Rightarrow> time \<Rightarrow> signal_window \<Rightarrow> correlation_result option" where
  "buildResult ord now w =
    (let matched = map snd (ro_signals ord (sw_signals w));
         description = ''Correlation fired for rule '' @ sw_RuleID w @ '': '' @ show_nat (length matched) @
           '' signals matched in '' @ ro_duration ord (sp_Window (sw_Spec w)) @ '' window''
     in case matched of
          [] \<Rightarrow> None
        | s0 # _ \<Rightarrow> Some
            \<lparr>cs_RuleID = sw_RuleID w, cs_MatchedSignals = matched, cs_WindowStart = sw_started w,
             cs_WindowEnd = now, cs_GroupKey = sw_GroupKey w, cs_PID = sg_PID s0,
             cs_ContainerID = sg_ContainerID s0, cs_Namespace = sg_Namespace s0, cs_Description = description\<rparr>)"

fun eldest_loop :: "(window_key \<times> signal_window) list \<Rightarrow> window_key \<Rightarrow> time \<Rightarrow> bool \<Rightarrow> window_key" where
  "eldest_loop [] oldestKey oldestTime isFirst = oldestKey"
| "eldest_loop ((key, w) # ws) oldestKey oldestTime isFirst =
     (if isFirst \<or> sw_started w < oldestTime then eldest_loop ws key (sw_started w) False
      else eldest_loop ws oldestKey oldestTime isFirst)"

definition evictEldestWindow :: "range_orders \<Rightarrow> correlator \<Rightarrow> correlator" where
  "evictEldestWindow ord c =
    (let oldestKey = eldest_loop (ro_windows ord (cl_windows c)) ([], []) 0 True
     in if fst oldestKey \<noteq> [] then c\<lparr>cl_windows := AList.delete oldestKey (cl_windows c)\<rparr> else c)"

text \<open>A new window for a signal, in place of an expired one or of the eldest when there are too many.\<close>

definition fresh_window :: "time \<Rightarrow> string \<Rightarrow> string \<Rightarrow> corr_spec \<Rightarrow> signal_window" where
  "fresh_window now ruleID groupKey spec =
    \<lparr>sw_RuleID = ruleID, sw_GroupKey = groupKey, sw_Spec = spec, sw_signals = [], sw_started = now, sw_fired = False\<rparr>"

definition make_room :: "range_orders \<Rightarrow> correlator \<Rightarrow> correlator" where
  "make_room ord c = (if cl_maxWindows c \<le> length (cl_windows c) then evictEldestWindow ord c else c)"

definition create_window ::
    "range_orders \<Rightarrow> time \<Rightarrow> string \<Rightarrow> string \<Rightarrow> corr_spec \<Rightarrow> correlator \<Rightarrow> signal_window \<times> correlator" where
  "create_window ord now ruleID groupKey spec c =
    (let c = make_room ord c; window = fresh_window now ruleID groupKey spec
     in (window, c\<lparr>cl_windows := AList.update (ruleID, groupKey) window (cl_windows c),
                   cl_windowsCreated := cl_windowsCreated c + 1\<rparr>))"

text \<open>The window a signal goes to: the live one, or a new one.\<close>

definition open_window ::
    "range_orders \<Rightarrow> time \<Rightarrow> string \<Rightarrow> string \<Rightarrow> corr_spec \<Rightarrow> correlator \<Rightarrow> signal_window \<times> correlator" where
  "open_window ord now ruleID groupKey spec c =
    (case map_of (cl_windows c) (ruleID, groupKey) of
       None \<Rightarrow> create_window ord now ruleID groupKey spec c
     | Some w \<Rightarrow>
         if IsExpired now w
         then create_window ord now ruleID groupKey spec (c\<lparr>cl_windowsExpired := cl_windowsExpired c + 1\<rparr>)
         else (w, c))"

definition store_window :: "signal_window \<Rightarrow> correlator \<Rightarrow> correlator" where
  "store_window w c = c\<lparr>cl_windows := AList.update (sw_RuleID w, sw_GroupKey w) w (cl_windows c)\<rparr>"

definition add_signal :: "signal \<Rightarrow> signal_window \<Rightarrow> signal_window" where
  "add_signal sig w = w\<lparr>sw_signals := AList.update (sg_Name sig) sig (sw_signals w)\<rparr>"

definition send_result :: "correlation_result \<Rightarrow> correlator \<Rightarrow> correlator" where
  "send_result res c =
    (case cl_resultCh c of
       None \<Rightarrow> c
     | Some (buf, cap) \<Rightarrow> if length buf < cap then c\<lparr>cl_resultCh := Some (buf @ [res], cap)\<rparr> else c)"

text \<open>The loop of \<open>ProcessSignal\<close> over the rules; windows are shared by pointer and written back.\<close>

fun process_rules ::
    "range_orders \<Rightarrow> time \<Rightarrow> signal \<Rightarrow> (string \<times> corr_spec) list \<Rightarrow> correlator \<Rightarrow>
     (correlation_result option \<times> correlator) option" where
  "process_rules ord now sig [] c = Some (None, c)"
| "process_rules ord now sig ((ruleID, spec) # rs) c =
     (if \<not> signalMatchesRule sig spec then process_rules ord now sig rs c
      else
        (let groupKey = buildGroupKey sig spec;
             (w, c) = open_window ord now ruleID groupKey spec c;
             w = add_signal sig w;
             c = store_window w c
         in if sw_fired w then process_rules ord now sig rs c
            else if Matches w then
              (let w = w\<lparr>sw_fired := True\<rparr>; c = store_window w c in
               case buildResult ord now w of
                 None \<Rightarrow> None
               | Some res \<Rightarrow>
                   Some (Some res, send_result res (c\<lparr>cl_correlationsFired := cl_correlationsFired c + 1\<rparr>)))
            else process_rules ord now sig rs c))"

definition ProcessSignal ::
    "range_orders \<Rightarrow> time \<Rightarrow> signal \<Rightarrow> correlator \<Rightarrow> (correlation_result option \<times> correlator) option" where
  "ProcessSignal ord now sig c =
    process_rules ord now sig (ro_rules ord (cl_rules c)) (c\<lparr>cl_signalsProcessed := cl_signalsProcessed c + 1\<rparr>)"

definition purgeExpiredWindows :: "time \<Rightarrow> correlator \<Rightarrow> correlator" where
  "purgeExpiredWindows now c =
    (let live = filter (\<lambda>(key, w). \<not> IsExpired now w) (cl_windows c)
     in c\<lparr>cl_windows := live,
          cl_windowsExpired := cl_windowsExpired c + word_of_nat (length (cl_windows c) - length live)\<rparr>)"

text \<open>\<open>Stats\<close> copies the counters.\<close>

record correlator_stats =
  st_RulesCount :: nat
  st_ActiveWindows :: nat
  st_CorrelationsFired :: u64
  st_SignalsProcessed :: u64
  st_WindowsCreated :: u64
  st_WindowsExpired :: u64

definition corr_Stats :: "correlator \<Rightarrow> correlator_stats" where
  "corr_Stats c = \<lparr>st_RulesCount = length (cl_rules c), st_ActiveWindows = length (cl_windows c),
     st_CorrelationsFired = cl_correlationsFired c, st_SignalsProcessed = cl_signalsProcessed c,
     st_WindowsCreated = cl_windowsCreated c, st_WindowsExpired = cl_windowsExpired c\<rparr>"

definition DefaultCorrelationRules :: "corr_spec list" where
  "DefaultCorrelationRules =
    [\<lparr>sp_RuleID = ''R014'', sp_Window = Seconds 5, sp_Signals = [''shell_procs'', ''net_outbound''],
      sp_Logic = LogicAll, sp_GroupBy = [''proc.pid'']\<rparr>,
     \<lparr>sp_RuleID = ''R011'', sp_Window = Seconds 30, sp_Signals = [''high_cpu'', ''minerpool_connection''],
      sp_Logic = LogicAll, sp_GroupBy = [''container.id'']\<rparr>,
     \<lparr>sp_RuleID = ''R021-R018'', sp_Window = Seconds 10, sp_Signals = [''setuid_transition'', ''sensitive_file_read''],
      sp_Logic = LogicAll, sp_GroupBy = [''proc.pid'']\<rparr>,
     \<lparr>sp_RuleID = ''R003-R001'', sp_Window = Seconds 5, sp_Signals = [''cgroup_mount'', ''namespace_join''],
      sp_Logic = LogicAll, sp_GroupBy = [''container.id'']\<rparr>,
     \<lparr>sp_RuleID = ''TLS-SNI-001'', sp_Window = Seconds 30, sp_Signals = [''tls_suspicious_sni'', ''minerpool_connection''],
      sp_Logic = LogicAny, sp_GroupBy = [''container.id'']\<rparr>,
     \<lparr>sp_RuleID = ''DNS-SNI-001'', sp_Window = Seconds 10, sp_Signals = [''dns_suspicious_query'', ''tls_suspicious_sni''],
      sp_Logic = LogicAny, sp_GroupBy = [''container.id'']\<rparr>,
     \<lparr>sp_RuleID = ''DNS-001'', sp_Window = Seconds 60, sp_Signals = [''dns_suspicious_query''],
      sp_Logic = LogicAny, sp_GroupBy = [''container.id'']\<rparr>]"

end
