(* ===== verification/Correlate_Inv.thy ===== *)
theory Correlate_Inv
  imports Correlate
begin

text \<open>
  The invariant of the correlation engine, its preservation by every operation, and the soundness of
  the results.
\<close>

section \<open>Well-formed correlators\<close>

text \<open>The window \<open>w\<close> under its key: it belongs to a rule, all its signals are of that rule and group, and
  arrived between the start of the window and its end.\<close>

definition window_ok :: "correlator \<Rightarrow> window_key \<Rightarrow> signal_window \<Rightarrow> bool" where
  "window_ok c key w \<longleftrightarrow>
     key = (sw_RuleID w, sw_GroupKey w) \<and> (sw_RuleID w, sw_Spec w) \<in> set (cl_rules c) \<and> sw_signals w \<noteq> [] \<and>
     (\<forall>(n, s)\<in>set (sw_signals w). sg_Name s = n \<and> n \<in> set (sp_Signals (sw_Spec w)) \<and>
        buildGroupKey s (sw_Spec w) = sw_GroupKey w \<and>
        sw_started w \<le> sg_Timestamp s \<and> sg_Timestamp s \<le> sw_started w + sp_Window (sw_Spec w))"

definition corr_inv :: "time \<times> correlator \<Rightarrow> bool" where
  "corr_inv s \<longleftrightarrow> (case s of (T, c) \<Rightarrow>
     0 < cl_maxWindows c \<and> length (cl_windows c) \<le> cl_maxWindows c \<and>
     distinct (map fst (cl_rules c)) \<and> distinct (map fst (cl_windows c)) \<and>
     (\<forall>(i, spec)\<in>set (cl_rules c). i = sp_RuleID spec \<and> i \<noteq> [] \<and> 0 \<le> sp_Window spec) \<and>
     (\<forall>(key, w)\<in>set (cl_windows c). window_ok c key w \<and> sw_started w \<le> T))"

lemma corr_invD:
  assumes "corr_inv (T, c)"
  shows "0 < cl_maxWindows c" "length (cl_windows c) \<le> cl_maxWindows c"
    "distinct (map fst (cl_rules c))" "distinct (map fst (cl_windows c))"
    "(i, spec) \<in> set (cl_rules c) \<Longrightarrow> i = sp_RuleID spec \<and> i \<noteq> [] \<and> 0 \<le> sp_Window spec"
    "(key, w) \<in> set (cl_windows c) \<Longrightarrow> window_ok c key w \<and> sw_started w \<le> T"
  using assms unfolding corr_inv_def by auto

lemma corr_invI:
  assumes "0 < cl_maxWindows c" "length (cl_windows c) \<le> cl_maxWindows c"
    "distinct (map fst (cl_rules c))" "distinct (map fst (cl_windows c))"
    "\<And>i spec. (i, spec) \<in> set (cl_rules c) \<Longrightarrow> i = sp_RuleID spec \<and> i \<noteq> [] \<and> 0 \<le> sp_Window spec"
    "\<And>key w. (key, w) \<in> set (cl_windows c) \<Longrightarrow> window_ok c key w \<and> sw_started w \<le> T"
  shows "corr_inv (T, c)"
  using assms unfolding corr_inv_def by auto

lemma eldest_loop_mem: "eldest_loop ws k t b = k \<and> ws = [] \<or> ws \<noteq> [] \<and> b = False \<and> eldest_loop ws k t b = k \<or>
    eldest_loop ws k t b \<in> fst ` set ws"
  by (induction ws k t b rule: eldest_loop.induct) auto

lemma evict_shrinks:
  assumes "fair_orders ord" "distinct (map fst (cl_windows c))" "cl_windows c \<noteq> []"
    "\<forall>(key, w)\<in>set (cl_windows c). fst key \<noteq> []"
  shows "length (cl_windows (evictEldestWindow ord c)) < length (cl_windows c)"
proof -
  define k where "k = eldest_loop (ro_windows ord (cl_windows c)) ([], []) 0 True"
  have "set (ro_windows ord (cl_windows c)) = set (cl_windows c)" using assms(1) by (simp add: fair_orders_def)
  then have "k \<in> fst ` set (cl_windows c)"
    using eldest_loop_mem[of "ro_windows ord (cl_windows c)" "([], [])" 0 True] assms(3) by (auto simp: k_def)
  moreover then have "fst k \<noteq> []" using assms(4) by force
  ultimately show ?thesis
    using length_delete_in[of k "cl_windows c"] by (simp add: evictEldestWindow_def k_def[symmetric] Let_def)
qed

lemma evict_frame [simp]:
  "cl_rules (evictEldestWindow ord c) = cl_rules c" "cl_maxWindows (evictEldestWindow ord c) = cl_maxWindows c"
  "cl_resultCh (evictEldestWindow ord c) = cl_resultCh c"
  by (simp_all add: evictEldestWindow_def Let_def)

lemma evict_windows: "set (cl_windows (evictEldestWindow ord c)) \<subseteq> set (cl_windows c)"
  by (auto simp: evictEldestWindow_def Let_def AList.delete_eq)

lemma evict_distinct: "distinct (map fst (cl_windows c)) \<Longrightarrow> distinct (map fst (cl_windows (evictEldestWindow ord c)))"
  by (auto simp: evictEldestWindow_def Let_def AList.delete_eq distinct_keys_filter)

lemma window_okD:
  "window_ok c key w \<Longrightarrow> (n, s) \<in> set (sw_signals w) \<Longrightarrow> sg_Name s = n \<and> n \<in> set (sp_Signals (sw_Spec w)) \<and>
     buildGroupKey s (sw_Spec w) = sw_GroupKey w \<and>
     sw_started w \<le> sg_Timestamp s \<and> sg_Timestamp s \<le> sw_started w + sp_Window (sw_Spec w)"
  unfolding window_ok_def by blast

lemma window_ok_cong: "cl_rules c' = cl_rules c \<Longrightarrow> window_ok c' = window_ok c"
  by (simp add: window_ok_def fun_eq_iff)

lemma evict_inv: "corr_inv (T, c) \<Longrightarrow> corr_inv (T, evictEldestWindow ord c)"
proof (rule corr_invI)
  assume i: "corr_inv (T, c)"
  show "length (cl_windows (evictEldestWindow ord c)) \<le> cl_maxWindows (evictEldestWindow ord c)"
    using order_trans[OF length_delete_le corr_invD(2)[OF i]] corr_invD(2)[OF i]
    by (simp add: evictEldestWindow_def Let_def)
  show "distinct (map fst (cl_windows (evictEldestWindow ord c)))"
    using corr_invD(4)[OF i] by (rule evict_distinct)
  show "(key, w) \<in> set (cl_windows (evictEldestWindow ord c)) \<Longrightarrow> window_ok (evictEldestWindow ord c) key w \<and> sw_started w \<le> T" for key w
    using corr_invD(6)[OF i, of key w] evict_windows[of ord c] window_ok_cong[of "evictEldestWindow ord c" c] by auto
qed (auto dest: corr_invD)

lemma add_signal_simps [simp]:
  "sw_RuleID (add_signal sig w) = sw_RuleID w" "sw_GroupKey (add_signal sig w) = sw_GroupKey w"
  "sw_Spec (add_signal sig w) = sw_Spec w" "sw_started (add_signal sig w) = sw_started w"
  "sw_fired (add_signal sig w) = sw_fired w"
  "sw_signals (add_signal sig w) = AList.update (sg_Name sig) sig (sw_signals w)"
  by (simp_all add: add_signal_def)

text \<open>What \<open>open_window\<close> returns: a live window of the group, or a fresh one.\<close>

lemma open_window_spec:
  assumes inv: "corr_inv (T, c)" and ord: "fair_orders ord" and rule: "(rid, spec) \<in> set (cl_rules c)"
    and now: "T \<le> now" and op: "open_window ord now rid gk spec c = (w, c')"
  shows "sw_RuleID w = rid \<and> sw_GroupKey w = gk \<and> sw_Spec w = spec \<and> sw_started w \<le> now \<and>
    now \<le> sw_started w + sp_Window spec \<and> (sw_signals w = [] \<or> window_ok c (rid, gk) w) \<and>
    cl_rules c' = cl_rules c \<and> cl_maxWindows c' = cl_maxWindows c \<and>
    distinct (map fst (cl_windows c')) \<and> length (cl_windows c') \<le> cl_maxWindows c \<and>
    (rid, gk) \<in> fst ` set (cl_windows c') \<and>
    (\<forall>(key, v)\<in>set (cl_windows c'). key \<noteq> (rid, gk) \<longrightarrow> (key, v) \<in> set (cl_windows c))"
proof -
  note D = corr_invD[OF inv]
  have window: "0 \<le> sp_Window spec" using D(5)[OF rule] by blast
  have made: ?thesis if d: "cl_rules d = cl_rules c" "cl_maxWindows d = cl_maxWindows c" "cl_windows d = cl_windows c"
    and e: "create_window ord now rid gk spec d = (w, c')" for d
  proof -
    define d' where "d' = make_room ord d"
    have w: "w = fresh_window now rid gk spec"
      and c': "c' = d'\<lparr>cl_windows := AList.update (rid, gk) w (cl_windows d'), cl_windowsCreated := cl_windowsCreated d' + 1\<rparr>"
      using e by (auto simp: create_window_def d'_def Let_def)
    have "\<forall>(key, v)\<in>set (cl_windows c). fst key \<noteq> []" using D(5,6) by (fastforce simp: window_ok_def)
    then have len: "length (cl_windows d') < cl_maxWindows c"
      using evict_shrinks[OF ord, of d] D(1,2,4) by (auto simp: d'_def make_room_def d)
    have sub: "set (cl_windows d') \<subseteq> set (cl_windows c)" "distinct (map fst (cl_windows d'))"
      using evict_windows[of ord d] evict_distinct[of d ord] D(4) by (auto simp: d'_def make_room_def d)
    have conf: "cl_rules d' = cl_rules c" "cl_maxWindows d' = cl_maxWindows c" by (auto simp: d'_def make_room_def d)
    have "length (AList.update (rid, gk) w (cl_windows d')) \<le> cl_maxWindows c"
      using len length_update_new[of "(rid, gk)" "cl_windows d'"] length_update_old[of "(rid, gk)" "cl_windows d'"]
      by (cases "(rid, gk) \<in> fst ` set (cl_windows d')") auto
    then show ?thesis
      using conf sub window by (auto simp: c' set_update_keys) (simp_all add: w fresh_window_def)
  qed
  show ?thesis
  proof (cases "map_of (cl_windows c) (rid, gk)")
    case None
    then have "create_window ord now rid gk spec c = (w, c')" using op by (simp add: open_window_def)
    from made[OF refl refl refl this] show ?thesis .
  next
    case (Some v)
    then have v: "((rid, gk), v) \<in> set (cl_windows c)" by (rule map_of_SomeD)
    show ?thesis
    proof (cases "IsExpired now v")
      case True
      then have "create_window ord now rid gk spec (c\<lparr>cl_windowsExpired := cl_windowsExpired c + 1\<rparr>) = (w, c')"
        using op Some by (simp add: open_window_def)
      from made[OF _ _ _ this] show ?thesis by simp
    next
      case False
      then have e: "w = v" "c' = c" using op Some by (simp_all add: open_window_def Let_def)
      have ok: "window_ok c (rid, gk) v" "sw_started v \<le> T" using D(6)[OF v] by simp_all
      then have "(rid, sw_Spec v) \<in> set (cl_rules c)" by (simp add: window_ok_def)
      then have "sw_Spec v = spec" using rule D(3) by (metis eq_key_imp_eq_value)
      moreover have "(rid, gk) \<in> fst ` set (cl_windows c)" using v by force
      ultimately show ?thesis using ok False now D(2,4) e by (auto simp: IsExpired_def window_ok_def)
    qed
  qed
qed

lemma store_window_simps [simp]:
  "cl_rules (store_window w c) = cl_rules c" "cl_maxWindows (store_window w c) = cl_maxWindows c"
  "cl_windows (store_window w c) = AList.update (sw_RuleID w, sw_GroupKey w) w (cl_windows c)"
  by (simp_all add: store_window_def)

lemma send_result_simps [simp]:
  "cl_rules (send_result res c) = cl_rules c" "cl_windows (send_result res c) = cl_windows c"
  "cl_maxWindows (send_result res c) = cl_maxWindows c"
  by (auto simp: send_result_def split: option.splits)

lemma corr_inv_cong:
  "cl_rules c' = cl_rules c \<Longrightarrow> cl_windows c' = cl_windows c \<Longrightarrow> cl_maxWindows c' = cl_maxWindows c \<Longrightarrow>
     corr_inv (T, c') = corr_inv (T, c)"
  by (simp add: corr_inv_def window_ok_cong[of c' c])

lemma add_signal_ok:
  assumes "sw_signals w = [] \<or> window_ok c (rid, gk) w" "sw_RuleID w = rid" "sw_GroupKey w = gk" "sw_Spec w = spec"
    and "(rid, spec) \<in> set (cl_rules c)" "signalMatchesRule sig spec" "gk = buildGroupKey sig spec"
    and "sg_Timestamp sig = now" "sw_started w \<le> now" "now \<le> sw_started w + sp_Window spec"
  shows "window_ok c (rid, gk) (add_signal sig w)"
proof -
  have "AList.update (sg_Name sig) sig (sw_signals w) \<noteq> []" by (cases "sw_signals w") auto
  moreover have "sg_Name s = n \<and> n \<in> set (sp_Signals spec) \<and> buildGroupKey s spec = gk \<and>
      sw_started w \<le> sg_Timestamp s \<and> sg_Timestamp s \<le> sw_started w + sp_Window spec"
    if "(n, s) \<in> set (AList.update (sg_Name sig) sig (sw_signals w))" for n s
  proof -
    from that consider "(n, s) = (sg_Name sig, sig)" | "(n, s) \<in> set (sw_signals w)" using set_update_sub by force
    then show ?thesis
    proof cases
      case 1
      then show ?thesis using assms(6-10) by (simp add: signalMatchesRule_def)
    next
      case 2
      then have "window_ok c (rid, gk) w" using assms(1) by auto
      from window_okD[OF this 2] show ?thesis unfolding assms(3,4) by blast
    qed
  qed
  ultimately show ?thesis unfolding window_ok_def add_signal_simps assms(2-4) using assms(5) by blast
qed

lemma store_inv:
  assumes "corr_inv (T, c)" "window_ok c (sw_RuleID w, sw_GroupKey w) w" "sw_started w \<le> T"
    "(sw_RuleID w, sw_GroupKey w) \<in> fst ` set (cl_windows c)"
  shows "corr_inv (T, store_window w c)"
proof (rule corr_invI)
  note D = corr_invD[OF assms(1)]
  show "length (cl_windows (store_window w c)) \<le> cl_maxWindows (store_window w c)"
    using D(2) length_update_old[OF assms(4)] by simp
  fix key v assume "(key, v) \<in> set (cl_windows (store_window w c))"
  then consider "key = (sw_RuleID w, sw_GroupKey w)" "v = w" | "(key, v) \<in> set (cl_windows c)"
    using D(4) by (auto simp: set_update_keys)
  then show "window_ok (store_window w c) key v \<and> sw_started v \<le> T"
    using D(6) assms(2,3) window_ok_cong[of "store_window w c" c] by cases auto
qed (use corr_invD[OF assms(1)] in \<open>auto\<close>)

text \<open>A result that means what it says.\<close>

definition sound_result :: "correlator \<Rightarrow> signal \<Rightarrow> time \<Rightarrow> correlation_result \<Rightarrow> bool" where
  "sound_result c sig now res \<longleftrightarrow>
     (\<exists>spec. (cs_RuleID res, spec) \<in> set (cl_rules c) \<and> sig \<in> set (cs_MatchedSignals res) \<and>
        cs_WindowEnd res = now \<and> cs_WindowStart res \<le> now \<and> now \<le> cs_WindowStart res + sp_Window spec \<and>
        (\<forall>s\<in>set (cs_MatchedSignals res). sg_Name s \<in> set (sp_Signals spec) \<and>
           buildGroupKey s spec = cs_GroupKey res \<and>
           cs_WindowStart res \<le> sg_Timestamp s \<and> sg_Timestamp s \<le> cs_WindowStart res + sp_Window spec) \<and>
        (sp_Logic spec = LogicAll \<longrightarrow> set (sp_Signals spec) \<subseteq> sg_Name ` set (cs_MatchedSignals res)))"

lemma buildResult_sound:
  assumes "fair_orders ord" "window_ok c (rid, gk) w" "Matches w" "(sg_Name sig, sig) \<in> set (sw_signals w)"
    "sw_started w \<le> now" "now \<le> sw_started w + sp_Window (sw_Spec w)"
  shows "\<exists>res. buildResult ord now (w\<lparr>sw_fired := True\<rparr>) = Some res \<and> sound_result c sig now res"
proof -
  have set: "set (ro_signals ord (sw_signals w)) = set (sw_signals w)" using assms(1) by (simp add: fair_orders_def)
  obtain s0 ss where m: "map snd (ro_signals ord (sw_signals w)) = s0 # ss"
    using assms(2) set by (cases "ro_signals ord (sw_signals w)") (auto simp: window_ok_def)
  have matched: "set (s0 # ss) = snd ` set (sw_signals w)" unfolding m[symmetric] by (simp add: set)
  have "set (sp_Signals (sw_Spec w)) \<subseteq> sg_Name ` set (s0 # ss)" if "sp_Logic (sw_Spec w) = LogicAll"
  proof
    fix n assume n: "n \<in> set (sp_Signals (sw_Spec w))"
    have "\<forall>n\<in>set (sp_Signals (sw_Spec w)). map_of (sw_signals w) n \<noteq> None"
      using assms(3) that by (simp add: Matches_def)
    with n obtain s where "map_of (sw_signals w) n = Some s" by blast
    then have "(n, s) \<in> set (sw_signals w)" by (rule map_of_SomeD)
    moreover from this have "sg_Name s = n" using window_okD[OF assms(2)] by blast
    ultimately have "sg_Name s = n" "s \<in> snd ` set (sw_signals w)" by force+
    with matched have "sg_Name s = n" "s \<in> set (s0 # ss)" by simp_all
    then show "n \<in> sg_Name ` set (s0 # ss)" by blast
  qed
  moreover have "sig \<in> set (s0 # ss)" using assms(4) matched by force
  moreover have "\<forall>s\<in>set (s0 # ss). sg_Name s \<in> set (sp_Signals (sw_Spec w)) \<and>
           buildGroupKey s (sw_Spec w) = sw_GroupKey w \<and>
           sw_started w \<le> sg_Timestamp s \<and> sg_Timestamp s \<le> sw_started w + sp_Window (sw_Spec w)"
    unfolding matched using window_okD[OF assms(2)] by force
  moreover have "(sw_RuleID w, sw_Spec w) \<in> set (cl_rules c)" using assms(2) by (simp add: window_ok_def)
  ultimately show ?thesis using assms(5,6)
    by (auto simp: buildResult_def m sound_result_def simp del: list.set)
qed

lemma sound_result_cong: "cl_rules c' = cl_rules c \<Longrightarrow> sound_result c' = sound_result c"
  by (simp add: sound_result_def fun_eq_iff)

text \<open>One rule: opening the window, adding the signal, storing.\<close>

lemma place_signal:
  assumes "corr_inv (T, c)" "fair_orders ord" "(rid, spec) \<in> set (cl_rules c)" "T \<le> now"
    and "signalMatchesRule sig spec" "sg_Timestamp sig = now"
    and "open_window ord now rid (buildGroupKey sig spec) spec c = (w, c')"
  shows "corr_inv (now, store_window (add_signal sig w) c') \<and> cl_rules c' = cl_rules c \<and>
    window_ok c (rid, buildGroupKey sig spec) (add_signal sig w) \<and>
    sw_started w \<le> now \<and> now \<le> sw_started w + sp_Window (sw_Spec w)"
proof -
  note D = corr_invD[OF assms(1)]
  note O = open_window_spec[OF assms(1-4,7)]
  have ok: "window_ok c (rid, buildGroupKey sig spec) (add_signal sig w)"
    using O assms(3,5,6) by (intro add_signal_ok) auto
  have key: "(rid, buildGroupKey sig spec) \<in> fst ` set (cl_windows c')" using O by blast
  have dis: "distinct (map fst (cl_windows c'))" using O by blast
  have "corr_inv (now, store_window (add_signal sig w) c')"
  proof (rule corr_invI)
    show "length (cl_windows (store_window (add_signal sig w) c')) \<le> cl_maxWindows (store_window (add_signal sig w) c')"
      using O length_update_old[OF key] by simp
    fix key v assume "(key, v) \<in> set (cl_windows (store_window (add_signal sig w) c'))"
    then consider "key = (rid, buildGroupKey sig spec)" "v = add_signal sig w"
      | "(key, v) \<in> set (cl_windows c')" "key \<noteq> (rid, buildGroupKey sig spec)"
      using O by (auto simp: set_update_keys)
    then show "window_ok (store_window (add_signal sig w) c') key v \<and> sw_started v \<le> now"
    proof cases
      case 1
      then show ?thesis using ok O window_ok_cong[of "store_window (add_signal sig w) c'" c] by simp
    next
      case 2
      then have "(key, v) \<in> set (cl_windows c)" using O by blast
      from D(6)[OF this] show ?thesis using O assms(4) window_ok_cong[of "store_window (add_signal sig w) c'" c] by auto
    qed
  qed (use O D in \<open>auto\<close>)
  then show ?thesis using ok O by auto
qed

lemma process_rules_spec:
  assumes "fair_orders ord" "sg_Timestamp sig = now"
  shows "corr_inv (T, c) \<Longrightarrow> T \<le> now \<Longrightarrow> set rs \<subseteq> set (cl_rules c) \<Longrightarrow>
    \<exists>r c'. process_rules ord now sig rs c = Some (r, c') \<and> corr_inv (now, c') \<and> cl_rules c' = cl_rules c \<and>
      (\<forall>res. r = Some res \<longrightarrow> sound_result c sig now res)"
proof (induction rs arbitrary: T c)
  case Nil
  then show ?case by (auto simp: corr_inv_def)
next
  case (Cons rl rs)
  obtain rid spec where rl: "rl = (rid, spec)" by force
  show ?case
  proof (cases "signalMatchesRule sig spec")
    case False
    then show ?thesis using Cons.IH[OF Cons.prems(1,2)] Cons.prems(3) by (simp add: rl)
  next
    case True
    obtain w c1 where op: "open_window ord now rid (buildGroupKey sig spec) spec c = (w, c1)" by force
    define w1 where "w1 = add_signal sig w"
    define c2 where "c2 = store_window w1 c1"
    have P: "corr_inv (now, c2)" "cl_rules c2 = cl_rules c" "window_ok c (rid, buildGroupKey sig spec) w1"
      "sw_started w1 \<le> now" "now \<le> sw_started w1 + sp_Window (sw_Spec w1)"
      using place_signal[OF Cons.prems(1) assms(1) _ Cons.prems(2) True assms(2) op] Cons.prems(3) rl
      by (auto simp: c2_def w1_def)
    have unf: "process_rules ord now sig (rl # rs) c =
      (if sw_fired w1 then process_rules ord now sig rs c2
       else if Matches w1 then
         (case buildResult ord now (w1\<lparr>sw_fired := True\<rparr>) of None \<Rightarrow> None
          | Some res \<Rightarrow> Some (Some res, send_result res ((store_window (w1\<lparr>sw_fired := True\<rparr>) c2)
               \<lparr>cl_correlationsFired := cl_correlationsFired (store_window (w1\<lparr>sw_fired := True\<rparr>) c2) + 1\<rparr>)))
       else process_rules ord now sig rs c2)"
      using True op unfolding rl w1_def c2_def by (simp add: Let_def)
    have rest: ?thesis if "process_rules ord now sig (rl # rs) c = process_rules ord now sig rs c2"
      using Cons.IH[OF P(1) order_refl] Cons.prems(3) P(2) that sound_result_cong[OF P(2)] by simp
    show ?thesis
    proof (cases "sw_fired w1 \<or> \<not> Matches w1")
      case True
      then show ?thesis using unf rest by auto
    next
      case False
      have "(sg_Name sig, sig) \<in> set (sw_signals w1)"
        using map_of_SomeD[of "sw_signals w1" "sg_Name sig" sig] by (simp add: w1_def update_conv)
      with buildResult_sound[OF assms(1) P(3) _ _ P(4,5)] False
      obtain res where res: "buildResult ord now (w1\<lparr>sw_fired := True\<rparr>) = Some res" "sound_result c sig now res" by blast
      define c3 where "c3 = store_window (w1\<lparr>sw_fired := True\<rparr>) c2"
      have key: "(rid, buildGroupKey sig spec) = (sw_RuleID w1, sw_GroupKey w1)" using P(3) by (simp add: window_ok_def)
      then have "corr_inv (now, c3)" unfolding c3_def
        using P keys_update_insert[of "(sw_RuleID w1, sw_GroupKey w1)" w1 "cl_windows c1"] window_ok_cong[OF P(2)]
        by (intro store_inv) (auto simp: c2_def window_ok_def)
      then have "corr_inv (now, send_result res (c3\<lparr>cl_correlationsFired := cl_correlationsFired c3 + 1\<rparr>))"
        by (subst corr_inv_cong[of _ c3]) simp_all
      then show ?thesis using unf False res P(2) by (simp add: c3_def)
    qed
  qed
qed

lemma open_window_max: "open_window ord now rid gk spec c = (w, c') \<Longrightarrow> cl_maxWindows c' = cl_maxWindows c"
  by (auto simp: open_window_def create_window_def make_room_def Let_def split: option.splits if_splits)

lemma process_rules_max:
  "process_rules ord now sig rs c = Some (r, c') \<Longrightarrow> cl_maxWindows c' = cl_maxWindows c"
proof (induction rs arbitrary: c)
  case (Cons rl rs)
  obtain rid spec where rl: "rl = (rid, spec)" by force
  obtain w c1 where op: "open_window ord now rid (buildGroupKey sig spec) spec c = (w, c1)" by force
  from Cons.prems open_window_max[OF op] show ?case
    using Cons.IH op by (auto simp: rl Let_def split: if_splits option.splits)
qed simp

section \<open>The correlator as a machine\<close>

inductive corr_step :: "time \<times> correlator \<Rightarrow> time \<times> correlator \<Rightarrow> bool" where
  step_signal: "fair_orders ord \<Longrightarrow> T \<le> now \<Longrightarrow> sg_Timestamp sig = now \<Longrightarrow>
     ProcessSignal ord now sig c = Some (r, c') \<Longrightarrow> corr_step (T, c) (now, c')"
| step_add: "sp_RuleID spec \<noteq> [] \<Longrightarrow> sp_RuleID spec \<notin> fst ` set (cl_rules c) \<Longrightarrow> 0 \<le> sp_Window spec \<Longrightarrow>
     corr_step (T, c) (T, corr_AddRule spec c)"
| step_remove: "corr_step (T, c) (T, corr_RemoveRule ruleID c)"
| step_purge: "T \<le> now \<Longrightarrow> corr_step (T, c) (now, purgeExpiredWindows now c)"
| step_channel: "corr_step (T, c) (T, SetResultChannel cap c)"

inductive_cases corr_stepE: "corr_step s t"

lemma ProcessSignal_spec:
  assumes "corr_inv (T, c)" "fair_orders ord" "T \<le> now" "sg_Timestamp sig = now"
  shows "\<exists>r c'. ProcessSignal ord now sig c = Some (r, c') \<and> corr_inv (now, c') \<and> cl_maxWindows c' = cl_maxWindows c \<and>
    (\<forall>res. r = Some res \<longrightarrow> sound_result c sig now res)"
proof -
  define d where "d = c\<lparr>cl_signalsProcessed := cl_signalsProcessed c + 1\<rparr>"
  have d: "corr_inv (T, d)" "cl_rules d = cl_rules c" "cl_maxWindows d = cl_maxWindows c"
    using assms(1) corr_inv_cong[of d c T] by (simp_all add: d_def)
  have "set (ro_rules ord (cl_rules c)) \<subseteq> set (cl_rules d)" using assms(2) d by (simp add: fair_orders_def)
  from process_rules_spec[OF assms(2,4) d(1) assms(3) this] show ?thesis
    using process_rules_max d sound_result_cong[OF d(2)] unfolding ProcessSignal_def d_def[symmetric] by metis
qed

lemma corr_inv_add:
  assumes "corr_inv (T, c)" "sp_RuleID spec \<noteq> []" "sp_RuleID spec \<notin> fst ` set (cl_rules c)" "0 \<le> sp_Window spec"
  shows "corr_inv (T, corr_AddRule spec c)"
proof (rule corr_invI)
  note D = corr_invD[OF assms(1)]
  have new: "AList.update (sp_RuleID spec) spec (cl_rules c) = cl_rules c @ [(sp_RuleID spec, spec)]"
    by (rule update_fresh) (rule assms(3))
  show "0 < cl_maxWindows (corr_AddRule spec c)" "length (cl_windows (corr_AddRule spec c)) \<le> cl_maxWindows (corr_AddRule spec c)"
    "distinct (map fst (cl_rules (corr_AddRule spec c)))" "distinct (map fst (cl_windows (corr_AddRule spec c)))"
    using D by (simp_all add: corr_AddRule_def)
  show "(i, sp) \<in> set (cl_rules (corr_AddRule spec c)) \<Longrightarrow> i = sp_RuleID sp \<and> i \<noteq> [] \<and> 0 \<le> sp_Window sp" for i sp
    using D(5) assms by (auto simp: corr_AddRule_def new)
  fix key w assume "(key, w) \<in> set (cl_windows (corr_AddRule spec c))"
  then have "window_ok c key w \<and> sw_started w \<le> T" using D(6) by (simp add: corr_AddRule_def)
  then show "window_ok (corr_AddRule spec c) key w \<and> sw_started w \<le> T"
    by (auto simp: window_ok_def corr_AddRule_def new)
qed

lemma corr_inv_remove: "corr_inv (T, c) \<Longrightarrow> corr_inv (T, corr_RemoveRule rid c)"
proof (rule corr_invI)
  assume i: "corr_inv (T, c)"
  note D = corr_invD[OF i]
  show "length (cl_windows (corr_RemoveRule rid c)) \<le> cl_maxWindows (corr_RemoveRule rid c)"
    using D(2) by (auto simp: corr_RemoveRule_def intro: order_trans[OF length_filter_le])
  show "distinct (map fst (cl_rules (corr_RemoveRule rid c)))" "distinct (map fst (cl_windows (corr_RemoveRule rid c)))"
    using D(3,4) by (simp_all add: corr_RemoveRule_def distinct_delete distinct_keys_filter)
  show "(i, sp) \<in> set (cl_rules (corr_RemoveRule rid c)) \<Longrightarrow> i = sp_RuleID sp \<and> i \<noteq> [] \<and> 0 \<le> sp_Window sp" for i sp
    using D(5) by (auto simp: corr_RemoveRule_def AList.delete_eq)
  fix key w assume k: "(key, w) \<in> set (cl_windows (corr_RemoveRule rid c))"
  then have "window_ok c key w" "sw_started w \<le> T" "fst key \<noteq> rid"
    using D(6)[of key w] by (simp_all add: corr_RemoveRule_def)
  then show "window_ok (corr_RemoveRule rid c) key w \<and> sw_started w \<le> T"
    by (auto simp: window_ok_def corr_RemoveRule_def AList.delete_eq)
qed (auto simp: corr_RemoveRule_def dest: corr_invD)

lemma corr_inv_purge: "corr_inv (T, c) \<Longrightarrow> T \<le> now \<Longrightarrow> corr_inv (now, purgeExpiredWindows now c)"
proof (rule corr_invI)
  assume i: "corr_inv (T, c)" and now: "T \<le> now"
  note D = corr_invD[OF i]
  show "length (cl_windows (purgeExpiredWindows now c)) \<le> cl_maxWindows (purgeExpiredWindows now c)"
    using D(2) by (auto simp: purgeExpiredWindows_def Let_def intro: order_trans[OF length_filter_le])
  show "distinct (map fst (cl_windows (purgeExpiredWindows now c)))"
    using D(4) by (simp add: purgeExpiredWindows_def Let_def distinct_keys_filter)
  fix key w assume k: "(key, w) \<in> set (cl_windows (purgeExpiredWindows now c))"
  then have "window_ok c key w" "sw_started w \<le> now"
    using D(6)[of key w] now by (auto simp: purgeExpiredWindows_def Let_def)
  then show "window_ok (purgeExpiredWindows now c) key w \<and> sw_started w \<le> now"
    using window_ok_cong[of "purgeExpiredWindows now c" c] by (simp add: purgeExpiredWindows_def Let_def)
qed (auto simp: purgeExpiredWindows_def Let_def dest: corr_invD)

interpretation corr: invariant_system
  "\<lambda>s. \<exists>T. s = (T, NewCorrelator)" corr_step "\<lambda>s. corr_inv s \<and> cl_maxWindows (snd s) = 10000"
proof
  fix s t
  show "\<exists>T. s = (T, NewCorrelator) \<Longrightarrow> corr_inv s \<and> cl_maxWindows (snd s) = 10000"
    by (auto simp: corr_inv_def NewCorrelator_def)
  assume s: "corr_inv s \<and> cl_maxWindows (snd s) = 10000" and "corr_step s t"
  from this(2) show "corr_inv t \<and> cl_maxWindows (snd t) = 10000"
  proof (cases rule: corr_step.cases)
    case (step_signal ord T now sig c r c')
    then show ?thesis using ProcessSignal_spec[of T c ord now sig] s by auto
  next
    case (step_add spec c T)
    then show ?thesis using corr_inv_add s by (simp add: corr_AddRule_def)
  next
    case (step_remove T c rid)
    then show ?thesis using corr_inv_remove s by (simp add: corr_RemoveRule_def)
  next
    case (step_purge T now c)
    have "cl_maxWindows (purgeExpiredWindows now c) = cl_maxWindows c" by (simp add: purgeExpiredWindows_def Let_def)
    then show ?thesis using corr_inv_purge[of T c now] s step_purge by simp
  next
    case (step_channel T c cap)
    then show ?thesis using s corr_inv_cong[of "SetResultChannel cap c" c T] by (simp add: SetResultChannel_def)
  qed
qed

text \<open>C23: A fired correlation is sound and the engine stays bounded. In every state reachable by adding
  new rules with a name and a window, removing rules, purging and processing signals, whatever the
  orders of the map ranges: processing a signal does not panic, leaves at most 10000 windows, and a
  result it returns belongs to a registered rule; its signals, the new one among them, are all of that
  rule and of one group, arrived within the rule's window, and with logic \<open>all\<close> cover every signal the
  rule asks for.\<close>

theorem correlation_sound:
  assumes "fair_orders ord" "corr_step\<^sup>*\<^sup>* (T0, NewCorrelator) (T, c)" "T \<le> now" "sg_Timestamp sig = now"
  shows "\<exists>r c'. ProcessSignal ord now sig c = Some (r, c') \<and> length (cl_windows c') \<le> 10000 \<and>
    (\<forall>res. r = Some res \<longrightarrow> sound_result c sig now res)"
proof -
  have "corr_inv (T, c)" "cl_maxWindows c = 10000"
    using corr.reachable_inv[of "(T0, NewCorrelator)" "(T, c)"] assms(2) by auto
  with ProcessSignal_spec[OF _ assms(1,3,4)] show ?thesis by (fastforce dest: corr_invD(2))
qed

definition sound_demo_signal :: signal where
  "sound_demo_signal = \<lparr>sg_Name = ''dns_suspicious_query'', sg_Timestamp = 1, sg_PID = 7, sg_ContainerID = ''c1'',
     sg_Namespace = ''prod'', sg_RuleID = [], sg_Extra = Map.empty\<rparr>"

theorem correlation_sound_witness:
  "\<exists>r c'. ProcessSignal \<lparr>ro_rules = rev, ro_windows = rev, ro_signals = rev, ro_duration = (\<lambda>_. ''1m0s'')\<rparr> 1 sound_demo_signal
      (corr_AddRule (DefaultCorrelationRules ! 6) NewCorrelator) = Some (r, c') \<and> length (cl_windows c') \<le> 10000"
proof -
  let ?ord = "\<lparr>ro_rules = rev, ro_windows = rev, ro_signals = rev, ro_duration = (\<lambda>_. ''1m0s'')\<rparr>"
  have "corr_step (0, NewCorrelator) (0, corr_AddRule (DefaultCorrelationRules ! 6) NewCorrelator)"
    by (rule step_add) (simp_all add: DefaultCorrelationRules_def NewCorrelator_def)
  then have "corr_step\<^sup>*\<^sup>* (0, NewCorrelator) (0, corr_AddRule (DefaultCorrelationRules ! 6) NewCorrelator)"
    by (rule r_into_rtranclp)
  from correlation_sound[OF _ this, of ?ord 1 sound_demo_signal] show ?thesis
    by (auto simp: fair_orders_def sound_demo_signal_def)
qed

end
