(* ===== verification/Correlate_Detect.thy ===== *)
theory Correlate_Detect
  imports Correlate_Inv
begin

text \<open>
  When a correlation fires: the result sequence of a rule with logic \<open>all\<close>, what a firing rule hides from
  the rules after it, and which signals share a group.
\<close>

section \<open>Detection\<close>

text \<open>The results of a sequence of signals.\<close>

fun corr_run :: "range_orders \<Rightarrow> (time \<times> signal) list \<Rightarrow> correlator \<Rightarrow> (correlation_result option list \<times> correlator) option" where
  "corr_run ord [] c = Some ([], c)"
| "corr_run ord ((now, sig) # ss) c =
     (case ProcessSignal ord now sig c of
        None \<Rightarrow> None
      | Some (r, c) \<Rightarrow> (case corr_run ord ss c of None \<Rightarrow> None | Some (rs, c) \<Rightarrow> Some (r # rs, c)))"

definition names_of :: "(time \<times> signal) list \<Rightarrow> string set" where
  "names_of ss = (\<lambda>p. sg_Name (snd p)) ` set ss"

text \<open>One rule with logic \<open>all\<close>, one group, one window: what the window has seen so far.\<close>

definition seen_state :: "string \<Rightarrow> corr_spec \<Rightarrow> string \<Rightarrow> time \<Rightarrow> string set \<Rightarrow> correlator \<Rightarrow> bool" where
  "seen_state rid spec gk t0 N c \<longleftrightarrow> cl_rules c = [(rid, spec)] \<and>
    (\<exists>w. cl_windows c = [((rid, gk), w)] \<and> sw_RuleID w = rid \<and> sw_GroupKey w = gk \<and> sw_Spec w = spec \<and>
       sw_started w = t0 \<and> fst ` set (sw_signals w) = N \<and> sw_signals w \<noteq> [] \<and>
       sw_fired w = (set (sp_Signals spec) \<subseteq> N))"

lemma Matches_all: "sp_Logic (sw_Spec w) = LogicAll \<Longrightarrow> Matches w \<longleftrightarrow> set (sp_Signals (sw_Spec w)) \<subseteq> fst ` set (sw_signals w)"
  by (auto simp: Matches_def map_of_eq_None_iff)

lemma fair_single:
  "fair_orders ord \<Longrightarrow> ro_rules ord [x] = [x]" "fair_orders ord \<Longrightarrow> ss \<noteq> [] \<Longrightarrow> ro_signals ord ss \<noteq> []"
proof -
  assume f: "fair_orders ord"
  then have "set (ro_rules ord [x]) = {x}" "length (ro_rules ord [x]) = 1" by (simp_all add: fair_orders_def)
  then show "ro_rules ord [x] = [x]" by (cases "ro_rules ord [x]") auto
  show "ss \<noteq> [] \<Longrightarrow> ro_signals ord ss \<noteq> []"
    using f by (metis fair_orders_def length_0_conv)
qed

lemma add_first_step:
  assumes ord: "fair_orders ord" and spec: "sp_Logic spec = LogicAll" and m: "signalMatchesRule sig spec"
    and gk: "buildGroupKey sig spec = gk" and rules: "cl_rules c = [(rid, spec)]"
    and op: "open_window ord now rid gk spec (c\<lparr>cl_signalsProcessed := cl_signalsProcessed c + 1\<rparr>) = (w, c1)"
    and w: "sw_RuleID w = rid" "sw_GroupKey w = gk" "sw_Spec w = spec" "sw_started w = t0"
      "cl_windows c1 = [((rid, gk), v)]" "cl_rules c1 = [(rid, spec)]"
      "fst ` set (sw_signals w) = N" "sw_fired w = (set (sp_Signals spec) \<subseteq> N)"
  shows "\<exists>r c'. ProcessSignal ord now sig c = Some (r, c') \<and> seen_state rid spec gk t0 (insert (sg_Name sig) N) c' \<and>
    (r \<noteq> None \<longleftrightarrow> set (sp_Signals spec) \<subseteq> insert (sg_Name sig) N \<and> \<not> set (sp_Signals spec) \<subseteq> N)"
proof -
  define w1 where "w1 = add_signal sig w"
  have N: "fst ` set (sw_signals w1) = insert (sg_Name sig) N"
    using keys_update_insert[of "sg_Name sig" sig "sw_signals w"] w(7) by (simp add: w1_def)
  have ne: "sw_signals w1 \<noteq> []" by (cases "sw_signals w") (auto simp: w1_def)
  have M: "Matches w1 \<longleftrightarrow> set (sp_Signals spec) \<subseteq> insert (sg_Name sig) N"
    using Matches_all[of w1] spec w(3) N by (simp add: w1_def)
  have F: "sw_fired w1 = (set (sp_Signals spec) \<subseteq> N)" using w(8) by (simp add: w1_def)
  have W: "sw_RuleID w1 = rid" "sw_GroupKey w1 = gk" "sw_Spec w1 = spec" "sw_started w1 = t0"
    using w by (simp_all add: w1_def)
  have P: "ProcessSignal ord now sig c =
      (if sw_fired w1 then Some (None, store_window w1 c1)
       else if Matches w1 then
         (case buildResult ord now (w1\<lparr>sw_fired := True\<rparr>) of None \<Rightarrow> None
          | Some res \<Rightarrow> Some (Some res, send_result res ((store_window (w1\<lparr>sw_fired := True\<rparr>) (store_window w1 c1))
               \<lparr>cl_correlationsFired := cl_correlationsFired (store_window (w1\<lparr>sw_fired := True\<rparr>) (store_window w1 c1)) + 1\<rparr>)))
       else Some (None, store_window w1 c1))"
    using m gk op unfolding w1_def ProcessSignal_def rules fair_single(1)[OF ord] by (simp add: Let_def)
  obtain res where res: "buildResult ord now (w1\<lparr>sw_fired := True\<rparr>) = Some res"
    using fair_single(2)[OF ord ne] by (cases "ro_signals ord (sw_signals w1)") (auto simp: buildResult_def)
  show ?thesis
    using N ne M F W w(5,6) unfolding P res by (auto simp: seen_state_def)
qed

lemma run_from:
  assumes ord: "fair_orders ord" and spec: "sp_Logic spec = LogicAll"
  shows "seen_state rid spec gk t0 N c \<Longrightarrow>
    \<forall>(now, sig)\<in>set ss. signalMatchesRule sig spec \<and> buildGroupKey sig spec = gk \<and> now \<le> t0 + sp_Window spec \<Longrightarrow>
    \<exists>rs c'. corr_run ord ss c = Some (rs, c') \<and> length rs = length ss \<and>
      (\<forall>i<length ss. rs ! i \<noteq> None \<longleftrightarrow> set (sp_Signals spec) \<subseteq> N \<union> names_of (take (Suc i) ss) \<and>
         \<not> set (sp_Signals spec) \<subseteq> N \<union> names_of (take i ss))"
proof (induction ss arbitrary: N c)
  case (Cons p ss)
  obtain now sig where p: "p = (now, sig)" by force
  obtain w where w: "cl_rules c = [(rid, spec)]" "cl_windows c = [((rid, gk), w)]" "sw_RuleID w = rid" "sw_GroupKey w = gk"
    "sw_Spec w = spec" "sw_started w = t0" "fst ` set (sw_signals w) = N" "sw_fired w = (set (sp_Signals spec) \<subseteq> N)"
    using Cons.prems(1) by (auto simp: seen_state_def)
  have sig: "signalMatchesRule sig spec" "buildGroupKey sig spec = gk" "\<not> IsExpired now w"
    using Cons.prems(2) p w by (auto simp: IsExpired_def)
  have "open_window ord now rid gk spec (c\<lparr>cl_signalsProcessed := cl_signalsProcessed c + 1\<rparr>) =
      (w, c\<lparr>cl_signalsProcessed := cl_signalsProcessed c + 1\<rparr>)"
    using w sig by (simp add: open_window_def)
  then have "\<exists>r c'. ProcessSignal ord now sig c = Some (r, c') \<and> seen_state rid spec gk t0 (insert (sg_Name sig) N) c' \<and>
    (r \<noteq> None \<longleftrightarrow> set (sp_Signals spec) \<subseteq> insert (sg_Name sig) N \<and> \<not> set (sp_Signals spec) \<subseteq> N)"
    by (rule add_first_step[OF ord spec sig(1,2) w(1)]) (simp_all add: w(1-7), rule w(8))
  then obtain r c1 where
    r: "ProcessSignal ord now sig c = Some (r, c1)" "seen_state rid spec gk t0 (insert (sg_Name sig) N) c1"
      "r \<noteq> None \<longleftrightarrow> set (sp_Signals spec) \<subseteq> insert (sg_Name sig) N \<and> \<not> set (sp_Signals spec) \<subseteq> N" by blast
  from Cons.IH[OF r(2)] Cons.prems(2) obtain rs c2 where
    rs: "corr_run ord ss c1 = Some (rs, c2)" "length rs = length ss"
      "\<forall>i<length ss. rs ! i \<noteq> None \<longleftrightarrow> set (sp_Signals spec) \<subseteq> insert (sg_Name sig) N \<union> names_of (take (Suc i) ss) \<and>
         \<not> set (sp_Signals spec) \<subseteq> insert (sg_Name sig) N \<union> names_of (take i ss)" by auto
  have n: "N \<union> names_of (take (Suc k) (p # ss)) = insert (sg_Name sig) N \<union> names_of (take k ss)" for k
    by (auto simp: names_of_def p)
  have "(r # rs) ! i \<noteq> None \<longleftrightarrow> set (sp_Signals spec) \<subseteq> N \<union> names_of (take (Suc i) (p # ss)) \<and>
         \<not> set (sp_Signals spec) \<subseteq> N \<union> names_of (take i (p # ss))" if "i < length (p # ss)" for i
  proof (cases i)
    case 0
    then show ?thesis unfolding n 0 using r(3) by (simp add: names_of_def)
  next
    case (Suc k)
    then show ?thesis unfolding n Suc using rs(3) that Suc by simp
  qed
  then show ?case using r(1) rs(1,2) by (intro exI[of _ "r # rs"] exI[of _ c2]) (simp add: p)
qed simp

text \<open>C24: In a correlator that holds a single rule, with logic \<open>all\<close>, and no open window, let signals of the
  rule's names and of one group arrive within the rule's window of the first. Then every call returns,
  and the call at position \<open>i\<close> returns a result exactly when the names up to \<open>i\<close> cover the rule's
  signals and those before \<open>i\<close> do not, whatever the order and repetitions of the signals: one result for
  this one window. With several rules, as shipped, which rule fires at a signal can depend on the
  order in which the rules are visited (\<open>firing_depends_on_map_order\<close>), so nothing of the kind holds.\<close>

theorem all_logic_detects:
  assumes "fair_orders ord" "sp_Logic spec = LogicAll" "cl_rules c = [(rid, spec)]" "cl_windows c = []" "0 < cl_maxWindows c"
    and "ss \<noteq> []" "\<forall>(now, sig)\<in>set ss. signalMatchesRule sig spec \<and> buildGroupKey sig spec = gk \<and>
      now \<le> fst (hd ss) + sp_Window spec"
  shows "\<exists>rs c'. corr_run ord ss c = Some (rs, c') \<and> length rs = length ss \<and>
    (\<forall>i<length ss. rs ! i \<noteq> None \<longleftrightarrow> set (sp_Signals spec) \<subseteq> names_of (take (Suc i) ss) \<and>
       \<not> set (sp_Signals spec) \<subseteq> names_of (take i ss))"
proof -
  obtain now sig ss' where ss: "ss = (now, sig) # ss'" using assms(6) by (cases ss) auto
  have sig: "signalMatchesRule sig spec" "buildGroupKey sig spec = gk" using assms(7) ss by auto
  have open1: "open_window ord now rid gk spec (c\<lparr>cl_signalsProcessed := cl_signalsProcessed c + 1\<rparr>) =
      (fresh_window now rid gk spec, c\<lparr>cl_signalsProcessed := cl_signalsProcessed c + 1,
         cl_windows := [((rid, gk), fresh_window now rid gk spec)], cl_windowsCreated := cl_windowsCreated c + 1\<rparr>)"
    using assms(4,5) by (simp add: open_window_def create_window_def make_room_def Let_def)
  have ne: "set (sp_Signals spec) \<noteq> {}" using sig(1) by (auto simp: signalMatchesRule_def)
  have "\<exists>r c1. ProcessSignal ord now sig c = Some (r, c1) \<and> seen_state rid spec gk now (insert (sg_Name sig) {}) c1 \<and>
    (r \<noteq> None \<longleftrightarrow> set (sp_Signals spec) \<subseteq> insert (sg_Name sig) {} \<and> \<not> set (sp_Signals spec) \<subseteq> {})"
    using ne assms(3) by (intro add_first_step[OF assms(1,2) sig assms(3) open1]) (simp_all add: fresh_window_def)
  then obtain r c1 where r: "ProcessSignal ord now sig c = Some (r, c1)" "seen_state rid spec gk now {sg_Name sig} c1"
    "r \<noteq> None \<longleftrightarrow> set (sp_Signals spec) \<subseteq> {sg_Name sig}" using ne by auto
  from run_from[OF assms(1,2) r(2), of ss'] assms(7) ss obtain rs c2 where
    rs: "corr_run ord ss' c1 = Some (rs, c2)" "length rs = length ss'"
      "\<forall>i<length ss'. rs ! i \<noteq> None \<longleftrightarrow> set (sp_Signals spec) \<subseteq> {sg_Name sig} \<union> names_of (take (Suc i) ss') \<and>
         \<not> set (sp_Signals spec) \<subseteq> {sg_Name sig} \<union> names_of (take i ss')" by auto
  have n: "names_of (take (Suc k) ss) = {sg_Name sig} \<union> names_of (take k ss')" for k
    by (auto simp: names_of_def ss)
  have "(r # rs) ! i \<noteq> None \<longleftrightarrow> set (sp_Signals spec) \<subseteq> names_of (take (Suc i) ss) \<and>
         \<not> set (sp_Signals spec) \<subseteq> names_of (take i ss)" if "i < length ss" for i
  proof (cases i)
    case 0
    then show ?thesis unfolding n 0 using r(3) ne by (simp add: names_of_def)
  next
    case (Suc k)
    then show ?thesis unfolding n Suc using rs(3) that ss Suc by simp
  qed
  then show ?thesis using r(1) rs(1,2) by (intro exI[of _ "r # rs"] exI[of _ c2]) (simp add: ss)
qed

section \<open>The built-in rules\<close>

text \<open>A correlator with the built-in rules, as \<open>InitCorrelationRules\<close> leaves it.\<close>

definition default_correlator :: correlator where
  "default_correlator = fold corr_AddRule DefaultCorrelationRules NewCorrelator"

definition map_order :: "((string \<times> corr_spec) list \<Rightarrow> (string \<times> corr_spec) list) \<Rightarrow> range_orders" where
  "map_order f = \<lparr>ro_rules = f, ro_windows = (\<lambda>x. x), ro_signals = (\<lambda>x. x), ro_duration = (\<lambda>_. [])\<rparr>"

definition demo_signal :: "string \<Rightarrow> time \<Rightarrow> signal" where
  "demo_signal n t = \<lparr>sg_Name = n, sg_Timestamp = t, sg_PID = 7, sg_ContainerID = ''c1'', sg_Namespace = ''prod'',
     sg_RuleID = [], sg_Extra = Map.empty\<rparr>"

definition miner_signals :: "(time \<times> signal) list" where
  "miner_signals = [(1, demo_signal ''high_cpu'' 1), (2, demo_signal ''minerpool_connection'' 2)]"

definition fired_rules :: "(correlation_result option list \<times> correlator) option \<Rightarrow> string list option" where
  "fired_rules r = map_option (\<lambda>(rs, c). map cs_RuleID (concat (map (\<lambda>x. case x of None \<Rightarrow> [] | Some y \<Rightarrow> [y]) rs))) r"

text \<open>What fires depends on the order of a map. \<open>ProcessSignal\<close> returns at the first rule that fires
  and neither evaluates the rules after it nor shows them the signal. With the built-in rules, CPU load
  followed by a connection to a mining pool in one container fires the cryptojacking rule R011 in one
  order of the rule map; in another order the second signal fires TLS-SNI-001 alone and R011 never
  learns of it.\<close>

theorem firing_depends_on_map_order:
  "fair_orders (map_order (\<lambda>x. x)) \<and> fair_orders (map_order rev) \<and>
   fired_rules (corr_run (map_order (\<lambda>x. x)) miner_signals default_correlator) = Some [''R011''] \<and>
   fired_rules (corr_run (map_order rev) miner_signals default_correlator) = Some [''TLS-SNI-001'']"
proof (intro conjI)
  show "fired_rules (corr_run (map_order (\<lambda>x. x)) miner_signals default_correlator) = Some [''R011'']" by code_simp
  show "fired_rules (corr_run (map_order rev) miner_signals default_correlator) = Some [''TLS-SNI-001'']" by code_simp
qed (simp_all add: fair_orders_def map_order_def)

lemma group_key_pid: "sp_GroupBy spec = [''proc.pid''] \<Longrightarrow> buildGroupKey s spec = ''pid:'' @ show_word (sg_PID s)"
  by (simp add: buildGroupKey_def group_part_def)

lemma group_key_container: "sp_GroupBy spec = [''container.id''] \<Longrightarrow> buildGroupKey s spec = ''cid:'' @ sg_ContainerID s"
  by (simp add: buildGroupKey_def group_part_def)

lemma default_group_by:
  "spec \<in> set DefaultCorrelationRules \<Longrightarrow> sp_GroupBy spec = [''proc.pid''] \<or> sp_GroupBy spec = [''container.id'']"
  by (auto simp: DefaultCorrelationRules_def)

text \<open>The built-in rules group exactly. Two signals get the same group key under a built-in rule if and
  only if they agree in the attribute the rule groups by, the process number or the container; in
  particular no process number's text runs into another's, and all signals without a container form
  one group.\<close>

theorem default_groups_exact:
  assumes "spec \<in> set DefaultCorrelationRules"
  shows "buildGroupKey s spec = buildGroupKey t spec \<longleftrightarrow>
    (if sp_GroupBy spec = [''proc.pid''] then sg_PID s = sg_PID t else sg_ContainerID s = sg_ContainerID t)"
  using default_group_by[OF assms]
  by (elim disjE) (simp_all add: group_key_pid group_key_container)

section \<open>Concrete runs\<close>

definition demo_spec :: corr_spec where
  "demo_spec = \<lparr>sp_RuleID = ''R014'', sp_Window = Seconds 5, sp_Signals = [''shell_procs'', ''net_outbound''],
      sp_Logic = LogicAll, sp_GroupBy = [''proc.pid'']\<rparr>"

definition shell_signals :: "(time \<times> signal) list" where
  "shell_signals = [(1, demo_signal ''shell_procs'' 1), (2, demo_signal ''net_outbound'' 2), (3, demo_signal ''shell_procs'' 3)]"

lemma fair_id: "fair_orders (map_order (\<lambda>x. x))"
  by (simp add: fair_orders_def map_order_def)

theorem default_groups_exact_witness:
  "buildGroupKey (demo_signal ''a'' 1) demo_spec = buildGroupKey (demo_signal ''b'' 2) demo_spec"
  using default_groups_exact[of demo_spec "demo_signal ''a'' 1" "demo_signal ''b'' 2"]
  by (simp add: demo_spec_def DefaultCorrelationRules_def demo_signal_def)

theorem all_logic_detects_witness:
  "\<exists>rs c'. corr_run (map_order (\<lambda>x. x)) shell_signals (corr_AddRule demo_spec NewCorrelator) = Some (rs, c') \<and>
     rs ! 0 = None \<and> rs ! 1 \<noteq> None \<and> rs ! 2 = None"
proof -
  have "\<exists>rs c'. corr_run (map_order (\<lambda>x. x)) shell_signals (corr_AddRule demo_spec NewCorrelator) = Some (rs, c') \<and>
      length rs = length shell_signals \<and>
      (\<forall>i<length shell_signals. rs ! i \<noteq> None \<longleftrightarrow> set (sp_Signals demo_spec) \<subseteq> names_of (take (Suc i) shell_signals) \<and>
         \<not> set (sp_Signals demo_spec) \<subseteq> names_of (take i shell_signals))"
    by (rule all_logic_detects[OF fair_id, of demo_spec _ "''R014''" shell_signals "''pid:'' @ show_word (7 :: u32)"])
      (simp_all add: demo_spec_def corr_AddRule_def NewCorrelator_def shell_signals_def signalMatchesRule_def
        group_key_pid demo_signal_def)
  then obtain rs c' where rs: "corr_run (map_order (\<lambda>x. x)) shell_signals (corr_AddRule demo_spec NewCorrelator) = Some (rs, c')"
    "\<And>i. i < 3 \<Longrightarrow> rs ! i \<noteq> None \<longleftrightarrow> set (sp_Signals demo_spec) \<subseteq> names_of (take (Suc i) shell_signals) \<and>
       \<not> set (sp_Signals demo_spec) \<subseteq> names_of (take i shell_signals)"
    by (auto simp: shell_signals_def)
  have n: "names_of (take 0 shell_signals) = {}" "names_of (take (Suc 0) shell_signals) = {''shell_procs''}"
    "names_of (take (Suc (Suc 0)) shell_signals) = {''shell_procs'', ''net_outbound''}"
    "names_of (take (Suc (Suc (Suc 0))) shell_signals) = {''shell_procs'', ''net_outbound''}"
    by (auto simp: names_of_def shell_signals_def demo_signal_def)
  have "rs ! 0 = None" "rs ! 1 \<noteq> None" "rs ! 2 = None"
    using rs(2)[of 0] rs(2)[of "Suc 0"] rs(2)[of "Suc (Suc 0)"] unfolding n by (simp_all add: demo_spec_def numeral_2_eq_2)
  then show ?thesis using rs(1) by blast
qed

end
