(* ===== verification/Tc_Filter.thy ===== *)
theory Tc_Filter
  imports Bytes
begin

text \<open>
  The kernel side of network blocking: \<open>pkg/ebpf/probes/network_tc.bpf.c\<close>, a C classifier that looks a
  packet's destination up in the \<open>network_blocklist\<close> hash map, and \<open>pkg/ebpf/tc_loader.go\<close>, which loads
  it and writes the map. A BPF hash map is an association list with at most \<open>max_entries\<close> keys; an
  insertion of a new key into a full map and the deletion of an absent key fail. What the operating
  system answers while loading and attaching is an argument.
\<close>

section \<open>The map\<close>

record blocklist_key =
  bk_DestIP :: u32
  bk_DestPort :: u16
  bk_Protocol :: u8
  bk_Pad :: u8

record blocklist_value =
  bv_BlockTimeNs :: u64
  bv_TTLSeconds :: u32
  bv_RuleID :: u32
  bv_BlockType :: u8
  bv_Reason :: u8
  bv_Pad :: u16

definition block_key :: "u32 \<Rightarrow> u16 \<Rightarrow> u8 \<Rightarrow> blocklist_key" where
  "block_key ip port protocol = \<lparr>bk_DestIP = ip, bk_DestPort = port, bk_Protocol = protocol, bk_Pad = 0\<rparr>"

lemma block_key_inject [simp]:
  "block_key ip port pr = block_key ip' port' pr' \<longleftrightarrow> ip = ip' \<and> port = port' \<and> pr = pr'"
  by (simp add: block_key_def)

type_synonym bpf_map = "(blocklist_key \<times> blocklist_value) list"

definition max_entries :: nat where "max_entries = 4096"

definition map_lookup :: "bpf_map \<Rightarrow> blocklist_key \<Rightarrow> blocklist_value option" where
  "map_lookup m k = map_of m k"

definition map_update :: "blocklist_key \<Rightarrow> blocklist_value \<Rightarrow> bpf_map \<Rightarrow> string option \<times> bpf_map" where
  "map_update k v m =
    (if map_lookup m k = None \<and> max_entries \<le> length m then (Some ''no space left'', m)
     else (None, AList.update k v m))"

definition map_delete :: "blocklist_key \<Rightarrow> bpf_map \<Rightarrow> string option \<times> bpf_map" where
  "map_delete k m = (if map_lookup m k = None then (Some ''key does not exist'', m) else (None, AList.delete k m))"

section \<open>The classifier\<close>

definition SCARLET_PROTO_TCP :: u8 where "SCARLET_PROTO_TCP = 6"
definition SCARLET_PROTO_UDP :: u8 where "SCARLET_PROTO_UDP = 17"
definition SCARLET_TC_VERDICT_ALLOW :: nat where "SCARLET_TC_VERDICT_ALLOW = 0"
definition SCARLET_TC_VERDICT_DROP :: nat where "SCARLET_TC_VERDICT_DROP = 2"

lemmas tc_defs = SCARLET_PROTO_TCP_def SCARLET_PROTO_UDP_def SCARLET_TC_VERDICT_ALLOW_def SCARLET_TC_VERDICT_DROP_def

text \<open>\<open>bpf_skb_pull_data(skb, n)\<close> fails on a packet shorter than \<open>n\<close>; a failed parse is \<open>None\<close>.\<close>

definition parse_eth_hdr :: "bytes \<Rightarrow> u16 option" where
  "parse_eth_hdr skb = (if length skb < 14 then None else be16 skb 12)"

definition parse_ipv4_hdr :: "bytes \<Rightarrow> (u32 \<times> u32 \<times> u8) option" where
  "parse_ipv4_hdr skb =
    (if length skb < 34 then None
     else do {
       src \<leftarrow> be32 skb (14 + 12);
       dst \<leftarrow> be32 skb (14 + 16);
       protocol \<leftarrow> index skb (14 + 9);
       Some (src, dst, protocol)
     })"

text \<open>A TCP header has 20 bytes, a UDP header 8; the pointer comparison with \<open>data_end\<close> guards the read.\<close>

definition parse_tcp_hdr :: "bytes \<Rightarrow> nat \<Rightarrow> u16 option" where
  "parse_tcp_hdr skb ihl =
    (if length skb < 54 then None else if length skb < 14 + ihl + 20 then None else be16 skb (14 + ihl + 2))"

definition parse_udp_hdr :: "bytes \<Rightarrow> nat \<Rightarrow> u16 option" where
  "parse_udp_hdr skb ihl =
    (if length skb < 42 then None else if length skb < 14 + ihl + 8 then None else be16 skb (14 + ihl + 2))"

definition check_blocklist :: "bpf_map \<Rightarrow> u32 \<Rightarrow> u16 \<Rightarrow> u8 \<Rightarrow> nat" where
  "check_blocklist m dest_ip dest_port protocol =
    (if map_lookup m (block_key dest_ip dest_port protocol) \<noteq> None then SCARLET_TC_VERDICT_DROP
     else if map_lookup m (block_key dest_ip dest_port 0) \<noteq> None then SCARLET_TC_VERDICT_DROP
     else if map_lookup m (block_key dest_ip 0 0) \<noteq> None then SCARLET_TC_VERDICT_DROP
     else if map_lookup m (block_key 0 dest_port 0) \<noteq> None then SCARLET_TC_VERDICT_DROP
     else if map_lookup m (block_key 0 dest_port protocol) \<noteq> None then SCARLET_TC_VERDICT_DROP
     else SCARLET_TC_VERDICT_ALLOW)"

text \<open>\<open>tc_ingress_filter\<close> and \<open>tc_egress_filter\<close> have the same body; the packet counter is left out.\<close>

definition tc_filter :: "bpf_map \<Rightarrow> bytes \<Rightarrow> nat" where
  "tc_filter m skb =
    (case parse_eth_hdr skb of
       None \<Rightarrow> SCARLET_TC_VERDICT_ALLOW
     | Some eth_proto \<Rightarrow>
         if eth_proto \<noteq> 0x0800 then SCARLET_TC_VERDICT_ALLOW
         else (case parse_ipv4_hdr skb of
             None \<Rightarrow> SCARLET_TC_VERDICT_ALLOW
           | Some (src_ip, dest_ip, protocol) \<Rightarrow>
               (case (if protocol = SCARLET_PROTO_TCP then parse_tcp_hdr skb 0
                      else if protocol = SCARLET_PROTO_UDP then parse_udp_hdr skb 0
                      else Some 0) of
                  None \<Rightarrow> SCARLET_TC_VERDICT_ALLOW
                | Some dest_port \<Rightarrow> check_blocklist m dest_ip dest_port protocol)))"

text \<open>The fields of an IPv4 packet as the protocol defines them (RFC 791): the total length, and the
  destination port behind a header of \<open>ihl\<close> words.\<close>

definition ip_total_length :: "bytes \<Rightarrow> u16 option" where
  "ip_total_length skb = be16 skb 16"

definition ip_header_length :: "bytes \<Rightarrow> nat" where
  "ip_header_length skb = 4 * (unat (skb ! 14) mod 16)"

definition real_dest_port :: "bytes \<Rightarrow> u16 option" where
  "real_dest_port skb = be16 skb (14 + ip_header_length skb + 2)"

text \<open>C27: The classifier compares the wrong field. Both filters pass a header length of 0 to the port
  parsers, so for every TCP or UDP packet long enough to be looked at, the port that is looked up is
  the IP header's total length field; the verdict does not depend on the packet's ports at all.\<close>

theorem tc_port_is_total_length:
  assumes "54 \<le> length skb" "be16 skb 12 = Some 0x0800" "be32 skb 30 = Some dst" "index skb 23 = Some pr"
    "pr = SCARLET_PROTO_TCP \<or> pr = SCARLET_PROTO_UDP"
  shows "\<exists>len. ip_total_length skb = Some len \<and> tc_filter m skb = check_blocklist m dst len pr"
proof -
  obtain src where "be32 skb 26 = Some src" using assms(1) by (simp add: be32_ok)
  moreover obtain len where "be16 skb 16 = Some len" using assms(1) by (simp add: be16_ok)
  moreover have "parse_eth_hdr skb = Some 0x0800" using assms(1,2) by (simp add: parse_eth_hdr_def)
  moreover have "parse_tcp_hdr skb 0 = be16 skb 16" "parse_udp_hdr skb 0 = be16 skb 16"
    using assms(1) by (simp_all add: parse_tcp_hdr_def parse_udp_hdr_def)
  ultimately show ?thesis
    unfolding tc_filter_def ip_total_length_def using assms(1,3-5)
    by (auto simp: parse_ipv4_hdr_def simp del: not_less)
qed

text \<open>A packet for the witness: TCP from 10.0.0.1 to 10.0.0.2, port 3333, 40 bytes of IP.\<close>

definition demo_packet :: bytes where
  "demo_packet =
    [0, 0, 0, 0, 0, 0, 0, 0, 0, 0, 0, 0, 0x08, 0x00,
     0x45, 0, 0, 40, 0, 0, 0, 0, 64, 6, 0, 0, 10, 0, 0, 1, 10, 0, 0, 2,
     0xC0, 0x00, 0x0D, 0x05, 0, 0, 0, 0, 0, 0, 0, 0, 0, 0, 0, 0, 0, 0, 0, 0]"

theorem tc_port_is_total_length_witness:
  "real_dest_port demo_packet = Some 3333 \<and>
   tc_filter [(block_key 0x0A000002 3333 6, \<lparr>bv_BlockTimeNs = 0, bv_TTLSeconds = 0, bv_RuleID = 1, bv_BlockType = 4, bv_Reason = 1, bv_Pad = 0\<rparr>)]
     demo_packet = SCARLET_TC_VERDICT_ALLOW"
proof -
  let ?m = "[(block_key 0x0A000002 3333 6, \<lparr>bv_BlockTimeNs = 0, bv_TTLSeconds = 0, bv_RuleID = 1, bv_BlockType = 4, bv_Reason = 1, bv_Pad = 0\<rparr>)]"
  have "real_dest_port demo_packet = Some 3333"
    by (simp add: real_dest_port_def ip_header_length_def demo_packet_def be16_def slice_def be_nat_def)
  moreover have "be16 demo_packet 12 = Some 0x0800" "be32 demo_packet 30 = Some 0x0A000002" "index demo_packet 23 = Some 6"
    "ip_total_length demo_packet = Some 40" "54 \<le> length demo_packet"
    by (simp_all add: demo_packet_def be16_def be32_def slice_def be_nat_def index_def ip_total_length_def)
  moreover have "check_blocklist ?m 0x0A000002 40 6 = SCARLET_TC_VERDICT_ALLOW"
    by (simp add: check_blocklist_def map_lookup_def)
  ultimately show ?thesis
    using tc_port_is_total_length[of demo_packet "0x0A000002" 6 ?m] by (simp add: tc_defs)
qed

section \<open>The loader\<close>

record tc_loader =
  tl_ifaces :: "string list"
  tl_priority :: int
  tl_collection :: bool
  tl_blocklistMap :: "bpf_map option"
  tl_blocklistMapFD :: int
  tl_links :: "string list"
  tl_loaded :: bool
  tl_attached :: bool
  tl_mockMode :: bool

definition TCDefaultPriority :: int where "TCDefaultPriority = 1"

definition NewTCLoader :: "bool \<Rightarrow> string list \<Rightarrow> int \<Rightarrow> tc_loader" where
  "NewTCLoader bpf ifaces prio =
    \<lparr>tl_ifaces = (if ifaces = [] then [''eth0''] else ifaces),
     tl_priority = (if prio \<le> 0 then TCDefaultPriority else prio),
     tl_collection = False, tl_blocklistMap = None, tl_blocklistMapFD = 0, tl_links = [],
     tl_loaded = False, tl_attached = False, tl_mockMode = \<not> bpf\<rparr>"

text \<open>\<open>Load\<close>; \<open>obj\<close> says whether the object file exists, \<open>coll\<close> is the library's answer: an error, or a
  collection with or without a blocklist map of some descriptor.\<close>

definition Load :: "bool \<Rightarrow> string + int option \<Rightarrow> tc_loader \<Rightarrow> string option \<times> tc_loader" where
  "Load obj coll t =
    (if tl_loaded t then (Some ''TC programs already loaded'', t)
     else if tl_mockMode t then (None, t\<lparr>tl_loaded := True, tl_blocklistMapFD := -1\<rparr>)
     else if \<not> obj then (Some ''TC eBPF object file not found'', t)
     else (case coll of
         Inl err \<Rightarrow> (Some (''failed to load TC collection: '' @ err), t)
       | Inr m \<Rightarrow>
           (let t = t\<lparr>tl_collection := True\<rparr>;
                t = (case m of Some fd \<Rightarrow> t\<lparr>tl_blocklistMap := Some [], tl_blocklistMapFD := fd\<rparr> | None \<Rightarrow> t)
            in (None, t\<lparr>tl_loaded := True\<rparr>))))"

text \<open>One interface of \<open>Attach\<close>: \<open>out\<close> says whether it exists and which hooks take a program. A link is
  named by its interface; an ingress link stays in the list although it is closed when egress fails.\<close>

datatype attach_outcome = NoInterface | IngressFails | EgressFails | BothAttach

definition attach_one :: "(string \<Rightarrow> attach_outcome) \<Rightarrow> string \<Rightarrow> tc_loader \<Rightarrow> tc_loader" where
  "attach_one out iface t =
    (case out iface of
       NoInterface \<Rightarrow> t
     | IngressFails \<Rightarrow> t
     | EgressFails \<Rightarrow> t\<lparr>tl_links := tl_links t @ [iface]\<rparr>
     | BothAttach \<Rightarrow> t\<lparr>tl_links := tl_links t @ [iface, iface]\<rparr>)"

definition Attach :: "bool \<Rightarrow> (string \<Rightarrow> attach_outcome) \<Rightarrow> tc_loader \<Rightarrow> string option \<times> tc_loader" where
  "Attach progs out t =
    (if \<not> tl_loaded t then (Some ''TC programs not loaded; call Load() first'', t)
     else if tl_attached t then (Some ''TC programs already attached'', t)
     else if tl_mockMode t then (None, t\<lparr>tl_attached := True\<rparr>)
     else if \<not> progs then (Some ''TC programs not found in collection'', t)
     else (None, (fold (attach_one out) (tl_ifaces t) t)\<lparr>tl_attached := True\<rparr>))"

definition Detach :: "tc_loader \<Rightarrow> tc_loader" where
  "Detach t = (if \<not> tl_attached t then t else t\<lparr>tl_links := [], tl_attached := False\<rparr>)"

definition tl_Close :: "tc_loader \<Rightarrow> tc_loader" where
  "tl_Close t = (Detach t)\<lparr>tl_collection := False, tl_blocklistMap := None, tl_blocklistMapFD := -1, tl_loaded := False\<rparr>"

definition uint32FromAction :: "u8 \<Rightarrow> u32" where
  "uint32FromAction action = ucast action"

definition scarletNetBlockCombined :: u8 where "scarletNetBlockCombined = 4"

definition UpdateBlocklistEntry :: "u32 \<Rightarrow> u16 \<Rightarrow> u8 \<Rightarrow> u8 \<Rightarrow> tc_loader \<Rightarrow> string option \<times> tc_loader" where
  "UpdateBlocklistEntry ip port protocol action t =
    (if tl_mockMode t then (None, t)
     else case tl_blocklistMap t of
         None \<Rightarrow> (Some ''blocklist map not available'', t)
       | Some m \<Rightarrow>
           (case map_update (block_key ip port protocol)
                \<lparr>bv_BlockTimeNs = 0, bv_TTLSeconds = 0, bv_RuleID = uint32FromAction action,
                 bv_BlockType = scarletNetBlockCombined, bv_Reason = action, bv_Pad = 0\<rparr> m of
              (Some err, m) \<Rightarrow> (Some (''blocklist map update: '' @ err), t\<lparr>tl_blocklistMap := Some m\<rparr>)
            | (None, m) \<Rightarrow> (None, t\<lparr>tl_blocklistMap := Some m\<rparr>)))"

definition DeleteBlocklistEntry :: "u32 \<Rightarrow> u16 \<Rightarrow> u8 \<Rightarrow> tc_loader \<Rightarrow> string option \<times> tc_loader" where
  "DeleteBlocklistEntry ip port protocol t =
    (if tl_mockMode t then (None, t)
     else case tl_blocklistMap t of
         None \<Rightarrow> (Some ''blocklist map not available'', t)
       | Some m \<Rightarrow>
           (case map_delete (block_key ip port protocol) m of
              (Some err, m) \<Rightarrow> (Some (''blocklist map delete: '' @ err), t\<lparr>tl_blocklistMap := Some m\<rparr>)
            | (None, m) \<Rightarrow> (None, t\<lparr>tl_blocklistMap := Some m\<rparr>)))"

section \<open>The updater interface\<close>

text \<open>\<open>BlocklistUpdater\<close> of \<open>pkg/enforcement/network.go\<close>, an interface value: its two methods.\<close>

record 'u updater =
  up_Update :: "u32 \<Rightarrow> u16 \<Rightarrow> u8 \<Rightarrow> u8 \<Rightarrow> 'u \<Rightarrow> string option \<times> 'u"
  up_Delete :: "u32 \<Rightarrow> u16 \<Rightarrow> u8 \<Rightarrow> 'u \<Rightarrow> string option \<times> 'u"

definition tc_updater :: "tc_loader updater" where
  "tc_updater = \<lparr>up_Update = UpdateBlocklistEntry, up_Delete = DeleteBlocklistEntry\<rparr>"

text \<open>What the network enforcer relies on: a successful update adds exactly its key, a failed one
  nothing; after a deletion the key is gone, whether it was there or not; and an update succeeds as
  long as there is room.\<close>

locale blocklist_updater =
  fixes ops :: "'u updater" and keys :: "'u \<Rightarrow> blocklist_key set" and ready :: "'u \<Rightarrow> bool" and cap :: nat
  assumes finite_keys: "ready u \<Longrightarrow> finite (keys u)"
    and update_ok: "ready u \<Longrightarrow> up_Update ops ip port pr act u = (None, u') \<Longrightarrow>
      ready u' \<and> keys u' = insert (block_key ip port pr) (keys u)"
    and update_err: "ready u \<Longrightarrow> up_Update ops ip port pr act u = (Some err, u') \<Longrightarrow> ready u' \<and> keys u' = keys u"
    and delete_any: "ready u \<Longrightarrow> up_Delete ops ip port pr u = (e, u') \<Longrightarrow>
      ready u' \<and> keys u' = keys u - {block_key ip port pr}"
    and update_room: "ready u \<Longrightarrow> card (keys u) < cap \<Longrightarrow> fst (up_Update ops ip port pr act u) = None"

definition loader_keys :: "tc_loader \<Rightarrow> blocklist_key set" where
  "loader_keys t = (case tl_blocklistMap t of None \<Rightarrow> {} | Some m \<Rightarrow> fst ` set m)"

definition loader_ready :: "tc_loader \<Rightarrow> bool" where
  "loader_ready t \<longleftrightarrow> \<not> tl_mockMode t \<and> (\<exists>m. tl_blocklistMap t = Some m \<and> distinct (map fst m))"

interpretation tc_blocklist: blocklist_updater tc_updater loader_keys loader_ready max_entries
proof
  fix u u' :: tc_loader and ip port pr act err e
  show "loader_ready u \<Longrightarrow> finite (loader_keys u)"
    by (auto simp: loader_keys_def split: option.splits)
  show "loader_ready u' \<and> loader_keys u' = insert (block_key ip port pr) (loader_keys u)"
    if "loader_ready u" "up_Update tc_updater ip port pr act u = (None, u')"
  proof -
    from that(1) obtain m where m: "tl_blocklistMap u = Some m" "distinct (map fst m)" "\<not> tl_mockMode u"
      by (auto simp: loader_ready_def)
    from that(2) m obtain v where "tl_blocklistMap u' = Some (AList.update (block_key ip port pr) v m)" "\<not> tl_mockMode u'"
      by (auto simp: tc_updater_def UpdateBlocklistEntry_def map_update_def split: if_splits)
    then show ?thesis using m by (simp add: loader_ready_def loader_keys_def keys_update_insert distinct_update)
  qed
  show "loader_ready u' \<and> loader_keys u' = loader_keys u"
    if "loader_ready u" "up_Update tc_updater ip port pr act u = (Some err, u')"
  proof -
    from that(1) obtain m where m: "tl_blocklistMap u = Some m" "distinct (map fst m)" "\<not> tl_mockMode u"
      by (auto simp: loader_ready_def)
    with that(2) have "u' = u"
      by (auto simp: tc_updater_def UpdateBlocklistEntry_def map_update_def split: if_splits)
    then show ?thesis using that(1) by simp
  qed
  show "loader_ready u' \<and> loader_keys u' = loader_keys u - {block_key ip port pr}"
    if "loader_ready u" "up_Delete tc_updater ip port pr u = (e, u')"
  proof -
    from that(1) obtain m where m: "tl_blocklistMap u = Some m" "distinct (map fst m)" "\<not> tl_mockMode u"
      by (auto simp: loader_ready_def)
    show ?thesis
    proof (cases "map_lookup m (block_key ip port pr)")
      case None
      then have "block_key ip port pr \<notin> fst ` set m" by (simp add: map_lookup_def map_of_eq_None_iff)
      moreover have "u' = u"
        using that(2) m None by (auto simp: tc_updater_def DeleteBlocklistEntry_def map_delete_def)
      ultimately show ?thesis using that(1) m by (simp add: loader_keys_def)
    next
      case (Some v)
      then have "u' = u\<lparr>tl_blocklistMap := Some (AList.delete (block_key ip port pr) m)\<rparr>"
        using that(2) m by (auto simp: tc_updater_def DeleteBlocklistEntry_def map_delete_def)
      then show ?thesis using m by (simp add: loader_ready_def loader_keys_def keys_delete distinct_delete)
    qed
  qed
  show "fst (up_Update tc_updater ip port pr act u) = None" if "loader_ready u" "card (loader_keys u) < max_entries"
  proof -
    from that(1) obtain m where m: "tl_blocklistMap u = Some m" "distinct (map fst m)" "\<not> tl_mockMode u"
      by (auto simp: loader_ready_def)
    then have "card (loader_keys u) = length m"
      using distinct_card[of "map fst m"] by (simp add: loader_keys_def)
    then show ?thesis using that(2) m by (simp add: tc_updater_def UpdateBlocklistEntry_def map_update_def)
  qed
qed

section \<open>The loader as a machine\<close>

inductive loader_step :: "tc_loader \<Rightarrow> tc_loader \<Rightarrow> bool" where
  "Load obj coll t = (e, t') \<Longrightarrow> loader_step t t'"
| "Attach progs out t = (e, t') \<Longrightarrow> loader_step t t'"
| "loader_step t (Detach t)"
| "loader_step t (tl_Close t)"
| "UpdateBlocklistEntry ip port pr act t = (e, t') \<Longrightarrow> loader_step t t'"
| "DeleteBlocklistEntry ip port pr t = (e, t') \<Longrightarrow> loader_step t t'"

text \<open>What the flags mean: programs are attached only while they are loaded, links exist only while
  attached, a map is held only while loaded and never in mock mode, and it is a map within its limit.\<close>

definition loader_inv :: "tc_loader \<Rightarrow> bool" where
  "loader_inv t \<longleftrightarrow> (tl_attached t \<longrightarrow> tl_loaded t) \<and> (tl_links t \<noteq> [] \<longrightarrow> tl_attached t) \<and>
     (tl_collection t \<longrightarrow> tl_loaded t \<and> \<not> tl_mockMode t) \<and>
     (\<forall>m. tl_blocklistMap t = Some m \<longrightarrow> tl_loaded t \<and> \<not> tl_mockMode t \<and> distinct (map fst m) \<and> length m \<le> max_entries)"

lemma attach_fold_frame:
  "tl_loaded (fold (attach_one out) is t) = tl_loaded t" "tl_mockMode (fold (attach_one out) is t) = tl_mockMode t"
  "tl_collection (fold (attach_one out) is t) = tl_collection t" "tl_blocklistMap (fold (attach_one out) is t) = tl_blocklistMap t"
  by (induction "is" arbitrary: t) (auto simp: attach_one_def split: attach_outcome.splits)

lemma map_update_inv:
  assumes "distinct (map fst m)" "length m \<le> max_entries" "map_update k v m = (e, m')"
  shows "distinct (map fst m') \<and> length m' \<le> max_entries"
  using assms length_update_new[of k m v] length_update_old[of k m v]
  by (cases "k \<in> fst ` set m") (auto simp: map_update_def map_lookup_def map_of_eq_None_iff split: if_splits)

lemma map_delete_inv:
  assumes "distinct (map fst m)" "length m \<le> max_entries" "map_delete k m = (e, m')"
  shows "distinct (map fst m') \<and> length m' \<le> max_entries"
  using assms length_delete_le[of k m]
  by (auto simp: map_delete_def AList.delete_eq distinct_keys_filter intro: order_trans[OF length_filter_le] split: if_splits)

text \<open>C29: The loader's state machine is consistent. In every state reachable from a new loader by
  loading, attaching, detaching, closing and writing the map, in any order and whatever the operating
  system answers, its flags describe what it holds, and the map has at most 4096 distinct keys.\<close>

theorem loader_reachable:
  "loader_step\<^sup>*\<^sup>* (NewTCLoader bpf ifaces prio) t \<Longrightarrow> loader_inv t"
proof (induction rule: rtranclp_induct)
  case base
  show ?case by (simp add: loader_inv_def NewTCLoader_def)
next
  case (step t t')
  from step.hyps(2) step.IH show ?case
  proof (cases rule: loader_step.cases)
    case (1 obj coll e)
    then show ?thesis using step.IH
      by (auto simp: loader_inv_def Load_def Let_def max_entries_def split: if_splits sum.splits option.splits)
  next
    case (2 progs out e)
    then show ?thesis using step.IH
      by (auto simp: loader_inv_def Attach_def attach_fold_frame split: if_splits)
  next
    case 3
    then show ?thesis using step.IH by (auto simp: loader_inv_def Detach_def)
  next
    case 4
    then show ?thesis using step.IH by (auto simp: loader_inv_def tl_Close_def Detach_def)
  next
    case (5 ip port pr act e)
    show ?thesis
    proof (cases "tl_mockMode t \<or> tl_blocklistMap t = None")
      case True
      then show ?thesis using 5 step.IH by (auto simp: UpdateBlocklistEntry_def split: option.splits if_splits)
    next
      case False
      then obtain m where m: "tl_blocklistMap t = Some m" "\<not> tl_mockMode t" by auto
      obtain e' m' where u: "map_update (block_key ip port pr) \<lparr>bv_BlockTimeNs = 0, bv_TTLSeconds = 0,
          bv_RuleID = uint32FromAction act, bv_BlockType = scarletNetBlockCombined, bv_Reason = act, bv_Pad = 0\<rparr> m = (e', m')" by force
      have "t' = t\<lparr>tl_blocklistMap := Some m'\<rparr>" using 5 m u by (cases e') (simp_all add: UpdateBlocklistEntry_def)
      then show ?thesis using step.IH m map_update_inv[OF _ _ u] by (simp add: loader_inv_def)
    qed
  next
    case (6 ip port pr e)
    show ?thesis
    proof (cases "tl_mockMode t \<or> tl_blocklistMap t = None")
      case True
      then show ?thesis using 6 step.IH by (auto simp: DeleteBlocklistEntry_def split: option.splits if_splits)
    next
      case False
      then obtain m where m: "tl_blocklistMap t = Some m" "\<not> tl_mockMode t" by auto
      obtain e' m' where u: "map_delete (block_key ip port pr) m = (e', m')" by force
      have "t' = t\<lparr>tl_blocklistMap := Some m'\<rparr>" using 6 m u by (cases e') (simp_all add: DeleteBlocklistEntry_def)
      then show ?thesis using step.IH m map_delete_inv[OF _ _ u] by (simp add: loader_inv_def)
    qed
  qed
qed

theorem loader_reachable_witness:
  "loader_inv (snd (Attach True (\<lambda>_. BothAttach) (snd (Load True (Inr (Some 5)) (NewTCLoader True [] 0))))) \<and>
   tl_links (snd (Attach True (\<lambda>_. BothAttach) (snd (Load True (Inr (Some 5)) (NewTCLoader True [] 0))))) = [''eth0'', ''eth0'']"
proof -
  let ?a = "NewTCLoader True [] 0"
  let ?b = "snd (Load True (Inr (Some 5)) ?a)"
  let ?c = "snd (Attach True (\<lambda>_. BothAttach) ?b)"
  have "loader_step ?a ?b" "loader_step ?b ?c"
    by (rule loader_step.intros, rule prod.collapse[symmetric])+
  then have "loader_step\<^sup>*\<^sup>* ?a ?c" by (meson r_into_rtranclp rtranclp_trans)
  from loader_reachable[OF this] show ?thesis
    by (simp add: NewTCLoader_def Load_def Attach_def attach_one_def)
qed

end
