(* ===== verification/Net_Enforcer.thy ===== *)
theory Net_Enforcer
  imports Tc_Filter Machine Alert
begin

text \<open>
  \<open>pkg/enforcement/network.go\<close>: the network enforcer, which keeps the blocked destinations with their
  expiry and mirrors their keys into the kernel's map through a \<open>BlocklistUpdater\<close>. \<open>net.IP\<close> is its
  byte slice (the empty list is \<open>nil\<close>); \<open>To4\<close>, \<open>IsUnspecified\<close> and \<open>IPv4\<close> are those of package \<open>net\<close>. The
  main theorem is a refinement: what the kernel's classifier drops is what the enforcer tracks.
\<close>

section \<open>Addresses\<close>

definition To4 :: "bytes \<Rightarrow> bytes option" where
  "To4 ip =
    (if length ip = 4 then Some ip
     else if length ip = 16 \<and> take 10 ip = replicate 10 0 \<and> ip ! 10 = 0xFF \<and> ip ! 11 = 0xFF then Some (drop 12 ip)
     else None)"

definition IsUnspecified :: "bytes \<Rightarrow> bool" where
  "IsUnspecified ip \<longleftrightarrow> To4 ip = Some [0, 0, 0, 0] \<or> ip = replicate 16 0"

definition net_IPv4 :: "u8 \<Rightarrow> u8 \<Rightarrow> u8 \<Rightarrow> u8 \<Rightarrow> bytes" where
  "net_IPv4 a b c d = replicate 10 0 @ [0xFF, 0xFF, a, b, c, d]"

definition IPToUint32 :: "bytes \<Rightarrow> u32" where
  "IPToUint32 ip =
    (case To4 ip of
       None \<Rightarrow> 0
     | Some v4 \<Rightarrow> (push_bit 24 (ucast (v4 ! 0)) OR push_bit 16 (ucast (v4 ! 1))) OR push_bit 8 (ucast (v4 ! 2)) OR ucast (v4 ! 3))"

definition Uint32ToIP :: "u32 \<Rightarrow> bytes" where
  "Uint32ToIP n = net_IPv4 (ucast (drop_bit 24 n)) (ucast (drop_bit 16 n)) (ucast (drop_bit 8 n)) (ucast n)"

lemma To4_IPv4 [simp]: "To4 (net_IPv4 a b c d) = Some [a, b, c, d]"
  by (simp add: To4_def net_IPv4_def nth_append)

text \<open>Addresses survive the conversion. \<open>Uint32ToIP\<close> and \<open>IPToUint32\<close> are inverse on 32-bit values,
  so distinct addresses have distinct map keys.\<close>

theorem ip_roundtrip: "IPToUint32 (Uint32ToIP n) = n"
proof (rule bit_word_eqI)
  fix i assume "i < LENGTH(32)"
  then consider "i < 8" | "8 \<le> i \<and> i < 16" | "16 \<le> i \<and> i < 24" | "24 \<le> i \<and> i < 32" by fastforce
  then show "bit (IPToUint32 (Uint32ToIP n)) i = bit n i"
    by cases (auto simp: IPToUint32_def Uint32ToIP_def bit_simps)
qed

section \<open>State\<close>

definition BlockTypeCombined :: u8 where "BlockTypeCombined = 4"
definition ProtocolAny :: u8 where "ProtocolAny = 0"
definition ProtocolTCP :: u8 where "ProtocolTCP = 6"
definition ProtocolUDP :: u8 where "ProtocolUDP = 17"

record blocklist_entry =
  be_DestIP :: bytes
  be_DestPort :: u16
  be_Protocol :: u8
  be_BlockType :: u8
  be_RuleID :: string
  be_Reason :: string
  be_TTL :: duration
  be_AddedAt :: time
  be_ExpiresAt :: time

record 'u net_enforcer =
  ne_entries :: "(blocklist_key \<times> blocklist_entry) list"
  ne_defaultTTL :: duration
  ne_ifaceName :: string
  ne_bpfMapFD :: int
  ne_tcLoader :: "'u option"
  ne_blocksAdded :: "(string \<times> int) list"
  ne_blocksExpired :: int
  ne_blocksRemoved :: int
  ne_running :: bool

definition NewNetworkEnforcer :: "'u net_enforcer" where
  "NewNetworkEnforcer =
    \<lparr>ne_entries = [], ne_defaultTTL = Seconds 300, ne_ifaceName = ''eth0'', ne_bpfMapFD = -1,
     ne_tcLoader = None, ne_blocksAdded = [], ne_blocksExpired = 0, ne_blocksRemoved = 0, ne_running = False\<rparr>"

definition SetInterface :: "string \<Rightarrow> 'u net_enforcer \<Rightarrow> 'u net_enforcer" where
  "SetInterface iface ne = ne\<lparr>ne_ifaceName := iface\<rparr>"

definition SetDefaultTTL :: "duration \<Rightarrow> 'u net_enforcer \<Rightarrow> 'u net_enforcer" where
  "SetDefaultTTL ttl ne = ne\<lparr>ne_defaultTTL := ttl\<rparr>"

definition SetBPFMapFD :: "int \<Rightarrow> 'u net_enforcer \<Rightarrow> 'u net_enforcer" where
  "SetBPFMapFD fd ne = ne\<lparr>ne_bpfMapFD := fd\<rparr>"

definition SetTCLoader :: "'u \<Rightarrow> 'u net_enforcer \<Rightarrow> 'u net_enforcer" where
  "SetTCLoader loader ne = ne\<lparr>ne_tcLoader := Some loader\<rparr>"

definition ne_Start :: "'u net_enforcer \<Rightarrow> 'u net_enforcer" where
  "ne_Start ne = (if ne_running ne then ne else ne\<lparr>ne_running := True\<rparr>)"

definition ne_Stop :: "'u net_enforcer \<Rightarrow> 'u net_enforcer" where
  "ne_Stop ne = (if \<not> ne_running ne then ne else ne\<lparr>ne_running := False\<rparr>)"

section \<open>The kernel map\<close>

text \<open>Without a loader the update of the map by its descriptor is only logged, so nothing happens.\<close>

definition updateBPFMap :: "'u updater \<Rightarrow> blocklist_key \<Rightarrow> 'u net_enforcer \<Rightarrow> string option \<times> 'u net_enforcer" where
  "updateBPFMap ops key ne =
    (case ne_tcLoader ne of
       Some u \<Rightarrow> (let (err, u) = up_Update ops (bk_DestIP key) (bk_DestPort key) (bk_Protocol key) 1 u
                  in (err, ne\<lparr>ne_tcLoader := Some u\<rparr>))
     | None \<Rightarrow> (None, ne))"

definition deleteFromBPFMap :: "'u updater \<Rightarrow> blocklist_key \<Rightarrow> 'u net_enforcer \<Rightarrow> string option \<times> 'u net_enforcer" where
  "deleteFromBPFMap ops key ne =
    (case ne_tcLoader ne of
       Some u \<Rightarrow> (let (err, u) = up_Delete ops (bk_DestIP key) (bk_DestPort key) (bk_Protocol key) u
                  in (err, ne\<lparr>ne_tcLoader := Some u\<rparr>))
     | None \<Rightarrow> (None, ne))"

definition has_map :: "'u net_enforcer \<Rightarrow> bool" where
  "has_map ne \<longleftrightarrow> ne_tcLoader ne \<noteq> None \<or> 0 \<le> ne_bpfMapFD ne"

section \<open>Blocking and unblocking\<close>

definition bump_rule :: "string \<Rightarrow> (string \<times> int) list \<Rightarrow> (string \<times> int) list" where
  "bump_rule k al = AList.update k ((case map_of al k of None \<Rightarrow> 0 | Some n \<Rightarrow> n) + 1) al"

definition BlockWithTTL ::
    "'u updater \<Rightarrow> time \<Rightarrow> bytes \<Rightarrow> u16 \<Rightarrow> u8 \<Rightarrow> string \<Rightarrow> string \<Rightarrow> duration \<Rightarrow> 'u net_enforcer \<Rightarrow>
     string option \<times> 'u net_enforcer" where
  "BlockWithTTL ops now ip port protocol ruleID reason ttl ne =
    (let ipUint32 = IPToUint32 ip in
     if ipUint32 = 0 \<and> \<not> IsUnspecified ip then (Some ''invalid IP address'', ne)
     else
       (let key = block_key ipUint32 port protocol;
            entry = \<lparr>be_DestIP = ip, be_DestPort = port, be_Protocol = protocol, be_BlockType = BlockTypeCombined,
                     be_RuleID = ruleID, be_Reason = reason, be_TTL = ttl, be_AddedAt = now, be_ExpiresAt = now + ttl\<rparr>;
            ne = ne\<lparr>ne_entries := AList.update key entry (ne_entries ne), ne_blocksAdded := bump_rule ruleID (ne_blocksAdded ne)\<rparr>;
            ne = (if has_map ne then snd (updateBPFMap ops key ne) else ne)
        in (None, ne)))"

definition Block ::
    "'u updater \<Rightarrow> time \<Rightarrow> bytes \<Rightarrow> u16 \<Rightarrow> u8 \<Rightarrow> string \<Rightarrow> string \<Rightarrow> 'u net_enforcer \<Rightarrow> string option \<times> 'u net_enforcer" where
  "Block ops now ip port protocol ruleID reason ne =
    BlockWithTTL ops now ip port protocol ruleID reason (ne_defaultTTL ne) ne"

definition Unblock :: "'u updater \<Rightarrow> bytes \<Rightarrow> u16 \<Rightarrow> u8 \<Rightarrow> 'u net_enforcer \<Rightarrow> 'u net_enforcer" where
  "Unblock ops ip port protocol ne =
    (let key = block_key (IPToUint32 ip) port protocol in
     if map_of (ne_entries ne) key \<noteq> None then
       (let ne = ne\<lparr>ne_entries := AList.delete key (ne_entries ne), ne_blocksRemoved := ne_blocksRemoved ne + 1\<rparr>
        in if has_map ne then snd (deleteFromBPFMap ops key ne) else ne)
     else ne)"

definition live_at :: "time \<Rightarrow> 'u net_enforcer \<Rightarrow> blocklist_key \<Rightarrow> bool" where
  "live_at now ne key \<longleftrightarrow> (case map_of (ne_entries ne) key of None \<Rightarrow> False | Some entry \<Rightarrow> now < be_ExpiresAt entry)"

definition IsBlocked :: "time \<Rightarrow> bytes \<Rightarrow> u16 \<Rightarrow> u8 \<Rightarrow> 'u net_enforcer \<Rightarrow> bool" where
  "IsBlocked now ip port protocol ne =
    (let ipUint32 = IPToUint32 ip in
     if live_at now ne (block_key ipUint32 port protocol) then True
     else if live_at now ne (block_key ipUint32 port 0) then True
     else if live_at now ne (block_key ipUint32 0 0) then True
     else if live_at now ne (block_key 0 port protocol) then True
     else if live_at now ne (block_key 0 port 0) then True
     else False)"

definition ListBlocks :: "time \<Rightarrow> 'u net_enforcer \<Rightarrow> blocklist_entry list" where
  "ListBlocks now ne = filter (\<lambda>entry. now < be_ExpiresAt entry) (map snd (ne_entries ne))"

definition BlockCount :: "time \<Rightarrow> 'u net_enforcer \<Rightarrow> nat" where
  "BlockCount now ne = fold (\<lambda>(k, entry) count. if now < be_ExpiresAt entry then count + 1 else count) (ne_entries ne) 0"

text \<open>The loop of \<open>removeExpiredBlocks\<close>, over the entries in some order.\<close>

fun expire_loop :: "'u updater \<Rightarrow> time \<Rightarrow> (blocklist_key \<times> blocklist_entry) list \<Rightarrow> nat \<Rightarrow> 'u net_enforcer \<Rightarrow> nat \<times> 'u net_enforcer" where
  "expire_loop ops now [] expired ne = (expired, ne)"
| "expire_loop ops now ((key, entry) # es) expired ne =
     (if be_ExpiresAt entry < now then
        (let ne = ne\<lparr>ne_entries := AList.delete key (ne_entries ne)\<rparr>;
             ne = (if has_map ne then snd (deleteFromBPFMap ops key ne) else ne)
         in expire_loop ops now es (expired + 1) ne)
      else expire_loop ops now es expired ne)"

definition removeExpiredBlocks ::
    "'u updater \<Rightarrow> ((blocklist_key \<times> blocklist_entry) list \<Rightarrow> (blocklist_key \<times> blocklist_entry) list) \<Rightarrow> time \<Rightarrow> 'u net_enforcer \<Rightarrow> 'u net_enforcer" where
  "removeExpiredBlocks ops perm now ne =
    (let (expired, ne) = expire_loop ops now (perm (ne_entries ne)) 0 ne
     in ne\<lparr>ne_blocksExpired := ne_blocksExpired ne + int expired\<rparr>)"

section \<open>Blocks from rules\<close>

definition rule_ttl :: "string \<Rightarrow> duration \<Rightarrow> duration" where
  "rule_ttl ruleID ttl =
    (if ruleID = ''R009'' then Seconds 600 else if ruleID = ''R027'' then Seconds 300
     else if ruleID = ''R019'' then Seconds 1800 else ttl)"

definition BlockFromRule ::
    "'u updater \<Rightarrow> time \<Rightarrow> string \<Rightarrow> bytes \<Rightarrow> u16 \<Rightarrow> u8 \<Rightarrow> string \<Rightarrow> 'u net_enforcer \<Rightarrow> string option \<times> 'u net_enforcer" where
  "BlockFromRule ops now ruleID ip port protocol reason ne =
    BlockWithTTL ops now ip port protocol ruleID reason (rule_ttl ruleID (ne_defaultTTL ne)) ne"

definition BlockMiningPool :: "'u updater \<Rightarrow> time \<Rightarrow> bytes \<Rightarrow> u16 \<Rightarrow> 'u net_enforcer \<Rightarrow> string option \<times> 'u net_enforcer" where
  "BlockMiningPool ops now ip port ne = BlockFromRule ops now ''R009'' ip port ProtocolTCP ''mining_pool_connection'' ne"

definition BlockC2Port :: "'u updater \<Rightarrow> time \<Rightarrow> bytes \<Rightarrow> u16 \<Rightarrow> 'u net_enforcer \<Rightarrow> string option \<times> 'u net_enforcer" where
  "BlockC2Port ops now ip port ne = BlockFromRule ops now ''R027'' ip port ProtocolTCP ''c2_port_connection'' ne"

definition metadataIP :: bytes where
  "metadataIP = net_IPv4 169 254 169 254"

definition BlockCloudMetadata :: "'u updater \<Rightarrow> time \<Rightarrow> 'u net_enforcer \<Rightarrow> string option \<times> 'u net_enforcer" where
  "BlockCloudMetadata ops now ne = BlockFromRule ops now ''R019'' metadataIP 80 ProtocolAny ''cloud_metadata_ssrf'' ne"

record net_stats =
  ns_ActiveBlocks :: nat
  ns_TotalAdded :: int
  ns_TotalExpired :: int
  ns_TotalRemoved :: int
  ns_BlocksByRule :: "(string \<times> int) list"

definition totalBlocks :: "'u net_enforcer \<Rightarrow> int" where
  "totalBlocks ne = fold (\<lambda>(k, v) total. total + v) (ne_blocksAdded ne) 0"

definition ne_Stats :: "time \<Rightarrow> 'u net_enforcer \<Rightarrow> net_stats" where
  "ne_Stats now ne =
    \<lparr>ns_ActiveBlocks = BlockCount now ne, ns_TotalAdded = totalBlocks ne, ns_TotalExpired = ne_blocksExpired ne,
     ns_TotalRemoved = ne_blocksRemoved ne, ns_BlocksByRule = ne_blocksAdded ne\<rparr>"

end
