(* ===== verification/Net_Refine.thy ===== *)
theory Net_Refine
  imports Net_Enforcer
begin

text \<open>
  The enforcer and the kernel's map: every operation keeps the two in step, for any updater that keeps
  the laws of the interface and in particular for the TC loader, so that the classifier's decision
  refines the enforcer's.
\<close>

section \<open>Two lookups over the same patterns\<close>

definition patterns :: "u32 \<Rightarrow> u16 \<Rightarrow> u8 \<Rightarrow> blocklist_key set" where
  "patterns ip port pr = {block_key ip port pr, block_key ip port 0, block_key ip 0 0, block_key 0 port pr, block_key 0 port 0}"

lemma check_blocklist_patterns:
  "check_blocklist m ip port pr = SCARLET_TC_VERDICT_DROP \<longleftrightarrow> (\<exists>k\<in>patterns ip port pr. k \<in> fst ` set m)"
  by (auto simp: check_blocklist_def patterns_def map_lookup_def tc_defs map_of_eq_None_iff)

lemma IsBlocked_patterns:
  "IsBlocked now ip port pr ne \<longleftrightarrow> (\<exists>k\<in>patterns (IPToUint32 ip) port pr. live_at now ne k)"
  by (auto simp: IsBlocked_def patterns_def Let_def)

lemma live_at_key: "live_at now ne k \<Longrightarrow> k \<in> fst ` set (ne_entries ne)"
proof (rule ccontr)
  assume l: "live_at now ne k" and "k \<notin> fst ` set (ne_entries ne)"
  then have n: "map_of (ne_entries ne) k = None" by (simp add: map_of_eq_None_iff)
  from l show False unfolding live_at_def n by simp
qed

lemma live_at_all:
  "\<forall>(k, e)\<in>set (ne_entries ne). now < be_ExpiresAt e \<Longrightarrow> live_at now ne k \<longleftrightarrow> k \<in> fst ` set (ne_entries ne)"
proof -
  assume a: "\<forall>(k, e)\<in>set (ne_entries ne). now < be_ExpiresAt e"
  show ?thesis
  proof (cases "map_of (ne_entries ne) k")
    case None
    have "\<not> live_at now ne k" unfolding live_at_def None by simp
    moreover have "k \<notin> fst ` set (ne_entries ne)" using None by (simp add: map_of_eq_None_iff)
    ultimately show ?thesis by blast
  next
    case (Some e)
    then have "(k, e) \<in> set (ne_entries ne)" by (rule map_of_SomeD)
    then show ?thesis using a Some by (force simp: live_at_def)
  qed
qed

section \<open>Staying in step\<close>

definition synced :: "('u \<Rightarrow> blocklist_key set) \<Rightarrow> ('u \<Rightarrow> bool) \<Rightarrow> 'u net_enforcer \<Rightarrow> bool" where
  "synced keys ready ne \<longleftrightarrow> distinct (map fst (ne_entries ne)) \<and> (\<forall>(k, e)\<in>set (ne_entries ne). bk_Pad k = 0) \<and>
     (\<exists>u. ne_tcLoader ne = Some u \<and> ready u \<and> keys u = fst ` set (ne_entries ne))"

inductive ne_step :: "'u updater \<Rightarrow> nat \<Rightarrow> 'u net_enforcer \<Rightarrow> 'u net_enforcer \<Rightarrow> bool" for ops cap where
  step_block: "length (ne_entries ne) < cap \<Longrightarrow> BlockWithTTL ops now ip port pr ruleID reason ttl ne = (e, ne') \<Longrightarrow>
     ne_step ops cap ne ne'"
| step_unblock: "ne_step ops cap ne (Unblock ops ip port pr ne)"
| step_sweep: "\<forall>es. set (perm es) = set es \<Longrightarrow> ne_step ops cap ne (removeExpiredBlocks ops perm now ne)"

inductive_cases ne_stepE: "ne_step ops cap ne ne'"

lemma block_key_id: "bk_Pad k = 0 \<Longrightarrow> block_key (bk_DestIP k) (bk_DestPort k) (bk_Protocol k) = k"
  by (simp add: block_key_def)

lemma block_key_sel [simp]:
  "bk_DestIP (block_key ip port pr) = ip" "bk_DestPort (block_key ip port pr) = port"
  "bk_Protocol (block_key ip port pr) = pr" "bk_Pad (block_key ip port pr) = 0"
  by (simp_all add: block_key_def)

context blocklist_updater
begin

lemma synced_delete:
  assumes "synced keys ready ne" "bk_Pad key = 0"
  shows "synced keys ready (snd (deleteFromBPFMap ops key (ne\<lparr>ne_entries := AList.delete key (ne_entries ne)\<rparr>)))"
proof -
  obtain u where u: "ne_tcLoader ne = Some u" "ready u" "keys u = fst ` set (ne_entries ne)"
    using assms(1) by (auto simp: synced_def)
  obtain e u' where d: "up_Delete ops (bk_DestIP key) (bk_DestPort key) (bk_Protocol key) u = (e, u')" by force
  from delete_any[OF u(2) d] have "ready u'" "keys u' = keys u - {key}" by (simp_all add: block_key_id[OF assms(2)])
  then show ?thesis
    using assms(1) u d by (auto simp: synced_def deleteFromBPFMap_def distinct_delete keys_delete AList.delete_eq distinct_keys_filter)
qed

lemma has_map_synced: "synced keys ready ne \<Longrightarrow> has_map (ne\<lparr>ne_entries := es\<rparr>)"
  by (auto simp: synced_def has_map_def)

lemma synced_unblock: "synced keys ready ne \<Longrightarrow> synced keys ready (Unblock ops ip port pr ne)"
proof -
  assume s: "synced keys ready ne"
  let ?ne = "ne\<lparr>ne_blocksRemoved := ne_blocksRemoved ne + 1\<rparr>"
  have s': "synced keys ready ?ne" using s by (simp add: synced_def)
  have eq: "ne\<lparr>ne_entries := es, ne_blocksRemoved := n\<rparr> = ne\<lparr>ne_blocksRemoved := n, ne_entries := es\<rparr>" for es n
    by simp
  show ?thesis
    using s synced_delete[OF s', of "block_key (IPToUint32 ip) port pr"] has_map_synced[OF s']
    by (simp add: Unblock_def Let_def eq)
qed

lemma synced_sweep_loop:
  "synced keys ready ne \<Longrightarrow> \<forall>(k, e)\<in>set es. bk_Pad k = 0 \<Longrightarrow>
     synced keys ready (snd (expire_loop ops now es n ne))"
proof (induction es arbitrary: n ne)
  case (Cons p es)
  then show ?case
    using synced_delete[OF Cons.prems(1), of "fst p"] has_map_synced[OF Cons.prems(1)]
    by (cases p) (auto simp: Let_def)
qed simp

lemma synced_sweep:
  assumes "synced keys ready ne" "\<forall>es. set (perm es) = set es"
  shows "synced keys ready (removeExpiredBlocks ops perm now ne)"
proof -
  have "synced keys ready (snd (expire_loop ops now (perm (ne_entries ne)) 0 ne))"
    using assms by (intro synced_sweep_loop) (auto simp: synced_def)
  then show ?thesis
    by (cases "expire_loop ops now (perm (ne_entries ne)) 0 ne") (simp add: removeExpiredBlocks_def synced_def)
qed

lemma synced_block:
  assumes "synced keys ready ne" "length (ne_entries ne) < cap"
    "BlockWithTTL ops now ip port pr ruleID reason ttl ne = (e, ne')"
  shows "synced keys ready ne'"
proof (cases "IPToUint32 ip = 0 \<and> \<not> IsUnspecified ip")
  case True
  then show ?thesis using assms by (simp add: BlockWithTTL_def)
next
  case False
  define key where "key = block_key (IPToUint32 ip) port pr"
  obtain u where u: "ne_tcLoader ne = Some u" "ready u" "keys u = fst ` set (ne_entries ne)"
    using assms(1) by (auto simp: synced_def)
  have d: "distinct (map fst (ne_entries ne))" using assms(1) by (simp add: synced_def)
  then have "card (keys u) < cap" using distinct_card[OF d] assms(2) u(3) by simp
  then obtain u' where up: "up_Update ops (IPToUint32 ip) port pr 1 u = (None, u')"
    using update_room[OF u(2), of "IPToUint32 ip" port pr 1] by (metis prod.collapse)
  note k = update_ok[OF u(2) up]
  obtain entry ad where "ne' = ne\<lparr>ne_entries := AList.update key entry (ne_entries ne), ne_blocksAdded := ad, ne_tcLoader := Some u'\<rparr>"
    using False assms(3) u up by (auto simp: BlockWithTTL_def Let_def has_map_def updateBPFMap_def key_def)
  moreover have "\<forall>(k, e)\<in>set (AList.update key entry (ne_entries ne)). bk_Pad k = 0"
    using assms(1) set_update_sub[of key entry "ne_entries ne"] by (fastforce simp: synced_def key_def)
  ultimately show ?thesis
    using k u d by (auto simp: synced_def distinct_update keys_update_insert key_def)
qed

lemma synced_step: "synced keys ready ne \<Longrightarrow> ne_step ops cap ne ne' \<Longrightarrow> synced keys ready ne'"
  by (elim ne_stepE) (auto intro: synced_block synced_unblock synced_sweep)

lemma synced_start: "ready u \<Longrightarrow> keys u = {} \<Longrightarrow> synced keys ready (SetTCLoader u NewNetworkEnforcer)"
  by (simp add: synced_def SetTCLoader_def NewNetworkEnforcer_def)

end

interpretation ne_machine: invariant_system
  "\<lambda>ne. \<exists>t. loader_ready t \<and> loader_keys t = {} \<and> ne = SetTCLoader t NewNetworkEnforcer"
  "ne_step tc_updater max_entries" "synced loader_keys loader_ready"
  by unfold_locales (auto intro: tc_blocklist.synced_start tc_blocklist.synced_step)

text \<open>C13: The kernel drops what the enforcer tracks. Start a network enforcer with an empty loaded map
  and let it block (while it tracks fewer than the map's 4096 entries), unblock and sweep, in any
  order. Then the classifier drops a destination exactly when an entry for it is tracked, under one of
  the five patterns (address, port and protocol; address and port; address; port and protocol; port);
  whatever \<open>IsBlocked\<close> reports is dropped; and when no tracked entry has reached its end the two
  answers are the same.\<close>

theorem kernel_refines_enforcer:
  assumes "(ne_step tc_updater max_entries)\<^sup>*\<^sup>* (SetTCLoader t0 NewNetworkEnforcer) ne"
    "loader_ready t0" "loader_keys t0 = {}"
  shows "\<exists>t m. ne_tcLoader ne = Some t \<and> tl_blocklistMap t = Some m \<and>
    (\<forall>now ip port pr.
       (check_blocklist m (IPToUint32 ip) port pr = SCARLET_TC_VERDICT_DROP \<longleftrightarrow>
          (\<exists>k\<in>patterns (IPToUint32 ip) port pr. k \<in> fst ` set (ne_entries ne))) \<and>
       (IsBlocked now ip port pr ne \<longrightarrow> check_blocklist m (IPToUint32 ip) port pr = SCARLET_TC_VERDICT_DROP) \<and>
       ((\<forall>(k, e)\<in>set (ne_entries ne). now < be_ExpiresAt e) \<longrightarrow>
          (check_blocklist m (IPToUint32 ip) port pr = SCARLET_TC_VERDICT_DROP \<longleftrightarrow> IsBlocked now ip port pr ne)))"
proof -
  have "synced loader_keys loader_ready ne" using ne_machine.reachable_inv[OF _ assms(1)] assms(2,3) by blast
  then obtain t m where t: "ne_tcLoader ne = Some t" "tl_blocklistMap t = Some m" "fst ` set m = fst ` set (ne_entries ne)"
    by (auto simp: synced_def loader_ready_def loader_keys_def)
  have d: "check_blocklist m ip port pr = SCARLET_TC_VERDICT_DROP \<longleftrightarrow>
      (\<exists>k\<in>patterns ip port pr. k \<in> fst ` set (ne_entries ne))" for ip port pr
    unfolding check_blocklist_patterns t(3) ..
  have i: "IsBlocked now ip port pr ne \<Longrightarrow> check_blocklist m (IPToUint32 ip) port pr = SCARLET_TC_VERDICT_DROP" for now ip port pr
    unfolding d IsBlocked_patterns by (blast dest: live_at_key)
  have a: "check_blocklist m (IPToUint32 ip) port pr = SCARLET_TC_VERDICT_DROP \<longleftrightarrow> IsBlocked now ip port pr ne"
    if "\<forall>(k, e)\<in>set (ne_entries ne). now < be_ExpiresAt e" for now ip port pr
    unfolding d IsBlocked_patterns live_at_all[OF that] ..
  show ?thesis
    by (intro exI[of _ t] exI[of _ m] conjI allI impI) (rule t(1), rule t(2), rule d, erule i, erule a)
qed

section \<open>Expiry and the cloud metadata service\<close>

lemma expire_loop_entries:
  "ne_entries (snd (expire_loop ops now es n ne)) =
     filter (\<lambda>(k, e). k \<notin> fst ` {p \<in> set es. be_ExpiresAt (snd p) < now}) (ne_entries ne)"
proof (induction es arbitrary: n ne)
  case Nil
  then show ?case by (simp add: case_prod_beta)
next
  case (Cons p es)
  obtain k e where p: "p = (k, e)" by force
  have del: "ne_entries (snd (deleteFromBPFMap ops k ne)) = ne_entries ne" for ne :: "'a net_enforcer"
    by (auto simp: deleteFromBPFMap_def split: option.splits prod.splits)
  show ?case
    by (auto simp: p Let_def Cons.IH del AList.delete_eq case_prod_beta image_iff intro!: filter_cong)
qed

text \<open>A sweep removes exactly what has expired. After \<open>removeExpiredBlocks\<close> at a time the tracked
  entries are those whose end has not passed, in their order and unchanged, whatever the order in
  which the map was visited.\<close>

theorem sweep_exact:
  assumes "distinct (map fst (ne_entries ne))" "\<forall>es. set (perm es) = set es"
  shows "ne_entries (removeExpiredBlocks ops perm now ne) = filter (\<lambda>(k, e). now \<le> be_ExpiresAt e) (ne_entries ne)"
proof -
  have "ne_entries (removeExpiredBlocks ops perm now ne) = ne_entries (snd (expire_loop ops now (perm (ne_entries ne)) 0 ne))"
    by (cases "expire_loop ops now (perm (ne_entries ne)) 0 ne") (simp add: removeExpiredBlocks_def)
  also have "\<dots> = filter (\<lambda>(k, e). now \<le> be_ExpiresAt e) (ne_entries ne)"
    unfolding expire_loop_entries
  proof (rule filter_cong[OF refl])
    fix p assume p: "p \<in> set (ne_entries ne)"
    have "fst p \<in> fst ` {q \<in> set (perm (ne_entries ne)). be_ExpiresAt (snd q) < now} \<longleftrightarrow> be_ExpiresAt (snd p) < now"
    proof -
      have "q = p" if "q \<in> set (ne_entries ne)" "fst q = fst p" for q
        using that p assms(1) by (metis eq_key_imp_eq_value prod.collapse)
      then show ?thesis using p assms(2) by force
    qed
    then show "(case p of (k, e) \<Rightarrow> k \<notin> fst ` {q \<in> set (perm (ne_entries ne)). be_ExpiresAt (snd q) < now}) =
        (case p of (k, e) \<Rightarrow> now \<le> be_ExpiresAt e)" by (auto simp: case_prod_beta not_less)
  qed
  finally show ?thesis .
qed

text \<open>The metadata block is one port. Blocking the cloud metadata service tracks the one key of
  169.254.169.254, port 80 and any protocol: from an enforcer that tracks nothing, a destination at
  that address is blocked afterwards at port 80 and at no other port.\<close>

theorem metadata_block_is_port_80:
  assumes "ne_entries ne = []" "BlockCloudMetadata ops now ne = (e, ne')"
  shows "e = None \<and> (\<forall>port pr. IsBlocked now metadataIP port pr ne' \<longleftrightarrow> port = 80)"
proof -
  have ip: "IPToUint32 metadataIP = 0xA9FEA9FE"
    by (simp add: metadataIP_def IPToUint32_def)
  have ent: "\<exists>entry. ne_entries ne' = [(block_key 0xA9FEA9FE 80 0, entry)] \<and> be_ExpiresAt entry = now + Seconds 1800"
    using assms by (auto simp: BlockCloudMetadata_def BlockFromRule_def BlockWithTTL_def Let_def ip rule_ttl_def ProtocolAny_def
        updateBPFMap_def split: if_splits option.splits prod.splits)
  have "e = None" using assms by (simp add: BlockCloudMetadata_def BlockFromRule_def BlockWithTTL_def Let_def ip)
  moreover have "IsBlocked now metadataIP port pr ne' \<longleftrightarrow> port = 80" for port pr
    using ent by (auto simp: IsBlocked_patterns patterns_def ip live_at_def split: if_splits)
  ultimately show ?thesis by blast
qed

section \<open>Concrete runs\<close>

definition demo_loader :: tc_loader where
  "demo_loader = snd (Load True (Inr (Some 5)) (NewTCLoader True [] 0))"

definition demo_blocked :: "tc_loader net_enforcer" where
  "demo_blocked = snd (BlockC2Port tc_updater 10 [10, 0, 0, 2] 4444 (SetTCLoader demo_loader NewNetworkEnforcer))"

theorem kernel_refines_enforcer_witness:
  "\<exists>t m. ne_tcLoader demo_blocked = Some t \<and> tl_blocklistMap t = Some m \<and>
     check_blocklist m 0x0A000002 4444 6 = SCARLET_TC_VERDICT_DROP"
proof -
  have l: "loader_ready demo_loader" "loader_keys demo_loader = {}"
    by (simp_all add: demo_loader_def NewTCLoader_def Load_def loader_ready_def loader_keys_def)
  have ip: "IPToUint32 [10, 0, 0, 2] = 0x0A000002" by (simp add: IPToUint32_def To4_def)
  have "ne_step tc_updater max_entries (SetTCLoader demo_loader NewNetworkEnforcer) demo_blocked"
    by (rule step_block[where e = None and now = 10 and ip = "[10, 0, 0, 2]" and port = 4444 and pr = 6 and ruleID = "''R027''"
        and reason = "''c2_port_connection''" and ttl = "Seconds 300"])
      (simp_all add: max_entries_def demo_blocked_def BlockC2Port_def BlockFromRule_def rule_ttl_def SetTCLoader_def
        NewNetworkEnforcer_def ProtocolTCP_def BlockWithTTL_def Let_def ip)
  then have "(ne_step tc_updater max_entries)\<^sup>*\<^sup>* (SetTCLoader demo_loader NewNetworkEnforcer) demo_blocked"
    by (rule r_into_rtranclp)
  from kernel_refines_enforcer[OF this l] obtain t m where t: "ne_tcLoader demo_blocked = Some t" "tl_blocklistMap t = Some m"
    "\<And>ip port pr. check_blocklist m (IPToUint32 ip) port pr = SCARLET_TC_VERDICT_DROP \<longleftrightarrow>
       (\<exists>k\<in>patterns (IPToUint32 ip) port pr. k \<in> fst ` set (ne_entries demo_blocked))"
    by (elim exE conjE, drule_tac x = 0 in spec) (rule that, assumption, assumption, (drule spec)+, erule conjunct1)
  have "\<exists>entry. ne_entries demo_blocked = [(block_key 0x0A000002 4444 6, entry)]"
    by (auto simp: demo_blocked_def BlockC2Port_def BlockFromRule_def SetTCLoader_def NewNetworkEnforcer_def ProtocolTCP_def
        BlockWithTTL_def Let_def ip updateBPFMap_def split: option.splits prod.splits)
  then show ?thesis using t(1,2) t(3)[of "[10, 0, 0, 2]" 4444 6] unfolding ip by (auto simp: patterns_def)
qed

theorem sweep_exact_witness:
  "ne_entries (removeExpiredBlocks tc_updater rev 310000000011 demo_blocked) = []"
proof -
  have "\<exists>entry. ne_entries demo_blocked = [(block_key 0x0A000002 4444 6, entry)] \<and> be_ExpiresAt entry = 300000000010"
    by (auto simp: demo_blocked_def BlockC2Port_def BlockFromRule_def SetTCLoader_def NewNetworkEnforcer_def ProtocolTCP_def
        BlockWithTTL_def Let_def IPToUint32_def To4_def rule_ttl_def updateBPFMap_def split: option.splits prod.splits)
  then show ?thesis using sweep_exact[of demo_blocked rev tc_updater 310000000011] by auto
qed

theorem metadata_block_is_port_80_witness:
  "IsBlocked 5 metadataIP 80 6 (snd (BlockCloudMetadata tc_updater 5 (NewNetworkEnforcer :: tc_loader net_enforcer))) \<and>
   \<not> IsBlocked 5 metadataIP 443 6 (snd (BlockCloudMetadata tc_updater 5 (NewNetworkEnforcer :: tc_loader net_enforcer)))"
  using metadata_block_is_port_80[of "NewNetworkEnforcer :: tc_loader net_enforcer" tc_updater 5
      "fst (BlockCloudMetadata tc_updater 5 NewNetworkEnforcer)" "snd (BlockCloudMetadata tc_updater 5 NewNetworkEnforcer)"]
  by (simp add: NewNetworkEnforcer_def)

end
