(* ===== verification/Metrics.thy ===== *)
theory Metrics
  imports Alert
begin

text \<open>
  The recording methods of \<open>pkg/output/metrics.go\<close>. A counter vector of the metrics library is the number of
  increments per tuple of label values; a gauge is its last value. Registration with the library and
  the HTTP server are not modelled.
\<close>

record metrics =
  mx_alertsTotal :: "string \<times> string \<times> string \<Rightarrow> nat"
  mx_enforcementTotal :: "string \<times> string \<Rightarrow> nat"
  mx_eventsProcessed :: "string \<times> string \<Rightarrow> nat"
  mx_ringBufferEvents :: nat
  mx_ringBufferDrops :: nat
  mx_containersTracked :: int
  mx_rulesLoaded :: int
  mx_totalAlerts :: u64
  mx_totalEnforce :: u64
  mx_totalEvents :: u64

definition NewMetricsExporter :: metrics where
  "NewMetricsExporter =
    \<lparr>mx_alertsTotal = (\<lambda>_. 0), mx_enforcementTotal = (\<lambda>_. 0), mx_eventsProcessed = (\<lambda>_. 0), mx_ringBufferEvents = 0,
     mx_ringBufferDrops = 0, mx_containersTracked = 0, mx_rulesLoaded = 0, mx_totalAlerts = 0, mx_totalEnforce = 0,
     mx_totalEvents = 0\<rparr>"

definition count_at :: "'a \<Rightarrow> ('a \<Rightarrow> nat) \<Rightarrow> 'a \<Rightarrow> nat" where
  "count_at k f = f(k := f k + 1)"

definition RecordAlert :: "string \<Rightarrow> string \<Rightarrow> string \<Rightarrow> metrics \<Rightarrow> metrics" where
  "RecordAlert ruleID priority action m =
    m\<lparr>mx_alertsTotal := count_at (ruleID, priority, action) (mx_alertsTotal m), mx_totalAlerts := mx_totalAlerts m + 1\<rparr>"

definition RecordEnforcement :: "string \<Rightarrow> string \<Rightarrow> metrics \<Rightarrow> metrics" where
  "RecordEnforcement actionType res m =
    m\<lparr>mx_enforcementTotal := count_at (actionType, res) (mx_enforcementTotal m), mx_totalEnforce := mx_totalEnforce m + 1\<rparr>"

definition RecordEventProcessed :: "string \<Rightarrow> string \<Rightarrow> metrics \<Rightarrow> metrics" where
  "RecordEventProcessed disposition category m =
    m\<lparr>mx_eventsProcessed := count_at (disposition, category) (mx_eventsProcessed m), mx_totalEvents := mx_totalEvents m + 1,
      mx_ringBufferEvents := mx_ringBufferEvents m + 1\<rparr>"

definition RecordRuleMatch :: "string \<Rightarrow> string \<Rightarrow> metrics \<Rightarrow> metrics" where
  "RecordRuleMatch ruleID action m =
    (if action = ''enforce'' then RecordEnforcement ''sigkill'' ''completed'' m
     else if action = ''alert'' then RecordAlert ruleID [] action m
     else if action = ''simulate'' then RecordEnforcement ''sigkill'' ''simulated'' m
     else m)"

definition RecordRingBufferDrop :: "metrics \<Rightarrow> metrics" where
  "RecordRingBufferDrop m = m\<lparr>mx_ringBufferDrops := mx_ringBufferDrops m + 1\<rparr>"

definition SetContainersTracked :: "int \<Rightarrow> metrics \<Rightarrow> metrics" where
  "SetContainersTracked count m = m\<lparr>mx_containersTracked := count\<rparr>"

definition SetRulesLoaded :: "int \<Rightarrow> metrics \<Rightarrow> metrics" where
  "SetRulesLoaded count m = m\<lparr>mx_rulesLoaded := count\<rparr>"

lemmas metrics_defs = RecordAlert_def RecordEnforcement_def RecordEventProcessed_def RecordRuleMatch_def count_at_def

end
