(* ===== verification/Anomaly.thy ===== *)
theory Anomaly
  imports Audit_Log
begin

text \<open>
  The feature extractor of \<open>pkg/ai/connector.go\<close>: the bounded trace of system calls of a container, its
  5-gram histogram, the anomaly score against a baseline and the learning of a baseline. A histogram
  is a Go map; the sums over it are sums of reals, which do not depend on its order, so it is an
  association list in order of first occurrence. \<open>math.Log2\<close> is the real logarithm.
\<close>

section \<open>Traces and n-grams\<close>

type_synonym ngram = "u32 list"

record feature_extractor =
  fe_syscallTrace :: "u32 list"
  fe_ngramSize :: nat
  fe_traceSize :: nat

definition NewFeatureExtractor :: feature_extractor where
  "NewFeatureExtractor = \<lparr>fe_syscallTrace = [], fe_ngramSize = 5, fe_traceSize = 1000\<rparr>"

definition AddSyscall :: "u32 \<Rightarrow> feature_extractor \<Rightarrow> feature_extractor" where
  "AddSyscall nr fe =
    (let trace = fe_syscallTrace fe @ [nr]
     in fe\<lparr>fe_syscallTrace :=
          if fe_traceSize fe < length trace then drop (length trace - fe_traceSize fe) trace else trace\<rparr>)"

definition Reset :: "feature_extractor \<Rightarrow> feature_extractor" where
  "Reset fe = fe\<lparr>fe_syscallTrace := []\<rparr>"

definition TraceLength :: "feature_extractor \<Rightarrow> nat" where
  "TraceLength fe = length (fe_syscallTrace fe)"

text \<open>\<open>copy(ngram[:], trace[i:i+n])\<close> into an array of five zeros.\<close>

definition ngram_at :: "u32 list \<Rightarrow> nat \<Rightarrow> nat \<Rightarrow> ngram" where
  "ngram_at trace n i = (let w = take 5 (take n (drop i trace)) in w @ replicate (5 - length w) 0)"

definition count_ngram :: "ngram \<Rightarrow> (ngram \<times> nat) list \<Rightarrow> (ngram \<times> nat) list" where
  "count_ngram g m = AList.update g ((case map_of m g of None \<Rightarrow> 0 | Some c \<Rightarrow> c) + 1) m"

text \<open>The counting loop, over \<open>0 .. len(trace) - n\<close>; shared by the three functions that contain it.\<close>

definition ngram_loop :: "u32 list \<Rightarrow> nat \<Rightarrow> (ngram \<times> nat) list" where
  "ngram_loop trace n = fold (\<lambda>i. count_ngram (ngram_at trace n i)) [0..<length trace - n + 1] []"

definition ExtractNgrams :: "feature_extractor \<Rightarrow> (ngram \<times> nat) list" where
  "ExtractNgrams fe =
    (if length (fe_syscallTrace fe) < fe_ngramSize fe then [] else ngram_loop (fe_syscallTrace fe) (fe_ngramSize fe))"

section \<open>Scores\<close>

record ngram_baseline =
  nb_Hist :: "(ngram \<times> real) list"
  nb_TotalNgrams :: nat
  nb_UniqueNgrams :: nat
  nb_Image :: string
  nb_Confidence :: real

definition logBase2 :: "real \<Rightarrow> real" where
  "logBase2 x = (if x \<le> 0 then 0 else log 2 x)"

definition calculateEntropy :: "(ngram \<times> nat) list \<Rightarrow> nat \<Rightarrow> real" where
  "calculateEntropy ngrams n =
    (if n = 0 then 0
     else fold (\<lambda>(g, count) entropy.
            if count = 0 then entropy
            else (let p = real count / real n in if p > 0 then entropy - p * logBase2 p else entropy)) ngrams 0)"

definition heuristicScore :: "(ngram \<times> nat) list \<Rightarrow> nat \<Rightarrow> real" where
  "heuristicScore currentNgrams totalCurrent =
    (let uniqueNgrams = length currentNgrams in
     if uniqueNgrams \<le> 3 \<and> totalCurrent > 50 then 6 / 10
     else if uniqueNgrams \<le> 10 \<and> totalCurrent > 100 then 3 / 10
     else if uniqueNgrams > 100 then 5 / 100
     else (let entropy = calculateEntropy currentNgrams totalCurrent in
           if entropy < 1 then 4 / 10 else if entropy < 2 then 2 / 10 else 1 / 10))"

text \<open>The two divergence loops of \<open>ScoreAnomaly\<close>: over the current n-grams (divergence and number of
  novel n-grams) and over the baseline's.\<close>

definition current_loop :: "(ngram \<times> real) list \<Rightarrow> nat \<Rightarrow> (ngram \<times> nat) list \<Rightarrow> real \<times> nat \<Rightarrow> real \<times> nat" where
  "current_loop hist totalCurrent =
    fold (\<lambda>(g, count) (totalDivergence, novelNgrams).
      (let observed = real count / real totalCurrent in
       case map_of hist g of
         Some baseFreq \<Rightarrow>
           (let d = observed - baseFreq; d = (if d < 0 then - d else d) in (totalDivergence + d, novelNgrams))
       | None \<Rightarrow> (totalDivergence + observed * 2, novelNgrams + 1)))"

definition missing_loop :: "(ngram \<times> nat) list \<Rightarrow> (ngram \<times> real) list \<Rightarrow> real \<Rightarrow> real" where
  "missing_loop currentNgrams =
    fold (\<lambda>(g, baseFreq) totalDivergence.
      if map_of currentNgrams g = None then totalDivergence + baseFreq * (5 / 10) else totalDivergence)"

definition ScoreAnomaly :: "ngram_baseline option \<Rightarrow> feature_extractor \<Rightarrow> real" where
  "ScoreAnomaly baseline fe =
    (if length (fe_syscallTrace fe) < fe_ngramSize fe then 0
     else
       (let currentNgrams = ngram_loop (fe_syscallTrace fe) (fe_ngramSize fe);
            totalCurrent = length (fe_syscallTrace fe) - fe_ngramSize fe + 1
        in case baseline of
             None \<Rightarrow> heuristicScore currentNgrams totalCurrent
           | Some b \<Rightarrow>
               if nb_Hist b = [] then heuristicScore currentNgrams totalCurrent
               else
                 (let (totalDivergence, novelNgrams) = current_loop (nb_Hist b) totalCurrent currentNgrams (0, 0);
                      totalDivergence = missing_loop currentNgrams (nb_Hist b) totalDivergence;
                      totalNgrams = length currentNgrams
                  in if totalNgrams = 0 then 0
                     else
                       (let score = totalDivergence / real totalNgrams;
                            novelRatio = real novelNgrams / real totalNgrams;
                            score = (if novelRatio > 3 / 10 then score + novelRatio * (2 / 10) else score);
                            score = (if score > 1 then 1 else score)
                        in if score < 0 then 0 else score))))"

definition BuildBaseline :: "string \<Rightarrow> feature_extractor \<Rightarrow> ngram_baseline" where
  "BuildBaseline img fe =
    (if length (fe_syscallTrace fe) < fe_ngramSize fe then
       \<lparr>nb_Hist = [], nb_TotalNgrams = 0, nb_UniqueNgrams = 0, nb_Image = img, nb_Confidence = 0\<rparr>
     else
       (let ngrams = ngram_loop (fe_syscallTrace fe) (fe_ngramSize fe);
            totalNgrams = length (fe_syscallTrace fe) - fe_ngramSize fe + 1;
            hist = map (\<lambda>(g, count). (g, real count / real totalNgrams)) ngrams;
            confidence = (if totalNgrams \<ge> 1000 then 1
                          else if totalNgrams \<ge> 100 then real totalNgrams / 1000 else 0)
        in \<lparr>nb_Hist = hist, nb_TotalNgrams = totalNgrams, nb_UniqueNgrams = length ngrams, nb_Image = img,
            nb_Confidence = confidence\<rparr>))"

section \<open>The trace\<close>

interpretation syscalls: bounded_log AddSyscall fe_syscallTrace fe_traceSize
  by unfold_locales (auto simp: AddSyscall_def last_n_def Let_def)

lemma trace_after:
  "fe_syscallTrace (fold AddSyscall nrs NewFeatureExtractor) = last_n 1000 nrs"
  using syscalls.view_fold[of NewFeatureExtractor nrs] by (simp add: NewFeatureExtractor_def)

section \<open>Histograms\<close>

lemma count_ngram_distinct: "distinct (map fst m) \<Longrightarrow> distinct (map fst (count_ngram g m))"
  by (simp add: count_ngram_def distinct_update)

lemma sum_update_new:
  "k \<notin> fst ` set m \<Longrightarrow> sum_list (map snd (AList.update k v m)) = sum_list (map snd m) + (v :: nat)"
  by (simp add: update_fresh)

lemma sum_update_old:
  "distinct (map fst m) \<Longrightarrow> map_of m k = Some c \<Longrightarrow> sum_list (map snd (AList.update k (v :: nat) m)) + c = sum_list (map snd m) + v"
  by (induction m) (auto simp: map_of_eq_None_iff split: if_splits)

lemma count_ngram_sum:
  "distinct (map fst m) \<Longrightarrow> sum_list (map snd (count_ngram g m)) = sum_list (map snd m) + 1"
proof (cases "map_of m g")
  case None
  then have "g \<notin> fst ` set m" by (simp add: map_of_eq_None_iff)
  then show ?thesis using None by (simp add: count_ngram_def sum_update_new)
next
  case (Some c)
  assume "distinct (map fst m)"
  from sum_update_old[OF this Some, of "c + 1"] Some show ?thesis by (simp add: count_ngram_def)
qed

lemma count_fold:
  "distinct (map fst m) \<Longrightarrow> distinct (map fst (fold (\<lambda>i. count_ngram (f i)) is m)) \<and>
     sum_list (map snd (fold (\<lambda>i. count_ngram (f i)) is m)) = sum_list (map snd m) + length is"
  by (induction "is" arbitrary: m) (simp_all add: count_ngram_distinct count_ngram_sum)

lemma ngram_loop_distinct: "distinct (map fst (ngram_loop trace n))"
  using count_fold[of "[]" "ngram_at trace n" "[0..<length trace - n + 1]"] by (simp add: ngram_loop_def)

lemma ngram_loop_sum: "sum_list (map snd (ngram_loop trace n)) = length trace - n + 1"
  using count_fold[of "[]" "ngram_at trace n" "[0..<length trace - n + 1]"] by (simp add: ngram_loop_def)

lemma ngram_loop_ne: "ngram_loop trace n \<noteq> []"
  using ngram_loop_sum[of trace n] by auto

section \<open>The loops as sums\<close>

definition divergence :: "(ngram \<times> real) list \<Rightarrow> nat \<Rightarrow> ngram \<times> nat \<Rightarrow> real" where
  "divergence hist n p =
    (case map_of hist (fst p) of
       Some b \<Rightarrow> \<bar>real (snd p) / real n - b\<bar>
     | None \<Rightarrow> real (snd p) / real n * 2)"

lemma current_loop_sum:
  "current_loop hist n cs (d, k) =
     (d + sum_list (map (divergence hist n) cs), k + length (filter (\<lambda>p. map_of hist (fst p) = None) cs))"
proof (induction cs arbitrary: d k)
  case Nil
  then show ?case by (simp add: current_loop_def)
next
  case (Cons p cs)
  have step: "current_loop hist n (p # cs) (d, k) = current_loop hist n cs
      (d + divergence hist n p, if map_of hist (fst p) = None then k + 1 else k)"
    by (cases p; cases "map_of hist (fst p)") (auto simp: current_loop_def divergence_def Let_def)
  show ?case unfolding step Cons.IH by (auto split: if_splits)
qed

lemma missing_loop_sum:
  "missing_loop cs hist d = d + sum_list (map (\<lambda>p. if map_of cs (fst p) = None then snd p / 2 else 0) hist)"
proof (induction hist arbitrary: d)
  case Nil
  then show ?case by (simp add: missing_loop_def)
next
  case (Cons p hist)
  have step: "missing_loop cs (p # hist) d = missing_loop cs hist (if map_of cs (fst p) = None then d + snd p / 2 else d)"
    by (cases p) (simp add: missing_loop_def)
  show ?case unfolding step Cons.IH by simp
qed

lemma sum_list_eq_0_iff_real: "\<forall>x\<in>set xs. f x = (0 :: real) \<Longrightarrow> sum_list (map f xs) = 0"
  by (induction xs) auto

lemma divergence_nonneg: "0 \<le> divergence hist n p"
  by (auto simp: divergence_def split: option.splits)

lemma score_range:
  "0 \<le> ScoreAnomaly b fe \<and> ScoreAnomaly b fe \<le> 1"
proof -
  have h: "0 \<le> heuristicScore cs n \<and> heuristicScore cs n \<le> 1" for cs n by (simp add: heuristicScore_def Let_def)
  show ?thesis using h by (auto simp: ScoreAnomaly_def Let_def split: option.splits prod.splits)
qed

lemma heuristic_le: "heuristicScore cs n \<le> 6 / 10"
  by (simp add: heuristicScore_def Let_def)

text \<open>A histogram that is a probability distribution, as \<open>BuildBaseline\<close> makes it.\<close>

definition distribution :: "(ngram \<times> real) list \<Rightarrow> bool" where
  "distribution hist \<longleftrightarrow> distinct (map fst hist) \<and> (\<forall>p\<in>set hist. 0 \<le> snd p) \<and> sum_list (map snd hist) = 1"

lemma sum_list_real_div: "sum_list (map (\<lambda>p. real (snd p) / r) cs) = real (sum_list (map snd cs)) / r"
  by (induction cs) (auto simp: add_divide_distrib)

lemma built_distribution:
  assumes "fe_ngramSize fe \<le> length (fe_syscallTrace fe)"
  shows "distribution (nb_Hist (BuildBaseline img fe)) \<and> nb_Hist (BuildBaseline img fe) \<noteq> []"
proof -
  let ?t = "fe_syscallTrace fe" and ?n = "fe_ngramSize fe"
  let ?tot = "length ?t - ?n + 1"
  have h: "nb_Hist (BuildBaseline img fe) = map (\<lambda>p. (fst p, real (snd p) / real ?tot)) (ngram_loop ?t ?n)"
    using assms by (simp add: BuildBaseline_def Let_def case_prod_beta)
  have "sum_list (map (\<lambda>p. real (snd p) / real ?tot) (ngram_loop ?t ?n)) = 1"
    unfolding sum_list_real_div ngram_loop_sum by simp
  then show ?thesis
    using ngram_loop_distinct[of ?t ?n] ngram_loop_ne[of ?t ?n]
    by (simp add: h distribution_def comp_def)
qed

lemma known_sum:
  fixes hist :: "(ngram \<times> real) list" and cs :: "(ngram \<times> nat) list"
  assumes "distinct (map fst cs)" "distinct (map fst hist)" "\<forall>p\<in>set hist. 0 \<le> snd p"
  shows "sum_list (map (\<lambda>p. case map_of hist (fst p) of Some b \<Rightarrow> b | None \<Rightarrow> 0) cs) +
    sum_list (map (\<lambda>p. if map_of cs (fst p) = None then snd p / 2 else 0) hist) \<le> sum_list (map snd hist)"
proof -
  let ?f = "\<lambda>g. case map_of hist g of Some b \<Rightarrow> b | None \<Rightarrow> 0"
  let ?C = "fst ` set cs" and ?H = "fst ` set hist"
  have c: "sum_list (map (\<lambda>p. ?f (fst p)) cs) = sum ?f ?C"
    using sum.distinct_set_conv_list[of "map fst cs" ?f] assms(1) by (simp add: comp_def)
  have val: "?f (fst p) = snd p" if "p \<in> set hist" for p
  proof -
    obtain g b where "p = (g, b)" by force
    with that assms(2) show ?thesis by simp
  qed
  have nonneg: "0 \<le> ?f g" for g using assms(3) by (auto split: option.splits dest!: map_of_SomeD)
  have h: "sum_list (map (\<lambda>p. if map_of cs (fst p) = None then snd p / 2 else 0) hist) =
      sum (\<lambda>g. if g \<in> ?C then 0 else ?f g / 2) ?H"
  proof -
    have "map (\<lambda>p. if map_of cs (fst p) = None then snd p / 2 else 0) hist =
        map ((\<lambda>g. if g \<in> ?C then 0 else ?f g / 2) \<circ> fst) hist"
      using val by (intro map_cong) (auto simp: map_of_eq_None_iff)
    from arg_cong[OF this, of sum_list] show ?thesis
      using sum.distinct_set_conv_list[OF assms(2), of "\<lambda>g. if g \<in> ?C then 0 else ?f g / 2"] by simp
  qed
  have s: "sum_list (map snd hist) = sum ?f ?H"
  proof -
    have "map snd hist = map (?f \<circ> fst) hist" using val by (intro map_cong) auto
    from arg_cong[OF this, of sum_list] show ?thesis using sum.distinct_set_conv_list[OF assms(2), of ?f] by simp
  qed
  have "sum ?f ?C = sum ?f (?C \<inter> ?H)"
  proof (rule sum.mono_neutral_right)
    show "\<forall>g\<in>?C - ?C \<inter> ?H. ?f g = 0" by (auto simp: map_of_eq_None_iff split: option.splits dest!: map_of_SomeD) force
  qed auto
  moreover have "sum (\<lambda>g. if g \<in> ?C then 0 else ?f g / 2) ?H = sum (\<lambda>g. ?f g / 2) (?H - ?C)"
    by (rule sum.mono_neutral_cong_right) auto
  moreover have "sum (\<lambda>g. ?f g / 2) (?H - ?C) \<le> sum ?f (?H - ?C)"
    using nonneg by (intro sum_mono) simp
  moreover have "sum ?f (?C \<inter> ?H) + sum ?f (?H - ?C) = sum ?f ?H"
    using sum.Int_Diff[of ?H ?f ?C] by (simp add: Int_commute)
  ultimately show ?thesis unfolding c h s by simp
qed

lemma total_divergence_le:
  assumes "distribution hist" "distinct (map fst cs)" "sum_list (map snd cs) = n" "0 < n"
  shows "sum_list (map (divergence hist n) cs) +
    sum_list (map (\<lambda>p. if map_of cs (fst p) = None then snd p / 2 else 0) hist) \<le> 3"
proof -
  let ?f = "\<lambda>p. case map_of hist (fst p) of Some b \<Rightarrow> b | None \<Rightarrow> 0"
  have "divergence hist n p \<le> 2 * (real (snd p) / real n) + ?f p" for p :: "ngram \<times> nat"
  proof (cases "map_of hist (fst p)")
    case (Some b)
    then have "0 \<le> b" using assms(1) by (force simp: distribution_def dest!: map_of_SomeD)
    moreover have "0 \<le> real (snd p) / real n" by simp
    ultimately have "\<bar>real (snd p) / real n - b\<bar> \<le> 2 * (real (snd p) / real n) + b" by linarith
    then show ?thesis using Some by (simp add: divergence_def)
  qed (simp add: divergence_def mult.commute)
  then have "sum_list (map (divergence hist n) cs) \<le> sum_list (map (\<lambda>p. 2 * (real (snd p) / real n) + ?f p) cs)"
    by (intro sum_list_mono)
  also have "\<dots> = 2 * (real (sum_list (map snd cs)) / real n) + sum_list (map ?f cs)"
    unfolding sum_list_addf sum_list_const_mult sum_list_real_div ..
  also have "\<dots> = 2 + sum_list (map ?f cs)" using assms(3,4) by simp
  finally show ?thesis using known_sum[of cs hist] assms(1,2) by (auto simp: distribution_def)
qed

text \<open>C40: Anomaly scores are in range, and an alert needs a very small repertoire. A score is between 0
  and 1. With no baseline it is at most 0.6, below the default alert threshold of 0.8; against a
  baseline that is a probability distribution a score of 0.8 or more means that the trace holds at
  most five distinct 5-grams, however far it is from the baseline, since the divergence (at most 3) is
  divided by the number of distinct n-grams.\<close>

theorem anomaly_alert_needs_few_ngrams:
  assumes "case b of None \<Rightarrow> True | Some bl \<Rightarrow> distribution (nb_Hist bl)"
  shows "0 \<le> ScoreAnomaly b fe \<and> ScoreAnomaly b fe \<le> 1 \<and>
    (8 / 10 \<le> ScoreAnomaly b fe \<longrightarrow> b \<noteq> None \<and> length (ExtractNgrams fe) \<le> 5)"
proof -
  have "b \<noteq> None \<and> length (ExtractNgrams fe) \<le> 5" if big: "8 / 10 \<le> ScoreAnomaly b fe"
  proof (cases "length (fe_syscallTrace fe) < fe_ngramSize fe")
    case True
    then show ?thesis using big by (simp add: ScoreAnomaly_def)
  next
    case False
    define cs where "cs = ngram_loop (fe_syscallTrace fe) (fe_ngramSize fe)"
    define n where "n = length (fe_syscallTrace fe) - fe_ngramSize fe + 1"
    have cs: "distinct (map fst cs)" "sum_list (map snd cs) = n" "cs \<noteq> []" "0 < n"
      by (simp_all add: cs_def n_def ngram_loop_distinct ngram_loop_sum ngram_loop_ne)
    have no: "\<not> 8 / 10 \<le> heuristicScore cs n" using heuristic_le[of cs n] by simp
    show ?thesis
    proof (cases b)
      case None
      then show ?thesis using big no False by (simp add: ScoreAnomaly_def cs_def n_def Let_def)
    next
      case (Some bl)
      then have d: "distribution (nb_Hist bl)" using assms by simp
      then have "nb_Hist bl \<noteq> []" by (auto simp: distribution_def)
      define T where "T = sum_list (map (divergence (nb_Hist bl) n) cs) +
        sum_list (map (\<lambda>p. if map_of cs (fst p) = None then snd p / 2 else 0) (nb_Hist bl))"
      have T: "T \<le> 3" unfolding T_def by (rule total_divergence_le[OF d cs(1,2,4)])
      define k where "k = length (filter (\<lambda>p. map_of (nb_Hist bl) (fst p) = None) cs)"
      define s where "s = (if real k / real (length cs) > 3 / 10 then T / real (length cs) + real k / real (length cs) * (2 / 10)
        else T / real (length cs))"
      have S: "ScoreAnomaly b fe = (if (if s > 1 then 1 else s) < 0 then 0 else if s > 1 then 1 else s)"
        using False Some \<open>nb_Hist bl \<noteq> []\<close> cs(3)
        unfolding ScoreAnomaly_def Let_def cs_def[symmetric] n_def[symmetric] current_loop_sum missing_loop_sum T_def s_def k_def
        by simp
      have "0 \<le> real k / real (length cs) * (2 / 10)" by simp
      then have "s \<le> T / real (length cs) + real k / real (length cs) * (2 / 10)" by (simp add: s_def)
      moreover have "ScoreAnomaly b fe \<le> s \<or> ScoreAnomaly b fe \<le> 0" unfolding S by simp
      ultimately have k: "k \<le> length cs"
        "ScoreAnomaly b fe \<le> (T / real (length cs) + real k / real (length cs) * (2 / 10)) \<or> ScoreAnomaly b fe \<le> 0"
        by (auto simp: k_def)
      have "real k / real (length cs) \<le> 1" using k(1) cs(3) by (simp add: divide_le_eq)
      then have "real k / real (length cs) * (2 / 10) \<le> 1 * (2 / 10)" by (rule mult_right_mono) simp
      with k(2) big have "6 / 10 \<le> T / real (length cs)" by linarith
      with T have "6 / 10 * real (length cs) \<le> 3" using cs(3) by (simp add: field_simps)
      then show ?thesis using Some False by (simp add: ExtractNgrams_def cs_def)
    qed
  qed
  then show ?thesis using score_range[of b fe] by blast
qed

text \<open>A trace is not anomalous against its own baseline. The score of a container right after its
  baseline was learned from the same trace is 0.\<close>

theorem own_baseline_scores_zero:
  assumes "fe_ngramSize fe \<le> length (fe_syscallTrace fe)"
  shows "ScoreAnomaly (Some (BuildBaseline img fe)) fe = 0"
proof -
  define cs where "cs = ngram_loop (fe_syscallTrace fe) (fe_ngramSize fe)"
  define n where "n = length (fe_syscallTrace fe) - fe_ngramSize fe + 1"
  define hist where "hist = map (\<lambda>p. (fst p, real (snd p) / real n)) cs"
  have h: "nb_Hist (BuildBaseline img fe) = hist"
    using assms by (simp add: BuildBaseline_def Let_def case_prod_beta hist_def cs_def n_def)
  have dis: "distinct (map fst cs)" by (simp add: cs_def ngram_loop_distinct)
  have m: "map_of hist g = map_option (\<lambda>c. real c / real n) (map_of cs g)" for g
    unfolding hist_def by (induction cs) auto
  have "divergence hist n p = 0" if "p \<in> set cs" for p
  proof -
    obtain g c where "p = (g, c)" by force
    with that dis show ?thesis by (simp add: divergence_def m)
  qed
  then have z1: "sum_list (map (divergence hist n) cs) = 0" by (simp add: sum_list_eq_0_iff_real)
  have "map_of cs (fst p) \<noteq> None" if "p \<in> set hist" for p
  proof -
    from that have "fst p \<in> fst ` set cs" by (force simp: hist_def)
    then show ?thesis by (simp add: map_of_eq_None_iff)
  qed
  then have z2: "sum_list (map (\<lambda>p. if map_of cs (fst p) = None then snd p / 2 else 0) hist) = 0"
    by (intro sum_list_eq_0_iff_real ballI) (metis (full_types))
  have z3: "filter (\<lambda>p. map_of hist (fst p) = None) cs = []"
    by (auto simp: filter_empty_conv m map_of_eq_None_iff)
  have "cs \<noteq> []" by (simp add: cs_def ngram_loop_ne)
  then have "hist \<noteq> []" by (simp add: hist_def)
  with \<open>cs \<noteq> []\<close> show ?thesis
    using assms z1 z2 z3 unfolding ScoreAnomaly_def h Let_def cs_def[symmetric] n_def[symmetric] option.case
      current_loop_sum missing_loop_sum by simp
qed

text \<open>A container that calls one number ten times, then another baseline.\<close>

definition demo_trace :: feature_extractor where
  "demo_trace = fold AddSyscall (replicate 10 7) NewFeatureExtractor"

lemma demo_trace_simps [simp]:
  "fe_syscallTrace demo_trace = replicate 10 7" "fe_ngramSize demo_trace = 5"
proof -
  show "fe_syscallTrace demo_trace = replicate 10 7"
    unfolding demo_trace_def trace_after by (simp add: last_n_def)
  have "fe_ngramSize (fold AddSyscall nrs fe) = fe_ngramSize fe" for nrs fe
    by (induction nrs arbitrary: fe) (simp_all add: AddSyscall_def Let_def)
  then show "fe_ngramSize demo_trace = 5" unfolding demo_trace_def by (simp only:) (simp add: NewFeatureExtractor_def)
qed

theorem own_baseline_scores_zero_witness:
  "ScoreAnomaly (Some (BuildBaseline ''nginx'' demo_trace)) demo_trace = 0"
  by (rule own_baseline_scores_zero) simp

theorem anomaly_alert_needs_few_ngrams_witness:
  "ScoreAnomaly (Some (BuildBaseline ''nginx'' demo_trace)) demo_trace \<le> 1 \<and> distribution (nb_Hist (BuildBaseline ''nginx'' demo_trace))"
proof -
  have d: "distribution (nb_Hist (BuildBaseline ''nginx'' demo_trace))"
    using built_distribution[of demo_trace "''nginx''"] by simp
  with anomaly_alert_needs_few_ngrams[of "Some (BuildBaseline ''nginx'' demo_trace)" demo_trace] show ?thesis by simp
qed

end
