(* ===== verification/Ai_Connector.thy ===== *)
theory Ai_Connector
  imports Machine Alert
begin

text \<open>
  The connector of \<open>pkg/ai/connector.go\<close> to the AI service, as the repository has it: a stub that counts
  requests, tracks its connection flag and answers neutrally. The remote call itself is not written yet
  in the code, and a context is not looked at.
\<close>

record ai_connector =
  ac_endpoint :: string
  ac_timeout :: duration
  ac_connected :: bool
  ac_lastConnect :: time
  ac_retryCount :: int
  ac_enabled :: bool
  ac_analysesRequested :: u64
  ac_analysesCompleted :: u64
  ac_profilesRequested :: u64
  ac_triagesRequested :: u64
  ac_suggestionsMade :: u64
  ac_lastInferenceMS :: int
  ac_running :: bool

definition NewAIConnector :: "string \<Rightarrow> duration \<Rightarrow> bool \<Rightarrow> ai_connector" where
  "NewAIConnector endpoint timeout enabled =
    \<lparr>ac_endpoint = endpoint, ac_timeout = (if timeout \<le> 0 then Seconds 5 else timeout), ac_connected = False,
     ac_lastConnect = 0, ac_retryCount = 0, ac_enabled = enabled, ac_analysesRequested = 0,
     ac_analysesCompleted = 0, ac_profilesRequested = 0, ac_triagesRequested = 0, ac_suggestionsMade = 0,
     ac_lastInferenceMS = 0, ac_running = False\<rparr>"

definition ac_SetEnabled :: "bool \<Rightarrow> ai_connector \<Rightarrow> ai_connector" where
  "ac_SetEnabled enabled a = a\<lparr>ac_enabled := enabled\<rparr>"

definition Connect :: "time \<Rightarrow> ai_connector \<Rightarrow> ai_connector" where
  "Connect now a =
    (if ac_connected a then a else a\<lparr>ac_connected := True, ac_lastConnect := now, ac_retryCount := 0\<rparr>)"

definition Disconnect :: "ai_connector \<Rightarrow> ai_connector" where
  "Disconnect a = (if \<not> ac_connected a then a else a\<lparr>ac_connected := False\<rparr>)"

definition available :: "ai_connector \<Rightarrow> bool" where
  "available a \<longleftrightarrow> ac_enabled a \<and> ac_connected a"

record analysis_result =
  an_AnomalyScore :: real
  an_Classification :: string
  an_Description :: string
  an_EnforceRecommended :: bool
  an_Confidence :: real
  an_ModelVersion :: string
  an_LatencyMS :: int

definition neutralResult :: "string \<Rightarrow> analysis_result" where
  "neutralResult reason =
    \<lparr>an_AnomalyScore = 0, an_Classification = ''unknown'',
     an_Description = ''AI analysis unavailable: '' @ reason, an_EnforceRecommended = False,
     an_Confidence = 0, an_ModelVersion = ''neutral'', an_LatencyMS = 0\<rparr>"

text \<open>\<open>AnalyzeEvent\<close>; \<open>start\<close> and \<open>fin\<close> are its clock readings in nanoseconds.\<close>

definition AnalyzeEvent :: "time \<Rightarrow> time \<Rightarrow> ai_connector \<Rightarrow> analysis_result \<times> ai_connector" where
  "AnalyzeEvent start fin a =
    (let a = a\<lparr>ac_analysesRequested := ac_analysesRequested a + 1\<rparr> in
     if \<not> ac_enabled a \<or> \<not> ac_connected a then (neutralResult ''ai_disabled'', a)
     else
       (let res = \<lparr>an_AnomalyScore = 0, an_Classification = ''unknown'',
                   an_Description = ''AI analysis stub invoked (gRPC not yet integrated)'',
                   an_EnforceRecommended = False, an_Confidence = 0, an_ModelVersion = ''stub-v0'',
                   an_LatencyMS = (fin - start) div 1000000\<rparr>
        in (res, a\<lparr>ac_analysesCompleted := ac_analysesCompleted a + 1, ac_lastInferenceMS := an_LatencyMS res\<rparr>)))"

record behavioral_profile =
  bp_Image :: string
  bp_BaselineEvents :: int
  bp_Confidence :: real
  bp_LastUpdated :: time

definition GetProfile :: "time \<Rightarrow> string \<Rightarrow> ai_connector \<Rightarrow> behavioral_profile \<times> ai_connector" where
  "GetProfile now img a =
    (let a = a\<lparr>ac_profilesRequested := ac_profilesRequested a + 1\<rparr> in
     if \<not> ac_enabled a \<or> \<not> ac_connected a
     then (\<lparr>bp_Image = img, bp_BaselineEvents = 0, bp_Confidence = 0, bp_LastUpdated = 0\<rparr>, a)
     else (\<lparr>bp_Image = img, bp_BaselineEvents = 0, bp_Confidence = 0, bp_LastUpdated = now\<rparr>, a))"

record triage_result =
  tr_FalsePositiveScore :: real
  tr_Priority :: string
  tr_Reasoning :: string
  tr_SuppressRecommended :: bool
  tr_Confidence :: real

definition TriageAlertGRPC :: "string \<Rightarrow> ai_connector \<Rightarrow> triage_result \<times> ai_connector" where
  "TriageAlertGRPC prio a =
    (let a = a\<lparr>ac_triagesRequested := ac_triagesRequested a + 1\<rparr> in
     if \<not> ac_enabled a \<or> \<not> ac_connected a
     then (\<lparr>tr_FalsePositiveScore = 1 / 2, tr_Priority = prio, tr_Reasoning = ''ai_disabled_or_disconnected'',
            tr_SuppressRecommended = False, tr_Confidence = 0\<rparr>, a)
     else (\<lparr>tr_FalsePositiveScore = 1 / 2, tr_Priority = prio,
            tr_Reasoning = ''AI triage stub (gRPC not yet integrated)'',
            tr_SuppressRecommended = False, tr_Confidence = 0\<rparr>, a))"

definition TriageAlert :: "string \<Rightarrow> string \<Rightarrow> string \<Rightarrow> string \<Rightarrow> ai_connector \<Rightarrow> (real \<times> string \<times> string) \<times> ai_connector" where
  "TriageAlert ruleID prio namespace container a =
    (let (res, a) = TriageAlertGRPC prio a
     in ((tr_FalsePositiveScore res, tr_Priority res, tr_Reasoning res), a))"

record rule_suggestion =
  rg_RuleYAML :: string
  rg_Reasoning :: string
  rg_BasedOnIncidents :: nat
  rg_Confidence :: real
  rg_Status :: string

text \<open>\<open>SuggestRule\<close> looks at the incident's rule and the number of its events.\<close>

definition SuggestRule :: "string \<Rightarrow> nat \<Rightarrow> ai_connector \<Rightarrow> (string + rule_suggestion) \<times> ai_connector" where
  "SuggestRule ruleID events a =
    (let a = a\<lparr>ac_suggestionsMade := ac_suggestionsMade a + 1\<rparr> in
     if \<not> ac_enabled a \<or> \<not> ac_connected a then (Inl ''AI service not available for rule suggestion'', a)
     else (Inr \<lparr>rg_RuleYAML = ''# AI-suggested rule placeholder (gRPC not yet integrated)'',
                rg_Reasoning = ''Based on '' @ show_nat events @ '' incidents related to '' @ ruleID,
                rg_BasedOnIncidents = events, rg_Confidence = 0, rg_Status = ''draft''\<rparr>, a))"

definition ac_Start :: "time \<Rightarrow> ai_connector \<Rightarrow> ai_connector" where
  "ac_Start now a =
    (if ac_running a then a
     else (let a = a\<lparr>ac_running := True\<rparr> in if ac_enabled a then Connect now a else a))"

definition ac_Stop :: "ai_connector \<Rightarrow> ai_connector" where
  "ac_Stop a = (if \<not> ac_running a then a else Disconnect (a\<lparr>ac_running := False\<rparr>))"

section \<open>The advisor interface\<close>

text \<open>What triage, the pipeline's \<open>AIAlertTrier\<close>, is used as: a state with a score, a priority and a
  reason per request. An advisor is neutral when it answers 1/2 and the priority it was given.\<close>

locale triage_advisor =
  fixes triage :: "string \<Rightarrow> string \<Rightarrow> string \<Rightarrow> string \<Rightarrow> 'a \<Rightarrow> (real \<times> string \<times> string) \<times> 'a"
    and requests :: "'a \<Rightarrow> u64"
  assumes score_range: "0 \<le> fst (fst (triage i p n c a)) \<and> fst (fst (triage i p n c a)) \<le> 1"
    and neutral: "fst (fst (triage i p n c a)) = 1 / 2 \<and> fst (snd (fst (triage i p n c a))) = p"
    and counted: "requests (snd (triage i p n c a)) = requests a + 1"
begin

lemma never_suppresses: "1 / 2 < s \<Longrightarrow> \<not> s \<le> fst (fst (triage i p n c a))"
  using neutral[of i p n c a] by simp

end

interpretation ai_stub: triage_advisor TriageAlert ac_triagesRequested
  by unfold_locales (simp_all add: TriageAlert_def TriageAlertGRPC_def Let_def)

inductive ai_step :: "ai_connector \<Rightarrow> ai_connector \<Rightarrow> bool" where
  "ai_step a (ac_SetEnabled b a)"
| "ai_step a (ac_Start now a)"
| "ai_step a (ac_Stop a)"
| "AnalyzeEvent s f a = (r, a') \<Longrightarrow> ai_step a a'"
| "GetProfile now img a = (r, a') \<Longrightarrow> ai_step a a'"
| "TriageAlert i p n c a = (r, a') \<Longrightarrow> ai_step a a'"
| "SuggestRule i k a = (r, a') \<Longrightarrow> ai_step a a'"

text \<open>A connection exists only while the connector runs.\<close>

definition ai_inv :: "ai_connector \<Rightarrow> bool" where
  "ai_inv a \<longleftrightarrow> 0 < ac_timeout a \<and> (ac_connected a \<longrightarrow> ac_running a)"

interpretation ai_machine: invariant_system "\<lambda>a. \<exists>e t b. a = NewAIConnector e t b" ai_step ai_inv
proof
  fix a a'
  show "\<exists>e t b. a = NewAIConnector e t b \<Longrightarrow> ai_inv a" by (auto simp: ai_inv_def NewAIConnector_def)
  show "ai_inv a \<Longrightarrow> ai_step a a' \<Longrightarrow> ai_inv a'"
    by (erule ai_step.cases) (auto simp: ai_inv_def ac_SetEnabled_def ac_Start_def ac_Stop_def Connect_def Disconnect_def
        AnalyzeEvent_def GetProfile_def TriageAlert_def TriageAlertGRPC_def SuggestRule_def Let_def split: if_splits)
qed

lemma late_enable_stays_disconnected:
  "available (ac_SetEnabled True (ac_Start now (NewAIConnector e t False))) = False"
  by (simp add: available_def ac_SetEnabled_def ac_Start_def NewAIConnector_def)

end
