(* ===== verification/Cgroup_Files.thy ===== *)
theory Cgroup_Files
  imports Prelude
begin

text \<open>
  What the enrichment reads out of \<open>/proc\<close>: container identifiers, cgroup identifiers and process
  identifiers (\<open>container.go\<close>, \<open>cri.go\<close>). \<open>range\<close> over a string visits runes; the texts are taken as ASCII,
  where a rune is a byte.
\<close>

section \<open>Lines of a cgroup file\<close>

text \<open>\<open>strings.SplitN(line, ":", 3)\<close> and its third part.\<close>

definition third_part :: "string \<Rightarrow> string option" where
  "third_part line =
    (case split_first '':'' line of
       None \<Rightarrow> None
     | Some (a, rest) \<Rightarrow> map_option snd (split_first '':'' rest))"

definition is_hex :: "char \<Rightarrow> bool" where
  "is_hex c \<longleftrightarrow> (let n = (of_char c :: nat) in 48 \<le> n \<and> n \<le> 57 \<or> 97 \<le> n \<and> n \<le> 102 \<or> 65 \<le> n \<and> n \<le> 70)"

definition isHexString :: "string \<Rightarrow> bool" where
  "isHexString s \<longleftrightarrow> list_all is_hex s \<and> 0 < length s"

definition trim_prefix :: "string \<Rightarrow> string \<Rightarrow> string" where
  "trim_prefix s p = (if has_prefix s p then drop (length p) s else s)"

text \<open>The inner loop, over the segments from the last to the first.\<close>

fun segment_loop :: "string list \<Rightarrow> string option" where
  "segment_loop [] = None"
| "segment_loop (seg # segs) =
     (if seg = [] then segment_loop segs
      else if 12 \<le> length seg \<and> isHexString seg then
        (if \<not> has_prefix seg ''pod'' \<and> \<not> has_prefix seg ''crio-'' then Some seg
         else if has_prefix seg ''crio-'' then Some (trim_prefix seg ''crio-'')
         else Some seg)
      else segment_loop segs)"

fun container_loop :: "string list \<Rightarrow> string" where
  "container_loop [] = []"
| "container_loop (line0 # lines) =
     (let line = trim_space line0 in
      if line = [] then container_loop lines
      else (case third_part line of
              None \<Rightarrow> container_loop lines
            | Some path \<Rightarrow>
                (case segment_loop (rev (split_on (CHR ''/'') path)) of
                   Some cid \<Rightarrow> cid
                 | None \<Rightarrow> container_loop lines)))"

definition ExtractContainerID :: "string \<Rightarrow> string" where
  "ExtractContainerID cgroupData = container_loop (split_on (CHR 0x0A) cgroupData)"

section \<open>Process and cgroup identifiers\<close>

fun pid_loop :: "string \<Rightarrow> u32 \<Rightarrow> u32 option" where
  "pid_loop [] pid = Some pid"
| "pid_loop (c # cs) pid =
     (let n = (of_char c :: nat) in if n < 48 \<or> 57 < n then None else pid_loop cs (pid * 10 + of_nat (n - 48)))"

text \<open>An error is \<open>None\<close>.\<close>

definition parsePID :: "string \<Rightarrow> u32 option" where
  "parsePID s = (case pid_loop s 0 of None \<Rightarrow> None | Some pid \<Rightarrow> if pid = 0 then None else Some pid)"

definition hashCgroupPath :: "string \<Rightarrow> u64" where
  "hashCgroupPath path = fold (\<lambda>c h. (h XOR of_char c) * 1099511628211) path 14695981039346656037"

fun cgroup_id_loop :: "string list \<Rightarrow> u64" where
  "cgroup_id_loop [] = 0"
| "cgroup_id_loop (line0 # lines) =
     (let line = trim_space line0 in
      if line = [] then cgroup_id_loop lines
      else if has_prefix line ''0::'' then
        (let path = drop 3 line in
         if path \<noteq> [] \<and> path \<noteq> ''/'' then hashCgroupPath path else cgroup_id_loop lines)
      else cgroup_id_loop lines)"

definition extractCgroupID :: "string \<Rightarrow> u64" where
  "extractCgroupID cgroupData = cgroup_id_loop (split_on (CHR 0x0A) cgroupData)"

section \<open>Container identifiers\<close>

lemma hex_no_prefix:
  assumes "isHexString s" "\<not> isHexString p" "p \<noteq> []"
  shows "\<not> has_prefix s p"
  using assms by (auto simp: isHexString_def has_prefix_iff)

lemma not_hex_markers: "\<not> isHexString ''pod''" "\<not> isHexString ''crio-''"
  by (simp_all add: isHexString_def is_hex_def Let_def)

text \<open>The branches for pods and for CRI-O prefixes are dead: the prefixes are not hexadecimal.\<close>

lemma segment_loop_find: "segment_loop segs = find (\<lambda>seg. 12 \<le> length seg \<and> isHexString seg) segs"
proof (induction segs)
  case (Cons seg segs)
  have "isHexString seg \<Longrightarrow> \<not> has_prefix seg ''pod'' \<and> \<not> has_prefix seg ''crio-''"
    using hex_no_prefix not_hex_markers by blast
  then show ?case using Cons by auto
qed simp

lemma find_Some_mem: "find P xs = Some x \<Longrightarrow> x \<in> set xs \<and> P x"
  by (induction xs) (auto split: if_splits)

lemma container_loop_spec:
  "container_loop lines = [] \<or>
   (\<exists>line\<in>set lines. \<exists>path. third_part (trim_space line) = Some path \<and> container_loop lines \<in> set (split_on (CHR ''/'') path) \<and>
      12 \<le> length (container_loop lines) \<and> isHexString (container_loop lines))"
proof (induction lines)
  case (Cons l lines)
  show ?case
  proof (cases "\<exists>path cid. third_part (trim_space l) = Some path \<and> trim_space l \<noteq> [] \<and> segment_loop (rev (split_on (CHR ''/'') path)) = Some cid")
    case True
    then obtain path cid where p: "third_part (trim_space l) = Some path" "trim_space l \<noteq> []"
      "segment_loop (rev (split_on (CHR ''/'') path)) = Some cid" by blast
    then have "cid \<in> set (split_on (CHR ''/'') path)" "12 \<le> length cid" "isHexString cid"
      using find_Some_mem[of "\<lambda>seg. 12 \<le> length seg \<and> isHexString seg" "rev (split_on (CHR ''/'') path)" cid]
      by (auto simp: segment_loop_find)
    then show ?thesis using p by (auto simp: Let_def)
  next
    case False
    then have "container_loop (l # lines) = container_loop lines" by (auto simp: Let_def split: option.splits)
    then show ?thesis using Cons by auto
  qed
qed simp

text \<open>A resolved container identifier is a hexadecimal path segment. \<open>ExtractContainerID\<close> returns the empty
  string or a segment, of at least 12 hexadecimal digits, of the path of some line. So a CRI-O segment
  \<open>crio-<id>\<close> and a segment \<open>cri-containerd-<id>.scope\<close> of the systemd driver, which the comments list,
  are never resolved.\<close>

theorem container_id_sound:
  "ExtractContainerID dat = [] \<or>
   (\<exists>line\<in>set (split_on (CHR 0x0A) dat). \<exists>path. third_part (trim_space line) = Some path \<and>
      ExtractContainerID dat \<in> set (split_on (CHR ''/'') path) \<and> 12 \<le> length (ExtractContainerID dat) \<and>
      isHexString (ExtractContainerID dat))"
  unfolding ExtractContainerID_def by (rule container_loop_spec)

lemma crio_unresolved: "ExtractContainerID ''0::/crio-0123456789abcdef'' = []"
  by code_simp

lemma docker_resolved: "ExtractContainerID ''0::/docker/0123456789abcdef'' = ''0123456789abcdef''"
  by code_simp

section \<open>Process identifiers\<close>

lemma pid_loop_append: "pid_loop (s @ t) p = (case pid_loop s p of None \<Rightarrow> None | Some q \<Rightarrow> pid_loop t q)"
  by (induction s arbitrary: p) (auto simp: Let_def)

lemma pid_loop_digit: "d < 10 \<Longrightarrow> pid_loop [digit_char d] p = Some (p * 10 + of_nat d)"
  by (simp add: digit_char_def Let_def)

lemma pid_loop_show: "pid_loop (show_nat n) 0 = Some (of_nat n)"
proof (induction n rule: show_nat.induct)
  case (1 n)
  show ?case
  proof (cases "n < 10")
    case True
    then show ?thesis using pid_loop_digit[of n 0] by (subst show_nat.simps) simp
  next
    case False
    have "pid_loop (show_nat n) 0 = pid_loop (show_nat (n div 10) @ [digit_char (n mod 10)]) 0"
      using False by (subst show_nat.simps) simp
    also have "\<dots> = Some (of_nat (n div 10) * 10 + of_nat (n mod 10))"
      unfolding pid_loop_append "1.IH"[OF False] by (simp add: pid_loop_digit del: pid_loop.simps)
    also have "of_nat (n div 10) * 10 + of_nat (n mod 10) = (of_nat (n div 10 * 10 + n mod 10) :: u32)"
      by (simp only: of_nat_add of_nat_mult of_nat_numeral)
    finally show ?thesis by (simp only: div_mult_mod_eq)
  qed
qed

lemma parsePID_show: "parsePID (show_nat n) = (if of_nat n = (0 :: u32) then None else Some (of_nat n))"
  by (simp add: parsePID_def pid_loop_show)

text \<open>Process identifiers survive a trip through text, and wrap. \<open>parsePID\<close> reads the decimal notation of
  any natural number modulo \<open>2 ^ 32\<close>, and fails exactly when that is 0; in particular every nonzero
  32-bit process identifier is read back.\<close>

theorem parse_pid_roundtrip:
  "parsePID (show_nat n) = (if of_nat n = (0 :: u32) then None else Some (of_nat n)) \<and>
   parsePID (show_word (pid :: u32)) = (if pid = 0 then None else Some pid)"
  by (simp add: parsePID_show show_word_def)

end
