(* ===== verification/Lru.thy ===== *)
theory Lru
  imports Prelude
begin

text \<open>
  The doubly linked recency list that the two caches of \<open>pkg/enrichment/container.go\<close> keep beside their
  maps (the code has it once per cache, with the same bodies). An entry is only reachable through the map
  and through its neighbours, so a pointer to an entry is the key it is stored under; following a link
  is a lookup. The refinement: under the representation relation \<open>links\<close> the four pointer routines are
  operations on a plain list of keys, most recent first.
\<close>

section \<open>The code\<close>

record ('k, 'v) node =
  nd_val :: 'v
  nd_prev :: "'k option"
  nd_next :: "'k option"

record ('k, 'v) lru =
  lr_entries :: "('k \<times> ('k, 'v) node) list"
  lr_head :: "'k option"
  lr_tail :: "'k option"

definition empty_lru :: "('k, 'v) lru" where
  "empty_lru = \<lparr>lr_entries = [], lr_head = None, lr_tail = None\<rparr>"

definition prev_of :: "('k, 'v) lru \<Rightarrow> 'k \<Rightarrow> 'k option" where
  "prev_of s k = (case map_of (lr_entries s) k of None \<Rightarrow> None | Some e \<Rightarrow> nd_prev e)"

definition next_of :: "('k, 'v) lru \<Rightarrow> 'k \<Rightarrow> 'k option" where
  "next_of s k = (case map_of (lr_entries s) k of None \<Rightarrow> None | Some e \<Rightarrow> nd_next e)"

definition on_entry :: "(('k, 'v) node \<Rightarrow> ('k, 'v) node) \<Rightarrow> 'k \<Rightarrow> ('k, 'v) lru \<Rightarrow> ('k, 'v) lru" where
  "on_entry f k s = s\<lparr>lr_entries := AList.map_entry k f (lr_entries s)\<rparr>"

abbreviation set_prev :: "'k option \<Rightarrow> 'k \<Rightarrow> ('k, 'v) lru \<Rightarrow> ('k, 'v) lru" where
  "set_prev p \<equiv> on_entry (\<lambda>e. e\<lparr>nd_prev := p\<rparr>)"

abbreviation set_next :: "'k option \<Rightarrow> 'k \<Rightarrow> ('k, 'v) lru \<Rightarrow> ('k, 'v) lru" where
  "set_next n \<equiv> on_entry (\<lambda>e. e\<lparr>nd_next := n\<rparr>)"

definition addToFront :: "'k \<Rightarrow> ('k, 'v) lru \<Rightarrow> ('k, 'v) lru" where
  "addToFront entry c =
    (let c = set_prev None entry c;
         c = set_next (lr_head c) entry c;
         c = (case lr_head c of None \<Rightarrow> c | Some h \<Rightarrow> set_prev (Some entry) h c);
         c = c\<lparr>lr_head := Some entry\<rparr>
     in if lr_tail c = None then c\<lparr>lr_tail := Some entry\<rparr> else c)"

definition removeEntry :: "'k \<Rightarrow> ('k, 'v) lru \<Rightarrow> ('k, 'v) lru" where
  "removeEntry entry c =
    (let c = (case prev_of c entry of
                Some p \<Rightarrow> set_next (next_of c entry) p c
              | None \<Rightarrow> c\<lparr>lr_head := next_of c entry\<rparr>);
         c = (case next_of c entry of
                Some n \<Rightarrow> set_prev (prev_of c entry) n c
              | None \<Rightarrow> c\<lparr>lr_tail := prev_of c entry\<rparr>);
         c = set_prev None entry c
     in set_next None entry c)"

definition moveToFront :: "'k \<Rightarrow> ('k, 'v) lru \<Rightarrow> ('k, 'v) lru" where
  "moveToFront entry c = (if lr_head c = Some entry then c else addToFront entry (removeEntry entry c))"

definition delete_key :: "'k \<Rightarrow> ('k, 'v) lru \<Rightarrow> ('k, 'v) lru" where
  "delete_key k c = c\<lparr>lr_entries := AList.delete k (lr_entries c)\<rparr>"

definition evictLRU :: "('k, 'v) lru \<Rightarrow> ('k, 'v) lru" where
  "evictLRU c =
    (case lr_tail c of
       None \<Rightarrow> c
     | Some victim \<Rightarrow> delete_key victim (removeEntry victim c))"

text \<open>A new entry: stored in the map and linked in.\<close>

definition insert_front :: "'k \<Rightarrow> 'v \<Rightarrow> ('k, 'v) lru \<Rightarrow> ('k, 'v) lru" where
  "insert_front k v c =
    addToFront k (c\<lparr>lr_entries := AList.update k \<lparr>nd_val = v, nd_prev = None, nd_next = None\<rparr> (lr_entries c)\<rparr>)"

text \<open>An entry taken out of list and map.\<close>

definition unlink :: "'k \<Rightarrow> ('k, 'v) lru \<Rightarrow> ('k, 'v) lru" where
  "unlink k c = delete_key k (removeEntry k c)"

text \<open>The loop that removes the entries with a property, over the map in some order.\<close>

fun drop_loop :: "('v \<Rightarrow> bool) \<Rightarrow> ('k \<times> ('k, 'v) node) list \<Rightarrow> nat \<Rightarrow> ('k, 'v) lru \<Rightarrow> nat \<times> ('k, 'v) lru" where
  "drop_loop P [] pruned c = (pruned, c)"
| "drop_loop P ((k, e) # es) pruned c =
     (if P (nd_val e) then drop_loop P es (pruned + 1) (unlink k c) else drop_loop P es pruned c)"

section \<open>Chains\<close>

definition first :: "'k list \<Rightarrow> 'k option \<Rightarrow> 'k option" where
  "first ks q = (case ks of [] \<Rightarrow> q | k # _ \<Rightarrow> Some k)"

definition final :: "'k list \<Rightarrow> 'k option \<Rightarrow> 'k option" where
  "final ks p = (if ks = [] then p else Some (last ks))"

lemma first_simps [simp]: "first [] q = q" "first (k # ks) q = Some k" "first (xs @ ys) q = first xs (first ys q)"
  by (simp_all add: first_def split: list.split)

lemma final_simps [simp]: "final [] p = p" "final (k # ks) p = final ks (Some k)" "final (xs @ ys) p = final ys (final xs p)"
  by (simp_all add: final_def)

lemma final_Some [simp]: "\<exists>y. final bs (Some h) = Some y"
  by (simp add: final_def)

text \<open>The keys \<open>ks\<close> are chained both ways, between the predecessor \<open>p\<close> and the successor \<open>q\<close>.\<close>

fun chain :: "('k \<Rightarrow> 'k option) \<Rightarrow> ('k \<Rightarrow> 'k option) \<Rightarrow> 'k option \<Rightarrow> 'k list \<Rightarrow> 'k option \<Rightarrow> bool" where
  "chain nx pv p [] q = True"
| "chain nx pv p (k # ks) q \<longleftrightarrow> pv k = p \<and> nx k = first ks q \<and> chain nx pv (Some k) ks q"

lemma chain_append [simp]: "chain nx pv p (as @ bs) q \<longleftrightarrow> chain nx pv p as (first bs q) \<and> chain nx pv (final as p) bs q"
  by (induction as arbitrary: p) auto

lemma chain_frame:
  "chain nx pv p ks q \<Longrightarrow> \<forall>k\<in>set ks. nx' k = nx k \<and> pv' k = pv k \<Longrightarrow> chain nx' pv' p ks q"
  by (induction ks arbitrary: p) auto

lemma chain_new_next:
  "chain nx pv p ks q \<Longrightarrow> distinct ks \<Longrightarrow> ks \<noteq> [] \<Longrightarrow> chain (nx(last ks := q')) pv p ks q'"
proof (induction ks arbitrary: p)
  case (Cons k ks)
  show ?case
  proof (cases ks)
    case Nil
    then show ?thesis using Cons.prems by simp
  next
    case (Cons x xs)
    have "k \<noteq> last ks" using Cons.prems(2) Cons by auto
    then show ?thesis using Cons.IH[of "Some k"] Cons.prems Cons by simp
  qed
qed simp

lemma chain_new_prev:
  "chain nx pv p (k # bs) q \<Longrightarrow> k \<notin> set bs \<Longrightarrow> chain nx (pv(k := p')) p' (k # bs) q"
  using chain_frame[of nx pv "Some k" bs q nx "pv(k := p')"] by fastforce

section \<open>The representation relation\<close>

definition keys :: "('k, 'v) lru \<Rightarrow> 'k set" where
  "keys s = fst ` set (lr_entries s)"

definition links :: "('k, 'v) lru \<Rightarrow> 'k list \<Rightarrow> bool" where
  "links s ks \<longleftrightarrow> distinct ks \<and> set ks \<subseteq> keys s \<and> lr_head s = first ks None \<and> lr_tail s = final ks None \<and>
     chain (next_of s) (prev_of s) None ks None"

definition lru_rep :: "('k, 'v) lru \<Rightarrow> 'k list \<Rightarrow> bool" where
  "lru_rep s ks \<longleftrightarrow> links s ks \<and> set ks = keys s \<and> distinct (map fst (lr_entries s))"

lemma keys_on_entry [simp]: "keys (on_entry f k s) = keys s"
  by (simp add: keys_def on_entry_def AList.dom_map_entry)

lemma distinct_on_entry [simp]: "distinct (map fst (lr_entries (on_entry f k s))) = distinct (map fst (lr_entries s))"
proof -
  have "map fst (AList.map_entry k f al) = map fst al" for al :: "('a \<times> ('a, 'b) node) list"
    by (induction al) auto
  then show ?thesis by (simp add: on_entry_def)
qed

lemma on_entry_ends [simp]: "lr_head (on_entry f k s) = lr_head s" "lr_tail (on_entry f k s) = lr_tail s"
  by (simp_all add: on_entry_def)

lemma lookup_on_entry: "map_of (lr_entries (on_entry f k s)) x = (if x = k then map_option f (map_of (lr_entries s) x) else map_of (lr_entries s) x)"
  by (simp add: on_entry_def AList.map_of_map_entry split: option.split)

lemma key_entry: "k \<in> keys s \<Longrightarrow> \<exists>e. map_of (lr_entries s) k = Some e"
  by (metis keys_def map_of_eq_None_iff not_None_eq)

lemma next_on_entry:
  "k \<in> keys s \<Longrightarrow> next_of (set_next n k s) = (next_of s)(k := n)"
  "next_of (set_prev p k s) = next_of s"
  by (rule ext, auto simp: next_of_def lookup_on_entry dest!: key_entry split: option.splits)+

lemma prev_on_entry:
  "k \<in> keys s \<Longrightarrow> prev_of (set_prev p k s) = (prev_of s)(k := p)"
  "prev_of (set_next n k s) = prev_of s"
  by (rule ext, auto simp: prev_of_def lookup_on_entry dest!: key_entry split: option.splits)+

lemma ends_next_prev [simp]:
  "next_of (s\<lparr>lr_head := h\<rparr>) = next_of s" "prev_of (s\<lparr>lr_head := h\<rparr>) = prev_of s"
  "next_of (s\<lparr>lr_tail := h\<rparr>) = next_of s" "prev_of (s\<lparr>lr_tail := h\<rparr>) = prev_of s"
  "keys (s\<lparr>lr_head := h\<rparr>) = keys s" "keys (s\<lparr>lr_tail := h\<rparr>) = keys s"
  by (auto simp: next_of_def prev_of_def keys_def)

lemmas link_simps = next_on_entry prev_on_entry

section \<open>The routines on the list of keys\<close>

lemma links_keys: "links s ks \<Longrightarrow> k \<in> set ks \<Longrightarrow> k \<in> keys s"
  by (auto simp: links_def)

lemma addToFront_links:
  assumes "links s ks" "k \<in> keys s" "k \<notin> set ks"
  shows "links (addToFront k s) (k # ks)"
proof (cases ks)
  case Nil
  then show ?thesis using assms by (simp add: addToFront_def Let_def links_def link_simps)
next
  case (Cons h bs)
  have h: "h \<in> keys s" "h \<noteq> k" "h \<notin> set bs" using assms Cons by (auto simp: links_def)
  have c: "chain (next_of s) (prev_of s) None (h # bs) None" using assms Cons by (simp add: links_def)
  let ?nx = "(next_of s)(k := Some h)" and ?pv = "((prev_of s)(k := None))(h := Some k)"
  have "chain ?nx ((prev_of s)(k := None)) None (h # bs) None"
    by (rule chain_frame[OF c]) (use assms Cons in auto)
  from chain_new_prev[OF this h(3), of "Some k"] have "chain ?nx ?pv (Some k) (h # bs) None" .
  then show ?thesis using assms Cons h by (simp add: addToFront_def Let_def links_def link_simps)
qed

lemma addToFront_keys [simp]: "keys (addToFront k s) = keys s"
  by (simp add: addToFront_def Let_def split: option.split)

lemma removeEntry_keys [simp]: "keys (removeEntry k s) = keys s"
  by (simp add: removeEntry_def Let_def split: option.split)

text \<open>The two halves of the removal: bypassing the entry from the left and from the right.\<close>

definition bypass_left :: "'k \<Rightarrow> ('k, 'v) lru \<Rightarrow> ('k, 'v) lru" where
  "bypass_left k c = (case prev_of c k of
                Some p \<Rightarrow> set_next (next_of c k) p c
              | None \<Rightarrow> c\<lparr>lr_head := next_of c k\<rparr>)"

definition bypass_right :: "'k \<Rightarrow> ('k, 'v) lru \<Rightarrow> ('k, 'v) lru" where
  "bypass_right k c = (case next_of c k of
                Some n \<Rightarrow> set_prev (prev_of c k) n c
              | None \<Rightarrow> c\<lparr>lr_tail := prev_of c k\<rparr>)"

lemma removeEntry_halves: "removeEntry k c = set_next None k (set_prev None k (bypass_right k (bypass_left k c)))"
  by (simp add: removeEntry_def bypass_left_def bypass_right_def Let_def)

lemma bypass_left_links:
  assumes c: "chain (next_of s) (prev_of s) None (as @ k # bs) None" and d: "distinct (as @ k # bs)" "set (as @ k # bs) \<subseteq> keys s"
    and h: "lr_head s = first (as @ k # bs) None"
  defines "t \<equiv> bypass_left k s"
  shows "lr_head t = first (as @ bs) None \<and> lr_tail t = lr_tail s \<and> prev_of t = prev_of s \<and> next_of t k = first bs None \<and>
    chain (next_of t) (prev_of t) None as (first bs None) \<and> chain (next_of t) (prev_of t) (Some k) bs None"
proof -
  from c have k: "prev_of s k = final as None" "next_of s k = first bs None"
    and as: "chain (next_of s) (prev_of s) None as (Some k)" and bs: "chain (next_of s) (prev_of s) (Some k) bs None" by simp_all
  show ?thesis
  proof (cases "as = []")
    case True
    then show ?thesis using k bs by (simp add: t_def bypass_left_def)
  next
    case False
    then have l: "last as \<in> keys s" "last as \<in> set as" using d(2) last_in_set[OF False] by auto
    have t: "t = set_next (first bs None) (last as) s" using k False by (simp add: t_def bypass_left_def final_def)
    have "chain ((next_of s)(last as := first bs None)) (prev_of s) None as (first bs None)"
      by (rule chain_new_next[OF as]) (use d False in auto)
    moreover have "chain ((next_of s)(last as := first bs None)) (prev_of s) (Some k) bs None"
      by (rule chain_frame[OF bs]) (use d l in auto)
    moreover have "first as q = first as q'" for q q' using False by (cases as) auto
    moreover have "k \<noteq> last as" using d l by auto
    ultimately show ?thesis using l k h by (simp add: t link_simps)
  qed
qed

lemma bypass_keys [simp]: "keys (bypass_left k s) = keys s" "keys (bypass_right k s) = keys s"
  by (simp_all add: bypass_left_def bypass_right_def split: option.split)

lemma removeEntry_links:
  assumes l: "links s (as @ k # bs)"
  shows "links (removeEntry k s) (as @ bs)"
proof -
  have d: "distinct (as @ k # bs)" "set (as @ k # bs) \<subseteq> keys s" using l unfolding links_def by blast+
  define t where "t = bypass_left k s"
  have kt: "keys t = keys s" by (simp add: t_def)
  have t: "lr_head t = first (as @ bs) None" "lr_tail t = final (as @ k # bs) None" "prev_of t k = final as None"
      "next_of t k = first bs None" "chain (next_of t) (prev_of t) None as (first bs None)" "chain (next_of t) (prev_of t) (Some k) bs None"
    using bypass_left_links[of s as k bs] l d unfolding links_def t_def by auto
  define u where "u = bypass_right k t"
  have u: "lr_head u = first (as @ bs) None \<and> lr_tail u = final (as @ bs) None \<and> chain (next_of u) (prev_of u) None (as @ bs) None"
  proof (cases bs)
    case Nil
    then show ?thesis using t by (simp add: u_def bypass_right_def)
  next
    case (Cons b cs)
    have "u = set_prev (final as None) b t" using t Cons by (simp add: u_def bypass_right_def)
    moreover have "b \<in> keys t" "b \<notin> set as" "b \<notin> set cs" using d Cons kt by auto
    moreover have "chain (next_of t) ((prev_of t)(b := final as None)) (final as None) (b # cs) None"
      using chain_new_prev[of "next_of t" "prev_of t" "Some k" b cs None "final as None"] t Cons d by simp
    moreover have "chain (next_of t) ((prev_of t)(b := final as None)) None as (first bs None)"
      by (rule chain_frame[OF t(5)]) (use d Cons in auto)
    ultimately show ?thesis using t Cons by (simp add: link_simps)
  qed
  have ku: "k \<in> keys u" using d by (simp add: u_def t_def)
  have "chain ((next_of u)(k := None)) ((prev_of u)(k := None)) None (as @ bs) None"
    by (rule chain_frame[of "next_of u" "prev_of u"]) (use u d in auto)
  then show ?thesis
    using u d ku unfolding links_def removeEntry_halves t_def[symmetric] u_def[symmetric]
    by (simp add: link_simps) (simp add: u_def t_def)
qed

section \<open>Map and list together\<close>

lemma repI: "links s ks \<Longrightarrow> set ks = keys s \<Longrightarrow> distinct (map fst (lr_entries s)) \<Longrightarrow> lru_rep s ks"
  by (simp add: lru_rep_def)

lemma distinct_addToFront [simp]: "distinct (map fst (lr_entries (addToFront k s))) = distinct (map fst (lr_entries s))"
  by (simp add: addToFront_def Let_def split: option.split)

lemma distinct_removeEntry [simp]: "distinct (map fst (lr_entries (removeEntry k s))) = distinct (map fst (lr_entries s))"
  by (simp add: removeEntry_def Let_def split: option.split)

lemma empty_rep: "lru_rep empty_lru []"
  by (simp add: lru_rep_def links_def empty_lru_def keys_def)

lemma rep_length: "lru_rep s ks \<Longrightarrow> length (lr_entries s) = length ks"
  by (metis distinct_card keys_def length_map links_def list.set_map lru_rep_def)

lemma links_entries_cong:
  "\<forall>k\<in>set ks. map_of (lr_entries t) k = map_of (lr_entries s) k \<Longrightarrow> lr_head t = lr_head s \<Longrightarrow> lr_tail t = lr_tail s \<Longrightarrow>
     set ks \<subseteq> keys t \<Longrightarrow> links s ks \<Longrightarrow> links t ks"
  unfolding links_def using chain_frame[of "next_of s" "prev_of s" None ks None "next_of t" "prev_of t"]
  by (simp add: next_of_def prev_of_def)

lemma moveToFront_rep:
  assumes "lru_rep s ks" "k \<in> set ks"
  shows "lru_rep (moveToFront k s) (k # remove1 k ks)"
proof (cases "lr_head s = Some k")
  case True
  then have "ks = k # tl ks" using assms by (cases ks) (auto simp: lru_rep_def links_def)
  then have "remove1 k ks = tl ks" by (metis remove1.simps(2))
  then show ?thesis using assms True \<open>ks = k # tl ks\<close> by (simp add: moveToFront_def)
next
  case False
  obtain as bs where ks: "ks = as @ k # bs" "k \<notin> set as" using assms(2) by (meson split_list_first)
  have l: "links s (as @ k # bs)" using assms(1) by (simp add: lru_rep_def ks)
  have "remove1 k ks = as @ bs" using ks by (simp add: remove1_append)
  moreover have "links (addToFront k (removeEntry k s)) (k # as @ bs)"
    using removeEntry_links[OF l] l by (intro addToFront_links) (auto simp: links_def)
  ultimately show ?thesis using assms False ks by (auto simp: moveToFront_def lru_rep_def)
qed

lemma keys_unlink: "keys (unlink k s) = keys s - {k}"
proof -
  have "keys (unlink k s) = keys (removeEntry k s) - {k}" by (simp add: unlink_def delete_key_def keys_def keys_delete)
  then show ?thesis by simp
qed

lemma unlink_rep:
  assumes "lru_rep s ks" "k \<in> set ks"
  shows "lru_rep (unlink k s) (remove1 k ks)"
proof -
  obtain as bs where ks: "ks = as @ k # bs" "k \<notin> set as" using assms(2) by (meson split_list_first)
  have l: "links s (as @ k # bs)" using assms(1) by (simp add: lru_rep_def ks)
  then have d: "k \<notin> set (as @ bs)" by (auto simp: links_def)
  have "remove1 k ks = as @ bs" using ks by (simp add: remove1_append)
  moreover have ke: "keys (unlink k s) = set (as @ bs)"
    using assms ks d unfolding keys_unlink by (auto simp: lru_rep_def)
  moreover have "links (unlink k s) (as @ bs)"
  proof (rule links_entries_cong[OF _ _ _ _ removeEntry_links[OF l]])
    show "\<forall>x\<in>set (as @ bs). map_of (lr_entries (unlink k s)) x = map_of (lr_entries (removeEntry k s)) x"
      using d by (auto simp: unlink_def delete_key_def delete_conv fun_upd_apply)
    show "set (as @ bs) \<subseteq> keys (unlink k s)" using ke by simp
  qed (simp_all add: unlink_def delete_key_def)
  moreover have "distinct (map fst (lr_entries (unlink k s)))"
    using assms by (simp add: unlink_def delete_key_def lru_rep_def distinct_delete)
  ultimately show ?thesis by (auto intro: repI)
qed

lemma evictLRU_rep:
  assumes "lru_rep s ks"
  shows "lru_rep (evictLRU s) (butlast ks)"
proof (cases ks rule: rev_cases)
  case Nil
  then show ?thesis using assms by (simp add: evictLRU_def lru_rep_def links_def)
next
  case (snoc as k)
  have "lr_tail s = Some k" "k \<notin> set as" using assms snoc by (auto simp: lru_rep_def links_def)
  then show ?thesis using unlink_rep[OF assms, of k] snoc by (simp add: evictLRU_def unlink_def remove1_append)
qed

lemma insert_front_rep:
  assumes "lru_rep s ks" "k \<notin> set ks"
  shows "lru_rep (insert_front k v s) (k # ks)"
proof -
  let ?s = "s\<lparr>lr_entries := AList.update k \<lparr>nd_val = v, nd_prev = None, nd_next = None\<rparr> (lr_entries s)\<rparr>"
  have ke: "keys ?s = insert k (set ks)" using assms by (simp add: keys_def keys_update_insert lru_rep_def)
  have "links ?s ks"
  proof (rule links_entries_cong)
    show "\<forall>x\<in>set ks. map_of (lr_entries ?s) x = map_of (lr_entries s) x"
      using assms(2) by (auto simp: update_conv fun_upd_apply)
  qed (use ke assms in \<open>auto simp: lru_rep_def\<close>)
  from addToFront_links[OF this _ assms(2)] ke have "links (insert_front k v s) (k # ks)"
    by (simp add: insert_front_def)
  then show ?thesis using ke assms by (intro repI) (simp_all add: insert_front_def lru_rep_def)
qed

text \<open>Values, seen through the links.\<close>

definition value_of :: "('k, 'v) lru \<Rightarrow> 'k \<Rightarrow> 'v option" where
  "value_of s k = map_option nd_val (map_of (lr_entries s) k)"

lemma value_on_link [simp]: "value_of (set_prev p x s) = value_of s" "value_of (set_next p x s) = value_of s"
  by (rule ext, simp add: value_of_def lookup_on_entry option.map_comp comp_def)+

lemma value_ends [simp]: "value_of (s\<lparr>lr_head := h\<rparr>) = value_of s" "value_of (s\<lparr>lr_tail := h\<rparr>) = value_of s"
  by (auto simp: value_of_def)

lemma value_links [simp]:
  "value_of (addToFront k s) = value_of s" "value_of (removeEntry k s) = value_of s" "value_of (moveToFront k s) = value_of s"
proof -
  show a: "value_of (addToFront k s) = value_of s" for s :: "('a, 'b) lru"
    by (simp add: addToFront_def Let_def split: option.split)
  show r: "value_of (removeEntry k s) = value_of s" for s :: "('a, 'b) lru"
    by (simp add: removeEntry_def Let_def split: option.split)
  show "value_of (moveToFront k s) = value_of s" by (simp add: moveToFront_def a r)
qed

lemma value_unlink: "value_of (unlink k s) x = (if x = k then None else value_of s x)"
proof -
  have "value_of (unlink k s) x = (if x = k then None else value_of (removeEntry k s) x)"
    by (simp add: unlink_def delete_key_def value_of_def delete_conv fun_upd_apply del: value_links)
  then show ?thesis by (simp only: value_links)
qed

lemma value_insert: "value_of (insert_front k v s) x = (if x = k then Some v else value_of s x)"
proof -
  have "value_of (insert_front k v s) x =
      value_of (s\<lparr>lr_entries := AList.update k \<lparr>nd_val = v, nd_prev = None, nd_next = None\<rparr> (lr_entries s)\<rparr>) x"
    by (simp add: insert_front_def)
  then show ?thesis by (simp add: value_of_def update_conv fun_upd_apply)
qed

lemma value_keys: "lru_rep s ks \<Longrightarrow> value_of s k \<noteq> None \<longleftrightarrow> k \<in> set ks"
  by (simp add: value_of_def lru_rep_def keys_def map_of_eq_None_iff)

lemma value_entry: "distinct (map fst (lr_entries s)) \<Longrightarrow> (k, e) \<in> set (lr_entries s) \<Longrightarrow> value_of s k = Some (nd_val e)"
  by (simp add: value_of_def)

lemma drop_loop_rep:
  "lru_rep s ks \<Longrightarrow> distinct (map fst es) \<Longrightarrow> \<forall>(k, e)\<in>set es. value_of s k = Some (nd_val e) \<Longrightarrow> drop_loop P es n s = (m, s') \<Longrightarrow>
     lru_rep s' (filter (\<lambda>k. k \<in> fst ` set es \<longrightarrow> \<not> P (the (value_of s k))) ks) \<and>
     m + length ks = n + length ks + length (filter (\<lambda>p. P (nd_val (snd p))) es) \<and>
     (\<forall>k. value_of s' k = (if k \<in> fst ` set es \<and> P (the (value_of s k)) then None else value_of s k))"
proof (induction es arbitrary: n s ks)
  case (Cons p es)
  obtain k e where p: "p = (k, e)" by force
  have v: "value_of s k = Some (nd_val e)" using Cons.prems(3) p by simp
  then have kin: "k \<in> set ks" using value_keys[OF Cons.prems(1), of k] by simp
  have dk: "distinct ks" using Cons.prems(1) by (simp add: lru_rep_def links_def)
  have k: "k \<notin> fst ` set es" using Cons.prems(2) p by simp
  show ?case
  proof (cases "P (nd_val e)")
    case True
    have "\<forall>(x, f)\<in>set es. value_of (unlink k s) x = Some (nd_val f)"
      using Cons.prems(3) k by (force simp: value_unlink)
    from Cons.IH[OF unlink_rep[OF Cons.prems(1) kin] _ this, of "n + 1"] Cons.prems True
    have r: "lru_rep s' (filter (\<lambda>x. x \<in> fst ` set es \<longrightarrow> \<not> P (the (value_of (unlink k s) x))) (remove1 k ks))"
      "m + length (remove1 k ks) = n + 1 + length (remove1 k ks) + length (filter (\<lambda>p. P (nd_val (snd p))) es)"
      "\<forall>x. value_of s' x = (if x \<in> fst ` set es \<and> P (the (value_of (unlink k s) x)) then None else value_of (unlink k s) x)"
      by (auto simp: p)
    have "filter (\<lambda>x. x \<in> fst ` set es \<longrightarrow> \<not> P (the (value_of (unlink k s) x))) (remove1 k ks) =
        filter (\<lambda>x. x \<in> fst ` set (p # es) \<longrightarrow> \<not> P (the (value_of s x))) ks"
      unfolding distinct_remove1_removeAll[OF dk] removeAll_filter_not_eq filter_filter
      by (rule filter_cong) (use True v k in \<open>auto simp: p value_unlink\<close>)
    then show ?thesis using r True v k by (auto simp: p value_unlink)
  next
    case False
    from Cons.IH[OF Cons.prems(1), of n] Cons.prems(2,3,4) False
    have r: "lru_rep s' (filter (\<lambda>x. x \<in> fst ` set es \<longrightarrow> \<not> P (the (value_of s x))) ks)"
      "m + length ks = n + length ks + length (filter (\<lambda>p. P (nd_val (snd p))) es)"
      "\<forall>x. value_of s' x = (if x \<in> fst ` set es \<and> P (the (value_of s x)) then None else value_of s x)"
      by (auto simp: p)
    have "filter (\<lambda>x. x \<in> fst ` set es \<longrightarrow> \<not> P (the (value_of s x))) ks =
        filter (\<lambda>x. x \<in> fst ` set (p # es) \<longrightarrow> \<not> P (the (value_of s x))) ks"
      by (rule filter_cong) (use False v in \<open>auto simp: p\<close>)
    then show ?thesis using r False v by (auto simp: p)
  qed
qed simp

end
