(* ===== verification/Caches.thy ===== *)
theory Caches
  imports Lru Machine "HOL-Library.Multiset"
begin

text \<open>
  \<open>PIDCache\<close>, \<open>CRICache\<close> and \<open>K8sCache\<close> of \<open>pkg/enrichment/container.go\<close>. The first two keep the recency list
  of theory \<open>Lru\<close>; both are instances of one interface, from which the guarantee of an LRU cache
  follows. The clock readings of one call are taken equal. The loops over a cache's map take their
  order as an argument.
\<close>

section \<open>Recency\<close>

text \<open>What storing a key does to the keys, most recent first, with a capacity or without one.\<close>

definition touch :: "nat option \<Rightarrow> 'k \<Rightarrow> 'k list \<Rightarrow> 'k list" where
  "touch cap k ks =
    (if k \<in> set ks then k # remove1 k ks
     else k # (case cap of None \<Rightarrow> ks | Some n \<Rightarrow> if n \<le> length ks then butlast ks else ks))"

lemma touch_head: "\<exists>bs. touch cap k ks = k # bs"
  by (simp add: touch_def)

lemma touch_distinct: "distinct ks \<Longrightarrow> distinct (touch cap k ks)"
  by (auto simp: touch_def distinct_butlast split: option.split dest: in_set_butlastD)

lemma touch_length: "0 < n \<Longrightarrow> length ks \<le> n \<Longrightarrow> length (touch (Some n) k ks) \<le> n"
  by (cases "ks = []") (auto simp: touch_def length_remove1 Suc_le_eq)

lemma touch_keeps:
  assumes "distinct (as @ k # bs)" "x \<noteq> k" "card (insert x (set as)) < n"
  shows "\<exists>bs'. touch (Some n) x (as @ k # bs) = (x # remove1 x as) @ k # bs'"
proof (cases "x \<in> set (as @ k # bs)")
  case True
  then show ?thesis using assms by (auto simp: touch_def remove1_append remove1_idem)
next
  case False
  then have "card (insert x (set as)) = Suc (length as)" using assms(1) by (simp add: distinct_card)
  with assms(3) have "length as + 1 < n" by simp
  then show ?thesis using False by (cases "bs = []") (auto simp: touch_def butlast_append remove1_idem)
qed

lemma fold_touch_keeps:
  "distinct (as @ k # bs) \<Longrightarrow> k \<notin> set xs \<Longrightarrow> card (set as \<union> set xs) < n \<Longrightarrow>
     k \<in> set (fold (touch (Some n)) xs (as @ k # bs))"
proof (induction xs arbitrary: as bs)
  case (Cons x xs)
  have "card (insert x (set as)) \<le> card (set as \<union> set (x # xs))" by (rule card_mono) auto
  with Cons.prems obtain bs' where t: "touch (Some n) x (as @ k # bs) = (x # remove1 x as) @ k # bs'"
    using touch_keeps[of as k bs x n] by auto
  have "distinct ((x # remove1 x as) @ k # bs')" using touch_distinct[OF Cons.prems(1), of "Some n" x] unfolding t .
  moreover have "set (x # remove1 x as) \<union> set xs = set as \<union> set (x # xs)" using Cons.prems(1) by auto
  ultimately show ?case using Cons.IH[of "x # remove1 x as" bs'] Cons.prems t by simp
qed simp

text \<open>The interface: \<open>put\<close> stores a value under a key as the most recent one, as an \<open>entry\<close>.\<close>

locale recency_cache =
  fixes rep :: "'s \<Rightarrow> 'k list \<Rightarrow> bool"
    and put :: "time \<Rightarrow> 'k \<Rightarrow> 'v \<Rightarrow> 's \<Rightarrow> 's"
    and entry :: "time \<Rightarrow> 's \<Rightarrow> 'v \<Rightarrow> 'e"
    and lookup :: "'s \<Rightarrow> 'k \<Rightarrow> 'e option"
    and cap :: "'s \<Rightarrow> nat option"
  assumes rep_keys: "rep s ks \<Longrightarrow> distinct ks \<and> (\<forall>k. lookup s k \<noteq> None \<longleftrightarrow> k \<in> set ks)"
    and put_rep: "rep s ks \<Longrightarrow> rep (put t k v s) (touch (cap s) k ks)"
    and put_cap: "cap (put t k v s) = cap s"
    and put_lookup: "rep s ks \<Longrightarrow> lookup (put t k v s) x =
        (if x = k then Some (entry t s v) else if x \<in> set (touch (cap s) k ks) then lookup s x else None)"
begin

definition puts :: "(time \<times> 'k \<times> 'v) list \<Rightarrow> 's \<Rightarrow> 's" where
  "puts ps s = fold (\<lambda>(t, k, v). put t k v) ps s"

lemma puts_rep: "rep s ks \<Longrightarrow> rep (puts ps s) (fold (touch (cap s)) (map (fst \<circ> snd) ps) ks)"
proof (induction ps arbitrary: s ks)
  case (Cons p ps)
  obtain t k v where p: "p = (t, k, v)" by (cases p) auto
  from Cons.IH[OF put_rep[OF Cons.prems, of t k v]] show ?case by (simp add: puts_def p put_cap)
qed (simp add: puts_def)

lemma puts_cap: "cap (puts ps s) = cap s"
  by (induction ps arbitrary: s) (auto simp: puts_def put_cap)

lemma puts_lookup:
  "rep s ks \<Longrightarrow> k \<notin> (fst \<circ> snd) ` set ps \<Longrightarrow> lookup (puts ps s) k = None \<or> lookup (puts ps s) k = lookup s k"
proof (induction ps arbitrary: s ks)
  case (Cons p ps)
  obtain t x v where p: "p = (t, x, v)" by (cases p) auto
  have "lookup (put t x v s) k = None \<or> lookup (put t x v s) k = lookup s k"
    using put_lookup[OF Cons.prems(1), of t x v k] Cons.prems(2) p by auto
  moreover have "lookup (puts ps (put t x v s)) k = None \<or> lookup (puts ps (put t x v s)) k = lookup (put t x v s) k"
    using Cons.IH[OF put_rep[OF Cons.prems(1), of t x v]] Cons.prems(2) p by auto
  ultimately show ?case by (auto simp: puts_def p)
qed (simp add: puts_def)

text \<open>The guarantee: a stored value survives until as many other keys as the capacity were stored.\<close>

lemma guarantee:
  assumes r: "rep s ks" and k: "k \<notin> (fst \<circ> snd) ` set ps" and c: "cap s = Some n" "card ((fst \<circ> snd) ` set ps) < n"
  shows "lookup (puts ps (put t k v s)) k = Some (entry t s v)"
proof -
  have r1: "rep (put t k v s) (touch (cap s) k ks)" by (rule put_rep[OF r])
  obtain bs where bs: "touch (cap s) k ks = [] @ k # bs" using touch_head[of "cap s" k ks] by auto
  have "k \<in> set (fold (touch (Some n)) (map (fst \<circ> snd) ps) ([] @ k # bs))"
    by (rule fold_touch_keeps) (use k c rep_keys[OF r1] bs in auto)
  then have "lookup (puts ps (put t k v s)) k \<noteq> None"
    using rep_keys[OF puts_rep[OF r1, of ps]] bs by (simp add: put_cap c)
  moreover have "lookup (put t k v s) k = Some (entry t s v)" using put_lookup[OF r, of t k v k] by simp
  ultimately show ?thesis using puts_lookup[OF r1 k] by auto
qed

lemma bounded: "rep s ks \<Longrightarrow> cap s = Some n \<Longrightarrow> 0 < n \<Longrightarrow> length ks \<le> n \<Longrightarrow> length (touch (cap s) k ks) \<le> n"
  by (simp add: touch_length)

end

section \<open>Values in a linked entry\<close>

definition set_val :: "('v \<Rightarrow> 'v) \<Rightarrow> 'k \<Rightarrow> ('k, 'v) lru \<Rightarrow> ('k, 'v) lru" where
  "set_val f = on_entry (\<lambda>e. e\<lparr>nd_val := f (nd_val e)\<rparr>)"

lemma set_val_links: "next_of (set_val f k s) = next_of s" "prev_of (set_val f k s) = prev_of s"
  by (auto simp: set_val_def next_of_def prev_of_def lookup_on_entry split: option.split)

lemma set_val_rep [simp]: "lru_rep (set_val f k s) ks = lru_rep s ks"
  by (simp add: lru_rep_def links_def set_val_links) (simp add: set_val_def)

lemma set_val_value: "value_of (set_val f k s) x = (if x = k then map_option f (value_of s x) else value_of s x)"
  by (simp add: set_val_def value_of_def lookup_on_entry option.map_comp comp_def)

lemma set_val_entries [simp]: "length (lr_entries (set_val f k s)) = length (lr_entries s)"
proof -
  have "length (AList.map_entry k g al) = length al" for g and al :: "('k \<times> ('k, 'v) node) list" and k
    by (induction al) auto
  then show ?thesis by (simp add: set_val_def on_entry_def)
qed

section \<open>The PID cache\<close>

record pid_entry =
  pe_containerID :: string
  pe_expiry :: time
  pe_lastAccess :: time

record pid_cache =
  pc_size :: int
  pc_ttl :: duration
  pc_lru :: "(u32, pid_entry) lru"

definition NewPIDCache :: "int \<Rightarrow> duration \<Rightarrow> pid_cache" where
  "NewPIDCache sz ttl = \<lparr>pc_size = sz, pc_ttl = ttl, pc_lru = empty_lru\<rparr>"

definition pc_Get :: "time \<Rightarrow> u32 \<Rightarrow> pid_cache \<Rightarrow> string \<times> pid_cache" where
  "pc_Get now pid c =
    (case value_of (pc_lru c) pid of
       None \<Rightarrow> ([], c)
     | Some entry \<Rightarrow>
         if now < pe_expiry entry
         then (pe_containerID entry, c\<lparr>pc_lru := set_val (\<lambda>e. e\<lparr>pe_lastAccess := now\<rparr>) pid (pc_lru c)\<rparr>)
         else ([], c))"

definition pc_Set :: "time \<Rightarrow> u32 \<Rightarrow> string \<Rightarrow> pid_cache \<Rightarrow> pid_cache" where
  "pc_Set now pid containerID c =
    (let entry = \<lparr>pe_containerID = containerID, pe_expiry = now + pc_ttl c, pe_lastAccess = now\<rparr> in
     if value_of (pc_lru c) pid \<noteq> None
     then c\<lparr>pc_lru := moveToFront pid (set_val (\<lambda>_. entry) pid (pc_lru c))\<rparr>
     else
       (let l = (if pc_size c \<le> int (length (lr_entries (pc_lru c))) then evictLRU (pc_lru c) else pc_lru c)
        in c\<lparr>pc_lru := insert_front pid entry l\<rparr>))"

type_synonym 'a perm = "'a list \<Rightarrow> 'a list"

definition pc_Reap :: "(u32 \<times> (u32, pid_entry) node) perm \<Rightarrow> time \<Rightarrow> pid_cache \<Rightarrow> pid_cache" where
  "pc_Reap ord now c =
    c\<lparr>pc_lru := snd (drop_loop (\<lambda>entry. pe_expiry entry < now) (ord (lr_entries (pc_lru c))) 0 (pc_lru c))\<rparr>"

definition pc_Prune :: "(u32 \<times> (u32, pid_entry) node) perm \<Rightarrow> time \<Rightarrow> duration \<Rightarrow> pid_cache \<Rightarrow> nat \<times> pid_cache" where
  "pc_Prune ord now idleThreshold c =
    (let (pruned, l) = drop_loop (\<lambda>entry. idleThreshold < now - pe_lastAccess entry) (ord (lr_entries (pc_lru c))) 0 (pc_lru c)
     in (pruned, c\<lparr>pc_lru := l\<rparr>))"

definition pc_Size :: "pid_cache \<Rightarrow> nat" where
  "pc_Size c = length (lr_entries (pc_lru c))"

section \<open>The CRI cache\<close>

text \<open>Its values are pointers to container records: addresses of type \<open>'i\<close>.\<close>

record 'i cri_entry =
  cy_info :: 'i
  cy_lastAccess :: time

record 'i cri_cache =
  cc_maxSize :: int
  cc_lru :: "(string, 'i cri_entry) lru"

definition NewCRICacheWithMaxSize :: "int \<Rightarrow> 'i cri_cache" where
  "NewCRICacheWithMaxSize maxSize = \<lparr>cc_maxSize = maxSize, cc_lru = empty_lru\<rparr>"

definition NewCRICache :: "'i cri_cache" where
  "NewCRICache = NewCRICacheWithMaxSize 0"

definition cc_Get :: "time \<Rightarrow> string \<Rightarrow> 'i cri_cache \<Rightarrow> 'i option \<times> 'i cri_cache" where
  "cc_Get now containerID c =
    (case value_of (cc_lru c) containerID of
       None \<Rightarrow> (None, c)
     | Some entry \<Rightarrow>
         (Some (cy_info entry), c\<lparr>cc_lru := set_val (\<lambda>e. e\<lparr>cy_lastAccess := now\<rparr>) containerID (cc_lru c)\<rparr>))"

definition cc_Set :: "time \<Rightarrow> string \<Rightarrow> 'i \<Rightarrow> 'i cri_cache \<Rightarrow> 'i cri_cache" where
  "cc_Set now containerID info c =
    (let entry = \<lparr>cy_info = info, cy_lastAccess = now\<rparr> in
     if value_of (cc_lru c) containerID \<noteq> None
     then c\<lparr>cc_lru := moveToFront containerID (set_val (\<lambda>_. entry) containerID (cc_lru c))\<rparr>
     else
       (let l = (if 0 < cc_maxSize c \<and> cc_maxSize c \<le> int (length (lr_entries (cc_lru c))) then evictLRU (cc_lru c) else cc_lru c)
        in c\<lparr>cc_lru := insert_front containerID entry l\<rparr>))"

definition cc_Delete :: "string \<Rightarrow> 'i cri_cache \<Rightarrow> 'i cri_cache" where
  "cc_Delete containerID c =
    (if value_of (cc_lru c) containerID \<noteq> None then c\<lparr>cc_lru := unlink containerID (cc_lru c)\<rparr> else c)"

definition cc_Size :: "'i cri_cache \<Rightarrow> nat" where
  "cc_Size c = length (lr_entries (cc_lru c))"

definition GetAllContainerIDs :: "string perm \<Rightarrow> 'i cri_cache \<Rightarrow> string list" where
  "GetAllContainerIDs ord c = ord (map fst (lr_entries (cc_lru c)))"

definition cc_Prune :: "(string \<times> (string, 'i cri_entry) node) perm \<Rightarrow> time \<Rightarrow> duration \<Rightarrow> 'i cri_cache \<Rightarrow> nat \<times> 'i cri_cache" where
  "cc_Prune ord now idleThreshold c =
    (let (pruned, l) = drop_loop (\<lambda>entry. idleThreshold < now - cy_lastAccess entry) (ord (lr_entries (cc_lru c))) 0 (cc_lru c)
     in (pruned, c\<lparr>cc_lru := l\<rparr>))"

section \<open>The K8s cache\<close>

record pod_info =
  po_Name :: string
  po_Namespace :: string
  po_ServiceAccount :: string
  po_Labels :: "string \<rightharpoonup> string"
  po_Containers :: "string list"

record k8s_cache =
  kc_nodeName :: string
  kc_pods :: "(string \<times> pod_info) list"

definition NewK8sCache :: "string \<Rightarrow> k8s_cache" where
  "NewK8sCache nodeName = \<lparr>kc_nodeName = nodeName, kc_pods = []\<rparr>"

definition kc_Get :: "string \<Rightarrow> k8s_cache \<Rightarrow> pod_info option" where
  "kc_Get key k = map_of (kc_pods k) key"

definition kc_Set :: "string \<Rightarrow> pod_info \<Rightarrow> k8s_cache \<Rightarrow> k8s_cache" where
  "kc_Set key pod k = k\<lparr>kc_pods := AList.update key pod (kc_pods k)\<rparr>"

definition kc_Delete :: "string \<Rightarrow> k8s_cache \<Rightarrow> k8s_cache" where
  "kc_Delete key k = k\<lparr>kc_pods := AList.delete key (kc_pods k)\<rparr>"

definition kc_Size :: "k8s_cache \<Rightarrow> nat" where
  "kc_Size k = length (kc_pods k)"

definition LookupByContainerID :: "(string \<times> pod_info) perm \<Rightarrow> string \<Rightarrow> k8s_cache \<Rightarrow> pod_info option" where
  "LookupByContainerID ord containerID k = find (\<lambda>pod. containerID \<in> set (po_Containers pod)) (map snd (ord (kc_pods k)))"

section \<open>Both caches are recency caches\<close>

text \<open>The step they share: update in place and move, or evict when full and insert.\<close>

definition store_value :: "nat option \<Rightarrow> 'k \<Rightarrow> 'v \<Rightarrow> ('k, 'v) lru \<Rightarrow> ('k, 'v) lru" where
  "store_value cap k v s =
    (if value_of s k \<noteq> None then moveToFront k (set_val (\<lambda>_. v) k s)
     else insert_front k v
       (case cap of None \<Rightarrow> s | Some n \<Rightarrow> if n \<le> length (lr_entries s) then evictLRU s else s))"

lemma evict_value: "lru_rep s ks \<Longrightarrow> value_of (evictLRU s) x = (if x \<in> set (butlast ks) then value_of s x else None)"
proof (cases ks rule: rev_cases)
  case (snoc as k)
  assume r: "lru_rep s ks"
  then have "lr_tail s = Some k" "k \<notin> set as" using snoc by (auto simp: lru_rep_def links_def)
  moreover have "value_of s x = None" if "x \<notin> set ks" using value_keys[OF r, of x] that by simp
  ultimately show ?thesis using snoc by (auto simp: evictLRU_def value_unlink simp flip: unlink_def)
next
  case Nil
  assume r: "lru_rep s ks"
  have "value_of s x = None" using value_keys[OF r, of x] Nil by simp
  then show ?thesis using r Nil by (simp add: evictLRU_def lru_rep_def links_def)
qed

lemma store_value_rep:
  assumes r: "lru_rep s ks"
  shows "lru_rep (store_value cap k v s) (touch cap k ks)"
proof (cases "k \<in> set ks")
  case True
  then show ?thesis using value_keys[OF r, of k] moveToFront_rep[of "set_val (\<lambda>_. v) k s" ks k] r
    by (simp add: store_value_def touch_def)
next
  case False
  have "k \<notin> set (butlast ks)" using False by (auto dest: in_set_butlastD)
  then show ?thesis using False value_keys[OF r, of k] r rep_length[OF r]
    by (auto simp: store_value_def touch_def intro: insert_front_rep evictLRU_rep split: option.split)
qed

lemma store_value_value:
  assumes r: "lru_rep s ks"
  shows "value_of (store_value cap k v s) x =
    (if x = k then Some v else if x \<in> set (touch cap k ks) then value_of s x else None)"
proof (cases "k \<in> set ks")
  case True
  then have "value_of s k \<noteq> None" using value_keys[OF r, of k] by simp
  moreover have "value_of s x = None" if "x \<notin> set ks" using value_keys[OF r, of x] that by simp
  ultimately show ?thesis using True by (auto simp: store_value_def touch_def set_val_value)
next
  case False
  have n: "value_of s y = None" if "y \<notin> set ks" for y using value_keys[OF r, of y] that by simp
  then have "value_of s k = None" using False by simp
  then show ?thesis using False n rep_length[OF r] evict_value[OF r, of x]
    by (auto simp: store_value_def touch_def value_insert split: option.split)
qed

lemma pc_Set_store: "pc_Set now pid cid c = c\<lparr>pc_lru := store_value (Some (nat (pc_size c))) pid
    \<lparr>pe_containerID = cid, pe_expiry = now + pc_ttl c, pe_lastAccess = now\<rparr> (pc_lru c)\<rparr>"
proof -
  have "pc_size c \<le> int n \<longleftrightarrow> nat (pc_size c) \<le> n" for n by linarith
  then show ?thesis by (simp add: pc_Set_def store_value_def Let_def)
qed

lemma cc_Set_store: "cc_Set now cid info c = c\<lparr>cc_lru := store_value (if 0 < cc_maxSize c then Some (nat (cc_maxSize c)) else None) cid
    \<lparr>cy_info = info, cy_lastAccess = now\<rparr> (cc_lru c)\<rparr>"
proof -
  have "cc_maxSize c \<le> int n \<longleftrightarrow> nat (cc_maxSize c) \<le> n" for n by linarith
  then show ?thesis by (simp add: cc_Set_def store_value_def Let_def)
qed

interpretation pid_lru: recency_cache "\<lambda>c. lru_rep (pc_lru c)" pc_Set
  "\<lambda>t c cid. \<lparr>pe_containerID = cid, pe_expiry = t + pc_ttl c, pe_lastAccess = t\<rparr>"
  "\<lambda>c. value_of (pc_lru c)" "\<lambda>c. Some (nat (pc_size c))"
proof
  fix s :: pid_cache and ks t k v x
  assume r: "lru_rep (pc_lru s) ks"
  show "distinct ks \<and> (\<forall>k. value_of (pc_lru s) k \<noteq> None \<longleftrightarrow> k \<in> set ks)"
    using r value_keys[OF r] by (simp add: lru_rep_def links_def)
  show "lru_rep (pc_lru (pc_Set t k v s)) (touch (Some (nat (pc_size s))) k ks)"
    using store_value_rep[OF r] by (simp add: pc_Set_store)
  show "value_of (pc_lru (pc_Set t k v s)) x =
      (if x = k then Some \<lparr>pe_containerID = v, pe_expiry = t + pc_ttl s, pe_lastAccess = t\<rparr>
       else if x \<in> set (touch (Some (nat (pc_size s))) k ks) then value_of (pc_lru s) x else None)"
    using store_value_value[OF r] by (simp add: pc_Set_store)
qed (simp add: pc_Set_store)

interpretation cri_lru: recency_cache "\<lambda>c. lru_rep (cc_lru c)" cc_Set "\<lambda>t c i. \<lparr>cy_info = i, cy_lastAccess = t\<rparr>"
  "\<lambda>c. value_of (cc_lru c)" "\<lambda>c. if 0 < cc_maxSize c then Some (nat (cc_maxSize c)) else None"
proof
  fix s :: "'a cri_cache" and ks t k v x
  assume r: "lru_rep (cc_lru s) ks"
  let ?cap = "if 0 < cc_maxSize s then Some (nat (cc_maxSize s)) else None"
  show "distinct ks \<and> (\<forall>k. value_of (cc_lru s) k \<noteq> None \<longleftrightarrow> k \<in> set ks)"
    using r value_keys[OF r] by (simp add: lru_rep_def links_def)
  show "lru_rep (cc_lru (cc_Set t k v s)) (touch ?cap k ks)"
    using store_value_rep[OF r] by (simp add: cc_Set_store)
  show "value_of (cc_lru (cc_Set t k v s)) x = (if x = k then Some \<lparr>cy_info = v, cy_lastAccess = t\<rparr>
      else if x \<in> set (touch ?cap k ks) then value_of (cc_lru s) x else None)"
    using store_value_value[OF r] by (simp add: cc_Set_store)
qed (simp add: cc_Set_store)

section \<open>The PID cache as a machine\<close>

definition fair_perm :: "'a perm \<Rightarrow> bool" where
  "fair_perm ord \<longleftrightarrow> (\<forall>xs. mset (ord xs) = mset xs)"

lemma fair_perm_entries:
  assumes "fair_perm ord" "distinct (map fst es)"
  shows "distinct (map fst (ord es))" "set (ord es) = set es"
proof -
  have m: "mset (ord es) = mset es" using assms by (simp add: fair_perm_def)
  then have "mset (map fst (ord es)) = mset (map fst es)" by simp
  then show "distinct (map fst (ord es))" using assms(2) by (metis mset_eq_imp_distinct_iff)
  show "set (ord es) = set es" using m by (rule mset_eq_setD)
qed

inductive pid_step :: "pid_cache \<Rightarrow> pid_cache \<Rightarrow> bool" where
  pid_get: "pid_step c (snd (pc_Get now pid c))"
| pid_set: "pid_step c (pc_Set now pid cid c)"
| pid_reap: "fair_perm ord \<Longrightarrow> pid_step c (pc_Reap ord now c)"
| pid_prune: "fair_perm ord \<Longrightarrow> pid_step c (snd (pc_Prune ord now idle c))"

definition pid_inv :: "int \<Rightarrow> duration \<Rightarrow> pid_cache \<Rightarrow> bool" where
  "pid_inv sz ttl c \<longleftrightarrow> pc_size c = sz \<and> pc_ttl c = ttl \<and> (\<exists>ks. lru_rep (pc_lru c) ks \<and> length ks \<le> nat sz)"

lemma drop_loop_entries:
  assumes "lru_rep s ks" "fair_perm ord" "drop_loop P (ord (lr_entries s)) 0 s = (m, s')"
  shows "lru_rep s' (filter (\<lambda>k. \<not> P (the (value_of s k))) ks) \<and> m = length (filter (\<lambda>k. P (the (value_of s k))) ks) \<and>
    (\<forall>k. value_of s' k = (if value_of s k \<noteq> None \<and> P (the (value_of s k)) then None else value_of s k))"
proof -
  let ?es = "ord (lr_entries s)"
  have d: "distinct (map fst (lr_entries s))" "set ks = keys s" "distinct ks" using assms(1) by (auto simp: lru_rep_def links_def)
  note es = fair_perm_entries[OF assms(2) d(1)]
  have v: "\<forall>(k, e)\<in>set ?es. value_of s k = Some (nd_val e)" using es(2) value_entry[OF d(1)] by auto
  have k: "fst ` set ?es = set ks" using es(2) d(2) by (simp add: keys_def)
  note r = drop_loop_rep[OF assms(1) es(1) v assms(3)]
  have "filter (\<lambda>k. k \<in> fst ` set ?es \<longrightarrow> \<not> P (the (value_of s k))) ks = filter (\<lambda>k. \<not> P (the (value_of s k))) ks"
    by (rule filter_cong) (use k in auto)
  moreover have "length (filter (\<lambda>p. P (nd_val (snd p))) ?es) = length (filter (\<lambda>k. P (the (value_of s k))) (map fst ?es))"
    unfolding filter_map length_map by (rule arg_cong[where f = length], rule filter_cong) (use v in auto)
  moreover have "mset (map fst ?es) = mset ks" using es(1) d(3) k using set_eq_iff_mset_eq_distinct[of "map fst ?es" ks] by simp
  then have "length (filter Q (map fst ?es)) = length (filter Q ks)" for Q
    by (metis mset_filter size_mset)
  ultimately show ?thesis using r k value_keys[OF assms(1)] by (auto split: if_splits)
qed

lemma pc_Get_rep [simp]: "lru_rep (pc_lru (snd (pc_Get now pid c))) ks = lru_rep (pc_lru c) ks"
  by (simp add: pc_Get_def split: option.split)

lemma pc_fields [simp]:
  "pc_size (snd (pc_Get now pid c)) = pc_size c" "pc_ttl (snd (pc_Get now pid c)) = pc_ttl c"
  "pc_size (pc_Set now pid cid c) = pc_size c" "pc_ttl (pc_Set now pid cid c) = pc_ttl c"
  by (simp_all add: pc_Get_def pc_Set_store split: option.split)

lemma pid_inv_drop:
  assumes "pid_inv sz ttl c" "fair_perm ord"
  shows "pid_inv sz ttl (c\<lparr>pc_lru := snd (drop_loop P (ord (lr_entries (pc_lru c))) 0 (pc_lru c))\<rparr>)"
proof -
  obtain ks where ks: "lru_rep (pc_lru c) ks" "length ks \<le> nat sz" using assms(1) by (auto simp: pid_inv_def)
  obtain m l where l: "drop_loop P (ord (lr_entries (pc_lru c))) 0 (pc_lru c) = (m, l)" by force
  from drop_loop_entries[OF ks(1) assms(2) l]
  have "lru_rep l (filter (\<lambda>k. \<not> P (the (value_of (pc_lru c) k))) ks)" by blast
  moreover have "length (filter (\<lambda>k. \<not> P (the (value_of (pc_lru c) k))) ks) \<le> nat sz"
    using ks(2) length_filter_le le_trans by blast
  ultimately show ?thesis using assms(1) l by (auto simp: pid_inv_def)
qed

interpretation pid_machine: invariant_system "\<lambda>c. c = NewPIDCache sz ttl \<and> 0 < sz" pid_step "\<lambda>c. 0 < sz \<and> pid_inv sz ttl c" for sz ttl
proof
  fix c c'
  show "c = NewPIDCache sz ttl \<and> 0 < sz \<Longrightarrow> 0 < sz \<and> pid_inv sz ttl c"
    using empty_rep by (auto simp: pid_inv_def NewPIDCache_def)
  assume i: "0 < sz \<and> pid_inv sz ttl c" and "pid_step c c'"
  from this(2) show "0 < sz \<and> pid_inv sz ttl c'"
  proof cases
    case (pid_get now pid)
    then show ?thesis using i by (simp add: pid_inv_def)
  next
    case (pid_set now pid cid)
    obtain ks where ks: "lru_rep (pc_lru c) ks" "length ks \<le> nat sz" using i by (auto simp: pid_inv_def)
    have "lru_rep (pc_lru c') (touch (Some (nat (pc_size c))) pid ks)"
      unfolding pid_set by (rule pid_lru.put_rep[OF ks(1)])
    moreover have "length (touch (Some (nat (pc_size c))) pid ks) \<le> nat sz"
      using ks(2) i by (simp add: pid_inv_def touch_length)
    ultimately show ?thesis using i pid_set by (auto simp: pid_inv_def)
  next
    case (pid_reap ord now)
    then show ?thesis using i pid_inv_drop[of sz ttl c ord] by (simp add: pc_Reap_def)
  next
    case (pid_prune ord now idle)
    then show ?thesis using i pid_inv_drop[of sz ttl c ord] by (simp add: pc_Prune_def case_prod_beta)
  qed
qed

text \<open>C36: The PID cache is an LRU cache of bounded size. In every state reached by any sequence of
  lookups, insertions, reaps and prunes, in any map order, the pointer list and the map hold the same
  keys, each once, linked in both directions, and at most \<open>size\<close> of them.\<close>

theorem pid_cache_wellformed:
  assumes "0 < sz" and "pid_step\<^sup>*\<^sup>* (NewPIDCache sz ttl) c"
  shows "(\<exists>ks. lru_rep (pc_lru c) ks) \<and> int (pc_Size c) \<le> sz"
  using pid_machine.reachable_inv[OF _ assms(2), of sz ttl] assms(1) rep_length
  by (fastforce simp: pid_inv_def pc_Size_def)

text \<open>C37: A cached container survives. After a container was stored for a process in any reachable
  cache, and before \<open>size\<close> different other processes were stored, a lookup within the time to live
  returns that container.\<close>

theorem pid_cache_guarantee:
  assumes "0 < sz" and "pid_step\<^sup>*\<^sup>* (NewPIDCache sz ttl) c"
    and "pid \<notin> (fst \<circ> snd) ` set later" and "int (card ((fst \<circ> snd) ` set later)) < sz"
    and "now < t0 + ttl"
  shows "fst (pc_Get now pid (fold (\<lambda>(t, p, i). pc_Set t p i) later (pc_Set t0 pid cid c))) = cid"
proof -
  have i: "pid_inv sz ttl c" using pid_machine.reachable_inv[OF _ assms(2), of sz ttl] assms(1) by blast
  then obtain ks where "lru_rep (pc_lru c) ks" by (auto simp: pid_inv_def)
  from pid_lru.guarantee[OF this assms(3), of "nat sz" t0 cid] assms(4) i
  have "value_of (pc_lru (fold (\<lambda>(t, p, i). pc_Set t p i) later (pc_Set t0 pid cid c))) pid =
      Some \<lparr>pe_containerID = cid, pe_expiry = t0 + ttl, pe_lastAccess = t0\<rparr>"
    by (simp add: pid_inv_def pid_lru.puts_def)
  then show ?thesis using assms(5) by (simp add: pc_Get_def)
qed

text \<open>A lookup does not count as a use: the entry at the end of the list is evicted by the next new
  process even if it was looked up just before.\<close>

lemma get_does_not_refresh:
  assumes r: "lru_rep (pc_lru c) (ks @ [pid])" and f: "pc_size c = int (length ks) + 1" and n: "pid' \<notin> set (ks @ [pid])"
  shows "fst (pc_Get t2 pid (pc_Set t1 pid' cid (snd (pc_Get t0 pid c)))) = []"
proof -
  let ?c = "snd (pc_Get t0 pid c)"
  have r': "lru_rep (pc_lru ?c) (ks @ [pid])" using r by simp
  have "nat (pc_size ?c) = Suc (length ks)" using f by simp
  then have "touch (Some (nat (pc_size ?c))) pid' (ks @ [pid]) = pid' # ks" using n by (simp add: touch_def butlast_append)
  moreover have "pid \<noteq> pid'" "pid \<notin> set ks" using n r by (auto simp: lru_rep_def links_def)
  ultimately have "value_of (pc_lru (pc_Set t1 pid' cid ?c)) pid = None"
    using pid_lru.put_lookup[OF r', of t1 pid' cid pid] by simp
  then show ?thesis by (simp add: pc_Get_def)
qed

lemma prune_exact:
  assumes "lru_rep (pc_lru c) ks" "fair_perm ord" "pc_Prune ord now idle c = (n, c')"
  shows "n + pc_Size c' = pc_Size c \<and>
    (\<forall>pid. value_of (pc_lru c') pid = (case value_of (pc_lru c) pid of
       None \<Rightarrow> None | Some e \<Rightarrow> if idle < now - pe_lastAccess e then None else Some e))"
proof -
  let ?P = "\<lambda>entry. idle < now - pe_lastAccess entry"
  obtain m l where l: "drop_loop ?P (ord (lr_entries (pc_lru c))) 0 (pc_lru c) = (m, l)" by force
  note d = drop_loop_entries[OF assms(1,2) l]
  have "length ks = length (filter (\<lambda>k. ?P (the (value_of (pc_lru c) k))) ks) + length (filter (\<lambda>k. \<not> ?P (the (value_of (pc_lru c) k))) ks)"
    by (simp add: sum_length_filter_compl)
  then show ?thesis using d assms(3) l rep_length[OF assms(1)] rep_length[of l]
    by (auto simp: pc_Prune_def pc_Size_def split: option.split)
qed

text \<open>A cache of two, filled with processes 5 and 6.\<close>

definition demo_pids :: pid_cache where
  "demo_pids = pc_Set 2 6 ''b'' (pc_Set 1 5 ''a'' (NewPIDCache 2 100))"

lemma demo_pids_reach: "pid_step\<^sup>*\<^sup>* (NewPIDCache 2 100) demo_pids"
  unfolding demo_pids_def by (rule rtranclp.rtrancl_into_rtrancl[OF r_into_rtranclp]) (rule pid_set)+

theorem pid_cache_wellformed_witness: "\<exists>ks. lru_rep (pc_lru demo_pids) ks"
  using pid_cache_wellformed[OF _ demo_pids_reach] by simp

theorem pid_cache_guarantee_witness:
  "fst (pc_Get 50 7 (pc_Set 4 5 ''d'' (pc_Set 3 7 ''c'' demo_pids))) = ''c''"
  using pid_cache_guarantee[OF _ demo_pids_reach, of 7 "[(4, 5, ''d'')]" 50 3 "''c''"] by simp

end
