(* ===== verification/Enrichment.thy ===== *)
theory Enrichment
  imports Cgroup_Files Caches
begin

text \<open>
  The enrichment manager of \<open>container.go\<close> with its two integrations, \<open>cri.go\<close> and \<open>k8s.go\<close>. Container
  records are shared by pointer between the CRI cache, the event channel and the pod handlers, which
  write through the pointer: they live in a store \<open>mg_heap\<close>, and an address is a position in it.
  The file system is an argument (\<open>procfs\<close>, the tree under the configured path), as are the outcomes of
  \<open>stat\<close>, \<open>dial\<close> and the environment. A channel is its buffer, of capacity 256. The loops over Go maps
  take their order as an argument.
\<close>

section \<open>State\<close>

record container_info =
  ci_ID :: string
  ci_Name :: string
  ci_Image :: string
  ci_ImageDigest :: string
  ci_PodName :: string
  ci_Namespace :: string
  ci_ServiceAccount :: string
  ci_Labels :: "string \<rightharpoonup> string"
  ci_StartedAt :: time
  ci_Privileged :: bool
  ci_Capabilities :: "string list"
  ci_CgroupID :: u64

type_synonym addr = nat

definition CRIEventContainerStart :: string where "CRIEventContainerStart = ''container_start''"
definition CRIEventContainerStop :: string where "CRIEventContainerStop = ''container_stop''"
definition CRIEventContainerUpdate :: string where "CRIEventContainerUpdate = ''container_update''"

record cri_event =
  cv_Type :: string
  cv_Container :: "addr option"
  cv_Timestamp :: time

record cri_integration =
  cn_endpoint :: string
  cn_runtime :: string
  cn_connected :: bool
  cn_eventCh :: "cri_event list"
  cn_containersListed :: nat
  cn_eventsProcessed :: nat
  cn_connectAttempts :: nat
  cn_lastListTime :: time
  cn_lastConnectTime :: time
  cn_lastError :: "string option"

definition K8sEventPodAdded :: string where "K8sEventPodAdded = ''pod_added''"
definition K8sEventPodUpdated :: string where "K8sEventPodUpdated = ''pod_updated''"
definition K8sEventPodDeleted :: string where "K8sEventPodDeleted = ''pod_deleted''"

record k8s_event =
  kv_Type :: string
  kv_Pod :: "pod_info option"
  kv_Timestamp :: time

record k8s_integration =
  kn_nodeName :: string
  kn_connected :: bool
  kn_eventCh :: "k8s_event list"
  kn_podsWatched :: nat
  kn_eventsProcessed :: nat
  kn_connectAttempts :: nat
  kn_lastSyncTime :: time
  kn_lastError :: "string option"

record manager_config =
  mc_CRIEndpoint :: string
  mc_K8sNodeName :: string
  mc_PIDCacheSize :: int
  mc_PIDCacheTTL :: duration
  mc_ProcFSPath :: string

record manager =
  mg_config :: manager_config
  mg_pidCache :: pid_cache
  mg_criCache :: "addr cri_cache"
  mg_k8sCache :: k8s_cache
  mg_cri :: cri_integration
  mg_k8s :: k8s_integration
  mg_cgroupMap :: "(u64 \<times> string) list"
  mg_heap :: "container_info list"

text \<open>What the kernel shows under the configured path: the directory entries with their kind, and the two
  files per process; an unreadable command name is empty.\<close>

record procfs =
  pf_dir :: "(string \<times> bool) list option"
  pf_cgroup :: "u32 \<Rightarrow> string option"
  pf_comm :: "u32 \<Rightarrow> string"

definition detectCRIRuntime :: "string \<Rightarrow> string" where
  "detectCRIRuntime endpoint =
    (if str_contains endpoint ''containerd'' then ''containerd''
     else if str_contains endpoint ''crio'' then ''cri-o''
     else if str_contains endpoint ''docker'' then ''docker'' else ''unknown'')"

definition NewCRIIntegration :: "string \<Rightarrow> cri_integration" where
  "NewCRIIntegration endpoint =
    \<lparr>cn_endpoint = endpoint, cn_runtime = detectCRIRuntime endpoint, cn_connected = False, cn_eventCh = [],
     cn_containersListed = 0, cn_eventsProcessed = 0, cn_connectAttempts = 0, cn_lastListTime = 0,
     cn_lastConnectTime = 0, cn_lastError = None\<rparr>"

definition NewK8sIntegration :: "string \<Rightarrow> k8s_integration" where
  "NewK8sIntegration nodeName =
    \<lparr>kn_nodeName = nodeName, kn_connected = False, kn_eventCh = [], kn_podsWatched = 0, kn_eventsProcessed = 0,
     kn_connectAttempts = 0, kn_lastSyncTime = 0, kn_lastError = None\<rparr>"

definition NewManager :: "manager_config \<Rightarrow> manager" where
  "NewManager cfg =
    (let cfg = (if mc_ProcFSPath cfg = [] then cfg\<lparr>mc_ProcFSPath := ''/proc''\<rparr> else cfg);
         cfg = (if mc_PIDCacheSize cfg \<le> 0 then cfg\<lparr>mc_PIDCacheSize := 10000\<rparr> else cfg);
         cfg = (if mc_PIDCacheTTL cfg \<le> 0 then cfg\<lparr>mc_PIDCacheTTL := Seconds 300\<rparr> else cfg)
     in \<lparr>mg_config = cfg, mg_pidCache = NewPIDCache (mc_PIDCacheSize cfg) (mc_PIDCacheTTL cfg),
         mg_criCache = NewCRICache, mg_k8sCache = NewK8sCache (mc_K8sNodeName cfg),
         mg_cri = NewCRIIntegration (mc_CRIEndpoint cfg), mg_k8s = NewK8sIntegration (mc_K8sNodeName cfg),
         mg_cgroupMap = [], mg_heap = []\<rparr>)"

section \<open>Lookup\<close>

definition resolveFromProc :: "procfs \<Rightarrow> u32 \<Rightarrow> string" where
  "resolveFromProc fs pid = (case pf_cgroup fs pid of None \<Rightarrow> [] | Some dat \<Rightarrow> ExtractContainerID dat)"

definition cache_pid :: "time \<Rightarrow> u32 \<Rightarrow> string \<Rightarrow> manager \<Rightarrow> manager" where
  "cache_pid now pid cid m = m\<lparr>mg_pidCache := pc_Set now pid cid (mg_pidCache m)\<rparr>"

definition ResolveContainerID :: "procfs \<Rightarrow> time \<Rightarrow> u64 \<Rightarrow> u32 \<Rightarrow> manager \<Rightarrow> string \<times> manager" where
  "ResolveContainerID fs now cgroupID pid m =
    (let (containerID, pc) = pc_Get now pid (mg_pidCache m); m = m\<lparr>mg_pidCache := pc\<rparr> in
     if containerID \<noteq> [] then (containerID, m)
     else (case map_of (mg_cgroupMap m) cgroupID of
             Some containerID \<Rightarrow> (containerID, cache_pid now pid containerID m)
           | None \<Rightarrow>
               (let containerID = resolveFromProc fs pid
                in (containerID, if containerID \<noteq> [] then cache_pid now pid containerID m else m))))"

text \<open>The container record behind an identifier, with the access noted.\<close>

definition cri_get :: "time \<Rightarrow> string \<Rightarrow> manager \<Rightarrow> addr option \<times> manager" where
  "cri_get now containerID m = (let (a, cc) = cc_Get now containerID (mg_criCache m) in (a, m\<lparr>mg_criCache := cc\<rparr>))"

definition GetContainerInfo :: "time \<Rightarrow> string \<Rightarrow> manager \<Rightarrow> container_info option \<times> manager" where
  "GetContainerInfo now containerID m =
    (let (a, m) = cri_get now containerID m in (map_option (\<lambda>a. mg_heap m ! a) a, m))"

definition ContainerCount :: "manager \<Rightarrow> nat" where
  "ContainerCount m = cc_Size (mg_criCache m)"

section \<open>Registration\<close>

definition RegisterContainer :: "time \<Rightarrow> addr \<Rightarrow> manager \<Rightarrow> manager" where
  "RegisterContainer now a m =
    (let info = mg_heap m ! a;
         m = m\<lparr>mg_criCache := cc_Set now (ci_ID info) a (mg_criCache m)\<rparr>
     in if ci_CgroupID info \<noteq> 0
        then m\<lparr>mg_cgroupMap := AList.update (ci_CgroupID info) (ci_ID info) (mg_cgroupMap m)\<rparr> else m)"

definition UnregisterContainer :: "time \<Rightarrow> string \<Rightarrow> manager \<Rightarrow> manager" where
  "UnregisterContainer now containerID m =
    (let (a, m) = cri_get now containerID m;
         m = (case a of
                Some a \<Rightarrow> if ci_CgroupID (mg_heap m ! a) \<noteq> 0
                          then m\<lparr>mg_cgroupMap := AList.delete (ci_CgroupID (mg_heap m ! a)) (mg_cgroupMap m)\<rparr> else m
              | None \<Rightarrow> m)
     in m\<lparr>mg_criCache := cc_Delete containerID (mg_criCache m)\<rparr>)"

text \<open>\<open>discoverContainers\<close>: its loop over the directory entries.\<close>

fun discover_loop :: "procfs \<Rightarrow> time \<Rightarrow> (string \<times> bool) list \<Rightarrow> manager \<Rightarrow> manager" where
  "discover_loop fs now [] m = m"
| "discover_loop fs now ((nm, isDir) # es) m =
     (if \<not> isDir then discover_loop fs now es m
      else (case parsePID nm of
              None \<Rightarrow> discover_loop fs now es m
            | Some pid \<Rightarrow>
                (let containerID = resolveFromProc fs pid
                 in discover_loop fs now es (if containerID \<noteq> [] then cache_pid now pid containerID m else m))))"

definition discoverContainers :: "procfs \<Rightarrow> time \<Rightarrow> manager \<Rightarrow> manager" where
  "discoverContainers fs now m = (case pf_dir fs of None \<Rightarrow> m | Some es \<Rightarrow> discover_loop fs now es m)"

section \<open>Pods\<close>

definition enrich_info :: "pod_info \<Rightarrow> container_info \<Rightarrow> container_info" where
  "enrich_info pod info = info\<lparr>ci_PodName := po_Name pod, ci_Namespace := po_Namespace pod,
     ci_ServiceAccount := po_ServiceAccount pod, ci_Labels := ci_Labels info ++ po_Labels pod\<rparr>"

definition enrich_container :: "time \<Rightarrow> pod_info \<Rightarrow> string \<Rightarrow> manager \<Rightarrow> manager" where
  "enrich_container now pod containerID m =
    (case cri_get now containerID m of
       (None, m) \<Rightarrow> m
     | (Some a, m) \<Rightarrow>
         m\<lparr>mg_heap := (mg_heap m)[a := enrich_info pod (mg_heap m ! a)],
           mg_criCache := cc_Set now containerID a (mg_criCache m)\<rparr>)"

definition HandlePodAdded :: "time \<Rightarrow> pod_info \<Rightarrow> manager \<Rightarrow> manager" where
  "HandlePodAdded now pod m = fold (enrich_container now pod) (po_Containers pod) m"

definition HandlePodUpdated :: "time \<Rightarrow> pod_info \<Rightarrow> manager \<Rightarrow> manager" where
  "HandlePodUpdated now pod m = HandlePodAdded now pod m"

definition HandlePodDeleted :: "pod_info \<Rightarrow> manager \<Rightarrow> manager" where
  "HandlePodDeleted pod m = m"

section \<open>Event consumers\<close>

text \<open>One iteration of \<open>consumeCRIEvents\<close> on a received event, and the receive.\<close>

definition handle_cri_event :: "time \<Rightarrow> cri_event \<Rightarrow> manager \<Rightarrow> manager" where
  "handle_cri_event now ev m =
    (case cv_Container ev of
       None \<Rightarrow> m
     | Some a \<Rightarrow>
         if cv_Type ev = CRIEventContainerStart then RegisterContainer now a m
         else if cv_Type ev = CRIEventContainerStop then UnregisterContainer now (ci_ID (mg_heap m ! a)) m
         else if cv_Type ev = CRIEventContainerUpdate then RegisterContainer now a m
         else m)"

definition consumeCRIEvent :: "time \<Rightarrow> manager \<Rightarrow> manager" where
  "consumeCRIEvent now m =
    (case cn_eventCh (mg_cri m) of
       [] \<Rightarrow> m
     | ev # evs \<Rightarrow> handle_cri_event now ev (m\<lparr>mg_cri := (mg_cri m)\<lparr>cn_eventCh := evs\<rparr>\<rparr>))"

definition handle_k8s_event :: "time \<Rightarrow> k8s_event \<Rightarrow> manager \<Rightarrow> manager" where
  "handle_k8s_event now ev m =
    (case kv_Pod ev of
       None \<Rightarrow> m
     | Some pod \<Rightarrow>
         if kv_Type ev = K8sEventPodAdded then HandlePodAdded now pod m
         else if kv_Type ev = K8sEventPodUpdated then HandlePodUpdated now pod m
         else if kv_Type ev = K8sEventPodDeleted then HandlePodDeleted pod m
         else m)"

definition consumeK8sEvent :: "time \<Rightarrow> manager \<Rightarrow> manager" where
  "consumeK8sEvent now m =
    (case kn_eventCh (mg_k8s m) of
       [] \<Rightarrow> m
     | ev # evs \<Rightarrow> handle_k8s_event now ev (m\<lparr>mg_k8s := (mg_k8s m)\<lparr>kn_eventCh := evs\<rparr>\<rparr>))"

section \<open>Pruning\<close>

text \<open>The loop over the cgroup map: an entry whose container is unknown goes.\<close>

definition prune_cgroup :: "time \<Rightarrow> u64 \<times> string \<Rightarrow> nat \<times> manager \<Rightarrow> nat \<times> manager" where
  "prune_cgroup now p nm =
    (case cri_get now (snd p) (snd nm) of
       (None, m) \<Rightarrow> (fst nm + 1, m\<lparr>mg_cgroupMap := AList.delete (fst p) (mg_cgroupMap m)\<rparr>)
     | (Some a, m) \<Rightarrow> (fst nm, m))"

definition pruneCgroupMap :: "(u64 \<times> string) perm \<Rightarrow> time \<Rightarrow> manager \<Rightarrow> manager" where
  "pruneCgroupMap ord now m = snd (fold (prune_cgroup now) (ord (mg_cgroupMap m)) (0, m))"

record prune_orders =
  pr_pids :: "(u32 \<times> (u32, pid_entry) node) perm"
  pr_containers :: "(string \<times> (string, addr cri_entry) node) perm"
  pr_cgroups :: "(u64 \<times> string) perm"

definition PruneCaches :: "prune_orders \<Rightarrow> time \<Rightarrow> duration \<Rightarrow> manager \<Rightarrow> nat \<times> manager" where
  "PruneCaches ord now idleThreshold m =
    (let (n1, pc) = pc_Prune (pr_pids ord) now idleThreshold (mg_pidCache m);
         (n2, cc) = cc_Prune (pr_containers ord) now idleThreshold (mg_criCache m);
         m = m\<lparr>mg_pidCache := pc, mg_criCache := cc\<rparr>;
         (n3, m) = fold (prune_cgroup now) (pr_cgroups ord (mg_cgroupMap m)) (0, m)
     in (n1 + n2 + n3, m))"

text \<open>A tick of \<open>reapPIDCache\<close>.\<close>

definition reapPIDCache :: "prune_orders \<Rightarrow> time \<Rightarrow> manager \<Rightarrow> manager" where
  "reapPIDCache ord now m =
    pruneCgroupMap (pr_cgroups ord) now (m\<lparr>mg_pidCache := pc_Reap (pr_pids ord) now (mg_pidCache m)\<rparr>)"

section \<open>The CRI integration\<close>

text \<open>\<open>ConnectWithContext\<close>, with the outcomes of \<open>os.Stat\<close> and of the dial (\<open>Connect\<close> differs in the texts).\<close>

definition ConnectWithContext :: "string option \<Rightarrow> string option \<Rightarrow> time \<Rightarrow> cri_integration \<Rightarrow> string option \<times> cri_integration" where
  "ConnectWithContext stat dial now c =
    (let c = c\<lparr>cn_connectAttempts := cn_connectAttempts c + 1, cn_runtime := detectCRIRuntime (cn_endpoint c)\<rparr> in
     case stat of
       Some err \<Rightarrow> (let e = ''CRI socket not accessible: '' @ err in (Some e, c\<lparr>cn_lastError := Some e\<rparr>))
     | None \<Rightarrow>
         (case dial of
            Some err \<Rightarrow> (let e = ''failed to dial CRI socket: '' @ err in (Some e, c\<lparr>cn_lastError := Some e\<rparr>))
          | None \<Rightarrow> (None, c\<lparr>cn_connected := True, cn_lastConnectTime := now, cn_lastError := None\<rparr>)))"

definition CRI_Connect :: "string option \<Rightarrow> string option \<Rightarrow> time \<Rightarrow> cri_integration \<Rightarrow> string option \<times> cri_integration" where
  "CRI_Connect stat dial now c =
    (let c = c\<lparr>cn_connectAttempts := cn_connectAttempts c + 1, cn_runtime := detectCRIRuntime (cn_endpoint c)\<rparr> in
     case stat of
       Some err \<Rightarrow> (let e = ''CRI socket not accessible at '' @ cn_endpoint c @ '': '' @ err in (Some e, c\<lparr>cn_lastError := Some e\<rparr>))
     | None \<Rightarrow>
         (case dial of
            Some err \<Rightarrow> (let e = ''failed to dial CRI socket '' @ cn_endpoint c @ '': '' @ err in (Some e, c\<lparr>cn_lastError := Some e\<rparr>))
          | None \<Rightarrow> (None, c\<lparr>cn_connected := True, cn_lastConnectTime := now, cn_lastError := None\<rparr>)))"

definition CRI_Disconnect :: "cri_integration \<Rightarrow> cri_integration" where
  "CRI_Disconnect c = c\<lparr>cn_connected := False\<rparr>"

definition listed_info :: "procfs \<Rightarrow> u32 \<Rightarrow> string \<Rightarrow> string \<Rightarrow> container_info" where
  "listed_info fs pid dat containerID =
    (let comm = trim_space (pf_comm fs pid) in
     \<lparr>ci_ID = containerID, ci_Name = ''container-'' @ take 12 containerID, ci_Image = ''unknown'', ci_ImageDigest = [],
      ci_PodName = [], ci_Namespace = [], ci_ServiceAccount = [],
      ci_Labels = (if comm \<noteq> [] then [''process_name'' \<mapsto> comm] else Map.empty),
      ci_StartedAt = 0, ci_Privileged = False, ci_Capabilities = [], ci_CgroupID = extractCgroupID dat\<rparr>)"

text \<open>The body of the loop of \<open>listContainersFromProc\<close>: what one directory entry contributes.\<close>

definition list_entry :: "procfs \<Rightarrow> string \<times> bool \<Rightarrow> container_info list" where
  "list_entry fs e =
    (if \<not> snd e then []
     else (case parsePID (fst e) of
             None \<Rightarrow> []
           | Some pid \<Rightarrow>
               (case pf_cgroup fs pid of
                  None \<Rightarrow> []
                | Some dat \<Rightarrow>
                    (let containerID = ExtractContainerID dat
                     in if containerID = [] then [] else [listed_info fs pid dat containerID]))))"

definition listContainersFromProc :: "procfs \<Rightarrow> time \<Rightarrow> cri_integration \<Rightarrow> container_info list option \<times> cri_integration" where
  "listContainersFromProc fs now c =
    (case pf_dir fs of
       None \<Rightarrow> (None, c)
     | Some es \<Rightarrow>
         (let containers = concat (map (list_entry fs) es)
          in (Some containers, c\<lparr>cn_containersListed := length containers, cn_lastListTime := now\<rparr>)))"

definition ListContainers :: "procfs \<Rightarrow> time \<Rightarrow> cri_integration \<Rightarrow> container_info list option \<times> cri_integration" where
  "ListContainers fs now c =
    (if \<not> cn_connected c then listContainersFromProc fs now c else listContainersFromProc fs now c)"

text \<open>The send that never blocks.\<close>

definition send_cri :: "cri_event \<Rightarrow> manager \<Rightarrow> manager" where
  "send_cri ev m =
    (let c = mg_cri m in
     if length (cn_eventCh c) < 256 then m\<lparr>mg_cri := c\<lparr>cn_eventCh := cn_eventCh c @ [ev]\<rparr>\<rparr> else m)"

definition list_into_heap :: "procfs \<Rightarrow> time \<Rightarrow> manager \<Rightarrow> addr list option \<times> manager" where
  "list_into_heap fs now m =
    (case ListContainers fs now (mg_cri m) of
       (None, c) \<Rightarrow> (None, m\<lparr>mg_cri := c\<rparr>)
     | (Some containers, c) \<Rightarrow>
         (Some [length (mg_heap m)..<length (mg_heap m) + length containers],
          m\<lparr>mg_cri := c, mg_heap := mg_heap m @ containers\<rparr>))"

definition full_scan_step :: "time \<Rightarrow> addr \<Rightarrow> manager \<Rightarrow> manager" where
  "full_scan_step now a m =
    send_cri \<lparr>cv_Type = CRIEventContainerStart, cv_Container = Some a, cv_Timestamp = now\<rparr> (RegisterContainer now a m)"

definition fullContainerScan :: "procfs \<Rightarrow> time \<Rightarrow> manager \<Rightarrow> manager" where
  "fullContainerScan fs now m =
    (case list_into_heap fs now m of
       (None, m) \<Rightarrow> m
     | (Some as, m) \<Rightarrow> fold (full_scan_step now) as m)"

definition note_cri_event :: "manager \<Rightarrow> manager" where
  "note_cri_event m = m\<lparr>mg_cri := (mg_cri m)\<lparr>cn_eventsProcessed := cn_eventsProcessed (mg_cri m) + 1\<rparr>\<rparr>"

definition new_scan_step :: "time \<Rightarrow> addr \<Rightarrow> manager \<Rightarrow> manager" where
  "new_scan_step now a m =
    (case cri_get now (ci_ID (mg_heap m ! a)) m of
       (Some old, m) \<Rightarrow> m
     | (None, m) \<Rightarrow>
         send_cri \<lparr>cv_Type = CRIEventContainerStart, cv_Container = Some a, cv_Timestamp = now\<rparr>
           (note_cri_event (RegisterContainer now a m)))"

definition gone_scan_step :: "time \<Rightarrow> string set \<Rightarrow> string \<Rightarrow> manager \<Rightarrow> manager" where
  "gone_scan_step now current cid m =
    (if cid \<in> current then m
     else (case cri_get now cid m of
             (None, m) \<Rightarrow> m
           | (Some a, m) \<Rightarrow>
               send_cri \<lparr>cv_Type = CRIEventContainerStop, cv_Container = Some a, cv_Timestamp = now\<rparr>
                 (note_cri_event (UnregisterContainer now cid m))))"

definition incrementalContainerScan :: "string perm \<Rightarrow> procfs \<Rightarrow> time \<Rightarrow> manager \<Rightarrow> manager" where
  "incrementalContainerScan ord fs now m =
    (case list_into_heap fs now m of
       (None, m) \<Rightarrow> m
     | (Some as, m) \<Rightarrow>
         (let currentContainers = (\<lambda>a. ci_ID (mg_heap m ! a)) ` set as;
              m = fold (new_scan_step now) as m
          in fold (gone_scan_step now currentContainers) (GetAllContainerIDs ord (mg_criCache m)) m))"

text \<open>\<open>StartEventStream\<close> up to the polling goroutine, whose first act is the full scan.\<close>

definition StartEventStream :: "string option \<Rightarrow> string option \<Rightarrow> time \<Rightarrow> manager \<Rightarrow> manager" where
  "StartEventStream stat dial now m =
    (if \<not> cn_connected (mg_cri m) then m\<lparr>mg_cri := snd (ConnectWithContext stat dial now (mg_cri m))\<rparr> else m)"

record cri_stats =
  ct_Runtime :: string
  ct_Connected :: bool
  ct_Endpoint :: string
  ct_ContainersListed :: nat
  ct_EventsProcessed :: nat
  ct_ConnectAttempts :: nat
  ct_LastConnectTime :: time
  ct_LastListTime :: time
  ct_LastError :: string

definition cri_Stats :: "cri_integration \<Rightarrow> cri_stats" where
  "cri_Stats c =
    \<lparr>ct_Runtime = cn_runtime c, ct_Connected = cn_connected c, ct_Endpoint = cn_endpoint c,
     ct_ContainersListed = cn_containersListed c, ct_EventsProcessed = cn_eventsProcessed c,
     ct_ConnectAttempts = cn_connectAttempts c, ct_LastConnectTime = cn_lastConnectTime c,
     ct_LastListTime = cn_lastListTime c,
     ct_LastError = (case cn_lastError c of None \<Rightarrow> [] | Some e \<Rightarrow> e)\<rparr>"

section \<open>The K8s integration\<close>

definition isRunningInK8s :: "bool \<Rightarrow> string \<Rightarrow> bool" where
  "isRunningInK8s token_file service_host = (if token_file then True else service_host \<noteq> [])"

definition connectToAPIServer :: "string \<Rightarrow> k8s_integration \<Rightarrow> string option \<times> k8s_integration" where
  "connectToAPIServer service_host k =
    (let k = k\<lparr>kn_connectAttempts := kn_connectAttempts k + 1\<rparr> in
     if service_host = []
     then (Some ''KUBERNETES_SERVICE_HOST not set'', k\<lparr>kn_lastError := Some ''KUBERNETES_SERVICE_HOST not set''\<rparr>)
     else (None, k\<lparr>kn_connected := True, kn_lastError := None\<rparr>))"

definition trim_slash :: "string \<Rightarrow> string" where
  "trim_slash s = rev (dropWhile (\<lambda>c. c = CHR ''/'') (rev (dropWhile (\<lambda>c. c = CHR ''/'') s)))"

text \<open>The loop over the segments of a kubepods path: pod identifier, container and QoS class.\<close>

definition pod_segment :: "string \<Rightarrow> string \<times> string \<times> string \<Rightarrow> string \<times> string \<times> string" where
  "pod_segment seg = (\<lambda>(podUID, containerID, qosClass).
    if has_prefix seg ''pod'' \<or> has_prefix seg ''Pod'' then (trim_prefix (trim_prefix seg ''pod'') ''Pod'', containerID, qosClass)
    else if 12 \<le> length seg \<and> isHexString seg then (podUID, seg, qosClass)
    else if str_contains seg ''burstable'' \<or> str_contains seg ''besteffort'' then (podUID, containerID, seg)
    else (podUID, containerID, qosClass))"

definition pod_segments :: "string \<Rightarrow> string \<times> string \<times> string" where
  "pod_segments path = fold pod_segment (split_on (CHR ''/'') (trim_slash path)) ([], [], [])"

definition minimal_pod :: "string \<Rightarrow> string \<Rightarrow> string \<Rightarrow> pod_info" where
  "minimal_pod podUID containerID qosClass =
    \<lparr>po_Name = ''pod-'' @ (if 8 < length podUID then take 8 podUID else podUID), po_Namespace = ''default'',
     po_ServiceAccount = ''default'', po_Labels = (if qosClass \<noteq> [] then [''qosClass'' \<mapsto> qosClass] else Map.empty),
     po_Containers = [containerID]\<rparr>"

definition enrich_pod :: "container_info \<Rightarrow> pod_info \<Rightarrow> pod_info" where
  "enrich_pod info pod =
    (let pod = (if ci_PodName info \<noteq> [] then pod\<lparr>po_Name := ci_PodName info\<rparr> else pod);
         pod = (if ci_Namespace info \<noteq> [] then pod\<lparr>po_Namespace := ci_Namespace info\<rparr> else pod);
         pod = (if ci_ServiceAccount info \<noteq> [] then pod\<lparr>po_ServiceAccount := ci_ServiceAccount info\<rparr> else pod)
     in pod\<lparr>po_Labels := po_Labels pod ++ ci_Labels info\<rparr>)"

fun pod_loop :: "time \<Rightarrow> string list \<Rightarrow> manager \<Rightarrow> pod_info option \<times> manager" where
  "pod_loop now [] m = (None, m)"
| "pod_loop now (line0 # lines) m =
     (let line = trim_space line0 in
      if line = [] then pod_loop now lines m
      else (case third_part line of
              None \<Rightarrow> pod_loop now lines m
            | Some path \<Rightarrow>
                if \<not> str_contains path ''kubepods'' then pod_loop now lines m
                else
                  (let (podUID, containerID, qosClass) = pod_segments path in
                   if containerID = [] then pod_loop now lines m
                   else
                     (let (info, m) = GetContainerInfo now containerID m;
                          pod = minimal_pod podUID containerID qosClass
                      in (Some (case info of None \<Rightarrow> pod | Some info \<Rightarrow> enrich_pod info pod), m)))))"

definition extractPodInfoFromCgroup :: "time \<Rightarrow> string \<Rightarrow> manager \<Rightarrow> pod_info option \<times> manager" where
  "extractPodInfoFromCgroup now cgroupData m = pod_loop now (split_on (CHR 0x0A) cgroupData) m"

text \<open>The pod found behind one directory entry is cached and announced; the count is of the
  announcements the channel took.\<close>

definition announce_pod :: "time \<Rightarrow> pod_info \<Rightarrow> nat \<times> manager \<Rightarrow> nat \<times> manager" where
  "announce_pod now pod nm =
    (let m = snd nm;
         m = m\<lparr>mg_k8sCache := kc_Set (po_Namespace pod @ ''/'' @ po_Name pod) pod (mg_k8sCache m)\<rparr>;
         k = mg_k8s m
     in if length (kn_eventCh k) < 256
        then (fst nm + 1, m\<lparr>mg_k8s := k\<lparr>kn_eventCh := kn_eventCh k @
               [\<lparr>kv_Type = K8sEventPodAdded, kv_Pod = Some pod, kv_Timestamp = now\<rparr>]\<rparr>\<rparr>)
        else (fst nm, m))"

definition discover_pod :: "procfs \<Rightarrow> time \<Rightarrow> string \<times> bool \<Rightarrow> nat \<times> manager \<Rightarrow> nat \<times> manager" where
  "discover_pod fs now e nm =
    (if \<not> snd e then nm
     else (case parsePID (fst e) of
             None \<Rightarrow> nm
           | Some pid \<Rightarrow>
               (case pf_cgroup fs pid of
                  None \<Rightarrow> nm
                | Some dat \<Rightarrow>
                    (case extractPodInfoFromCgroup now dat (snd nm) of
                       (None, m) \<Rightarrow> (fst nm, m)
                     | (Some pod, m) \<Rightarrow> announce_pod now pod (fst nm, m)))))"

definition discoverPodsFromCgroups :: "procfs \<Rightarrow> time \<Rightarrow> manager \<Rightarrow> manager" where
  "discoverPodsFromCgroups fs now m =
    (case pf_dir fs of
       None \<Rightarrow> m
     | Some es \<Rightarrow>
         (let (podCount, m) = fold (discover_pod fs now) es (0, m)
          in m\<lparr>mg_k8s := (mg_k8s m)\<lparr>kn_podsWatched := podCount, kn_lastSyncTime := now\<rparr>\<rparr>))"

text \<open>\<open>StartWatch\<close> up to the polling loop, which every path enters.\<close>

definition StartWatch :: "bool \<Rightarrow> string \<Rightarrow> manager \<Rightarrow> manager" where
  "StartWatch token_file service_host m =
    (if \<not> isRunningInK8s token_file service_host then m
     else m\<lparr>mg_k8s := snd (connectToAPIServer service_host (mg_k8s m))\<rparr>)"

definition podToPodInfo :: "string \<Rightarrow> string \<Rightarrow> string \<Rightarrow> (string \<rightharpoonup> string) \<Rightarrow> string list \<Rightarrow> pod_info" where
  "podToPodInfo podNamespace podName serviceAccount labels containerIDs =
    \<lparr>po_Name = podName, po_Namespace = podNamespace, po_ServiceAccount = serviceAccount, po_Labels = labels,
     po_Containers = containerIDs\<rparr>"

text \<open>\<open>strings.LastIndex(s, "://")\<close>, from the end.\<close>

fun after_last_scheme :: "string \<Rightarrow> nat \<Rightarrow> string" where
  "after_last_scheme s 0 = (if has_prefix s ''://'' then drop 3 s else s)"
| "after_last_scheme s (Suc i) = (if has_prefix (drop (Suc i) s) ''://'' then drop (Suc i + 3) s else after_last_scheme s i)"

definition ExtractContainerIDFromPodStatus :: "string \<Rightarrow> string" where
  "ExtractContainerIDFromPodStatus containerIDField = after_last_scheme containerIDField (length containerIDField)"

record k8s_stats =
  kt_NodeName :: string
  kt_Connected :: bool
  kt_PodsWatched :: nat
  kt_EventsProcessed :: nat
  kt_ConnectAttempts :: nat
  kt_LastSyncTime :: time
  kt_LastError :: string

definition k8s_Stats :: "k8s_integration \<Rightarrow> k8s_stats" where
  "k8s_Stats k =
    \<lparr>kt_NodeName = kn_nodeName k, kt_Connected = kn_connected k, kt_PodsWatched = kn_podsWatched k,
     kt_EventsProcessed = kn_eventsProcessed k, kt_ConnectAttempts = kn_connectAttempts k,
     kt_LastSyncTime = kn_lastSyncTime k, kt_LastError = (case kn_lastError k of None \<Rightarrow> [] | Some e \<Rightarrow> e)\<rparr>"

end
