(* ===== verification/Pipeline.thy ===== *)
theory Pipeline
  imports Metrics Anomaly Ai_Connector Response Coalescer Correlate Net_Enforcer Enrichment
begin

text \<open>
  \<open>pkg/pipeline/pipeline.go\<close>: an event on its way through enrichment, anomaly scoring, rule evaluation,
  routing, enforcement and correlation. The state holds the states of all components. What comes from
  outside within the processing of one event is one record, \<open>world\<close>: the clock (one reading before and
  one after an enforcement), the file system, the kernel, the map updater of the network enforcer, the
  triage service, the orders of the ranges over maps and the printing of a number with two decimals. A
  panic of a callee is \<open>None\<close>. The suggestion goroutines only log; what they are handed is kept in a
  list. Log lines have no effect.
\<close>

section \<open>State\<close>

record ai_event =
  ai_EventType :: string
  ai_ProcessName :: string
  ai_PID :: u32
  ai_Category :: string
  ai_Timestamp :: time
  ai_Details :: "string \<rightharpoonup> string"

record incident =
  in_RuleID :: string
  in_Events :: "ai_event list"
  in_ContainerImage :: string
  in_Namespace :: string
  in_Timestamp :: time

record ('u, 't) pipeline_config =
  pg_RuleEngine :: "engine option"
  pg_Enricher :: "manager option"
  pg_AlertEmitter :: "test_emitter option"
  pg_MetricsExporter :: "metrics option"
  pg_NetworkEnforcer :: "'u net_enforcer option"
  pg_Correlator :: "correlator option"
  pg_AIConnector :: "'t option"
  pg_Mode :: string
  pg_AnomalyThreshold :: real
  pg_AnomalyEnabled :: bool
  pg_AIRuleSuggester :: bool
  pg_SuggestionMinConfidence :: real
  pg_TriageSuppressThreshold :: real
  pg_TriageDowngradeThreshold :: real
  pg_TriageAdjustThreshold :: real
  pg_LearningMode :: bool
  pg_MinEventsForBaseline :: int
  pg_Workers :: int
  pg_BatchSize :: int
  pg_CoalesceWindow :: duration

record ('u, 't) pipeline =
  pi_workers :: int
  pi_mode :: string
  pi_ruleEngine :: "engine option"
  pi_enricher :: "manager option"
  pi_alertEmit :: "test_emitter option"
  pi_metrics :: "metrics option"
  pi_coalescer :: coalescer
  pi_response :: response_actor
  pi_netEnforcer :: "'u net_enforcer option"
  pi_correlator :: "correlator option"
  pi_aiTrier :: "'t option"
  pi_aiSuggester :: bool
  pi_incidents :: "incident list"
  pi_suggestionMinConfidence :: real
  pi_triageSuppress :: real
  pi_triageDowngrade :: real
  pi_triageAdjust :: real
  pi_learningMode :: bool
  pi_minEvents :: int
  pi_eventCounts :: "string \<rightharpoonup> int"
  pi_extractors :: "string \<rightharpoonup> feature_extractor"
  pi_baselines :: "string \<rightharpoonup> ngram_baseline"
  pi_anomalyThreshold :: real
  pi_anomalyEnabled :: bool
  pi_eventsProcessed :: u64
  pi_alertsEmitted :: u64
  pi_enforcementsExec :: u64

record ('u, 't) world =
  wd_now :: time
  wd_fin :: time
  wd_fs :: procfs
  wd_kernel :: kernel
  wd_ops :: "'u updater"
  wd_triage :: "string \<Rightarrow> string \<Rightarrow> string \<Rightarrow> string \<Rightarrow> 't \<Rightarrow> (real \<times> string \<times> string) \<times> 't"
  wd_orders :: range_orders
  wd_format :: format_order
  wd_fixed2 :: "real \<Rightarrow> string"

text \<open>\<open>pid\<close> is the agent's own process identifier, which the response actor reads.\<close>

definition NewPipeline :: "int \<Rightarrow> ('u, 't) pipeline_config \<Rightarrow> ('u, 't) pipeline" where
  "NewPipeline pid cfg =
    (let workers = (if pg_Workers cfg \<le> 0 then 4 else pg_Workers cfg);
         window = (if pg_CoalesceWindow cfg \<le> 0 then Seconds 5 else pg_CoalesceWindow cfg)
     in \<lparr>pi_workers = workers, pi_mode = pg_Mode cfg, pi_ruleEngine = pg_RuleEngine cfg, pi_enricher = pg_Enricher cfg,
         pi_alertEmit = pg_AlertEmitter cfg, pi_metrics = pg_MetricsExporter cfg, pi_coalescer = NewCoalescer window,
         pi_response = NewResponseActor pid (pg_Mode cfg), pi_netEnforcer = pg_NetworkEnforcer cfg,
         pi_correlator = pg_Correlator cfg, pi_aiTrier = None, pi_aiSuggester = pg_AIRuleSuggester cfg, pi_incidents = [],
         pi_suggestionMinConfidence = (if pg_SuggestionMinConfidence cfg \<le> 0 then 5 / 10 else pg_SuggestionMinConfidence cfg),
         pi_triageSuppress = (if pg_TriageSuppressThreshold cfg \<le> 0 then 9 / 10 else pg_TriageSuppressThreshold cfg),
         pi_triageDowngrade = (if pg_TriageDowngradeThreshold cfg \<le> 0 then 7 / 10 else pg_TriageDowngradeThreshold cfg),
         pi_triageAdjust = (if pg_TriageAdjustThreshold cfg \<le> 0 then 5 / 10 else pg_TriageAdjustThreshold cfg),
         pi_learningMode = True,
         pi_minEvents = (if pg_MinEventsForBaseline cfg \<le> 0 then 100 else pg_MinEventsForBaseline cfg),
         pi_eventCounts = Map.empty, pi_extractors = Map.empty, pi_baselines = Map.empty,
         pi_anomalyThreshold = (if pg_AnomalyThreshold cfg \<le> 0 then 8 / 10 else pg_AnomalyThreshold cfg),
         pi_anomalyEnabled = True, pi_eventsProcessed = 0, pi_alertsEmitted = 0, pi_enforcementsExec = 0\<rparr>)"

section \<open>Setters\<close>

definition pi_SetMode :: "string \<Rightarrow> ('u, 't) pipeline \<Rightarrow> ('u, 't) pipeline" where
  "pi_SetMode mode p = p\<lparr>pi_mode := mode, pi_response := SetMode mode (pi_response p)\<rparr>"

definition SetNetworkEnforcer :: "'u net_enforcer option \<Rightarrow> ('u, 't) pipeline \<Rightarrow> ('u, 't) pipeline" where
  "SetNetworkEnforcer ne p = p\<lparr>pi_netEnforcer := ne\<rparr>"

definition SetCorrelator :: "correlator option \<Rightarrow> ('u, 't) pipeline \<Rightarrow> ('u, 't) pipeline" where
  "SetCorrelator c p = p\<lparr>pi_correlator := c\<rparr>"

definition SetAIAlertTrier :: "'t option \<Rightarrow> ('u, 't) pipeline \<Rightarrow> ('u, 't) pipeline" where
  "SetAIAlertTrier trier p = p\<lparr>pi_aiTrier := trier\<rparr>"

definition SetAIRuleSuggester :: "bool \<Rightarrow> ('u, 't) pipeline \<Rightarrow> ('u, 't) pipeline" where
  "SetAIRuleSuggester suggester p = p\<lparr>pi_aiSuggester := suggester\<rparr>"

definition SetBaseline :: "string \<Rightarrow> ngram_baseline \<Rightarrow> ('u, 't) pipeline \<Rightarrow> ('u, 't) pipeline" where
  "SetBaseline img baseline p = p\<lparr>pi_baselines := (pi_baselines p)(img \<mapsto> baseline)\<rparr>"

definition SetAnomalyEnabled :: "bool \<Rightarrow> ('u, 't) pipeline \<Rightarrow> ('u, 't) pipeline" where
  "SetAnomalyEnabled enabled p = p\<lparr>pi_anomalyEnabled := enabled\<rparr>"

definition SetLearningMode :: "bool \<Rightarrow> ('u, 't) pipeline \<Rightarrow> ('u, 't) pipeline" where
  "SetLearningMode enabled p = p\<lparr>pi_learningMode := enabled\<rparr>"

definition SetTriageThresholds :: "real \<Rightarrow> real \<Rightarrow> real \<Rightarrow> ('u, 't) pipeline \<Rightarrow> ('u, 't) pipeline" where
  "SetTriageThresholds suppress downgrade adjust p =
    (let p = (if suppress > 0 then p\<lparr>pi_triageSuppress := suppress\<rparr> else p);
         p = (if downgrade > 0 then p\<lparr>pi_triageDowngrade := downgrade\<rparr> else p)
     in if adjust > 0 then p\<lparr>pi_triageAdjust := adjust\<rparr> else p)"

definition add_engine_rule :: "compiled_rule \<Rightarrow> correlator \<Rightarrow> correlator" where
  "add_engine_rule rule c =
    (case cr_Correlate rule of
       None \<Rightarrow> c
     | Some spec \<Rightarrow> corr_AddRule
         \<lparr>sp_RuleID = cr_ID rule, sp_Window = cs_Window spec, sp_Signals = cs_Signals spec,
          sp_Logic = (if cs_Logic spec = ''any'' then LogicAny else LogicAll), sp_GroupBy = cs_GroupBy spec\<rparr> c)"

definition InitCorrelationRules :: "('u, 't) pipeline \<Rightarrow> ('u, 't) pipeline" where
  "InitCorrelationRules p =
    (case (pi_correlator p, pi_ruleEngine p) of
       (Some correl, Some e) \<Rightarrow>
         p\<lparr>pi_correlator := Some (fold corr_AddRule DefaultCorrelationRules (fold add_engine_rule (CorrelationRules e) correl))\<rparr>
     | _ \<Rightarrow> p)"

section \<open>Alerts\<close>

text \<open>An alert on its way to the emitter, counted whether or not there is one.\<close>

definition deliver :: "alert \<Rightarrow> ('u, 't) pipeline \<Rightarrow> ('u, 't) pipeline" where
  "deliver a p = p\<lparr>pi_alertEmit := map_option (te_Emit a) (pi_alertEmit p), pi_alertsEmitted := pi_alertsEmitted p + 1\<rparr>"

definition suggest :: "incident \<Rightarrow> ('u, 't) pipeline \<Rightarrow> ('u, 't) pipeline" where
  "suggest incd p = (if pi_aiSuggester p then p\<lparr>pi_incidents := pi_incidents p @ [incd]\<rparr> else p)"

definition on_metrics :: "(metrics \<Rightarrow> metrics) \<Rightarrow> ('u, 't) pipeline \<Rightarrow> ('u, 't) pipeline" where
  "on_metrics f p = p\<lparr>pi_metrics := map_option f (pi_metrics p)\<rparr>"

definition event_alert :: "time \<Rightarrow> enriched_event \<Rightarrow> alert" where
  "event_alert now event =
    (let raw = ev_RawEvent event in
     zero_alert\<lparr>al_Timestamp := now, al_ProcessName := CommString raw, al_PID := PID raw, al_PPID := PPID raw,
       al_UID := UID raw, al_GID := GID raw, al_Category := CategoryString raw, al_EventType := EventTypeString raw,
       al_ContainerID := ev_ContainerID event, al_ContainerName := ev_ContainerName event,
       al_ContainerImage := ev_ContainerImage event, al_PodName := ev_PodName event, al_Namespace := ev_Namespace event\<rparr>)"

definition alert_details :: "scarlet_event \<Rightarrow> alert \<Rightarrow> alert" where
  "alert_details raw a =
    (if Category raw = CatProcess then a\<lparr>al_Filename := Filename raw, al_CmdLine := Args raw\<rparr>
     else if Category raw = CatFile then
       a\<lparr>al_FilePath := FilePath raw, al_FileFlags := fp_Flags (PayFile raw), al_FileMode := fp_Mode (PayFile raw)\<rparr>
     else if Category raw = CatNetwork then
       a\<lparr>al_RemoteIP := RemoteIP raw, al_RemotePort := RemotePort raw, al_LocalIP := LocalIP raw, al_LocalPort := LocalPort raw\<rparr>
     else if Category raw = CatEscape then a\<lparr>al_NSType := ep_NSType (PayEscape raw)\<rparr>
     else if Category raw = CatPrivilege then
       a\<lparr>al_OldUID := vp_OldUID (PayPrivilege raw), al_NewUID := vp_NewUID (PayPrivilege raw),
         al_Capability := vp_Capability (PayPrivilege raw), al_ModeFlags := vp_ModeFlags (PayPrivilege raw)\<rparr>
     else a)"

definition buildAlert :: "time \<Rightarrow> enriched_event \<Rightarrow> rule_match \<Rightarrow> string \<Rightarrow> alert" where
  "buildAlert now event m action =
    (let a = (event_alert now event)\<lparr>al_RuleID := rm_RuleID m, al_RuleName := rm_RuleName m,
               al_Priority := rm_Priority m, al_Action := action, al_Output := rm_Output m,
               al_ServiceAccount := ev_ServiceAccount event, al_Tags := rm_Tags m, al_NodeName := ev_NodeName event\<rparr>;
         a = alert_details (ev_RawEvent event) a
     in if ev_AnomalyScore event > 0 then a\<lparr>al_AnomalyScore := ev_AnomalyScore event\<rparr> else a)"

section \<open>Anomaly scoring\<close>

definition extractor_of :: "string \<Rightarrow> ('u, 't) pipeline \<Rightarrow> feature_extractor" where
  "extractor_of key p = (case pi_extractors p key of Some fe \<Rightarrow> fe | None \<Rightarrow> NewFeatureExtractor)"

text \<open>\<open>getOrCreateExtractor\<close> followed by \<open>AddSyscall\<close> on the shared extractor.\<close>

definition feed_extractor :: "string \<Rightarrow> u32 \<Rightarrow> ('u, 't) pipeline \<Rightarrow> feature_extractor \<times> ('u, 't) pipeline" where
  "feed_extractor key nr p =
    (let fe = AddSyscall nr (extractor_of key p) in (fe, p\<lparr>pi_extractors := (pi_extractors p)(key \<mapsto> fe)\<rparr>))"

definition feedSyscallForAnomaly :: "enriched_event \<Rightarrow> ('u, 't) pipeline \<Rightarrow> real \<times> ('u, 't) pipeline" where
  "feedSyscallForAnomaly event p =
    (if ev_ContainerID event = [] then (0, p)
     else
       (let (fe, p) = feed_extractor (ev_ContainerID event) (ucast (SyscallNr (ev_RawEvent event))) p;
            baseline = (if ev_ContainerImage event \<noteq> [] then pi_baselines p (ev_ContainerImage event) else None)
        in (ScoreAnomaly baseline fe, p)))"

definition feedSyscallForAnomalyCgroupFallback :: "enriched_event \<Rightarrow> ('u, 't) pipeline \<Rightarrow> real \<times> ('u, 't) pipeline" where
  "feedSyscallForAnomalyCgroupFallback event p =
    (let cgroupKey = ''cgroup:'' @ show_word (CgroupID (ev_RawEvent event));
         (fe, p) = feed_extractor cgroupKey (ucast (SyscallNr (ev_RawEvent event))) p
     in (ScoreAnomaly None fe, p))"

definition tryBuildBaseline :: "enriched_event \<Rightarrow> ('u, 't) pipeline \<Rightarrow> ('u, 't) pipeline" where
  "tryBuildBaseline event p =
    (let containerID = ev_ContainerID event;
         n = (case pi_eventCounts p containerID of None \<Rightarrow> 0 | Some n \<Rightarrow> n) + 1;
         p = p\<lparr>pi_eventCounts := (pi_eventCounts p)(containerID \<mapsto> n)\<rparr>;
         img = ev_ContainerImage event
     in if n < pi_minEvents p then p
        else if img = [] then p
        else if pi_baselines p img \<noteq> None then p
        else
          (let fe = extractor_of containerID p;
               p = p\<lparr>pi_extractors := (pi_extractors p)(containerID \<mapsto> fe)\<rparr>;
               baseline = BuildBaseline img fe
           in if nb_Confidence baseline \<le> 0 then p
              else (SetBaseline img baseline p)\<lparr>pi_eventCounts := (pi_eventCounts p)(containerID \<mapsto> 0)\<rparr>))"

text \<open>Step 3 of \<open>processOneEvent\<close>.\<close>

definition score_event :: "enriched_event \<Rightarrow> ('u, 't) pipeline \<Rightarrow> enriched_event \<times> ('u, 't) pipeline" where
  "score_event event p =
    (if \<not> pi_anomalyEnabled p then (event, p)
     else if ev_ContainerAttributed event then
       (let (score, p) = feedSyscallForAnomaly event p;
            event = (if score > 0 then event\<lparr>ev_AnomalyScore := score\<rparr> else event)
        in (event, if pi_learningMode p \<and> ev_ContainerImage event \<noteq> [] then tryBuildBaseline event p else p))
     else if CgroupID (ev_RawEvent event) \<noteq> 0 then
       (let (score, p) = feedSyscallForAnomalyCgroupFallback event p
        in (if score > 0 then event\<lparr>ev_AnomalyScore := score\<rparr> else event, p))
     else (event, p))"

definition anomaly_priority :: "real \<Rightarrow> string" where
  "anomaly_priority score = (if score \<ge> 9 / 10 then ''CRITICAL'' else if score \<ge> 8 / 10 then ''ERROR'' else ''WARNING'')"

definition anomaly_rule_name :: string where
  "anomaly_rule_name = ''Anomaly Detection '' @ [CHR 0xE2, CHR 0x80, CHR 0x94] @ '' N-gram Score Exceeded Threshold''"

definition anomaly_alert :: "('u, 't) world \<Rightarrow> enriched_event \<Rightarrow> ('u, 't) pipeline \<Rightarrow> alert" where
  "anomaly_alert w event p =
    (let raw = ev_RawEvent event in
     (event_alert (wd_now w) event)\<lparr>al_RuleID := ''ANOMALY'', al_RuleName := anomaly_rule_name,
       al_Priority := anomaly_priority (ev_AnomalyScore event), al_Action := OutActionAlert,
       al_Output := ''Anomaly score '' @ wd_fixed2 w (ev_AnomalyScore event) @ '' exceeded threshold '' @
         wd_fixed2 w (pi_anomalyThreshold p) @ '' for container '' @ ev_ContainerID event @ '' (image='' @
         ev_ContainerImage event @ '' comm='' @ CommString raw @ '' pid='' @ show_word (PID raw) @ '')'',
       al_AnomalyScore := ev_AnomalyScore event, al_Tags := [''anomaly'', ''ngram'']\<rparr>)"

definition anomaly_incident :: "('u, 't) world \<Rightarrow> enriched_event \<Rightarrow> incident" where
  "anomaly_incident w event =
    (let raw = ev_RawEvent event in
     \<lparr>in_RuleID = ''ANOMALY'',
      in_Events = [\<lparr>ai_EventType = ''anomaly_detection'', ai_ProcessName = CommString raw, ai_PID = PID raw,
        ai_Category = CategoryString raw, ai_Timestamp = wd_now w,
        ai_Details = [''anomaly_score'' \<mapsto> wd_fixed2 w (ev_AnomalyScore event), ''container_id'' \<mapsto> ev_ContainerID event]\<rparr>],
      in_ContainerImage = ev_ContainerImage event, in_Namespace = ev_Namespace event, in_Timestamp = wd_now w\<rparr>)"

definition emitAnomalyAlert :: "('u, 't) world \<Rightarrow> enriched_event \<Rightarrow> ('u, 't) pipeline \<Rightarrow> ('u, 't) pipeline" where
  "emitAnomalyAlert w event p =
    (if ev_AnomalyScore event < pi_anomalyThreshold p then p
     else suggest (anomaly_incident w event) (deliver (anomaly_alert w event p) p))"

section \<open>Correlation\<close>

definition CorrelationSignalNames :: "(string \<times> string) list" where
  "CorrelationSignalNames =
    [(''R014'', ''shell_procs''), (''R015'', ''shell_procs''), (''R016'', ''shell_procs''), (''R017'', ''shell_procs''),
     (''R009'', ''minerpool_connection''), (''R027'', ''net_outbound''), (''R019'', ''net_outbound''),
     (''R026'', ''net_outbound''), (''R008'', ''miner_procs''), (''R010'', ''miner_procs''), (''R011'', ''high_cpu''),
     (''R021'', ''setuid_transition''), (''R022'', ''suid_set''), (''R018'', ''sensitive_file_read''),
     (''R020'', ''sensitive_file_read''), (''R001'', ''namespace_join''), (''R002'', ''unshare''), (''R003'', ''cgroup_mount'')]"

definition network_signal :: "scarlet_event \<Rightarrow> string" where
  "network_signal event =
    (if IsMinerPoolPort (RemotePort event) then ''minerpool_connection''
     else if IsC2Port (RemotePort event) then ''net_outbound''
     else if IsCloudMetadataIP (RemoteIP event) then ''net_outbound''
     else if IsDNSPort (RemotePort event) \<or> IsDNSPort (LocalPort event) then ''dns_query''
     else if RemotePort event = 443 \<or> LocalPort event = 443 then ''tls_connection''
     else ''net_outbound'')"

definition EventCategorySignal :: "scarlet_event \<Rightarrow> string" where
  "EventCategorySignal event =
    (if Category event = CatProcess then
       (if EventType event = EvtExec then
          (if IsShellProcess (CommString event) then ''shell_procs''
           else if IsMinerProcess (CommString event) then ''miner_procs'' else [])
        else [])
     else if Category event = CatNetwork then (if EventType event = EvtNetConnect then network_signal event else [])
     else if Category event = CatEscape then
       (if EventType event = EvtSetns then ''namespace_join''
        else if EventType event = EvtMount then ''cgroup_mount''
        else if EventType event = EvtUnshare then ''unshare'' else [])
     else if Category event = CatPrivilege then (if EventType event = EvtSetuid then ''setuid_transition'' else [])
     else if Category event = CatFile then (if IsSensitivePath (FilePath event) then ''sensitive_file_read'' else [])
     else [])"

definition signal_name :: "enriched_event \<Rightarrow> rule_match option \<Rightarrow> string" where
  "signal_name event mt =
    (case mt of
       Some m \<Rightarrow> (case map_of CorrelationSignalNames (rm_RuleID m) of Some nm \<Rightarrow> nm | None \<Rightarrow> [])
     | None \<Rightarrow> EventCategorySignal (ev_RawEvent event))"

definition signal_extra :: "scarlet_event \<Rightarrow> string \<Rightarrow> string \<rightharpoonup> string" where
  "signal_extra raw nm =
    (if Category raw = CatNetwork then
       (let ex = [''remote_ip'' \<mapsto> RemoteIP raw, ''remote_port'' \<mapsto> show_word (RemotePort raw)];
            ex = (if nm = ''tls_connection'' then ex(''has_tls'' \<mapsto> ''true'') else ex)
        in if nm = ''dns_query'' then ex(''is_dns'' \<mapsto> ''true'') else ex)
     else if Category raw = CatFile then [''file_path'' \<mapsto> FilePath raw]
     else if Category raw = CatProcess then [''filename'' \<mapsto> Filename raw]
     else if Category raw = CatEscape then [''ns_type'' \<mapsto> show_word (ep_NSType (PayEscape raw))]
     else Map.empty)"

definition build_signal :: "time \<Rightarrow> enriched_event \<Rightarrow> rule_match option \<Rightarrow> signal" where
  "build_signal now event mt =
    \<lparr>sg_Name = signal_name event mt, sg_Timestamp = now, sg_PID = PID (ev_RawEvent event),
     sg_ContainerID = ev_ContainerID event, sg_Namespace = ev_Namespace event,
     sg_RuleID = (case mt of Some m \<Rightarrow> rm_RuleID m | None \<Rightarrow> []),
     sg_Extra = signal_extra (ev_RawEvent event) (signal_name event mt)\<rparr>"

definition correlation_alert_of :: "time \<Rightarrow> enriched_event \<Rightarrow> correlation_result \<Rightarrow> alert" where
  "correlation_alert_of now event res =
    (event_alert now event)\<lparr>al_RuleID := cs_RuleID res, al_RuleName := ''correlation:'' @ cs_RuleID res,
      al_Priority := ''CRITICAL'', al_Action := OutActionAlert, al_Output := cs_Description res,
      al_ServiceAccount := ev_ServiceAccount event, al_Tags := [''correlation'', ''multi_signal''],
      al_CorrelationResult := Some \<lparr>ca_RuleID = cs_RuleID res, ca_GroupKey = cs_GroupKey res,
        ca_MatchedSignals = length (cs_MatchedSignals res), ca_WindowStart = cs_WindowStart res,
        ca_WindowEnd = cs_WindowEnd res, ca_Description = cs_Description res\<rparr>\<rparr>"

definition correlation_incident :: "time \<Rightarrow> enriched_event \<Rightarrow> correlation_result \<Rightarrow> incident" where
  "correlation_incident now event res =
    \<lparr>in_RuleID = cs_RuleID res,
     in_Events = map (\<lambda>sig. \<lparr>ai_EventType = sg_Name sig, ai_ProcessName = [], ai_PID = sg_PID sig,
       ai_Category = ''correlation_signal'', ai_Timestamp = sg_Timestamp sig,
       ai_Details = (if sg_RuleID sig \<noteq> [] then [''rule_id'' \<mapsto> sg_RuleID sig] else Map.empty)\<rparr>) (cs_MatchedSignals res),
     in_ContainerImage = ev_ContainerImage event, in_Namespace = ev_Namespace event, in_Timestamp = now\<rparr>"

definition emitCorrelationAlert :: "time \<Rightarrow> enriched_event \<Rightarrow> correlation_result \<Rightarrow> ('u, 't) pipeline \<Rightarrow> ('u, 't) pipeline" where
  "emitCorrelationAlert now event res p =
    suggest (correlation_incident now event res) (deliver (correlation_alert_of now event res) p)"

definition processCorrelationSignal ::
    "('u, 't) world \<Rightarrow> enriched_event \<Rightarrow> rule_match option \<Rightarrow> ('u, 't) pipeline \<Rightarrow> ('u, 't) pipeline option" where
  "processCorrelationSignal w event mt p =
    (case pi_correlator p of
       None \<Rightarrow> Some (case mt of
           None \<Rightarrow> p
         | Some m \<Rightarrow> on_metrics (RecordEventProcessed (rm_Action m) (CategoryString (ev_RawEvent event))) p)
     | Some correl \<Rightarrow>
         if signal_name event mt = [] then Some p
         else (case ProcessSignal (wd_orders w) (wd_now w) (build_signal (wd_now w) event mt) correl of
                 None \<Rightarrow> None
               | Some (res, correl) \<Rightarrow>
                   (let p = p\<lparr>pi_correlator := Some correl\<rparr>
                    in Some (case res of None \<Rightarrow> p | Some res \<Rightarrow> emitCorrelationAlert (wd_now w) event res p))))"

section \<open>Network blocking\<close>

definition NetworkBlockingRuleIDs :: "(string \<times> string) list" where
  "NetworkBlockingRuleIDs =
    [(''R009'', ''mining_pool_connection''), (''R027'', ''c2_port_connection''), (''R019'', ''cloud_metadata_ssrf'')]"

text \<open>\<open>net.ParseIP\<close> on a dotted quad: four decimal numbers below 256 without leading zeros.\<close>

definition parse_octet :: "string \<Rightarrow> u8 option" where
  "parse_octet s =
    (let n = digits_value s in
     if s \<noteq> [] \<and> list_all (\<lambda>c. 48 \<le> (of_char c :: nat) \<and> (of_char c :: nat) \<le> 57) s \<and> length s \<le> 3 \<and> n < 256 \<and> show_nat n = s
     then Some (of_nat n) else None)"

definition ParseIP :: "string \<Rightarrow> bytes option" where
  "ParseIP s =
    (case map parse_octet (split_on (CHR ''.'') s) of
       [Some a, Some b, Some c, Some d] \<Rightarrow> Some (net_IPv4 a b c d)
     | _ \<Rightarrow> None)"

definition handleNetworkBlock ::
    "('u, 't) world \<Rightarrow> enriched_event \<Rightarrow> rule_match \<Rightarrow> string \<Rightarrow> ('u, 't) pipeline \<Rightarrow> ('u, 't) pipeline" where
  "handleNetworkBlock w event m mode p =
    (case (map_of NetworkBlockingRuleIDs (rm_RuleID m), pi_netEnforcer p) of
       (Some reason, Some ne) \<Rightarrow>
         (let raw = ev_RawEvent event in
          if rm_RuleID m = ''R009'' then
            (case ParseIP (RemoteIP raw) of
               Some destIP \<Rightarrow>
                 if RemotePort raw > 0 then
                   (if mode = ''simulate'' then p
                    else p\<lparr>pi_netEnforcer := Some (snd (BlockMiningPool (wd_ops w) (wd_now w) destIP (RemotePort raw) ne))\<rparr>)
                 else p
             | None \<Rightarrow> p)
          else if rm_RuleID m = ''R027'' then
            (case ParseIP (RemoteIP raw) of
               Some destIP \<Rightarrow>
                 if RemotePort raw > 0 then
                   (if mode = ''simulate'' then p
                    else p\<lparr>pi_netEnforcer := Some (snd (BlockC2Port (wd_ops w) (wd_now w) destIP (RemotePort raw) ne))\<rparr>)
                 else p
             | None \<Rightarrow> p)
          else if rm_RuleID m = ''R019'' then
            (if mode = ''simulate'' then p
             else p\<lparr>pi_netEnforcer := Some (snd (BlockCloudMetadata (wd_ops w) (wd_now w) ne))\<rparr>)
          else p)
     | _ \<Rightarrow> p)"

section \<open>Routing\<close>

definition emitAlert :: "('u, 't) world \<Rightarrow> enriched_event \<Rightarrow> rule_match \<Rightarrow> ('u, 't) pipeline \<Rightarrow> ('u, 't) pipeline" where
  "emitAlert w event m p =
    (let a = buildAlert (wd_now w) event m OutActionAlert;
         (merged, co) = co_Add (wd_now w) a (pi_coalescer p);
         p = p\<lparr>pi_coalescer := co\<rparr>
     in if merged then p else deliver a p)"

definition emitSimulated :: "('u, 't) world \<Rightarrow> enriched_event \<Rightarrow> rule_match \<Rightarrow> ('u, 't) pipeline \<Rightarrow> ('u, 't) pipeline" where
  "emitSimulated w event m p =
    deliver ((buildAlert (wd_now w) event m OutActionSimulated)\<lparr>al_Simulated := True\<rparr>) p"

definition enforcement_alert_of :: "enforcement_result \<Rightarrow> enforcement_alert" where
  "enforcement_alert_of res =
    \<lparr>ea_Action = rs_Action res, ea_Signal = rs_Signal res, ea_TargetPID = rs_TargetPID res, ea_Success = rs_Success res,
     ea_Reason = rs_Reason res, ea_LatencyUS = rs_LatencyUS res, ea_RuleID = rs_RuleID res\<rparr>"

definition executeEnforcement :: "('u, 't) world \<Rightarrow> enriched_event \<Rightarrow> rule_match \<Rightarrow> ('u, 't) pipeline \<Rightarrow> ('u, 't) pipeline" where
  "executeEnforcement w event m p =
    (let (res, r) = Enforce (wd_kernel w) (wd_now w) (wd_now w) (wd_fin w) event m (pi_response p);
         p = p\<lparr>pi_response := r, pi_enforcementsExec := pi_enforcementsExec p + 1\<rparr>;
         p = on_metrics (if rs_Success res then RecordEnforcement (rs_Action res) (rs_Reason res)
                         else RecordEnforcement (rs_Action res) (''skipped_'' @ rs_Reason res)) p
     in deliver ((buildAlert (wd_now w) event m OutActionEnforce)\<lparr>al_EnforcementResult := Some (enforcement_alert_of res)\<rparr>) p)"

text \<open>The action after the attribution rule and the mode.\<close>

definition effective_action :: "string \<Rightarrow> enriched_event \<Rightarrow> string \<Rightarrow> string" where
  "effective_action mode event action =
    (let action = (if \<not> ev_ContainerAttributed event \<and> action = ActionEnforce then ActionAlert else action) in
     if mode = ''audit'' then (if action = ActionEnforce then ActionAlert else action)
     else if mode = ''simulate'' then (if action = ActionEnforce then ActionSimulated else action)
     else action)"

text \<open>Triage: action and match after the service's answer.\<close>

definition apply_triage :: "('u, 't) pipeline \<Rightarrow> real \<Rightarrow> string \<Rightarrow> string \<Rightarrow> rule_match \<Rightarrow> string \<times> rule_match" where
  "apply_triage p fpScore recommended action m =
    (if fpScore \<ge> pi_triageSuppress p then (ActionSuppress, m)
     else if fpScore \<ge> pi_triageDowngrade p \<and> action \<noteq> ActionEnforce then (action, m\<lparr>rm_Priority := recommended\<rparr>)
     else if fpScore \<ge> pi_triageAdjust p then
       (if recommended \<noteq> [] \<and> recommended \<noteq> rm_Priority m then (action, m\<lparr>rm_Priority := recommended\<rparr>) else (action, m))
     else (action, m))"

definition run_triage ::
    "('u, 't) world \<Rightarrow> enriched_event \<Rightarrow> string \<Rightarrow> rule_match \<Rightarrow> ('u, 't) pipeline \<Rightarrow> (string \<times> rule_match) \<times> ('u, 't) pipeline" where
  "run_triage w event action m p =
    (case pi_aiTrier p of
       None \<Rightarrow> ((action, m), p)
     | Some t \<Rightarrow>
         (let ((fpScore, recommended, reasoning), t) =
                wd_triage w (rm_RuleID m) (rm_Priority m) (ev_Namespace event) (ev_ContainerName event) t
          in (apply_triage p fpScore recommended action m, p\<lparr>pi_aiTrier := Some t\<rparr>)))"

definition dispatch ::
    "('u, 't) world \<Rightarrow> enriched_event \<Rightarrow> string \<Rightarrow> rule_match \<Rightarrow> ('u, 't) pipeline \<Rightarrow> ('u, 't) pipeline" where
  "dispatch w event action m p =
    (if action = ActionSuppress then on_metrics (RecordEventProcessed ''suppressed'' (CategoryString (ev_RawEvent event))) p
     else
       (let p = (if action = ActionAlert then emitAlert w event m p
                 else if action = ActionEnforce then executeEnforcement w event m p
                 else if action = ActionSimulated then emitSimulated w event m p
                 else p)
        in on_metrics (RecordEventProcessed action (CategoryString (ev_RawEvent event)) \<circ> RecordRuleMatch (rm_RuleID m) action) p))"

definition routeDecision ::
    "('u, 't) world \<Rightarrow> enriched_event \<Rightarrow> rule_match \<Rightarrow> ('u, 't) pipeline \<Rightarrow> rule_match \<times> ('u, 't) pipeline" where
  "routeDecision w event m p =
    (let currentMode = pi_mode p;
         action = effective_action currentMode event (rm_Action m);
         p = (if pi_netEnforcer p \<noteq> None \<and> currentMode \<noteq> ''audit'' then handleNetworkBlock w event m currentMode p else p);
         ((action, m), p) = run_triage w event action m p
     in (m, dispatch w event action m p))"

section \<open>One event\<close>

definition bare_event :: "scarlet_event \<Rightarrow> enriched_event" where
  "bare_event raw =
    \<lparr>ev_RawEvent = raw, ev_ContainerID = [], ev_ContainerName = [], ev_ContainerImage = [], ev_ContainerAttributed = False,
     ev_PodName = [], ev_Namespace = [], ev_ServiceAccount = [], ev_PodLabels = Map.empty, ev_Privileged = False,
     ev_NodeName = [], ev_AnomalyScore = 0\<rparr>"

definition copy_info :: "container_info \<Rightarrow> enriched_event \<Rightarrow> enriched_event" where
  "copy_info info event =
    event\<lparr>ev_ContainerName := ci_Name info, ev_ContainerImage := ci_Image info, ev_PodName := ci_PodName info,
      ev_Namespace := ci_Namespace info, ev_ServiceAccount := ci_ServiceAccount info, ev_PodLabels := ci_Labels info,
      ev_Privileged := ci_Privileged info\<rparr>"

definition enrichEvent :: "('u, 't) world \<Rightarrow> scarlet_event \<Rightarrow> ('u, 't) pipeline \<Rightarrow> enriched_event \<times> ('u, 't) pipeline" where
  "enrichEvent w raw p =
    (case pi_enricher p of
       None \<Rightarrow> (bare_event raw, p)
     | Some mg \<Rightarrow>
         (let (containerID, mg) = ResolveContainerID (wd_fs w) (wd_now w) (CgroupID raw) (PID raw) mg in
          if containerID = [] then (bare_event raw, p\<lparr>pi_enricher := Some mg\<rparr>)
          else
            (let event = (bare_event raw)\<lparr>ev_ContainerID := containerID, ev_ContainerAttributed := True\<rparr>;
                 (info, mg) = GetContainerInfo (wd_now w) containerID mg
             in (case info of None \<Rightarrow> event | Some info \<Rightarrow> copy_info info event, p\<lparr>pi_enricher := Some mg\<rparr>))))"

definition toRuleView :: "enriched_event \<Rightarrow> enriched_for_rule" where
  "toRuleView event =
    \<lparr>er_Event = ev_RawEvent event, er_ContainerID = ev_ContainerID event, er_ContainerName = ev_ContainerName event,
     er_ContainerImage = ev_ContainerImage event, er_ContainerAttributed = ev_ContainerAttributed event,
     er_PodName = ev_PodName event, er_Namespace = ev_Namespace event, er_ServiceAccount = ev_ServiceAccount event,
     er_PodLabels = ev_PodLabels event, er_Privileged = ev_Privileged event, er_NodeName = ev_NodeName event\<rparr>"

definition evaluate_rules ::
    "('u, 't) world \<Rightarrow> enriched_event \<Rightarrow> ('u, 't) pipeline \<Rightarrow> (rule_match option \<times> ('u, 't) pipeline) option" where
  "evaluate_rules w event p =
    (case pi_ruleEngine p of
       None \<Rightarrow> Some (None, p)
     | Some e \<Rightarrow>
         (case EvaluateRule (wd_format w) e (toRuleView event) of
            None \<Rightarrow> None
          | Some (e, mt) \<Rightarrow> Some (mt, p\<lparr>pi_ruleEngine := Some e\<rparr>)))"

text \<open>Steps 4 to 6.\<close>

definition decide_event :: "('u, 't) world \<Rightarrow> enriched_event \<Rightarrow> ('u, 't) pipeline \<Rightarrow> ('u, 't) pipeline option" where
  "decide_event w event p =
    (case evaluate_rules w event p of
       None \<Rightarrow> None
     | Some (None, p) \<Rightarrow>
         processCorrelationSignal w event None
           (if ev_AnomalyScore event \<ge> pi_anomalyThreshold p then emitAnomalyAlert w event p else p)
     | Some (Some m, p) \<Rightarrow>
         (let (m, p) = routeDecision w event m p in processCorrelationSignal w event (Some m) p))"

definition processOneEvent :: "('u, 't) world \<Rightarrow> scarlet_event \<Rightarrow> ('u, 't) pipeline \<Rightarrow> ('u, 't) pipeline option" where
  "processOneEvent w raw p =
    (let p = p\<lparr>pi_eventsProcessed := pi_eventsProcessed p + 1\<rparr>;
         (event, p) = enrichEvent w raw p;
         (event, p) = score_event event p
     in decide_event w event p)"

text \<open>\<open>ProcessEvent\<close> and the body of a worker's loop.\<close>

definition ProcessEvent :: "('u, 't) world \<Rightarrow> scarlet_event \<Rightarrow> ('u, 't) pipeline \<Rightarrow> ('u, 't) pipeline option" where
  "ProcessEvent w raw p = processOneEvent w raw p"

text \<open>A tick of \<open>coalescerLoop\<close>.\<close>

definition coalescer_tick ::
    "((coalesce_key \<times> coalesce_entry) list \<Rightarrow> (coalesce_key \<times> coalesce_entry) list) \<Rightarrow> ('u, 't) pipeline \<Rightarrow> ('u, 't) pipeline" where
  "coalescer_tick perm p =
    (let (co, em) = co_Flush perm (pi_coalescer p) (pi_alertEmit p) in p\<lparr>pi_coalescer := co, pi_alertEmit := em\<rparr>)"

end
