(* ===== verification/Engine_Total.thy ===== *)
theory Engine_Total
  imports Catalog_Engine
begin

text \<open>
  An engine that was built by loading files evaluates every event. The closures the compiler makes are
  total, and loading only ever adds compiled rules; so the hypothesis of the evaluation theorems holds
  of every engine that \<open>NewEngine\<close> or \<open>Reload\<close> returns, whatever the files contain.
\<close>

definition engine_total :: "engine \<Rightarrow> bool" where
  "engine_total e \<longleftrightarrow> (\<forall>t. \<forall>r\<in>set (eg_buckets e t). total_rule r)"

lemma compileRule_total: "compileRule ord pd e rd macros = Inr c \<Longrightarrow> total_rule c"
  using compileCondition_total[of "eg_lists e" "\<lambda>k. ord k macros" "rd_Condition rd"]
  by (auto simp: compileRule_def total_rule_def Let_def split: option.splits sum.splits)

lemma total_add: "engine_total e \<Longrightarrow> total_rule r \<Longrightarrow> engine_total (addCompiledRule r e)"
  by (auto simp: engine_total_def)

lemma total_lists: "engine_total e \<Longrightarrow> engine_total (e\<lparr>eg_lists := l\<rparr>)"
  by (simp add: engine_total_def)

lemma compile_rules_total: "engine_total e \<Longrightarrow> engine_total (compile_rules ord pd macros rds e)"
proof (induction rds arbitrary: e)
  case (Cons rd rds)
  then show ?case using compileRule_total total_add by (auto split: sum.split)
qed simp

lemma loadYAML_total: "engine_total (fst st) \<Longrightarrow> engine_total (fst (fst (loadYAML ord pd nw dat st)))"
  by (auto simp: loadYAML_def Let_def intro: compile_rules_total total_lists split: sum.split)

lemma load_entries_inv:
  assumes "\<And>d st. P st \<Longrightarrow> P (fst (load d st))"
  shows "P st \<Longrightarrow> P (fst (load_entries load ents st))"
proof (induction ents arbitrary: st)
  case (Cons x ents)
  have "P (fst (load d st))" for d using assms Cons.prems by blast
  then show ?case using Cons by (auto split: sum.split prod.split option.split) (metis fst_conv)+
qed simp

lemma loadRulePath_inv:
  assumes "\<And>d st. P st \<Longrightarrow> P (fst (load d st))"
  shows "P st \<Longrightarrow> P (fst (loadRulePath load path st))"
  by (cases "(load, path, st)" rule: loadRulePath.cases) (auto intro: assms load_entries_inv)

lemma loadRules_inv:
  assumes "\<And>d st. P st \<Longrightarrow> P (fst (load d st))" "P (e, [])"
  shows "\<exists>macros. P (fst (loadRules load catalog paths e), macros)"
proof -
  obtain st err where l: "load catalog (e, []) = (st, err)" by (metis surj_pair)
  then have st: "P st" using assms(1)[OF assms(2), of catalog] by simp
  have step: "P (fst (loadRulePath load p st))" if "P st" for p st
    using that by (rule loadRulePath_inv[where P = P and load = load, rotated]) (rule assms(1))
  have "P (fold (\<lambda>p st. fst (loadRulePath load p st)) ps st)" for ps
    using st by (induction ps arbitrary: st) (simp_all only: fold_simps id_apply step comp_def)
  then show ?thesis using st l by (cases err) (auto simp: loadRules_def, metis prod.collapse, metis prod.collapse)
qed

lemma loadRules_total:
  "engine_total e \<Longrightarrow> engine_total (fst (loadRules (loadYAML ord pd nw) catalog paths e))"
  using loadRules_inv[of "\<lambda>st. engine_total (fst st)" "loadYAML ord pd nw" e catalog paths] loadYAML_total
  by force

lemma NewEngine_total: "NewEngine (loadYAML ord pd nw) catalog paths = Inr e \<Longrightarrow> engine_total e"
  using loadRules_total[of "loadDefaultLists empty_engine" ord pd nw catalog paths]
  by (auto simp: NewEngine_def engine_total_def loadDefaultLists_def empty_engine_def split: prod.splits option.splits)

lemma Reload_total: "engine_total (fst (Reload (loadYAML ord pd nw) catalog paths e))"
  unfolding Reload_def by (rule loadRules_total) (simp add: engine_total_def)

lemma total_eval:
  assumes "engine_total e"
  shows "\<exists>m. Evaluate fo e event = Some (e\<lparr>eg_evalCount := eg_evalCount e + 1\<rparr>, m)"
proof -
  have c: "candidates (e\<lparr>eg_evalCount := n\<rparr>) raw = candidates e raw" for n raw by (simp add: candidates_def)
  have "\<forall>r\<in>set (candidates e (er_Event event)). cr_Condition r event \<noteq> None"
    using assms candidates_spec(2)[of e "er_Event event"] by (fastforce simp: engine_total_def total_rule_def)
  from eval_loop_best[OF this, of fo] show ?thesis by (auto simp: Evaluate_def c)
qed

text \<open>A loaded engine never panics. Whatever rule files and directories it was built from and
  whatever the map orders, \<open>Evaluate\<close> returns on every event, and changes only its counter.\<close>

theorem loaded_engine_total:
  assumes "NewEngine (loadYAML ord pd nw) catalog paths = Inr e"
  shows "\<exists>m. EvaluateRule fo e event = Some (e\<lparr>eg_evalCount := eg_evalCount e + 1\<rparr>, m)"
  using total_eval[OF NewEngine_total[OF assms]] by (simp add: EvaluateRule_def)

text \<open>An engine with one rule file that does not parse: the defaults are kept.\<close>

theorem loaded_engine_total_witness:
  "\<exists>e m. NewEngine (loadYAML (\<lambda>k al. al) (\<lambda>_. 0) Inr) DefaultRuleCatalog [PathError ''missing''] = Inr e \<and>
     EvaluateRule id e demo_event = Some (e\<lparr>eg_evalCount := eg_evalCount e + 1\<rparr>, m)"
proof -
  have "NewEngine (loadYAML (\<lambda>k al. al) (\<lambda>_. 0) Inr) DefaultRuleCatalog [PathError ''missing''] =
      NewEngine (loadYAML (\<lambda>k al. al) (\<lambda>_. 0) Inr) DefaultRuleCatalog []"
    by (simp add: NewEngine_def loadRules_def split: prod.splits option.splits)
  then have "NewEngine (loadYAML (\<lambda>k al. al) (\<lambda>_. 0) Inr) DefaultRuleCatalog [PathError ''missing''] = Inr catalog_engine"
    using NewEngine_catalog[of "\<lambda>k al. al" "\<lambda>_. 0" Inr] by (simp add: visits_all_def)
  from loaded_engine_total[OF this] this show ?thesis by blast
qed

end
