(* ===== verification/Enrichment_Facts.thy ===== *)
theory Enrichment_Facts
  imports Enrichment
begin

text \<open>
  What the enrichment can know. The manager is a machine whose steps are the lookups, the scans, the pod
  discovery, the two consumers and the reaper; every container record in its store came from \<open>/proc\<close>.
  The invariant shows which metadata such a record can carry. The incremental scan is specified by the
  set of containers it leaves in the cache.
\<close>

section \<open>Where metadata comes from\<close>

definition bare_info :: "container_info \<Rightarrow> bool" where
  "bare_info i \<longleftrightarrow> ci_Namespace i \<in> {[], ''default''} \<and> ci_ServiceAccount i \<in> {[], ''default''} \<and>
     ci_Image i = ''unknown'' \<and> \<not> ci_Privileged i"

definition bare_pod :: "pod_info \<Rightarrow> bool" where
  "bare_pod p \<longleftrightarrow> po_Namespace p = ''default'' \<and> po_ServiceAccount p = ''default''"

text \<open>The CRI cache over a store: a recency cache without bound, whose pointers are valid and lead to the
  container they are filed under.\<close>

definition cri_ok :: "container_info list \<Rightarrow> addr cri_cache \<Rightarrow> bool" where
  "cri_ok H c \<longleftrightarrow> (\<exists>ks. lru_rep (cc_lru c) ks) \<and> cc_maxSize c = 0 \<and>
     (\<forall>cid e. value_of (cc_lru c) cid = Some e \<longrightarrow> cy_info e < length H \<and> ci_ID (H ! cy_info e) = cid)"

definition known :: "addr cri_cache \<Rightarrow> string set" where
  "known c = {cid. value_of (cc_lru c) cid \<noteq> None}"

lemma cri_ok_get:
  assumes "cri_ok H c" "cc_Get now cid c = (r, c')"
  shows "cri_ok H c'" "known c' = known c" "r = Some a \<Longrightarrow> a < length H \<and> ci_ID (H ! a) = cid" "r \<noteq> None \<longleftrightarrow> cid \<in> known c"
  using assms
  by (auto simp: cc_Get_def cri_ok_def known_def set_val_value split: option.splits if_splits)

lemma cri_ok_set:
  assumes "cri_ok H c" "a < length H" "ci_ID (H ! a) = cid"
  shows "cri_ok H (cc_Set now cid a c)" "known (cc_Set now cid a c) = insert cid (known c)"
proof -
  obtain ks where r: "lru_rep (cc_lru c) ks" using assms(1) by (auto simp: cri_ok_def)
  have m: "cc_maxSize c = 0" using assms(1) by (simp add: cri_ok_def)
  note rep = cri_lru.put_rep[OF r, of now cid a]
  note val = cri_lru.put_lookup[OF r, of now cid a]
  have t: "x \<in> set (touch None cid ks) \<longleftrightarrow> x = cid \<or> x \<in> set ks" for x
    using r by (auto simp: touch_def lru_rep_def links_def)
  have v: "value_of (cc_lru (cc_Set now cid a c)) x = (if x = cid then Some \<lparr>cy_info = a, cy_lastAccess = now\<rparr> else value_of (cc_lru c) x)" for x
    using val[of x] t[of x] m value_keys[OF r, of x] by auto
  show "known (cc_Set now cid a c) = insert cid (known c)" by (auto simp: known_def v)
  have "cc_maxSize (cc_Set now cid a c) = 0" using m by (simp add: cc_Set_store)
  then show "cri_ok H (cc_Set now cid a c)" using rep assms by (auto simp: cri_ok_def v)
qed

lemma cri_ok_delete:
  assumes "cri_ok H c"
  shows "cri_ok H (cc_Delete cid c)" "known (cc_Delete cid c) = known c - {cid}"
proof -
  obtain ks where r: "lru_rep (cc_lru c) ks" using assms by (auto simp: cri_ok_def)
  have "\<exists>ks'. lru_rep (unlink cid (cc_lru c)) ks'" if "value_of (cc_lru c) cid \<noteq> None"
    using unlink_rep[OF r, of cid] value_keys[OF r, of cid] that by blast
  then show "cri_ok H (cc_Delete cid c)" using assms by (auto simp: cc_Delete_def cri_ok_def value_unlink split: if_splits)
  show "known (cc_Delete cid c) = known c - {cid}" by (auto simp: known_def cc_Delete_def value_unlink)
qed

lemma cri_ok_prune:
  assumes "cri_ok H c" "fair_perm ord" "cc_Prune ord now idle c = (n, c')"
  shows "cri_ok H c'"
proof -
  obtain ks where r: "lru_rep (cc_lru c) ks" using assms by (auto simp: cri_ok_def)
  obtain l where l: "drop_loop (\<lambda>entry. idle < now - cy_lastAccess entry) (ord (lr_entries (cc_lru c))) 0 (cc_lru c) = (n, l)" "c' = c\<lparr>cc_lru := l\<rparr>"
    using assms(3) by (auto simp: cc_Prune_def split: prod.splits)
  from drop_loop_entries[OF r assms(2) l(1)] have d: "\<exists>ks. lru_rep l ks" "\<And>k e. value_of l k = Some e \<Longrightarrow> value_of (cc_lru c) k = Some e"
    by (auto split: if_splits)
  then show ?thesis using assms(1) l(2) by (auto simp: cri_ok_def)
qed

lemma cri_ok_heap:
  "cri_ok H c \<Longrightarrow> length H \<le> length H' \<Longrightarrow> \<forall>i<length H. ci_ID (H' ! i) = ci_ID (H ! i) \<Longrightarrow> cri_ok H' c"
  unfolding cri_ok_def by (metis less_le_trans)

text \<open>The state invariant.\<close>

definition pods_bare :: "manager \<Rightarrow> bool" where
  "pods_bare m \<longleftrightarrow> (\<forall>p\<in>snd ` set (kc_pods (mg_k8sCache m)). bare_pod p) \<and>
     (\<forall>ev\<in>set (kn_eventCh (mg_k8s m)). \<forall>p. kv_Pod ev = Some p \<longrightarrow> bare_pod p) \<and> length (kn_eventCh (mg_k8s m)) \<le> 256"

definition events_ok :: "manager \<Rightarrow> bool" where
  "events_ok m \<longleftrightarrow> (\<forall>ev\<in>set (cn_eventCh (mg_cri m)). \<forall>a. cv_Container ev = Some a \<longrightarrow> a < length (mg_heap m)) \<and>
     length (cn_eventCh (mg_cri m)) \<le> 256"

definition bare_manager :: "manager \<Rightarrow> bool" where
  "bare_manager m \<longleftrightarrow> (\<forall>i\<in>set (mg_heap m). bare_info i) \<and> pods_bare m \<and> events_ok m \<and> cri_ok (mg_heap m) (mg_criCache m)"

lemma bare_frame:
  "bare_manager m \<Longrightarrow> mg_heap m' = mg_heap m \<Longrightarrow> mg_criCache m' = mg_criCache m \<Longrightarrow> mg_k8sCache m' = mg_k8sCache m \<Longrightarrow>
     kn_eventCh (mg_k8s m') = kn_eventCh (mg_k8s m) \<Longrightarrow> cn_eventCh (mg_cri m') = cn_eventCh (mg_cri m) \<Longrightarrow> bare_manager m'"
  by (simp add: bare_manager_def pods_bare_def events_ok_def)

lemma bare_cri_cache: "bare_manager m \<Longrightarrow> cri_ok (mg_heap m) c \<Longrightarrow> bare_manager (m\<lparr>mg_criCache := c\<rparr>)"
  by (simp add: bare_manager_def pods_bare_def events_ok_def)

lemma bare_get:
  assumes "bare_manager m" "cri_get now cid m = (r, m')"
  shows "bare_manager m'" "mg_heap m' = mg_heap m" "known (mg_criCache m') = known (mg_criCache m)"
    "r = Some a \<Longrightarrow> a < length (mg_heap m) \<and> ci_ID (mg_heap m ! a) = cid" "r \<noteq> None \<longleftrightarrow> cid \<in> known (mg_criCache m)"
proof -
  obtain c where c: "cc_Get now cid (mg_criCache m) = (r, c)" "m' = m\<lparr>mg_criCache := c\<rparr>"
    using assms(2) by (auto simp: cri_get_def split: prod.splits)
  have ok: "cri_ok (mg_heap m) (mg_criCache m)" using assms(1) by (simp add: bare_manager_def)
  show "bare_manager m'" using bare_cri_cache[OF assms(1) cri_ok_get(1)[OF ok c(1)]] c(2) by simp
  show "mg_heap m' = mg_heap m" using c(2) by simp
  show "known (mg_criCache m') = known (mg_criCache m)" using cri_ok_get(2)[OF ok c(1)] c(2) by simp
  show "r = Some a \<Longrightarrow> a < length (mg_heap m) \<and> ci_ID (mg_heap m ! a) = cid" by (rule cri_ok_get(3)[OF ok c(1)])
  show "r \<noteq> None \<longleftrightarrow> cid \<in> known (mg_criCache m)" by (rule cri_ok_get(4)[OF ok c(1)])
qed

lemma bare_register:
  assumes "bare_manager m" "a < length (mg_heap m)"
  shows "bare_manager (RegisterContainer now a m)" "mg_heap (RegisterContainer now a m) = mg_heap m"
    "known (mg_criCache (RegisterContainer now a m)) = insert (ci_ID (mg_heap m ! a)) (known (mg_criCache m))"
proof -
  let ?c = "cc_Set now (ci_ID (mg_heap m ! a)) a (mg_criCache m)"
  have ok: "cri_ok (mg_heap m) (mg_criCache m)" using assms(1) by (simp add: bare_manager_def)
  have "bare_manager (m\<lparr>mg_criCache := ?c\<rparr>)"
    by (rule bare_cri_cache[OF assms(1) cri_ok_set(1)[OF ok assms(2) refl]])
  then show "bare_manager (RegisterContainer now a m)"
    by (rule bare_frame) (simp_all add: RegisterContainer_def Let_def)
  show "mg_heap (RegisterContainer now a m) = mg_heap m" by (simp add: RegisterContainer_def Let_def)
  show "known (mg_criCache (RegisterContainer now a m)) = insert (ci_ID (mg_heap m ! a)) (known (mg_criCache m))"
    using cri_ok_set(2)[OF ok assms(2) refl] by (simp add: RegisterContainer_def Let_def)
qed

lemma bare_unregister:
  assumes "bare_manager m"
  shows "bare_manager (UnregisterContainer now cid m)" "mg_heap (UnregisterContainer now cid m) = mg_heap m"
    "known (mg_criCache (UnregisterContainer now cid m)) = known (mg_criCache m) - {cid}"
proof -
  obtain r m1 where g: "cri_get now cid m = (r, m1)" by force
  note b = bare_get[OF assms g]
  have ok: "cri_ok (mg_heap m1) (mg_criCache m1)" using b(1) by (simp add: bare_manager_def)
  have u: "mg_criCache (UnregisterContainer now cid m) = cc_Delete cid (mg_criCache m1)"
    and h: "mg_heap (UnregisterContainer now cid m) = mg_heap m1"
    by (auto simp: UnregisterContainer_def g Let_def split: option.split)
  have "bare_manager (m1\<lparr>mg_criCache := cc_Delete cid (mg_criCache m1)\<rparr>)"
    by (rule bare_cri_cache[OF b(1) cri_ok_delete(1)[OF ok]])
  then show "bare_manager (UnregisterContainer now cid m)"
    by (rule bare_frame) (auto simp: UnregisterContainer_def g Let_def split: option.split)
  show "mg_heap (UnregisterContainer now cid m) = mg_heap m" using h b(2) by simp
  show "known (mg_criCache (UnregisterContainer now cid m)) = known (mg_criCache m) - {cid}"
    using cri_ok_delete(2)[OF ok] u b(3) by simp
qed

lemma bare_send:
  "bare_manager m \<Longrightarrow> \<forall>a. cv_Container ev = Some a \<longrightarrow> a < length (mg_heap m) \<Longrightarrow> bare_manager (send_cri ev m)"
  by (auto simp: send_cri_def Let_def bare_manager_def pods_bare_def events_ok_def)

lemma send_frame [simp]: "mg_heap (send_cri ev m) = mg_heap m" "mg_criCache (send_cri ev m) = mg_criCache m"
  by (simp_all add: send_cri_def Let_def)

lemma note_frame [simp]: "mg_heap (note_cri_event m) = mg_heap m" "mg_criCache (note_cri_event m) = mg_criCache m"
  by (simp_all add: note_cri_event_def)

lemma bare_note: "bare_manager m \<Longrightarrow> bare_manager (note_cri_event m)"
  by (rule bare_frame) (simp_all add: note_cri_event_def)

section \<open>Scans\<close>

lemma listed_bare: "i \<in> set (list_entry fs e) \<Longrightarrow> bare_info i"
  by (auto simp: list_entry_def listed_info_def bare_info_def Let_def split: if_splits option.splits)

definition listed_ids :: "procfs \<Rightarrow> (string \<times> bool) list \<Rightarrow> string set" where
  "listed_ids fs es = ci_ID ` set (concat (map (list_entry fs) es))"

lemma listed_ids_iff:
  "cid \<in> listed_ids fs es \<longleftrightarrow> cid \<noteq> [] \<and>
     (\<exists>nm pid dat. (nm, True) \<in> set es \<and> parsePID nm = Some pid \<and> pf_cgroup fs pid = Some dat \<and> ExtractContainerID dat = cid)"
proof -
  have e: "cid \<in> ci_ID ` set (list_entry fs e) \<longleftrightarrow> cid \<noteq> [] \<and> snd e \<and>
      (\<exists>pid dat. parsePID (fst e) = Some pid \<and> pf_cgroup fs pid = Some dat \<and> ExtractContainerID dat = cid)" for e
  proof (cases "parsePID (fst e)")
    case (Some pid)
    have "ci_ID (listed_info fs pid dat c) = c" for dat c by (simp add: listed_info_def Let_def)
    then show ?thesis using Some by (cases "pf_cgroup fs pid") (auto simp: list_entry_def Let_def)
  qed (simp add: list_entry_def)
  have "cid \<in> listed_ids fs es \<longleftrightarrow> (\<exists>e\<in>set es. cid \<in> ci_ID ` set (list_entry fs e))"
    by (auto simp: listed_ids_def)
  also have "\<dots> \<longleftrightarrow> (\<exists>nm d. (nm, d) \<in> set es \<and> cid \<in> ci_ID ` set (list_entry fs (nm, d)))" by auto
  finally show ?thesis unfolding e by auto
qed

lemma bare_list:
  assumes "bare_manager m" "list_into_heap fs now m = (r, m')"
  shows "bare_manager m'" "mg_criCache m' = mg_criCache m"
    "r = Some as \<Longrightarrow> \<exists>es. pf_dir fs = Some es \<and> (\<forall>a\<in>set as. a < length (mg_heap m')) \<and>
       (\<lambda>a. ci_ID (mg_heap m' ! a)) ` set as = listed_ids fs es"
    "r = None \<longleftrightarrow> pf_dir fs = None"
proof -
  show "r = None \<longleftrightarrow> pf_dir fs = None"
    using assms(2) by (auto simp: list_into_heap_def ListContainers_def listContainersFromProc_def Let_def split: option.splits)
  show c: "mg_criCache m' = mg_criCache m"
    using assms(2) by (auto simp: list_into_heap_def ListContainers_def listContainersFromProc_def Let_def split: option.splits)
  have ev: "cn_eventCh (mg_cri m') = cn_eventCh (mg_cri m)" "mg_k8sCache m' = mg_k8sCache m" "mg_k8s m' = mg_k8s m"
    using assms(2) by (auto simp: list_into_heap_def ListContainers_def listContainersFromProc_def Let_def split: option.splits)
  show "bare_manager m'"
  proof (cases "pf_dir fs")
    case None
    have "mg_heap m' = mg_heap m"
      using assms(2) None by (auto simp: list_into_heap_def ListContainers_def listContainersFromProc_def Let_def)
    then show ?thesis by (rule bare_frame[OF assms(1) _ c ev(2)]) (simp_all only: ev)
  next
    case (Some es)
    then have h: "mg_heap m' = mg_heap m @ concat (map (list_entry fs) es)"
      using assms(2) by (auto simp: list_into_heap_def ListContainers_def listContainersFromProc_def Let_def)
    have "cri_ok (mg_heap m') (mg_criCache m)"
      by (rule cri_ok_heap[of "mg_heap m"]) (use assms(1) h in \<open>auto simp: bare_manager_def nth_append\<close>)
    then show ?thesis using assms(1) h c ev
      by (force simp: bare_manager_def pods_bare_def events_ok_def intro: listed_bare)
  qed
  assume r: "r = Some as"
  then obtain es where es: "pf_dir fs = Some es"
    using assms(2) by (auto simp: list_into_heap_def ListContainers_def listContainersFromProc_def Let_def split: option.splits)
  let ?cs = "concat (map (list_entry fs) es)"
  have h: "mg_heap m' = mg_heap m @ ?cs" "as = [length (mg_heap m)..<length (mg_heap m) + length ?cs]"
    using assms(2) r es by (auto simp: list_into_heap_def ListContainers_def listContainersFromProc_def Let_def)
  have "map (\<lambda>a. mg_heap m' ! a) as = ?cs"
    unfolding h by (rule nth_equalityI) (auto simp: nth_append)
  then have "(\<lambda>a. ci_ID (mg_heap m' ! a)) ` set as = ci_ID ` set ?cs"
    by (metis image_image image_set)
  then show "\<exists>es. pf_dir fs = Some es \<and> (\<forall>a\<in>set as. a < length (mg_heap m')) \<and>
       (\<lambda>a. ci_ID (mg_heap m' ! a)) ` set as = listed_ids fs es"
    using es h by (auto simp: listed_ids_def)
qed

lemma full_step:
  assumes "bare_manager m" "a < length (mg_heap m)"
  shows "bare_manager (full_scan_step now a m)" "mg_heap (full_scan_step now a m) = mg_heap m"
    "known (mg_criCache (full_scan_step now a m)) = insert (ci_ID (mg_heap m ! a)) (known (mg_criCache m))"
  using bare_register[OF assms, of now] assms(2) by (auto simp: full_scan_step_def intro!: bare_send)

lemma new_step:
  assumes "bare_manager m" "a < length (mg_heap m)"
  shows "bare_manager (new_scan_step now a m)" "mg_heap (new_scan_step now a m) = mg_heap m"
    "known (mg_criCache (new_scan_step now a m)) = insert (ci_ID (mg_heap m ! a)) (known (mg_criCache m))"
proof -
  obtain r m1 where g: "cri_get now (ci_ID (mg_heap m ! a)) m = (r, m1)" by force
  note b = bare_get[OF assms(1) g]
  have a: "a < length (mg_heap m1)" using assms(2) b(2) by simp
  note reg = bare_register[OF b(1) a, of now]
  show "bare_manager (new_scan_step now a m)"
    using reg b a by (auto simp: new_scan_step_def g split: option.split intro!: bare_send bare_note)
  show "mg_heap (new_scan_step now a m) = mg_heap m" using reg b by (simp add: new_scan_step_def g split: option.split)
  show "known (mg_criCache (new_scan_step now a m)) = insert (ci_ID (mg_heap m ! a)) (known (mg_criCache m))"
    using reg b by (cases r) (auto simp: new_scan_step_def g)
qed

lemma gone_step:
  assumes "bare_manager m"
  shows "bare_manager (gone_scan_step now cur cid m)"
    "known (mg_criCache (gone_scan_step now cur cid m)) = (if cid \<in> cur then known (mg_criCache m) else known (mg_criCache m) - {cid})"
proof -
  obtain r m1 where g: "cri_get now cid m = (r, m1)" by force
  note b = bare_get[OF assms g]
  note un = bare_unregister[OF b(1), of now cid]
  show "bare_manager (gone_scan_step now cur cid m)"
    using un b assms by (auto simp: gone_scan_step_def g split: option.split intro!: bare_send bare_note)
  show "known (mg_criCache (gone_scan_step now cur cid m)) = (if cid \<in> cur then known (mg_criCache m) else known (mg_criCache m) - {cid})"
    using un b by (cases r) (auto simp: gone_scan_step_def g)
qed

lemma full_steps:
  "bare_manager m \<Longrightarrow> \<forall>a\<in>set as. a < length (mg_heap m) \<Longrightarrow> bare_manager (fold (full_scan_step now) as m)"
proof (induction as arbitrary: m)
  case (Cons a as)
  then show ?case using full_step[of m a now] by simp
qed simp

lemma new_steps:
  "bare_manager m \<Longrightarrow> \<forall>a\<in>set as. a < length (mg_heap m) \<Longrightarrow> bare_manager (fold (new_scan_step now) as m) \<and>
     known (mg_criCache (fold (new_scan_step now) as m)) = known (mg_criCache m) \<union> (\<lambda>a. ci_ID (mg_heap m ! a)) ` set as"
proof (induction as arbitrary: m)
  case (Cons a as)
  then show ?case using new_step[of m a now] Cons.IH[of "new_scan_step now a m"] by auto
qed simp

lemma gone_steps:
  "bare_manager m \<Longrightarrow> bare_manager (fold (gone_scan_step now cur) cids m) \<and>
     known (mg_criCache (fold (gone_scan_step now cur) cids m)) = known (mg_criCache m) - (set cids - cur)"
proof (induction cids arbitrary: m)
  case (Cons c cids)
  then show ?case using gone_step[of m now cur c] Cons.IH[of "gone_scan_step now cur c m"] by auto
qed simp

lemma known_ids: "bare_manager m \<Longrightarrow> known (mg_criCache m) = set (map fst (lr_entries (cc_lru (mg_criCache m))))"
  by (simp add: known_def value_of_def map_of_eq_None_iff)

lemma scan_known:
  assumes "bare_manager m" "pf_dir fs = Some es" "\<forall>xs. set (ord xs) = set xs"
  shows "known (mg_criCache (incrementalContainerScan ord fs now m)) = listed_ids fs es"
proof -
  obtain r m1 where l: "list_into_heap fs now m = (r, m1)" by force
  note b = bare_list[OF assms(1) l]
  obtain as where as: "r = Some as" using b(4) assms(2) by (cases r) auto
  have h: "\<forall>a\<in>set as. a < length (mg_heap m1)" "(\<lambda>a. ci_ID (mg_heap m1 ! a)) ` set as = listed_ids fs es"
    using b(3)[OF as] assms(2) by auto
  define m2 where "m2 = fold (new_scan_step now) as m1"
  have m2: "bare_manager m2" "known (mg_criCache m2) = known (mg_criCache m1) \<union> listed_ids fs es"
    using new_steps[OF b(1) h(1), of now] h(2) by (auto simp: m2_def)
  have ids: "set (GetAllContainerIDs ord (mg_criCache m2)) = known (mg_criCache m2)"
    using assms(3) known_ids[OF m2(1)] by (simp add: GetAllContainerIDs_def)
  have "incrementalContainerScan ord fs now m =
      fold (gone_scan_step now (listed_ids fs es)) (GetAllContainerIDs ord (mg_criCache m2)) m2"
    unfolding m2_def incrementalContainerScan_def l as prod.case option.case Let_def h(2) ..
  then show ?thesis
    using gone_steps[OF m2(1), of now "listed_ids fs es" "GetAllContainerIDs ord (mg_criCache m2)"] ids m2(2) by auto
qed

text \<open>C38: The incremental scan synchronises the cache with the kernel. When the directory can be read, the
  containers known after the scan are exactly those that some process directory of \<open>/proc\<close> names in
  its cgroup file: new ones are registered, vanished ones are unregistered, in any map order.\<close>

theorem scan_synchronises:
  assumes "bare_manager m" "pf_dir fs = Some es" "\<forall>xs. set (ord xs) = set xs"
  shows "known (mg_criCache (incrementalContainerScan ord fs now m)) =
    {cid. cid \<noteq> [] \<and> (\<exists>nm pid dat. (nm, True) \<in> set es \<and> parsePID nm = Some pid \<and>
       pf_cgroup fs pid = Some dat \<and> ExtractContainerID dat = cid)}"
  using scan_known[OF assms] listed_ids_iff[of _ fs es] by blast

section \<open>The manager as a machine\<close>

inductive manager_step :: "manager \<Rightarrow> manager \<Rightarrow> bool" where
  mg_resolve: "manager_step m (snd (ResolveContainerID fs now cg pid m))"
| mg_info: "manager_step m (snd (GetContainerInfo now cid m))"
| mg_discover: "manager_step m (discoverContainers fs now m)"
| mg_connect: "manager_step m (StartEventStream stat dial now m)"
| mg_full: "manager_step m (fullContainerScan fs now m)"
| mg_incremental: "manager_step m (incrementalContainerScan ord fs now m)"
| mg_watch: "manager_step m (StartWatch token_file service_host m)"
| mg_pods: "manager_step m (discoverPodsFromCgroups fs now m)"
| mg_cri_event: "manager_step m (consumeCRIEvent now m)"
| mg_k8s_event: "manager_step m (consumeK8sEvent now m)"
| mg_reap: "manager_step m (reapPIDCache ords now m)"
| mg_prune: "fair_perm (pr_containers ords) \<Longrightarrow> manager_step m (snd (PruneCaches ords now idle m))"

lemma bare_cache_pid: "bare_manager m \<Longrightarrow> bare_manager (cache_pid now pid cid m)"
  by (rule bare_frame) (simp_all add: cache_pid_def)

lemma bare_pidcache: "bare_manager m \<Longrightarrow> bare_manager (m\<lparr>mg_pidCache := pc\<rparr>)"
  by (rule bare_frame) simp_all

lemma bare_cgroups: "bare_manager m \<Longrightarrow> bare_manager (m\<lparr>mg_cgroupMap := cg\<rparr>)"
  by (rule bare_frame) simp_all

lemma bare_resolve: "bare_manager m \<Longrightarrow> bare_manager (snd (ResolveContainerID fs now cg pid m))"
  by (auto simp: ResolveContainerID_def Let_def case_prod_beta intro!: bare_cache_pid bare_pidcache split: option.split)

lemma bare_info_step:
  assumes "bare_manager m" "GetContainerInfo now cid m = (r, m')"
  shows "bare_manager m'" "r = Some i \<Longrightarrow> bare_info i"
proof -
  obtain a m1 where g: "cri_get now cid m = (a, m1)" by force
  note b = bare_get[OF assms(1) g]
  have m': "m' = m1" "r = map_option (\<lambda>a. mg_heap m1 ! a) a" using assms(2) g by (auto simp: GetContainerInfo_def)
  show "bare_manager m'" using b(1) m'(1) by simp
  show "bare_info i" if "r = Some i"
  proof -
    from that m'(2) obtain x where x: "a = Some x" "i = mg_heap m1 ! x" by auto
    then have "x < length (mg_heap m1)" using b(2,4) by simp
    then show ?thesis using x(2) b(1) by (simp add: bare_manager_def)
  qed
qed

lemma bare_discover: "bare_manager m \<Longrightarrow> bare_manager (discover_loop fs now es m)"
  by (induction fs now es m rule: discover_loop.induct) (auto simp: Let_def bare_cache_pid split: option.splits)

lemma bare_cri_field: "bare_manager m \<Longrightarrow> cn_eventCh c = cn_eventCh (mg_cri m) \<Longrightarrow> bare_manager (m\<lparr>mg_cri := c\<rparr>)"
  by (rule bare_frame) simp_all

lemma bare_k8s_field: "bare_manager m \<Longrightarrow> kn_eventCh k = kn_eventCh (mg_k8s m) \<Longrightarrow> bare_manager (m\<lparr>mg_k8s := k\<rparr>)"
  by (rule bare_frame) simp_all

lemma connect_events: "cn_eventCh (snd (ConnectWithContext stat dial now c)) = cn_eventCh c"
  by (simp add: ConnectWithContext_def Let_def split: option.split)

lemma watch_events: "kn_eventCh (snd (connectToAPIServer h k)) = kn_eventCh k"
  by (simp add: connectToAPIServer_def Let_def)

lemma bare_full: "bare_manager m \<Longrightarrow> bare_manager (fullContainerScan fs now m)"
proof -
  assume m: "bare_manager m"
  obtain r m1 where l: "list_into_heap fs now m = (r, m1)" by force
  note b = bare_list[OF m l]
  show ?thesis using b full_steps[OF b(1)] by (cases r) (auto simp: fullContainerScan_def l)
qed

lemma bare_incremental: "bare_manager m \<Longrightarrow> bare_manager (incrementalContainerScan ord fs now m)"
proof -
  assume m: "bare_manager m"
  obtain r m1 where l: "list_into_heap fs now m = (r, m1)" by force
  note b = bare_list[OF m l]
  show ?thesis
  proof (cases r)
    case None
    then show ?thesis using b by (simp add: incrementalContainerScan_def l)
  next
    case (Some as)
    then have "\<forall>a\<in>set as. a < length (mg_heap m1)" using b(3) by auto
    then show ?thesis using new_steps[OF b(1), of as now] gone_steps
      by (simp add: incrementalContainerScan_def l Some Let_def)
  qed
qed

lemma bare_enrich:
  assumes "bare_manager m" "bare_pod pod"
  shows "bare_manager (enrich_container now pod cid m)"
proof -
  obtain r m1 where g: "cri_get now cid m = (r, m1)" by force
  note b = bare_get[OF assms(1) g]
  show ?thesis
  proof (cases r)
    case None
    then show ?thesis using b by (simp add: enrich_container_def g)
  next
    case (Some a)
    then have a: "a < length (mg_heap m1)" "ci_ID (mg_heap m1 ! a) = cid" using b by auto
    let ?H = "(mg_heap m1)[a := enrich_info pod (mg_heap m1 ! a)]"
    have i: "\<forall>i\<in>set (mg_heap m1). bare_info i" "cri_ok (mg_heap m1) (mg_criCache m1)" "pods_bare m1" "events_ok m1"
      using b(1) by (auto simp: bare_manager_def)
    have "bare_info (enrich_info pod (mg_heap m1 ! a))"
      using assms(2) i(1) a(1) by (auto simp: bare_info_def bare_pod_def enrich_info_def)
    then have "\<forall>i\<in>set ?H. bare_info i" using i(1) set_update_subset_insert by fastforce
    moreover have "cri_ok ?H (mg_criCache m1)"
      by (rule cri_ok_heap[OF i(2)]) (use a in \<open>auto simp: nth_list_update enrich_info_def\<close>)
    then have "cri_ok ?H (cc_Set now cid a (mg_criCache m1))"
      by (rule cri_ok_set(1)) (use a in \<open>auto simp: enrich_info_def\<close>)
    ultimately show ?thesis using i(3,4) by (simp add: enrich_container_def g Some bare_manager_def pods_bare_def events_ok_def)
  qed
qed

lemma bare_pod_added: "bare_manager m \<Longrightarrow> bare_pod pod \<Longrightarrow> bare_manager (HandlePodAdded now pod m)"
proof -
  assume "bare_manager m" and p: "bare_pod pod"
  then have "bare_manager (fold (enrich_container now pod) cids m)" for cids
    by (induction cids arbitrary: m) (simp_all add: bare_enrich)
  then show ?thesis by (simp add: HandlePodAdded_def)
qed

lemma bare_consume_cri: "bare_manager m \<Longrightarrow> bare_manager (consumeCRIEvent now m)"
proof -
  assume m: "bare_manager m"
  show ?thesis
  proof (cases "cn_eventCh (mg_cri m)")
    case Nil
    then show ?thesis using m by (simp add: consumeCRIEvent_def)
  next
    case (Cons ev evs)
    let ?m = "m\<lparr>mg_cri := (mg_cri m)\<lparr>cn_eventCh := evs\<rparr>\<rparr>"
    have b: "bare_manager ?m" using m Cons by (simp add: bare_manager_def events_ok_def pods_bare_def)
    have "a < length (mg_heap ?m)" if "cv_Container ev = Some a" for a
      using m Cons that by (simp add: bare_manager_def events_ok_def)
    then have "bare_manager (handle_cri_event now ev ?m)"
      using bare_register(1)[OF b] bare_unregister(1)[OF b] b by (auto simp: handle_cri_event_def split: option.split)
    then show ?thesis by (simp add: consumeCRIEvent_def Cons)
  qed
qed

lemma bare_consume_k8s: "bare_manager m \<Longrightarrow> bare_manager (consumeK8sEvent now m)"
proof -
  assume m: "bare_manager m"
  show ?thesis
  proof (cases "kn_eventCh (mg_k8s m)")
    case Nil
    then show ?thesis using m by (simp add: consumeK8sEvent_def)
  next
    case (Cons ev evs)
    let ?m = "m\<lparr>mg_k8s := (mg_k8s m)\<lparr>kn_eventCh := evs\<rparr>\<rparr>"
    have b: "bare_manager ?m" using m Cons by (auto simp: bare_manager_def events_ok_def pods_bare_def)
    have "bare_pod p" if "kv_Pod ev = Some p" for p
      using m Cons that by (simp add: bare_manager_def pods_bare_def)
    then have "bare_manager (handle_k8s_event now ev ?m)"
      using bare_pod_added[OF b] b by (auto simp: handle_k8s_event_def HandlePodUpdated_def HandlePodDeleted_def split: option.split)
    then show ?thesis by (simp add: consumeK8sEvent_def Cons)
  qed
qed

lemma enrich_pod_bare: "bare_info i \<Longrightarrow> bare_pod p \<Longrightarrow> bare_pod (enrich_pod i p)"
  by (auto simp: enrich_pod_def bare_info_def bare_pod_def Let_def)

lemma bare_pod_loop:
  "bare_manager m \<Longrightarrow> pod_loop now ls m = (r, m') \<Longrightarrow> bare_manager m' \<and> (\<forall>p. r = Some p \<longrightarrow> bare_pod p)"
proof (induction ls)
  case (Cons l ls)
  show ?case
  proof (cases "\<exists>path. trim_space l \<noteq> [] \<and> third_part (trim_space l) = Some path \<and> str_contains path ''kubepods'' \<and> fst (snd (pod_segments path)) \<noteq> []")
    case False
    then have "pod_loop now (l # ls) m = pod_loop now ls m"
      by (auto simp: Let_def case_prod_beta split: option.splits)
    then show ?thesis using Cons by simp
  next
    case True
    then obtain path u c q where p: "trim_space l \<noteq> []" "third_part (trim_space l) = Some path" "str_contains path ''kubepods''"
      "pod_segments path = (u, c, q)" "c \<noteq> []" by (metis prod.collapse)
    obtain i m1 where g: "GetContainerInfo now c m = (i, m1)" by force
    note b = bare_info_step[OF Cons.prems(1) g]
    have "r = Some (case i of None \<Rightarrow> minimal_pod u c q | Some info \<Rightarrow> enrich_pod info (minimal_pod u c q))" "m' = m1"
      using Cons.prems(2) p g by (auto simp: Let_def)
    moreover have "bare_pod (minimal_pod u c q)" by (simp add: minimal_pod_def bare_pod_def)
    ultimately show ?thesis using b enrich_pod_bare by (auto split: option.split)
  qed
qed simp

lemma bare_announce: "bare_manager m \<Longrightarrow> bare_pod pod \<Longrightarrow> bare_manager (snd (announce_pod now pod (n, m)))"
proof -
  assume m: "bare_manager m" and p: "bare_pod pod"
  have "set (AList.update (po_Namespace pod @ ''/'' @ po_Name pod) pod (kc_pods (mg_k8sCache m))) \<subseteq>
      insert (po_Namespace pod @ ''/'' @ po_Name pod, pod) (set (kc_pods (mg_k8sCache m)))" by (rule set_update_sub)
  then have "\<forall>q\<in>snd ` set (AList.update (po_Namespace pod @ ''/'' @ po_Name pod) pod (kc_pods (mg_k8sCache m))). bare_pod q"
    using m p by (fastforce simp: bare_manager_def pods_bare_def)
  then show ?thesis using m p by (auto simp: announce_pod_def Let_def kc_Set_def bare_manager_def pods_bare_def events_ok_def)
qed

lemma bare_discover_pod: "bare_manager (snd nm) \<Longrightarrow> bare_manager (snd (discover_pod fs now e nm))"
  using bare_pod_loop[of "snd nm" now] bare_announce
  by (auto simp: discover_pod_def extractPodInfoFromCgroup_def split: option.splits prod.splits)

lemma bare_discover_pods: "bare_manager m \<Longrightarrow> bare_manager (discoverPodsFromCgroups fs now m)"
proof -
  assume m: "bare_manager m"
  have "bare_manager (snd nm) \<Longrightarrow> bare_manager (snd (fold (discover_pod fs now) es nm))" for es nm
    by (induction es arbitrary: nm) (simp_all add: bare_discover_pod)
  from this[of "(0, m)"] m show ?thesis
    by (auto simp: discoverPodsFromCgroups_def case_prod_beta Let_def intro!: bare_k8s_field split: option.split)
qed

lemma bare_prune_cgroup: "bare_manager (snd nm) \<Longrightarrow> bare_manager (snd (prune_cgroup now p nm))"
  using bare_get(1)[of "snd nm" now "snd p"]
  by (auto simp: prune_cgroup_def intro: bare_cgroups split: prod.splits option.splits)

lemma bare_prune_fold: "bare_manager (snd nm) \<Longrightarrow> bare_manager (snd (fold (prune_cgroup now) ps nm))"
  by (induction ps arbitrary: nm) (simp_all add: bare_prune_cgroup)

lemma bare_prune:
  assumes "bare_manager m" "fair_perm (pr_containers ords)"
  shows "bare_manager (snd (PruneCaches ords now idle m))"
proof -
  obtain n2 cc where c: "cc_Prune (pr_containers ords) now idle (mg_criCache m) = (n2, cc)" by force
  have "cri_ok (mg_heap m) cc" using cri_ok_prune[OF _ assms(2) c] assms(1) by (simp add: bare_manager_def)
  then have "bare_manager (m\<lparr>mg_pidCache := pc, mg_criCache := cc\<rparr>)" for pc
    using bare_cri_cache[OF bare_pidcache[OF assms(1)]] by simp
  then show ?thesis by (auto simp: PruneCaches_def c Let_def case_prod_beta intro!: bare_prune_fold)
qed

interpretation enrichment: invariant_system "\<lambda>m. \<exists>cfg. m = NewManager cfg" manager_step bare_manager
proof
  fix m m'
  show "\<exists>cfg. m = NewManager cfg \<Longrightarrow> bare_manager m"
    using empty_rep by (auto simp: bare_manager_def pods_bare_def events_ok_def cri_ok_def NewManager_def Let_def NewCRICache_def
        NewCRICacheWithMaxSize_def NewK8sCache_def NewK8sIntegration_def NewCRIIntegration_def value_of_def empty_lru_def)
  assume m: "bare_manager m" and "manager_step m m'"
  from this(2) show "bare_manager m'"
  proof cases
    case (mg_info now cid)
    then show ?thesis using bare_info_step(1)[OF m, of now cid] by (metis prod.collapse)
  next
    case (mg_discover fs now)
    then show ?thesis using m by (simp add: discoverContainers_def bare_discover split: option.split)
  next
    case (mg_connect stat dial now)
    then show ?thesis using m by (simp add: StartEventStream_def bare_cri_field connect_events)
  next
    case (mg_watch tf h)
    then show ?thesis using m by (simp add: StartWatch_def bare_k8s_field watch_events)
  next
    case (mg_reap ords now)
    then show ?thesis using m by (simp add: reapPIDCache_def pruneCgroupMap_def bare_prune_fold bare_pidcache)
  qed (simp_all only: bare_resolve[OF m] bare_full[OF m] bare_incremental[OF m] bare_discover_pods[OF m]
      bare_consume_cri[OF m] bare_consume_k8s[OF m] bare_prune[OF m])
qed

text \<open>C39: The enrichment never learns a real namespace, image or privilege. Whatever \<open>/proc\<close> shows and in
  whatever order scans, pod discoveries and events interleave, the metadata returned for a container
  has an empty or invented namespace \<open>default\<close>, likewise the service account, the image \<open>unknown\<close>, and is
  not privileged, since the API clients of both integrations are not written.\<close>

theorem metadata_is_invented:
  assumes "manager_step\<^sup>*\<^sup>* (NewManager cfg) m" and "GetContainerInfo now cid m = (Some i, m')"
  shows "ci_Namespace i \<in> {[], ''default''} \<and> ci_ServiceAccount i \<in> {[], ''default''} \<and> ci_Image i = ''unknown'' \<and> \<not> ci_Privileged i"
  using bare_info_step(2)[OF enrichment.reachable_inv[OF _ assms(1)] assms(2)] by (auto simp: bare_info_def)

text \<open>The PID cache is not told about a container that goes: its process keeps resolving to it.\<close>

lemma stale_attribution:
  assumes "value_of (pc_lru (mg_pidCache m)) pid = Some e" "now < pe_expiry e" "pe_containerID e \<noteq> []" "bare_manager m"
  shows "fst (ResolveContainerID fs now cg pid (UnregisterContainer t (pe_containerID e) m)) = pe_containerID e \<and>
    fst (GetContainerInfo now (pe_containerID e) (UnregisterContainer t (pe_containerID e) m)) = None"
proof
  let ?m = "UnregisterContainer t (pe_containerID e) m"
  have "mg_pidCache ?m = mg_pidCache m"
    by (auto simp: UnregisterContainer_def cri_get_def Let_def case_prod_beta split: option.split)
  then show "fst (ResolveContainerID fs now cg pid ?m) = pe_containerID e"
    using assms by (simp add: ResolveContainerID_def pc_Get_def Let_def)
  obtain r m1 where g: "cri_get now (pe_containerID e) ?m = (r, m1)" by force
  have "r = None" using bare_get(5)[OF bare_unregister(1)[OF assms(4)] g] bare_unregister(3)[OF assms(4)] by auto
  then show "fst (GetContainerInfo now (pe_containerID e) ?m) = None" by (simp add: GetContainerInfo_def g)
qed

section \<open>A concrete node\<close>

definition demo_fs :: procfs where
  "demo_fs = \<lparr>pf_dir = Some [(''7'', True), (''self'', True), (''8'', False)],
     pf_cgroup = (\<lambda>pid. if pid = 7 then Some ''0::/docker/0123456789abcdef'' else None), pf_comm = (\<lambda>_. ''nginx'')\<rparr>"

definition demo_manager :: manager where
  "demo_manager = NewManager \<lparr>mc_CRIEndpoint = [], mc_K8sNodeName = [], mc_PIDCacheSize = 0, mc_PIDCacheTTL = 0, mc_ProcFSPath = []\<rparr>"

lemma demo_bare: "bare_manager demo_manager"
  unfolding demo_manager_def by (rule enrichment.init_inv) blast

lemma demo_pid: "parsePID ''7'' = Some 7"
  by (simp add: parsePID_def)

lemma demo_listed: "''0123456789abcdef'' \<in> listed_ids demo_fs [(''7'', True), (''self'', True), (''8'', False)]"
  unfolding listed_ids_iff
  by (rule conjI, simp, rule exI[of _ "''7''"], rule exI[of _ 7], rule exI[of _ "''0::/docker/0123456789abcdef''"])
    (simp add: demo_pid docker_resolved demo_fs_def)

theorem scan_synchronises_witness:
  "''0123456789abcdef'' \<in> known (mg_criCache (incrementalContainerScan (\<lambda>ids. ids) demo_fs 1 demo_manager))"
proof -
  have d: "pf_dir demo_fs = Some [(''7'', True), (''self'', True), (''8'', False)]" by (simp add: demo_fs_def)
  show ?thesis
    using scan_synchronises[OF demo_bare d, of "\<lambda>ids. ids" 1] demo_listed unfolding listed_ids_iff by blast
qed

theorem metadata_is_invented_witness:
  "\<exists>i m'. GetContainerInfo 2 ''0123456789abcdef'' (incrementalContainerScan (\<lambda>ids. ids) demo_fs 1 demo_manager) = (Some i, m') \<and>
     ci_Image i = ''unknown''"
proof -
  let ?m = "incrementalContainerScan (\<lambda>ids. ids) demo_fs 1 demo_manager"
  have d: "pf_dir demo_fs = Some [(''7'', True), (''self'', True), (''8'', False)]" by (simp add: demo_fs_def)
  have k: "''0123456789abcdef'' \<in> known (mg_criCache ?m)"
    using scan_known[OF demo_bare d, of "\<lambda>ids. ids" 1] demo_listed by simp
  obtain r m' where g: "cri_get 2 ''0123456789abcdef'' ?m = (r, m')" by force
  have "r \<noteq> None" using bare_get(5)[OF bare_incremental[OF demo_bare] g] k by simp
  then obtain i where i: "GetContainerInfo 2 ''0123456789abcdef'' ?m = (Some i, m')"
    using g by (auto simp: GetContainerInfo_def)
  have "manager_step\<^sup>*\<^sup>* demo_manager ?m" by (rule r_into_rtranclp) (rule mg_incremental)
  then have "ci_Image i = ''unknown''" using metadata_is_invented[OF _ i] unfolding demo_manager_def by blast
  then show ?thesis using i by blast
qed

end
