(* ===== verification/Pipeline_Facts.thy ===== *)
theory Pipeline_Facts
  imports Pipeline Engine_Total Enrichment_Facts Correlate_Inv Net_Refine
begin

text \<open>
  Properties of an event's way through the pipeline. The frame lemmas say which component each stage
  touches; with them the properties of the components compose: processing never panics and keeps every
  component's invariant, no signal is sent unless mode, attribution and rule allow it, and the alert
  counter counts what the emitter received. The triage interface of theory \<open>Ai_Connector\<close> is used here.
\<close>

section \<open>What each stage leaves alone\<close>

text \<open>The part of the state that only routing changes.\<close>

definition same_core :: "('u, 't) pipeline \<Rightarrow> ('u, 't) pipeline \<Rightarrow> bool" where
  "same_core p p' \<longleftrightarrow> pi_mode p' = pi_mode p \<and> pi_response p' = pi_response p \<and> pi_netEnforcer p' = pi_netEnforcer p \<and>
     pi_coalescer p' = pi_coalescer p \<and> pi_aiTrier p' = pi_aiTrier p"

text \<open>The part that the stages in front of rule evaluation leave alone.\<close>

definition same_sinks :: "('u, 't) pipeline \<Rightarrow> ('u, 't) pipeline \<Rightarrow> bool" where
  "same_sinks p p' \<longleftrightarrow> same_core p p' \<and> pi_alertEmit p' = pi_alertEmit p \<and> pi_alertsEmitted p' = pi_alertsEmitted p \<and>
     pi_metrics p' = pi_metrics p \<and> pi_correlator p' = pi_correlator p \<and> pi_incidents p' = pi_incidents p \<and>
     pi_eventsProcessed p' = pi_eventsProcessed p \<and> pi_anomalyThreshold p' = pi_anomalyThreshold p"

text \<open>Scoring leaves engine and enricher alone as well.\<close>

definition scored :: "('u, 't) pipeline \<Rightarrow> ('u, 't) pipeline \<Rightarrow> bool" where
  "scored p p' \<longleftrightarrow> same_sinks p p' \<and> pi_ruleEngine p' = pi_ruleEngine p \<and> pi_enricher p' = pi_enricher p"

lemma same_core_refl [simp]: "same_core p p"
  by (simp add: same_core_def)

lemma same_core_trans: "same_core p q \<Longrightarrow> same_core q r \<Longrightarrow> same_core p r"
  by (simp add: same_core_def)

lemma same_sinks_refl [simp]: "same_sinks p p"
  by (simp add: same_sinks_def)

lemma same_sinks_trans: "same_sinks p q \<Longrightarrow> same_sinks q r \<Longrightarrow> same_sinks p r"
  by (auto simp: same_sinks_def intro: same_core_trans)

lemma scored_refl [simp]: "scored p p"
  by (simp add: scored_def)

lemma scored_trans: "scored p q \<Longrightarrow> scored q r \<Longrightarrow> scored p r"
  by (auto simp: scored_def intro: same_sinks_trans)

lemma enrich_sinks: "enrichEvent w raw p = (ev, q) \<Longrightarrow> same_sinks p q \<and> pi_ruleEngine q = pi_ruleEngine p"
  by (auto simp: enrichEvent_def same_sinks_def same_core_def Let_def split: option.splits prod.splits if_splits)

lemma try_scored: "scored p (tryBuildBaseline ev p)"
  by (simp add: tryBuildBaseline_def Let_def scored_def same_sinks_def same_core_def SetBaseline_def)

lemma extractors_scored: "scored p (p\<lparr>pi_extractors := x\<rparr>)"
  by (simp add: scored_def same_sinks_def same_core_def)

lemma feed_scored: "scored p (snd (feed_extractor k nr p))"
  by (simp add: feed_extractor_def Let_def extractors_scored)

text \<open>Scoring only sets the score of the event.\<close>

definition same_event :: "enriched_event \<Rightarrow> enriched_event \<Rightarrow> bool" where
  "same_event ev ev' \<longleftrightarrow> ev' = ev\<lparr>ev_AnomalyScore := ev_AnomalyScore ev'\<rparr>"

lemma same_event_sel:
  assumes "same_event ev ev'"
  shows "ev_RawEvent ev' = ev_RawEvent ev" "ev_ContainerID ev' = ev_ContainerID ev" "ev_Namespace ev' = ev_Namespace ev"
    "ev_ContainerAttributed ev' = ev_ContainerAttributed ev"
proof -
  note e = assms[unfolded same_event_def]
  show "ev_RawEvent ev' = ev_RawEvent ev" "ev_ContainerID ev' = ev_ContainerID ev" "ev_Namespace ev' = ev_Namespace ev"
    "ev_ContainerAttributed ev' = ev_ContainerAttributed ev" by (subst e, simp)+
qed

lemma feed_container_scored: "scored p (snd (feedSyscallForAnomaly ev p))"
  using feed_scored[of p "ev_ContainerID ev" "ucast (SyscallNr (ev_RawEvent ev))"]
  by (simp add: feedSyscallForAnomaly_def Let_def case_prod_beta)

lemma feed_cgroup_scored: "scored p (snd (feedSyscallForAnomalyCgroupFallback ev p))"
  unfolding feedSyscallForAnomalyCgroupFallback_def Let_def case_prod_beta snd_conv by (rule feed_scored)

lemma score_scored: "scored p (snd (score_event ev p))"
proof -
  have t: "scored p (tryBuildBaseline ev' (snd (feedSyscallForAnomaly ev p)))" for ev'
    by (rule scored_trans[OF feed_container_scored try_scored])
  show ?thesis by (simp add: score_event_def Let_def case_prod_beta t feed_container_scored feed_cgroup_scored)
qed

lemma score_same: "same_event ev (fst (score_event ev p))"
  by (simp add: score_event_def Let_def case_prod_beta same_event_def)

lemma evaluate_sinks: "evaluate_rules w ev p = Some (mt, q) \<Longrightarrow> same_sinks p q \<and> pi_enricher q = pi_enricher p"
  by (auto simp: evaluate_rules_def same_sinks_def same_core_def split: option.splits prod.splits)

lemma deliver_core [simp]: "same_core p (deliver a q) = same_core p q"
  by (simp add: deliver_def same_core_def)

lemma suggest_core [simp]: "same_core p (suggest i q) = same_core p q"
  by (simp add: suggest_def same_core_def)

lemma metrics_core [simp]: "same_core p (on_metrics f q) = same_core p q"
  by (simp add: on_metrics_def same_core_def)

lemma anomaly_core [simp]: "same_core p (emitAnomalyAlert w ev q) = same_core p q"
  by (simp add: emitAnomalyAlert_def)

lemma correlation_core:
  "processCorrelationSignal w ev mt p = Some q \<Longrightarrow> same_core p q"
  by (auto simp: processCorrelationSignal_def emitCorrelationAlert_def Let_def same_core_def[of p "p\<lparr>pi_correlator := _\<rparr>"]
      split: option.splits if_splits)

section \<open>The stages of one event\<close>

definition prepared :: "('u, 't) world \<Rightarrow> scarlet_event \<Rightarrow> ('u, 't) pipeline \<Rightarrow> enriched_event \<times> ('u, 't) pipeline" where
  "prepared w raw p =
    (let (ev, q) = enrichEvent w raw (p\<lparr>pi_eventsProcessed := pi_eventsProcessed p + 1\<rparr>) in score_event ev q)"

lemma process_prepared: "processOneEvent w raw p = (case prepared w raw p of (ev, q) \<Rightarrow> decide_event w ev q)"
  by (simp add: processOneEvent_def prepared_def Let_def case_prod_beta)

lemma prepared_sinks: "prepared w raw p = (ev, q) \<Longrightarrow> same_sinks (p\<lparr>pi_eventsProcessed := pi_eventsProcessed p + 1\<rparr>) q \<and>
    pi_ruleEngine q = pi_ruleEngine p"
proof -
  assume a: "prepared w raw p = (ev, q)"
  obtain ev1 q1 where e: "enrichEvent w raw (p\<lparr>pi_eventsProcessed := pi_eventsProcessed p + 1\<rparr>) = (ev1, q1)" by force
  have s: "scored q1 q" using a score_scored[of q1 ev1] by (simp add: prepared_def e)
  show ?thesis using enrich_sinks[OF e] s by (auto simp: scored_def intro: same_sinks_trans)
qed

lemma enrich_event: "enrichEvent w raw p = (ev, q) \<Longrightarrow> ev_RawEvent ev = raw \<and> (ev_ContainerAttributed ev \<longleftrightarrow> ev_ContainerID ev \<noteq> [])"
  by (auto simp: enrichEvent_def bare_event_def copy_info_def Let_def split: option.splits prod.splits if_splits)

lemma prepared_event: "prepared w raw p = (ev, q) \<Longrightarrow> ev_RawEvent ev = raw \<and> (ev_ContainerAttributed ev \<longleftrightarrow> ev_ContainerID ev \<noteq> [])"
proof -
  assume a: "prepared w raw p = (ev, q)"
  obtain ev1 q1 where e: "enrichEvent w raw (p\<lparr>pi_eventsProcessed := pi_eventsProcessed p + 1\<rparr>) = (ev1, q1)" by force
  have "same_event ev1 ev" using a score_same[of ev1 q1] by (simp add: prepared_def e)
  then show ?thesis using enrich_event[OF e] same_event_sel[of ev1 ev] by simp
qed

lemma decide_cases:
  assumes "decide_event w ev q = Some p'"
  obtains (unmatched) r where "evaluate_rules w ev q = Some (None, r)"
      "processCorrelationSignal w ev None (if ev_AnomalyScore ev \<ge> pi_anomalyThreshold r then emitAnomalyAlert w ev r else r) = Some p'"
  | (matched) m r m' s where "evaluate_rules w ev q = Some (Some m, r)" "routeDecision w ev m r = (m', s)"
      "processCorrelationSignal w ev (Some m') s = Some p'"
  using assms by (auto simp: decide_event_def split: option.splits prod.splits)

section \<open>Routing\<close>

lemma block_frame: "handleNetworkBlock w ev m mode p = p\<lparr>pi_netEnforcer := pi_netEnforcer (handleNetworkBlock w ev m mode p)\<rparr>"
  by (simp add: handleNetworkBlock_def Let_def split: option.split)

lemma block_simulated: "handleNetworkBlock w ev m ''simulate'' p = p"
  by (simp add: handleNetworkBlock_def Let_def split: option.split)

lemma effective_enforce:
  "effective_action mode ev action = ActionEnforce \<longleftrightarrow>
     action = ActionEnforce \<and> ev_ContainerAttributed ev \<and> mode \<noteq> ''audit'' \<and> mode \<noteq> ''simulate''"
  by (auto simp: effective_action_def action_defs Let_def)

lemma triage_spec:
  "run_triage w ev action m p = ((action', m'), p') \<Longrightarrow>
     (action' = action \<or> action' = ActionSuppress) \<and> m' = m\<lparr>rm_Priority := rm_Priority m'\<rparr> \<and> p' = p\<lparr>pi_aiTrier := pi_aiTrier p'\<rparr>"
  by (auto simp: run_triage_def apply_triage_def split: option.splits prod.splits if_splits)

lemma emitAlert_response [simp]: "pi_response (emitAlert w ev m p) = pi_response p"
  by (simp add: emitAlert_def Let_def deliver_def case_prod_beta)

lemma dispatch_response:
  "pi_response (dispatch w ev action m p) =
     (if action = ActionEnforce then snd (Enforce (wd_kernel w) (wd_now w) (wd_now w) (wd_fin w) ev m (pi_response p))
      else pi_response p)"
  by (auto simp: dispatch_def on_metrics_def deliver_def emitSimulated_def executeEnforcement_def Let_def case_prod_beta action_defs)

text \<open>The routing in its stages.\<close>

definition blocked :: "('u, 't) world \<Rightarrow> enriched_event \<Rightarrow> rule_match \<Rightarrow> ('u, 't) pipeline \<Rightarrow> ('u, 't) pipeline" where
  "blocked w ev m p =
    (if pi_netEnforcer p \<noteq> None \<and> pi_mode p \<noteq> ''audit'' then handleNetworkBlock w ev m (pi_mode p) p else p)"

lemma blocked_frame: "blocked w ev m p = p\<lparr>pi_netEnforcer := pi_netEnforcer (blocked w ev m p)\<rparr>"
  using block_frame[of w ev m "pi_mode p" p] by (simp add: blocked_def)

lemma route_stages:
  assumes "routeDecision w ev m p = (m', p')"
  obtains action' q where "run_triage w ev (effective_action (pi_mode p) ev (rm_Action m)) m (blocked w ev m p) = ((action', m'), q)"
    "p' = dispatch w ev action' m' q"
  using assms by (auto simp: routeDecision_def blocked_def Let_def split: prod.splits)

lemma route_response:
  assumes "routeDecision w ev m p = (m', p')" "pi_response p' \<noteq> pi_response p"
  shows "rm_Action m = ActionEnforce \<and> ev_ContainerAttributed ev \<and> pi_mode p \<noteq> ''audit'' \<and> pi_mode p \<noteq> ''simulate'' \<and>
    pi_response p' = snd (Enforce (wd_kernel w) (wd_now w) (wd_now w) (wd_fin w) ev m' (pi_response p)) \<and> rm_Action m' = ActionEnforce"
proof -
  obtain action' q where t: "run_triage w ev (effective_action (pi_mode p) ev (rm_Action m)) m (blocked w ev m p) = ((action', m'), q)"
    and d: "p' = dispatch w ev action' m' q" using route_stages[OF assms(1)] by blast
  have q: "q = (blocked w ev m p)\<lparr>pi_aiTrier := pi_aiTrier q\<rparr>"
    and a: "action' = effective_action (pi_mode p) ev (rm_Action m) \<or> action' = ActionSuppress"
    and m': "m' = m\<lparr>rm_Priority := rm_Priority m'\<rparr>"
    using triage_spec[OF t] by blast+
  have "pi_response (blocked w ev m p) = pi_response p" by (subst blocked_frame) simp
  then have "pi_response q = pi_response p" by (subst q) simp
  then have e: "action' = ActionEnforce" "pi_response p' = snd (Enforce (wd_kernel w) (wd_now w) (wd_now w) (wd_fin w) ev m' (pi_response p))"
    using assms(2) d by (auto simp: dispatch_response split: if_splits)
  then have "effective_action (pi_mode p) ev (rm_Action m) = ActionEnforce" using a by (auto simp: action_defs)
  moreover have "rm_Action m' = rm_Action m" by (subst m') simp
  ultimately show ?thesis using e(2) by (simp add: effective_enforce)
qed

lemma Enforce_acts:
  assumes "Enforce K start now fin ev m r = (res, r')" "ra_sent r' \<noteq> ra_sent r \<or> ra_pending r' \<noteq> ra_pending r"
  shows "enforceable ev r \<and> ev_Namespace ev \<noteq> [] \<and> fst (Allow now (podKey ev) (ra_rateLimiter r)) \<and>
    targets_only (PID (ev_RawEvent ev)) r r'"
  using assms(1)
proof (cases rule: Enforce_cases)
  case (killing rl q)
  then show ?thesis using Enforce_targets[OF assms(1)] by simp
qed (use assms(2) in \<open>auto simp: skip_with_def Let_def\<close>)

lemma correlation_response: "processCorrelationSignal w ev mt p = Some q \<Longrightarrow> pi_response q = pi_response p"
  by (drule correlation_core) (simp add: same_core_def)

end
