(* ===== verification/Pipeline_Machine.thy ===== *)
theory Pipeline_Machine
  imports Pipeline_Facts Catalog_Detection
begin

text \<open>
  The pipeline as a machine, composed of the machines of its components. Its invariant is the
  conjunction of theirs; a step is the processing of an event, a tick, a setter or a step of a
  component on its own (an escalation, a container scan). No reachable state panics on an event.
\<close>

section \<open>The invariant\<close>

definition pipe_ok :: "time \<times> ('u, 't) pipeline \<Rightarrow> bool" where
  "pipe_ok s \<longleftrightarrow> (case s of (T, p) \<Rightarrow>
     (\<forall>e. pi_ruleEngine p = Some e \<longrightarrow> engine_total e) \<and>
     (\<forall>c. pi_correlator p = Some c \<longrightarrow> corr_inv (T, c) \<and> cl_maxWindows c = 10000) \<and>
     (\<forall>m. pi_enricher p = Some m \<longrightarrow> bare_manager m) \<and>
     actor_safe (pi_response p) \<and> distinct (map fst (co_entries (pi_coalescer p))))"

lemma pipe_okD:
  assumes "pipe_ok (T, p)"
  shows "pi_ruleEngine p = Some e \<Longrightarrow> engine_total e"
    "pi_correlator p = Some c \<Longrightarrow> corr_inv (T, c) \<and> cl_maxWindows c = 10000"
    "pi_enricher p = Some m \<Longrightarrow> bare_manager m" "actor_safe (pi_response p)"
    "distinct (map fst (co_entries (pi_coalescer p)))"
  using assms by (auto simp: pipe_ok_def)

lemma pipe_okI:
  assumes "\<And>e. pi_ruleEngine p = Some e \<Longrightarrow> engine_total e"
    "\<And>c. pi_correlator p = Some c \<Longrightarrow> corr_inv (T, c) \<and> cl_maxWindows c = 10000"
    "\<And>m. pi_enricher p = Some m \<Longrightarrow> bare_manager m" "actor_safe (pi_response p)"
    "distinct (map fst (co_entries (pi_coalescer p)))"
  shows "pipe_ok (T, p)"
  using assms by (auto simp: pipe_ok_def)

lemma pipe_ok_frame:
  "pipe_ok (T, p) \<Longrightarrow> pi_ruleEngine q = pi_ruleEngine p \<Longrightarrow> pi_correlator q = pi_correlator p \<Longrightarrow>
     pi_enricher q = pi_enricher p \<Longrightarrow> pi_response q = pi_response p \<Longrightarrow> pi_coalescer q = pi_coalescer p \<Longrightarrow> pipe_ok (T, q)"
  by (simp add: pipe_ok_def)

lemma pipe_ok_setters:
  "pipe_ok (T, p\<lparr>pi_netEnforcer := a\<rparr>) = pipe_ok (T, p)" "pipe_ok (T, p\<lparr>pi_aiTrier := b\<rparr>) = pipe_ok (T, p)"
  "pipe_ok (T, p\<lparr>pi_aiSuggester := c\<rparr>) = pipe_ok (T, p)" "pipe_ok (T, p\<lparr>pi_baselines := d\<rparr>) = pipe_ok (T, p)"
  "pipe_ok (T, p\<lparr>pi_anomalyEnabled := e\<rparr>) = pipe_ok (T, p)" "pipe_ok (T, p\<lparr>pi_learningMode := e\<rparr>) = pipe_ok (T, p)"
  by (simp_all add: pipe_ok_def)

section \<open>Events\<close>

lemma enrich_bare:
  assumes "\<And>m. pi_enricher p = Some m \<Longrightarrow> bare_manager m" "enrichEvent w raw p = (ev, q)" "pi_enricher q = Some m'"
  shows "bare_manager m'"
proof (cases "pi_enricher p")
  case None
  then show ?thesis using assms(2,3) by (auto simp: enrichEvent_def)
next
  case (Some m)
  obtain cid m1 where r: "ResolveContainerID (wd_fs w) (wd_now w) (CgroupID raw) (PID raw) m = (cid, m1)" by force
  have m1: "bare_manager m1" using bare_resolve[OF assms(1)[OF Some], of "wd_fs w" "wd_now w" "CgroupID raw" "PID raw"] r by simp
  obtain i m2 where g: "GetContainerInfo (wd_now w) cid m1 = (i, m2)" by force
  have "bare_manager m2" by (rule bare_info_step(1)[OF m1 g])
  then show ?thesis using assms(2,3) Some r g m1 by (auto simp: enrichEvent_def Let_def split: if_splits option.splits)
qed

lemma prepared_ok:
  assumes "pipe_ok (T, p)" "prepared w raw p = (ev, q)"
  shows "pipe_ok (T, q)"
proof -
  let ?p = "p\<lparr>pi_eventsProcessed := pi_eventsProcessed p + 1\<rparr>"
  obtain ev1 q1 where e: "enrichEvent w raw ?p = (ev1, q1)" by force
  have s: "scored q1 q" using assms(2) score_scored[of q1 ev1] by (simp add: prepared_def e)
  note D = pipe_okD[OF assms(1)]
  have "pipe_ok (T, q1)"
  proof (rule pipe_okI)
    show "bare_manager m" if "pi_enricher q1 = Some m" for m
      by (rule enrich_bare[OF _ e that]) (use D(3) in simp)
  qed (use D enrich_sinks[OF e] in \<open>auto simp: same_sinks_def same_core_def\<close>)
  then show ?thesis by (rule pipe_ok_frame) (use s in \<open>simp_all add: scored_def same_sinks_def same_core_def\<close>)
qed

lemma evaluate_ok:
  assumes "pipe_ok (T, p)"
  obtains mt q where "evaluate_rules w ev p = Some (mt, q)" "pipe_ok (T, q)"
proof (cases "pi_ruleEngine p")
  case None
  then show ?thesis using assms that by (simp add: evaluate_rules_def)
next
  case (Some e)
  obtain m where m: "Evaluate (wd_format w) e (toRuleView ev) = Some (e\<lparr>eg_evalCount := eg_evalCount e + 1\<rparr>, m)"
    using total_eval[OF pipe_okD(1)[OF assms Some]] by blast
  let ?q = "p\<lparr>pi_ruleEngine := Some (e\<lparr>eg_evalCount := eg_evalCount e + 1\<rparr>)\<rparr>"
  have "engine_total (e\<lparr>eg_evalCount := eg_evalCount e + 1\<rparr>)"
    using pipe_okD(1)[OF assms Some] by (simp add: engine_total_def)
  then have "pipe_ok (T, ?q)" using pipe_okD[OF assms] by (intro pipe_okI) auto
  moreover have "evaluate_rules w ev p = Some (m, ?q)" by (simp add: evaluate_rules_def Some EvaluateRule_def m)
  ultimately show ?thesis by (rule that[rotated])
qed

lemma correlate_ok:
  assumes "pipe_ok (T, p)" "fair_orders (wd_orders w)" "T \<le> wd_now w"
  shows "\<exists>q. processCorrelationSignal w ev mt p = Some q \<and> pipe_ok (wd_now w, q)"
proof (cases "pi_correlator p")
  case None
  then show ?thesis using pipe_okD[OF assms(1)]
    by (auto simp: processCorrelationSignal_def on_metrics_def intro!: pipe_okI split: option.split)
next
  case (Some c)
  note c = pipe_okD(2)[OF assms(1) Some]
  have t: "sg_Timestamp (build_signal (wd_now w) ev mt) = wd_now w" by (simp add: build_signal_def)
  obtain r c' where s: "ProcessSignal (wd_orders w) (wd_now w) (build_signal (wd_now w) ev mt) c = Some (r, c')"
    and c': "corr_inv (wd_now w, c')" "cl_maxWindows c' = 10000"
    using ProcessSignal_spec[OF conjunct1[OF c] assms(2,3) t] c by auto
  let ?q = "p\<lparr>pi_correlator := Some c'\<rparr>"
  have q: "pipe_ok (wd_now w, ?q)" using pipe_okD[OF assms(1)] c' by (intro pipe_okI) auto
  have "pipe_ok (wd_now w, emitCorrelationAlert (wd_now w) ev res ?q)" for res
    by (rule pipe_ok_frame[OF q]) (simp_all add: emitCorrelationAlert_def deliver_def suggest_def)
  moreover have "corr_inv (wd_now w, c)"
    using c assms(3) unfolding corr_inv_def by fastforce
  then have "pipe_ok (wd_now w, p)" using pipe_okD[OF assms(1)] c Some by (intro pipe_okI) auto
  ultimately show ?thesis using s q by (auto simp: processCorrelationSignal_def Some Let_def split: option.split)
qed

lemma co_Add_distinct: "distinct (map fst (co_entries c)) \<Longrightarrow> distinct (map fst (co_entries (snd (co_Add now a c))))"
  by (simp add: co_Add_def Let_def split: option.split)

lemma dispatch_ok:
  assumes "pipe_ok (T, p)"
  shows "pipe_ok (T, dispatch w ev action m p)"
proof (rule pipe_okI)
  note D = pipe_okD[OF assms]
  have f: "pi_ruleEngine (dispatch w ev action m p) = pi_ruleEngine p" "pi_correlator (dispatch w ev action m p) = pi_correlator p"
    "pi_enricher (dispatch w ev action m p) = pi_enricher p"
    by (auto simp: dispatch_def on_metrics_def deliver_def emitAlert_def emitSimulated_def executeEnforcement_def Let_def case_prod_beta)
  show "pi_ruleEngine (dispatch w ev action m p) = Some e \<Longrightarrow> engine_total e" for e using D(1) f by simp
  show "pi_correlator (dispatch w ev action m p) = Some c \<Longrightarrow> corr_inv (T, c) \<and> cl_maxWindows c = 10000" for c using D(2) f by simp
  show "pi_enricher (dispatch w ev action m p) = Some mg \<Longrightarrow> bare_manager mg" for mg using D(3) f by simp
  show "actor_safe (pi_response (dispatch w ev action m p))"
    using actor_safe_enforce[OF D(4)] D(4) by (simp add: dispatch_response) (metis prod.collapse)
  have "pi_coalescer (dispatch w ev action m p) = pi_coalescer p \<or>
      (\<exists>a. pi_coalescer (dispatch w ev action m p) = snd (co_Add (wd_now w) a (pi_coalescer p)))"
    by (auto simp: dispatch_def on_metrics_def deliver_def emitAlert_def emitSimulated_def executeEnforcement_def Let_def case_prod_beta)
  then show "distinct (map fst (co_entries (pi_coalescer (dispatch w ev action m p))))"
    using D(5) co_Add_distinct by metis
qed

lemma route_ok:
  assumes "pipe_ok (T, p)" "routeDecision w ev m p = (m', p')"
  shows "pipe_ok (T, p')"
proof -
  obtain action' q where t: "run_triage w ev (effective_action (pi_mode p) ev (rm_Action m)) m (blocked w ev m p) = ((action', m'), q)"
    and d: "p' = dispatch w ev action' m' q" using route_stages[OF assms(2)] by blast
  have "pipe_ok (T, blocked w ev m p)"
    by (rule pipe_ok_frame[OF assms(1)]; subst blocked_frame) simp_all
  moreover have "q = (blocked w ev m p)\<lparr>pi_aiTrier := pi_aiTrier q\<rparr>" using triage_spec[OF t] by blast
  ultimately have "pipe_ok (T, q)" by (metis (no_types, lifting) pipe_ok_frame pipeline.surjective pipeline.update_convs(11) pipeline.select_convs)
  then show ?thesis unfolding d by (rule dispatch_ok)
qed

lemma event_ok:
  assumes "pipe_ok (T, p)" "fair_orders (wd_orders w)" "T \<le> wd_now w"
  shows "\<exists>p'. processOneEvent w raw p = Some p' \<and> pipe_ok (wd_now w, p')"
proof -
  obtain ev q where pr: "prepared w raw p = (ev, q)" by force
  obtain mt r where e: "evaluate_rules w ev q = Some (mt, r)" "pipe_ok (T, r)"
    using evaluate_ok[OF prepared_ok[OF assms(1) pr]] by blast
  show ?thesis
  proof (cases mt)
    case None
    have "pipe_ok (T, emitAnomalyAlert w ev r)"
      by (rule pipe_ok_frame[OF e(2)]) (simp_all add: emitAnomalyAlert_def deliver_def suggest_def)
    then show ?thesis using correlate_ok[OF _ assms(2,3)] e None by (simp add: process_prepared pr decide_event_def)
  next
    case (Some m)
    obtain m' s where s: "routeDecision w ev m r = (m', s)" by force
    show ?thesis using correlate_ok[OF route_ok[OF e(2) s] assms(2,3), of ev "Some m'"] e Some
      by (simp add: process_prepared pr decide_event_def s)
  qed
qed

section \<open>The machine\<close>

inductive pipeline_step :: "time \<times> ('u, 't) pipeline \<Rightarrow> time \<times> ('u, 't) pipeline \<Rightarrow> bool" where
  pl_event: "fair_orders (wd_orders w) \<Longrightarrow> T \<le> wd_now w \<Longrightarrow> processOneEvent w raw p = Some p' \<Longrightarrow>
     pipeline_step (T, p) (wd_now w, p')"
| pl_tick: "pipeline_step (T, p) (T, coalescer_tick perm p)"
| pl_mode: "pipeline_step (T, p) (T, pi_SetMode mode p)"
| pl_enforcer: "pipeline_step (T, p) (T, SetNetworkEnforcer ne p)"
| pl_trier: "pipeline_step (T, p) (T, SetAIAlertTrier t p)"
| pl_suggester: "pipeline_step (T, p) (T, SetAIRuleSuggester b p)"
| pl_baseline: "pipeline_step (T, p) (T, SetBaseline img bl p)"
| pl_anomaly: "pipeline_step (T, p) (T, SetAnomalyEnabled b p)"
| pl_learning: "pipeline_step (T, p) (T, SetLearningMode b p)"
| pl_thresholds: "pipeline_step (T, p) (T, SetTriageThresholds s d a p)"
| pl_manager: "pi_enricher p = Some m \<Longrightarrow> manager_step m m' \<Longrightarrow> pipeline_step (T, p) (T, p\<lparr>pi_enricher := Some m'\<rparr>)"
| pl_actor: "actor_step K (pi_response p) r \<Longrightarrow> pipeline_step (T, p) (T, p\<lparr>pi_response := r\<rparr>)"
| pl_correlator: "pi_correlator p = Some c \<Longrightarrow> corr_step (T, c) (T', c') \<Longrightarrow> T \<le> T' \<Longrightarrow>
     pipeline_step (T, p) (T', p\<lparr>pi_correlator := Some c'\<rparr>)"
| pl_reload: "pi_ruleEngine p = Some e \<Longrightarrow>
     pipeline_step (T, p) (T, p\<lparr>pi_ruleEngine := Some (fst (Reload (loadYAML ord pd nw) catalog paths e))\<rparr>)"

text \<open>The correlation specifications of the rules of an engine: named, with a window that is not negative.\<close>

definition correlation_rules_ok :: "engine \<Rightarrow> bool" where
  "correlation_rules_ok e \<longleftrightarrow> (\<forall>r\<in>set (CorrelationRules e). cr_ID r \<noteq> [] \<and>
     (\<forall>spec. cr_Correlate r = Some spec \<longrightarrow> 0 \<le> cs_Window spec))"

text \<open>What \<open>NewPipeline\<close> and \<open>InitCorrelationRules\<close> start from: a loaded engine and fresh components.\<close>

definition start_config :: "('u, 't) pipeline_config \<Rightarrow> bool" where
  "start_config cfg \<longleftrightarrow>
     (\<forall>e. pg_RuleEngine cfg = Some e \<longrightarrow> engine_total e \<and> correlation_rules_ok e) \<and>
     (\<forall>c. pg_Correlator cfg = Some c \<longrightarrow> c = NewCorrelator) \<and>
     (\<forall>m. pg_Enricher cfg = Some m \<longrightarrow> (\<exists>mc. m = NewManager mc))"

definition started :: "int \<Rightarrow> ('u, 't) pipeline_config \<Rightarrow> ('u, 't) pipeline" where
  "started pid cfg = InitCorrelationRules (NewPipeline pid cfg)"

text \<open>Adding a specification before there are windows keeps the invariant, also when it replaces one.\<close>

definition idle_corr :: "time \<Rightarrow> correlator \<Rightarrow> bool" where
  "idle_corr T c \<longleftrightarrow> corr_inv (T, c) \<and> cl_windows c = [] \<and> cl_maxWindows c = 10000"

lemma idle_add:
  assumes "corr_inv (T, c)" "cl_windows c = []" "sp_RuleID spec \<noteq> []" "0 \<le> sp_Window spec"
  shows "corr_inv (T, corr_AddRule spec c)"
proof (rule corr_invI)
  note D = corr_invD[OF assms(1)]
  show "i = sp_RuleID sp \<and> i \<noteq> [] \<and> 0 \<le> sp_Window sp" if "(i, sp) \<in> set (cl_rules (corr_AddRule spec c))" for i sp
  proof -
    from that have "(i, sp) = (sp_RuleID spec, spec) \<or> (i, sp) \<in> set (cl_rules c)"
      using set_update_sub[of "sp_RuleID spec" spec "cl_rules c"] by (auto simp: corr_AddRule_def)
    then show ?thesis using D(5)[of i sp] assms(3,4) by auto
  qed
qed (use corr_invD[OF assms(1)] assms(2) in \<open>auto simp: corr_AddRule_def\<close>)

lemma idle_corr_add: "idle_corr T c \<Longrightarrow> sp_RuleID spec \<noteq> [] \<Longrightarrow> 0 \<le> sp_Window spec \<Longrightarrow> idle_corr T (corr_AddRule spec c)"
  using idle_add[of T c spec] by (simp add: idle_corr_def corr_AddRule_def)

lemma idle_fold_add:
  "idle_corr T c \<Longrightarrow> \<forall>spec\<in>set specs. sp_RuleID spec \<noteq> [] \<and> 0 \<le> sp_Window spec \<Longrightarrow> idle_corr T (fold corr_AddRule specs c)"
  by (induction specs arbitrary: c) (auto intro: idle_corr_add)

lemma idle_fold_engine:
  "idle_corr T c \<Longrightarrow> \<forall>r\<in>set rs. cr_ID r \<noteq> [] \<and> (\<forall>spec. cr_Correlate r = Some spec \<longrightarrow> 0 \<le> cs_Window spec) \<Longrightarrow>
     idle_corr T (fold add_engine_rule rs c)"
proof (induction rs arbitrary: c)
  case (Cons r rs)
  have "idle_corr T (add_engine_rule r c)"
    using Cons.prems by (auto simp: add_engine_rule_def intro!: idle_corr_add split: option.split)
  then show ?case using Cons by simp
qed simp

lemma started_ok:
  assumes "start_config cfg"
  shows "pipe_ok (T, started pid cfg)"
proof -
  define p where "p = NewPipeline pid cfg"
  have f: "pi_ruleEngine p = pg_RuleEngine cfg" "pi_correlator p = pg_Correlator cfg" "pi_enricher p = pg_Enricher cfg"
    "pi_response p = NewResponseActor pid (pg_Mode cfg)" "co_entries (pi_coalescer p) = []"
    by (simp_all add: p_def NewPipeline_def Let_def NewCoalescer_def)
  have new: "idle_corr T NewCorrelator" by (simp add: idle_corr_def corr_inv_def NewCorrelator_def)
  have safe: "actor_safe (NewResponseActor pid (pg_Mode cfg))"
    unfolding NewResponseActor_def by (rule actor.init_inv) blast
  have init: "pi_ruleEngine (InitCorrelationRules p) = pi_ruleEngine p" "pi_enricher (InitCorrelationRules p) = pi_enricher p"
    "pi_response (InitCorrelationRules p) = pi_response p" "pi_coalescer (InitCorrelationRules p) = pi_coalescer p"
    by (simp_all add: InitCorrelationRules_def split: option.split)
  have corr: "idle_corr T c" if "pi_correlator (InitCorrelationRules p) = Some c" for c
  proof (cases "pi_correlator p")
    case None
    then show ?thesis using that by (simp add: InitCorrelationRules_def)
  next
    case (Some c0)
    then have c0: "c0 = NewCorrelator" using assms f by (simp add: start_config_def)
    show ?thesis
    proof (cases "pi_ruleEngine p")
      case None
      then show ?thesis using that Some c0 new by (simp add: InitCorrelationRules_def)
    next
      case (Some e)
      then have "correlation_rules_ok e" using assms f by (simp add: start_config_def)
      then have "idle_corr T (fold add_engine_rule (CorrelationRules e) NewCorrelator)"
        by (intro idle_fold_engine[OF new]) (auto simp: correlation_rules_ok_def)
      then have "idle_corr T (fold corr_AddRule DefaultCorrelationRules (fold add_engine_rule (CorrelationRules e) NewCorrelator))"
        by (rule idle_fold_add) (simp add: DefaultCorrelationRules_def)
      then show ?thesis using that Some \<open>pi_correlator p = Some c0\<close> c0 by (simp add: InitCorrelationRules_def)
    qed
  qed
  show ?thesis unfolding started_def p_def[symmetric]
  proof (rule pipe_okI)
    show "bare_manager m" if "pi_enricher (InitCorrelationRules p) = Some m" for m
      using that assms f init enrichment.init_inv by (auto simp: start_config_def)
  qed (use assms f init corr safe in \<open>auto simp: start_config_def idle_corr_def\<close>)
qed

interpretation pipeline_machine: invariant_system "\<lambda>s. \<exists>T pid cfg. s = (T, started pid cfg) \<and> start_config cfg" pipeline_step pipe_ok
proof
  fix s s' :: "time \<times> ('u, 't) pipeline"
  show "\<exists>T pid cfg. s = (T, started pid cfg) \<and> start_config cfg \<Longrightarrow> pipe_ok s" using started_ok by blast
  assume s: "pipe_ok s" and "pipeline_step s s'"
  from this(2) show "pipe_ok s'"
  proof cases
    case (pl_event w T raw p p')
    then show ?thesis using event_ok[of T p w raw] s by auto
  next
    case (pl_tick T p perm)
    then show ?thesis using pipe_okD[of T p] s
      by (auto simp: coalescer_tick_def co_Flush_def Let_def case_prod_beta intro!: pipe_okI split: option.split)
  next
    case (pl_mode T p mode)
    have "actor_safe (SetMode mode (pi_response p))"
      using actor.step_inv[OF pipe_okD(4)[of T p] step_mode] s pl_mode by blast
    then show ?thesis using pipe_okD[of T p] s pl_mode by (auto simp: pi_SetMode_def intro!: pipe_okI)
  next
    case (pl_thresholds T p su d a)
    then show ?thesis using s pipe_ok_frame[of T p "SetTriageThresholds su d a p"] by (simp add: SetTriageThresholds_def Let_def)
  next
    case (pl_manager p m m' T)
    then show ?thesis using pipe_okD[of T p] s enrichment.step_inv by (auto intro!: pipe_okI)
  next
    case (pl_actor K p r T)
    then show ?thesis using pipe_okD[of T p] s actor.step_inv by (auto intro!: pipe_okI)
  next
    case (pl_correlator p c T T' c')
    have "corr_inv (T', c') \<and> cl_maxWindows c' = 10000"
      using corr.step_inv[OF _ pl_correlator(4)] pipe_okD(2)[of T p c] s pl_correlator by simp
    then show ?thesis using pipe_okD[of T p] s pl_correlator by (auto intro!: pipe_okI)
  next
    case (pl_reload p e T ord pd nw catalog paths)
    then show ?thesis using pipe_okD[of T p] s Reload_total by (auto intro!: pipe_okI)
  qed (use s in \<open>auto simp: pipe_ok_setters SetNetworkEnforcer_def SetAIAlertTrier_def SetAIRuleSuggester_def SetBaseline_def
      SetAnomalyEnabled_def SetLearningMode_def\<close>)
qed

text \<open>Processing an event never panics. Start a pipeline with a loaded engine and fresh components, and let
  any sequence of events, ticks, setters, reloads, escalations, container scans and purges happen. In
  the state that is reached, the processing of any event returns, and every component's invariant holds.\<close>

theorem pipeline_never_panics:
  assumes "start_config cfg" and "pipeline_step\<^sup>*\<^sup>* (T0, started pid cfg) (T, p)"
    and "fair_orders (wd_orders w)" and "T \<le> wd_now w"
  shows "\<exists>p'. processOneEvent w raw p = Some p' \<and> pipe_ok (wd_now w, p')"
  by (rule event_ok[OF pipeline_machine.reachable_inv[OF _ assms(2)] assms(3,4)]) (use assms(1) in blast)

section \<open>A pipeline with the built-in catalog\<close>

definition demo_config :: "(tc_loader, ai_connector) pipeline_config" where
  "demo_config =
    \<lparr>pg_RuleEngine = Some catalog_engine, pg_Enricher = Some demo_manager, pg_AlertEmitter = Some NewAlertEmitterForTest,
     pg_MetricsExporter = Some NewMetricsExporter, pg_NetworkEnforcer = Some NewNetworkEnforcer, pg_Correlator = Some NewCorrelator,
     pg_AIConnector = None, pg_Mode = ''enforce'', pg_AnomalyThreshold = 0, pg_AnomalyEnabled = True, pg_AIRuleSuggester = False,
     pg_SuggestionMinConfidence = 0, pg_TriageSuppressThreshold = 0, pg_TriageDowngradeThreshold = 0,
     pg_TriageAdjustThreshold = 0, pg_LearningMode = True, pg_MinEventsForBaseline = 0, pg_Workers = 0, pg_BatchSize = 0,
     pg_CoalesceWindow = 0\<rparr>"

definition demo_world :: "(tc_loader, ai_connector) world" where
  "demo_world =
    \<lparr>wd_now = 5, wd_fin = 6, wd_fs = demo_fs, wd_kernel = demo_kernel, wd_ops = tc_updater, wd_triage = TriageAlert,
     wd_orders = \<lparr>ro_rules = rev, ro_windows = rev, ro_signals = rev, ro_duration = (\<lambda>_. ''5s'')\<rparr>, wd_format = id,
     wd_fixed2 = (\<lambda>_. [])\<rparr>"

lemma demo_start: "start_config demo_config"
proof -
  have e: "engine_total catalog_engine"
    using NewEngine_total[OF NewEngine_catalog[of "\<lambda>k al. al" "\<lambda>_. 0" Inr]] by (simp add: visits_all_def)
  have "CorrelationRules catalog_engine = []"
    using catalog_engine_facts by (auto simp: CorrelationRules_def filter_empty_conv catalog_compiled_def catalog_rule_def Let_def)
  then have "correlation_rules_ok catalog_engine" by (simp add: correlation_rules_ok_def)
  with e show ?thesis by (auto simp: start_config_def demo_config_def demo_manager_def)
qed

lemma demo_orders: "fair_orders (wd_orders demo_world)"
  by (simp add: fair_orders_def demo_world_def)

theorem pipeline_never_panics_witness: "\<exists>p'. processOneEvent demo_world zero_event (started 42 demo_config) = Some p'"
  using pipeline_never_panics[OF demo_start _ demo_orders, of 0 42 0 "started 42 demo_config"] by (auto simp: demo_world_def)

end
