(* ===== verification/Pipeline_Routing.thy ===== *)
theory Pipeline_Routing
  imports Pipeline_Machine
begin

text \<open>
  What comes out of the pipeline: alerts and their counter, the neutrality of the triage stub, network
  blocks, metrics, and which namespaces an event can carry.
\<close>

section \<open>Kills\<close>

text \<open>C2: No kill unless everything allows it. If the processing of an event sends a signal or leaves an
  escalation pending, then the pipeline's mode is neither audit nor simulate, a rule whose action is to
  enforce matched, the event was attributed to a container in a namespace, the seven safety rules hold
  (\<open>enforceable\<close> is the first five, the limiter's \<open>Allow\<close> for the event's pod the sixth, the namespace
  the seventh), and only the event's own process is targeted; triage can prevent it but not cause it.\<close>

theorem kill_needs_everything:
  assumes "processOneEvent w raw p = Some p'"
    and "ra_sent (pi_response p') \<noteq> ra_sent (pi_response p) \<or> ra_pending (pi_response p') \<noteq> ra_pending (pi_response p)"
  shows "pi_mode p \<noteq> ''audit'' \<and> pi_mode p \<noteq> ''simulate'' \<and>
    (\<exists>ev q m r. prepared w raw p = (ev, q) \<and> evaluate_rules w ev q = Some (Some m, r) \<and> rm_Action m = ActionEnforce \<and>
       ev_ContainerAttributed ev \<and> ev_Namespace ev \<noteq> [] \<and> enforceable ev (pi_response p) \<and>
       fst (Allow (wd_now w) (podKey ev) (ra_rateLimiter (pi_response p)))) \<and>
    targets_only (PID raw) (pi_response p) (pi_response p')"
proof -
  obtain ev q where pr: "prepared w raw p = (ev, q)" by force
  have q: "pi_response q = pi_response p" "pi_mode q = pi_mode p" "ev_RawEvent ev = raw"
    using prepared_sinks[OF pr] prepared_event[OF pr] by (auto simp: same_sinks_def same_core_def)
  have d: "decide_event w ev q = Some p'" using assms(1) by (simp add: process_prepared pr)
  show ?thesis
    using d
  proof (cases rule: decide_cases)
    case (unmatched r)
    have "pi_response r = pi_response q" using evaluate_sinks[OF unmatched(1)] by (simp add: same_sinks_def same_core_def)
    moreover have "pi_response (emitAnomalyAlert w ev r) = pi_response r"
      using anomaly_core[of r w ev r] by (simp add: same_core_def)
    ultimately have "pi_response p' = pi_response p" using correlation_response[OF unmatched(2)] q by simp
    then show ?thesis using assms(2) by simp
  next
    case (matched m r m' s)
    have r: "pi_response r = pi_response p" "pi_mode r = pi_mode p"
      using evaluate_sinks[OF matched(1)] q by (auto simp: same_sinks_def same_core_def)
    have s: "pi_response p' = pi_response s" by (rule correlation_response[OF matched(3)])
    have "pi_response s \<noteq> pi_response r" using assms(2) s r by auto
    note rt = route_response[OF matched(2) this]
    obtain res where e: "Enforce (wd_kernel w) (wd_now w) (wd_now w) (wd_fin w) ev m' (pi_response p) = (res, pi_response p')"
      using rt s r by (metis prod.collapse)
    from Enforce_acts[OF this assms(2)] show ?thesis using rt pr matched(1) r q by auto
  qed
qed

text \<open>A node with one container and one rule that enforces.\<close>

definition kill_rule :: compiled_rule where "kill_rule = (demo_rule ''K'' ''CRITICAL'')\<lparr>cr_Action := ActionEnforce\<rparr>"

definition kill_info :: container_info where
  "kill_info = \<lparr>ci_ID = ''c1'', ci_Name = ''web'', ci_Image = ''unknown'', ci_ImageDigest = [], ci_PodName = ''p'', ci_Namespace = ''default'',
     ci_ServiceAccount = [], ci_Labels = Map.empty, ci_StartedAt = 0, ci_Privileged = False, ci_Capabilities = [], ci_CgroupID = 77\<rparr>"

definition kill_config :: "(tc_loader, ai_connector) pipeline_config" where
  "kill_config =
    \<lparr>pg_RuleEngine = Some (addCompiledRule kill_rule empty_engine),
     pg_Enricher = Some (RegisterContainer 1 0 (demo_manager\<lparr>mg_heap := [kill_info]\<rparr>)), pg_AlertEmitter = None,
     pg_MetricsExporter = None, pg_NetworkEnforcer = None, pg_Correlator = None,
     pg_AIConnector = None, pg_Mode = ''enforce'', pg_AnomalyThreshold = 0, pg_AnomalyEnabled = True, pg_AIRuleSuggester = False,
     pg_SuggestionMinConfidence = 0, pg_TriageSuppressThreshold = 0, pg_TriageDowngradeThreshold = 0,
     pg_TriageAdjustThreshold = 0, pg_LearningMode = True, pg_MinEventsForBaseline = 0, pg_Workers = 0, pg_BatchSize = 0,
     pg_CoalesceWindow = 0\<rparr>"

definition kill_start :: "(tc_loader, ai_connector) pipeline" where
  "kill_start = SetAnomalyEnabled False (NewPipeline 42 kill_config)"

definition kill_event :: scarlet_event where "kill_event = zero_event\<lparr>PID := 7, CgroupID := 77, Category := CatProcess, EventType := EvtExec\<rparr>"

lemma unscored:
  "\<not> pi_anomalyEnabled p \<Longrightarrow> processOneEvent w raw p =
     (case enrichEvent w raw (p\<lparr>pi_eventsProcessed := pi_eventsProcessed p + 1\<rparr>) of (ev, q) \<Rightarrow> decide_event w ev q)"
  by (auto simp: processOneEvent_def score_event_def enrichEvent_def Let_def split: option.split prod.split)

definition kill_end :: "(tc_loader, ai_connector) pipeline" where
  "kill_end = the (processOneEvent demo_world kill_event kill_start)"

lemma kill_processed:
  "processOneEvent demo_world kill_event kill_start = Some kill_end \<and> ra_sent (pi_response kill_end) = [(7, 9), (7, 0)]"
proof -
  have "\<not> pi_anomalyEnabled kill_start" by (simp add: kill_start_def SetAnomalyEnabled_def)
  note u = unscored[OF this, of demo_world kill_event]
  have "map_option (\<lambda>p. ra_sent (pi_response p)) (processOneEvent demo_world kill_event kill_start) = Some [(7, 9), (7, 0)]"
    unfolding u by code_simp
  then show ?thesis by (auto simp: kill_end_def)
qed

theorem kill_needs_everything_witness:
  "ra_sent (pi_response kill_start) = [] \<and> ra_sent (pi_response kill_end) \<noteq> [] \<and> pi_mode kill_start \<noteq> ''simulate'' \<and>
    targets_only 7 (pi_response kill_start) (pi_response kill_end)"
proof -
  have s: "ra_sent (pi_response kill_start) = []"
    by (simp add: kill_start_def SetAnomalyEnabled_def NewPipeline_def Let_def NewResponseActor_def NewResponseActorWithConfig_def)
  have "PID kill_event = 7" by (simp add: kill_event_def)
  with s show ?thesis using kill_needs_everything[OF conjunct1[OF kill_processed]] kill_processed by simp
qed

section \<open>Alerts\<close>

text \<open>\<open>p'\<close> is \<open>p\<close> after \<open>n\<close> alerts went to the emitter.\<close>

definition emitted :: "('u, 't) pipeline \<Rightarrow> ('u, 't) pipeline \<Rightarrow> nat \<Rightarrow> bool" where
  "emitted p p' n \<longleftrightarrow> pi_alertsEmitted p' = pi_alertsEmitted p + of_nat n \<and>
     (case pi_alertEmit p of
        None \<Rightarrow> pi_alertEmit p' = None
      | Some t \<Rightarrow> \<exists>new. pi_alertEmit p' = Some \<lparr>te_alerts = te_alerts t @ new\<rparr> \<and> length new = n)"

lemma emitted_refl: "pi_alertsEmitted p' = pi_alertsEmitted p \<Longrightarrow> pi_alertEmit p' = pi_alertEmit p \<Longrightarrow> emitted p p' 0"
  by (auto simp: emitted_def split: option.split)

lemma emitted_trans: "emitted p q a \<Longrightarrow> emitted q r b \<Longrightarrow> emitted p r (a + b)"
  unfolding emitted_def by (auto split: option.splits)

lemma emitted_frame: "emitted p q n \<Longrightarrow> pi_alertsEmitted r = pi_alertsEmitted q \<Longrightarrow> pi_alertEmit r = pi_alertEmit q \<Longrightarrow> emitted p r n"
  unfolding emitted_def by (cases "pi_alertEmit p") auto

lemma deliver_emitted: "emitted p (deliver a p) 1"
  unfolding emitted_def deliver_def te_Emit_def by (cases "pi_alertEmit p") (auto intro!: exI[of _ "[a]"])

lemma deliver_emitted': "pi_alertsEmitted q = pi_alertsEmitted p \<Longrightarrow> pi_alertEmit q = pi_alertEmit p \<Longrightarrow> emitted p (deliver a q) 1"
  using deliver_emitted[of q a] unfolding emitted_def by (cases "pi_alertEmit p") auto

lemma metrics_emitted [simp]: "emitted p (on_metrics f q) n = emitted p q n"
  unfolding emitted_def on_metrics_def by (cases "pi_alertEmit p") auto

lemma suggest_emitted [simp]: "emitted p (suggest i q) n = emitted p q n"
  unfolding emitted_def suggest_def by (cases "pi_alertEmit p") auto

lemma sinks_emitted: "same_sinks p q \<Longrightarrow> emitted p q 0"
  by (auto simp: same_sinks_def intro: emitted_refl)

lemma at_most_one: "emitted p q 0 \<or> emitted p q 1 \<Longrightarrow> \<exists>n\<le>1. emitted p q n"
  by (auto intro: exI[of _ 0] exI[of _ 1])

lemma dispatch_emitted: "\<exists>n\<le>1. emitted p (dispatch w ev action m p) n"
proof -
  have r: "emitted p p 0" by (rule emitted_refl) simp_all
  have a: "\<exists>n\<le>1. emitted p (emitAlert w ev m p) n"
    unfolding emitAlert_def Let_def case_prod_beta
    by (rule at_most_one) (auto intro: emitted_refl deliver_emitted'[unfolded One_nat_def])
  have e: "emitted p (executeEnforcement w ev m p) 1"
    unfolding executeEnforcement_def Let_def case_prod_beta by (rule deliver_emitted') (simp_all add: on_metrics_def)
  have s: "emitted p (emitSimulated w ev m p) 1" unfolding emitSimulated_def by (rule deliver_emitted)
  show ?thesis using r a e s by (auto simp: dispatch_def Let_def intro: exI[of _ 0] exI[of _ 1])
qed

lemma route_emitted:
  assumes "routeDecision w ev m p = (m', p')"
  shows "\<exists>n\<le>1. emitted p p' n"
proof -
  obtain action' q where t: "run_triage w ev (effective_action (pi_mode p) ev (rm_Action m)) m (blocked w ev m p) = ((action', m'), q)"
    and d: "p' = dispatch w ev action' m' q" using route_stages[OF assms] by blast
  have q: "q = (blocked w ev m p)\<lparr>pi_aiTrier := pi_aiTrier q\<rparr>" using triage_spec[OF t] by blast
  have b: "pi_alertsEmitted (blocked w ev m p) = pi_alertsEmitted p" "pi_alertEmit (blocked w ev m p) = pi_alertEmit p"
    by (subst blocked_frame, simp)+
  have "emitted p q 0" by (rule emitted_refl; subst q) (simp_all add: b)
  then show ?thesis using dispatch_emitted[of q w ev action' m'] emitted_trans d by fastforce
qed

lemma correlation_emitted:
  assumes "processCorrelationSignal w ev mt p = Some q"
  shows "\<exists>n\<le>1. emitted p q n"
proof -
  have c: "emitted p (p\<lparr>pi_correlator := c\<rparr>) 0" for c by (rule emitted_refl) simp_all
  have d: "emitted p (deliver a (p\<lparr>pi_correlator := c\<rparr>)) 1" for a c by (rule deliver_emitted') simp_all
  have r: "emitted p p 0" by (rule emitted_refl) simp_all
  show ?thesis
  proof (cases "pi_correlator p")
    case None
    then show ?thesis using assms r
      by (intro at_most_one) (auto simp: processCorrelationSignal_def split: option.splits)
  next
    case (Some k)
    then show ?thesis using assms c d r
      by (intro at_most_one) (auto simp: processCorrelationSignal_def emitCorrelationAlert_def Let_def split: option.splits if_splits)
  qed
qed

lemma emitted_add:
  "emitted q r 0 \<Longrightarrow> \<exists>n\<le>1. emitted r s n \<Longrightarrow> \<exists>n\<le>1. emitted s t n \<Longrightarrow> \<exists>n\<le>2. emitted q t n"
proof -
  assume r: "emitted q r 0" and "\<exists>n\<le>1. emitted r s n" "\<exists>n\<le>1. emitted s t n"
  then obtain a b where "a \<le> 1" "emitted r s a" "b \<le> 1" "emitted s t b" by blast
  then show ?thesis using emitted_trans[OF emitted_trans[OF r]] by (intro exI[of _ "a + b"]) auto
qed

text \<open>C35: The counters count. One event increases the processed counter by one, hands at most two alerts to
  the emitter (one for the decision or the anomaly, one for a correlation), behind all earlier ones,
  and increases the alert counter by exactly their number.\<close>

theorem alerts_are_counted:
  assumes "processOneEvent w raw p = Some p'" and "pi_alertEmit p = Some t"
  shows "\<exists>new. pi_alertEmit p' = Some \<lparr>te_alerts = te_alerts t @ new\<rparr> \<and> length new \<le> 2 \<and>
    pi_alertsEmitted p' = pi_alertsEmitted p + of_nat (length new)"
proof -
  let ?p = "p\<lparr>pi_eventsProcessed := pi_eventsProcessed p + 1\<rparr>"
  obtain ev q where pr: "prepared w raw p = (ev, q)" by force
  have q: "emitted ?p q 0" using prepared_sinks[OF pr] sinks_emitted by blast
  have "\<exists>n\<le>2. emitted q p' n"
  proof -
    have d: "decide_event w ev q = Some p'" using assms(1) by (simp add: process_prepared pr)
    show ?thesis using d
    proof (cases rule: decide_cases)
      case (unmatched r)
      have r: "emitted q r 0" using evaluate_sinks[OF unmatched(1)] sinks_emitted by blast
      have "\<exists>n\<le>1. emitted r (if ev_AnomalyScore ev \<ge> pi_anomalyThreshold r then emitAnomalyAlert w ev r else r) n"
        using deliver_emitted emitted_refl[of r r]
        by (auto simp: emitAnomalyAlert_def intro: exI[of _ 0] exI[of _ 1])
      then show ?thesis using emitted_add[OF r] correlation_emitted[OF unmatched(2)] by blast
    next
      case (matched m r m' s)
      have r: "emitted q r 0" using evaluate_sinks[OF matched(1)] sinks_emitted by blast
      show ?thesis
        by (rule emitted_add[OF r route_emitted[OF matched(2)] correlation_emitted[OF matched(3)]])
    qed
  qed
  then obtain n where "n \<le> 2" "emitted ?p p' n" using emitted_trans[OF q] by fastforce
  then show ?thesis using assms(2) by (auto simp: emitted_def)
qed

lemma demo_processed: "\<exists>p'. processOneEvent demo_world raw (started 42 demo_config) = Some p'"
  using event_ok[OF started_ok[OF demo_start, of 0 42] demo_orders, of raw] by (auto simp: demo_world_def)

theorem alerts_are_counted_witness:
  "\<exists>p' new. processOneEvent demo_world zero_event (started 42 demo_config) = Some p' \<and> pi_alertEmit p' = Some \<lparr>te_alerts = new\<rparr> \<and>
     length new \<le> 2 \<and> pi_alertsEmitted p' = of_nat (length new)"
proof -
  obtain p' where p': "processOneEvent demo_world zero_event (started 42 demo_config) = Some p'" using demo_processed by blast
  have "pi_alertEmit (started 42 demo_config) = Some \<lparr>te_alerts = []\<rparr>" "pi_alertsEmitted (started 42 demo_config) = 0"
    by (simp_all add: started_def InitCorrelationRules_def NewPipeline_def Let_def demo_config_def NewAlertEmitterForTest_def
        split: option.split)
  then show ?thesis using p' alerts_are_counted[OF p'] by auto
qed

section \<open>The triage stub\<close>

lemma dispatch_trier: "dispatch w ev action m (p\<lparr>pi_aiTrier := x\<rparr>) = (dispatch w ev action m p)\<lparr>pi_aiTrier := x\<rparr>"
  by (simp add: dispatch_def on_metrics_def deliver_def emitAlert_def emitSimulated_def executeEnforcement_def Let_def case_prod_beta)

lemma block_trier: "handleNetworkBlock w ev m mode (p\<lparr>pi_aiTrier := x\<rparr>) = (handleNetworkBlock w ev m mode p)\<lparr>pi_aiTrier := x\<rparr>"
  by (simp add: handleNetworkBlock_def Let_def split: option.split)

lemma blocked_trier: "blocked w ev m (p\<lparr>pi_aiTrier := x\<rparr>) = (blocked w ev m p)\<lparr>pi_aiTrier := x\<rparr>"
  by (simp add: blocked_def block_trier)

text \<open>A neutral answer changes neither action nor match, below the suppression threshold.\<close>

lemma neutral_triage:
  "1 / 2 < pi_triageSuppress p \<Longrightarrow> apply_triage p (1 / 2) (rm_Priority m) action m = (action, m)"
  by (auto simp: apply_triage_def)

text \<open>The connected triage stub decides nothing. With the AI connector as triage service, connected or
  not, and a suppression threshold above one half (it is 0.9 by default), every event is routed
  exactly as without triage: same actions, same alerts, same state, except for the stub's own counter.\<close>

theorem stub_triage_is_neutral:
  assumes "wd_triage w = TriageAlert" and "pi_aiTrier p = Some a" and "1 / 2 < pi_triageSuppress p"
    and "routeDecision w ev m p = (m', p')" and "routeDecision w ev m (p\<lparr>pi_aiTrier := None\<rparr>) = (m'', p'')"
  shows "m' = m'' \<and> p' = p''\<lparr>pi_aiTrier := pi_aiTrier p'\<rparr>"
proof -
  let ?act = "effective_action (pi_mode p) ev (rm_Action m)"
  have b: "pi_aiTrier (blocked w ev m p) = Some a" "pi_triageSuppress (blocked w ev m p) = pi_triageSuppress p"
    by (subst blocked_frame, simp add: assms(2))+
  obtain s pr why a' where t: "TriageAlert (rm_RuleID m) (rm_Priority m) (ev_Namespace ev) (ev_ContainerName ev) a = ((s, pr, why), a')"
    by (metis prod.collapse)
  have n: "s = 1 / 2" "pr = rm_Priority m"
    using ai_stub.neutral[of "rm_RuleID m" "rm_Priority m" "ev_Namespace ev" "ev_ContainerName ev" a] t by simp_all
  have "run_triage w ev ?act m (blocked w ev m p) = ((?act, m), (blocked w ev m p)\<lparr>pi_aiTrier := Some a'\<rparr>)"
    using neutral_triage[of "blocked w ev m p" m ?act] assms(1,3) b t n by (simp add: run_triage_def)
  then have p': "m' = m" "p' = dispatch w ev ?act m ((blocked w ev m p)\<lparr>pi_aiTrier := Some a'\<rparr>)"
    using route_stages[OF assms(4)] by auto
  have "run_triage w ev ?act m (blocked w ev m (p\<lparr>pi_aiTrier := None\<rparr>)) = ((?act, m), blocked w ev m (p\<lparr>pi_aiTrier := None\<rparr>))"
    by (simp add: run_triage_def blocked_trier)
  then have p'': "m'' = m" "p'' = dispatch w ev ?act m (blocked w ev m (p\<lparr>pi_aiTrier := None\<rparr>))"
    using route_stages[OF assms(5)] by auto
  show ?thesis by (simp add: p' p'' blocked_trier dispatch_trier)
qed

theorem stub_triage_is_neutral_witness:
  "fst (routeDecision demo_world demo_enriched demo_kill_match (SetAIAlertTrier (Some (NewAIConnector [] 0 True)) kill_start)) =
   fst (routeDecision demo_world demo_enriched demo_kill_match kill_start)"
proof -
  let ?p = "SetAIAlertTrier (Some (NewAIConnector [] 0 True)) kill_start"
  have n: "?p\<lparr>pi_aiTrier := None\<rparr> = kill_start"
    by (simp add: SetAIAlertTrier_def kill_start_def SetAnomalyEnabled_def NewPipeline_def Let_def)
  have "wd_triage demo_world = TriageAlert" "pi_aiTrier ?p = Some (NewAIConnector [] 0 True)" "1 / 2 < pi_triageSuppress ?p"
    by (simp_all add: demo_world_def SetAIAlertTrier_def kill_start_def SetAnomalyEnabled_def NewPipeline_def Let_def kill_config_def)
  from stub_triage_is_neutral[OF this prod.collapse[symmetric] prod.collapse[symmetric]] show ?thesis unfolding n by simp
qed

section \<open>Network blocks\<close>

lemma dispatch_blocks [simp]: "pi_netEnforcer (dispatch w ev action m p) = pi_netEnforcer p"
  by (auto simp: dispatch_def on_metrics_def deliver_def emitAlert_def emitSimulated_def executeEnforcement_def Let_def case_prod_beta)

lemma route_blocks:
  assumes "routeDecision w ev m p = (m', p')"
  shows "pi_netEnforcer p' = pi_netEnforcer (blocked w ev m p)"
proof -
  obtain action' q where t: "run_triage w ev (effective_action (pi_mode p) ev (rm_Action m)) m (blocked w ev m p) = ((action', m'), q)"
    and d: "p' = dispatch w ev action' m' q" using route_stages[OF assms] by blast
  have q: "q = (blocked w ev m p)\<lparr>pi_aiTrier := pi_aiTrier q\<rparr>" using triage_spec[OF t] by blast
  show ?thesis unfolding d by (subst q) simp
qed

text \<open>What the enforcer does for a match: one block of the event's remote address, or of the metadata service.\<close>

definition block_of :: "('u, 't) world \<Rightarrow> scarlet_event \<Rightarrow> string \<Rightarrow> 'u net_enforcer \<Rightarrow> 'u net_enforcer \<Rightarrow> bool" where
  "block_of w raw rule ne ne' \<longleftrightarrow>
     (\<exists>ip. ParseIP (RemoteIP raw) = Some ip \<and> RemotePort raw > 0 \<and>
        (rule = ''R009'' \<and> ne' = snd (BlockMiningPool (wd_ops w) (wd_now w) ip (RemotePort raw) ne) \<or>
         rule = ''R027'' \<and> ne' = snd (BlockC2Port (wd_ops w) (wd_now w) ip (RemotePort raw) ne))) \<or>
     rule = ''R019'' \<and> ne' = snd (BlockCloudMetadata (wd_ops w) (wd_now w) ne)"

lemma blocked_enforcer:
  assumes "pi_netEnforcer (blocked w ev m p) \<noteq> pi_netEnforcer p"
  shows "pi_mode p \<noteq> ''audit'' \<and> pi_mode p \<noteq> ''simulate'' \<and>
    (\<exists>ne ne'. pi_netEnforcer p = Some ne \<and> pi_netEnforcer (blocked w ev m p) = Some ne' \<and>
       block_of w (ev_RawEvent ev) (rm_RuleID m) ne ne')"
proof -
  have m: "pi_mode p \<noteq> ''audit''" "pi_mode p \<noteq> ''simulate''"
    using assms block_simulated[of w ev m p] by (auto simp: blocked_def split: if_splits)
  have b: "pi_netEnforcer (handleNetworkBlock w ev m (pi_mode p) p) \<noteq> pi_netEnforcer p"
    using assms by (auto simp: blocked_def split: if_splits)
  then show ?thesis using m unfolding handleNetworkBlock_def block_of_def blocked_def
    by (auto simp: Let_def split: option.splits if_splits)
qed

lemma correlation_blocks: "processCorrelationSignal w ev mt p = Some q \<Longrightarrow> pi_netEnforcer q = pi_netEnforcer p"
  by (drule correlation_core) (simp add: same_core_def)

text \<open>C4: What blocks the network. If the processing of an event changes the network enforcer, then the mode
  is neither audit nor simulate, one of the rules R009, R027 and R019 matched, and the change is one
  block: of the event's own remote address and port for the first two, of the metadata service for
  R019. Neither the rule's action nor the attribution of the event is asked.\<close>

theorem blocks_need_mode_and_rule:
  assumes "processOneEvent w raw p = Some p'" and "pi_netEnforcer p' \<noteq> pi_netEnforcer p"
  shows "pi_mode p \<noteq> ''audit'' \<and> pi_mode p \<noteq> ''simulate'' \<and>
    (\<exists>ev q m r ne ne'. prepared w raw p = (ev, q) \<and> evaluate_rules w ev q = Some (Some m, r) \<and>
       pi_netEnforcer p = Some ne \<and> pi_netEnforcer p' = Some ne' \<and> block_of w raw (rm_RuleID m) ne ne')"
proof -
  obtain ev q where pr: "prepared w raw p = (ev, q)" by force
  have q: "pi_netEnforcer q = pi_netEnforcer p" "pi_mode q = pi_mode p" "ev_RawEvent ev = raw"
    using prepared_sinks[OF pr] prepared_event[OF pr] by (auto simp: same_sinks_def same_core_def)
  have d: "decide_event w ev q = Some p'" using assms(1) by (simp add: process_prepared pr)
  show ?thesis
    using d
  proof (cases rule: decide_cases)
    case (unmatched r)
    have "pi_netEnforcer r = pi_netEnforcer q" using evaluate_sinks[OF unmatched(1)] by (simp add: same_sinks_def same_core_def)
    moreover have "pi_netEnforcer (emitAnomalyAlert w ev r) = pi_netEnforcer r"
      using anomaly_core[of r w ev r] by (simp add: same_core_def)
    ultimately have "pi_netEnforcer p' = pi_netEnforcer p" using correlation_blocks[OF unmatched(2)] q by simp
    then show ?thesis using assms(2) by simp
  next
    case (matched m r m' s)
    have r: "pi_netEnforcer r = pi_netEnforcer p" "pi_mode r = pi_mode p"
      using evaluate_sinks[OF matched(1)] q by (auto simp: same_sinks_def same_core_def)
    have s: "pi_netEnforcer p' = pi_netEnforcer (blocked w ev m r)"
      using correlation_blocks[OF matched(3)] route_blocks[OF matched(2)] by simp
    then have "pi_netEnforcer (blocked w ev m r) \<noteq> pi_netEnforcer r" using assms(2) r by simp
    from blocked_enforcer[OF this] show ?thesis using pr matched(1) r q(3) s by auto
  qed
qed

definition block_start :: "(tc_loader, ai_connector) pipeline" where
  "block_start = SetNetworkEnforcer (Some NewNetworkEnforcer) (SetAnomalyEnabled False (NewPipeline 42 (kill_config\<lparr>
     pg_Enricher := None, pg_RuleEngine := Some (addCompiledRule (demo_rule ''R019'' ''CRITICAL'') empty_engine)\<rparr>)))"

lemma block_processed:
  "\<exists>p' ne. processOneEvent demo_world kill_event block_start = Some p' \<and> pi_netEnforcer p' = Some ne \<and> BlockCount 5 ne = 1"
proof -
  have "\<not> pi_anomalyEnabled block_start" by (simp add: block_start_def SetAnomalyEnabled_def SetNetworkEnforcer_def)
  note u = unscored[OF this, of demo_world kill_event]
  have "map_option (\<lambda>p. map_option (BlockCount 5) (pi_netEnforcer p)) (processOneEvent demo_world kill_event block_start) = Some (Some 1)"
    unfolding u by code_simp
  then show ?thesis by auto
qed

theorem blocks_need_mode_and_rule_witness:
  "\<exists>p' ev q m r. processOneEvent demo_world kill_event block_start = Some p' \<and> pi_netEnforcer p' \<noteq> pi_netEnforcer block_start \<and>
     evaluate_rules demo_world ev q = Some (Some m, r) \<and> rm_RuleID m \<in> {''R009'', ''R027'', ''R019''}"
proof -
  obtain p' ne where p': "processOneEvent demo_world kill_event block_start = Some p'" "pi_netEnforcer p' = Some ne" "BlockCount 5 ne = 1"
    using block_processed by blast
  have "pi_netEnforcer block_start = Some NewNetworkEnforcer" "BlockCount 5 (NewNetworkEnforcer :: tc_loader net_enforcer) = 0"
    by (simp_all add: block_start_def SetNetworkEnforcer_def BlockCount_def NewNetworkEnforcer_def)
  then have "pi_netEnforcer p' \<noteq> pi_netEnforcer block_start" using p' by auto
  from blocks_need_mode_and_rule[OF p'(1) this] this p'(1) show ?thesis by (auto simp: block_of_def)
qed

section \<open>Metrics\<close>

text \<open>An enforcement is counted twice, and as completed whatever its result was: once by
  \<open>executeEnforcement\<close> with the result, once by the routing with the constant result.\<close>

lemma enforcement_counted_twice:
  assumes "pi_metrics p = Some mx"
  shows "\<exists>mx'. pi_metrics (dispatch w ev ActionEnforce m p) = Some mx' \<and> mx_totalEnforce mx' = mx_totalEnforce mx + 2 \<and>
    mx_enforcementTotal mx (''sigkill'', ''completed'') < mx_enforcementTotal mx' (''sigkill'', ''completed'')"
  using assms by (simp add: dispatch_def on_metrics_def executeEnforcement_def deliver_def Let_def case_prod_beta metrics_defs action_defs)

text \<open>Without a correlator, a matched event is counted twice as processed.\<close>

lemma matched_event_counted_twice:
  assumes "pi_metrics p = Some mx" "pi_correlator p = None"
    "processCorrelationSignal w ev (Some m) (dispatch w ev ActionAlert m p) = Some p'"
  shows "\<exists>mx'. pi_metrics p' = Some mx' \<and> mx_totalEvents mx' = mx_totalEvents mx + 2"
proof -
  let ?q = "dispatch w ev ActionAlert m p"
  have c: "pi_correlator ?q = None" and q: "\<exists>mx'. pi_metrics ?q = Some mx' \<and> mx_totalEvents mx' = mx_totalEvents mx + 1"
    using assms(1,2)
    by (simp_all add: dispatch_def on_metrics_def emitAlert_def deliver_def Let_def case_prod_beta metrics_defs action_defs)
  then show ?thesis using assms(3) by (auto simp: processCorrelationSignal_def on_metrics_def metrics_defs)
qed

end
