(* ===== verification/Pipeline_Kill.thy ===== *)
theory Pipeline_Kill
  imports Pipeline_Routing
begin

text \<open>
  When the processing of an event kills: exactly when mode, rule, triage, attribution, the safety rules and the pod's
  budget allow it, and with which signal first. \<open>Pipeline_Routing\<close> has the necessity, with pending escalations.
\<close>

section \<open>The response actor\<close>

definition permitted_kill :: "time \<Rightarrow> enriched_event \<Rightarrow> response_actor \<Rightarrow> bool" where
  "permitted_kill now ev r \<longleftrightarrow>
    enforceable ev r \<and> ev_Namespace ev \<noteq> [] \<and> fst (Allow now (podKey ev) (ra_rateLimiter r))"

definition first_signal :: "response_actor \<Rightarrow> nat" where
  "first_signal r = (if rf_Mode (ra_config r) = EnforceModeGraceful then 15 else 9)"

lemma sigkill_first: "\<exists>ss. ra_sent (snd (sendSIGKILL K pid r)) = ra_sent r @ (pid, 9) # ss"
  by (auto simp: sendSIGKILL_def kill_def split: option.split)

lemma immediate_first: "\<exists>ss. ra_sent (snd (executeImmediateKill K start fin ev m r)) = ra_sent r @ (PID (ev_RawEvent ev), 9) # ss"
  using sigkill_first[of K "PID (ev_RawEvent ev)" r]
  by (auto simp: executeImmediateKill_def Let_def case_prod_beta split: option.split)

lemma graceful_first: "\<exists>ss. ra_sent (snd (executeGracefulKill K start fin ev m r)) = ra_sent r @ (PID (ev_RawEvent ev), 15) # ss"
proof -
  let ?pid = "PID (ev_RawEvent ev)"
  obtain e q where q: "sendSIGTERM K ?pid r = (e, q)" by (metis surj_pair)
  have s: "ra_sent q = ra_sent r @ [(?pid, 15)]" using q by (auto simp: sendSIGTERM_def kill_def split: option.splits)
  show ?thesis using immediate_first[of K start fin ev m q] s
    by (cases e) (auto simp: executeGracefulKill_def q Let_def)
qed

lemma Enforce_signals:
  "\<exists>ss. ra_sent (snd (Enforce K start now fin ev m r)) = ra_sent r @
     (if permitted_kill now ev r \<and> rm_Action m = ActionEnforce then (PID (ev_RawEvent ev), first_signal r) # ss else [])"
proof -
  obtain res r' where e: "Enforce K start now fin ev m r = (res, r')" by (metis surj_pair)
  show ?thesis
    using e
  proof (cases rule: Enforce_cases)
    case (killing rl q)
    have "\<exists>ss. ra_sent q = ra_sent r @ (PID (ev_RawEvent ev), first_signal r) # ss"
      using killing(5) immediate_first[of K start fin ev m "r\<lparr>ra_rateLimiter := rl\<rparr>"]
        graceful_first[of K start fin ev m "r\<lparr>ra_rateLimiter := rl\<rparr>"]
      by (auto simp: first_signal_def split: if_splits)
    then show ?thesis using killing e by (simp add: permitted_kill_def)
  qed (use e in \<open>auto simp: permitted_kill_def skip_with_def Let_def\<close>)
qed

section \<open>The pipeline\<close>

text \<open>Triage takes the match away when its score reaches the threshold.\<close>

definition triage_suppresses :: "('u, 't) world \<Rightarrow> enriched_event \<Rightarrow> rule_match \<Rightarrow> ('u, 't) pipeline \<Rightarrow> bool" where
  "triage_suppresses w ev m p \<longleftrightarrow>
    (case pi_aiTrier p of
       None \<Rightarrow> False
     | Some t \<Rightarrow> fst (fst (wd_triage w (rm_RuleID m) (rm_Priority m) (ev_Namespace ev) (ev_ContainerName ev) t)) \<ge> pi_triageSuppress p)"

lemma triage_action:
  "run_triage w ev action m p = ((action', m'), q) \<Longrightarrow> action' = (if triage_suppresses w ev m p then ActionSuppress else action)"
  by (auto simp: run_triage_def apply_triage_def triage_suppresses_def split: option.splits prod.splits if_splits)

lemma triage_blocked: "triage_suppresses w ev m (blocked w ev m p) = triage_suppresses w ev m p"
  by (subst blocked_frame) (simp add: triage_suppresses_def split: option.split)

lemma route_signals:
  assumes "routeDecision w ev m p = (m', p')"
  shows "\<exists>ss. ra_sent (pi_response p') = ra_sent (pi_response p) @
    (if rm_Action m = ActionEnforce \<and> pi_mode p \<noteq> ''audit'' \<and> pi_mode p \<noteq> ''simulate'' \<and> \<not> triage_suppresses w ev m p \<and>
        permitted_kill (wd_now w) ev (pi_response p)
     then (PID (ev_RawEvent ev), first_signal (pi_response p)) # ss else [])"
proof -
  obtain action' q where t: "run_triage w ev (effective_action (pi_mode p) ev (rm_Action m)) m (blocked w ev m p) = ((action', m'), q)"
    and d: "p' = dispatch w ev action' m' q" using route_stages[OF assms] by blast
  have q: "q = (blocked w ev m p)\<lparr>pi_aiTrier := pi_aiTrier q\<rparr>" and m': "m' = m\<lparr>rm_Priority := rm_Priority m'\<rparr>"
    using triage_spec[OF t] by blast+
  have a: "action' = (if triage_suppresses w ev m p then ActionSuppress else effective_action (pi_mode p) ev (rm_Action m))"
    using triage_action[OF t] by (simp add: triage_blocked)
  have "pi_response (blocked w ev m p) = pi_response p" by (subst blocked_frame) simp
  then have r: "pi_response q = pi_response p" by (subst q) simp
  have m: "rm_Action m' = rm_Action m" by (subst m') simp
  have attributed: "permitted_kill now ev r \<Longrightarrow> ev_ContainerAttributed ev" for now r
    by (simp add: permitted_kill_def enforceable_def)
  have "action' = ActionEnforce \<longleftrightarrow> \<not> triage_suppresses w ev m p \<and> rm_Action m = ActionEnforce \<and> ev_ContainerAttributed ev \<and>
      pi_mode p \<noteq> ''audit'' \<and> pi_mode p \<noteq> ''simulate''"
    unfolding a by (simp add: effective_enforce) (simp add: action_defs)
  then show ?thesis
    using d r m attributed Enforce_signals[of "wd_kernel w" "wd_now w" "wd_now w" "wd_fin w" ev m' "pi_response p"]
    by (auto simp: dispatch_response split: if_splits)
qed

text \<open>C1: Exactly when an event kills. Its processing sends no signal, or first SIGKILL (SIGTERM in graceful mode) to the
  event's own process; the second exactly when the rules choose a match that enforces, the mode is neither audit nor
  simulate, triage does not suppress the match, the event belongs to a container in a namespace that is not protected, the
  process is not 0, 1, the agent or its child, and the pod's budget is not spent.\<close>

theorem kill_exactly_when:
  assumes "processOneEvent w raw p = Some p'" and "prepared w raw p = (ev, q)" and "evaluate_rules w ev q = Some (mt, r)"
  shows "\<exists>ss. ra_sent (pi_response p') = ra_sent (pi_response p) @
    (if (\<exists>m. mt = Some m \<and> rm_Action m = ActionEnforce \<and> \<not> triage_suppresses w ev m r) \<and>
        pi_mode p \<noteq> ''audit'' \<and> pi_mode p \<noteq> ''simulate'' \<and> permitted_kill (wd_now w) ev (pi_response p)
     then (PID raw, first_signal (pi_response p)) # ss else [])"
proof -
  have q: "pi_response q = pi_response p" "pi_mode q = pi_mode p" "ev_RawEvent ev = raw"
    using prepared_sinks[OF assms(2)] prepared_event[OF assms(2)] by (auto simp: same_sinks_def same_core_def)
  have r: "pi_response r = pi_response p" "pi_mode r = pi_mode p"
    using evaluate_sinks[OF assms(3)] q by (auto simp: same_sinks_def same_core_def)
  have d: "decide_event w ev q = Some p'" using assms(1) by (simp add: process_prepared assms(2))
  show ?thesis
    using d
  proof (cases rule: decide_cases)
    case (unmatched r')
    then have "r' = r" "mt = None" using assms(3) by simp_all
    moreover have "pi_response (emitAnomalyAlert w ev r) = pi_response r" using anomaly_core[of r w ev r] by (simp add: same_core_def)
    ultimately have "pi_response p' = pi_response p" using correlation_response[OF unmatched(2)] r by simp
    then show ?thesis using \<open>mt = None\<close> by simp
  next
    case (matched m r' m' s)
    then have mr: "r' = r" "mt = Some m" using assms(3) by simp_all
    have s: "pi_response p' = pi_response s" by (rule correlation_response[OF matched(3)])
    from route_signals[OF matched(2)[unfolded mr(1)], unfolded r q(3)] show ?thesis
      unfolding s mr(2) by (auto split: if_splits)
  qed
qed

theorem kill_exactly_when_witness:
  "ra_sent (pi_response kill_end) = [(7, 9), (7, 0)] \<and>
   permitted_kill (wd_now demo_world) (fst (prepared demo_world kill_event kill_start)) (pi_response kill_start)"
proof -
  obtain ev q where pr: "prepared demo_world kill_event kill_start = (ev, q)" by (metis surj_pair)
  have k: "processOneEvent demo_world kill_event kill_start = Some kill_end" "ra_sent (pi_response kill_end) = [(7, 9), (7, 0)]"
    using kill_processed by simp_all
  then obtain mt r where e: "evaluate_rules demo_world ev q = Some (mt, r)"
    by (auto simp: process_prepared pr decide_event_def split: option.splits)
  have "ra_sent (pi_response kill_start) = []"
    by (simp add: kill_start_def SetAnomalyEnabled_def NewPipeline_def Let_def NewResponseActor_def NewResponseActorWithConfig_def)
  with kill_exactly_when[OF k(1) pr e] k(2) show ?thesis by (auto simp: pr split: if_splits)
qed

end
