(* ===== verification/Dns.thy ===== *)
theory Dns
  imports Bytes
begin

unbundle bit_operations_syntax

text \<open>
  \<open>pkg/ebpf/dns.go\<close>: reading a DNS message from the bytes of a packet, with label compression, and the
  patterns of suspicious names. A slice out of range panics, which is \<open>None\<close>; an error that is returned
  stands beside the partial result, as in the code.
\<close>

section \<open>Messages\<close>

definition DNSHeaderSize :: nat where "DNSHeaderSize = 12"

definition DNSTypeA :: u16 where "DNSTypeA = 1"
definition DNSTypeNS :: u16 where "DNSTypeNS = 2"
definition DNSTypeCNAME :: u16 where "DNSTypeCNAME = 5"
definition DNSTypeSOA :: u16 where "DNSTypeSOA = 6"
definition DNSTypePTR :: u16 where "DNSTypePTR = 12"
definition DNSTypeMX :: u16 where "DNSTypeMX = 15"
definition DNSTypeTXT :: u16 where "DNSTypeTXT = 16"
definition DNSTypeAAAA :: u16 where "DNSTypeAAAA = 28"
definition DNSTypeSRV :: u16 where "DNSTypeSRV = 33"
definition DNSTypeANY :: u16 where "DNSTypeANY = 255"

lemmas dns_type_defs = DNSTypeA_def DNSTypeNS_def DNSTypeCNAME_def DNSTypeSOA_def DNSTypePTR_def DNSTypeMX_def
  DNSTypeTXT_def DNSTypeAAAA_def DNSTypeSRV_def DNSTypeANY_def

definition DNSFlagQR :: u16 where "DNSFlagQR = 0x8000"
definition DNSFlagTC :: u16 where "DNSFlagTC = 0x0200"

record dns_header =
  dh_ID :: u16
  dh_Flags :: u16
  dh_QDCount :: u16
  dh_ANCount :: u16
  dh_NSCount :: u16
  dh_ARCount :: u16

record dns_question =
  dq_Name :: string
  dq_Type :: u16
  dq_Class :: u16

record dns_answer =
  dr_Name :: string
  dr_Type :: u16
  dr_Class :: u16
  dr_TTL :: u32
  dr_RDLength :: u16
  dr_RData :: string

record dns_message =
  dm_Header :: dns_header
  dm_Questions :: "dns_question list"
  dm_Answers :: "dns_answer list"
  dm_Raw :: bytes

definition IsQuery :: "dns_message \<Rightarrow> bool" where
  "IsQuery m \<longleftrightarrow> dh_Flags (dm_Header m) AND DNSFlagQR = 0"

definition IsResponse :: "dns_message \<Rightarrow> bool" where
  "IsResponse m \<longleftrightarrow> dh_Flags (dm_Header m) AND DNSFlagQR \<noteq> 0"

definition Rcode :: "dns_message \<Rightarrow> u8" where
  "Rcode m = ucast (dh_Flags (dm_Header m) AND 0x000F)"

definition OpCode :: "dns_message \<Rightarrow> u8" where
  "OpCode m = ucast (drop_bit 11 (dh_Flags (dm_Header m)) AND 0x0F)"

definition Truncated :: "dns_message \<Rightarrow> bool" where
  "Truncated m \<longleftrightarrow> dh_Flags (dm_Header m) AND DNSFlagTC \<noteq> 0"

section \<open>Names\<close>

text \<open>One iteration of the loop of \<open>parseDNSName\<close>, from the byte at \<open>offset\<close>: the end of the name, a
  pointer, a label, an error, or a panic; with the offset behind what was read.\<close>

datatype name_step = Panic | Fail nat string | End nat | Pointer nat nat | Label nat string

definition read_label :: "bytes \<Rightarrow> nat \<Rightarrow> name_step" where
  "read_label data offset =
    (case index data offset of
       None \<Rightarrow> Panic
     | Some b \<Rightarrow>
         (let len = unat b; offset = offset + 1 in
          if len = 0 then End offset
          else if b AND 0xC0 = 0xC0 then
            (if offset \<ge> length data then Fail offset ''DNS compression pointer beyond data''
             else (case index data offset of
                     None \<Rightarrow> Panic
                   | Some c \<Rightarrow> Pointer (offset + 1) (push_bit 8 (unat (b AND 0x3F)) OR unat c)))
          else if len > 63 then Fail offset (''DNS label too long: '' @ show_nat len)
          else if offset + len > length data then
            Fail offset (''DNS label beyond data: offset='' @ show_nat offset @ '' length='' @ show_nat len @
              '' dataLen='' @ show_nat (length data))
          else (case slice data offset (offset + len) of
                  None \<Rightarrow> Panic
                | Some s \<Rightarrow> Label (offset + len) (string_of_bytes s))))"

lemma fewer_unvisited:
  "\<not> length data \<le> offset \<Longrightarrow> offset \<notin> set visited \<Longrightarrow>
     card ({0..<length data} - insert offset (set visited)) < card ({0..<length data} - set visited)"
  by (subst Diff_insert, rule card_Diff1_less) simp_all

text \<open>The loop; every iteration visits a new offset inside the data.\<close>

function name_loop :: "bytes \<Rightarrow> nat list \<Rightarrow> string list \<Rightarrow> nat option \<Rightarrow> nat \<Rightarrow> (string \<times> nat \<times> string option) option" where
  "name_loop data visited labels jumpFrom offset =
    (if offset \<ge> length data then Some (join ''.'' labels, offset, Some ''DNS name offset beyond data'')
     else if offset \<in> set visited then Some (join ''.'' labels, offset, Some ''DNS compression loop detected'')
     else
       (case read_label data offset of
          Panic \<Rightarrow> None
        | Fail k err \<Rightarrow> Some (join ''.'' labels, k, Some err)
        | End k \<Rightarrow> Some (join ''.'' labels, case jumpFrom of Some j \<Rightarrow> j | None \<Rightarrow> k, None)
        | Pointer k target \<Rightarrow>
            name_loop data (offset # visited) labels (Some (case jumpFrom of Some j \<Rightarrow> j | None \<Rightarrow> k)) target
        | Label k s \<Rightarrow> name_loop data (offset # visited) (labels @ [s]) jumpFrom k))"
  by pat_completeness auto

termination
  by (relation "measure (\<lambda>(data, visited, labels, j, offset). card ({0..<length data} - set visited))")
    (simp_all add: fewer_unvisited del: card_Diff_insert)

declare name_loop.simps [simp del]

definition parseDNSName :: "bytes \<Rightarrow> nat \<Rightarrow> (string \<times> nat \<times> string option) option" where
  "parseDNSName data offset = name_loop data [] [] None offset"

section \<open>Resource data\<close>

text \<open>\<open>parseSimpleLabels\<close> and the loop over the strings of a TXT record, over the bytes that are left.\<close>

function simple_labels :: "bytes \<Rightarrow> string list" where
  "simple_labels [] = []"
| "simple_labels (b # rest) =
     (if b = 0 \<or> unat b > 63 \<or> unat b > length rest then []
      else string_of_bytes (take (unat b) rest) # simple_labels (drop (unat b) rest))"
  by pat_completeness auto
termination by (relation "measure length") auto

definition parseSimpleLabels :: "bytes \<Rightarrow> string" where
  "parseSimpleLabels data = join ''.'' (simple_labels data)"

function txt_strings :: "bytes \<Rightarrow> string list" where
  "txt_strings [] = []"
| "txt_strings (b # rest) =
     (if unat b > length rest then [] else string_of_bytes (take (unat b) rest) # txt_strings (drop (unat b) rest))"
  by pat_completeness auto
termination by (relation "measure length") auto

definition findDNSSubstringOffset :: "bytes \<Rightarrow> bytes \<Rightarrow> nat option" where
  "findDNSSubstringOffset fullMsg rdata =
    find (\<lambda>i. take (length rdata) (drop i fullMsg) = rdata) [0..<length fullMsg + 1 - length rdata]"

text \<open>The branch of \<open>formatRData\<close> for names.\<close>

definition format_name :: "bytes \<Rightarrow> bytes \<Rightarrow> string option" where
  "format_name rdata fullMsg =
    (case (if rdata = [] then None else findDNSSubstringOffset fullMsg rdata) of
       None \<Rightarrow> Some (parseSimpleLabels rdata)
     | Some offset \<Rightarrow>
         (case parseDNSName fullMsg offset of
            None \<Rightarrow> None
          | Some (parsedName, _, None) \<Rightarrow> Some parsedName
          | Some (_, _, Some err) \<Rightarrow> Some (parseSimpleLabels rdata)))"

definition hex_digit :: "nat \<Rightarrow> char" where
  "hex_digit d = ''0123456789abcdef'' ! d"

fun show_hex :: "nat \<Rightarrow> string" where
  "show_hex n = (if n < 16 then [hex_digit n] else show_hex (n div 16) @ [hex_digit (n mod 16)])"

declare show_hex.simps [simp del]

fun hex_groups :: "bytes \<Rightarrow> nat \<Rightarrow> nat \<Rightarrow> string list option" where
  "hex_groups rdata i 0 = Some []"
| "hex_groups rdata i (Suc n) =
     do { w \<leftarrow> be16 rdata i; ws \<leftarrow> hex_groups rdata (i + 2) n; Some (show_hex (unat w) # ws) }"

definition byte_count :: "bytes \<Rightarrow> string" where
  "byte_count rdata = ''('' @ show_nat (length rdata) @ '' bytes)''"

definition formatRData :: "u16 \<Rightarrow> bytes \<Rightarrow> bytes \<Rightarrow> string option" where
  "formatRData rrtype rdata fullMsg =
    (if rrtype = DNSTypeA then
       (if length rdata \<ge> 4 then
          do { a \<leftarrow> index rdata 0; b \<leftarrow> index rdata 1; c \<leftarrow> index rdata 2; d \<leftarrow> index rdata 3;
               Some (join ''.'' [show_word a, show_word b, show_word c, show_word d]) }
        else Some (byte_count rdata))
     else if rrtype = DNSTypeAAAA then
       (if length rdata \<ge> 16 then map_option (join '':'') (hex_groups rdata 0 8) else Some (byte_count rdata))
     else if rrtype = DNSTypeCNAME \<or> rrtype = DNSTypeNS \<or> rrtype = DNSTypePTR then format_name rdata fullMsg
     else if rrtype = DNSTypeMX then
       (if length rdata \<ge> 2 then
          do { preference \<leftarrow> be16 rdata 0; rest \<leftarrow> slice rdata 2 (length rdata); nm \<leftarrow> format_name rest fullMsg;
               Some (show_word preference @ '' '' @ nm) }
        else Some (byte_count rdata))
     else if rrtype = DNSTypeTXT then Some (join '' '' (txt_strings rdata))
     else Some (byte_count rdata))"

section \<open>Answers and messages\<close>

definition parseDNSAnswer :: "bytes \<Rightarrow> nat \<Rightarrow> (string + dns_answer \<times> nat) option" where
  "parseDNSAnswer data offset =
    (case parseDNSName data offset of
       None \<Rightarrow> None
     | Some (_, _, Some err) \<Rightarrow> Some (Inl (''error parsing answer name: '' @ err))
     | Some (nm, offset, None) \<Rightarrow>
         if offset + 10 > length data then Some (Inl ''DNS answer header beyond data'')
         else
           do { ty \<leftarrow> be16 data offset; cl \<leftarrow> be16 data (offset + 2); ttl \<leftarrow> be32 data (offset + 4);
                rdlen \<leftarrow> be16 data (offset + 8);
                let offset = offset + 10;
                let answer = \<lparr>dr_Name = nm, dr_Type = ty, dr_Class = cl, dr_TTL = ttl, dr_RDLength = rdlen, dr_RData = []\<rparr>;
                if offset + unat rdlen > length data
                then Some (Inr (answer\<lparr>dr_RData := ''(truncated: need '' @ show_word rdlen @ '' bytes, have '' @
                  show_nat (length data - offset) @ '')''\<rparr>, length data))
                else do { rdata \<leftarrow> slice data offset (offset + unat rdlen); txt \<leftarrow> formatRData ty rdata data;
                          Some (Inr (answer\<lparr>dr_RData := txt\<rparr>, offset + unat rdlen)) } })"

text \<open>The loops over the questions and the answers: what was read, where it stopped, and an error.\<close>

fun question_loop :: "bytes \<Rightarrow> nat \<Rightarrow> nat \<Rightarrow> nat \<Rightarrow> (dns_question list \<times> nat \<times> string option) option" where
  "question_loop data i 0 offset = Some ([], offset, None)"
| "question_loop data i (Suc n) offset =
     (case parseDNSName data offset of
        None \<Rightarrow> None
      | Some (_, k, Some err) \<Rightarrow> Some ([], k, Some (''error parsing question '' @ show_nat i @ '' name: '' @ err))
      | Some (nm, offset, None) \<Rightarrow>
          if offset + 4 > length data then Some ([], offset, Some (''DNS data truncated in question '' @ show_nat i))
          else
            do { qtype \<leftarrow> be16 data offset; qclass \<leftarrow> be16 data (offset + 2);
                 (qs, k, err) \<leftarrow> question_loop data (i + 1) n (offset + 4);
                 Some (\<lparr>dq_Name = nm, dq_Type = qtype, dq_Class = qclass\<rparr> # qs, k, err) })"

fun answer_loop :: "bytes \<Rightarrow> nat \<Rightarrow> nat \<Rightarrow> dns_answer list option" where
  "answer_loop data 0 offset = Some []"
| "answer_loop data (Suc n) offset =
     (case parseDNSAnswer data offset of
        None \<Rightarrow> None
      | Some (Inl err) \<Rightarrow> Some []
      | Some (Inr (answer, offset)) \<Rightarrow> map_option ((#) answer) (answer_loop data n offset))"

text \<open>The result is the message, absent when the header is too short, and an error.\<close>

definition ParseDNSMessage :: "bytes \<Rightarrow> (dns_message option \<times> string option) option" where
  "ParseDNSMessage data =
    (if length data < DNSHeaderSize then
       Some (None, Some (''DNS data too short: '' @ show_nat (length data) @ '' bytes (need at least '' @ show_nat DNSHeaderSize @ '')''))
     else
       do { i \<leftarrow> be16 data 0; f \<leftarrow> be16 data 2; qd \<leftarrow> be16 data 4; an \<leftarrow> be16 data 6; ns \<leftarrow> be16 data 8; ar \<leftarrow> be16 data 10;
            let hd = \<lparr>dh_ID = i, dh_Flags = f, dh_QDCount = qd, dh_ANCount = an, dh_NSCount = ns, dh_ARCount = ar\<rparr>;
            (qs, offset, err) \<leftarrow> question_loop data 0 (unat qd) DNSHeaderSize;
            case err of
              Some e \<Rightarrow> Some (Some \<lparr>dm_Header = hd, dm_Questions = qs, dm_Answers = [], dm_Raw = data\<rparr>, Some e)
            | None \<Rightarrow>
                map_option (\<lambda>as. (Some \<lparr>dm_Header = hd, dm_Questions = qs, dm_Answers = as, dm_Raw = data\<rparr>, None))
                  (answer_loop data (unat an) offset) })"

end
