(* ===== verification/Dns_Facts.thy ===== *)
theory Dns_Facts
  imports Dns
begin

text \<open>
  The DNS parser never panics and its name loop ends, compressed or not; what it reads stays inside the
  packet. It inverts an encoder of queries and address responses, with a compressed answer name.
\<close>

unbundle bit_operations_syntax

section \<open>Reads at a position\<close>

definition put_be16 :: "u16 \<Rightarrow> bytes" where "put_be16 w = rev (put_le16 w)"
definition put_be32 :: "u32 \<Rightarrow> bytes" where "put_be32 w = rev (put_le32 w)"

lemma length_put_be [simp]: "length (put_be16 w) = 2" "length (put_be32 v) = 4"
  by (simp_all add: put_be16_def put_be32_def)

lemma slice_right: "length h \<le> a \<Longrightarrow> slice (h @ r) a b = (if a \<le> b then slice r (a - length h) (b - length h) else None)"
  by (auto simp: slice_def drop_append diff_diff_left)

lemma be_right:
  "length h \<le> a \<Longrightarrow> be16 (h @ r) a = be16 r (a - length h)"
  "length h \<le> a \<Longrightarrow> be32 (h @ r) a = be32 r (a - length h)"
  "length h \<le> a \<Longrightarrow> index (h @ r) a = index r (a - length h)"
  by (auto simp: be16_def be32_def slice_right index_def nth_append Suc_diff_le)

lemma be_here [simp]: "be16 (put_be16 w @ r) 0 = Some w" "be32 (put_be32 v @ r) 0 = Some v"
  by (simp_all add: be16_def be32_def slice_def be_nat_def put_be16_def put_be32_def)

section \<open>Reading a label\<close>

lemma read_label_spec:
  assumes "offset < length data"
  shows "case read_label data offset of
      Panic \<Rightarrow> False
    | Fail k err \<Rightarrow> True
    | End k \<Rightarrow> k = offset + 1
    | Pointer k target \<Rightarrow> k = offset + 2 \<and> k \<le> length data
    | Label k s \<Rightarrow> k = offset + 1 + length s \<and> k \<le> length data \<and> 0 < length s \<and> length s \<le> 63"
proof -
  have "data ! offset \<noteq> 0 \<Longrightarrow> 0 < unat (data ! offset)" by (simp add: unat_gt_0)
  then show ?thesis using assms by (cases "data ! offset = 0") (auto simp: read_label_def byte_read Let_def string_of_bytes_def)
qed

text \<open>A name ends: behind its first pointer, or behind its last label.\<close>

definition name_ok :: "bytes \<Rightarrow> nat option \<Rightarrow> nat \<Rightarrow> (string \<times> nat \<times> string option) option \<Rightarrow> bool" where
  "name_ok data jumpFrom offset res \<longleftrightarrow>
     (\<exists>nm k err. res = Some (nm, k, err) \<and>
       (err = None \<longrightarrow> (case jumpFrom of Some j \<Rightarrow> k = j | None \<Rightarrow> offset < k \<and> k \<le> length data)))"

lemma name_loop_ok: "name_ok data jumpFrom offset (name_loop data visited labels jumpFrom offset)"
proof (induction data visited labels jumpFrom offset rule: name_loop.induct)
  case (1 data visited labels jumpFrom offset)
  show ?case
  proof (cases "length data \<le> offset \<or> offset \<in> set visited")
    case True
    then show ?thesis by (subst name_loop.simps) (auto simp: name_ok_def)
  next
    case False
    then have spec: "case read_label data offset of Panic \<Rightarrow> False | Fail k err \<Rightarrow> True | End k \<Rightarrow> k = offset + 1
        | Pointer k target \<Rightarrow> k = offset + 2 \<and> k \<le> length data
        | Label k s \<Rightarrow> k = offset + 1 + length s \<and> k \<le> length data \<and> 0 < length s \<and> length s \<le> 63"
      using read_label_spec[of offset data] by simp
    show ?thesis
    proof (cases "read_label data offset")
      case (Pointer k target)
      then show ?thesis using False 1(1)[of k target] spec
        by (subst name_loop.simps) (cases jumpFrom; auto simp: name_ok_def)
    next
      case (Label k s)
      then show ?thesis using False 1(2)[of k s] spec
        by (subst name_loop.simps) (cases jumpFrom; auto simp: name_ok_def)
    qed (use False spec in \<open>subst name_loop.simps, cases jumpFrom; auto simp: name_ok_def\<close>)+
  qed
qed

lemma parse_name_ok:
  obtains nm k err where "parseDNSName data offset = Some (nm, k, err)" "err = None \<Longrightarrow> offset < k \<and> k \<le> length data"
  using name_loop_ok[of data None offset "[]" "[]"] by (auto simp: name_ok_def parseDNSName_def)

section \<open>Messages\<close>

lemma format_name_total: "format_name rdata full \<noteq> None"
proof (cases "if rdata = [] then None else findDNSSubstringOffset full rdata")
  case (Some off)
  obtain nm k err where "parseDNSName full off = Some (nm, k, err)" using parse_name_ok by blast
  then show ?thesis by (cases err) (simp_all add: format_name_def Some)
qed (simp add: format_name_def)

lemma hex_groups_total: "i + 2 * n \<le> length rdata \<Longrightarrow> \<exists>ws. hex_groups rdata i n = Some ws"
proof (induction n arbitrary: i)
  case (Suc n)
  then obtain ws where "hex_groups rdata (i + 2) n = Some ws" by fastforce
  then show ?case using Suc.prems by (simp add: byte_read)
qed simp

lemma formatRData_total: "\<exists>t. formatRData ty rdata full = Some t"
proof -
  have n: "\<exists>t. format_name r full = Some t" for r using format_name_total[of r full] by blast
  have h: "16 \<le> length rdata \<Longrightarrow> \<exists>ws. hex_groups rdata 0 8 = Some ws" using hex_groups_total[of 0 8 rdata] by simp
  consider "ty = DNSTypeA" | "ty = DNSTypeAAAA" | "ty = DNSTypeMX" | "ty \<notin> {DNSTypeA, DNSTypeAAAA, DNSTypeMX}" by blast
  then show ?thesis
  proof cases
    case 1
    then show ?thesis by (auto simp: formatRData_def index_def)
  next
    case 2
    then show ?thesis using h by (auto simp: formatRData_def dns_type_defs)
  next
    case 3
    show ?thesis
    proof (cases "2 \<le> length rdata")
      case True
      obtain t where "format_name (drop 2 rdata) full = Some t" using n by blast
      then show ?thesis using 3 True by (simp add: formatRData_def dns_type_defs byte_read)
    qed (simp add: 3 formatRData_def dns_type_defs)
  next
    case 4
    then show ?thesis using n[of rdata] by (auto simp: formatRData_def)
  qed
qed

lemma answer_total:
  "\<exists>res. parseDNSAnswer data offset = Some res \<and> (\<forall>a k. res = Inr (a, k) \<longrightarrow> offset < k \<and> k \<le> length data)"
proof -
  obtain nm k err where p: "parseDNSName data offset = Some (nm, k, err)" and k: "err = None \<Longrightarrow> offset < k \<and> k \<le> length data"
    using parse_name_ok by blast
  show ?thesis
  proof (cases "err = None \<and> k + 10 \<le> length data")
    case True
    obtain len where len: "be16 data (k + 8) = Some len" using True by (simp add: byte_read)
    obtain t where t: "formatRData (of_nat (be_nat (take 2 (drop k data)))) (take (unat len) (drop (k + 10) data)) data = Some t"
      using formatRData_total by blast
    show ?thesis
    proof (cases "k + 10 + unat len \<le> length data")
      case fits: True
      then show ?thesis using True k len t by (simp add: parseDNSAnswer_def p byte_read Let_def)
    next
      case False
      then show ?thesis using True k len by (simp add: parseDNSAnswer_def p byte_read Let_def)
    qed
  next
    case False
    then show ?thesis by (cases err) (auto simp: parseDNSAnswer_def p)
  qed
qed

lemma answers_total: "\<exists>as. answer_loop data n offset = Some as \<and> length as \<le> n"
proof (induction n arbitrary: offset)
  case (Suc n)
  obtain res where r: "parseDNSAnswer data offset = Some res" using answer_total by blast
  show ?case
  proof (cases res)
    case (Inr p)
    obtain a k where "p = (a, k)" by force
    then show ?thesis using Inr r Suc.IH[of k] by auto
  qed (simp add: r)
qed simp

lemma questions_total:
  "\<exists>qs k err. question_loop data i n offset = Some (qs, k, err) \<and> (if err = None then length qs = n else length qs < n)"
proof (induction n arbitrary: i offset)
  case (Suc n)
  obtain nm k err where p: "parseDNSName data offset = Some (nm, k, err)" using parse_name_ok by blast
  obtain qs k' err' where q: "question_loop data (i + 1) n (k + 4) = Some (qs, k', err')"
    "if err' = None then length qs = n else length qs < n" using Suc.IH by blast
  then show ?case using p by (cases err) (auto simp: byte_read split: if_splits)
qed simp

text \<open>The DNS parser returns on every packet. It never panics, and its loop over compressed names ends.
  It errs without a message exactly on data shorter than a header; it succeeds with as many questions as
  the header announces and at most as many answers, and an error beside a message means that a question
  could not be read.\<close>

theorem dns_parse_total:
  "\<exists>msg err. ParseDNSMessage data = Some (msg, err) \<and>
     (case msg of
        None \<Rightarrow> length data < 12
      | Some m \<Rightarrow> 12 \<le> length data \<and> dm_Raw m = data \<and> length (dm_Answers m) \<le> unat (dh_ANCount (dm_Header m)) \<and>
          (if err = None then length (dm_Questions m) = unat (dh_QDCount (dm_Header m))
           else length (dm_Questions m) < unat (dh_QDCount (dm_Header m)) \<and> dm_Answers m = []))"
proof (cases "length data < 12")
  case True
  then show ?thesis by (simp add: ParseDNSMessage_def DNSHeaderSize_def)
next
  case False
  then obtain qd an where c: "be16 data 4 = Some qd" "be16 data 6 = Some an" by (simp add: byte_read)
  obtain qs k err where q: "question_loop data 0 (unat qd) 12 = Some (qs, k, err)"
    "if err = None then length qs = unat qd else length qs < unat qd" using questions_total by blast
  obtain as where a: "answer_loop data (unat an) k = Some as" "length as \<le> unat an" using answers_total by blast
  show ?thesis
  proof (cases err)
    case None
    then show ?thesis using False c q a by (simp add: ParseDNSMessage_def DNSHeaderSize_def byte_read Let_def)
  next
    case (Some e)
    then show ?thesis using False c q by (simp add: ParseDNSMessage_def DNSHeaderSize_def byte_read Let_def)
  qed
qed

section \<open>Encoding\<close>

definition wf_label :: "string \<Rightarrow> bool" where
  "wf_label l \<longleftrightarrow> l \<noteq> [] \<and> length l \<le> 63"

definition encode_label :: "string \<Rightarrow> bytes" where
  "encode_label l = of_nat (length l) # bytes_of_string l"

definition encode_name :: "string list \<Rightarrow> bytes" where
  "encode_name ls = concat (map encode_label ls) @ [0]"

lemma length_encode_label [simp]: "length (encode_label l) = Suc (length l)"
  by (simp add: encode_label_def)

lemma length_byte: "wf_label l \<Longrightarrow> unat (of_nat (length l) :: u8) = length l"
  by (simp add: wf_label_def unat_of_nat)

lemma no_pointer: "wf_label l \<Longrightarrow> (of_nat (length l) :: u8) AND 0xC0 \<noteq> 0xC0"
proof
  assume l: "wf_label l" and p: "(of_nat (length l) :: u8) AND 0xC0 = 0xC0"
  have "(of_nat (length l) :: u8) AND 0xC0 \<le> of_nat (length l)" by (rule word_and_le2)
  then have "unat (0xC0 :: u8) \<le> unat (of_nat (length l) :: u8)" unfolding p by (simp add: word_le_nat_alt)
  then show False using length_byte[OF l] l by (simp add: wf_label_def)
qed

lemma read_encoded_label:
  assumes "wf_label l"
  shows "read_label (h @ encode_label l @ r) (length h) = Label (length h + Suc (length l)) l"
proof -
  have z: "unat (of_nat (length l) :: u8) \<noteq> 0" using assms length_byte[OF assms] by (simp add: wf_label_def)
  have s: "slice (h @ of_nat (length l) # bytes_of_string l @ r) (Suc (length h)) (Suc (length h) + length l) = Some (bytes_of_string l)"
    by (simp add: slice_def)
  show ?thesis
    using assms no_pointer[OF assms] length_byte[OF assms] z s
    by (simp add: read_label_def encode_label_def index_def wf_label_def Let_def)
qed

lemma read_encoded_end: "read_label (h @ 0 # r) (length h) = End (Suc (length h))"
  by (simp add: read_label_def index_def)

lemma name_loop_encoded:
  assumes "\<forall>l\<in>set ls. wf_label l" "\<forall>v\<in>set visited. v < length h \<or> length h + length (encode_name ls) \<le> v"
  shows "name_loop (h @ encode_name ls @ r) visited done jumpFrom (length h) =
    Some (join ''.'' (done @ ls), case jumpFrom of Some j \<Rightarrow> j | None \<Rightarrow> length h + length (encode_name ls), None)"
  using assms
proof (induction ls arbitrary: h visited "done")
  case Nil
  then have "length h \<notin> set visited" by (auto simp: encode_name_def)
  then show ?case by (subst name_loop.simps) (simp add: encode_name_def read_encoded_end split: option.split)
next
  case (Cons l ls)
  have l: "wf_label l" using Cons.prems(1) by simp
  have v: "length h \<notin> set visited" using Cons.prems(2) by (auto simp: encode_name_def)
  let ?h = "h @ encode_label l"
  have e: "h @ encode_name (l # ls) @ r = ?h @ encode_name ls @ r" "length (encode_name (l # ls)) = Suc (length l) + length (encode_name ls)"
    by (simp_all add: encode_name_def)
  have "name_loop (?h @ encode_name ls @ r) (length h # visited) (done @ [l]) jumpFrom (length ?h) =
    Some (join ''.'' ((done @ [l]) @ ls), case jumpFrom of Some j \<Rightarrow> j | None \<Rightarrow> length ?h + length (encode_name ls), None)"
    by (rule Cons.IH) (use Cons.prems e(2) in auto)
  moreover have "read_label (?h @ encode_name ls @ r) (length h) = Label (length h + Suc (length l)) l"
    using read_encoded_label[OF l, of h "encode_name ls @ r"] by simp
  ultimately show ?case unfolding e(1) by (subst name_loop.simps) (use v e(2) in \<open>simp split: option.split\<close>)
qed

lemma parse_encoded_name:
  "\<forall>l\<in>set ls. wf_label l \<Longrightarrow> parseDNSName (h @ encode_name ls @ r) (length h) =
     Some (join ''.'' ls, length h + length (encode_name ls), None)"
  using name_loop_encoded[of ls "[]" h r "[]" None] by (simp add: parseDNSName_def)

text \<open>Queries, and address records whose owner is written out or is a pointer to the first question.\<close>

datatype owner = Written "string list" | Compressed

record address_record =
  wa_Owner :: owner
  wa_Class :: u16
  wa_TTL :: u32
  wa_Addr :: bytes

definition encode_question :: "string list \<times> u16 \<times> u16 \<Rightarrow> bytes" where
  "encode_question q = (case q of (ls, ty, cl) \<Rightarrow> encode_name ls @ put_be16 ty @ put_be16 cl)"

fun encode_owner :: "owner \<Rightarrow> bytes" where
  "encode_owner (Written ls) = encode_name ls"
| "encode_owner Compressed = [0xC0, 0x0C]"

definition encode_answer :: "address_record \<Rightarrow> bytes" where
  "encode_answer a = encode_owner (wa_Owner a) @ put_be16 DNSTypeA @ put_be16 (wa_Class a) @ put_be32 (wa_TTL a) @ put_be16 4 @ wa_Addr a"

definition encode_message :: "u16 \<Rightarrow> u16 \<Rightarrow> u16 \<Rightarrow> u16 \<Rightarrow> (string list \<times> u16 \<times> u16) list \<Rightarrow> address_record list \<Rightarrow> bytes" where
  "encode_message i f ns ar qs as =
    put_be16 i @ put_be16 f @ put_be16 (of_nat (length qs)) @ put_be16 (of_nat (length as)) @ put_be16 ns @ put_be16 ar @
    concat (map encode_question qs) @ concat (map encode_answer as)"

definition question_of :: "string list \<times> u16 \<times> u16 \<Rightarrow> dns_question" where
  "question_of q = (case q of (ls, ty, cl) \<Rightarrow> \<lparr>dq_Name = join ''.'' ls, dq_Type = ty, dq_Class = cl\<rparr>)"

fun owner_name :: "string list \<Rightarrow> owner \<Rightarrow> string list" where
  "owner_name first (Written ls) = ls"
| "owner_name first Compressed = first"

definition answer_of :: "string list \<Rightarrow> address_record \<Rightarrow> dns_answer" where
  "answer_of first a =
    \<lparr>dr_Name = join ''.'' (owner_name first (wa_Owner a)), dr_Type = DNSTypeA, dr_Class = wa_Class a, dr_TTL = wa_TTL a,
     dr_RDLength = 4, dr_RData = join ''.'' (map show_word (wa_Addr a))\<rparr>"

definition wf_question :: "string list \<times> u16 \<times> u16 \<Rightarrow> bool" where
  "wf_question q \<longleftrightarrow> (\<forall>l\<in>set (fst q). wf_label l)"

definition wf_answer :: "address_record \<Rightarrow> bool" where
  "wf_answer a \<longleftrightarrow> length (wa_Addr a) = 4 \<and> (case wa_Owner a of Written ls \<Rightarrow> \<forall>l\<in>set ls. wf_label l | Compressed \<Rightarrow> True)"

lemma question_loop_encoded:
  "\<forall>q\<in>set qs. wf_question q \<Longrightarrow>
     question_loop (h @ concat (map encode_question qs) @ r) i (length qs) (length h) =
       Some (map question_of qs, length h + length (concat (map encode_question qs)), None)"
proof (induction qs arbitrary: h i)
  case (Cons q qs)
  obtain ls ty cl where q: "q = (ls, ty, cl)" by (metis surj_pair)
  let ?tail = "concat (map encode_question qs) @ r"
  define data where "data = h @ concat (map encode_question (q # qs)) @ r"
  have d: "data = h @ encode_name ls @ (put_be16 ty @ put_be16 cl @ ?tail)" "data = (h @ encode_question q) @ ?tail"
    by (simp_all add: data_def q encode_question_def)
  let ?k = "length h + length (encode_name ls)"
  have n: "parseDNSName data (length h) = Some (join ''.'' ls, ?k, None)"
    unfolding d(1) by (rule parse_encoded_name) (use Cons.prems q in \<open>simp add: wf_question_def\<close>)
  have b: "be16 data ?k = Some ty" "be16 data (?k + 2) = Some cl" "?k + 4 \<le> length data"
    unfolding d(1) by (simp_all add: be_right)
  have len: "length (h @ encode_question q) = ?k + 4" by (simp add: q encode_question_def)
  have "question_loop data (i + 1) (length qs) (length (h @ encode_question q)) =
      Some (map question_of qs, length (h @ encode_question q) + length (concat (map encode_question qs)), None)"
    unfolding d(2) by (rule Cons.IH) (use Cons.prems in simp)
  then have rec: "question_loop data (i + 1) (length qs) (?k + 4) =
      Some (map question_of qs, ?k + 4 + length (concat (map encode_question qs)), None)" unfolding len .
  have "question_loop data i (Suc (length qs)) (length h) =
      Some (question_of q # map question_of qs, ?k + 4 + length (concat (map encode_question qs)), None)"
    using n b rec by (simp add: q question_of_def)
  moreover have "?k + 4 + length (concat (map encode_question qs)) = length h + length (concat (map encode_question (q # qs)))"
    using len by simp
  ultimately show ?case unfolding data_def by simp
qed simp

lemma parse_owner:
  assumes "wf_answer a" "data = h @ encode_owner (wa_Owner a) @ r"
    and "data = h0 @ encode_name first @ r0" "length h0 = 12" "12 + length (encode_name first) \<le> length h" "\<forall>l\<in>set first. wf_label l"
  shows "parseDNSName data (length h) =
    Some (join ''.'' (owner_name first (wa_Owner a)), length h + length (encode_owner (wa_Owner a)), None)"
proof (cases "wa_Owner a")
  case (Written ls)
  then show ?thesis using parse_encoded_name[of ls h r] assms(1,2) by (simp add: wf_answer_def)
next
  case Compressed
  then have d: "data = h @ 0xC0 # 0x0C # r" using assms(2) by simp
  have "index data (length h) = Some 0xC0" "index data (Suc (length h)) = Some 0x0C" "Suc (length h) < length data"
    by (simp_all add: d index_def nth_append)
  then have "read_label data (length h) = Pointer (length h + 2) 12" by (simp add: read_label_def Let_def)
  moreover have "name_loop data [length h] [] (Some (length h + 2)) 12 = Some (join ''.'' first, length h + 2, None)"
    using name_loop_encoded[of first "[length h]" h0 r0 "[]" "Some (length h + 2)"] assms(3-6) by simp
  moreover have "length h < length data" by (simp add: d)
  ultimately show ?thesis unfolding parseDNSName_def by (subst name_loop.simps) (simp add: Compressed)
qed

text \<open>The packet has the name of its first question behind the header.\<close>

definition has_first :: "bytes \<Rightarrow> string list \<Rightarrow> nat \<Rightarrow> bool" where
  "has_first data first k \<longleftrightarrow> (\<exists>h0 r0. data = h0 @ encode_name first @ r0 \<and> length h0 = 12 \<and> 12 + length (encode_name first) \<le> k) \<and>
     (\<forall>l\<in>set first. wf_label l)"

lemma parse_answer:
  assumes "wf_answer a" "data = h @ encode_answer a @ r" "has_first data first (length h)"
  shows "parseDNSAnswer data (length h) = Some (Inr (answer_of first a, length h + length (encode_answer a)))"
proof -
  let ?k = "length h + length (encode_owner (wa_Owner a))"
  let ?rest = "put_be16 DNSTypeA @ put_be16 (wa_Class a) @ put_be32 (wa_TTL a) @ put_be16 4 @ wa_Addr a @ r"
  have addr: "length (wa_Addr a) = 4" using assms(1) by (simp add: wf_answer_def)
  have d: "data = h @ encode_owner (wa_Owner a) @ ?rest" by (simp add: assms(2) encode_answer_def)
  obtain h0 r0 where f: "data = h0 @ encode_name first @ r0" "length h0 = 12" "12 + length (encode_name first) \<le> length h"
    "\<forall>l\<in>set first. wf_label l" using assms(3) by (auto simp: has_first_def)
  have n: "parseDNSName data (length h) = Some (join ''.'' (owner_name first (wa_Owner a)), ?k, None)"
    by (rule parse_owner[OF assms(1) d f])
  have b: "be16 data ?k = Some DNSTypeA" "be16 data (?k + 2) = Some (wa_Class a)" "be32 data (?k + 4) = Some (wa_TTL a)"
    "be16 data (?k + 8) = Some 4" "?k + 10 + 4 \<le> length data"
    unfolding d by (simp_all add: be_right addr)
  have s: "slice data (?k + 10) (?k + 10 + unat (4 :: u16)) = Some (wa_Addr a)"
    unfolding d by (simp add: slice_right slice_def addr)
  obtain w x y z where q: "wa_Addr a = [w, x, y, z]" using addr by (auto simp: length_Suc_conv eval_nat_numeral)
  have t: "formatRData DNSTypeA (wa_Addr a) data = Some (join ''.'' (map show_word (wa_Addr a)))"
    by (simp add: formatRData_def q index_def)
  have "length (encode_answer a) = length (encode_owner (wa_Owner a)) + 14" by (simp add: encode_answer_def addr)
  moreover have "unat (4 :: u16) = 4" by simp
  ultimately show ?thesis using n b s t by (simp add: parseDNSAnswer_def Let_def answer_of_def add.assoc)
qed

lemma answer_loop_encoded:
  "\<forall>a\<in>set as. wf_answer a \<Longrightarrow> has_first (h @ concat (map encode_answer as)) first (length h) \<Longrightarrow>
     answer_loop (h @ concat (map encode_answer as)) (length as) (length h) = Some (map (answer_of first) as)"
proof (induction as arbitrary: h)
  case (Cons a as)
  let ?data = "h @ concat (map encode_answer (a # as))"
  have d: "?data = h @ encode_answer a @ concat (map encode_answer as)" "?data = (h @ encode_answer a) @ concat (map encode_answer as)"
    by simp_all
  have p: "parseDNSAnswer ?data (length h) = Some (Inr (answer_of first a, length h + length (encode_answer a)))"
    by (rule parse_answer[OF _ d(1) Cons.prems(2)]) (use Cons.prems in simp)
  have "answer_loop ?data (length as) (length (h @ encode_answer a)) = Some (map (answer_of first) as)"
    unfolding d(2) by (rule Cons.IH) (use Cons.prems in \<open>auto simp: has_first_def\<close>)
  then show ?case using p by simp
qed simp

text \<open>C32: Parsing inverts encoding. A message with questions and address answers, whose names have labels of
  1 to 63 bytes and whose answers may point to the name of the first question, parses to exactly those
  questions and answers, in order, with the addresses in decimal.\<close>

theorem dns_roundtrip:
  assumes "\<forall>q\<in>set qs. wf_question q" and "\<forall>a\<in>set as. wf_answer a" and "qs \<noteq> []"
    and "length qs < 65536" and "length as < 65536"
  shows "\<exists>msg. ParseDNSMessage (encode_message i f ns ar qs as) = Some (Some msg, None) \<and>
    dm_Questions msg = map question_of qs \<and> dm_Answers msg = map (answer_of (fst (hd qs))) as \<and>
    dh_ID (dm_Header msg) = i \<and> dh_Flags (dm_Header msg) = f"
proof -
  let ?head = "put_be16 i @ put_be16 f @ put_be16 (of_nat (length qs)) @ put_be16 (of_nat (length as)) @ put_be16 ns @ put_be16 ar"
  let ?qs = "concat (map encode_question qs)" and ?as = "concat (map encode_answer as)"
  let ?data = "encode_message i f ns ar qs as"
  have d: "?data = ?head @ ?qs @ ?as" "?data = (?head @ ?qs) @ ?as" "length ?head = 12" by (simp_all add: encode_message_def)
  have r: "be16 ?data 0 = Some i" "be16 ?data 2 = Some f" "be16 ?data 4 = Some (of_nat (length qs))"
    "be16 ?data 6 = Some (of_nat (length as))" "be16 ?data 8 = Some ns" "be16 ?data 10 = Some ar" "\<not> length ?data < 12"
    by (simp_all add: encode_message_def be_right)
  have c: "unat (of_nat (length qs) :: u16) = length qs" "unat (of_nat (length as) :: u16) = length as"
    using assms(4,5) by (simp_all add: unat_of_nat)
  have q: "question_loop ?data 0 (length qs) 12 = Some (map question_of qs, 12 + length ?qs, None)"
    unfolding d(1) using question_loop_encoded[OF assms(1), of ?head ?as 0] d(3) by (simp only:)
  obtain ls ty cl rest where hd: "qs = (ls, ty, cl) # rest" using assms(3) by (metis neq_Nil_conv surj_pair)
  have "?data = ?head @ encode_name ls @ (put_be16 ty @ put_be16 cl @ concat (map encode_question rest) @ ?as)"
    by (simp add: encode_message_def hd encode_question_def)
  moreover have "12 + length (encode_name ls) \<le> length (?head @ ?qs)" "\<forall>l\<in>set ls. wf_label l"
    using assms(1) by (simp_all add: hd encode_question_def wf_question_def)
  ultimately have "has_first ?data ls (length (?head @ ?qs))" using d(3) unfolding has_first_def by blast
  then have "answer_loop ?data (length as) (length (?head @ ?qs)) = Some (map (answer_of ls) as)"
    unfolding d(2) by (rule answer_loop_encoded[OF assms(2)])
  moreover have "length (?head @ ?qs) = 12 + length ?qs" by simp
  ultimately have a: "answer_loop ?data (length as) (12 + length ?qs) = Some (map (answer_of ls) as)" by (simp only:)
  show ?thesis using r q a c by (simp add: ParseDNSMessage_def DNSHeaderSize_def Let_def hd)
qed

theorem dns_roundtrip_witness:
  "\<exists>msg. ParseDNSMessage (encode_message 7 0x8180 0 0 [([''example'', ''com''], DNSTypeA, 1)]
       [\<lparr>wa_Owner = Compressed, wa_Class = 1, wa_TTL = 60, wa_Addr = [10, 0, 0, 1]\<rparr>]) = Some (Some msg, None) \<and>
     map dr_Name (dm_Answers msg) = [''example.com''] \<and> map dr_RData (dm_Answers msg) = [''10.0.0.1'']"
proof -
  have d: "show_nat 10 = ''10''" "show_nat 0 = ''0''" "show_nat (Suc 0) = ''1''" by code_simp+
  show ?thesis
  using dns_roundtrip[where qs = "[([''example'', ''com''], DNSTypeA, 1)]" and i = 7 and f = "0x8180" and ns = 0 and ar = 0
      and as = "[\<lparr>wa_Owner = Compressed, wa_Class = 1, wa_TTL = 60, wa_Addr = [10, 0, 0, 1]\<rparr>]"]
  by (auto simp: wf_question_def wf_label_def wf_answer_def answer_of_def show_word_def d)
qed

end
