(* ===== verification/Dns_Suspicious.thy ===== *)
theory Dns_Suspicious
  imports Dns Complex_Main
begin

text \<open>
  The suspicious-name patterns of \<open>pkg/ebpf/dns.go\<close>. A range over a string decodes UTF-8; a frequency is an
  exact real. The range over the map of frequencies adds up a sum, whose order does not matter for reals.
\<close>

section \<open>Runes\<close>

definition continuation :: "nat \<Rightarrow> bool" where
  "continuation b \<longleftrightarrow> 0x80 \<le> b \<and> b \<le> 0xBF"

text \<open>The rune at the head of the bytes and its width; anything malformed is U+FFFD of width 1.\<close>

definition first_rune :: "nat \<Rightarrow> nat list \<Rightarrow> nat \<times> nat" where
  "first_rune a rest =
    (if a < 0x80 then (a, 1)
     else if 0xC2 \<le> a \<and> a \<le> 0xDF then
       (case rest of b # _ \<Rightarrow> if continuation b then ((a - 0xC0) * 64 + (b - 0x80), 2) else (0xFFFD, 1) | [] \<Rightarrow> (0xFFFD, 1))
     else if 0xE0 \<le> a \<and> a \<le> 0xEF then
       (case rest of
          b # c # _ \<Rightarrow>
            if (if a = 0xE0 then 0xA0 else 0x80) \<le> b \<and> b \<le> (if a = 0xED then 0x9F else 0xBF) \<and> continuation c
            then ((a - 0xE0) * 4096 + (b - 0x80) * 64 + (c - 0x80), 3) else (0xFFFD, 1)
        | _ \<Rightarrow> (0xFFFD, 1))
     else if 0xF0 \<le> a \<and> a \<le> 0xF4 then
       (case rest of
          b # c # d # _ \<Rightarrow>
            if (if a = 0xF0 then 0x90 else 0x80) \<le> b \<and> b \<le> (if a = 0xF4 then 0x8F else 0xBF) \<and> continuation c \<and> continuation d
            then ((a - 0xF0) * 262144 + (b - 0x80) * 4096 + (c - 0x80) * 64 + (d - 0x80), 4) else (0xFFFD, 1)
        | _ \<Rightarrow> (0xFFFD, 1))
     else (0xFFFD, 1))"

function runes_of :: "nat list \<Rightarrow> nat list" where
  "runes_of [] = []"
| "runes_of (a # rest) = (case first_rune a rest of (r, w) \<Rightarrow> r # runes_of (drop (w - 1) rest))"
  by pat_completeness auto
termination by (relation "measure length") auto

definition runes :: "string \<Rightarrow> nat list" where
  "runes s = runes_of (map of_char s)"

lemma runes_ascii: "\<forall>c\<in>set s. (of_char c :: nat) < 0x80 \<Longrightarrow> runes s = map of_char s"
  by (induction s) (simp_all add: runes_def first_rune_def)

section \<open>Patterns\<close>

definition isLongSubdomain :: "string \<Rightarrow> bool" where
  "isLongSubdomain nm \<longleftrightarrow> length (split_on (CHR ''.'') nm) > 5"

definition hasRandomLabels :: "string \<Rightarrow> bool" where
  "hasRandomLabels nm =
    (let labels = split_on (CHR ''.'') nm in
     if length labels < 2 then False
     else
       (let label = labels ! 0 in
        if length label < 8 then False
        else real (card (set (runes label))) / real (length label) > 8 / 10 \<and> length label \<ge> 8))"

definition shannonLog2 :: "real \<Rightarrow> real" where
  "shannonLog2 p =
    (if p \<le> 0 then 0 else if p = 1 then 0 else if p = 1 / 2 then -1
     else if p \<ge> 4 / 10 then -125 / 100 else if p \<ge> 2 / 10 then -225 / 100 else if p \<ge> 1 / 10 then -325 / 100
     else if p \<ge> 5 / 100 then -425 / 100 else -5)"

definition rune_share :: "string \<Rightarrow> nat \<Rightarrow> real" where
  "rune_share nm r = real (count_list (runes nm) r) / real (length nm)"

definition hasHighEntropy :: "string \<Rightarrow> bool" where
  "hasHighEntropy nm =
    (if length nm < 10 then False
     else (\<Sum>r\<leftarrow>remdups (runes nm). let p = rune_share nm r in if p > 0 then - (p * shannonLog2 p) else 0) > 35 / 10)"

definition miningPatterns :: "string list" where
  "miningPatterns =
    [''miningpoolhub'', ''nanopool'', ''ethermine'', ''f2pool'', ''antpool'', ''slushpool'', ''nicehash'', ''minergate'',
     ''coinhive'', ''cryptoloot'', ''hashflare'', ''genesis-mining'', ''pool.minexmr'', ''stratum'', ''xmrpool'', ''dwarfpool'',
     ''mining.flexpool'', ''pool.hashrate'']"

definition isKnownMiningPoolDomain :: "string \<Rightarrow> bool" where
  "isKnownMiningPoolDomain nm \<longleftrightarrow> (\<exists>p\<in>set miningPatterns. str_contains (to_lower nm) p)"

definition c2Patterns :: "string list" where
  "c2Patterns = [''.onion.'', ''.bit.'', ''.tk.'', ''.ml.'', ''.ga.'', ''.cf.'']"

definition isKnownMalwareC2Domain :: "string \<Rightarrow> bool" where
  "isKnownMalwareC2Domain nm \<longleftrightarrow> (\<exists>p\<in>set c2Patterns. str_contains (to_lower nm) p)"

definition DNSSuspiciousPatterns :: "(string \<times> (string \<Rightarrow> bool)) list" where
  "DNSSuspiciousPatterns =
    [(''long_subdomain'', isLongSubdomain), (''random_labels'', hasRandomLabels), (''high_entropy'', hasHighEntropy),
     (''known_mining_pool'', isKnownMiningPoolDomain), (''known_malware_c2'', isKnownMalwareC2Domain)]"

record suspicious_dns =
  sq_QueryName :: string
  sq_QueryType :: u16
  sq_Patterns :: "string list"
  sq_IsSuspicious :: bool

definition CheckSuspiciousDNS :: "string \<Rightarrow> u16 \<Rightarrow> suspicious_dns" where
  "CheckSuspiciousDNS nm qtype =
    (let patterns = map fst (filter (\<lambda>(_, check). check nm) DNSSuspiciousPatterns)
     in \<lparr>sq_QueryName = nm, sq_QueryType = qtype, sq_Patterns = patterns, sq_IsSuspicious = length patterns > 0\<rparr>)"

definition DNSTypeName :: "(u16 \<times> string) list" where
  "DNSTypeName =
    [(DNSTypeA, ''A''), (DNSTypeNS, ''NS''), (DNSTypeCNAME, ''CNAME''), (DNSTypeSOA, ''SOA''), (DNSTypePTR, ''PTR''),
     (DNSTypeMX, ''MX''), (DNSTypeTXT, ''TXT''), (DNSTypeAAAA, ''AAAA''), (DNSTypeSRV, ''SRV''), (DNSTypeANY, ''ANY'')]"

definition DNSTypeNameString :: "u16 \<Rightarrow> string" where
  "DNSTypeNameString t = (case map_of DNSTypeName t of Some nm \<Rightarrow> nm | None \<Rightarrow> ''TYPE'' @ show_word t)"

section \<open>What the C2 pattern catches\<close>

lemma split_on_sep: "split_on c (a @ c # b) = split_on c a @ split_on c b"
proof (induction a)
  case (Cons x a)
  then show ?case by (cases "x = c") (simp_all add: split_on_simps2 del: split_on.simps(2), simp)
qed simp

lemma join_two: "a \<noteq> [] \<Longrightarrow> b \<noteq> [] \<Longrightarrow> join s (a @ b) = join s a @ s @ join s b"
proof (induction a)
  case (Cons x a)
  then show ?case by (cases a; cases b) auto
qed simp

lemma pattern_label:
  assumes "CHR ''.'' \<notin> set l"
  shows "str_contains s (CHR ''.'' # l @ ''.'') \<longleftrightarrow> (\<exists>a b. split_on (CHR ''.'') s = a @ [l] @ b \<and> a \<noteq> [] \<and> b \<noteq> [])"
proof
  have l: "split_on (CHR ''.'') l = [l]" using assms by (induction l) (auto split: list.splits)
  assume "str_contains s (CHR ''.'' # l @ ''.'')"
  then obtain a b where s: "s = a @ CHR ''.'' # l @ CHR ''.'' # b" by (auto simp: str_contains_iff)
  have "split_on (CHR ''.'') s = split_on (CHR ''.'') a @ [l] @ split_on (CHR ''.'') b" unfolding s split_on_sep l by simp
  then show "\<exists>a b. split_on (CHR ''.'') s = a @ [l] @ b \<and> a \<noteq> [] \<and> b \<noteq> []" by (metis split_on_ne)
next
  assume "\<exists>a b. split_on (CHR ''.'') s = a @ [l] @ b \<and> a \<noteq> [] \<and> b \<noteq> []"
  then obtain a b where ab: "split_on (CHR ''.'') s = a @ [l] @ b" "a \<noteq> []" "b \<noteq> []" by blast
  have "s = join ''.'' (a @ [l] @ b)" using join_split_on[of "CHR ''.''" s] ab(1) by simp
  also have "\<dots> = join ''.'' a @ ''.'' @ l @ ''.'' @ join ''.'' b" using ab(2,3) join_two[of "[l]" b "''.''"] by (simp add: join_two)
  finally show "str_contains s (CHR ''.'' # l @ ''.'')" by (auto simp: str_contains_iff)
qed

text \<open>The C2 pattern looks for an inner label. A name is caught exactly when one of its labels other
  than the first and the last is one of six; so \<open>evil.tk\<close>, under the free top-level domain that the comment
  names, is not caught, while \<open>cdn.tk.example.com\<close> is.\<close>

lemma c2_needs_inner_label:
  "isKnownMalwareC2Domain nm \<longleftrightarrow>
     (\<exists>a l b. split_on (CHR ''.'') (to_lower nm) = a @ [l] @ b \<and> a \<noteq> [] \<and> b \<noteq> [] \<and>
        l \<in> {''onion'', ''bit'', ''tk'', ''ml'', ''ga'', ''cf''})"
proof -
  have "isKnownMalwareC2Domain nm \<longleftrightarrow>
      (\<exists>l\<in>{''onion'', ''bit'', ''tk'', ''ml'', ''ga'', ''cf''}. str_contains (to_lower nm) (CHR ''.'' # l @ ''.''))"
    by (simp add: isKnownMalwareC2Domain_def c2Patterns_def)
  also have "\<dots> \<longleftrightarrow> (\<exists>l\<in>{''onion'', ''bit'', ''tk'', ''ml'', ''ga'', ''cf''}.
      \<exists>a b. split_on (CHR ''.'') (to_lower nm) = a @ [l] @ b \<and> a \<noteq> [] \<and> b \<noteq> [])"
    by (rule bex_cong[OF refl], rule pattern_label) auto
  finally show ?thesis by blast
qed

lemma free_domains_pass: "\<not> isKnownMalwareC2Domain ''evil.tk''" "isKnownMalwareC2Domain ''cdn.tk.example.com''"
  by code_simp+

end
