(* ===== verification/Tls.thy ===== *)
theory Tls
  imports Dns_Facts Dns_Suspicious
begin

unbundle bit_operations_syntax

text \<open>
  The TLS part of \<open>pkg/ebpf/types.go\<close>: the server name in a ClientHello, read from the bytes of a packet,
  and the patterns of suspicious server names. A read out of range panics, which is \<open>None\<close>.
\<close>

section \<open>The server name extension\<close>

definition TLSContentTypeHandshake :: u8 where "TLSContentTypeHandshake = 22"
definition TLSHandshakeTypeClientHello :: u8 where "TLSHandshakeTypeClientHello = 1"
definition TLSExtensionServerName :: u16 where "TLSExtensionServerName = 0"
definition TLSExtensionSNIHostName :: u8 where "TLSExtensionSNIHostName = 0"

lemmas tls_consts = TLSContentTypeHandshake_def TLSHandshakeTypeClientHello_def TLSExtensionServerName_def
  TLSExtensionSNIHostName_def

record tls_result =
  tn_SNI :: string
  tn_TLSVersion :: u16
  tn_HasSNI :: bool
  tn_IsSuspicious :: bool
  tn_SuspiciousReasons :: "string list"

definition empty_tls :: tls_result where
  "empty_tls = \<lparr>tn_SNI = [], tn_TLSVersion = 0, tn_HasSNI = False, tn_IsSuspicious = False, tn_SuspiciousReasons = []\<rparr>"

text \<open>The loop of \<open>parseSNIExtension\<close>; the name list's length is computed by the code and bounds nothing.\<close>

function sni_loop :: "bytes \<Rightarrow> nat \<Rightarrow> string option" where
  "sni_loop data offset =
    (if offset + 3 \<le> length data then
       do { nameType \<leftarrow> index data offset;
            nameLen \<leftarrow> map_option unat (be16 data (offset + 1));
            if nameType = TLSExtensionSNIHostName \<and> offset + 3 + nameLen \<le> length data
            then map_option string_of_bytes (slice data (offset + 3) (offset + 3 + nameLen))
            else sni_loop data (offset + 3 + nameLen) }
     else Some [])"
  by pat_completeness auto
termination by (relation "measure (\<lambda>(data, offset). length data - offset)") auto

declare sni_loop.simps [simp del]

definition parseSNIExtension :: "bytes \<Rightarrow> string option" where
  "parseSNIExtension data =
    (if length data < 2 then Some []
     else do { listLen \<leftarrow> be16 data 0; sni_loop data 2 })"

section \<open>Suspicious server names\<close>

definition sniMiningPatterns :: "string list" where
  "sniMiningPatterns =
    [''miningpoolhub'', ''nanopool'', ''ethermine'', ''f2pool'', ''antpool'', ''slushpool'', ''nicehash'', ''minergate'',
     ''coinhive'', ''cryptoloot'', ''hashflare'', ''genesis-mining'', ''stratum'', ''xmrpool'', ''dwarfpool'']"

definition isSNIMiningPool :: "string \<Rightarrow> bool" where
  "isSNIMiningPool sni \<longleftrightarrow> (\<exists>p\<in>set sniMiningPatterns. str_contains (to_lower sni) p)"

definition suspiciousTLDs :: "string list" where
  "suspiciousTLDs = [''.tk'', ''.ml'', ''.ga'', ''.cf'', ''.gq'', ''.bid'', ''.click'', ''.download'']"

definition isSNISuspiciousTLD :: "string \<Rightarrow> bool" where
  "isSNISuspiciousTLD sni \<longleftrightarrow> (\<exists>tld\<in>set suspiciousTLDs. has_suffix (to_lower sni) tld)"

definition isSNILongRandom :: "string \<Rightarrow> bool" where
  "isSNILongRandom sni \<longleftrightarrow>
    (let parts = split_on (CHR ''.'') sni in if length parts < 2 then False else length (parts ! 0) \<ge> 20)"

definition isSNITorHiddenService :: "string \<Rightarrow> bool" where
  "isSNITorHiddenService sni \<longleftrightarrow> has_suffix (to_lower sni) ''.onion''"

definition digit_rune :: "nat \<Rightarrow> bool" where
  "digit_rune r \<longleftrightarrow> 48 \<le> r \<and> r \<le> 57"

definition isSNIIPAddress :: "string \<Rightarrow> bool" where
  "isSNIIPAddress sni \<longleftrightarrow>
    (let parts = split_on (CHR ''.'') sni in
     if length parts = 4 then
       int (\<Sum>p\<leftarrow>parts. length (filter digit_rune (runes p))) \<ge> int (length sni) - 3
     else False)"

definition SNISuspiciousPatterns :: "(string \<times> (string \<Rightarrow> bool)) list" where
  "SNISuspiciousPatterns =
    [(''mining_pool_domain'', isSNIMiningPool), (''suspicious_tld'', isSNISuspiciousTLD),
     (''long_random_subdomain'', isSNILongRandom), (''tor_hidden_service'', isSNITorHiddenService),
     (''ip_address_sni'', isSNIIPAddress)]"

definition CheckSuspiciousSNI :: "string \<Rightarrow> string list" where
  "CheckSuspiciousSNI sni = map fst (filter (\<lambda>(_, check). check sni) SNISuspiciousPatterns)"

section \<open>The ClientHello\<close>

text \<open>The loop over the extensions.\<close>

definition found_sni :: "string \<Rightarrow> tls_result \<Rightarrow> tls_result" where
  "found_sni sni res =
    (let res = res\<lparr>tn_SNI := sni, tn_HasSNI := True\<rparr>; reasons = CheckSuspiciousSNI sni in
     if length reasons > 0 then res\<lparr>tn_IsSuspicious := True, tn_SuspiciousReasons := reasons\<rparr> else res)"

function ext_loop :: "bytes \<Rightarrow> nat \<Rightarrow> nat \<Rightarrow> tls_result \<Rightarrow> tls_result option" where
  "ext_loop payload extEnd offset res =
    (if offset + 4 \<le> extEnd then
       do { extType \<leftarrow> be16 payload offset;
            extDataLen \<leftarrow> map_option unat (be16 payload (offset + 2));
            if offset + 4 + extDataLen > extEnd then Some res
            else do { sni \<leftarrow> (if extType = TLSExtensionServerName
                                then slice payload (offset + 4) (offset + 4 + extDataLen) \<bind> parseSNIExtension
                                else Some []);
                      if sni \<noteq> [] then Some (found_sni sni res)
                      else ext_loop payload extEnd (offset + 4 + extDataLen) res } }
     else Some res)"
  by pat_completeness auto
termination by (relation "measure (\<lambda>(payload, extEnd, offset, res). extEnd - offset)") auto

declare ext_loop.simps [simp del]

text \<open>The fields before the extensions. The inner \<open>None\<close> is one of the early returns; otherwise the
  offset of the extensions and their length. The record and handshake lengths are read and bound nothing.\<close>

definition after_session :: "bytes \<Rightarrow> nat \<Rightarrow> (nat \<times> nat) option option" where
  "after_session payload offset =
    (if offset + 2 > length payload then Some None
     else do { cipherLen \<leftarrow> map_option unat (be16 payload offset);
       let offset = offset + 2;
       let cipherLen = (if offset + cipherLen > length payload then min cipherLen (length payload - offset) else cipherLen);
       let offset = offset + cipherLen;
       if offset + 1 > length payload then Some None
       else do { compressionLen \<leftarrow> map_option unat (index payload offset);
         let offset = offset + 1;
         if offset + compressionLen > length payload then Some None
         else do {
           let offset = offset + compressionLen;
           if offset + 2 > length payload then Some None
           else do { extensionsLen \<leftarrow> map_option unat (be16 payload offset);
             Some (Some (offset + 2, extensionsLen)) } } } })"

definition hello_body :: "bytes \<Rightarrow> nat \<Rightarrow> (nat \<times> nat) option option" where
  "hello_body payload offset =
    (if offset + 2 > length payload then Some None
     else do { clientVersion \<leftarrow> be16 payload offset;
       let offset = offset + 2;
       if offset + 32 > length payload then Some None
       else do {
         let offset = offset + 32;
         if offset + 1 > length payload then Some None
         else do { sessionIDLen \<leftarrow> map_option unat (index payload offset);
           let offset = offset + 1;
           if offset + sessionIDLen > length payload then Some None
           else after_session payload (offset + sessionIDLen) } } })"

definition ExtractTLSClientHelloSNI :: "bytes \<Rightarrow> tls_result option" where
  "ExtractTLSClientHelloSNI payload =
    (if length payload < 5 then Some empty_tls
     else do { contentType \<leftarrow> index payload 0;
       if contentType \<noteq> TLSContentTypeHandshake then Some empty_tls
       else do { version \<leftarrow> be16 payload 1;
         recordLen \<leftarrow> be16 payload 3;
         let res = empty_tls\<lparr>tn_TLSVersion := version\<rparr>;
         if 5 + 4 > length payload then Some res
         else do { handshakeType \<leftarrow> index payload 5;
           if handshakeType \<noteq> TLSHandshakeTypeClientHello then Some res
           else do { l1 \<leftarrow> index payload 6; l2 \<leftarrow> index payload 7; l3 \<leftarrow> index payload 8;
             exts \<leftarrow> hello_body payload 9;
             case exts of
               None \<Rightarrow> Some res
             | Some (offset, extensionsLen) \<Rightarrow>
                 if extensionsLen = 0 then Some res
                 else ext_loop payload (min (offset + extensionsLen) (length payload)) offset res } } } })"

end
