(* ===== verification/Tls_Facts.thy ===== *)
theory Tls_Facts
  imports Tls
begin

text \<open>
  The ClientHello parser ends without a panic on every input, its result is consistent, and it inverts an
  encoder: it finds the server name behind other extensions, whatever the record and handshake
  lengths say and whatever follows the name.
\<close>

section \<open>Every input\<close>

lemma sni_loop_total: "\<exists>s. sni_loop data offset = Some s"
proof (induction data offset rule: sni_loop.induct)
  case (1 data offset)
  show ?case
  proof (cases "offset + 3 \<le> length data")
    case True
    then have "index data offset = Some (data ! offset)"
      "be16 data (offset + 1) = Some (of_nat (be_nat (take 2 (drop (offset + 1) data))))"
      by (simp_all add: byte_read)
    then show ?thesis using 1[OF True] True by (subst sni_loop.simps) (auto simp: byte_read)
  qed (simp add: sni_loop.simps)
qed

lemma parse_sni_total: "\<exists>s. parseSNIExtension data = Some s"
  using sni_loop_total[of data 2] by (simp add: parseSNIExtension_def byte_read)

definition sni_consistent :: "tls_result \<Rightarrow> bool" where
  "sni_consistent r \<longleftrightarrow>
    (tn_HasSNI r \<longleftrightarrow> tn_SNI r \<noteq> []) \<and> (tn_IsSuspicious r \<longleftrightarrow> tn_SuspiciousReasons r \<noteq> []) \<and>
    tn_SuspiciousReasons r = (if tn_HasSNI r then CheckSuspiciousSNI (tn_SNI r) else [])"

lemma found_consistent: "tn_SuspiciousReasons r = [] \<Longrightarrow> \<not> tn_IsSuspicious r \<Longrightarrow> s \<noteq> [] \<Longrightarrow> sni_consistent (found_sni s r)"
  by (simp add: sni_consistent_def found_sni_def Let_def)

lemma ext_loop_step:
  assumes "offset + 4 \<le> extEnd" "extEnd \<le> length payload"
    and "be16 payload offset = Some ty" "be16 payload (offset + 2) = Some m"
  shows "ext_loop payload extEnd offset res =
    (if offset + 4 + unat m > extEnd then Some res
     else do { sni \<leftarrow> (if ty = TLSExtensionServerName
                         then parseSNIExtension (take (unat m) (drop (offset + 4) payload)) else Some []);
               if sni \<noteq> [] then Some (found_sni sni res) else ext_loop payload extEnd (offset + 4 + unat m) res })"
  using assms by (subst ext_loop.simps) (simp add: byte_read)

lemma ext_loop_total:
  "extEnd \<le> length payload \<Longrightarrow> sni_consistent res \<Longrightarrow> \<not> tn_HasSNI res \<Longrightarrow>
     \<exists>r. ext_loop payload extEnd offset res = Some r \<and> sni_consistent r \<and> tn_TLSVersion r = tn_TLSVersion res"
proof (induction "extEnd - offset" arbitrary: offset rule: less_induct)
  case less
  show ?case
  proof (cases "offset + 4 \<le> extEnd")
    case True
    obtain ty m where r: "be16 payload offset = Some ty" "be16 payload (offset + 2) = Some m"
      using True less(2) by (simp add: byte_read)
    obtain s where s: "parseSNIExtension (take (unat m) (drop (offset + 4) payload)) = Some s"
      using parse_sni_total by blast
    have "\<exists>r. ext_loop payload extEnd (offset + 4 + unat m) res = Some r \<and> sni_consistent r \<and> tn_TLSVersion r = tn_TLSVersion res"
      using less True by simp
    then show ?thesis using s found_consistent[of res s] less(3,4)
      unfolding ext_loop_step[OF True less(2) r] by (auto simp: sni_consistent_def found_sni_def Let_def)
  next
    case False
    then show ?thesis using less(3) by (simp add: ext_loop.simps)
  qed
qed

lemma hello_body_total: "\<exists>e. hello_body payload offset = Some e"
  by (simp add: hello_body_def after_session_def byte_read Let_def)

text \<open>The function past its early returns.\<close>

lemma extract_eq:
  assumes "9 \<le> length payload" "payload ! 0 = TLSContentTypeHandshake" "payload ! 5 = TLSHandshakeTypeClientHello"
    and "be16 payload 1 = Some version" "hello_body payload 9 = Some exts"
  shows "ExtractTLSClientHelloSNI payload =
    (let res = empty_tls\<lparr>tn_TLSVersion := version\<rparr> in
     case exts of
       None \<Rightarrow> Some res
     | Some (offset, extensionsLen) \<Rightarrow>
         if extensionsLen = 0 then Some res
         else ext_loop payload (min (offset + extensionsLen) (length payload)) offset res)"
proof -
  have "payload \<noteq> []" using assms(1) by auto
  then show ?thesis using assms by (simp add: ExtractTLSClientHelloSNI_def byte_read Let_def)
qed

lemma extract_early:
  assumes "\<not> (9 \<le> length payload \<and> payload ! 0 = TLSContentTypeHandshake \<and> payload ! 5 = TLSHandshakeTypeClientHello)"
  shows "\<exists>version. ExtractTLSClientHelloSNI payload = Some (empty_tls\<lparr>tn_TLSVersion := version\<rparr>)"
proof -
  have e: "empty_tls = empty_tls\<lparr>tn_TLSVersion := 0\<rparr>" by (simp add: empty_tls_def)
  consider "length payload < 5" | "5 \<le> length payload" "payload ! 0 \<noteq> TLSContentTypeHandshake"
    | "5 \<le> length payload" "payload ! 0 = TLSContentTypeHandshake" "length payload < 9"
    | "9 \<le> length payload" "payload ! 0 = TLSContentTypeHandshake" "payload ! 5 \<noteq> TLSHandshakeTypeClientHello"
    using assms by force
  moreover have "5 \<le> length payload \<Longrightarrow> payload \<noteq> []" by auto
  ultimately show ?thesis
    by cases (use e in \<open>auto simp: ExtractTLSClientHelloSNI_def byte_read Let_def\<close>)
qed

lemma extract_consistent: "\<exists>r. ExtractTLSClientHelloSNI payload = Some r \<and> sni_consistent r"
proof (cases "9 \<le> length payload \<and> payload ! 0 = TLSContentTypeHandshake \<and> payload ! 5 = TLSHandshakeTypeClientHello")
  case True
  have e: "sni_consistent (empty_tls\<lparr>tn_TLSVersion := v\<rparr>)" "\<not> tn_HasSNI (empty_tls\<lparr>tn_TLSVersion := v\<rparr>)" for v
    by (simp_all add: sni_consistent_def empty_tls_def)
  obtain exts where x: "hello_body payload 9 = Some exts" using hello_body_total by blast
  obtain v where v: "be16 payload 1 = Some v" using True by (simp add: byte_read)
  have "\<exists>r. ext_loop payload (min (a + b) (length payload)) a (empty_tls\<lparr>tn_TLSVersion := v\<rparr>) = Some r \<and> sni_consistent r" for a b
    using ext_loop_total[of "min (a + b) (length payload)" payload "empty_tls\<lparr>tn_TLSVersion := v\<rparr>" a] e by auto
  then show ?thesis using extract_eq[OF _ _ _ v x] True e by (auto simp: Let_def split: option.split)
next
  case False
  then show ?thesis using extract_early[OF False] by (auto simp: sni_consistent_def empty_tls_def)
qed

section \<open>An encoder, and reading back\<close>

definition encode_ext :: "u16 \<times> bytes \<Rightarrow> bytes" where
  "encode_ext e = put_be16 (fst e) @ put_be16 (of_nat (length (snd e))) @ snd e"

definition sni_data :: "string \<Rightarrow> bytes" where
  "sni_data host =
    put_be16 (of_nat (length host + 3)) @ [TLSExtensionSNIHostName] @ put_be16 (of_nat (length host)) @ bytes_of_string host"

text \<open>The fields of a ClientHello up to its server name.\<close>

record hello =
  ho_Version :: u16
  ho_RecordLen :: u16
  ho_HandshakeLen :: "u8 \<times> u8 \<times> u8"
  ho_ClientVersion :: u16
  ho_Random :: bytes
  ho_SessionID :: bytes
  ho_CipherSuites :: bytes
  ho_Compression :: bytes
  ho_ExtensionsLen :: u16
  ho_Before :: "(u16 \<times> bytes) list"
  ho_Host :: string

definition encode_exts :: "hello \<Rightarrow> bytes" where
  "encode_exts h = concat (map encode_ext (ho_Before h)) @ encode_ext (TLSExtensionServerName, sni_data (ho_Host h))"

definition encode_mid :: "hello \<Rightarrow> bytes" where
  "encode_mid h =
    put_be16 (of_nat (length (ho_CipherSuites h))) @ ho_CipherSuites h @
    [of_nat (length (ho_Compression h))] @ ho_Compression h @ put_be16 (ho_ExtensionsLen h)"

definition encode_start :: "hello \<Rightarrow> bytes" where
  "encode_start h =
    put_be16 (ho_ClientVersion h) @ ho_Random h @ [of_nat (length (ho_SessionID h))] @ ho_SessionID h"

definition encode_front :: "hello \<Rightarrow> bytes" where
  "encode_front h =
    (case ho_HandshakeLen h of (l1, l2, l3) \<Rightarrow>
       [TLSContentTypeHandshake] @ put_be16 (ho_Version h) @ put_be16 (ho_RecordLen h) @ [TLSHandshakeTypeClientHello, l1, l2, l3])"

definition encode_hello :: "hello \<Rightarrow> bytes" where
  "encode_hello h = encode_front h @ encode_start h @ encode_mid h @ encode_exts h"

definition hello_ok :: "hello \<Rightarrow> bool" where
  "hello_ok h \<longleftrightarrow>
    length (ho_Random h) = 32 \<and> length (ho_SessionID h) < 256 \<and> length (ho_CipherSuites h) < 65536 \<and>
    length (ho_Compression h) < 256 \<and> (\<forall>(ty, d)\<in>set (ho_Before h). ty \<noteq> TLSExtensionServerName \<and> length d < 65536) \<and>
    ho_Host h \<noteq> [] \<and> length (ho_Host h) < 65531 \<and> length (encode_exts h) \<le> unat (ho_ExtensionsLen h)"

lemma unat_small [simp]:
  "n < 256 \<Longrightarrow> unat (of_nat n :: u8) = n" "n < 65536 \<Longrightarrow> unat (of_nat n :: u16) = n"
  by (simp_all add: unat_of_nat)

lemma length_encode [simp]:
  "length (encode_ext e) = 4 + length (snd e)" "length (sni_data host) = 5 + length host"
  "length (encode_front h) = 9" "length (encode_mid h) = 5 + length (ho_CipherSuites h) + length (ho_Compression h)"
  "length (encode_start h) = 3 + length (ho_Random h) + length (ho_SessionID h)"
  by (simp_all add: encode_ext_def sni_data_def encode_front_def encode_mid_def encode_start_def split: prod.splits)

lemma index_here [simp]: "index (b # r) 0 = Some b"
  by (simp add: index_def)

lemma parse_sni_data: "length host < 65536 \<Longrightarrow> parseSNIExtension (sni_data host) = Some host"
proof -
  let ?p = "put_be16 (of_nat (length host + 3)) :: bytes"
  assume l: "length host < 65536"
  have d: "sni_data host = ?p @ [0] @ put_be16 (of_nat (length host)) @ bytes_of_string host"
    by (simp add: sni_data_def tls_consts)
  have i: "index (sni_data host) 2 = Some 0" "be16 (sni_data host) 3 = Some (of_nat (length host))"
    using be_right[of "?p" 2 "[0] @ put_be16 (of_nat (length host)) @ bytes_of_string host"]
      be_right[of "?p @ [0]" 3 "put_be16 (of_nat (length host)) @ bytes_of_string host"] by (simp_all add: d)
  have sl: "slice (sni_data host) 5 (5 + length host) = Some (bytes_of_string host)"
    by (simp add: d slice_def)
  have "sni_loop (sni_data host) 2 = Some host"
    using i sl l by (subst sni_loop.simps) (simp add: tls_consts)
  then show ?thesis by (simp add: parseSNIExtension_def byte_read)
qed

lemma ext_loop_ext:
  assumes p: "payload = h @ encode_ext (ty, d) @ r" and d: "length d < 65536"
    and e: "length h + 4 + length d \<le> extEnd" "extEnd \<le> length payload"
  shows "ext_loop payload extEnd (length h) res =
    do { sni \<leftarrow> (if ty = TLSExtensionServerName then parseSNIExtension d else Some []);
         if sni \<noteq> [] then Some (found_sni sni res) else ext_loop payload extEnd (length (h @ encode_ext (ty, d))) res }"
proof -
  have "be16 payload (length h) = Some ty" "be16 payload (length h + 2) = Some (of_nat (length d))"
    using be_right(1)[of h "length h"] be_right(1)[of "h @ put_be16 ty" "length h + 2"]
    by (simp_all add: p encode_ext_def)
  note step = ext_loop_step[OF _ e(2) this, of res]
  have u: "unat (of_nat (length d) :: u16) = length d" using d by simp
  have t: "take (length d) (drop (length h + 4) payload) = d" by (simp add: p encode_ext_def)
  have l: "length (h @ encode_ext (ty, d)) = length h + 4 + length d" by simp
  show ?thesis unfolding l using step[unfolded u t] e by (simp only: not_less[symmetric] if_False)
qed

lemma ext_loop_finds:
  assumes "\<forall>(ty, d)\<in>set before. ty \<noteq> TLSExtensionServerName \<and> length d < 65536" "host \<noteq> []" "length host < 65531"
    and "payload = h @ concat (map encode_ext before) @ encode_ext (TLSExtensionServerName, sni_data host) @ r"
    and "length h + length (concat (map encode_ext before)) + 9 + length host \<le> extEnd" "extEnd \<le> length payload"
  shows "ext_loop payload extEnd (length h) res = Some (found_sni host res)"
  using assms
proof (induction before arbitrary: h)
  case Nil
  then show ?case
    by (subst ext_loop_ext[where ty = TLSExtensionServerName and d = "sni_data host" and r = r]) (simp_all add: parse_sni_data)
next
  case (Cons x before)
  obtain ty d where x: "x = (ty, d)" by (cases x)
  have "ext_loop payload extEnd (length (h @ encode_ext (ty, d))) res = Some (found_sni host res)"
    using Cons.prems by (intro Cons.IH) (auto simp: x)
  then show ?case
    using Cons.prems x
    by (subst ext_loop_ext[where ty = ty and d = d
        and r = "concat (map encode_ext before) @ encode_ext (TLSExtensionServerName, sni_data host) @ r"]) auto
qed

lemma after_session_reads:
  assumes "length (ho_CipherSuites h) < 65536" "length (ho_Compression h) < 256"
  shows "after_session (f @ encode_mid h @ r) (length f) =
    Some (Some (length (f @ encode_mid h), unat (ho_ExtensionsLen h)))"
proof -
  let ?c = "ho_CipherSuites h" and ?m = "ho_Compression h"
  let ?n = "put_be16 (of_nat (length ?c)) :: bytes"
  have "be16 (f @ encode_mid h @ r) (length f) = Some (of_nat (length ?c))"
    "index (f @ encode_mid h @ r) (length f + 2 + length ?c) = Some (of_nat (length ?m))"
    "be16 (f @ encode_mid h @ r) (length f + 3 + length ?c + length ?m) = Some (ho_ExtensionsLen h)"
    using be_right(1)[of f "length f"] be_right(3)[of "f @ ?n @ ?c" "length f + 2 + length ?c"]
      be_right(1)[of "f @ ?n @ ?c @ [of_nat (length ?m)] @ ?m" "length f + 3 + length ?c + length ?m"]
    by (simp_all add: encode_mid_def)
  then show ?thesis using assms by (simp add: after_session_def Let_def add.commute add.left_commute numeral_3_eq_3)
qed

lemma hello_body_reads:
  assumes "length (ho_Random h) = 32" "length (ho_SessionID h) < 256"
  shows "hello_body (f @ encode_start h @ r) (length f) = after_session (f @ encode_start h @ r) (length (f @ encode_start h))"
proof -
  have "be16 (f @ encode_start h @ r) (length f) = Some (ho_ClientVersion h)"
    "index (f @ encode_start h @ r) (length f + 34) = Some (of_nat (length (ho_SessionID h)))"
    using be_right(1)[of f "length f"] be_right(3)[of "f @ put_be16 (ho_ClientVersion h) @ ho_Random h" "length f + 34"] assms
    by (simp_all add: encode_start_def)
  then show ?thesis using assms by (simp add: hello_body_def Let_def add.commute add.left_commute)
qed

lemma front_reads:
  "(encode_front h @ r) ! 0 = TLSContentTypeHandshake" "(encode_front h @ r) ! 5 = TLSHandshakeTypeClientHello"
  "be16 (encode_front h @ r) 1 = Some (ho_Version h)"
proof -
  obtain l1 l2 l3 where l: "ho_HandshakeLen h = (l1, l2, l3)" by (cases "ho_HandshakeLen h")
  show "(encode_front h @ r) ! 0 = TLSContentTypeHandshake" by (simp add: encode_front_def l)
  show "(encode_front h @ r) ! 5 = TLSHandshakeTypeClientHello" by (simp add: encode_front_def l nth_append nth_Cons)
  show "be16 (encode_front h @ r) 1 = Some (ho_Version h)"
    using be_right(1)[of "[TLSContentTypeHandshake]" 1 "put_be16 (ho_Version h) @ put_be16 (ho_RecordLen h) @
        [TLSHandshakeTypeClientHello, l1, l2, l3] @ r"] by (simp add: encode_front_def l)
qed

lemma extract_encoded:
  assumes ok: "hello_ok h"
  shows "ExtractTLSClientHelloSNI (encode_hello h @ r) = Some (found_sni (ho_Host h) (empty_tls\<lparr>tn_TLSVersion := ho_Version h\<rparr>))"
proof -
  let ?p = "encode_hello h @ r" and ?f = "encode_front h @ encode_start h @ encode_mid h"
  have body: "hello_body ?p 9 = Some (Some (length ?f, unat (ho_ExtensionsLen h)))"
    using ok hello_body_reads[of h "encode_front h" "encode_mid h @ encode_exts h @ r"]
      after_session_reads[of h "encode_front h @ encode_start h" "encode_exts h @ r"]
    by (simp add: hello_ok_def encode_hello_def)
  have exts: "ext_loop ?p (min (length ?f + unat (ho_ExtensionsLen h)) (length ?p)) (length ?f) res = Some (found_sni (ho_Host h) res)" for res
    using ok by (intro ext_loop_finds[where before = "ho_Before h" and r = r])
      (auto simp: hello_ok_def encode_hello_def encode_exts_def)
  have pos: "unat (ho_ExtensionsLen h) \<noteq> 0" using ok by (simp add: hello_ok_def encode_exts_def)
  show ?thesis using body exts pos front_reads[of h "encode_start h @ encode_mid h @ encode_exts h @ r"]
    by (subst extract_eq[where version = "ho_Version h" and exts = "Some (length ?f, unat (ho_ExtensionsLen h))"])
      (simp_all add: encode_hello_def Let_def)
qed

section \<open>Addresses as server names\<close>

text \<open>Decoding UTF-8 neither makes nor loses a digit.\<close>

lemma first_rune_high:
  assumes "0x80 \<le> a" "first_rune a rest = (r, w)"
  shows "0x80 \<le> r \<and> (\<forall>b\<in>set (take (w - 1) rest). 0x80 \<le> b)"
proof -
  consider "a < 0xC2" | "0xC2 \<le> a" "a \<le> 0xDF" | "0xE0 \<le> a" "a \<le> 0xEF" | "0xF0 \<le> a" by linarith
  then show ?thesis
  proof cases
    case 1
    then show ?thesis using assms by (simp add: first_rune_def split: if_splits)
  next
    case 2
    then show ?thesis using assms
      by (cases rest) (auto simp: first_rune_def continuation_def split: if_splits)
  next
    case 3
    then show ?thesis using assms
      by (auto simp: first_rune_def continuation_def split: if_splits list.splits)
  next
    case 4
    then show ?thesis using assms
      by (auto simp: first_rune_def continuation_def split: if_splits list.splits)
  qed
qed

lemma runes_of_digits: "length (filter digit_rune (runes_of bs)) = length (filter digit_rune bs)"
proof (induction bs rule: runes_of.induct)
  case (2 a rest)
  obtain r w where rw: "first_rune a rest = (r, w)" by (cases "first_rune a rest")
  have IH: "length (filter digit_rune (runes_of (drop (w - 1) rest))) = length (filter digit_rune (drop (w - 1) rest))"
    using 2 rw by simp
  show ?case
  proof (cases "a < 0x80")
    case True
    then show ?thesis using IH rw by (simp add: first_rune_def)
  next
    case False
    then have h: "0x80 \<le> r" "\<forall>b\<in>set (take (w - 1) rest). 0x80 \<le> b" using first_rune_high[OF _ rw] by simp_all
    then have "filter digit_rune (take (w - 1) rest) = []" by (force simp: filter_empty_conv digit_rune_def)
    then have "filter digit_rune rest = filter digit_rune (drop (w - 1) rest)"
      by (metis append_Nil append_take_drop_id filter_append)
    moreover have "\<not> digit_rune r" "\<not> digit_rune a" using h(1) False by (simp_all add: digit_rune_def)
    ultimately show ?thesis using IH rw by simp
  qed
qed simp

lemma runes_digits: "length (filter digit_rune (runes s)) = length (filter (\<lambda>c. digit_rune (of_char c)) s)"
  by (simp add: runes_def runes_of_digits filter_map o_def)

text \<open>A server name is taken for an address exactly when it is digits with three dots, the dots alone included.\<close>

lemma split_on_lengths: "length s + 1 = (\<Sum>p\<leftarrow>split_on c s. length p) + length (split_on c s)"
  by (induction s) (auto simp: split_on_simps2 split: list.splits)

lemma split_on_chars: "(\<exists>p\<in>set (split_on c s). x \<in> set p) \<longleftrightarrow> x \<in> set s \<and> x \<noteq> c"
  by (induction s) (auto simp: split_on_simps2 split: list.splits)

lemma add_le_both: "(a :: nat) \<le> l \<Longrightarrow> b \<le> m \<Longrightarrow> l + m \<le> a + b \<longleftrightarrow> l \<le> a \<and> m \<le> b"
  by linarith

lemma split_chars: "(\<forall>p\<in>set (split_on d s). \<forall>c\<in>set p. P c) \<longleftrightarrow> (\<forall>c\<in>set s. c = d \<or> P c)"
  using split_on_chars[of d s] by blast

lemma minus_three: "n = l + 3 \<Longrightarrow> int n - 3 \<le> int d \<longleftrightarrow> l \<le> d"
  by linarith

lemma ip_address_sni:
  "isSNIIPAddress sni \<longleftrightarrow>
     length (split_on (CHR ''.'') sni) = 4 \<and> (\<forall>c\<in>set sni. c = CHR ''.'' \<or> digit_rune (of_char c))"
proof (cases "length (split_on (CHR ''.'') sni) = 4")
  case True
  let ?ps = "split_on (CHR ''.'') sni" and ?d = "\<lambda>p. length (filter (\<lambda>c. digit_rune (of_char c)) p)"
  have len: "length sni = (\<Sum>p\<leftarrow>?ps. length p) + 3" using split_on_lengths[of sni "CHR ''.''"] True by simp
  have le: "(\<Sum>p\<leftarrow>ps. ?d p) \<le> (\<Sum>p\<leftarrow>ps. length p)" for ps by (rule sum_list_mono) simp
  have eq: "(\<Sum>p\<leftarrow>ps. length p) \<le> (\<Sum>p\<leftarrow>ps. ?d p) \<longleftrightarrow> (\<forall>p\<in>set ps. \<forall>c\<in>set p. digit_rune (of_char c))" for ps
  proof (induction ps)
    case (Cons p ps)
    have "length p \<le> ?d p \<longleftrightarrow> (\<forall>c\<in>set p. digit_rune (of_char c))"
      by (metis (no_types, lifting) filter_True length_filter_le length_filter_less not_less order_refl)
    moreover have "length p + (\<Sum>p\<leftarrow>ps. length p) \<le> ?d p + (\<Sum>p\<leftarrow>ps. ?d p) \<longleftrightarrow>
        length p \<le> ?d p \<and> (\<Sum>p\<leftarrow>ps. length p) \<le> (\<Sum>p\<leftarrow>ps. ?d p)"
      by (rule add_le_both) (use le[of ps] in simp_all)
    ultimately show ?case using Cons by simp
  qed simp
  have digits: "(\<Sum>p\<leftarrow>?ps. length (filter digit_rune (runes p))) = (\<Sum>p\<leftarrow>?ps. ?d p)" by (simp only: runes_digits)
  have "isSNIIPAddress sni \<longleftrightarrow> int (length sni) - 3 \<le> int (\<Sum>p\<leftarrow>?ps. ?d p)"
    unfolding isSNIIPAddress_def Let_def digits True by (simp only: simp_thms if_True)
  then have "isSNIIPAddress sni \<longleftrightarrow> (\<Sum>p\<leftarrow>?ps. length p) \<le> (\<Sum>p\<leftarrow>?ps. ?d p)"
    using minus_three[OF len] by blast
  then show ?thesis unfolding eq using True split_chars[of "CHR ''.''" sni "\<lambda>c. digit_rune (of_char c)"] by simp
qed (simp add: isSNIIPAddress_def)

lemma three_dots_are_an_address: "CheckSuspiciousSNI ''...'' = [''ip_address_sni'']"
  by code_simp

section \<open>The round trip\<close>

text \<open>C15: Reading an encoded ClientHello gives its version, its server name and the patterns the name matches, for any
  extensions before the name, any record and handshake length, and any bytes after the name, the rest of the
  extensions, a truncation or another record. Together with \<open>extract_consistent\<close>, the parser never panics.\<close>

theorem sni_roundtrip:
  assumes "hello_ok h"
  shows "ExtractTLSClientHelloSNI (encode_hello h @ r) = Some
    \<lparr>tn_SNI = ho_Host h, tn_TLSVersion = ho_Version h, tn_HasSNI = True,
     tn_IsSuspicious = (CheckSuspiciousSNI (ho_Host h) \<noteq> []), tn_SuspiciousReasons = CheckSuspiciousSNI (ho_Host h)\<rparr>"
  using extract_encoded[OF assms] by (simp add: found_sni_def empty_tls_def Let_def)

definition demo_hello :: hello where
  "demo_hello =
    \<lparr>ho_Version = 0x0301, ho_RecordLen = 0, ho_HandshakeLen = (0, 0, 1), ho_ClientVersion = 0x0303,
     ho_Random = replicate 32 7, ho_SessionID = [1, 2], ho_CipherSuites = [0x13, 1], ho_Compression = [0],
     ho_ExtensionsLen = 200, ho_Before = [(10, [0, 2, 0, 29])], ho_Host = ''pool.nanopool.tk''\<rparr>"

lemma demo_hello_ok: "hello_ok demo_hello" "ho_Host demo_hello = ''pool.nanopool.tk''" "ho_Version demo_hello = 0x0301"
  by (simp_all add: hello_ok_def demo_hello_def encode_exts_def tls_consts)

lemma demo_patterns: "CheckSuspiciousSNI ''pool.nanopool.tk'' = [''mining_pool_domain'', ''suspicious_tld'']"
  by code_simp

lemma sni_roundtrip_witness:
  "ExtractTLSClientHelloSNI (encode_hello demo_hello @ [9, 9]) = Some
    \<lparr>tn_SNI = ''pool.nanopool.tk'', tn_TLSVersion = 0x0301, tn_HasSNI = True, tn_IsSuspicious = True,
     tn_SuspiciousReasons = [''mining_pool_domain'', ''suspicious_tld'']\<rparr>"
  using sni_roundtrip[OF demo_hello_ok(1), of "[9, 9]"] by (simp add: demo_hello_ok demo_patterns)

end
