(* ===== verification/Shutdown.thy ===== *)
theory Shutdown
  imports Machine
begin

text \<open>
  How the pipeline and the enrichment manager stop (\<open>pkg/pipeline/pipeline.go\<close>,
  \<open>pkg/enrichment/container.go\<close>, \<open>pkg/enrichment/k8s.go\<close>). Both start goroutines that loop over a
  \<open>select\<close>, both take the mutex of their struct while they handle what the \<open>select\<close> delivers, and
  both have a \<open>Stop\<close> that takes the same mutex, closes the stop channel and waits for the goroutines
  with the mutex held. The goroutines, the lock and \<open>Stop\<close> are a step relation; what an event does
  besides taking the lock is in the theories of the two components.
\<close>

section \<open>Goroutines, the lock and Stop\<close>

text \<open>A goroutine is in its \<open>select\<close>, handles a delivery and has still to take the lock some number of
  times (\<open>Waits\<close>), holds the lock and will take it some more times after (\<open>Holds\<close>), or has returned.\<close>

datatype phase = Selecting | Waits nat | Holds nat | Gone

record goroutine =
  gr_phase :: phase
  gr_channel :: nat
  gr_listens :: bool

datatype stopper = Running | Requested | Waiting | Returned

text \<open>A channel holds, for each pending delivery, how often its handler takes the lock. \<open>gr_listens\<close> tells
  whether the \<open>select\<close> of a goroutine has a case for the stop channel that \<open>Stop\<close> closes; every one has
  a case for the context.\<close>

record team =
  tm_members :: "goroutine list"
  tm_queue :: "nat \<Rightarrow> nat list"
  tm_hung :: "nat \<Rightarrow> bool"
  tm_closed :: bool
  tm_cancelled :: bool
  tm_exclusive :: bool
  tm_stop :: stopper

definition set_phase :: "nat \<Rightarrow> phase \<Rightarrow> team \<Rightarrow> team" where
  "set_phase i ph s = s\<lparr>tm_members := (tm_members s)[i := (tm_members s ! i)\<lparr>gr_phase := ph\<rparr>]\<rparr>"

definition holding :: "goroutine \<Rightarrow> bool" where
  "holding g \<longleftrightarrow> (case gr_phase g of Holds k \<Rightarrow> True | _ \<Rightarrow> False)"

definition may_leave :: "team \<Rightarrow> goroutine \<Rightarrow> bool" where
  "may_leave s g \<longleftrightarrow>
    tm_cancelled s \<or>
    gr_listens g \<and> (tm_closed s \<or> tm_hung s (gr_channel g) \<and> tm_queue s (gr_channel g) = [])"

text \<open>A pending writer keeps readers out; among writers (\<open>tm_exclusive\<close>) the mutex may go to anyone.\<close>

definition may_lock :: "team \<Rightarrow> bool" where
  "may_lock s \<longleftrightarrow>
    (case tm_stop s of
       Waiting \<Rightarrow> False
     | Requested \<Rightarrow> tm_exclusive s \<and> list_all (\<lambda>g. \<not> holding g) (tm_members s)
     | _ \<Rightarrow> tm_exclusive s \<longrightarrow> list_all (\<lambda>g. \<not> holding g) (tm_members s))"

text \<open>The steps of the goroutines and of \<open>Stop\<close>. A \<open>select\<close> with several ready cases takes any of them, so
  a delivery may be taken after the stop channel is closed.\<close>

inductive team_move :: "team \<Rightarrow> team \<Rightarrow> bool" where
  take: "i < length (tm_members s) \<Longrightarrow> g = tm_members s ! i \<Longrightarrow> gr_phase g = Selecting \<Longrightarrow>
    tm_queue s (gr_channel g) = r # rs \<Longrightarrow>
    team_move s (set_phase i (Waits r) (s\<lparr>tm_queue := (tm_queue s)(gr_channel g := rs)\<rparr>))"
| leave: "i < length (tm_members s) \<Longrightarrow> g = tm_members s ! i \<Longrightarrow> gr_phase g = Selecting \<Longrightarrow> may_leave s g \<Longrightarrow>
    team_move s (set_phase i Gone s)"
| finish: "i < length (tm_members s) \<Longrightarrow> gr_phase (tm_members s ! i) = Waits 0 \<Longrightarrow> team_move s (set_phase i Selecting s)"
| lock: "i < length (tm_members s) \<Longrightarrow> gr_phase (tm_members s ! i) = Waits (Suc n) \<Longrightarrow> may_lock s \<Longrightarrow>
    team_move s (set_phase i (Holds n) s)"
| unlock: "i < length (tm_members s) \<Longrightarrow> gr_phase (tm_members s ! i) = Holds n \<Longrightarrow> team_move s (set_phase i (Waits n) s)"
| stop_lock: "tm_stop s = Requested \<Longrightarrow> list_all (\<lambda>g. \<not> holding g) (tm_members s) \<Longrightarrow>
    team_move s (s\<lparr>tm_stop := Waiting, tm_closed := True\<rparr>)"
| stop_return: "tm_stop s = Waiting \<Longrightarrow> list_all (\<lambda>g. gr_phase g = Gone) (tm_members s) \<Longrightarrow>
    team_move s (s\<lparr>tm_stop := Returned\<rparr>)"

text \<open>What happens around them: a delivery arrives, a channel is closed, the context is cancelled, \<open>Stop\<close> is
  called. \<open>rounds\<close> tells how often the handler of a delivery may take the lock.\<close>

inductive outer :: "(nat \<Rightarrow> nat \<Rightarrow> bool) \<Rightarrow> team \<Rightarrow> team \<Rightarrow> bool" for rounds where
  arrive: "\<not> tm_hung s ch \<Longrightarrow> rounds ch r \<Longrightarrow> outer rounds s (s\<lparr>tm_queue := (tm_queue s)(ch := tm_queue s ch @ [r])\<rparr>)"
| hang_up: "outer rounds s (s\<lparr>tm_hung := (tm_hung s)(ch := True)\<rparr>)"
| cancel: "outer rounds s (s\<lparr>tm_cancelled := True\<rparr>)"
| stop_call: "tm_stop s = Running \<Longrightarrow> outer rounds s (s\<lparr>tm_stop := Requested\<rparr>)"

definition team_step :: "(nat \<Rightarrow> nat \<Rightarrow> bool) \<Rightarrow> team \<Rightarrow> team \<Rightarrow> bool" where
  "team_step rounds s t \<longleftrightarrow> team_move s t \<or> outer rounds s t"

definition start_team :: "bool \<Rightarrow> goroutine list \<Rightarrow> team" where
  "start_team exclusive members =
    \<lparr>tm_members = members, tm_queue = (\<lambda>_. []), tm_hung = (\<lambda>_. False), tm_closed = False, tm_cancelled = False,
     tm_exclusive = exclusive, tm_stop = Running\<rparr>"

definition listener :: "nat \<Rightarrow> goroutine" where
  "listener ch = \<lparr>gr_phase = Selecting, gr_channel = ch, gr_listens = True\<rparr>"

section \<open>The pipeline\<close>

text \<open>How often an event takes the read lock of the pipeline: twice in \<open>routeDecision\<close> when a rule matches, or
  once in \<open>emitAnomalyAlert\<close>; once in \<open>processCorrelationSignal\<close>; once in \<open>emitCorrelationAlert\<close>.\<close>

definition event_rounds :: "bool \<Rightarrow> bool \<Rightarrow> bool \<Rightarrow> nat" where
  "event_rounds matched anomalous fired =
    (if matched then 2 else if anomalous then 1 else 0) + (1 + (if fired then 1 else 0))"

text \<open>The event channel has number 0, the coalescer's ticker number 1.\<close>

definition pipeline_rounds :: "nat \<Rightarrow> nat \<Rightarrow> bool" where
  "pipeline_rounds ch r \<longleftrightarrow>
    (if ch = 0 then r \<in> {event_rounds matched anomalous fired | matched anomalous fired. True} else r = 0)"

definition Start :: "nat \<Rightarrow> team" where
  "Start workers = start_team False (listener 1 # replicate workers (listener 0))"

section \<open>The enrichment manager\<close>

text \<open>The consumers of container and pod events, the reaper's ticker, and the pod watcher, whose \<open>select\<close> has
  the stop channel of the Kubernetes integration, which nothing closes. The event stream of the container
  runtime returns after it has started a poller outside the group. A container event takes the
  manager's lock once or not at all, a pod event once per container, the reaper once.\<close>

definition manager_rounds :: "nat \<Rightarrow> nat \<Rightarrow> bool" where
  "manager_rounds ch r \<longleftrightarrow> (if ch = 0 then r \<le> 1 else if ch = 1 then True else if ch = 2 then r = 1 else r = 0)"

definition manager_start :: team where
  "manager_start = start_team True [\<lparr>gr_phase = Selecting, gr_channel = 3, gr_listens = False\<rparr>, listener 0, listener 1, listener 2]"

section \<open>The invariant of a group\<close>

definition shape :: "team \<Rightarrow> (nat \<times> bool) list" where
  "shape s = map (\<lambda>g. (gr_channel g, gr_listens g)) (tm_members s)"

text \<open>What every state of a group started with members \<open>ms\<close> has: the members it was started with, no holder
  while \<open>Stop\<close> has the lock, only possible deliveries, and no deaf member gone before the context.\<close>

definition team_inv :: "(nat \<Rightarrow> nat \<Rightarrow> bool) \<Rightarrow> (nat \<times> bool) list \<Rightarrow> bool \<Rightarrow> team \<Rightarrow> bool" where
  "team_inv rounds sh ex s \<longleftrightarrow>
    shape s = sh \<and> tm_exclusive s = ex \<and>
    (tm_stop s \<in> {Waiting, Returned} \<longrightarrow> tm_closed s) \<and>
    (tm_stop s = Waiting \<longrightarrow> (\<forall>g\<in>set (tm_members s). \<not> holding g)) \<and>
    (tm_stop s = Returned \<longrightarrow> (\<forall>g\<in>set (tm_members s). gr_phase g = Gone)) \<and>
    (\<forall>ch. \<forall>r\<in>set (tm_queue s ch). rounds ch r) \<and>
    (\<forall>g\<in>set (tm_members s). gr_phase g = Gone \<and> \<not> gr_listens g \<longrightarrow> tm_cancelled s)"

lemma set_phase_simps [simp]:
  "tm_queue (set_phase i ph s) = tm_queue s" "tm_hung (set_phase i ph s) = tm_hung s"
  "tm_closed (set_phase i ph s) = tm_closed s" "tm_cancelled (set_phase i ph s) = tm_cancelled s"
  "tm_exclusive (set_phase i ph s) = tm_exclusive s" "tm_stop (set_phase i ph s) = tm_stop s"
  "length (tm_members (set_phase i ph s)) = length (tm_members s)"
  by (simp_all add: set_phase_def)

lemma set_phase_nth [simp]:
  "i < length (tm_members s) \<Longrightarrow> j < length (tm_members s) \<Longrightarrow>
     tm_members (set_phase i ph s) ! j = (if j = i then (tm_members s ! i)\<lparr>gr_phase := ph\<rparr> else tm_members s ! j)"
  by (simp add: set_phase_def)

lemma shape_set_phase [simp]: "i < length (tm_members s) \<Longrightarrow> shape (set_phase i ph s) = shape s"
  by (auto intro!: nth_equalityI simp: shape_def set_phase_def nth_list_update)

lemma shape_update [simp]:
  "shape (s\<lparr>tm_queue := q\<rparr>) = shape s" "shape (s\<lparr>tm_hung := h\<rparr>) = shape s" "shape (s\<lparr>tm_cancelled := c\<rparr>) = shape s"
  "shape (s\<lparr>tm_closed := c\<rparr>) = shape s" "shape (s\<lparr>tm_stop := st\<rparr>) = shape s"
  by (simp_all add: shape_def)

lemma holding_simps [simp]:
  "holding (g\<lparr>gr_phase := Selecting\<rparr>) = False" "holding (g\<lparr>gr_phase := Waits n\<rparr>) = False"
  "holding (g\<lparr>gr_phase := Gone\<rparr>) = False" "holding (g\<lparr>gr_phase := Holds n\<rparr>) = True"
  "gr_phase g = Selecting \<Longrightarrow> \<not> holding g" "gr_phase g = Waits n \<Longrightarrow> \<not> holding g" "gr_phase g = Holds n \<Longrightarrow> holding g"
  by (simp_all add: holding_def)

lemma set_phase_member: "g \<in> set (tm_members (set_phase i ph s)) \<Longrightarrow> g = (tm_members s ! i)\<lparr>gr_phase := ph\<rparr> \<or> g \<in> set (tm_members s)"
  using set_update_subset_insert[of "tm_members s" i] by (auto simp: set_phase_def)

lemma set_phase_inv:
  assumes "team_inv rounds sh ex s" and "i < length (tm_members s)"
    and "\<And>n. ph = Holds n \<Longrightarrow> tm_stop s \<noteq> Waiting" and "tm_stop s \<noteq> Returned"
    and "ph = Gone \<Longrightarrow> gr_listens (tm_members s ! i) \<or> tm_cancelled s"
  shows "team_inv rounds sh ex (set_phase i ph s)"
  using assms by (cases ph) (auto simp: team_inv_def dest!: set_phase_member)

lemma pop_inv:
  "team_inv rounds sh ex s \<Longrightarrow> tm_queue s ch = r # rs \<Longrightarrow> team_inv rounds sh ex (s\<lparr>tm_queue := (tm_queue s)(ch := rs)\<rparr>)"
  by (force simp: team_inv_def)

lemma phase_not_returned:
  "team_inv rounds sh ex s \<Longrightarrow> i < length (tm_members s) \<Longrightarrow> gr_phase (tm_members s ! i) \<noteq> Gone \<Longrightarrow> tm_stop s \<noteq> Returned"
  by (auto simp: team_inv_def)

lemma team_move_inv: "team_move s t \<Longrightarrow> team_inv rounds sh ex s \<Longrightarrow> team_inv rounds sh ex t"
proof (induction rule: team_move.induct)
  case (take i s g r rs)
  then show ?case by (auto intro!: set_phase_inv pop_inv dest: phase_not_returned)
next
  case (leave i s g)
  then show ?case by (auto intro!: set_phase_inv dest: phase_not_returned simp: may_leave_def)
next
  case (finish i s)
  then show ?case by (auto intro!: set_phase_inv dest: phase_not_returned)
next
  case (lock i s n)
  then show ?case by (auto intro!: set_phase_inv dest: phase_not_returned simp: may_lock_def)
next
  case (unlock i s n)
  then show ?case by (auto intro!: set_phase_inv dest: phase_not_returned)
next
  case (stop_lock s)
  then show ?case by (auto simp: team_inv_def list_all_iff)
next
  case (stop_return s)
  then show ?case by (auto simp: team_inv_def list_all_iff)
qed

lemma outer_inv: "outer rounds s t \<Longrightarrow> team_inv rounds sh ex s \<Longrightarrow> team_inv rounds sh ex t"
  by (cases rule: outer.cases, assumption) (simp_all add: team_inv_def ball_Un)

lemma start_inv:
  "list_all (\<lambda>g. gr_phase g = Selecting) ms \<Longrightarrow>
     team_inv rounds (map (\<lambda>g. (gr_channel g, gr_listens g)) ms) ex (start_team ex ms)"
  by (auto simp: start_team_def team_inv_def shape_def list_all_iff)

interpretation team: invariant_system "\<lambda>s. s = start_team ex ms \<and> list_all (\<lambda>g. gr_phase g = Selecting) ms" "team_step rounds"
  "team_inv rounds (map (\<lambda>g. (gr_channel g, gr_listens g)) ms) ex" for rounds ms ex
proof
  show "team_inv rounds (map (\<lambda>g. (gr_channel g, gr_listens g)) ms) ex t"
    if "team_inv rounds (map (\<lambda>g. (gr_channel g, gr_listens g)) ms) ex s" "team_step rounds s t" for s t
    using that team_move_inv outer_inv unfolding team_step_def by blast
qed (use start_inv in blast)

section \<open>Who keeps Stop waiting\<close>

text \<open>Once \<open>Stop\<close> has the lock, a goroutine that has still to take it never goes on, and one that does not
  listen to the stop channel waits for the context.\<close>

definition blocked :: "goroutine \<Rightarrow> bool" where
  "blocked g \<longleftrightarrow> (case gr_phase g of Waits (Suc k) \<Rightarrow> True | _ \<Rightarrow> False)"

definition deaf :: "team \<Rightarrow> goroutine \<Rightarrow> bool" where
  "deaf s g \<longleftrightarrow> \<not> gr_listens g \<and> \<not> tm_cancelled s \<and> gr_phase g \<noteq> Gone"

definition free :: "team \<Rightarrow> bool" where
  "free s \<longleftrightarrow> (\<forall>g\<in>set (tm_members s). \<not> blocked g \<and> \<not> deaf s g)"

text \<open>No delivery that needs the lock is pending for a goroutine that is still there.\<close>

definition quiet :: "team \<Rightarrow> bool" where
  "quiet s \<longleftrightarrow> (\<forall>g\<in>set (tm_members s). gr_phase g = Gone \<or> (\<forall>r\<in>set (tm_queue s (gr_channel g)). r = 0))"

text \<open>Every run of the goroutines and of \<open>Stop\<close>, without new deliveries, gets to the return of \<open>Stop\<close>.\<close>

inductive ends :: "team \<Rightarrow> bool" where
  returned: "tm_stop s = Returned \<Longrightarrow> ends s"
| later: "team_move s t \<Longrightarrow> (\<And>u. team_move s u \<Longrightarrow> ends u) \<Longrightarrow> ends s"

lemma blocked_simps [simp]:
  "blocked (g\<lparr>gr_phase := Selecting\<rparr>) = False" "blocked (g\<lparr>gr_phase := Gone\<rparr>) = False"
  "blocked (g\<lparr>gr_phase := Waits n\<rparr>) \<longleftrightarrow> n \<noteq> 0" "gr_phase g = Selecting \<Longrightarrow> \<not> blocked g" "gr_phase g = Waits 0 \<Longrightarrow> \<not> blocked g"
  "gr_phase g = Waits (Suc n) \<Longrightarrow> blocked g" "gr_phase g = Gone \<Longrightarrow> \<not> blocked g" "gr_phase g = Holds n \<Longrightarrow> \<not> blocked g"
  by (auto simp: blocked_def split: nat.splits)

lemma no_holder:
  "team_inv rounds sh ex s \<Longrightarrow> tm_stop s = Waiting \<Longrightarrow> i < length (tm_members s) \<Longrightarrow> gr_phase (tm_members s ! i) \<noteq> Holds n"
  by (auto simp: team_inv_def holding_def split: phase.splits)

lemma stuck_step:
  assumes "team_move s t" and "team_inv rounds sh ex s" and "tm_stop s = Waiting" and "j < length (tm_members s)"
    and "blocked (tm_members s ! j) \<or> deaf s (tm_members s ! j)"
  shows "tm_stop t = Waiting \<and> j < length (tm_members t) \<and> (blocked (tm_members t ! j) \<or> deaf t (tm_members t ! j))"
  using assms
proof (induction rule: team_move.induct)
  case (leave i s g)
  then show ?case by (cases "i = j") (auto simp: deaf_def may_leave_def)
next
  case (unlock i s n)
  then show ?case using no_holder by blast
next
  case (stop_return s)
  then show ?case by (auto simp: deaf_def list_all_iff)
qed (auto simp: deaf_def may_lock_def)

lemma stuck_forever:
  assumes "team_move\<^sup>*\<^sup>* s t" and "team_inv rounds sh ex s" and "tm_stop s = Waiting" and "\<not> free s"
  shows "tm_stop t = Waiting"
proof -
  obtain j where j: "j < length (tm_members s)" "blocked (tm_members s ! j) \<or> deaf s (tm_members s ! j)"
    using assms(4) by (auto simp: free_def in_set_conv_nth)
  have "tm_stop t = Waiting \<and> j < length (tm_members t) \<and> (blocked (tm_members t ! j) \<or> deaf t (tm_members t ! j)) \<and>
      team_inv rounds sh ex t"
    using assms(1)
  proof (induction rule: rtranclp_induct)
    case base
    show ?case using assms j by blast
  next
    case (step u v)
    then show ?case using stuck_step[of u v rounds sh ex j] team_move_inv by blast
  qed
  then show ?thesis by blast
qed

section \<open>Stop returns\<close>

definition phase_weight :: "goroutine \<Rightarrow> nat" where
  "phase_weight g = (case gr_phase g of Gone \<Rightarrow> 0 | Selecting \<Rightarrow> 1 | _ \<Rightarrow> 2)"

definition queued :: "team \<Rightarrow> nat" where
  "queued s = (\<Sum>ch\<in>fst ` set (shape s). length (tm_queue s ch))"

definition work :: "team \<Rightarrow> nat" where
  "work s = (\<Sum>g\<leftarrow>tm_members s. phase_weight g) + 2 * queued s"

lemma phase_weight_simps [simp]:
  "phase_weight (g\<lparr>gr_phase := Selecting\<rparr>) = 1" "phase_weight (g\<lparr>gr_phase := Gone\<rparr>) = 0"
  "phase_weight (g\<lparr>gr_phase := Waits n\<rparr>) = 2" "gr_phase g = Selecting \<Longrightarrow> phase_weight g = 1"
  "gr_phase g = Waits n \<Longrightarrow> phase_weight g = 2"
  by (simp_all add: phase_weight_def)

lemma work_set_phase:
  assumes "i < length (tm_members s)"
  shows "work (set_phase i ph s) + phase_weight (tm_members s ! i) = work s + phase_weight ((tm_members s ! i)\<lparr>gr_phase := ph\<rparr>)"
proof -
  let ?ws = "map phase_weight (tm_members s)"
  have "?ws ! i \<le> sum_list ?ws" using assms by (intro elem_le_sum_list) simp
  moreover have "map phase_weight (tm_members (set_phase i ph s)) = ?ws[i := phase_weight ((tm_members s ! i)\<lparr>gr_phase := ph\<rparr>)]"
    by (simp add: set_phase_def map_update)
  ultimately show ?thesis using assms by (simp add: work_def queued_def sum_list_update)
qed

lemma queued_pop:
  assumes "ch \<in> fst ` set (shape s)" and "tm_queue s ch = r # rs"
  shows "queued s = Suc (queued (s\<lparr>tm_queue := (tm_queue s)(ch := rs)\<rparr>))"
  using assms by (simp add: queued_def sum.remove[of _ ch])

lemma work_pop:
  assumes "i < length (tm_members s)" and "tm_queue s (gr_channel (tm_members s ! i)) = r # rs"
  shows "work s = work (s\<lparr>tm_queue := (tm_queue s)(gr_channel (tm_members s ! i) := rs)\<rparr>) + 2"
proof -
  have "gr_channel (tm_members s ! i) \<in> fst ` set (shape s)"
    using assms(1) by (auto simp: shape_def image_iff intro!: bexI[of _ "tm_members s ! i"])
  from queued_pop[OF this assms(2)] show ?thesis by (simp add: work_def)
qed

lemma free_member: "free s \<Longrightarrow> i < length (tm_members s) \<Longrightarrow> \<not> blocked (tm_members s ! i) \<and> \<not> deaf s (tm_members s ! i)"
  by (simp add: free_def)

lemma free_set_phase:
  "free s \<Longrightarrow> i < length (tm_members s) \<Longrightarrow> ph = Waits 0 \<or> ph = Selecting \<or> ph = Gone \<Longrightarrow> gr_phase (tm_members s ! i) \<noteq> Gone \<Longrightarrow>
     free (set_phase i ph s)"
  using free_member[of s i] by (auto simp: free_def deaf_def dest!: set_phase_member)

lemma quiet_set_phase:
  "quiet s \<Longrightarrow> i < length (tm_members s) \<Longrightarrow> gr_phase (tm_members s ! i) \<noteq> Gone \<Longrightarrow> quiet (set_phase i ph s)"
  by (auto simp: quiet_def dest!: set_phase_member)

lemma quiet_pop: "quiet s \<Longrightarrow> tm_queue s ch = r # rs \<Longrightarrow> quiet (s\<lparr>tm_queue := (tm_queue s)(ch := rs)\<rparr>)"
  by (force simp: quiet_def)

text \<open>While \<open>Stop\<close> waits and nobody is stuck, some step brings the group closer to its end.\<close>

lemma progress:
  assumes "team_inv rounds sh ex s" and "tm_stop s = Waiting" and "free s" and "\<not> list_all (\<lambda>g. gr_phase g = Gone) (tm_members s)"
  shows "\<exists>t. team_move s t \<and> tm_stop t = Waiting \<and> free t \<and> work t < work s"
proof -
  obtain i where i: "i < length (tm_members s)" "gr_phase (tm_members s ! i) \<noteq> Gone"
    using assms(4) by (auto simp: list_all_iff in_set_conv_nth)
  consider "gr_phase (tm_members s ! i) = Selecting" | "gr_phase (tm_members s ! i) = Waits 0"
    using free_member[OF assms(3) i(1)] no_holder[OF assms(1,2) i(1)] i(2)
    by (cases "gr_phase (tm_members s ! i)") (auto simp: blocked_def split: nat.splits)
  then show ?thesis
  proof cases
    case 1
    then have "may_leave s (tm_members s ! i)"
      using free_member[OF assms(3) i(1)] assms(1,2) by (auto simp: deaf_def may_leave_def team_inv_def)
    then have "team_move s (set_phase i Gone s)" using i 1 by (intro team_move.leave) auto
    moreover have "work (set_phase i Gone s) < work s" using work_set_phase[OF i(1), of Gone] 1 by simp
    ultimately show ?thesis using assms(2,3) i free_set_phase by (metis set_phase_simps(6))
  next
    case 2
    then have "team_move s (set_phase i Selecting s)" using i by (intro team_move.finish) auto
    moreover have "work (set_phase i Selecting s) < work s" using work_set_phase[OF i(1), of Selecting] 2 by simp
    ultimately show ?thesis using assms(2,3) i free_set_phase by (metis set_phase_simps(6))
  qed
qed

lemma free_returns:
  "team_inv rounds sh ex s \<Longrightarrow> tm_stop s = Waiting \<Longrightarrow> free s \<Longrightarrow> \<exists>t. team_move\<^sup>*\<^sup>* s t \<and> tm_stop t = Returned"
proof (induction "work s" arbitrary: s rule: less_induct)
  case less
  show ?case
  proof (cases "list_all (\<lambda>g. gr_phase g = Gone) (tm_members s)")
    case True
    then have "team_move s (s\<lparr>tm_stop := Returned\<rparr>)" using less.prems(2) by (intro team_move.stop_return) auto
    then show ?thesis by (intro exI[of _ "s\<lparr>tm_stop := Returned\<rparr>"]) auto
  next
    case False
    then obtain t where t: "team_move s t" "tm_stop t = Waiting" "free t" "work t < work s"
      using progress less.prems by blast
    then obtain u where "team_move\<^sup>*\<^sup>* t u" "tm_stop u = Returned" using less.hyps team_move_inv less.prems(1) by blast
    then show ?thesis using t(1) by (meson converse_rtranclp_into_rtranclp)
  qed
qed

lemma can_return:
  assumes "team_inv rounds sh ex s" and "tm_stop s = Waiting"
  shows "(\<exists>t. team_move\<^sup>*\<^sup>* s t \<and> tm_stop t = Returned) \<longleftrightarrow> free s"
proof
  assume "\<exists>t. team_move\<^sup>*\<^sup>* s t \<and> tm_stop t = Returned"
  then show "free s" using stuck_forever[OF _ assms] by force
qed (rule free_returns[OF assms])

section \<open>Stop returns on every run\<close>

lemma returned_final: "team_inv rounds sh ex s \<Longrightarrow> tm_stop s = Returned \<Longrightarrow> \<not> team_move s t"
  by (auto simp: team_inv_def elim!: team_move.cases)

lemma ends_later: "team_move\<^sup>*\<^sup>* s t \<Longrightarrow> team_inv rounds sh ex s \<Longrightarrow> ends s \<Longrightarrow> ends t \<and> team_inv rounds sh ex t"
proof (induction rule: rtranclp_induct)
  case (step t u)
  then have t: "ends t" "team_inv rounds sh ex t" by auto
  from t(1) have "ends u" using returned_final[OF t(2)] step.hyps(2) by cases auto
  then show ?case using team_move_inv[OF step.hyps(2) t(2)] by blast
qed simp

lemma ends_returns: "ends s \<Longrightarrow> \<exists>t. team_move\<^sup>*\<^sup>* s t \<and> tm_stop t = Returned"
proof (induction rule: ends.induct)
  case (later s t)
  then show ?case by (meson converse_rtranclp_into_rtranclp)
qed auto

lemma quiet_step:
  assumes "team_move s t" and "team_inv rounds sh ex s" and "tm_stop s = Waiting" and "free s" and "quiet s" and "tm_stop t \<noteq> Returned"
  shows "tm_stop t = Waiting \<and> free t \<and> quiet t \<and> work t < work s"
  using assms
proof (induction rule: team_move.induct)
  case (take i s g r rs)
  let ?s = "s\<lparr>tm_queue := (tm_queue s)(gr_channel g := rs)\<rparr>"
  have "g \<in> set (tm_members s)" "r \<in> set (tm_queue s (gr_channel g))" using take.hyps by auto
  then have "r = 0" using take.prems(4) take.hyps(3) by (auto simp: quiet_def)
  moreover have "free ?s" using take.prems(3) by (simp add: free_def deaf_def)
  moreover have "quiet ?s" using take quiet_pop by blast
  ultimately show ?case
    using take free_set_phase[of ?s i] quiet_set_phase[of ?s i] work_set_phase[of i ?s "Waits 0"] work_pop[of i s r rs] by simp
next
  case (leave i s g)
  then show ?case using free_set_phase[of s i] quiet_set_phase[of s i] work_set_phase[of i s Gone] by simp
next
  case (finish i s)
  then show ?case using free_set_phase[of s i] quiet_set_phase[of s i] work_set_phase[of i s Selecting] by simp
next
  case (lock i s n)
  then show ?case by (simp add: may_lock_def)
next
  case (unlock i s n)
  then show ?case using no_holder by blast
qed auto

lemma quiet_ends:
  "team_inv rounds sh ex s \<Longrightarrow> tm_stop s = Waiting \<Longrightarrow> free s \<Longrightarrow> quiet s \<Longrightarrow> ends s"
proof (induction "work s" arbitrary: s rule: less_induct)
  case less
  have "\<exists>t. team_move s t"
  proof (cases "list_all (\<lambda>g. gr_phase g = Gone) (tm_members s)")
    case True
    then show ?thesis using team_move.stop_return less.prems(2) by blast
  qed (use progress less.prems in blast)
  moreover have "ends u" if "team_move s u" for u
  proof (cases "tm_stop u = Returned")
    case True
    then show ?thesis by (rule ends.returned)
  next
    case False
    then show ?thesis using quiet_step[OF that less.prems False] less.hyps team_move_inv[OF that less.prems(1)] by blast
  qed
  ultimately show ?case using ends.later by blast
qed

text \<open>A pending delivery that needs the lock can be taken after \<open>Stop\<close> has it.\<close>

lemma select_reaches_block:
  "i < length (tm_members s) \<Longrightarrow> gr_phase (tm_members s ! i) = Selecting \<Longrightarrow> tm_queue s (gr_channel (tm_members s ! i)) = qs \<Longrightarrow>
     Suc k \<in> set qs \<Longrightarrow> \<exists>t. team_move\<^sup>*\<^sup>* s t \<and> \<not> free t"
proof (induction qs arbitrary: s)
  case (Cons q qs)
  let ?g = "tm_members s ! i"
  let ?t = "set_phase i (Waits q) (s\<lparr>tm_queue := (tm_queue s)(gr_channel ?g := qs)\<rparr>)"
  have st: "team_move s ?t" using Cons.prems by (intro team_move.take) auto
  show ?case
  proof (cases q)
    case (Suc m)
    then have "blocked (tm_members ?t ! i)" using Cons.prems(1) by simp
    moreover have "tm_members ?t ! i \<in> set (tm_members ?t)" using Cons.prems(1) by (intro nth_mem) simp
    ultimately have "\<not> free ?t" unfolding free_def by blast
    then show ?thesis using st by blast
  next
    case 0
    let ?u = "set_phase i Selecting ?t"
    have "team_move ?t ?u" using Cons.prems(1) 0 by (intro team_move.finish) auto
    moreover have "\<exists>v. team_move\<^sup>*\<^sup>* ?u v \<and> \<not> free v" using Cons.prems 0 by (intro Cons.IH) auto
    ultimately show ?thesis using st by (meson converse_rtranclp_into_rtranclp)
  qed
qed simp

lemma pending_reaches_block:
  assumes "team_inv rounds sh ex s" and "tm_stop s = Waiting" and "free s" and "\<not> quiet s"
  shows "\<exists>t. team_move\<^sup>*\<^sup>* s t \<and> \<not> free t"
proof -
  obtain g r where g: "g \<in> set (tm_members s)" "gr_phase g \<noteq> Gone" "r \<noteq> 0" "r \<in> set (tm_queue s (gr_channel g))"
    using assms(4) by (auto simp: quiet_def)
  then obtain i where i: "i < length (tm_members s)" "gr_phase (tm_members s ! i) \<noteq> Gone" "r \<noteq> 0"
    "r \<in> set (tm_queue s (gr_channel (tm_members s ! i)))" by (metis in_set_conv_nth)
  then obtain k where k: "Suc k \<in> set (tm_queue s (gr_channel (tm_members s ! i)))" by (metis not0_implies_Suc)
  show ?thesis
  proof (cases "gr_phase (tm_members s ! i) = Selecting")
    case True
    then show ?thesis using select_reaches_block i(1) k by blast
  next
    case False
    then have w: "gr_phase (tm_members s ! i) = Waits 0"
      using free_member[OF assms(3) i(1)] no_holder[OF assms(1,2) i(1)] i(2)
      by (cases "gr_phase (tm_members s ! i)") (auto simp: blocked_def split: nat.splits)
    then have "team_move s (set_phase i Selecting s)" using i(1) by (rule_tac team_move.finish)
    moreover have "\<exists>t. team_move\<^sup>*\<^sup>* (set_phase i Selecting s) t \<and> \<not> free t"
      using i(1) k by (intro select_reaches_block[of i _ _ k]) auto
    ultimately show ?thesis by (meson converse_rtranclp_into_rtranclp)
  qed
qed

lemma waiting_later: "team_move\<^sup>*\<^sup>* s t \<Longrightarrow> tm_stop s = Waiting \<Longrightarrow> tm_stop t = Waiting \<or> tm_stop t = Returned"
  by (induction rule: rtranclp_induct) (auto elim: team_move.cases)

lemma must_return:
  assumes "team_inv rounds sh ex s" and "tm_stop s = Waiting"
  shows "ends s \<longleftrightarrow> free s \<and> quiet s"
proof
  assume e: "ends s"
  then have f: "free s" using ends_returns can_return[OF assms] by blast
  moreover have "quiet s"
  proof (rule ccontr)
    assume "\<not> quiet s"
    then obtain t where t: "team_move\<^sup>*\<^sup>* s t" "\<not> free t" using pending_reaches_block[OF assms f] by blast
    from ends_later[OF t(1) assms(1) e] have "ends t" "team_inv rounds sh ex t" by auto
    then obtain u where u: "team_move\<^sup>*\<^sup>* t u" "tm_stop u = Returned" using ends_returns by blast
    have "tm_stop t = Waiting \<or> tm_stop t = Returned" using waiting_later[OF t(1) assms(2)] .
    then show False
    proof
      assume "tm_stop t = Waiting"
      then show False using stuck_forever[OF u(1) \<open>team_inv rounds sh ex t\<close> _ t(2)] u(2) by simp
    next
      assume "tm_stop t = Returned"
      then show False using t(2) \<open>team_inv rounds sh ex t\<close> by (auto simp: team_inv_def free_def deaf_def)
    qed
  qed
  ultimately show "free s \<and> quiet s" by blast
qed (use quiet_ends[OF assms] in blast)

section \<open>The two groups\<close>

lemma step_inner: "team_move s t \<Longrightarrow> (team_step rounds)\<^sup>*\<^sup>* s t"
  and step_outer: "outer rounds s t \<Longrightarrow> (team_step rounds)\<^sup>*\<^sup>* s t"
  by (auto simp: team_step_def)

lemma pipeline_inv:
  assumes "(team_step pipeline_rounds)\<^sup>*\<^sup>* (Start n) s"
  shows "team_inv pipeline_rounds (map (\<lambda>g. (gr_channel g, gr_listens g)) (listener 1 # replicate n (listener 0))) False s"
proof -
  have "list_all (\<lambda>g. gr_phase g = Selecting) (listener 1 # replicate n (listener 0))"
    by (auto simp: listener_def list_all_iff)
  then show ?thesis
    using team.reachable_inv[of "Start n" False "listener 1 # replicate n (listener 0)" pipeline_rounds s] assms
    by (simp add: Start_def)
qed

lemma pipeline_members:
  assumes "team_inv pipeline_rounds (map (\<lambda>g. (gr_channel g, gr_listens g)) (listener 1 # replicate n (listener 0))) False s"
    and "g \<in> set (tm_members s)"
  shows "gr_listens g \<and> (gr_channel g = 0 \<or> gr_channel g = 1)"
proof -
  have "(gr_channel g, gr_listens g) \<in> set (shape s)" using assms(2) by (auto simp: shape_def)
  then show ?thesis using assms(1) by (auto simp: team_inv_def listener_def)
qed

lemma pipeline_quiet:
  assumes "team_inv pipeline_rounds (map (\<lambda>g. (gr_channel g, gr_listens g)) (listener 1 # replicate n (listener 0))) False s"
  shows "quiet s \<longleftrightarrow> tm_queue s 0 = [] \<or> (\<forall>g\<in>set (tm_members s). gr_channel g = 0 \<longrightarrow> gr_phase g = Gone)"
proof -
  have r: "pipeline_rounds ch r" if "r \<in> set (tm_queue s ch)" for ch r using assms that by (simp add: team_inv_def)
  have zero: "r \<noteq> 0" if "r \<in> set (tm_queue s 0)" for r using r[OF that] by (auto simp: pipeline_rounds_def event_rounds_def)
  have one: "r = 0" if "r \<in> set (tm_queue s 1)" for r using r[OF that] by (simp add: pipeline_rounds_def)
  have quiet_at: "(\<forall>r\<in>set (tm_queue s (gr_channel g)). r = 0) \<longleftrightarrow> gr_channel g \<noteq> 0 \<or> tm_queue s 0 = []"
    if "g \<in> set (tm_members s)" for g
  proof (cases "gr_channel g = 0")
    case True
    then show ?thesis using zero by (cases "tm_queue s 0") force+
  next
    case False
    then show ?thesis using pipeline_members[OF assms that] one by simp
  qed
  show ?thesis unfolding quiet_def using quiet_at by blast
qed

text \<open>C30: When \<open>Pipeline.Stop\<close> returns. Once it has the mutex and has closed the stop channel, it can still
  return if and only if no worker is handling an event that has to read the pipeline's mutex again; every
  run ends with its return if and only if, besides that, no event is pending for a worker that is still
  there, because the worker's select may take the event although the stop channel is closed.\<close>

theorem pipeline_stop_liveness:
  assumes "(team_step pipeline_rounds)\<^sup>*\<^sup>* (Start n) s" and "tm_stop s = Waiting"
  shows "((\<exists>t. team_move\<^sup>*\<^sup>* s t \<and> tm_stop t = Returned) \<longleftrightarrow> (\<forall>g\<in>set (tm_members s). \<not> blocked g)) \<and>
    (ends s \<longleftrightarrow> (\<forall>g\<in>set (tm_members s). \<not> blocked g) \<and>
      (tm_queue s 0 = [] \<or> (\<forall>g\<in>set (tm_members s). gr_channel g = 0 \<longrightarrow> gr_phase g = Gone)))"
proof -
  note i = pipeline_inv[OF assms(1)]
  have "free s \<longleftrightarrow> (\<forall>g\<in>set (tm_members s). \<not> blocked g)"
    using pipeline_members[OF i] by (auto simp: free_def deaf_def)
  then show ?thesis using can_return[OF i assms(2)] must_return[OF i assms(2)] pipeline_quiet[OF i] by simp
qed

text \<open>An event is pending when \<open>Stop\<close> takes the mutex: it may never return.\<close>

definition late_event :: team where
  "late_event = (Start 1)\<lparr>tm_queue := (\<lambda>_. [])(0 := [event_rounds True False False]), tm_stop := Waiting, tm_closed := True\<rparr>"

lemma late_event_reached: "(team_step pipeline_rounds)\<^sup>*\<^sup>* (Start 1) late_event"
proof -
  let ?a = "(Start 1)\<lparr>tm_queue := (tm_queue (Start 1))(0 := tm_queue (Start 1) 0 @ [event_rounds True False False])\<rparr>"
  have "outer pipeline_rounds (Start 1) ?a"
    by (rule outer.arrive) (auto simp: Start_def start_team_def pipeline_rounds_def)
  moreover have "outer pipeline_rounds ?a (?a\<lparr>tm_stop := Requested\<rparr>)"
    by (rule outer.stop_call) (simp add: Start_def start_team_def)
  moreover have "team_move (?a\<lparr>tm_stop := Requested\<rparr>) (?a\<lparr>tm_stop := Requested\<rparr>\<lparr>tm_stop := Waiting, tm_closed := True\<rparr>)"
    by (rule team_move.stop_lock) (simp_all add: Start_def start_team_def listener_def holding_def)
  moreover have "?a\<lparr>tm_stop := Requested\<rparr>\<lparr>tm_stop := Waiting, tm_closed := True\<rparr> = late_event"
    by (simp add: late_event_def Start_def start_team_def)
  ultimately show ?thesis
    by (metis step_outer step_inner rtranclp_trans)
qed

theorem pipeline_stop_liveness_witness:
  "(\<exists>t. team_move\<^sup>*\<^sup>* late_event t \<and> tm_stop t = Returned) \<and> \<not> ends late_event"
  using pipeline_stop_liveness[OF late_event_reached]
  by (simp add: late_event_def Start_def start_team_def listener_def)

section \<open>The manager\<close>

lemma manager_inv:
  assumes "(team_step manager_rounds)\<^sup>*\<^sup>* manager_start s"
  shows "team_inv manager_rounds [(3, False), (0, True), (1, True), (2, True)] True s"
  using team.reachable_inv[of manager_start True
      "[\<lparr>gr_phase = Selecting, gr_channel = 3, gr_listens = False\<rparr>, listener 0, listener 1, listener 2]" manager_rounds s] assms
  by (simp add: manager_start_def listener_def)

lemma manager_returned:
  assumes "(team_step manager_rounds)\<^sup>*\<^sup>* manager_start s" and "tm_stop s = Returned"
  shows "tm_cancelled s"
proof -
  note i = manager_inv[OF assms(1)]
  have "(3, False) \<in> set (shape s)" using i by (simp add: team_inv_def)
  then obtain g where "g \<in> set (tm_members s)" "\<not> gr_listens g" by (auto simp: shape_def)
  then show ?thesis using i assms(2) by (auto simp: team_inv_def)
qed

lemma later_reachable: "(team_step rounds)\<^sup>*\<^sup>* r s \<Longrightarrow> team_move\<^sup>*\<^sup>* s t \<Longrightarrow> (team_step rounds)\<^sup>*\<^sup>* r t"
  by (rotate_tac, induction rule: rtranclp_induct) (auto simp: team_step_def intro: rtranclp.rtrancl_into_rtrancl)

lemma cancelled_later: "team_move\<^sup>*\<^sup>* s t \<Longrightarrow> tm_cancelled t = tm_cancelled s"
  by (induction rule: rtranclp_induct) (auto elim!: team_move.cases)

text \<open>C31: When \<open>Manager.Stop\<close> returns. In no reachable state has it returned before the context is
  cancelled: its own stop channel does not reach the pod watcher. Once the context is cancelled it can
  return if and only if no consumer is handling an event that needs the manager's mutex.\<close>

theorem manager_stop_liveness:
  assumes "(team_step manager_rounds)\<^sup>*\<^sup>* manager_start s"
  shows "if tm_cancelled s
    then tm_stop s = Waiting \<longrightarrow> ((\<exists>t. team_move\<^sup>*\<^sup>* s t \<and> tm_stop t = Returned) \<longleftrightarrow> (\<forall>g\<in>set (tm_members s). \<not> blocked g))
    else tm_stop s \<noteq> Returned \<and> \<not> ends s"
proof -
  note i = manager_inv[OF assms]
  show ?thesis
  proof (cases "tm_cancelled s")
    case True
    then have "free s \<longleftrightarrow> (\<forall>g\<in>set (tm_members s). \<not> blocked g)" by (auto simp: free_def deaf_def)
    then show ?thesis using True can_return[OF i] by simp
  next
    case False
    have "\<not> ends s"
    proof
      assume "ends s"
      then obtain t where t: "team_move\<^sup>*\<^sup>* s t" "tm_stop t = Returned" using ends_returns by blast
      have "tm_cancelled t" using manager_returned[OF later_reachable[OF assms t(1)] t(2)] .
      then show False using cancelled_later[OF t(1)] False by simp
    qed
    then show ?thesis using False manager_returned[OF assms] by auto
  qed
qed

text \<open>\<open>Stop\<close> of a manager that nothing has happened to, with the context alive.\<close>

definition stopping_manager :: team where
  "stopping_manager = manager_start\<lparr>tm_stop := Waiting, tm_closed := True\<rparr>"

lemma stopping_manager_reached: "(team_step manager_rounds)\<^sup>*\<^sup>* manager_start stopping_manager"
proof -
  have "outer manager_rounds manager_start (manager_start\<lparr>tm_stop := Requested\<rparr>)"
    by (rule outer.stop_call) (simp add: manager_start_def start_team_def)
  moreover have "team_move (manager_start\<lparr>tm_stop := Requested\<rparr>) (manager_start\<lparr>tm_stop := Requested\<rparr>\<lparr>tm_stop := Waiting, tm_closed := True\<rparr>)"
    by (rule team_move.stop_lock) (simp_all add: manager_start_def start_team_def listener_def holding_def)
  moreover have "manager_start\<lparr>tm_stop := Requested\<rparr>\<lparr>tm_stop := Waiting, tm_closed := True\<rparr> = stopping_manager"
    by (simp add: stopping_manager_def manager_start_def start_team_def)
  ultimately show ?thesis
    by (metis step_outer step_inner rtranclp_trans)
qed

theorem manager_stop_liveness_witness: "\<not> ends stopping_manager"
  using manager_stop_liveness[OF stopping_manager_reached]
  by (simp add: stopping_manager_def manager_start_def start_team_def)

end
