(* ===== verification/Webhook.thy ===== *)
theory Webhook
  imports Machine Alert
begin

text \<open>
  The base sink of \<open>pkg/output/webhook.go\<close>: posting with retries, exponential backoff and a circuit
  breaker. The endpoint and the clock are one record, \<open>http_env\<close>: whether a request to a URL can be
  built, the answers to the requests in their order and how long each takes, what was posted so far,
  and the time. Durations are 64-bit in the code; the backoff is computed at that width. \<open>sendWithRetry\<close>
  is one send that runs alone; theory Webhook_Overlap takes it apart into the sections under the sink's
  mutex and lets any number of sends stand between them.
\<close>

section \<open>Endpoint and clock\<close>

datatype http_outcome = NoResponse string | Status nat

record http_env =
  hv_reject :: "string \<Rightarrow> string option"
  hv_answers :: "nat \<Rightarrow> http_outcome \<times> duration"
  hv_posts :: "string list"
  hv_clock :: time
  hv_sleeps :: "duration list"

definition post :: "string \<Rightarrow> http_env \<Rightarrow> http_outcome \<times> http_env" where
  "post payload h =
    (let (answer, took) = hv_answers h (length (hv_posts h))
     in (answer, h\<lparr>hv_posts := hv_posts h @ [payload], hv_clock := hv_clock h + took\<rparr>))"

text \<open>\<open>time.Sleep\<close> returns at once on a duration that is not positive.\<close>

definition sleep :: "duration \<Rightarrow> http_env \<Rightarrow> http_env" where
  "sleep d h = h\<lparr>hv_sleeps := hv_sleeps h @ [d], hv_clock := hv_clock h + max 0 d\<rparr>"

section \<open>Sinks\<close>

definition WebhookSinkSlack :: string where "WebhookSinkSlack = ''slack''"
definition WebhookSinkPagerDuty :: string where "WebhookSinkPagerDuty = ''pagerduty''"
definition WebhookSinkGeneric :: string where "WebhookSinkGeneric = ''generic''"

record webhook_config =
  wc_Type :: string
  wc_URL :: string
  wc_Headers :: "(string \<times> string) list"
  wc_RetryCount :: int
  wc_RetryDelay :: duration
  wc_Timeout :: duration
  wc_BatchSize :: int
  wc_BatchInterval :: duration
  wc_TLSInsecureSkipVerify :: bool
  wc_TLSMinVersion :: u16
  wc_CircuitResetAfter :: duration
  wc_Enabled :: bool
  wc_PagerDutyRoutingKey :: string
  wc_SlackChannel :: string
  wc_SlackUsername :: string

definition VersionTLS12 :: u16 where "VersionTLS12 = 0x0303"

definition DefaultWebhookSinkConfig :: webhook_config where
  "DefaultWebhookSinkConfig =
    \<lparr>wc_Type = WebhookSinkGeneric, wc_URL = [], wc_Headers = [], wc_RetryCount = 3, wc_RetryDelay = Seconds 1,
     wc_Timeout = Seconds 10, wc_BatchSize = 1, wc_BatchInterval = Seconds 5, wc_TLSInsecureSkipVerify = False,
     wc_TLSMinVersion = VersionTLS12, wc_CircuitResetAfter = 0, wc_Enabled = True, wc_PagerDutyRoutingKey = [],
     wc_SlackChannel = [], wc_SlackUsername = []\<rparr>"

record base_sink =
  bs_config :: webhook_config
  bs_sent :: int
  bs_failed :: int
  bs_retried :: int
  bs_batched :: int
  bs_consecutiveFailures :: int
  bs_circuitOpen :: bool
  bs_maxFailures :: int
  bs_circuitResetAfter :: duration
  bs_lastFailureAt :: time
  bs_enabled :: bool

definition newBaseWebhookSink :: "webhook_config \<Rightarrow> base_sink" where
  "newBaseWebhookSink cfg =
    (let cfg = (if wc_RetryCount cfg \<le> 0 then cfg\<lparr>wc_RetryCount := 3\<rparr> else cfg);
         cfg = (if wc_RetryDelay cfg \<le> 0 then cfg\<lparr>wc_RetryDelay := Seconds 1\<rparr> else cfg);
         cfg = (if wc_Timeout cfg \<le> 0 then cfg\<lparr>wc_Timeout := Seconds 10\<rparr> else cfg);
         cfg = (if wc_BatchSize cfg \<le> 0 then cfg\<lparr>wc_BatchSize := 1\<rparr> else cfg);
         cfg = (if wc_BatchInterval cfg \<le> 0 then cfg\<lparr>wc_BatchInterval := Seconds 5\<rparr> else cfg);
         cfg = (if wc_TLSMinVersion cfg = 0 then cfg\<lparr>wc_TLSMinVersion := VersionTLS12\<rparr> else cfg);
         resetAfter = (if wc_CircuitResetAfter cfg \<le> 0 then Seconds 60 else wc_CircuitResetAfter cfg)
     in \<lparr>bs_config = cfg, bs_sent = 0, bs_failed = 0, bs_retried = 0, bs_batched = 0, bs_consecutiveFailures = 0,
         bs_circuitOpen = False, bs_maxFailures = 5, bs_circuitResetAfter = resetAfter, bs_lastFailureAt = 0,
         bs_enabled = wc_Enabled cfg\<rparr>)"

section \<open>Posting with retries\<close>

text \<open>\<open>b.config.RetryDelay * time.Duration(1<<(attempt-1))\<close>, in 64 bits, capped at 30 seconds.\<close>

definition retry_delay :: "duration \<Rightarrow> nat \<Rightarrow> duration" where
  "retry_delay base attempt =
    (let delay = sint (word_of_int base * push_bit (attempt - 1) (1 :: 64 word))
     in if delay > Seconds 30 then Seconds 30 else delay)"

definition send_success :: "base_sink \<Rightarrow> base_sink" where
  "send_success b = b\<lparr>bs_sent := bs_sent b + 1, bs_consecutiveFailures := 0, bs_circuitOpen := False\<rparr>"

definition send_failure :: "time \<Rightarrow> base_sink \<Rightarrow> base_sink" where
  "send_failure now b =
    (let b = b\<lparr>bs_failed := bs_failed b + 1, bs_consecutiveFailures := bs_consecutiveFailures b + 1, bs_lastFailureAt := now\<rparr>
     in if bs_consecutiveFailures b \<ge> bs_maxFailures b then b\<lparr>bs_circuitOpen := True\<rparr> else b)"

definition before_attempt :: "nat \<Rightarrow> base_sink \<Rightarrow> http_env \<Rightarrow> base_sink \<times> http_env" where
  "before_attempt attempt b h =
    (if attempt > 0 then (b\<lparr>bs_retried := bs_retried b + 1\<rparr>, sleep (retry_delay (wc_RetryDelay (bs_config b)) attempt) h)
     else (b, h))"

text \<open>The loop of \<open>sendWithRetry\<close>, over the number of attempts that are left.\<close>

fun send_loop :: "string \<Rightarrow> nat \<Rightarrow> nat \<Rightarrow> string \<Rightarrow> base_sink \<Rightarrow> http_env \<Rightarrow> string option \<times> base_sink \<times> http_env" where
  "send_loop payload 0 attempt lastErr b h =
     (Some (''webhook failed after '' @ show_nat (nat (wc_RetryCount (bs_config b))) @ '' retries: '' @ lastErr),
      send_failure (hv_clock h) b, h)"
| "send_loop payload (Suc left) attempt lastErr b h =
     (let (b, h) = before_attempt attempt b h in
      case hv_reject h (wc_URL (bs_config b)) of
        Some err \<Rightarrow> send_loop payload left (attempt + 1) (''failed to create request: '' @ err) b h
      | None \<Rightarrow>
          (let (answer, h) = post payload h in
           case answer of
             NoResponse err \<Rightarrow> send_loop payload left (attempt + 1) (''request failed: '' @ err) b h
           | Status code \<Rightarrow>
               if code \<ge> 200 \<and> code < 300 then (None, send_success b, h)
               else if code \<ge> 400 \<and> code < 500 \<and> code \<noteq> 429
               then (Some (''webhook returned status '' @ show_nat code @ '' (non-retryable)''), send_failure (hv_clock h) b, h)
               else send_loop payload left (attempt + 1) (''webhook returned status '' @ show_nat code) b h))"

definition sendWithRetry :: "string \<Rightarrow> base_sink \<Rightarrow> http_env \<Rightarrow> string option \<times> base_sink \<times> http_env" where
  "sendWithRetry payload b h =
    (if \<not> bs_enabled b then (None, b, h)
     else if bs_circuitOpen b \<and> \<not> hv_clock h - bs_lastFailureAt b > bs_circuitResetAfter b
     then (Some (''webhook circuit breaker open for '' @ wc_URL (bs_config b)), b, h)
     else send_loop payload (nat (wc_RetryCount (bs_config b) + 1)) 0 [] (b\<lparr>bs_circuitOpen := False\<rparr>) h)"

definition bs_SetEnabled :: "bool \<Rightarrow> base_sink \<Rightarrow> base_sink" where
  "bs_SetEnabled enabled b = b\<lparr>bs_enabled := enabled\<rparr>"

section \<open>What a send does\<close>

definition delivered :: "http_outcome \<Rightarrow> bool" where
  "delivered answer \<longleftrightarrow> (case answer of NoResponse _ \<Rightarrow> False | Status code \<Rightarrow> 200 \<le> code \<and> code < 300)"

definition refused :: "http_outcome \<Rightarrow> bool" where
  "refused answer \<longleftrightarrow> (case answer of NoResponse _ \<Rightarrow> False | Status code \<Rightarrow> 400 \<le> code \<and> code < 500 \<and> code \<noteq> 429)"

definition answers_from :: "http_env \<Rightarrow> nat \<Rightarrow> http_outcome list" where
  "answers_from h n = map (\<lambda>i. fst (hv_answers h (length (hv_posts h) + i))) [0..<n]"

text \<open>The attempts that are inconclusive, and the number of attempts made out of \<open>n\<close>.\<close>

definition fruitless :: "http_env \<Rightarrow> nat \<Rightarrow> nat" where
  "fruitless h n = length (takeWhile (\<lambda>a. \<not> delivered a \<and> \<not> refused a) (answers_from h n))"

definition attempts_made :: "http_env \<Rightarrow> nat \<Rightarrow> nat" where
  "attempts_made h n = min n (fruitless h n + 1)"

definition arrives :: "http_env \<Rightarrow> nat \<Rightarrow> bool" where
  "arrives h n \<longleftrightarrow> fruitless h n < n \<and> delivered (answers_from h n ! fruitless h n)"

lemma answers_Suc:
  "answers_from h (Suc n) = fst (hv_answers h (length (hv_posts h))) # map (\<lambda>i. fst (hv_answers h (length (hv_posts h) + Suc i))) [0..<n]"
  by (simp add: answers_from_def map_upt_Suc del: upt_Suc)

lemma answers_post:
  assumes "hv_answers h' = hv_answers h" "length (hv_posts h') = Suc (length (hv_posts h))"
  shows "answers_from h (Suc n) = fst (hv_answers h (length (hv_posts h))) # answers_from h' n"
  by (simp add: answers_Suc) (simp add: answers_from_def assms)

lemma inconclusive_first:
  assumes "answers_from h (Suc n) = a # answers_from h' n" "\<not> delivered a" "\<not> refused a"
  shows "attempts_made h (Suc n) = Suc (attempts_made h' n)" "arrives h (Suc n) = arrives h' n"
  using assms by (simp_all add: attempts_made_def arrives_def fruitless_def)

lemma conclusive_first:
  assumes "answers_from h (Suc n) = a # as" "delivered a \<or> refused a"
  shows "attempts_made h (Suc n) = 1" "arrives h (Suc n) = delivered a"
  using assms by (auto simp: attempts_made_def arrives_def fruitless_def)

text \<open>The waits of the attempts from \<open>attempt\<close> on: none before the very first.\<close>

definition waits :: "nat \<Rightarrow> nat \<Rightarrow> nat list" where
  "waits attempt k = filter (\<lambda>i. 0 < i) [attempt..<attempt + k]"

lemma waits_simps [simp]:
  "waits attempt 0 = []" "waits attempt (Suc k) = (if 0 < attempt then [attempt] else []) @ waits (Suc attempt) k"
proof -
  have "[attempt..<attempt + Suc k] = attempt # [Suc attempt..<Suc attempt + k]" by (simp add: upt_conv_Cons del: upt_Suc)
  then show "waits attempt (Suc k) = (if 0 < attempt then [attempt] else []) @ waits (Suc attempt) k"
    by (simp only: waits_def filter.simps) simp
qed (simp add: waits_def)

definition settled :: "bool \<Rightarrow> nat \<Rightarrow> time \<Rightarrow> base_sink \<Rightarrow> base_sink" where
  "settled ok retries now b =
    (let b = b\<lparr>bs_retried := bs_retried b + int retries\<rparr> in if ok then send_success b else send_failure now b)"

lemma settled_retry: "settled ok k now (b\<lparr>bs_retried := bs_retried b + 1\<rparr>) = settled ok (Suc k) now b"
  by (simp add: settled_def ac_simps)

lemma send_loop_spec:
  assumes "hv_reject h (wc_URL (bs_config b)) = None" "send_loop payload n attempt err b h = (r, b', h')"
  shows "hv_posts h' = hv_posts h @ replicate (attempts_made h n) payload \<and>
    hv_sleeps h' = hv_sleeps h @ map (retry_delay (wc_RetryDelay (bs_config b))) (waits attempt (attempts_made h n)) \<and>
    (r = None \<longleftrightarrow> arrives h n) \<and>
    b' = settled (arrives h n) (length (waits attempt (attempts_made h n))) (hv_clock h') b"
  using assms
proof (induction n arbitrary: attempt err b h)
  case 0
  then show ?case by (auto simp: attempts_made_def arrives_def settled_def)
next
  case (Suc n)
  obtain b1 h1 where b1: "before_attempt attempt b h = (b1, h1)" by force
  obtain a h2 where a: "post payload h1 = (a, h2)" by force
  have f1: "hv_reject h1 = hv_reject h" "bs_config b1 = bs_config b" "hv_posts h1 = hv_posts h" "hv_answers h1 = hv_answers h"
    "hv_sleeps h1 = hv_sleeps h @ (if 0 < attempt then [retry_delay (wc_RetryDelay (bs_config b)) attempt] else [])"
    "b1 = (if 0 < attempt then b\<lparr>bs_retried := bs_retried b + 1\<rparr> else b)"
    using b1 by (auto simp: before_attempt_def sleep_def split: if_splits)
  have f2: "hv_reject h2 = hv_reject h" "hv_posts h2 = hv_posts h @ [payload]" "hv_answers h2 = hv_answers h"
    "hv_sleeps h2 = hv_sleeps h1" "a = fst (hv_answers h (length (hv_posts h)))"
    using a f1 by (auto simp: post_def split: prod.splits)
  have first: "answers_from h (Suc n) = a # answers_from h2 n"
    using answers_post[of h2 h n] f2 by simp
  have settled1: "settled ok k now b1 = settled ok (if 0 < attempt then Suc k else k) now b" for ok k now
    using f1(6) settled_retry by simp
  show ?case
  proof (cases "delivered a \<or> refused a")
    case True
    then obtain code where code: "a = Status code" by (cases a) (auto simp: delivered_def refused_def)
    have "r = (if delivered a then None else Some (''webhook returned status '' @ show_nat code @ '' (non-retryable)''))"
      "b' = settled (delivered a) 0 (hv_clock h') b1" "h' = h2"
      using Suc.prems True code f1(1,2) b1 a by (auto simp: delivered_def refused_def settled_def split: if_splits)
    then show ?thesis using conclusive_first[OF first True] f1(5) f2 settled1 by auto
  next
    case False
    then obtain err' where "send_loop payload n (attempt + 1) err' b1 h2 = (r, b', h')"
      using Suc.prems f1(1,2) b1 a by (cases a) (auto simp: delivered_def refused_def split: if_splits)
    from Suc.IH[OF _ this] show ?thesis
      using Suc.prems(1) inconclusive_first[OF first] False f1 f2 settled1 by auto
  qed
qed

lemma waits_first: "waits 0 k = [1..<k]"
proof (cases k)
  case (Suc j)
  have "waits (Suc 0) j = [Suc 0..<Suc 0 + j]" unfolding waits_def by (rule filter_True) auto
  then show ?thesis by (simp add: Suc)
qed simp

lemma attempts_positive: "0 < n \<Longrightarrow> 0 < attempts_made h n"
  by (simp add: attempts_made_def)

text \<open>Whatever the endpoint does, a loop ends in one of two ways, and it does not change the endpoint.\<close>

lemma send_loop_settled:
  "send_loop payload n attempt err b h = (r, b', h') \<Longrightarrow>
     (\<exists>k. b' = settled (r = None) k (hv_clock h') b) \<and> hv_reject h' = hv_reject h \<and> hv_answers h' = hv_answers h"
proof (induction n arbitrary: attempt err b h)
  case 0
  then have "b' = settled (r = None) 0 (hv_clock h') b" by (auto simp: settled_def)
  then show ?case using 0 by auto
next
  case (Suc n)
  obtain b1 h1 where b1: "before_attempt attempt b h = (b1, h1)" by force
  obtain a h2 where a: "post payload h1 = (a, h2)" by force
  have env: "hv_reject h1 = hv_reject h" "hv_answers h1 = hv_answers h" "hv_reject h2 = hv_reject h" "hv_answers h2 = hv_answers h"
    using b1 a by (auto simp: before_attempt_def sleep_def post_def split: if_splits prod.splits)
  have step: "\<exists>k. settled ok k0 now b1 = settled ok k now b" for ok k0 now
    using b1 settled_retry[of ok k0 now b] by (auto simp: before_attempt_def split: if_splits)
  have "b' = settled (r = None) 0 (hv_clock h') b1 \<and> h' = h2 \<or>
      (\<exists>att e g. send_loop payload n att e b1 g = (r, b', h') \<and> (g = h1 \<or> g = h2))"
    using Suc.prems by (auto simp: b1 a settled_def split: option.splits http_outcome.splits if_splits)
  then show ?case
  proof
    assume "b' = settled (r = None) 0 (hv_clock h') b1 \<and> h' = h2"
    then show ?thesis using step env by metis
  next
    assume "\<exists>att e g. send_loop payload n att e b1 g = (r, b', h') \<and> (g = h1 \<or> g = h2)"
    then obtain att e g where g: "send_loop payload n att e b1 g = (r, b', h')" "g = h1 \<or> g = h2" by blast
    show ?thesis using Suc.IH[OF g(1)] step env g(2) by metis
  qed
qed

text \<open>C33: What one send does. When the breaker lets a send through, the payload is posted until the first
  conclusive answer (2xx, or 4xx other than 429) or until the first attempt and all retries are used;
  before the k-th retry it waits for the k-th backoff; it succeeds exactly when the first conclusive
  answer is a 2xx, and the counters and the breaker are settled once, with the time of the end.\<close>

theorem send_follows_answers:
  assumes "bs_enabled b" and "bs_circuitOpen b \<longrightarrow> bs_circuitResetAfter b < hv_clock h - bs_lastFailureAt b"
    and "hv_reject h (wc_URL (bs_config b)) = None" and "0 \<le> wc_RetryCount (bs_config b)"
    and "sendWithRetry payload b h = (r, b', h')" and "n = nat (wc_RetryCount (bs_config b)) + 1"
  shows "hv_posts h' = hv_posts h @ replicate (attempts_made h n) payload \<and>
    hv_sleeps h' = hv_sleeps h @ map (retry_delay (wc_RetryDelay (bs_config b))) [1..<attempts_made h n] \<and>
    (r = None \<longleftrightarrow> arrives h n) \<and>
    b' = settled (arrives h n) (attempts_made h n - 1) (hv_clock h') (b\<lparr>bs_circuitOpen := False\<rparr>)"
proof -
  have n: "nat (wc_RetryCount (bs_config b) + 1) = n" using assms(4,6) by simp
  have "send_loop payload n 0 [] (b\<lparr>bs_circuitOpen := False\<rparr>) h = (r, b', h')"
    using assms(1,2,5) n by (auto simp: sendWithRetry_def split: if_splits)
  from send_loop_spec[OF _ this] show ?thesis using assms(3) by (simp add: waits_first)
qed

lemma sint_small: "0 \<le> x \<Longrightarrow> x < 2 ^ 63 \<Longrightarrow> sint (word_of_int x :: 64 word) = x"
  by (simp add: sint_sbintrunc' signed_take_bit_int_eq_self)

text \<open>The backoff doubles up to the cap while the product fits in 63 bits; beyond that it is not a wait.\<close>

lemma retry_delay_doubles:
  assumes "0 \<le> base" "base * 2 ^ (attempt - 1) < 2 ^ 63"
  shows "retry_delay base attempt = min (Seconds 30) (base * 2 ^ (attempt - 1))"
proof -
  have p: "push_bit (attempt - 1) (1 :: 64 word) = word_of_int (2 ^ (attempt - 1))" by (simp add: push_bit_eq_mult)
  have "sint (word_of_int (base * 2 ^ (attempt - 1)) :: 64 word) = base * 2 ^ (attempt - 1)"
    by (rule sint_small) (use assms in simp_all)
  then show ?thesis by (simp add: retry_delay_def p wi_hom_mult[symmetric] min_def Let_def)
qed

lemma retry_delay_wraps: "retry_delay (Seconds 1) 35 < 0"
  by code_simp

section \<open>The circuit breaker\<close>

inductive sink_step :: "base_sink \<Rightarrow> base_sink \<Rightarrow> bool" where
  sink_send: "sendWithRetry payload b h = (r, b', h') \<Longrightarrow> sink_step b b'"
| sink_enable: "sink_step b (bs_SetEnabled enabled b)"
| sink_batched: "sink_step b (b\<lparr>bs_batched := bs_batched b + 1\<rparr>)"

definition breaker_inv :: "base_sink \<Rightarrow> bool" where
  "breaker_inv b \<longleftrightarrow> bs_maxFailures b = 5 \<and> 0 \<le> bs_consecutiveFailures b \<and>
     (bs_circuitOpen b \<longleftrightarrow> 5 \<le> bs_consecutiveFailures b) \<and> 0 < wc_RetryCount (bs_config b) \<and> 0 < bs_circuitResetAfter b"

lemma settled_inv: "breaker_inv b \<Longrightarrow> breaker_inv (settled ok k now (b\<lparr>bs_circuitOpen := False\<rparr>))"
  by (auto simp: breaker_inv_def settled_def send_success_def send_failure_def Let_def)

lemma send_cases:
  assumes "sendWithRetry payload b h = (r, b', h')"
  obtains (disabled) "\<not> bs_enabled b" "r = None" "b' = b" "h' = h"
  | (rejected) "bs_enabled b" "bs_circuitOpen b" "hv_clock h - bs_lastFailureAt b \<le> bs_circuitResetAfter b" "r \<noteq> None" "b' = b" "h' = h"
  | (sent) k where "bs_enabled b" "bs_circuitOpen b \<longrightarrow> bs_circuitResetAfter b < hv_clock h - bs_lastFailureAt b"
      "b' = settled (r = None) k (hv_clock h') (b\<lparr>bs_circuitOpen := False\<rparr>)"
proof -
  let ?closed = "b\<lparr>bs_circuitOpen := False\<rparr>"
  consider "\<not> bs_enabled b" | "bs_enabled b" "bs_circuitOpen b" "hv_clock h - bs_lastFailureAt b \<le> bs_circuitResetAfter b"
    | "bs_enabled b" "bs_circuitOpen b \<longrightarrow> bs_circuitResetAfter b < hv_clock h - bs_lastFailureAt b"
    by fastforce
  then show ?thesis
  proof cases
    case 1
    then show ?thesis using disabled assms by (simp add: sendWithRetry_def)
  next
    case 2
    then have "r = Some (''webhook circuit breaker open for '' @ wc_URL (bs_config b))" "b' = b" "h' = h"
      using assms by (auto simp: sendWithRetry_def)
    then show ?thesis using rejected 2 by blast
  next
    case 3
    then have "send_loop payload (nat (wc_RetryCount (bs_config b) + 1)) 0 [] ?closed h = (r, b', h')"
      using assms by (auto simp: sendWithRetry_def split: if_splits)
    from send_loop_settled[OF this] show ?thesis using sent 3 by blast
  qed
qed

text \<open>The defaults touch one field each.\<close>

lemma default_fields:
  "wc_RetryCount (if c then cfg\<lparr>wc_RetryDelay := d\<rparr> else cfg) = wc_RetryCount cfg"
  "wc_RetryCount (if c then cfg\<lparr>wc_Timeout := d\<rparr> else cfg) = wc_RetryCount cfg"
  "wc_RetryCount (if c then cfg\<lparr>wc_BatchSize := d\<rparr> else cfg) = wc_RetryCount cfg"
  "wc_RetryCount (if c then cfg\<lparr>wc_BatchInterval := d\<rparr> else cfg) = wc_RetryCount cfg"
  "wc_RetryCount (if c then cfg\<lparr>wc_TLSMinVersion := v\<rparr> else cfg) = wc_RetryCount cfg"
  by simp_all

lemma new_sink_retries: "0 < wc_RetryCount (bs_config (newBaseWebhookSink cfg))"
  by (simp only: newBaseWebhookSink_def Let_def base_sink.select_convs default_fields) simp

lemma new_sink_resets: "0 < bs_circuitResetAfter (newBaseWebhookSink cfg)"
  by (simp only: newBaseWebhookSink_def Let_def base_sink.select_convs) auto

lemma new_sink_ok: "breaker_inv (newBaseWebhookSink cfg)"
  unfolding breaker_inv_def using new_sink_retries new_sink_resets by (simp add: newBaseWebhookSink_def Let_def)

interpretation breaker: invariant_system "\<lambda>b. \<exists>cfg. b = newBaseWebhookSink cfg" sink_step breaker_inv
proof
  fix b b'
  show "\<exists>cfg. b = newBaseWebhookSink cfg \<Longrightarrow> breaker_inv b" using new_sink_ok by blast
  assume i: "breaker_inv b" and "sink_step b b'"
  from this(2) show "breaker_inv b'"
  proof cases
    case (sink_send payload h r h')
    then show ?thesis using i settled_inv by (cases rule: send_cases) auto
  qed (use i in \<open>auto simp: breaker_inv_def bs_SetEnabled_def\<close>)
qed

text \<open>The breaker when sends do not overlap. In every state that a sink then reaches, an enabled sink rejects a
  send without a request when five sends in a row have failed and the reset time has not passed since the
  last failure; otherwise the payload is posted, a success clears the failures and closes the breaker, and
  a failure counts one more, notes the time, and leaves the breaker open from the fifth on. So after the
  reset time one send, of up to \<open>RetryCount\<close> + 1 requests, probes the endpoint, and its failure opens the
  breaker again. Theory Webhook_Overlap states what is left of this when sends overlap.\<close>

theorem breaker_alone:
  assumes "sink_step\<^sup>*\<^sup>* (newBaseWebhookSink cfg) b" and "bs_enabled b"
    and "hv_reject h (wc_URL (bs_config b)) = None" and "sendWithRetry payload b h = (r, b', h')"
  shows "if 5 \<le> bs_consecutiveFailures b \<and> hv_clock h - bs_lastFailureAt b \<le> bs_circuitResetAfter b
    then r \<noteq> None \<and> b' = b \<and> h' = h
    else hv_posts h' \<noteq> hv_posts h \<and>
      (r = None \<longrightarrow> bs_consecutiveFailures b' = 0 \<and> \<not> bs_circuitOpen b') \<and>
      (r \<noteq> None \<longrightarrow> bs_consecutiveFailures b' = bs_consecutiveFailures b + 1 \<and> bs_lastFailureAt b' = hv_clock h' \<and>
         (bs_circuitOpen b' \<longleftrightarrow> 4 \<le> bs_consecutiveFailures b))"
proof -
  have i: "breaker_inv b" by (rule breaker.reachable_inv[OF _ assms(1)]) blast
  from assms(4) show ?thesis
  proof (cases rule: send_cases)
    case (sent k)
    let ?n = "nat (wc_RetryCount (bs_config b) + 1)"
    have "send_loop payload ?n 0 [] (b\<lparr>bs_circuitOpen := False\<rparr>) h = (r, b', h')"
      using sent(1,2) assms(4) by (auto simp: sendWithRetry_def split: if_splits)
    moreover have "0 < ?n" using i by (simp add: breaker_inv_def)
    ultimately have "hv_posts h' \<noteq> hv_posts h"
      using send_loop_spec[of h "b\<lparr>bs_circuitOpen := False\<rparr>"] attempts_positive[of ?n h] assms(3) by simp
    then show ?thesis using i sent
      by (auto simp: breaker_inv_def settled_def send_success_def send_failure_def Let_def)
  qed (use i assms(2) in \<open>auto simp: breaker_inv_def\<close>)
qed

section \<open>An outage\<close>

definition outage :: http_env where
  "outage = \<lparr>hv_reject = (\<lambda>_. None), hv_answers = (\<lambda>i. (NoResponse ''timeout'', 1)), hv_posts = [], hv_clock = 0, hv_sleeps = []\<rparr>"

fun sends :: "string list \<Rightarrow> base_sink \<Rightarrow> http_env \<Rightarrow> base_sink \<times> http_env" where
  "sends [] b h = (b, h)"
| "sends (p # ps) b h = (case sendWithRetry p b h of (r, b, h) \<Rightarrow> sends ps b h)"

lemma sends_reach: "sends ps b h = (b', h') \<Longrightarrow> sink_step\<^sup>*\<^sup>* b b'"
  by (induction ps arbitrary: b h) (auto split: prod.splits intro: converse_rtranclp_into_rtranclp sink_send)

definition tired :: "base_sink \<times> http_env" where
  "tired = sends [''a'', ''b'', ''c'', ''d'', ''e''] (newBaseWebhookSink DefaultWebhookSinkConfig) outage"

lemma settled_frame [simp]:
  "bs_config (settled ok k now b) = bs_config b" "bs_enabled (settled ok k now b) = bs_enabled b"
  "bs_circuitResetAfter (settled ok k now b) = bs_circuitResetAfter b"
  by (simp_all add: settled_def send_success_def send_failure_def Let_def)

lemma send_env: "sendWithRetry p b h = (r, b', h') \<Longrightarrow> hv_reject h' = hv_reject h \<and> hv_answers h' = hv_answers h"
  using send_loop_settled[of p "nat (wc_RetryCount (bs_config b) + 1)" 0 "[]" "b\<lparr>bs_circuitOpen := False\<rparr>" h r b' h']
  by (simp add: sendWithRetry_def split: if_splits)

text \<open>The state after \<open>k\<close> failed sends.\<close>

definition failed_sends :: "int \<Rightarrow> base_sink \<times> http_env \<Rightarrow> bool" where
  "failed_sends k s \<longleftrightarrow> (case s of (b, h) \<Rightarrow> breaker_inv b \<and> bs_enabled b \<and> bs_consecutiveFailures b = k \<and>
     (0 < k \<longrightarrow> bs_lastFailureAt b = hv_clock h) \<and> hv_reject h = (\<lambda>_. None) \<and> hv_answers h = hv_answers outage)"

lemma failed_send:
  assumes "failed_sends k (b, h)" "k < 5" "sendWithRetry p b h = (r, b', h')"
  shows "failed_sends (k + 1) (b', h')"
proof -
  have i: "breaker_inv b" "bs_enabled b" "\<not> bs_circuitOpen b" "bs_consecutiveFailures b = k"
    using assms(1,2) by (auto simp: failed_sends_def breaker_inv_def)
  let ?n = "nat (wc_RetryCount (bs_config b) + 1)"
  have "send_loop p ?n 0 [] (b\<lparr>bs_circuitOpen := False\<rparr>) h = (r, b', h')"
    using assms(3) i by (simp add: sendWithRetry_def)
  moreover have "\<not> arrives h ?n"
  proof -
    have "delivered (fst (hv_answers h m)) = False" for m using assms(1) by (simp add: failed_sends_def outage_def delivered_def)
    then show ?thesis by (auto simp: arrives_def answers_from_def)
  qed
  ultimately have b': "b' = settled False (length (waits 0 (attempts_made h ?n))) (hv_clock h') (b\<lparr>bs_circuitOpen := False\<rparr>)"
    using send_loop_spec[of h "b\<lparr>bs_circuitOpen := False\<rparr>" p ?n 0 "[]" r b' h'] assms(1) by (simp add: failed_sends_def)
  have inv: "breaker_inv b'" unfolding b' by (rule settled_inv[OF i(1)])
  have "bs_enabled b' \<and> bs_consecutiveFailures b' = k + 1 \<and> bs_lastFailureAt b' = hv_clock h'"
    using i unfolding b' by (simp add: settled_def send_failure_def Let_def)
  then show ?thesis using inv assms(1) send_env[OF assms(3)] by (simp add: failed_sends_def)
qed

lemma failed_sends_run: "failed_sends k (b, h) \<Longrightarrow> k + int (length ps) \<le> 5 \<Longrightarrow> failed_sends (k + int (length ps)) (sends ps b h)"
proof (induction ps arbitrary: k b h)
  case (Cons p ps)
  obtain r b' h' where s: "sendWithRetry p b h = (r, b', h')" by (metis surj_pair)
  have "failed_sends (k + 1) (b', h')" using failed_send[OF Cons.prems(1) _ s] Cons.prems(2) by simp
  from Cons.IH[OF this] show ?case using Cons.prems(2) by (simp add: s add.assoc)
qed simp

lemma tired_failed: "failed_sends 5 tired"
proof -
  have "failed_sends 0 (newBaseWebhookSink DefaultWebhookSinkConfig, outage)"
    by (simp add: failed_sends_def breaker_inv_def newBaseWebhookSink_def DefaultWebhookSinkConfig_def outage_def Let_def)
  from failed_sends_run[OF this, of "[''a'', ''b'', ''c'', ''d'', ''e'']"] show ?thesis by (simp add: tired_def del: sends.simps)
qed

lemma tired_facts:
  "bs_enabled (fst tired)" "bs_consecutiveFailures (fst tired) = 5" "hv_clock (snd tired) = bs_lastFailureAt (fst tired)"
  "0 < bs_circuitResetAfter (fst tired)" "hv_reject (snd tired) url = None"
  using tired_failed by (auto simp: failed_sends_def breaker_inv_def case_prod_beta)

theorem breaker_alone_witness: "snd (snd (sendWithRetry ''f'' (fst tired) (snd tired))) = snd tired"
proof -
  have "sink_step\<^sup>*\<^sup>* (newBaseWebhookSink DefaultWebhookSinkConfig) (fst tired)"
    by (rule sends_reach[of "[''a'', ''b'', ''c'', ''d'', ''e'']" _ outage _ "snd tired"]) (simp add: tired_def del: sends.simps)
  from breaker_alone[OF this tired_facts(1,5), of "''f''" "fst (sendWithRetry ''f'' (fst tired) (snd tired))"
      "fst (snd (sendWithRetry ''f'' (fst tired) (snd tired)))" "snd (snd (sendWithRetry ''f'' (fst tired) (snd tired)))"]
  show ?thesis using tired_facts by simp
qed

theorem send_follows_answers_witness:
  "hv_posts (snd (snd (sendWithRetry ''a'' (newBaseWebhookSink DefaultWebhookSinkConfig) outage))) = [''a'', ''a'', ''a'', ''a'']"
proof -
  let ?b = "newBaseWebhookSink DefaultWebhookSinkConfig"
  let ?res = "sendWithRetry ''a'' ?b outage"
  have a: "bs_enabled ?b" "\<not> bs_circuitOpen ?b" "hv_reject outage u = None" "0 \<le> wc_RetryCount (bs_config ?b)"
    "nat (wc_RetryCount (bs_config ?b)) + 1 = 4" for u
    by (simp_all add: newBaseWebhookSink_def DefaultWebhookSinkConfig_def VersionTLS12_def Let_def outage_def)
  have "attempts_made outage 4 = 4" by code_simp
  moreover have "?res = (fst ?res, fst (snd ?res), snd (snd ?res))" by simp
  ultimately show ?thesis
    using send_follows_answers[of ?b outage "''a''" "fst ?res" "fst (snd ?res)" "snd (snd ?res)" 4] a
    by (simp add: outage_def eval_nat_numeral)
qed

end
