(* ===== verification/Webhook_Overlap.thy ===== *)
theory Webhook_Overlap
  imports Webhook
begin

text \<open>
  Sends of one sink that overlap. \<open>AlertEmitter.Emit\<close> starts a goroutine per alert (\<open>output/alert.go\<close>) and
  the sink's mutex is held only for the short sections of \<open>sendWithRetry\<close>: the check of the breaker, the
  count of a retry, and the settling of the result. Here each of them is a step of its own, \<open>ov_do\<close>, so
  that any number of sends can stand between any two of them. \<open>sendWithRetry\<close> of theory Webhook is the run
  in which one send goes through all its steps alone (lemma \<open>send_is_run\<close>).
\<close>

section \<open>The steps\<close>

text \<open>Where a send is: past the test of \<open>enabled\<close>; in its loop after a number of attempts, with whether
  the last one got an answer; returned.\<close>

datatype send_phase = Entered | Posting nat bool | Returned

record overlap =
  ov_sink :: base_sink
  ov_sends :: "send_phase list"
  ov_now :: time
  ov_requests :: nat

datatype ov_event = Enter | Admit nat | Reject nat | Attempt nat bool | Deliver nat | Fail nat
  | Pass duration | Enable bool | Batch

text \<open>The check under the lock: closed, or half-open after the reset time, or an error.\<close>

definition admit :: "time \<Rightarrow> base_sink \<Rightarrow> base_sink option" where
  "admit now b =
    (if bs_circuitOpen b then
       if now - bs_lastFailureAt b > bs_circuitResetAfter b then Some (b\<lparr>bs_circuitOpen := False\<rparr>) else None
     else Some b)"

definition phase :: "nat \<Rightarrow> overlap \<Rightarrow> send_phase option" where
  "phase i s = (if i < length (ov_sends s) then Some (ov_sends s ! i) else None)"

definition moved :: "nat \<Rightarrow> send_phase \<Rightarrow> base_sink \<Rightarrow> overlap \<Rightarrow> overlap" where
  "moved i p b s = s\<lparr>ov_sends := (ov_sends s)[i := p], ov_sink := b\<rparr>"

fun ov_do :: "ov_event \<Rightarrow> overlap \<Rightarrow> overlap option" where
  "ov_do Enter s =
     Some (s\<lparr>ov_sends := ov_sends s @ [if bs_enabled (ov_sink s) then Entered else Returned]\<rparr>)"
| "ov_do (Admit i) s =
     (if phase i s = Some Entered
      then map_option (\<lambda>b. moved i (Posting 0 False) b s) (admit (ov_now s) (ov_sink s)) else None)"
| "ov_do (Reject i) s =
     (if phase i s = Some Entered \<and> admit (ov_now s) (ov_sink s) = None
      then Some (moved i Returned (ov_sink s) s) else None)"
| "ov_do (Attempt i made) s =
     (case phase i s of
        Some (Posting k _) \<Rightarrow>
          if int k \<le> wc_RetryCount (bs_config (ov_sink s)) then
            let b = ov_sink s; b = (if k > 0 then b\<lparr>bs_retried := bs_retried b + 1\<rparr> else b)
            in Some ((moved i (Posting (k + 1) made) b s)\<lparr>ov_requests := ov_requests s + (if made then 1 else 0)\<rparr>)
          else None
      | _ \<Rightarrow> None)"
| "ov_do (Deliver i) s =
     (case phase i s of
        Some (Posting _ made) \<Rightarrow> if made then Some (moved i Returned (send_success (ov_sink s)) s) else None
      | _ \<Rightarrow> None)"
| "ov_do (Fail i) s =
     (case phase i s of
        Some (Posting k made) \<Rightarrow>
          if made \<or> int k > wc_RetryCount (bs_config (ov_sink s))
          then Some (moved i Returned (send_failure (ov_now s) (ov_sink s)) s) else None
      | _ \<Rightarrow> None)"
| "ov_do (Pass d) s = (if 0 \<le> d then Some (s\<lparr>ov_now := ov_now s + d\<rparr>) else None)"
| "ov_do (Enable enabled) s = Some (s\<lparr>ov_sink := bs_SetEnabled enabled (ov_sink s)\<rparr>)"
| "ov_do Batch s = Some (s\<lparr>ov_sink := (ov_sink s)\<lparr>bs_batched := bs_batched (ov_sink s) + 1\<rparr>\<rparr>)"

definition ov_step :: "overlap \<Rightarrow> overlap \<Rightarrow> bool" where
  "ov_step s s' \<longleftrightarrow> (\<exists>ev. ov_do ev s = Some s')"

definition ov_start :: "webhook_config \<Rightarrow> time \<Rightarrow> overlap" where
  "ov_start cfg now = \<lparr>ov_sink = newBaseWebhookSink cfg, ov_sends = [], ov_now = now, ov_requests = 0\<rparr>"

fun ov_run :: "ov_event list \<Rightarrow> overlap \<Rightarrow> overlap option" where
  "ov_run [] s = Some s"
| "ov_run (ev # evs) s = (case ov_do ev s of None \<Rightarrow> None | Some s' \<Rightarrow> ov_run evs s')"

lemma ov_run_steps: "ov_run evs s = Some s' \<Longrightarrow> ov_step\<^sup>*\<^sup>* s s'"
proof (induction evs arbitrary: s)
  case (Cons ev evs)
  then obtain t where "ov_do ev s = Some t" "ov_run evs t = Some s'" by (auto split: option.splits)
  then show ?case using Cons.IH ov_step_def by (metis converse_rtranclp_into_rtranclp)
qed simp

lemma moved_simps [simp]:
  "ov_sink (moved i p b s) = b" "ov_sends (moved i p b s) = (ov_sends s)[i := p]"
  "ov_now (moved i p b s) = ov_now s" "ov_requests (moved i p b s) = ov_requests s"
  by (simp_all add: moved_def)

lemma phase_sends: "phase i s = Some p \<longleftrightarrow> i < length (ov_sends s) \<and> ov_sends s ! i = p"
  by (simp add: phase_def)

text \<open>The events that succeed, one case each.\<close>

lemma ov_cases [consumes 1, case_names enter admit reject attempt deliver fail pass enable batch]:
  assumes "ov_do ev s = Some s'"
  obtains "ev = Enter" "s' = s\<lparr>ov_sends := ov_sends s @ [if bs_enabled (ov_sink s) then Entered else Returned]\<rparr>"
  | i b where "ev = Admit i" "phase i s = Some Entered" "admit (ov_now s) (ov_sink s) = Some b"
      "s' = moved i (Posting 0 False) b s"
  | i where "ev = Reject i" "phase i s = Some Entered" "admit (ov_now s) (ov_sink s) = None"
      "s' = moved i Returned (ov_sink s) s"
  | i made k m b where "ev = Attempt i made" "phase i s = Some (Posting k m)"
      "int k \<le> wc_RetryCount (bs_config (ov_sink s))"
      "b = (if k > 0 then (ov_sink s)\<lparr>bs_retried := bs_retried (ov_sink s) + 1\<rparr> else ov_sink s)"
      "s' = (moved i (Posting (k + 1) made) b s)\<lparr>ov_requests := ov_requests s + (if made then 1 else 0)\<rparr>"
  | i k where "ev = Deliver i" "phase i s = Some (Posting k True)" "s' = moved i Returned (send_success (ov_sink s)) s"
  | i k made where "ev = Fail i" "phase i s = Some (Posting k made)"
      "made \<or> int k > wc_RetryCount (bs_config (ov_sink s))"
      "s' = moved i Returned (send_failure (ov_now s) (ov_sink s)) s"
  | d where "ev = Pass d" "0 \<le> d" "s' = s\<lparr>ov_now := ov_now s + d\<rparr>"
  | enabled where "ev = Enable enabled" "s' = s\<lparr>ov_sink := bs_SetEnabled enabled (ov_sink s)\<rparr>"
  | "ev = Batch" "s' = s\<lparr>ov_sink := (ov_sink s)\<lparr>bs_batched := bs_batched (ov_sink s) + 1\<rparr>\<rparr>"
  using assms by (cases ev) (force split: if_splits option.splits send_phase.splits simp: Let_def)+

section \<open>One send alone\<close>

definition alone :: "base_sink \<Rightarrow> send_phase list \<Rightarrow> time \<Rightarrow> nat \<Rightarrow> overlap" where
  "alone b ps now n = \<lparr>ov_sink = b, ov_sends = ps, ov_now = now, ov_requests = n\<rparr>"

lemma alone_simps [simp]:
  "ov_sink (alone b ps now n) = b" "ov_sends (alone b ps now n) = ps" "ov_now (alone b ps now n) = now"
  "ov_requests (alone b ps now n) = n"
  by (simp_all add: alone_def)

lemma moved_alone [simp]:
  "moved i p b' (alone b ps now n) = alone b' (ps[i := p]) now n"
  "(alone b ps now n)\<lparr>ov_requests := m\<rparr> = alone b ps now m"
  "(alone b ps now n)\<lparr>ov_now := t\<rparr> = alone b ps t n"
  "(alone b ps now n)\<lparr>ov_sends := qs\<rparr> = alone b qs now n"
  by (simp_all add: moved_def alone_def)

lemma pass_step: "0 \<le> d \<Longrightarrow> t = now + d \<Longrightarrow> ov_step (alone b ps now n) (alone b ps t n)"
  unfolding ov_step_def by (rule exI[of _ "Pass d"]) simp

lemma attempt_step:
  assumes "i < length ps" "ps ! i = Posting k m" "int k \<le> wc_RetryCount (bs_config b)"
    "before_attempt k b h = (b1, h1)" "n' = n + (if made then 1 else 0)"
  shows "ov_step (alone b ps now n) (alone b1 (ps[i := Posting (Suc k) made]) now n')"
  unfolding ov_step_def
  by (rule exI[of _ "Attempt i made"]) (use assms in \<open>auto simp: phase_sends before_attempt_def Let_def phase_def\<close>)

lemma loop_is_run:
  assumes "\<forall>j. 0 \<le> snd (hv_answers h j)" "int left + int k = wc_RetryCount (bs_config b) + 1"
    "i < length ps" "ps ! i = Posting k m" "send_loop payload left k err b h = (r, b', h')"
  shows "ov_step\<^sup>*\<^sup>* (alone b ps (hv_clock h) n)
    (alone b' (ps[i := Returned]) (hv_clock h') (n + (length (hv_posts h') - length (hv_posts h)))) \<and>
    length (hv_posts h) \<le> length (hv_posts h')"
  using assms
proof (induction left arbitrary: k err b h ps n m)
  case 0
  have "ov_step (alone b ps (hv_clock h) n) (alone (send_failure (hv_clock h) b) (ps[i := Returned]) (hv_clock h) n)"
    unfolding ov_step_def by (rule exI[of _ "Fail i"]) (use 0 in \<open>simp add: phase_def\<close>)
  then show ?case using 0 by auto
next
  case (Suc left)
  let ?len = "\<lambda>h. length (hv_posts h)"
  obtain b1 h1 where b1: "before_attempt k b h = (b1, h1)" by force
  have f1: "hv_answers h1 = hv_answers h" "hv_posts h1 = hv_posts h" "hv_clock h \<le> hv_clock h1" "bs_config b1 = bs_config b"
    using b1 by (auto simp: before_attempt_def sleep_def split: if_splits)
  have k: "int k \<le> wc_RetryCount (bs_config b)" using Suc.prems(2) by simp
  have wait: "ov_step (alone b ps (hv_clock h) n) (alone b ps (hv_clock h1) n)"
    by (rule pass_step[of "hv_clock h1 - hv_clock h"]) (use f1 in simp_all)
  show ?case
  proof (cases "hv_reject h1 (wc_URL (bs_config b1))")
    case (Some e)
    let ?ps = "ps[i := Posting (Suc k) False]"
    have s: "ov_step (alone b ps (hv_clock h1) n) (alone b1 ?ps (hv_clock h1) n)"
      by (rule attempt_step[OF Suc.prems(3,4) k b1]) simp
    obtain err' where "send_loop payload left (Suc k) err' b1 h1 = (r, b', h')"
      using Suc.prems(5) b1 Some by auto
    moreover have "\<forall>j. 0 \<le> snd (hv_answers h1 j)" "int left + int (Suc k) = wc_RetryCount (bs_config b1) + 1"
      "i < length ?ps" "?ps ! i = Posting (Suc k) False"
      using Suc.prems f1 by simp_all
    ultimately have "ov_step\<^sup>*\<^sup>* (alone b1 ?ps (hv_clock h1) n) (alone b' (ps[i := Returned]) (hv_clock h') (n + (?len h' - ?len h))) \<and>
        ?len h \<le> ?len h'"
      using Suc.IH[of h1 "Suc k" b1 ?ps False err' n] unfolding f1(2) list_update_overwrite by blast
    with wait s show ?thesis by (meson converse_rtranclp_into_rtranclp)
  next
    case None
    let ?ps = "ps[i := Posting (Suc k) True]"
    obtain a h2 where a: "post payload h1 = (a, h2)" by force
    have f2: "hv_answers h2 = hv_answers h" "?len h2 = Suc (?len h)" "hv_clock h1 \<le> hv_clock h2"
      using a f1 Suc.prems(1) by (auto simp: post_def split: prod.splits) (metis snd_conv)
    have s: "ov_step (alone b ps (hv_clock h1) n) (alone b1 ?ps (hv_clock h1) (Suc n))"
      by (rule attempt_step[OF Suc.prems(3,4) k b1]) simp
    have t: "ov_step (alone b1 ?ps (hv_clock h1) (Suc n)) (alone b1 ?ps (hv_clock h2) (Suc n))"
      by (rule pass_step[of "hv_clock h2 - hv_clock h1"]) (use f2 in simp_all)
    have pre: "ov_step\<^sup>*\<^sup>* (alone b ps (hv_clock h) n) (alone b1 ?ps (hv_clock h2) (Suc n))"
      using wait s t by (meson converse_rtranclp_into_rtranclp rtranclp.rtrancl_refl)
    have fin: "ov_step (alone b1 ?ps (hv_clock h2) (Suc n)) (alone (send_success b1) (ps[i := Returned]) (hv_clock h2) (Suc n))"
      unfolding ov_step_def by (rule exI[of _ "Deliver i"]) (use Suc.prems in \<open>simp add: phase_def\<close>)
    have fin': "ov_step (alone b1 ?ps (hv_clock h2) (Suc n)) (alone (send_failure (hv_clock h2) b1) (ps[i := Returned]) (hv_clock h2) (Suc n))"
      unfolding ov_step_def by (rule exI[of _ "Fail i"]) (use Suc.prems in \<open>simp add: phase_def\<close>)
    consider "b' = send_success b1" "h' = h2" | "b' = send_failure (hv_clock h2) b1" "h' = h2"
      | err' where "send_loop payload left (Suc k) err' b1 h2 = (r, b', h')"
    proof (cases a)
      case (NoResponse e)
      then show ?thesis using that(3) Suc.prems(5) by (simp add: b1 None a)
    next
      case (Status code)
      let ?ok = "code \<ge> 200 \<and> code < 300" and ?no = "code \<ge> 400 \<and> code < 500 \<and> code \<noteq> 429"
      have eq: "(if ?ok then (None, send_success b1, h2)
          else if ?no then (Some (''webhook returned status '' @ show_nat code @ '' (non-retryable)''), send_failure (hv_clock h2) b1, h2)
          else send_loop payload left (Suc k) (''webhook returned status '' @ show_nat code) b1 h2) = (r, b', h')"
        using Suc.prems(5) by (simp only: send_loop.simps b1 None a Status Let_def prod.case option.case http_outcome.case Suc_eq_plus1[symmetric])
      consider "?ok" | "\<not> ?ok" "?no" | "\<not> ?ok" "\<not> ?no" by argo
      then show ?thesis
      proof cases
        case 1
        with eq show ?thesis by (intro that(1)) auto
      next
        case 2
        with eq show ?thesis by (intro that(2)) auto
      next
        case 3
        with eq show ?thesis by (intro that(3)) (simp only: if_False)
      qed
    qed
    then show ?thesis
    proof cases
      case 1
      then show ?thesis using pre fin f2(2) by (simp add: rtranclp.rtrancl_into_rtrancl)
    next
      case 2
      then show ?thesis using pre fin' f2(2) by (simp add: rtranclp.rtrancl_into_rtrancl)
    next
      case 3
      moreover have "\<forall>j. 0 \<le> snd (hv_answers h2 j)" "int left + int (Suc k) = wc_RetryCount (bs_config b1) + 1"
        "i < length ?ps" "?ps ! i = Posting (Suc k) True"
        using Suc.prems f1 f2 by simp_all
      ultimately have r: "ov_step\<^sup>*\<^sup>* (alone b1 ?ps (hv_clock h2) (Suc n)) (alone b' (ps[i := Returned]) (hv_clock h') (Suc n + (?len h' - ?len h2))) \<and>
          ?len h2 \<le> ?len h'"
        using Suc.IH[of h2 "Suc k" b1 ?ps True err' "Suc n"] unfolding list_update_overwrite by blast
      moreover have "Suc n + (?len h' - ?len h2) = n + (?len h' - ?len h)" "?len h \<le> ?len h'"
        using conjunct2[OF r] f2(2) by arith+
      ultimately show ?thesis using pre rtranclp_trans[OF pre] by metis
    qed
  qed
qed

text \<open>\<open>sendWithRetry\<close> is a run of the machine in which no other send moves.\<close>

lemma send_is_run:
  assumes "sendWithRetry payload b h = (r, b', h')" "\<forall>j. 0 \<le> snd (hv_answers h j)" "0 \<le> wc_RetryCount (bs_config b)"
  shows "ov_step\<^sup>*\<^sup>* (alone b ps (hv_clock h) n)
    (alone b' (ps @ [Returned]) (hv_clock h') (n + (length (hv_posts h') - length (hv_posts h))))"
proof -
  let ?at = "\<lambda>b p. alone b (ps @ [p]) (hv_clock h) n"
  have e: "ov_step (alone b ps (hv_clock h) n) (?at b (if bs_enabled b then Entered else Returned))"
    unfolding ov_step_def by (rule exI[of _ Enter]) simp
  consider "\<not> bs_enabled b" "b' = b" "h' = h"
    | "bs_enabled b" "admit (hv_clock h) b = None" "b' = b" "h' = h"
    | b0 where "bs_enabled b" "admit (hv_clock h) b = Some b0" "bs_config b0 = bs_config b"
        "send_loop payload (nat (wc_RetryCount (bs_config b) + 1)) 0 [] b0 h = (r, b', h')"
    using assms(1) by (cases b) (auto simp: sendWithRetry_def admit_def split: if_splits)
  then show ?thesis
  proof cases
    case 1
    then show ?thesis using e by auto
  next
    case 2
    have "ov_step (?at b Entered) (?at b Returned)"
      unfolding ov_step_def by (rule exI[of _ "Reject (length ps)"]) (use 2 in \<open>simp add: phase_def\<close>)
    then show ?thesis using e 2 by (auto intro: converse_rtranclp_into_rtranclp)
  next
    case 3
    have a: "ov_step (?at b Entered) (?at b0 (Posting 0 False))"
      unfolding ov_step_def by (rule exI[of _ "Admit (length ps)"]) (use 3 in \<open>simp add: phase_def\<close>)
    have "int (nat (wc_RetryCount (bs_config b) + 1)) + int 0 = wc_RetryCount (bs_config b0) + 1"
      "length ps < length (ps @ [Posting 0 False])" "(ps @ [Posting 0 False]) ! length ps = Posting 0 False"
      using assms(3) 3(3) by simp_all
    from loop_is_run[OF assms(2) this 3(4), of n]
    have "ov_step\<^sup>*\<^sup>* (?at b0 (Posting 0 False))
        (alone b' (ps @ [Returned]) (hv_clock h') (n + (length (hv_posts h') - length (hv_posts h))))"
      unfolding list_update_length by blast
    then show ?thesis using e a 3(1) by (auto intro: converse_rtranclp_into_rtranclp)
  qed
qed

section \<open>The breaker under overlapping sends\<close>

text \<open>While sends overlap a closed breaker can have any number of failures behind it: only one half of the
  invariant of sends that run alone is left.\<close>

definition overlap_inv :: "overlap \<Rightarrow> bool" where
  "overlap_inv s \<longleftrightarrow> bs_maxFailures (ov_sink s) = 5 \<and> 0 \<le> bs_consecutiveFailures (ov_sink s) \<and>
     (bs_circuitOpen (ov_sink s) \<longrightarrow> 5 \<le> bs_consecutiveFailures (ov_sink s)) \<and>
     0 < wc_RetryCount (bs_config (ov_sink s)) \<and> 0 < bs_circuitResetAfter (ov_sink s)"

lemma overlap_start: "overlap_inv (ov_start cfg now)"
  using new_sink_ok[of cfg] by (simp add: overlap_inv_def breaker_inv_def ov_start_def)

lemma overlap_step: "overlap_inv s \<Longrightarrow> ov_step s s' \<Longrightarrow> overlap_inv s'"
  unfolding ov_step_def
  by (elim exE, cases rule: ov_cases)
     (auto simp: overlap_inv_def admit_def send_success_def send_failure_def bs_SetEnabled_def Let_def split: if_splits)

interpretation overlapping: invariant_system "\<lambda>s. \<exists>cfg now. s = ov_start cfg now" ov_step overlap_inv
  by unfold_locales (use overlap_start overlap_step in auto)

text \<open>The requests the sends that were let through can still make.\<close>

fun allowance :: "int \<Rightarrow> send_phase \<Rightarrow> nat" where
  "allowance retries (Posting k _) = nat (retries + 1 - int k)"
| "allowance retries _ = 0"

definition budget :: "overlap \<Rightarrow> nat" where
  "budget s = sum_list (map (allowance (wc_RetryCount (bs_config (ov_sink s)))) (ov_sends s))"

definition rejecting :: "overlap \<Rightarrow> bool" where
  "rejecting s \<longleftrightarrow> bs_circuitOpen (ov_sink s) \<and>
     ov_now s - bs_lastFailureAt (ov_sink s) \<le> bs_circuitResetAfter (ov_sink s)"

lemma admit_rejecting: "admit (ov_now s) (ov_sink s) = None \<longleftrightarrow> rejecting s"
  by (simp add: admit_def rejecting_def)

lemma sum_list_moved:
  assumes "i < length xs"
  shows "sum_list (map f (xs[i := x])) + f (xs ! i) = sum_list (map f xs) + (f x :: nat)"
  using assms
proof (induction xs arbitrary: i)
  case (Cons y ys)
  then show ?case by (cases i) (auto simp: add.commute add.left_commute)
qed simp

lemma rejecting_step:
  assumes "rejecting s" "ov_step s s'"
  shows "ov_requests s' + budget s' \<le> ov_requests s + budget s"
proof -
  let ?f = "allowance (wc_RetryCount (bs_config (ov_sink s)))"
  obtain ev where "ov_do ev s = Some s'" using assms(2) unfolding ov_step_def by blast
  then show ?thesis
  proof (cases rule: ov_cases)
    case (admit i b)
    then show ?thesis using assms(1) admit_rejecting[of s] by simp
  next
    case (reject i)
    then show ?thesis using sum_list_moved[of i "ov_sends s" ?f Returned] by (simp add: budget_def phase_sends)
  next
    case (attempt i made k m b)
    have d: "?f (Posting (Suc k) made) + 1 = ?f (Posting k m)" using attempt(3) by simp
    have "bs_config b = bs_config (ov_sink s)" using attempt(4) by (simp split: if_splits)
    then have "budget s' = sum_list (map ?f ((ov_sends s)[i := Posting (Suc k) made]))"
      unfolding budget_def attempt(5) by simp
    moreover have "\<dots> + ?f (Posting k m) = budget s + ?f (Posting (Suc k) made)"
      using sum_list_moved[of i "ov_sends s" ?f "Posting (Suc k) made"] attempt(2)
      unfolding budget_def phase_sends by simp
    ultimately have "budget s' + 1 = budget s" using d by linarith
    moreover have "ov_requests s' \<le> ov_requests s + 1" by (simp add: attempt(5))
    ultimately show ?thesis by linarith
  next
    case (deliver i k)
    then show ?thesis using sum_list_moved[of i "ov_sends s" ?f Returned]
      by (simp add: budget_def phase_sends send_success_def)
  next
    case (fail i k made)
    then show ?thesis using sum_list_moved[of i "ov_sends s" ?f Returned]
      by (simp add: budget_def phase_sends send_failure_def Let_def)
  qed (simp_all add: budget_def bs_SetEnabled_def)
qed

definition shut_steps :: "overlap \<Rightarrow> overlap \<Rightarrow> bool" where
  "shut_steps = (\<lambda>s s'. rejecting s \<and> ov_step s s')\<^sup>*\<^sup>*"

lemma shut_bound: "shut_steps s s' \<Longrightarrow> ov_requests s' + budget s' \<le> ov_requests s + budget s"
  unfolding shut_steps_def by (induction rule: rtranclp_induct) (use rejecting_step in force)+

text \<open>Once the reset time has passed, any number of sends can enter, pass and post.\<close>

definition due :: "overlap \<Rightarrow> bool" where
  "due s \<longleftrightarrow> bs_enabled (ov_sink s) \<and> \<not> rejecting s \<and> 0 < wc_RetryCount (bs_config (ov_sink s))"

lemma one_more:
  assumes "due s"
  shows "\<exists>s'. ov_step\<^sup>*\<^sup>* s s' \<and> due s' \<and> ov_requests s' = Suc (ov_requests s) \<and>
    bs_consecutiveFailures (ov_sink s') = bs_consecutiveFailures (ov_sink s) \<and>
    ov_sends s' = ov_sends s @ [Posting 1 True]"
proof -
  obtain b where b: "admit (ov_now s) (ov_sink s) = Some b" using assms admit_rejecting[of s] by (auto simp: due_def)
  then have f: "bs_config b = bs_config (ov_sink s)" "bs_enabled b = bs_enabled (ov_sink s)" "\<not> bs_circuitOpen b"
    "bs_consecutiveFailures b = bs_consecutiveFailures (ov_sink s)"
    by (auto simp: admit_def split: if_splits)
  let ?i = "length (ov_sends s)"
  let ?s' = "s\<lparr>ov_sends := ov_sends s @ [Posting 1 True], ov_sink := b, ov_requests := Suc (ov_requests s)\<rparr>"
  have "ov_run [Enter, Admit ?i, Attempt ?i True] s = Some ?s'"
    using assms b f(1) by (simp add: due_def phase_def moved_def)
  then have "ov_step\<^sup>*\<^sup>* s ?s'" by (rule ov_run_steps)
  moreover have "due ?s'" using assms f by (simp add: due_def rejecting_def)
  ultimately show ?thesis using f(4) by (intro exI[of _ ?s']) simp
qed

lemma any_number:
  assumes "due s"
  shows "\<exists>s'. ov_step\<^sup>*\<^sup>* s s' \<and> due s' \<and> ov_requests s' = ov_requests s + n \<and>
    bs_consecutiveFailures (ov_sink s') = bs_consecutiveFailures (ov_sink s) \<and>
    ov_sends s' = ov_sends s @ replicate n (Posting 1 True)"
proof (induction n)
  case 0
  then show ?case using assms by auto
next
  case (Suc n)
  then obtain t where t: "ov_step\<^sup>*\<^sup>* s t" "due t" "ov_requests t = ov_requests s + n"
    "bs_consecutiveFailures (ov_sink t) = bs_consecutiveFailures (ov_sink s)"
    "ov_sends t = ov_sends s @ replicate n (Posting 1 True)" by blast
  from one_more[OF t(2)] show ?case using t
    by (auto intro: rtranclp_trans simp: replicate_append_same)
qed

lemma after_deliver:
  "ov_do (Deliver i) s = Some s' \<Longrightarrow> bs_consecutiveFailures (ov_sink s') = 0 \<and> \<not> bs_circuitOpen (ov_sink s')"
  by (auto simp: send_success_def split: option.splits send_phase.splits if_splits)

lemma after_fail:
  assumes "ov_do (Fail i) s = Some s'" "overlap_inv s"
  shows "bs_consecutiveFailures (ov_sink s') = bs_consecutiveFailures (ov_sink s) + 1 \<and>
    bs_lastFailureAt (ov_sink s') = ov_now s \<and>
    (bs_circuitOpen (ov_sink s') \<longleftrightarrow> 4 \<le> bs_consecutiveFailures (ov_sink s))"
proof -
  have "ov_sink s' = send_failure (ov_now s) (ov_sink s)"
    using assms(1) by (auto split: option.splits send_phase.splits if_splits)
  then show ?thesis using assms(2) by (auto simp: send_failure_def overlap_inv_def Let_def)
qed

section \<open>Properties\<close>

text \<open>C34: The circuit breaker, whatever sends of the sink overlap. In every state the sink can reach an open
  breaker has at least five failed sends in a row behind it. A send that has entered is refused exactly
  when the breaker is open and the reset time has not passed since the last failure. As long as it is
  so, requests come only from the sends let through before, at most their remaining attempts. A send
  that delivers clears the failures and closes the breaker, also one let through before it opened; one
  that fails counts one more, notes the time, and leaves the breaker open exactly when at least four in a
  row failed before it. Once the reset time has passed no single probe is awaited: the breaker closes and
  any number of sends can post before one of them has failed or delivered.\<close>

theorem breaker_behaviour:
  assumes "ov_step\<^sup>*\<^sup>* (ov_start cfg start) s"
  shows "(bs_circuitOpen (ov_sink s) \<longrightarrow> 5 \<le> bs_consecutiveFailures (ov_sink s)) \<and>
    (\<forall>i. phase i s = Some Entered \<longrightarrow>
       (ov_do (Reject i) s \<noteq> None \<longleftrightarrow> rejecting s) \<and> (ov_do (Admit i) s \<noteq> None \<longleftrightarrow> \<not> rejecting s)) \<and>
    (\<forall>s'. shut_steps s s' \<longrightarrow> ov_requests s' \<le> ov_requests s + budget s) \<and>
    (\<forall>i s'. ov_do (Deliver i) s = Some s' \<longrightarrow>
       bs_consecutiveFailures (ov_sink s') = 0 \<and> \<not> bs_circuitOpen (ov_sink s')) \<and>
    (\<forall>i s'. ov_do (Fail i) s = Some s' \<longrightarrow>
       bs_consecutiveFailures (ov_sink s') = bs_consecutiveFailures (ov_sink s) + 1 \<and>
       bs_lastFailureAt (ov_sink s') = ov_now s \<and>
       (bs_circuitOpen (ov_sink s') \<longleftrightarrow> 4 \<le> bs_consecutiveFailures (ov_sink s))) \<and>
    (bs_enabled (ov_sink s) \<and> \<not> rejecting s \<longrightarrow>
       (\<exists>s'. ov_step\<^sup>*\<^sup>* s s' \<and> ov_requests s' = ov_requests s + n \<and>
          bs_consecutiveFailures (ov_sink s') = bs_consecutiveFailures (ov_sink s)))"
proof -
  have i: "overlap_inv s" by (rule overlapping.reachable_inv[OF _ assms]) blast
  have "phase j s = Some Entered \<Longrightarrow>
      (ov_do (Reject j) s \<noteq> None \<longleftrightarrow> rejecting s) \<and> (ov_do (Admit j) s \<noteq> None \<longleftrightarrow> \<not> rejecting s)" for j
    using admit_rejecting[of s] by simp
  moreover have "shut_steps s s' \<Longrightarrow> ov_requests s' \<le> ov_requests s + budget s" for s'
    using shut_bound[of s s'] by simp
  moreover have "bs_enabled (ov_sink s) \<and> \<not> rejecting s \<Longrightarrow>
      \<exists>s'. ov_step\<^sup>*\<^sup>* s s' \<and> ov_requests s' = ov_requests s + n \<and>
        bs_consecutiveFailures (ov_sink s') = bs_consecutiveFailures (ov_sink s)"
    using any_number[of s n] i by (auto simp: due_def overlap_inv_def)
  moreover note after_deliver[of _ s] after_fail[of _ s, OF _ i]
  ultimately show ?thesis using i unfolding overlap_inv_def by blast
qed

text \<open>Seven alerts at once: six sends pass, five of them fail, the sixth is still posting, the seventh has
  entered and not yet looked at the breaker.\<close>

definition tripping :: "ov_event list" where
  "tripping = replicate 7 Enter @ map Admit [0, 1, 2, 3, 4, 5] @ map (\<lambda>i. Attempt i True) [0, 1, 2, 3, 4, 5] @
     map Fail [0, 1, 2, 3, 4]"

definition tripped :: overlap where
  "tripped = (case ov_run tripping (ov_start DefaultWebhookSinkConfig 0) of Some s \<Rightarrow> s | None \<Rightarrow> ov_start DefaultWebhookSinkConfig 0)"

lemma tripped_run: "ov_run tripping (ov_start DefaultWebhookSinkConfig 0) \<noteq> None"
  by code_simp

lemma tripped_facts:
  "phase 6 tripped = Some Entered" "rejecting tripped" "bs_consecutiveFailures (ov_sink tripped) = 5"
  "ov_do (Fail 5) tripped \<noteq> None"
  by code_simp+

theorem breaker_behaviour_witness:
  "ov_do (Reject 6) tripped \<noteq> None \<and>
   (\<exists>s'. ov_do (Fail 5) tripped = Some s' \<and> bs_consecutiveFailures (ov_sink s') = 6 \<and> bs_circuitOpen (ov_sink s'))"
proof -
  obtain s where s: "ov_run tripping (ov_start DefaultWebhookSinkConfig 0) = Some s" using tripped_run by blast
  then have "ov_step\<^sup>*\<^sup>* (ov_start DefaultWebhookSinkConfig 0) tripped" by (simp only: tripped_def option.case ov_run_steps)
  from breaker_behaviour[OF this, of 0] show ?thesis using tripped_facts by fastforce
qed

end
