(* ===== verification/Agent_Config.thy ===== *)
theory Agent_Config
  imports Webhook
begin

text \<open>
  The agent's configuration (\<open>pkg/agent/config.go\<close>): its sections, the defaults, loading, validation and
  the overrides of the command line. The environment (\<open>NODE_NAME\<close>, the host name), reading a file and
  the YAML library are arguments; the library gets the defaults, because \<open>Unmarshal\<close> overwrites only
  what the file names.
\<close>

section \<open>Sections\<close>

record agent_config =
  ga_Mode :: string
  ga_LogLevel :: string
  ga_RingBufferSizeMB :: int
  ga_K8sNodeName :: string
  ga_BPFObjectDir :: string
  ga_ProcFSPath :: string
  ga_SysFSPath :: string

record enrichment_config =
  ge_CRIEndpoint :: string
  ge_K8sNodeName :: string
  ge_PIDCacheSize :: int
  ge_PIDCacheTTL :: int
  ge_ProcFSPath :: string

record rules_config =
  gu_Paths :: "string list"
  gu_ReloadOnChange :: bool

record enforcement_config =
  gf_ProtectedNamespaces :: "string list"
  gf_MaxKillsPerPod :: int
  gf_WindowSeconds :: int
  gf_SimulateMinHours :: int

record output_config =
  go_AlertFile :: string
  go_WebhookURL :: string
  go_WebhookHeaders :: "string \<rightharpoonup> string"

record ai_config =
  gi_Enabled :: bool
  gi_Endpoint :: string
  gi_AnomalyThreshold :: real
  gi_LearningMode :: bool

record metrics_config =
  gm_Enabled :: bool
  gm_Port :: int

record sink_ref =
  wr_Type :: string
  wr_URL :: string
  wr_Headers :: "(string \<times> string) list"
  wr_RetryCount :: int
  wr_Timeout :: int
  wr_BatchSize :: int
  wr_TLSInsecureSkipVerify :: bool
  wr_Enabled :: bool
  wr_PagerDutyRoutingKey :: string
  wr_SlackChannel :: string
  wr_SlackUsername :: string

record webhook_section =
  gw_Port :: int
  gw_TLSCert :: string
  gw_TLSKey :: string
  gw_Sinks :: "sink_ref list"

record config =
  cg_Agent :: agent_config
  cg_Enrichment :: enrichment_config
  cg_Rules :: rules_config
  cg_Enforcement :: enforcement_config
  cg_Output :: output_config
  cg_AI :: ai_config
  cg_Metrics :: metrics_config
  cg_Webhook :: webhook_section
  cg_Version :: string

section \<open>Defaults and loading\<close>

definition DefaultConfig :: "string \<Rightarrow> string \<Rightarrow> config" where
  "DefaultConfig node_env hostname =
    (let nodeName = (if node_env = [] then hostname else node_env) in
     \<lparr>cg_Agent = \<lparr>ga_Mode = ''audit'', ga_LogLevel = ''info'', ga_RingBufferSizeMB = 4, ga_K8sNodeName = nodeName,
        ga_BPFObjectDir = ''/opt/scarlet/bpf'', ga_ProcFSPath = ''/host/proc'', ga_SysFSPath = ''/sys/kernel/debug''\<rparr>,
      cg_Enrichment = \<lparr>ge_CRIEndpoint = ''/run/containerd/containerd.sock'', ge_K8sNodeName = nodeName,
        ge_PIDCacheSize = 10000, ge_PIDCacheTTL = 300, ge_ProcFSPath = ''/host/proc''\<rparr>,
      cg_Rules = \<lparr>gu_Paths = [''/etc/scarlet/rules.d/''], gu_ReloadOnChange = True\<rparr>,
      cg_Enforcement = \<lparr>gf_ProtectedNamespaces = [''kube-system'', ''kube-public''], gf_MaxKillsPerPod = 10,
        gf_WindowSeconds = 60, gf_SimulateMinHours = 48\<rparr>,
      cg_Output = \<lparr>go_AlertFile = ''/var/log/scarlet/alerts.jsonl'', go_WebhookURL = [], go_WebhookHeaders = Map.empty\<rparr>,
      cg_AI = \<lparr>gi_Enabled = False, gi_Endpoint = ''scarlet-ai:9443'', gi_AnomalyThreshold = 8 / 10, gi_LearningMode = False\<rparr>,
      cg_Metrics = \<lparr>gm_Enabled = True, gm_Port = 9090\<rparr>,
      cg_Webhook = \<lparr>gw_Port = 8443, gw_TLSCert = ''/etc/scarlet/tls/tls.crt'', gw_TLSKey = ''/etc/scarlet/tls/tls.key'',
        gw_Sinks = []\<rparr>,
      cg_Version = []\<rparr>)"

definition LoadConfig :: "(string \<Rightarrow> string + string) \<Rightarrow> (string \<Rightarrow> config \<Rightarrow> string + config) \<Rightarrow> config \<Rightarrow> string \<Rightarrow> string + config" where
  "LoadConfig readFile unmarshal defaults path =
    (case readFile path of
       Inl err \<Rightarrow> Inl (''failed to read config file '' @ path @ '': '' @ err)
     | Inr data \<Rightarrow>
         (case unmarshal data defaults of
            Inl err \<Rightarrow> Inl (''failed to parse config file '' @ path @ '': '' @ err)
          | Inr cfg \<Rightarrow> Inr cfg))"

section \<open>Validation\<close>

text \<open>The numbers in the messages are formatted by \<open>fmt\<close> and \<open>fmt_float\<close>.\<close>

definition Validate :: "(int \<Rightarrow> string) \<Rightarrow> (real \<Rightarrow> string) \<Rightarrow> config \<Rightarrow> string option" where
  "Validate fmt fmt_float c =
    (if ga_Mode (cg_Agent c) \<notin> {''audit'', ''enforce'', ''simulate''} then Some (''invalid agent mode: '' @ ga_Mode (cg_Agent c))
     else if ga_RingBufferSizeMB (cg_Agent c) < 1 \<or> ga_RingBufferSizeMB (cg_Agent c) > 64 then
       Some (''ring buffer size must be between 1 and 64 MB, got '' @ fmt (ga_RingBufferSizeMB (cg_Agent c)))
     else if gf_MaxKillsPerPod (cg_Enforcement c) < 1 then
       Some (''max_kills_per_pod must be >= 1, got '' @ fmt (gf_MaxKillsPerPod (cg_Enforcement c)))
     else if gf_WindowSeconds (cg_Enforcement c) < 1 then
       Some (''window_seconds must be >= 1, got '' @ fmt (gf_WindowSeconds (cg_Enforcement c)))
     else if gf_SimulateMinHours (cg_Enforcement c) < 0 then
       Some (''simulate_minimum_hours must be >= 0, got '' @ fmt (gf_SimulateMinHours (cg_Enforcement c)))
     else if gm_Port (cg_Metrics c) < 1 \<or> gm_Port (cg_Metrics c) > 65535 then
       Some (''invalid metrics port: '' @ fmt (gm_Port (cg_Metrics c)))
     else if gi_Enabled (cg_AI c) then
       (if gi_Endpoint (cg_AI c) = [] then Some ''AI endpoint must be specified when AI is enabled''
        else if gi_AnomalyThreshold (cg_AI c) < 0 \<or> gi_AnomalyThreshold (cg_AI c) > 1 then
          Some (''anomaly_threshold must be between 0 and 1, got '' @ fmt_float (gi_AnomalyThreshold (cg_AI c)))
        else None)
     else None)"

definition ApplyOverrides :: "string \<Rightarrow> string \<Rightarrow> bool \<Rightarrow> config \<Rightarrow> config" where
  "ApplyOverrides mode rulesPath verbose c =
    (let c = (if mode \<noteq> [] then c\<lparr>cg_Agent := (cg_Agent c)\<lparr>ga_Mode := mode\<rparr>\<rparr> else c);
         c = (if rulesPath \<noteq> [] then c\<lparr>cg_Rules := (cg_Rules c)\<lparr>gu_Paths := [rulesPath]\<rparr>\<rparr> else c)
     in if verbose then c\<lparr>cg_Agent := (cg_Agent c)\<lparr>ga_LogLevel := ''debug''\<rparr>\<rparr> else c)"

text \<open>\<open>time.Duration(n) * unit\<close>, in 64 bits.\<close>

definition to_duration :: "int \<Rightarrow> duration \<Rightarrow> duration" where
  "to_duration n unit = sint (word_of_int n * word_of_int unit :: 64 word)"

definition SimulateMinimumDuration :: "config \<Rightarrow> duration" where
  "SimulateMinimumDuration c = to_duration (gf_SimulateMinHours (cg_Enforcement c)) (Seconds 3600)"

lemma valid_default: "Validate fmt fmt_float (DefaultConfig node_env hostname) = None"
  by (simp add: Validate_def DefaultConfig_def Let_def)

text \<open>A valid configuration stays valid under the flags exactly when the mode flag is a mode.\<close>

lemma overrides_valid:
  assumes "Validate fmt fmt_float c = None"
  shows "Validate fmt fmt_float (ApplyOverrides mode rulesPath verbose c) = None \<longleftrightarrow>
    mode \<in> {[], ''audit'', ''enforce'', ''simulate''}"
  using assms by (auto simp: Validate_def ApplyOverrides_def Let_def split: if_splits)

text \<open>A minimum that passes validation may be a negative duration.\<close>

lemma simulate_minimum_wraps:
  "SimulateMinimumDuration (c\<lparr>cg_Enforcement := (cg_Enforcement c)\<lparr>gf_SimulateMinHours := 2562048\<rparr>\<rparr>) < 0"
  by (simp add: SimulateMinimumDuration_def to_duration_def)

end
