(* ===== verification/Webhook_Sinks.thy ===== *)
theory Webhook_Sinks
  imports Webhook
begin

text \<open>
  The three kinds of webhook sinks of \<open>pkg/output/webhook.go\<close> and their manager. JSON encoding of a body,
  the printing of a number with two decimals and the two time formats are arguments (\<open>formats\<close>). The
  manager's goroutines are the sends of one alert to one sink each; \<open>wm_Send\<close> runs them in the order of
  the sinks, \<open>send_to\<close> is one of them.
\<close>

section \<open>Bodies\<close>

record slack_field =
  sf_Title :: string
  sf_Value :: string
  sf_Short :: bool

record slack_attachment =
  sa_Color :: string
  sa_Title :: string
  sa_Text :: string
  sa_Fields :: "slack_field list"
  sa_MrkdwnIn :: "string list"
  sa_Footer :: string
  sa_Ts :: int

record slack_payload =
  sk_Channel :: string
  sk_Username :: string
  sk_IconEmoji :: string
  sk_Text :: string
  sk_Attachments :: "slack_attachment list"

record pagerduty_payload =
  pd_RoutingKey :: string
  pd_EventAction :: string
  pd_DedupKey :: string
  pd_Severity :: string
  pd_Source :: string
  pd_Component :: string
  pd_Group :: string
  pd_Class :: string
  pd_Summary :: string
  pd_Timestamp :: string
  pd_CustomDetails :: "string \<rightharpoonup> string"

datatype body = SlackBody slack_payload | PagerDutyBody pagerduty_payload | AlertBody alert | AlertsBody "alert list"

record formats =
  fm_marshal :: "body \<Rightarrow> string + string"
  fm_fixed2 :: "real \<Rightarrow> string"
  fm_unix :: "time \<Rightarrow> int"
  fm_rfc3339 :: "time \<Rightarrow> string"

type_synonym sink_result = "string option \<times> base_sink \<times> http_env"

section \<open>Slack\<close>

definition priorityColor :: "string \<Rightarrow> string" where
  "priorityColor priority =
    (if priority = ''critical'' then ''#ff0000'' else if priority = ''error'' then ''#ff6600''
     else if priority = ''warning'' then ''#ffcc00'' else if priority = ''info'' then ''#3399ff'' else ''#cccccc'')"

definition priorityEmoji :: "string \<Rightarrow> string" where
  "priorityEmoji priority =
    (if priority = ''critical'' then '':rotating_light:'' else if priority = ''error'' then '':x:''
     else if priority = ''warning'' then '':warning:'' else if priority = ''info'' then '':information_source:''
     else '':grey_question:'')"

definition short_field :: "string \<Rightarrow> string \<Rightarrow> slack_field" where
  "short_field title val = \<lparr>sf_Title = title, sf_Value = val, sf_Short = True\<rparr>"

definition optional_field :: "string \<Rightarrow> string \<Rightarrow> slack_field list" where
  "optional_field title val = (if val \<noteq> [] then [short_field title val] else [])"

definition buildAttachment :: "formats \<Rightarrow> alert \<Rightarrow> slack_attachment" where
  "buildAttachment fm a =
    \<lparr>sa_Color = priorityColor (al_Priority a), sa_Title = ''['' @ al_RuleID a @ ''] '' @ al_RuleName a, sa_Text = al_Output a,
     sa_Fields =
       [short_field ''Priority'' (al_Priority a), short_field ''Action'' (al_Action a),
        short_field ''Process'' (al_ProcessName a), short_field ''PID'' (show_word (al_PID a))] @
       optional_field ''Container'' (al_ContainerName a) @ optional_field ''Namespace'' (al_Namespace a) @
       optional_field ''Pod'' (al_PodName a) @ optional_field ''Image'' (al_ContainerImage a) @
       (if al_RemoteIP a \<noteq> [] then [short_field ''Remote'' (al_RemoteIP a @ '':'' @ show_word (al_RemotePort a))] else []) @
       (if al_AnomalyScore a > 0 then [short_field ''Anomaly'' (fm_fixed2 fm (al_AnomalyScore a))] else []) @
       (case al_CorrelationResult a of
          None \<Rightarrow> []
        | Some c \<Rightarrow> [short_field ''Correlation'' (ca_RuleID c),
            short_field ''Signals'' (show_nat (ca_MatchedSignals c) @ '' matched'')]),
     sa_MrkdwnIn = [''text''], sa_Footer = ''SecurityScarlet Runtime'', sa_Ts = fm_unix fm (al_Timestamp a)\<rparr>"

definition buildPayload :: "formats \<Rightarrow> webhook_config \<Rightarrow> alert list \<Rightarrow> slack_payload" where
  "buildPayload fm cfg alerts =
    (let (emoji, summary) = (case alerts of
            [a] \<Rightarrow> (priorityEmoji (al_Priority a), ''Security alert: '' @ al_RuleName a)
          | _ \<Rightarrow> ('':rotating_light:'', show_nat (length alerts) @ '' security alert(s)''))
     in \<lparr>sk_Channel = wc_SlackChannel cfg,
         sk_Username = (if wc_SlackUsername cfg = [] then ''SecurityScarlet'' else wc_SlackUsername cfg), sk_IconEmoji = [],
         sk_Text = emoji @ '' '' @ summary, sk_Attachments = map (buildAttachment fm) alerts\<rparr>)"

definition send_body :: "formats \<Rightarrow> string \<Rightarrow> body \<Rightarrow> base_sink \<Rightarrow> http_env \<Rightarrow> sink_result" where
  "send_body fm what bd b h =
    (case fm_marshal fm bd of
       Inl err \<Rightarrow> (Some (''failed to marshal '' @ what @ '': '' @ err), b, h)
     | Inr data \<Rightarrow> sendWithRetry data b h)"

definition count_batch :: "alert list \<Rightarrow> base_sink \<Rightarrow> base_sink" where
  "count_batch alerts b = (if length alerts > 1 then b\<lparr>bs_batched := bs_batched b + 1\<rparr> else b)"

text \<open>\<open>Send\<close> on at most 20 alerts, the loop over chunks of 20, and \<open>Send\<close>.\<close>

definition slack_chunk :: "formats \<Rightarrow> alert list \<Rightarrow> base_sink \<Rightarrow> http_env \<Rightarrow> sink_result" where
  "slack_chunk fm alerts b h =
    (if \<not> bs_enabled b then (None, b, h)
     else send_body fm ''Slack payload'' (SlackBody (buildPayload fm (bs_config b) alerts)) (count_batch alerts b) h)"

function slack_loop :: "formats \<Rightarrow> alert list \<Rightarrow> base_sink \<Rightarrow> http_env \<Rightarrow> sink_result" where
  "slack_loop fm alerts b h =
    (if alerts = [] then (None, b, h)
     else (case slack_chunk fm (take 20 alerts) b h of
             (Some err, b, h) \<Rightarrow> (Some err, b, h)
           | (None, b, h) \<Rightarrow> slack_loop fm (drop 20 alerts) b h))"
  by pat_completeness auto
termination by (relation "measure (\<lambda>(fm, alerts, b, h). length alerts)") auto

declare slack_loop.simps [simp del]

definition slack_Send :: "formats \<Rightarrow> alert list \<Rightarrow> base_sink \<Rightarrow> http_env \<Rightarrow> sink_result" where
  "slack_Send fm alerts b h =
    (if \<not> bs_enabled b then (None, b, h)
     else if length alerts > 20 then slack_loop fm alerts b h else slack_chunk fm alerts b h)"

section \<open>PagerDuty\<close>

definition alertPriorityToPagerDutySeverity :: "string \<Rightarrow> string" where
  "alertPriorityToPagerDutySeverity priority =
    (let p = to_lower priority in
     if p = ''critical'' then ''critical'' else if p = ''error'' then ''error'' else if p = ''warning'' then ''warning''
     else if p = ''info'' then ''info'' else ''warning'')"

definition dedup_key :: "alert \<Rightarrow> string" where
  "dedup_key a =
    (if al_ContainerID a = [] then ''scarlet:'' @ al_RuleID a @ '':pid-'' @ show_word (al_PID a)
     else ''scarlet:'' @ al_RuleID a @ '':'' @ al_ContainerID a)"

definition event_summary :: "string \<Rightarrow> string" where
  "event_summary summary = (if length summary > 1024 then take 1021 summary @ ''...'' else summary)"

definition custom_details :: "formats \<Rightarrow> alert \<Rightarrow> string \<rightharpoonup> string" where
  "custom_details fm a =
    (let d = [''rule_id'' \<mapsto> al_RuleID a, ''rule_name'' \<mapsto> al_RuleName a, ''priority'' \<mapsto> al_Priority a, ''action'' \<mapsto> al_Action a,
              ''process'' \<mapsto> al_ProcessName a, ''pid'' \<mapsto> show_word (al_PID a), ''category'' \<mapsto> al_Category a,
              ''event_type'' \<mapsto> al_EventType a];
         d = (if al_ContainerName a \<noteq> [] then d(''container_name'' \<mapsto> al_ContainerName a) else d);
         d = (if al_Namespace a \<noteq> [] then d(''namespace'' \<mapsto> al_Namespace a) else d);
         d = (if al_PodName a \<noteq> [] then d(''pod'' \<mapsto> al_PodName a) else d);
         d = (if al_RemoteIP a \<noteq> [] then d(''remote_ip'' \<mapsto> al_RemoteIP a, ''remote_port'' \<mapsto> show_word (al_RemotePort a)) else d);
         d = (if al_AnomalyScore a > 0 then d(''anomaly_score'' \<mapsto> fm_fixed2 fm (al_AnomalyScore a)) else d)
     in case al_CorrelationResult a of
          None \<Rightarrow> d
        | Some c \<Rightarrow> d(''correlation_rule'' \<mapsto> ca_RuleID c, ''matched_signals'' \<mapsto> show_nat (ca_MatchedSignals c)))"

definition buildEvent :: "formats \<Rightarrow> webhook_config \<Rightarrow> alert \<Rightarrow> pagerduty_payload" where
  "buildEvent fm cfg a =
    \<lparr>pd_RoutingKey = wc_PagerDutyRoutingKey cfg, pd_EventAction = ''trigger'', pd_DedupKey = dedup_key a,
     pd_Severity = alertPriorityToPagerDutySeverity (al_Priority a),
     pd_Source = (if al_NodeName a \<noteq> [] then al_NodeName a else ''SecurityScarlet Runtime''),
     pd_Component = ''container-runtime'', pd_Group = [], pd_Class = al_Category a, pd_Summary = event_summary (al_Output a),
     pd_Timestamp = fm_rfc3339 fm (al_Timestamp a), pd_CustomDetails = custom_details fm a\<rparr>"

definition pagerduty_SendSingle :: "formats \<Rightarrow> alert \<Rightarrow> base_sink \<Rightarrow> http_env \<Rightarrow> sink_result" where
  "pagerduty_SendSingle fm a b h =
    (if \<not> bs_enabled b then (None, b, h)
     else send_body fm ''PagerDuty payload'' (PagerDutyBody (buildEvent fm (bs_config b) a)) b h)"

fun pagerduty_loop :: "formats \<Rightarrow> alert list \<Rightarrow> string option \<Rightarrow> base_sink \<Rightarrow> http_env \<Rightarrow> sink_result" where
  "pagerduty_loop fm [] lastErr b h = (lastErr, b, h)"
| "pagerduty_loop fm (a # as) lastErr b h =
     (case pagerduty_SendSingle fm a b h of
        (None, b, h) \<Rightarrow> pagerduty_loop fm as lastErr b h
      | (Some err, b, h) \<Rightarrow> pagerduty_loop fm as (Some err) b h)"

definition pagerduty_Send :: "formats \<Rightarrow> alert list \<Rightarrow> base_sink \<Rightarrow> http_env \<Rightarrow> sink_result" where
  "pagerduty_Send fm alerts b h = (if \<not> bs_enabled b then (None, b, h) else pagerduty_loop fm alerts None b h)"

section \<open>Generic\<close>

definition generic_Send :: "formats \<Rightarrow> alert list \<Rightarrow> base_sink \<Rightarrow> http_env \<Rightarrow> sink_result" where
  "generic_Send fm alerts b h =
    (if \<not> bs_enabled b then (None, b, h)
     else (case alerts of
             [] \<Rightarrow> (None, b, h)
           | [a] \<Rightarrow> send_body fm ''alert'' (AlertBody a) b h
           | _ \<Rightarrow> send_body fm ''alerts'' (AlertsBody alerts) (count_batch alerts b) h))"

section \<open>The manager\<close>

text \<open>A sink is its kind and its base; an endpoint per sink.\<close>

datatype sink_kind = Slack | PagerDuty | Generic

definition NewWebhookSink :: "webhook_config \<Rightarrow> string + sink_kind \<times> base_sink" where
  "NewWebhookSink cfg =
    (if wc_Type cfg = WebhookSinkSlack then Inr (Slack, newBaseWebhookSink cfg)
     else if wc_Type cfg = WebhookSinkPagerDuty then Inr (PagerDuty, newBaseWebhookSink cfg)
     else if wc_Type cfg = WebhookSinkGeneric then Inr (Generic, newBaseWebhookSink cfg)
     else Inl (''unknown webhook sink type: '' @ wc_Type cfg))"

fun NewWebhookManager :: "webhook_config list \<Rightarrow> (sink_kind \<times> base_sink) list" where
  "NewWebhookManager [] = []"
| "NewWebhookManager (cfg # cfgs) =
     (if \<not> wc_Enabled cfg \<or> wc_URL cfg = [] then NewWebhookManager cfgs
      else (case NewWebhookSink cfg of
              Inl err \<Rightarrow> NewWebhookManager cfgs
            | Inr sink \<Rightarrow> sink # NewWebhookManager cfgs))"

definition SendSingle :: "formats \<Rightarrow> alert \<Rightarrow> sink_kind \<Rightarrow> base_sink \<Rightarrow> http_env \<Rightarrow> sink_result" where
  "SendSingle fm a kind b h =
    (case kind of Slack \<Rightarrow> slack_Send fm [a] b h | PagerDuty \<Rightarrow> pagerduty_SendSingle fm a b h | Generic \<Rightarrow> generic_Send fm [a] b h)"

text \<open>The goroutine of one sink: an error is logged.\<close>

definition send_to :: "formats \<Rightarrow> alert \<Rightarrow> (sink_kind \<times> base_sink) \<times> http_env \<Rightarrow> (sink_kind \<times> base_sink) \<times> http_env" where
  "send_to fm a s = (case s of ((kind, b), h) \<Rightarrow> (case SendSingle fm a kind b h of (r, b, h) \<Rightarrow> ((kind, b), h)))"

definition wm_Send :: "formats \<Rightarrow> alert \<Rightarrow> ((sink_kind \<times> base_sink) \<times> http_env) list \<Rightarrow> ((sink_kind \<times> base_sink) \<times> http_env) list" where
  "wm_Send fm a sinks = map (send_to fm a) sinks"

fun RemoveSink :: "string \<Rightarrow> (sink_kind \<times> base_sink) list \<Rightarrow> (sink_kind \<times> base_sink) list" where
  "RemoveSink url [] = []"
| "RemoveSink url (s # ss) = (if wc_URL (bs_config (snd s)) = url then ss else s # RemoveSink url ss)"

definition AddSink :: "sink_kind \<times> base_sink \<Rightarrow> (sink_kind \<times> base_sink) list \<Rightarrow> (sink_kind \<times> base_sink) list" where
  "AddSink s sinks = sinks @ [s]"

definition wm_Close :: "(sink_kind \<times> base_sink) list \<Rightarrow> (sink_kind \<times> base_sink) list" where
  "wm_Close sinks = []"

record webhook_stats =
  ws_URL :: string
  ws_Type :: string
  ws_Enabled :: bool
  ws_Sent :: int
  ws_Failed :: int
  ws_Retried :: int
  ws_Batched :: int
  ws_CircuitOpen :: bool

definition bs_Stats :: "base_sink \<Rightarrow> webhook_stats" where
  "bs_Stats b =
    \<lparr>ws_URL = wc_URL (bs_config b), ws_Type = wc_Type (bs_config b), ws_Enabled = bs_enabled b, ws_Sent = bs_sent b,
     ws_Failed = bs_failed b, ws_Retried = bs_retried b, ws_Batched = bs_batched b, ws_CircuitOpen = bs_circuitOpen b\<rparr>"

definition wm_Stats :: "(sink_kind \<times> base_sink) list \<Rightarrow> webhook_stats list" where
  "wm_Stats sinks = map (\<lambda>s. bs_Stats (snd s)) sinks"

section \<open>Delivery\<close>

function chunks :: "'a list \<Rightarrow> 'a list list" where
  "chunks xs = (if xs = [] then [] else take 20 xs # chunks (drop 20 xs))"
  by pat_completeness auto
termination by (relation "measure length") auto

declare chunks.simps [simp del]

lemma chunks_Nil [simp]: "chunks [] = []"
  by (simp add: chunks.simps)

lemma chunks_single: "xs \<noteq> [] \<Longrightarrow> length xs \<le> 20 \<Longrightarrow> chunks xs = [xs]"
  by (subst chunks.simps) simp

lemma concat_chunks: "concat (chunks xs) = xs"
  by (induction xs rule: chunks.induct) (subst chunks.simps, simp)

lemma chunks_length: "c \<in> set (chunks xs) \<Longrightarrow> c \<noteq> [] \<and> length c \<le> 20"
proof (induction xs rule: chunks.induct)
  case (1 xs)
  then show ?case by (subst (asm) (2) chunks.simps) (auto split: if_splits)
qed

text \<open>An endpoint that accepts everything, and a sink that lets everything through.\<close>

definition healthy :: "base_sink \<Rightarrow> http_env \<Rightarrow> bool" where
  "healthy b h \<longleftrightarrow> bs_enabled b \<and> \<not> bs_circuitOpen b \<and> 0 < wc_RetryCount (bs_config b) \<and>
     hv_reject h (wc_URL (bs_config b)) = None \<and> (\<forall>i. fst (hv_answers h i) = Status 200)"

lemma healthy_batch [simp]: "healthy (count_batch as b) h = healthy b h" "bs_config (count_batch as b) = bs_config b"
  by (simp_all add: healthy_def count_batch_def)

lemma healthy_send:
  assumes "healthy b h"
  obtains b' h' where "sendWithRetry payload b h = (None, b', h')" "healthy b' h'" "hv_posts h' = hv_posts h @ [payload]"
    "bs_config b' = bs_config b"
proof -
  obtain n where n: "nat (wc_RetryCount (bs_config b) + 1) = Suc n"
    using assms by (cases "nat (wc_RetryCount (bs_config b) + 1)") (auto simp: healthy_def)
  let ?b = "b\<lparr>bs_circuitOpen := False\<rparr>"
  have "sendWithRetry payload b h = (None, send_success ?b, snd (post payload h))"
    using assms by (simp add: healthy_def sendWithRetry_def n before_attempt_def post_def case_prod_beta Let_def)
  moreover have "healthy (send_success ?b) (snd (post payload h))"
    using assms by (auto simp: healthy_def send_success_def post_def Let_def case_prod_beta)
  ultimately show ?thesis by (rule that) (simp_all add: post_def send_success_def case_prod_beta Let_def)
qed

definition slack_message :: "formats \<Rightarrow> (body \<Rightarrow> string) \<Rightarrow> webhook_config \<Rightarrow> alert list \<Rightarrow> string" where
  "slack_message fm enc cfg alerts = enc (SlackBody (buildPayload fm cfg alerts))"

lemma healthy_chunk:
  assumes "healthy b h" "fm_marshal fm = Inr \<circ> enc"
  obtains b' h' where "slack_chunk fm alerts b h = (None, b', h')" "healthy b' h'"
    "hv_posts h' = hv_posts h @ [slack_message fm enc (bs_config b) alerts]" "bs_config b' = bs_config b"
proof -
  have e: "bs_enabled b" using assms(1) by (simp add: healthy_def)
  have "healthy (count_batch alerts b) h" using assms(1) by simp
  from healthy_send[OF this, of "slack_message fm enc (bs_config b) alerts"] show ?thesis
    using that e by (auto simp: slack_chunk_def send_body_def slack_message_def assms(2))
qed

lemma healthy_loop:
  "healthy b h \<Longrightarrow> fm_marshal fm = Inr \<circ> enc \<Longrightarrow>
     \<exists>b' h'. slack_loop fm alerts b h = (None, b', h') \<and>
       hv_posts h' = hv_posts h @ map (slack_message fm enc (bs_config b)) (chunks alerts)"
proof (induction "length alerts" arbitrary: alerts b h rule: less_induct)
  case less
  show ?case
  proof (cases "alerts = []")
    case False
    obtain b1 h1 where c: "slack_chunk fm (take 20 alerts) b h = (None, b1, h1)" "healthy b1 h1"
      "hv_posts h1 = hv_posts h @ [slack_message fm enc (bs_config b) (take 20 alerts)]" "bs_config b1 = bs_config b"
      using healthy_chunk[OF less.prems] by blast
    have "length (drop 20 alerts) < length alerts" using False by simp
    from less.hyps[OF this c(2) less.prems(2)] show ?thesis
      using False c by (subst slack_loop.simps, subst chunks.simps) auto
  qed (simp add: slack_loop.simps)
qed

text \<open>A Slack sink delivers every alert once and in order. When the endpoint accepts every message, a
  send succeeds and posts one message for each group of at most 20 consecutive alerts, which together
  are all the alerts in their order.\<close>

theorem slack_delivers_all:
  assumes "healthy b h" and "fm_marshal fm = Inr \<circ> enc" and "alerts \<noteq> []" and "slack_Send fm alerts b h = (r, b', h')"
  shows "r = None \<and> (\<exists>groups. hv_posts h' = hv_posts h @ map (slack_message fm enc (bs_config b)) groups \<and>
    concat groups = alerts \<and> (\<forall>g\<in>set groups. g \<noteq> [] \<and> length g \<le> 20))"
proof -
  have e: "bs_enabled b" using assms(1) by (simp add: healthy_def)
  have "r = None \<and> hv_posts h' = hv_posts h @ map (slack_message fm enc (bs_config b)) (chunks alerts)"
  proof (cases "20 < length alerts")
    case True
    then show ?thesis using healthy_loop[OF assms(1,2), of alerts] assms(4) e by (auto simp: slack_Send_def)
  next
    case False
    obtain b1 h1 where "slack_chunk fm alerts b h = (None, b1, h1)"
      "hv_posts h1 = hv_posts h @ [slack_message fm enc (bs_config b) alerts]"
      using healthy_chunk[OF assms(1,2)] by blast
    then show ?thesis using False assms(3,4) e chunks_single[of alerts] by (simp add: slack_Send_def)
  qed
  then show ?thesis using concat_chunks[of alerts] chunks_length[of _ alerts] by blast
qed

text \<open>Priorities are written in upper case, which the colours and emojis do not know.\<close>

lemma priorities_are_gray:
  "\<forall>p\<in>set (map fst PriorityOrder). priorityColor p = ''#cccccc'' \<and> priorityEmoji p = '':grey_question:''"
  by (simp add: PriorityOrder_def priorityColor_def priorityEmoji_def)

lemma severities: "alertPriorityToPagerDutySeverity p \<in> {''critical'', ''error'', ''warning'', ''info''}"
  by (simp add: alertPriorityToPagerDutySeverity_def Let_def)

lemma summary_fits: "length (event_summary s) \<le> 1024"
  by (simp add: event_summary_def)

text \<open>Every sink of a manager is enabled, has a URL and a working breaker.\<close>

lemma new_sink_fields: "wc_URL (bs_config (newBaseWebhookSink cfg)) = wc_URL cfg" "bs_enabled (newBaseWebhookSink cfg) = wc_Enabled cfg"
proof -
  have f: "wc_URL (if c then g\<lparr>wc_RetryCount := i\<rparr> else g) = wc_URL g" "wc_URL (if c then g\<lparr>wc_RetryDelay := i\<rparr> else g) = wc_URL g"
    "wc_URL (if c then g\<lparr>wc_Timeout := i\<rparr> else g) = wc_URL g" "wc_URL (if c then g\<lparr>wc_BatchSize := i\<rparr> else g) = wc_URL g"
    "wc_URL (if c then g\<lparr>wc_BatchInterval := i\<rparr> else g) = wc_URL g" "wc_URL (if c then g\<lparr>wc_TLSMinVersion := v\<rparr> else g) = wc_URL g"
    for c g i v by simp_all
  show "wc_URL (bs_config (newBaseWebhookSink cfg)) = wc_URL cfg"
    by (simp only: newBaseWebhookSink_def Let_def base_sink.select_convs f)
  have f: "wc_Enabled (if c then g\<lparr>wc_RetryCount := i\<rparr> else g) = wc_Enabled g" "wc_Enabled (if c then g\<lparr>wc_RetryDelay := i\<rparr> else g) = wc_Enabled g"
    "wc_Enabled (if c then g\<lparr>wc_Timeout := i\<rparr> else g) = wc_Enabled g" "wc_Enabled (if c then g\<lparr>wc_BatchSize := i\<rparr> else g) = wc_Enabled g"
    "wc_Enabled (if c then g\<lparr>wc_BatchInterval := i\<rparr> else g) = wc_Enabled g" "wc_Enabled (if c then g\<lparr>wc_TLSMinVersion := v\<rparr> else g) = wc_Enabled g"
    for c g i v by simp_all
  show "bs_enabled (newBaseWebhookSink cfg) = wc_Enabled cfg"
    by (simp only: newBaseWebhookSink_def Let_def base_sink.select_convs f)
qed

lemma manager_sinks:
  "(kind, b) \<in> set (NewWebhookManager cfgs) \<Longrightarrow> bs_enabled b \<and> wc_URL (bs_config b) \<noteq> [] \<and> breaker_inv b"
  by (induction cfgs) (auto simp: NewWebhookSink_def new_sink_fields new_sink_ok split: if_splits sum.splits)

text \<open>25 alerts to a healthy endpoint.\<close>

definition ok_env :: http_env where
  "ok_env = \<lparr>hv_reject = (\<lambda>_. None), hv_answers = (\<lambda>_. (Status 200, 1)), hv_posts = [], hv_clock = 0, hv_sleeps = []\<rparr>"

definition plain_formats :: formats where
  "plain_formats = \<lparr>fm_marshal = Inr \<circ> (\<lambda>_. ''{}''), fm_fixed2 = (\<lambda>_. []), fm_unix = id, fm_rfc3339 = (\<lambda>_. [])\<rparr>"

theorem slack_delivers_all_witness:
  "fst (slack_Send plain_formats (replicate 25 zero_alert) (newBaseWebhookSink DefaultWebhookSinkConfig) ok_env) = None"
proof -
  let ?b = "newBaseWebhookSink DefaultWebhookSinkConfig"
  let ?res = "slack_Send plain_formats (replicate 25 zero_alert) ?b ok_env"
  have "healthy ?b ok_env" "fm_marshal plain_formats = Inr \<circ> (\<lambda>_. ''{}'')"
    by (simp_all add: healthy_def ok_env_def plain_formats_def newBaseWebhookSink_def DefaultWebhookSinkConfig_def VersionTLS12_def Let_def)
  from slack_delivers_all[OF this, of "replicate 25 zero_alert" "fst ?res" "fst (snd ?res)" "snd (snd ?res)"]
  show ?thesis by simp
qed

end
