(* ===== verification/Event_Filter.thy ===== *)
theory Event_Filter
  imports Complex_Main Machine Events
begin

text \<open>
  The ring buffer filter (\<open>pkg/ebpf/filter.go\<close>): whitelists, a blacklist, load shedding, and the counters.
  The maps to \<open>bool\<close> hold only \<open>true\<close>, so they are sets. The statistics per category are an association
  list, because \<open>FilterStats\<close> iterates over them. \<open>rand.Float64()\<close> is an argument.
\<close>

record category_stats =
  rk_seen :: u64
  rk_passed :: u64
  rk_dropped :: u64

record event_filter =
  rb_categoryFilter :: "u8 set"
  rb_pidFilter :: "u32 set"
  rb_pidBlacklist :: "u32 set"
  rb_cgroupFilter :: "u64 set"
  rb_syscallFilter :: "u16 set"
  rb_dropProbability :: real
  rb_eventsSeen :: u64
  rb_eventsPassed :: u64
  rb_eventsDropped :: u64
  rb_eventsByCategory :: "(u8 \<times> category_stats) list"

definition NewRingBufferFilter :: event_filter where
  "NewRingBufferFilter =
    \<lparr>rb_categoryFilter = {}, rb_pidFilter = {}, rb_pidBlacklist = {}, rb_cgroupFilter = {}, rb_syscallFilter = {},
     rb_dropProbability = 0, rb_eventsSeen = 0, rb_eventsPassed = 0, rb_eventsDropped = 0, rb_eventsByCategory = []\<rparr>"

section \<open>Configuration\<close>

definition SetCategoryFilter :: "u8 list \<Rightarrow> event_filter \<Rightarrow> event_filter" where
  "SetCategoryFilter cats f = f\<lparr>rb_categoryFilter := set cats\<rparr>"

definition AddCategory :: "u8 \<Rightarrow> event_filter \<Rightarrow> event_filter" where
  "AddCategory cat f = f\<lparr>rb_categoryFilter := insert cat (rb_categoryFilter f)\<rparr>"

definition RemoveCategory :: "u8 \<Rightarrow> event_filter \<Rightarrow> event_filter" where
  "RemoveCategory cat f = f\<lparr>rb_categoryFilter := rb_categoryFilter f - {cat}\<rparr>"

definition SetPIDFilter :: "u32 list \<Rightarrow> event_filter \<Rightarrow> event_filter" where
  "SetPIDFilter pids f = f\<lparr>rb_pidFilter := set pids\<rparr>"

definition AddPID :: "u32 \<Rightarrow> event_filter \<Rightarrow> event_filter" where
  "AddPID pid f = f\<lparr>rb_pidFilter := insert pid (rb_pidFilter f)\<rparr>"

definition AddPIDBlacklist :: "u32 \<Rightarrow> event_filter \<Rightarrow> event_filter" where
  "AddPIDBlacklist pid f = f\<lparr>rb_pidBlacklist := insert pid (rb_pidBlacklist f)\<rparr>"

definition SetCgroupFilter :: "u64 list \<Rightarrow> event_filter \<Rightarrow> event_filter" where
  "SetCgroupFilter ids f = f\<lparr>rb_cgroupFilter := set ids\<rparr>"

definition AddCgroup :: "u64 \<Rightarrow> event_filter \<Rightarrow> event_filter" where
  "AddCgroup cgroup f = f\<lparr>rb_cgroupFilter := insert cgroup (rb_cgroupFilter f)\<rparr>"

definition RemoveCgroup :: "u64 \<Rightarrow> event_filter \<Rightarrow> event_filter" where
  "RemoveCgroup cgroup f = f\<lparr>rb_cgroupFilter := rb_cgroupFilter f - {cgroup}\<rparr>"

definition SetSyscallFilter :: "u16 list \<Rightarrow> event_filter \<Rightarrow> event_filter" where
  "SetSyscallFilter nrs f = f\<lparr>rb_syscallFilter := set nrs\<rparr>"

definition SetDropProbability :: "real \<Rightarrow> event_filter \<Rightarrow> event_filter" where
  "SetDropProbability p f =
    (let p = (if p < 0 then 0 else p); p = (if p > 1 then 1 else p) in f\<lparr>rb_dropProbability := p\<rparr>)"

section \<open>Filtering\<close>

definition category_stats_of :: "u8 \<Rightarrow> event_filter \<Rightarrow> category_stats" where
  "category_stats_of cat f =
    (case map_of (rb_eventsByCategory f) cat of Some st \<Rightarrow> st | None \<Rightarrow> \<lparr>rk_seen = 0, rk_passed = 0, rk_dropped = 0\<rparr>)"

definition note_seen :: "u8 \<Rightarrow> event_filter \<Rightarrow> event_filter" where
  "note_seen cat f =
    (let st = category_stats_of cat f in
     f\<lparr>rb_eventsSeen := rb_eventsSeen f + 1,
       rb_eventsByCategory := AList.update cat (st\<lparr>rk_seen := rk_seen st + 1\<rparr>) (rb_eventsByCategory f)\<rparr>)"

definition note_dropped :: "u8 \<Rightarrow> event_filter \<Rightarrow> event_filter" where
  "note_dropped cat f =
    (let st = category_stats_of cat f in
     f\<lparr>rb_eventsDropped := rb_eventsDropped f + 1,
       rb_eventsByCategory := AList.update cat (st\<lparr>rk_dropped := rk_dropped st + 1\<rparr>) (rb_eventsByCategory f)\<rparr>)"

definition note_passed :: "u8 \<Rightarrow> event_filter \<Rightarrow> event_filter" where
  "note_passed cat f =
    (let st = category_stats_of cat f in
     f\<lparr>rb_eventsPassed := rb_eventsPassed f + 1,
       rb_eventsByCategory := AList.update cat (st\<lparr>rk_passed := rk_passed st + 1\<rparr>) (rb_eventsByCategory f)\<rparr>)"

definition ShouldPass :: "real \<Rightarrow> scarlet_event \<Rightarrow> event_filter \<Rightarrow> bool \<times> event_filter" where
  "ShouldPass rand event f =
    (let cat = Category event; f = note_seen cat f in
     if rb_pidBlacklist f \<noteq> {} \<and> PID event \<in> rb_pidBlacklist f then (False, note_dropped cat f)
     else if rb_pidFilter f \<noteq> {} \<and> PID event \<notin> rb_pidFilter f then (False, note_dropped cat f)
     else if rb_categoryFilter f \<noteq> {} \<and> Category event \<notin> rb_categoryFilter f then (False, note_dropped cat f)
     else if rb_cgroupFilter f \<noteq> {} \<and> CgroupID event \<notin> rb_cgroupFilter f then (False, note_dropped cat f)
     else if rb_syscallFilter f \<noteq> {} \<and> SyscallNr event \<notin> rb_syscallFilter f then (False, note_dropped cat f)
     else if rb_dropProbability f > 0 \<and> rand < rb_dropProbability f then (False, note_dropped cat f)
     else (True, note_passed cat f))"

section \<open>Statistics\<close>

record category_filter_stats =
  rn_Category :: string
  rn_CategoryID :: u8
  rn_Seen :: u64
  rn_Passed :: u64
  rn_Dropped :: u64

record filter_stats =
  rt_EventsSeen :: u64
  rt_EventsPassed :: u64
  rt_EventsDropped :: u64
  rt_DropProbability :: real
  rt_CategoryFilterSize :: nat
  rt_PIDFilterSize :: nat
  rt_PIDBlacklistSize :: nat
  rt_CgroupFilterSize :: nat
  rt_SyscallFilterSize :: nat
  rt_ByCategory :: "category_filter_stats list"

definition FilterStats :: "((u8 \<times> category_stats) list \<Rightarrow> (u8 \<times> category_stats) list) \<Rightarrow> event_filter \<Rightarrow> filter_stats" where
  "FilterStats perm f =
    \<lparr>rt_EventsSeen = rb_eventsSeen f, rt_EventsPassed = rb_eventsPassed f, rt_EventsDropped = rb_eventsDropped f,
     rt_DropProbability = rb_dropProbability f, rt_CategoryFilterSize = card (rb_categoryFilter f),
     rt_PIDFilterSize = card (rb_pidFilter f), rt_PIDBlacklistSize = card (rb_pidBlacklist f),
     rt_CgroupFilterSize = card (rb_cgroupFilter f), rt_SyscallFilterSize = card (rb_syscallFilter f),
     rt_ByCategory = map (\<lambda>(cat, st).
       \<lparr>rn_Category = (case map_of CategoryName cat of Some n \<Rightarrow> n | None \<Rightarrow> []), rn_CategoryID = cat,
        rn_Seen = rk_seen st, rn_Passed = rk_passed st, rn_Dropped = rk_dropped st\<rparr>) (perm (rb_eventsByCategory f))\<rparr>"

definition ResetStats :: "event_filter \<Rightarrow> event_filter" where
  "ResetStats f =
    f\<lparr>rb_eventsSeen := 0, rb_eventsPassed := 0, rb_eventsDropped := 0,
      rb_eventsByCategory := map (\<lambda>(cat, st). (cat, \<lparr>rk_seen = 0, rk_passed = 0, rk_dropped = 0\<rparr>)) (rb_eventsByCategory f)\<rparr>"

definition IsActive :: "event_filter \<Rightarrow> bool" where
  "IsActive f \<longleftrightarrow>
    card (rb_categoryFilter f) > 0 \<or> card (rb_pidFilter f) > 0 \<or> card (rb_pidBlacklist f) > 0 \<or>
    card (rb_cgroupFilter f) > 0 \<or> card (rb_syscallFilter f) > 0 \<or> rb_dropProbability f > 0"

section \<open>What passes\<close>

lemma note_fields [simp]:
  "rb_categoryFilter (note_seen c f) = rb_categoryFilter f" "rb_pidFilter (note_seen c f) = rb_pidFilter f"
  "rb_pidBlacklist (note_seen c f) = rb_pidBlacklist f" "rb_cgroupFilter (note_seen c f) = rb_cgroupFilter f"
  "rb_syscallFilter (note_seen c f) = rb_syscallFilter f" "rb_dropProbability (note_seen c f) = rb_dropProbability f"
  by (simp_all add: note_seen_def Let_def)

lemma passes_iff:
  "fst (ShouldPass rand event f) \<longleftrightarrow>
     PID event \<notin> rb_pidBlacklist f \<and> (rb_pidFilter f = {} \<or> PID event \<in> rb_pidFilter f) \<and>
     (rb_categoryFilter f = {} \<or> Category event \<in> rb_categoryFilter f) \<and>
     (rb_cgroupFilter f = {} \<or> CgroupID event \<in> rb_cgroupFilter f) \<and>
     (rb_syscallFilter f = {} \<or> SyscallNr event \<in> rb_syscallFilter f) \<and>
     (rb_dropProbability f \<le> 0 \<or> rb_dropProbability f \<le> rand)"
  by (auto simp: ShouldPass_def Let_def)

lemma inactive_passes: "\<not> IsActive f \<Longrightarrow> fst (ShouldPass rand event f)"
  by (simp add: passes_iff IsActive_def card_eq_0_iff)

text \<open>Taking the last category off the whitelist opens it.\<close>

lemma last_category_opens:
  "rb_categoryFilter f = {cat} \<Longrightarrow> rb_categoryFilter (RemoveCategory cat f) = {}"
  by (simp add: RemoveCategory_def)

section \<open>The counters\<close>

definition tally :: "(category_stats \<Rightarrow> u64) \<Rightarrow> event_filter \<Rightarrow> u64" where
  "tally sel f = (\<Sum>e\<leftarrow>rb_eventsByCategory f. sel (snd e))"

definition filter_inv :: "event_filter \<Rightarrow> bool" where
  "filter_inv f \<longleftrightarrow>
    distinct (map fst (rb_eventsByCategory f)) \<and>
    list_all (\<lambda>st. rk_seen st = rk_passed st + rk_dropped st) (map snd (rb_eventsByCategory f)) \<and>
    rb_eventsSeen f = tally rk_seen f \<and> rb_eventsPassed f = tally rk_passed f \<and> rb_eventsDropped f = tally rk_dropped f \<and>
    0 \<le> rb_dropProbability f \<and> rb_dropProbability f \<le> 1"

inductive filter_step :: "event_filter \<Rightarrow> event_filter \<Rightarrow> bool" where
  fs_pass: "filter_step f (snd (ShouldPass rand event f))"
| fs_reset: "filter_step f (ResetStats f)"
| fs_categories: "filter_step f (SetCategoryFilter cats f)"
| fs_add_category: "filter_step f (AddCategory cat f)"
| fs_remove_category: "filter_step f (RemoveCategory cat f)"
| fs_pids: "filter_step f (SetPIDFilter pids f)"
| fs_add_pid: "filter_step f (AddPID pid f)"
| fs_blacklist: "filter_step f (AddPIDBlacklist pid f)"
| fs_cgroups: "filter_step f (SetCgroupFilter ids f)"
| fs_add_cgroup: "filter_step f (AddCgroup cgroup f)"
| fs_remove_cgroup: "filter_step f (RemoveCgroup cgroup f)"
| fs_syscalls: "filter_step f (SetSyscallFilter nrs f)"
| fs_probability: "filter_step f (SetDropProbability p f)"

lemma sum_update:
  assumes "distinct (map fst al)"
  shows "(\<Sum>e\<leftarrow>AList.update k v al. sel (snd e)) =
    (\<Sum>e\<leftarrow>al. sel (snd e)) + sel v - (case map_of al k of Some u \<Rightarrow> sel u | None \<Rightarrow> (0 :: u64))"
  using assms by (induction al) (auto split: option.splits dest: map_of_SomeD simp: rev_image_eqI)

lemma all_update:
  "list_all P (map snd al) \<Longrightarrow> P v \<Longrightarrow> list_all P (map snd (AList.update k v al))"
  by (induction al) auto

lemma all_lookup: "list_all P (map snd al) \<Longrightarrow> map_of al k = Some v \<Longrightarrow> P v"
  by (induction al) (auto split: if_splits)

lemma update_twice: "AList.update k w (AList.update k v al) = AList.update k w al"
  by (induction al) auto

lemma stats_seen: "category_stats_of c (note_seen c f) = (category_stats_of c f)\<lparr>rk_seen := rk_seen (category_stats_of c f) + 1\<rparr>"
  by (simp add: note_seen_def Let_def update_conv' category_stats_of_def)

definition counted :: "u8 \<Rightarrow> bool \<Rightarrow> event_filter \<Rightarrow> event_filter" where
  "counted c ok f = (if ok then note_passed c (note_seen c f) else note_dropped c (note_seen c f))"

lemma ShouldPass_counted: "snd (ShouldPass rand event f) = counted (Category event) (fst (ShouldPass rand event f)) f"
  by (simp add: ShouldPass_def counted_def Let_def)

lemma counted_fields:
  "rb_eventsByCategory (counted c ok f) = AList.update c
     (let st = category_stats_of c f in st\<lparr>rk_seen := rk_seen st + 1, rk_passed := rk_passed st + of_bool ok,
        rk_dropped := rk_dropped st + of_bool (\<not> ok)\<rparr>) (rb_eventsByCategory f)"
  "rb_eventsSeen (counted c ok f) = rb_eventsSeen f + 1"
  "rb_eventsPassed (counted c ok f) = rb_eventsPassed f + of_bool ok"
  "rb_eventsDropped (counted c ok f) = rb_eventsDropped f + of_bool (\<not> ok)"
  "rb_dropProbability (counted c ok f) = rb_dropProbability f"
proof -
  have st: "rb_eventsByCategory (note_seen c f) = AList.update c (category_stats_of c (note_seen c f)) (rb_eventsByCategory f)"
    by (simp add: stats_seen) (simp add: note_seen_def Let_def)
  have f: "rb_eventsSeen (note_seen c f) = rb_eventsSeen f + 1" "rb_eventsPassed (note_seen c f) = rb_eventsPassed f"
    "rb_eventsDropped (note_seen c f) = rb_eventsDropped f" by (simp_all add: note_seen_def Let_def)
  show "rb_eventsByCategory (counted c ok f) = AList.update c
     (let st = category_stats_of c f in st\<lparr>rk_seen := rk_seen st + 1, rk_passed := rk_passed st + of_bool ok,
        rk_dropped := rk_dropped st + of_bool (\<not> ok)\<rparr>) (rb_eventsByCategory f)"
    by (simp add: counted_def note_passed_def note_dropped_def Let_def st update_twice) (simp add: stats_seen)
qed (simp_all add: counted_def note_passed_def note_dropped_def note_seen_def Let_def)

lemma counted_tally:
  assumes "distinct (map fst (rb_eventsByCategory f))"
  shows "tally rk_seen (counted c ok f) = tally rk_seen f + 1"
    "tally rk_passed (counted c ok f) = tally rk_passed f + of_bool ok"
    "tally rk_dropped (counted c ok f) = tally rk_dropped f + of_bool (\<not> ok)"
  by (auto simp: tally_def counted_fields Let_def sum_update[OF assms] category_stats_of_def split: option.split)

lemma counted_inv: "filter_inv f \<Longrightarrow> filter_inv (counted c ok f)"
proof -
  assume f: "filter_inv f"
  have "rk_seen (category_stats_of c f) = rk_passed (category_stats_of c f) + rk_dropped (category_stats_of c f)"
    using f all_lookup[of "\<lambda>st. rk_seen st = rk_passed st + rk_dropped st" "rb_eventsByCategory f" c]
    by (auto simp: filter_inv_def category_stats_of_def split: option.split)
  then have "list_all (\<lambda>st. rk_seen st = rk_passed st + rk_dropped st) (map snd (rb_eventsByCategory (counted c ok f)))"
    using f unfolding counted_fields by (intro all_update) (auto simp: filter_inv_def Let_def)
  moreover have "distinct (map fst (rb_eventsByCategory (counted c ok f)))"
    using f unfolding counted_fields by (simp add: filter_inv_def distinct_update)
  ultimately show ?thesis using f by (simp add: filter_inv_def counted_tally counted_fields)
qed

lemma reset_inv: "filter_inv f \<Longrightarrow> filter_inv (ResetStats f)"
  by (auto simp: filter_inv_def ResetStats_def tally_def list_all_iff comp_def case_prod_beta)

interpretation event_filter: invariant_system "\<lambda>f. f = NewRingBufferFilter" filter_step filter_inv
proof
  show "filter_inv t" if "filter_inv s" "filter_step s t" for s t
    using that(2,1)
    by cases (simp_all add: ShouldPass_counted counted_inv reset_inv,
      simp_all add: filter_inv_def tally_def SetCategoryFilter_def AddCategory_def RemoveCategory_def SetPIDFilter_def AddPID_def
        AddPIDBlacklist_def SetCgroupFilter_def AddCgroup_def RemoveCgroup_def SetSyscallFilter_def SetDropProbability_def Let_def)
qed (simp add: filter_inv_def NewRingBufferFilter_def tally_def)

lemma tally_sum:
  "list_all (\<lambda>st. rk_seen st = rk_passed st + rk_dropped st) (map snd (rb_eventsByCategory f)) \<Longrightarrow>
     tally rk_seen f = tally rk_passed f + tally rk_dropped f"
  unfolding tally_def sum_list_addf[symmetric] by (auto simp: list_all_iff intro!: arg_cong[of _ _ sum_list] map_cong)

text \<open>The filter. In every state that it can reach through any calls, an event passes exactly when its
  process is not blacklisted, every whitelist that has an entry has the event's, and the sample of the
  load shedding spares it; and the event counters, modulo 64 bits, add up: seen is passed plus dropped,
  in total and per category, and the totals are the sums over the categories.\<close>

theorem filter_passes_and_counts:
  assumes "filter_step\<^sup>*\<^sup>* NewRingBufferFilter f" and "ShouldPass rand event f = (ok, f')"
  shows "(ok \<longleftrightarrow> PID event \<notin> rb_pidBlacklist f \<and> (rb_pidFilter f = {} \<or> PID event \<in> rb_pidFilter f) \<and>
      (rb_categoryFilter f = {} \<or> Category event \<in> rb_categoryFilter f) \<and>
      (rb_cgroupFilter f = {} \<or> CgroupID event \<in> rb_cgroupFilter f) \<and>
      (rb_syscallFilter f = {} \<or> SyscallNr event \<in> rb_syscallFilter f) \<and> rb_dropProbability f \<le> max 0 rand) \<and>
    rb_eventsPassed f' = rb_eventsPassed f + of_bool ok \<and> rb_eventsSeen f' = rb_eventsPassed f' + rb_eventsDropped f' \<and>
    rb_eventsSeen f' = tally rk_seen f' \<and> rb_eventsPassed f' = tally rk_passed f' \<and> rb_eventsDropped f' = tally rk_dropped f'"
proof -
  have i: "filter_inv f" by (rule event_filter.reachable_inv[OF _ assms(1)]) simp
  have "filter_inv f'" using event_filter.step_inv[OF i fs_pass[of f rand event]] assms(2) by simp
  moreover have "f' = counted (Category event) ok f" using ShouldPass_counted[of rand event f] assms(2) by simp
  ultimately show ?thesis
    using passes_iff[of rand event f] assms(2) tally_sum[of f'] by (auto simp: filter_inv_def counted_fields le_max_iff_disj)
qed

theorem filter_passes_and_counts_witness:
  "\<not> fst (ShouldPass 0 (zero_event\<lparr>PID := 7\<rparr>) (AddPIDBlacklist 7 NewRingBufferFilter))"
proof -
  have r: "filter_step\<^sup>*\<^sup>* NewRingBufferFilter (AddPIDBlacklist 7 NewRingBufferFilter)" by (simp add: r_into_rtranclp fs_blacklist)
  obtain ok f' where s: "ShouldPass 0 (zero_event\<lparr>PID := 7\<rparr>) (AddPIDBlacklist 7 NewRingBufferFilter) = (ok, f')" by (metis surj_pair)
  show ?thesis using filter_passes_and_counts[OF r s] s by (simp add: AddPIDBlacklist_def)
qed

end
