(* ===== verification/Loader.thy ===== *)
theory Loader
  imports Decode Event_Filter
begin

text \<open>
  The eBPF loader (\<open>pkg/ebpf/loader.go\<close>): loading the collections, attaching the programs, reading the
  ring buffers, the replicated kernel maps, stopping. The eBPF library and the file system are a
  record of answers (\<open>bpf_host\<close>); what they are asked, and what the loader keeps of it, is the code's.
  A collection holds the names of its programs in the order of that run, and which maps it declares;
  the maps the loader updates are values of their own.
\<close>

section \<open>State\<close>

definition DefaultRingBufferSizeMB :: int where "DefaultRingBufferSizeMB = 4"
definition DefaultPollIntervalMS :: int where "DefaultPollIntervalMS = 100"

definition AllProbeCategories :: "string list" where
  "AllProbeCategories = [''process'', ''file'', ''network'', ''escape'']"

datatype attach_kind = attachTracepoint | attachKprobe

record probe_target =
  pt_kind :: attach_kind
  pt_group :: string
  pt_name :: string
  pt_symbol :: string

definition tracepoint :: "string \<Rightarrow> string \<Rightarrow> probe_target" where
  "tracepoint g n = \<lparr>pt_kind = attachTracepoint, pt_group = g, pt_name = n, pt_symbol = []\<rparr>"

definition kprobe :: "string \<Rightarrow> probe_target" where
  "kprobe symb = \<lparr>pt_kind = attachKprobe, pt_group = [], pt_name = [], pt_symbol = symb\<rparr>"

definition probeAttachTargets :: "(string \<times> probe_target) list" where
  "probeAttachTargets =
    [(''trace_sched_process_exec'', tracepoint ''sched'' ''sched_process_exec''),
     (''trace_sched_process_fork'', tracepoint ''sched'' ''sched_process_fork''),
     (''trace_sched_process_exit'', tracepoint ''sched'' ''sched_process_exit''),
     (''trace_openat'', tracepoint ''syscalls'' ''sys_enter_openat''),
     (''trace_unlinkat'', tracepoint ''syscalls'' ''sys_enter_unlinkat''),
     (''trace_memfd_create'', tracepoint ''syscalls'' ''sys_enter_memfd_create''),
     (''trace_tcp_v4_connect'', kprobe ''tcp_v4_connect''),
     (''trace_tcp_v6_connect'', kprobe ''tcp_v6_connect''),
     (''trace_ip4_datagram_connect'', kprobe ''ip4_datagram_connect''),
     (''trace_listen'', tracepoint ''syscalls'' ''sys_enter_listen''),
     (''trace_setns'', tracepoint ''syscalls'' ''sys_enter_setns''),
     (''trace_unshare'', tracepoint ''syscalls'' ''sys_enter_unshare''),
     (''trace_mount'', tracepoint ''syscalls'' ''sys_enter_mount''),
     (''trace_ptrace'', tracepoint ''syscalls'' ''sys_enter_ptrace''),
     (''trace_init_module'', tracepoint ''syscalls'' ''sys_enter_init_module''),
     (''trace_bpf'', tracepoint ''syscalls'' ''sys_enter_bpf''),
     (''trace_setuid'', tracepoint ''syscalls'' ''sys_enter_setuid''),
     (''trace_capset'', tracepoint ''syscalls'' ''sys_enter_capset''),
     (''trace_chmod'', tracepoint ''syscalls'' ''sys_enter_chmod''),
     (''trace_fchmodat'', tracepoint ''syscalls'' ''sys_enter_fchmodat'')]"

record collection =
  lc_programs :: "string list"
  lc_cgroups :: bool
  lc_syscalls :: bool
  lc_events :: bool
  lc_paths :: bool
  lc_miner :: bool
  lc_c2 :: bool
  lc_metadata :: bool

record loader =
  ld_bpfObjDir :: string
  ld_ringBufSize :: int
  ld_pollInterval :: duration
  ld_collections :: "collection list"
  ld_links :: "string list"
  ld_readers :: "nat list"
  ld_cgroupMaps :: "(u64 \<rightharpoonup> u32) list"
  ld_syscallMaps :: "u32 set list"
  ld_sensitivePathMap :: bool
  ld_minerPoolPortsMap :: "u16 set option"
  ld_c2PortsMap :: "u16 set option"
  ld_cloudMetadataMap :: "u32 set option"
  ld_filter :: event_filter
  ld_eventCh :: "scarlet_event list"
  ld_capacity :: nat
  ld_testEventCh :: "scarlet_event list option"
  ld_running :: bool
  ld_mockMode :: bool
  ld_stopClosed :: bool

text \<open>What the library and the file system answer: whether the kernel's type information is there, whether
  an object file is missing, what loading it gives, the errors of map updates and removals (per map and
  key), of attaching a program and of opening a reader.\<close>

record bpf_host =
  lh_btf :: bool
  lh_missing :: "string \<Rightarrow> string \<Rightarrow> bool"
  lh_load :: "string \<Rightarrow> string \<Rightarrow> string + collection"
  lh_port :: "u16 \<Rightarrow> bool"
  lh_address :: "u32 \<Rightarrow> bool"
  lh_syscall :: "nat \<Rightarrow> u32 \<Rightarrow> string option"
  lh_cgroup :: "nat \<Rightarrow> u64 \<Rightarrow> string option"
  lh_remove :: "nat \<Rightarrow> (u64 \<rightharpoonup> u32) \<Rightarrow> u64 \<Rightarrow> string option"
  lh_attach :: "string \<Rightarrow> probe_target \<Rightarrow> bool"
  lh_reader :: "nat \<Rightarrow> bool"

definition NewLoader :: "bool \<Rightarrow> string \<Rightarrow> int \<Rightarrow> duration \<Rightarrow> int \<Rightarrow> loader" where
  "NewLoader bpf dir mb poll buffer =
    (let mb = (if mb \<le> 0 then DefaultRingBufferSizeMB else mb);
         poll = (if poll \<le> 0 then DefaultPollIntervalMS * 1000000 else poll);
         buffer = (if buffer \<le> 0 then 1024 else buffer)
     in \<lparr>ld_bpfObjDir = dir, ld_ringBufSize = mb * 1024 * 1024, ld_pollInterval = poll, ld_collections = [], ld_links = [],
         ld_readers = [], ld_cgroupMaps = [], ld_syscallMaps = [], ld_sensitivePathMap = False, ld_minerPoolPortsMap = None,
         ld_c2PortsMap = None, ld_cloudMetadataMap = None, ld_filter = NewRingBufferFilter, ld_eventCh = [],
         ld_capacity = nat buffer, ld_testEventCh = None, ld_running = False, ld_mockMode = \<not> bpf, ld_stopClosed = False\<rparr>)"

definition ld_Events :: "loader \<Rightarrow> scarlet_event list" where
  "ld_Events l = (case ld_testEventCh l of Some ch \<Rightarrow> ch | None \<Rightarrow> ld_eventCh l)"

section \<open>Kernel maps\<close>

text \<open>The loop over the replicated maps: the first error ends it, with the maps before it updated.\<close>

fun update_maps :: "(nat \<Rightarrow> 'm \<Rightarrow> string option) \<Rightarrow> ('m \<Rightarrow> 'm) \<Rightarrow> nat \<Rightarrow> 'm list \<Rightarrow> string option \<times> 'm list" where
  "update_maps answer upd i [] = (None, [])"
| "update_maps answer upd i (m # ms) =
     (case answer i m of
        Some err \<Rightarrow> (Some err, m # ms)
      | None \<Rightarrow> (case update_maps answer upd (i + 1) ms of (r, ms') \<Rightarrow> (r, upd m # ms')))"

definition AddContainerCgroup :: "bpf_host \<Rightarrow> u64 \<Rightarrow> u32 \<Rightarrow> loader \<Rightarrow> string option \<times> loader" where
  "AddContainerCgroup h cgroupID containerSeq l =
    (if ld_cgroupMaps l = [] then (None, l)
     else (case update_maps (\<lambda>i m. lh_cgroup h i cgroupID) (\<lambda>m. m(cgroupID \<mapsto> containerSeq)) 0 (ld_cgroupMaps l) of
             (r, ms) \<Rightarrow> (r, l\<lparr>ld_cgroupMaps := ms\<rparr>)))"

definition RemoveContainerCgroup :: "bpf_host \<Rightarrow> u64 \<Rightarrow> loader \<Rightarrow> string option \<times> loader" where
  "RemoveContainerCgroup h cgroupID l =
    (if ld_cgroupMaps l = [] then (None, l)
     else (case update_maps (\<lambda>i m. lh_remove h i m cgroupID) (\<lambda>m. m(cgroupID := None)) 0 (ld_cgroupMaps l) of
             (r, ms) \<Rightarrow> (r, l\<lparr>ld_cgroupMaps := ms\<rparr>)))"

definition AddMonitoredSyscall :: "bpf_host \<Rightarrow> u32 \<Rightarrow> loader \<Rightarrow> string option \<times> loader" where
  "AddMonitoredSyscall h syscallNr l =
    (if ld_syscallMaps l = [] then (None, l)
     else (case update_maps (\<lambda>i m. lh_syscall h i syscallNr) (insert syscallNr) 0 (ld_syscallMaps l) of
             (r, ms) \<Rightarrow> (r, l\<lparr>ld_syscallMaps := ms\<rparr>)))"

text \<open>\<open>fmt.Sscanf(ip, "%d.%d.%d.%d")\<close> into 32-bit numbers, on addresses without blanks.\<close>

definition is_digit_char :: "char \<Rightarrow> bool" where
  "is_digit_char c \<longleftrightarrow> (48 :: nat) \<le> of_char c \<and> (of_char c :: nat) \<le> 57"

definition scan_uint32 :: "string \<Rightarrow> (u32 \<times> string) option" where
  "scan_uint32 s =
    (let ds = takeWhile is_digit_char s in
     if ds = [] \<or> digits_value ds \<ge> 2 ^ 32 then None else Some (of_nat (digits_value ds), dropWhile is_digit_char s))"

definition scan_dot :: "string \<Rightarrow> string option" where
  "scan_dot s = (case s of c # cs \<Rightarrow> if c = CHR ''.'' then Some cs else None | [] \<Rightarrow> None)"

definition ipv4ToUint32Host :: "string \<Rightarrow> u32" where
  "ipv4ToUint32Host ip =
    (case do { (a, s) \<leftarrow> scan_uint32 ip; s \<leftarrow> scan_dot s; (b, s) \<leftarrow> scan_uint32 s; s \<leftarrow> scan_dot s;
               (c, s) \<leftarrow> scan_uint32 s; s \<leftarrow> scan_dot s; (d, s) \<leftarrow> scan_uint32 s; Some (a, b, c, d) } of
       None \<Rightarrow> 0
     | Some (a, b, c, d) \<Rightarrow> push_bit 24 a OR push_bit 16 b OR push_bit 8 c OR d)"

definition monitoredSyscalls :: "u32 list" where
  "monitoredSyscalls = [59, 56, 231, 257, 263, 319, 42, 50, 308, 272, 165, 101, 175, 321, 105, 126, 90, 268]"

text \<open>\<open>populateKernelMaps\<close>; a failed update leaves the map as it is and is ignored.\<close>

definition put_all :: "('k \<Rightarrow> bool) \<Rightarrow> 'k list \<Rightarrow> 'k set option \<Rightarrow> 'k set option" where
  "put_all ok ks m = map_option (\<lambda>s. s \<union> set (filter ok ks)) m"

definition populateKernelMaps :: "bpf_host \<Rightarrow> loader \<Rightarrow> loader" where
  "populateKernelMaps h l =
    (let l = l\<lparr>ld_minerPoolPortsMap := put_all (lh_port h) MinerPoolPorts (ld_minerPoolPortsMap l),
               ld_c2PortsMap := put_all (lh_port h) C2Ports (ld_c2PortsMap l),
               ld_cloudMetadataMap :=
                 put_all (lh_address h) (filter (\<lambda>u. u \<noteq> 0) (map ipv4ToUint32Host CloudMetadataIPs)) (ld_cloudMetadataMap l)\<rparr>
     in fold (\<lambda>nr l. snd (AddMonitoredSyscall h nr l)) monitoredSyscalls l)"

section \<open>Load, Attach, Start, Stop\<close>

definition checkBTF :: "bpf_host \<Rightarrow> string option" where
  "checkBTF h =
    (if lh_btf h then None else Some ''kernel BTF not found at /sys/kernel/btf/vmlinux (CO-RE requires BTF)'')"

definition keep_collection :: "string \<Rightarrow> collection \<Rightarrow> loader \<Rightarrow> loader" where
  "keep_collection cat coll l =
    (let l = l\<lparr>ld_collections := ld_collections l @ [coll]\<rparr>;
         l = (if lc_cgroups coll then l\<lparr>ld_cgroupMaps := ld_cgroupMaps l @ [Map.empty]\<rparr> else l);
         l = (if lc_syscalls coll then l\<lparr>ld_syscallMaps := ld_syscallMaps l @ [{}]\<rparr> else l)
     in if cat = ''file'' then l\<lparr>ld_sensitivePathMap := lc_paths coll\<rparr>
        else if cat = ''network'' then
          l\<lparr>ld_minerPoolPortsMap := if lc_miner coll then Some {} else None,
            ld_c2PortsMap := if lc_c2 coll then Some {} else None,
            ld_cloudMetadataMap := if lc_metadata coll then Some {} else None\<rparr>
        else l)"

fun load_categories :: "bpf_host \<Rightarrow> string list \<Rightarrow> loader \<Rightarrow> string option \<times> loader" where
  "load_categories h [] l = (None, populateKernelMaps h l)"
| "load_categories h (cat # cats) l =
     (if lh_missing h (ld_bpfObjDir l) cat then load_categories h cats l
      else (case lh_load h (ld_bpfObjDir l) cat of
              Inl err \<Rightarrow> (Some (''failed to load '' @ cat @ '' collection: '' @ err), l)
            | Inr coll \<Rightarrow> load_categories h cats (keep_collection cat coll l)))"

definition ld_Load :: "bpf_host \<Rightarrow> loader \<Rightarrow> string option \<times> loader" where
  "ld_Load h l =
    (if ld_running l then (Some ''eBPF programs already loaded'', l)
     else (case checkBTF h of
             Some err \<Rightarrow> (Some (''BTF check failed: '' @ err @ '' (kernel may be too old or missing BTF)''), l)
           | None \<Rightarrow> if ld_mockMode l then (None, l) else load_categories h AllProbeCategories l))"

definition attach_program :: "bpf_host \<Rightarrow> string \<Rightarrow> loader \<Rightarrow> loader" where
  "attach_program h prog l =
    (case map_of probeAttachTargets prog of
       None \<Rightarrow> l
     | Some target \<Rightarrow> if lh_attach h prog target then l\<lparr>ld_links := ld_links l @ [prog]\<rparr> else l)"

definition ld_Attach :: "bpf_host \<Rightarrow> loader \<Rightarrow> string option \<times> loader" where
  "ld_Attach h l =
    (if ld_running l then (Some ''eBPF programs already attached'', l)
     else if ld_mockMode l then (None, l)
     else (None, fold (attach_program h) (concat (map lc_programs (ld_collections l))) l))"

definition open_readers :: "bpf_host \<Rightarrow> loader \<Rightarrow> nat list" where
  "open_readers h l = filter (\<lambda>i. lc_events (ld_collections l ! i) \<and> lh_reader h i) [0..<length (ld_collections l)]"

definition ld_Start :: "bpf_host \<Rightarrow> loader \<Rightarrow> string option \<times> loader" where
  "ld_Start h l =
    (if ld_running l then (Some ''eBPF loader already running'', l)
     else (None, l\<lparr>ld_running := True, ld_readers := ld_readers l @ open_readers h l\<rparr>))"

definition ld_deliver :: "real \<Rightarrow> scarlet_event \<Rightarrow> loader \<Rightarrow> loader" where
  "ld_deliver rand event l =
    (case ShouldPass rand event (ld_filter l) of
       (ok, f) \<Rightarrow>
         (let l = l\<lparr>ld_filter := f\<rparr> in
          if \<not> ok then l
          else if length (ld_eventCh l) < ld_capacity l then l\<lparr>ld_eventCh := ld_eventCh l @ [event]\<rparr>
          else l))"

text \<open>One round of \<open>readEvents\<close> of the reader \<open>i\<close>, which has read \<open>sample\<close>.\<close>

definition readEvents :: "real \<Rightarrow> nat \<Rightarrow> bytes \<Rightarrow> loader \<Rightarrow> loader option" where
  "readEvents rand i sample l =
    (if i \<notin> set (ld_readers l) then Some l
     else (case DecodeEvent sample of
             None \<Rightarrow> None
           | Some (Inl err) \<Rightarrow> Some l
           | Some (Inr event) \<Rightarrow> Some (ld_deliver rand event l)))"

definition InjectEvent :: "real \<Rightarrow> scarlet_event \<Rightarrow> loader \<Rightarrow> loader" where
  "InjectEvent rand event l = ld_deliver rand event l"

text \<open>\<open>Stop\<close>; closing the closed stop channel panics.\<close>

definition ld_Stop :: "loader \<Rightarrow> loader option" where
  "ld_Stop l =
    (if \<not> ld_running l then Some l
     else if ld_stopClosed l then None
     else Some (l\<lparr>ld_stopClosed := True, ld_readers := [], ld_links := [], ld_collections := [], ld_cgroupMaps := [],
       ld_syscallMaps := [], ld_sensitivePathMap := False, ld_minerPoolPortsMap := None, ld_c2PortsMap := None,
       ld_cloudMetadataMap := None, ld_running := False\<rparr>))"

definition SetTestEventChannel :: "scarlet_event list \<Rightarrow> loader \<Rightarrow> loader" where
  "SetTestEventChannel ch l = l\<lparr>ld_testEventCh := Some ch\<rparr>"

definition CollectionCount :: "loader \<Rightarrow> nat" where
  "CollectionCount l = length (ld_collections l)"

definition LinkCount :: "loader \<Rightarrow> nat" where
  "LinkCount l = length (ld_links l)"

section \<open>The invariant\<close>

text \<open>What every reachable loader has: a channel within its capacity, readers and their collections only while
  it runs, no collection in mock mode, one replicated map per collection that declares it, links to known
  programs of its collections, kernel lists within the built-in ones, a consistent filter.\<close>

definition loader_ok :: "loader \<Rightarrow> bool" where
  "loader_ok l \<longleftrightarrow>
    length (ld_eventCh l) \<le> ld_capacity l \<and>
    (\<forall>i\<in>set (ld_readers l). ld_running l \<and> i < length (ld_collections l)) \<and>
    (ld_mockMode l \<longrightarrow> ld_collections l = []) \<and>
    length (ld_cgroupMaps l) = length (filter lc_cgroups (ld_collections l)) \<and>
    length (ld_syscallMaps l) = length (filter lc_syscalls (ld_collections l)) \<and>
    set (ld_links l) \<subseteq> set (map fst probeAttachTargets) \<inter> set (concat (map lc_programs (ld_collections l))) \<and>
    (\<forall>s. ld_minerPoolPortsMap l = Some s \<longrightarrow> s \<subseteq> set MinerPoolPorts) \<and>
    (\<forall>s. ld_c2PortsMap l = Some s \<longrightarrow> s \<subseteq> set C2Ports) \<and>
    (\<forall>s. ld_cloudMetadataMap l = Some s \<longrightarrow> s \<subseteq> ipv4ToUint32Host ` set CloudMetadataIPs) \<and>
    filter_inv (ld_filter l)"

inductive ldr_step :: "loader \<Rightarrow> loader \<Rightarrow> bool" where
  lo_load: "ldr_step l (snd (ld_Load h l))"
| lo_attach: "ldr_step l (snd (ld_Attach h l))"
| lo_start: "ldr_step l (snd (ld_Start h l))"
| lo_stop: "ld_Stop l = Some l' \<Longrightarrow> ldr_step l l'"
| lo_read: "readEvents rand i sample l = Some l' \<Longrightarrow> ldr_step l l'"
| lo_inject: "ldr_step l (InjectEvent rand event l)"
| lo_receive: "ld_eventCh l = event # rest \<Longrightarrow> ldr_step l (l\<lparr>ld_eventCh := rest\<rparr>)"
| lo_test: "ldr_step l (SetTestEventChannel ch l)"
| lo_add: "ldr_step l (snd (AddContainerCgroup h cg q l))"
| lo_remove: "ldr_step l (snd (RemoveContainerCgroup h cg l))"
| lo_syscall: "ldr_step l (snd (AddMonitoredSyscall h nr l))"
| lo_filter: "filter_step (ld_filter l) f \<Longrightarrow> ldr_step l (l\<lparr>ld_filter := f\<rparr>)"

lemma update_maps_length: "length (snd (update_maps answer upd i ms)) = length ms"
  by (induction answer upd i ms rule: update_maps.induct) (auto split: option.split prod.split)

lemma add_syscall_maps:
  "\<exists>ms. snd (AddMonitoredSyscall h nr l) = l\<lparr>ld_syscallMaps := ms\<rparr> \<and> length ms = length (ld_syscallMaps l)"
proof (cases "ld_syscallMaps l = []")
  case True
  then show ?thesis by (intro exI[of _ "[]"]) (simp add: AddMonitoredSyscall_def)
next
  case False
  then show ?thesis
    using update_maps_length[of "\<lambda>i m. lh_syscall h i nr" "insert nr" 0 "ld_syscallMaps l"]
    by (auto simp: AddMonitoredSyscall_def split: prod.splits)
qed

lemma add_syscalls_maps:
  "\<exists>ms. fold (\<lambda>nr l. snd (AddMonitoredSyscall h nr l)) nrs l = l\<lparr>ld_syscallMaps := ms\<rparr> \<and> length ms = length (ld_syscallMaps l)"
proof (induction nrs arbitrary: l)
  case Nil
  show ?case by (intro exI[of _ "ld_syscallMaps l"]) simp
next
  case (Cons nr nrs)
  obtain ms where ms: "snd (AddMonitoredSyscall h nr l) = l\<lparr>ld_syscallMaps := ms\<rparr>" "length ms = length (ld_syscallMaps l)"
    using add_syscall_maps by blast
  obtain ms' where "fold (\<lambda>nr l. snd (AddMonitoredSyscall h nr l)) nrs (l\<lparr>ld_syscallMaps := ms\<rparr>) = l\<lparr>ld_syscallMaps := ms'\<rparr>"
    "length ms' = length ms" using Cons.IH[of "l\<lparr>ld_syscallMaps := ms\<rparr>"] by auto
  then show ?case using ms by auto
qed

lemma ok_syscalls: "loader_ok l \<Longrightarrow> length ms = length (ld_syscallMaps l) \<Longrightarrow> loader_ok (l\<lparr>ld_syscallMaps := ms\<rparr>)"
  by (simp add: loader_ok_def)

lemma ok_cgroups: "loader_ok l \<Longrightarrow> length ms = length (ld_cgroupMaps l) \<Longrightarrow> loader_ok (l\<lparr>ld_cgroupMaps := ms\<rparr>)"
  by (simp add: loader_ok_def)

lemma put_all_sub:
  "put_all ok ks m = Some s \<Longrightarrow> (\<And>s'. m = Some s' \<Longrightarrow> s' \<subseteq> K) \<Longrightarrow> set ks \<subseteq> K \<Longrightarrow> s \<subseteq> K"
  by (auto simp: put_all_def)

lemma ok_ports:
  assumes "loader_ok l"
  shows "loader_ok (l\<lparr>ld_minerPoolPortsMap := put_all p MinerPoolPorts (ld_minerPoolPortsMap l),
    ld_c2PortsMap := put_all p C2Ports (ld_c2PortsMap l),
    ld_cloudMetadataMap := put_all a (filter (\<lambda>u. u \<noteq> 0) (map ipv4ToUint32Host CloudMetadataIPs)) (ld_cloudMetadataMap l)\<rparr>)"
proof -
  have "\<forall>s. put_all p MinerPoolPorts (ld_minerPoolPortsMap l) = Some s \<longrightarrow> s \<subseteq> set MinerPoolPorts"
    and "\<forall>s. put_all p C2Ports (ld_c2PortsMap l) = Some s \<longrightarrow> s \<subseteq> set C2Ports"
    and "\<forall>s. put_all a (filter (\<lambda>u. u \<noteq> 0) (map ipv4ToUint32Host CloudMetadataIPs)) (ld_cloudMetadataMap l) = Some s \<longrightarrow>
      s \<subseteq> ipv4ToUint32Host ` set CloudMetadataIPs"
    using assms unfolding loader_ok_def put_all_def by auto
  then show ?thesis using assms by (simp add: loader_ok_def)
qed

lemma ok_populate: "loader_ok l \<Longrightarrow> loader_ok (populateKernelMaps h l)"
proof -
  assume l: "loader_ok l"
  let ?l = "l\<lparr>ld_minerPoolPortsMap := put_all (lh_port h) MinerPoolPorts (ld_minerPoolPortsMap l),
    ld_c2PortsMap := put_all (lh_port h) C2Ports (ld_c2PortsMap l),
    ld_cloudMetadataMap := put_all (lh_address h) (filter (\<lambda>u. u \<noteq> 0) (map ipv4ToUint32Host CloudMetadataIPs)) (ld_cloudMetadataMap l)\<rparr>"
  obtain ms where ms: "fold (\<lambda>nr l. snd (AddMonitoredSyscall h nr l)) monitoredSyscalls ?l = ?l\<lparr>ld_syscallMaps := ms\<rparr>"
    "length ms = length (ld_syscallMaps ?l)" using add_syscalls_maps by blast
  show ?thesis unfolding populateKernelMaps_def Let_def ms(1) by (rule ok_syscalls[OF ok_ports[OF l] ms(2)])
qed

lemma ok_keep: "loader_ok l \<Longrightarrow> \<not> ld_mockMode l \<Longrightarrow> loader_ok (keep_collection cat coll l) \<and> \<not> ld_mockMode (keep_collection cat coll l)"
  by (auto simp: loader_ok_def keep_collection_def Let_def)

lemma ok_load_categories: "loader_ok l \<Longrightarrow> \<not> ld_mockMode l \<Longrightarrow> loader_ok (snd (load_categories h cats l))"
proof (induction h cats l rule: load_categories.induct)
  case (1 h l)
  then show ?case by (simp add: ok_populate)
next
  case (2 h cat cats l)
  show ?case
  proof (cases "lh_missing h (ld_bpfObjDir l) cat")
    case True
    then show ?thesis using 2 by simp
  next
    case False
    then show ?thesis using 2 ok_keep by (cases "lh_load h (ld_bpfObjDir l) cat") auto
  qed
qed

lemma attach_fold:
  "\<exists>ls. fold (attach_program h) progs l = l\<lparr>ld_links := ld_links l @ ls\<rparr> \<and> set ls \<subseteq> set (map fst probeAttachTargets) \<inter> set progs"
proof (induction progs arbitrary: l)
  case Nil
  show ?case by (intro exI[of _ "[]"]) simp
next
  case (Cons p progs)
  obtain l1 where l1: "attach_program h p l = l\<lparr>ld_links := ld_links l @ l1\<rparr>" "set l1 \<subseteq> set (map fst probeAttachTargets) \<inter> {p}"
  proof (cases "map_of probeAttachTargets p")
    case None
    then show ?thesis using that[of "[]"] by (simp add: attach_program_def)
  next
    case (Some t)
    then have "p \<in> set (map fst probeAttachTargets)" by (metis map_of_SomeD in_set_zipE zip_map_fst_snd)
    then show ?thesis
      using that[of "[]"] that[of "[p]"] Some by (cases "lh_attach h p t") (simp_all add: attach_program_def del: set_map)
  qed
  obtain l2 where l2: "fold (attach_program h) progs (l\<lparr>ld_links := ld_links l @ l1\<rparr>) =
      (l\<lparr>ld_links := ld_links l @ l1\<rparr>)\<lparr>ld_links := ld_links (l\<lparr>ld_links := ld_links l @ l1\<rparr>) @ l2\<rparr>"
    "set l2 \<subseteq> set (map fst probeAttachTargets) \<inter> set progs" using Cons.IH by blast
  show ?case by (rule exI[of _ "l1 @ l2"]) (use l1 l2 in auto)
qed

lemma deliver_fields:
  "\<exists>f q. ld_deliver rand event l = l\<lparr>ld_filter := f, ld_eventCh := q\<rparr> \<and> filter_step (ld_filter l) f \<and>
     (q = ld_eventCh l \<or> length (ld_eventCh l) < ld_capacity l \<and> q = ld_eventCh l @ [event])"
proof -
  obtain ok f where s: "ShouldPass rand event (ld_filter l) = (ok, f)" by (metis surj_pair)
  then have f: "filter_step (ld_filter l) f" using fs_pass[of "ld_filter l" rand event] by simp
  show ?thesis
  proof (cases "ok \<and> length (ld_eventCh l) < ld_capacity l")
    case True
    then show ?thesis using s f
      by (intro exI[of _ f] exI[of _ "ld_eventCh l @ [event]"]) (simp add: ld_deliver_def Let_def)
  next
    case False
    then show ?thesis using s f
      by (intro exI[of _ f] exI[of _ "ld_eventCh l"]) (auto simp: ld_deliver_def Let_def)
  qed
qed

lemma ok_deliver: "loader_ok l \<Longrightarrow> loader_ok (ld_deliver rand event l)"
proof -
  assume l: "loader_ok l"
  obtain f q where d: "ld_deliver rand event l = l\<lparr>ld_filter := f, ld_eventCh := q\<rparr>" "filter_step (ld_filter l) f"
    "q = ld_eventCh l \<or> length (ld_eventCh l) < ld_capacity l \<and> q = ld_eventCh l @ [event]" using deliver_fields by blast
  have "filter_inv f" using event_filter.step_inv[OF _ d(2)] l by (simp add: loader_ok_def)
  moreover have "length q \<le> ld_capacity l" using d(3) l by (auto simp: loader_ok_def)
  ultimately show ?thesis using l unfolding d(1) by (simp add: loader_ok_def)
qed

interpretation loader_machine: invariant_system "\<lambda>l. \<exists>bpf dir mb poll buffer. l = NewLoader bpf dir mb poll buffer" ldr_step loader_ok
proof
  show "loader_ok l" if "\<exists>bpf dir mb poll buffer. l = NewLoader bpf dir mb poll buffer" for l
    using that event_filter.init_inv[of NewRingBufferFilter] by (auto simp: NewLoader_def loader_ok_def Let_def)
  fix l t
  assume i: "loader_ok l" and "ldr_step l t"
  from this(2) show "loader_ok t"
  proof cases
    case (lo_load h)
    then show ?thesis using i ok_load_categories by (auto simp: ld_Load_def split: option.split)
  next
    case (lo_attach h)
    obtain ls where "fold (attach_program h) (concat (map lc_programs (ld_collections l))) l = l\<lparr>ld_links := ld_links l @ ls\<rparr>"
      "set ls \<subseteq> set (map fst probeAttachTargets) \<inter> set (concat (map lc_programs (ld_collections l)))"
      using attach_fold by blast
    then have "loader_ok (fold (attach_program h) (concat (map lc_programs (ld_collections l))) l)"
      using i by (simp add: loader_ok_def del: set_map set_concat)
    then show ?thesis using i lo_attach by (auto simp: ld_Attach_def)
  next
    case (lo_start h)
    then show ?thesis using i by (auto simp: ld_Start_def loader_ok_def open_readers_def)
  next
    case lo_stop
    then show ?thesis using i by (auto simp: ld_Stop_def loader_ok_def split: if_splits)
  next
    case (lo_read rand i sample)
    then show ?thesis using i ok_deliver by (auto simp: readEvents_def split: if_splits option.splits sum.splits)
  next
    case (lo_inject rand event)
    then show ?thesis using i ok_deliver by (simp add: InjectEvent_def)
  next
    case (lo_receive event rest)
    then show ?thesis using i by (simp add: loader_ok_def)
  next
    case (lo_test ch)
    then show ?thesis using i by (simp add: loader_ok_def SetTestEventChannel_def)
  next
    case (lo_add h cg q)
    then show ?thesis using i ok_cgroups[OF i] update_maps_length[of "\<lambda>i m. lh_cgroup h i cg" "\<lambda>m. m(cg \<mapsto> q)" 0 "ld_cgroupMaps l"]
      by (auto simp: AddContainerCgroup_def split: prod.splits)
  next
    case (lo_remove h cg)
    then show ?thesis using i ok_cgroups[OF i] update_maps_length[of "\<lambda>i m. lh_remove h i m cg" "\<lambda>m. m(cg := None)" 0 "ld_cgroupMaps l"]
      by (auto simp: RemoveContainerCgroup_def split: prod.splits)
  next
    case (lo_syscall h nr)
    then show ?thesis using i ok_syscalls add_syscall_maps by metis
  next
    case (lo_filter f)
    have "filter_inv f" using event_filter.step_inv[OF _ lo_filter(2)] i by (simp add: loader_ok_def)
    then show ?thesis using i lo_filter by (simp add: loader_ok_def)
  qed
qed

section \<open>From the ring buffer to the channel\<close>

lemma DecodeEvent_returns: "DecodeEvent data \<noteq> None"
proof (cases "length data < 64")
  case False
  then obtain e where e: "decode_header data = Some e" "wf_event e" "one_payload e" using decode_header_ok[of data] by auto
  then obtain e' where "decode_payload data 62 e = Some e'" using decode_payload_ok[of e data 62] by (auto simp: payload_ok_def)
  with e False show ?thesis by (simp add: DecodeEvent_def size_defs)
qed (simp add: DecodeEvent_def)

definition decoded :: "bytes \<Rightarrow> scarlet_event list" where
  "decoded sample = (case DecodeEvent sample of Some (Inr e) \<Rightarrow> [e] | _ \<Rightarrow> [])"

lemma deliver_channel:
  "ld_eventCh (ld_deliver rand e l) =
     ld_eventCh l @ (if fst (ShouldPass rand e (ld_filter l)) \<and> length (ld_eventCh l) < ld_capacity l then [e] else [])"
  by (simp add: ld_deliver_def Let_def split: prod.split)

text \<open>C9: Samples to events. In every state that a loader can reach, whatever a reader of a ring buffer reads, the
  loader does not panic and its channel stays within its capacity; the channel grows by the decoded event
  when the sample decodes, the filter passes it and there is room, and is otherwise as it was. A reader
  reads only while the loader runs, from a loaded collection.\<close>

theorem ring_buffer_delivery:
  assumes "ldr_step\<^sup>*\<^sup>* (NewLoader bpf dir mb poll buffer) l"
  shows "\<exists>l'. readEvents rand i sample l = Some l' \<and> length (ld_eventCh l') \<le> ld_capacity l' \<and>
    ld_eventCh l' = ld_eventCh l @
      (if ld_running l \<and> i < CollectionCount l \<and> i \<in> set (ld_readers l)
       then filter (\<lambda>e. fst (ShouldPass rand e (ld_filter l)) \<and> length (ld_eventCh l) < ld_capacity l) (decoded sample) else [])"
proof -
  have ok: "loader_ok l" by (rule loader_machine.reachable_inv[OF _ assms]) blast
  show ?thesis
  proof (cases "i \<in> set (ld_readers l)")
    case False
    then show ?thesis using ok by (simp add: readEvents_def loader_ok_def)
  next
    case True
    then have r: "ld_running l" "i < CollectionCount l" using ok by (auto simp: loader_ok_def CollectionCount_def)
    obtain d where d: "DecodeEvent sample = Some d" using DecodeEvent_returns by blast
    show ?thesis
    proof (cases d)
      case (Inl err)
      then show ?thesis using True d ok by (simp add: readEvents_def decoded_def loader_ok_def)
    next
      case (Inr e)
      have "loader_ok (ld_deliver rand e l)" by (rule ok_deliver[OF ok])
      then show ?thesis using True r d Inr by (simp add: readEvents_def decoded_def deliver_channel loader_ok_def)
    qed
  qed
qed

section \<open>Registering a container\<close>

text \<open>Which process events a probe emits at all: those of a cgroup in its map (\<open>is_container_process\<close>, the same
  in the four probes).\<close>

definition is_container_process :: "(u64 \<rightharpoonup> u32) \<Rightarrow> u64 \<Rightarrow> bool" where
  "is_container_process container_cgroups cgroup_id \<longleftrightarrow> container_cgroups cgroup_id \<noteq> None"

lemma update_maps_prefix:
  "update_maps answer upd i ms = (r, ms') \<Longrightarrow>
     \<exists>k\<le>length ms. ms' = map upd (take k ms) @ drop k ms \<and> (r = None \<longleftrightarrow> k = length ms)"
proof (induction answer upd i ms arbitrary: r ms' rule: update_maps.induct)
  case (2 answer upd i m ms)
  show ?case
  proof (cases "answer i m")
    case (Some err)
    then show ?thesis using 2(2) by (intro exI[of _ 0]) auto
  next
    case None
    obtain r1 ms1 where u: "update_maps answer upd (i + 1) ms = (r1, ms1)" by (metis surj_pair)
    then obtain k where "k \<le> length ms" "ms1 = map upd (take k ms) @ drop k ms" "r1 = None \<longleftrightarrow> k = length ms"
      using 2(1)[OF None u] by blast
    then show ?thesis using 2(2) None u by (intro exI[of _ "Suc k"]) auto
  qed
qed simp

text \<open>An error leaves the container registered with the probes before the failing one, and with no other.\<close>

lemma registration_may_be_partial:
  assumes "ld_cgroupMaps l \<noteq> []" and "AddContainerCgroup h cg q l = (r, l')"
  shows "\<exists>k\<le>length (ld_cgroupMaps l). (r = None \<longleftrightarrow> k = length (ld_cgroupMaps l)) \<and>
    ld_cgroupMaps l' = map (\<lambda>m. m(cg \<mapsto> q)) (take k (ld_cgroupMaps l)) @ drop k (ld_cgroupMaps l)"
  using assms update_maps_prefix[of "\<lambda>i m. lh_cgroup h i cg" "\<lambda>m. m(cg \<mapsto> q)" 0 "ld_cgroupMaps l"]
  by (fastforce simp: AddContainerCgroup_def split: prod.splits)

text \<open>A loader that is started again after \<open>Stop\<close> panics when it is stopped again.\<close>

lemma second_stop_panics:
  assumes "ld_Stop (snd (ld_Start h l)) = Some l'" and "\<not> ld_running l"
  shows "ld_Stop (snd (ld_Start h' l')) = None"
  using assms by (auto simp: ld_Stop_def ld_Start_def split: if_splits)

text \<open>A load that fails half-way keeps what it has loaded, and \<open>Stop\<close> frees nothing before \<open>Start\<close>.\<close>

lemma stop_before_start_keeps: "\<not> ld_running l \<Longrightarrow> ld_Stop l = Some l"
  by (simp add: ld_Stop_def)

section \<open>A loaded and started loader\<close>

definition demo_bpf :: bpf_host where
  "demo_bpf =
    \<lparr>lh_btf = True, lh_missing = (\<lambda>d cat. cat \<noteq> ''process''),
     lh_load = (\<lambda>d cat. Inr \<lparr>lc_programs = [''trace_sched_process_exec'', ''other''], lc_cgroups = True, lc_syscalls = False,
       lc_events = True, lc_paths = False, lc_miner = False, lc_c2 = False, lc_metadata = False\<rparr>),
     lh_port = (\<lambda>_. True), lh_address = (\<lambda>_. True), lh_syscall = (\<lambda>_ _. None), lh_cgroup = (\<lambda>_ _. None),
     lh_remove = (\<lambda>_ m k. if m k = None then Some ''key does not exist'' else None), lh_attach = (\<lambda>_ _. True), lh_reader = (\<lambda>_. True)\<rparr>"

definition demo_loader :: loader where
  "demo_loader = snd (ld_Start demo_bpf (snd (ld_Attach demo_bpf (snd (ld_Load demo_bpf (NewLoader True ''dir'' 4 0 16))))))"

lemma demo_loader_reached: "ldr_step\<^sup>*\<^sup>* (NewLoader True ''dir'' 4 0 16) demo_loader"
  unfolding demo_loader_def by (meson lo_load lo_attach lo_start converse_rtranclp_into_rtranclp rtranclp.rtrancl_refl)

lemma populate_no_maps:
  assumes "ld_syscallMaps l = []" "ld_minerPoolPortsMap l = None" "ld_c2PortsMap l = None" "ld_cloudMetadataMap l = None"
  shows "populateKernelMaps h l = l"
proof -
  have f: "fold (\<lambda>nr l. snd (AddMonitoredSyscall h nr l)) nrs l = l" for nrs
    using assms(1) by (induction nrs) (simp_all add: AddMonitoredSyscall_def)
  have u: "l\<lparr>ld_minerPoolPortsMap := None, ld_c2PortsMap := None, ld_cloudMetadataMap := None\<rparr> = l"
    using assms by (cases l) simp
  show ?thesis unfolding populateKernelMaps_def Let_def assms put_all_def option.map u by (rule f)
qed

lemma demo_loaded:
  "snd (ld_Load demo_bpf (NewLoader True ''dir'' 4 0 16)) =
     (NewLoader True ''dir'' 4 0 16)\<lparr>ld_collections := [\<lparr>lc_programs = [''trace_sched_process_exec'', ''other''], lc_cgroups = True,
       lc_syscalls = False, lc_events = True, lc_paths = False, lc_miner = False, lc_c2 = False, lc_metadata = False\<rparr>],
       ld_cgroupMaps := [Map.empty]\<rparr>"
  by (simp add: demo_bpf_def ld_Load_def NewLoader_def checkBTF_def Let_def AllProbeCategories_def keep_collection_def populate_no_maps)

lemma demo_answers: "lh_attach demo_bpf prog target" "lh_reader demo_bpf i"
  by (simp_all add: demo_bpf_def)

lemma demo_loader_facts:
  "ld_running demo_loader" "ld_readers demo_loader = [0]" "CollectionCount demo_loader = 1" "ld_eventCh demo_loader = []"
  "ld_capacity demo_loader = 16" "ld_filter demo_loader = NewRingBufferFilter" "ld_links demo_loader = [''trace_sched_process_exec'']"
  unfolding demo_loader_def demo_loaded
  by (simp_all add: ld_Start_def ld_Attach_def NewLoader_def Let_def demo_answers
      open_readers_def CollectionCount_def attach_program_def probeAttachTargets_def)

theorem ring_buffer_delivery_witness:
  "\<exists>l'. readEvents 0 0 (encode_event True (\<lambda>_. 0) sample_exec) demo_loader = Some l' \<and> ld_eventCh l' = decoded (encode_event True (\<lambda>_. 0) sample_exec)"
proof -
  have "\<not> IsActive NewRingBufferFilter" by (simp add: IsActive_def NewRingBufferFilter_def)
  from inactive_passes[OF this] show ?thesis
    using ring_buffer_delivery[OF demo_loader_reached, of 0 0 "encode_event True (\<lambda>_. 0) sample_exec"] by (auto simp: demo_loader_facts)
qed

end
