(* ===== verification/Agent.thy ===== *)
theory Agent
  imports Agent_Config Webhook_Sinks Loader Pipeline_Routing
begin

text \<open>
  The agent (\<open>pkg/agent/agent.go\<close>): it builds every component from the configuration, wires them, runs the
  main loop and shuts down. Components that the code shares by pointer live in one place: the rule
  engine, the enrichment manager, the correlator, the network enforcer and the AI connector in the
  pipeline, the TC loader in the enforcer once it is wired. The pipeline's emitter keeps the alerts in
  order; the agent's emitter is what they are written to. The connection of the AI service's client is
  only logged and left out. \<open>host\<close> has the answers of the machine the agent runs on.
\<close>

section \<open>State\<close>

definition ModeAudit :: string where "ModeAudit = ''audit''"
definition ModeEnforce :: string where "ModeEnforce = ''enforce''"
definition ModeSimulate :: string where "ModeSimulate = ''simulate''"

definition ModeFromString :: "string \<Rightarrow> string + string" where
  "ModeFromString s =
    (if s = ModeAudit then Inr ModeAudit
     else if s = ModeEnforce then Inr ModeEnforce
     else if s = ModeSimulate then Inr ModeSimulate
     else Inl (''invalid mode: '' @ s @ '' (must be audit, enforce, or simulate)''))"

datatype status = StatusStarting | StatusRunning | StatusStopping | StatusStopped | StatusError

record host =
  ht_now :: time
  ht_pid :: int
  ht_mkdir :: "string \<Rightarrow> bool"
  ht_open :: "string \<Rightarrow> bool"
  ht_old :: "string \<Rightarrow> string list"
  ht_fs :: procfs
  ht_macro_order :: macro_order
  ht_duration :: "string \<Rightarrow> duration"
  ht_nw :: "string \<Rightarrow> string + string"
  ht_paths :: "string list \<Rightarrow> rule_path list"
  ht_bpf :: bool
  ht_library :: bpf_host
  ht_tc_object :: "string \<Rightarrow> bool"
  ht_tc_collection :: "string + int option"
  ht_tc_programs :: bool
  ht_tc_attach :: "string \<Rightarrow> attach_outcome"

record agent =
  at_config :: config
  at_mode :: string
  at_status :: status
  at_startTime :: time
  at_metrics :: bool
  at_emitter :: "alert_emitter option"
  at_webhooks :: "(sink_kind \<times> base_sink) list option"
  at_loader :: "loader option"
  at_tcLoader :: "tc_loader option"
  at_pipeline :: "(tc_loader, ai_connector) pipeline option"

definition New :: "(int \<Rightarrow> string) \<Rightarrow> (real \<Rightarrow> string) \<Rightarrow> time \<Rightarrow> config \<Rightarrow> string + agent" where
  "New fmt fmt_float now cfg =
    (case Validate fmt fmt_float cfg of
       Some err \<Rightarrow> Inl (''invalid config: '' @ err)
     | None \<Rightarrow>
         (case ModeFromString (ga_Mode (cg_Agent cfg)) of
            Inl err \<Rightarrow> Inl err
          | Inr mode \<Rightarrow> Inr \<lparr>at_config = cfg, at_mode = mode, at_status = StatusStarting, at_startTime = now, at_metrics = False,
              at_emitter = None, at_webhooks = None, at_loader = None, at_tcLoader = None, at_pipeline = None\<rparr>))"

definition setStatus :: "status \<Rightarrow> agent \<Rightarrow> agent" where
  "setStatus s a = a\<lparr>at_status := s\<rparr>"

section \<open>Wiring\<close>

definition sink_config :: "sink_ref \<Rightarrow> webhook_config" where
  "sink_config ref =
    (let cfg = DefaultWebhookSinkConfig\<lparr>wc_Type := wr_Type ref, wc_URL := wr_URL ref, wc_Headers := wr_Headers ref\<rparr>;
         cfg = (if wr_RetryCount ref > 0 then cfg\<lparr>wc_RetryCount := wr_RetryCount ref\<rparr> else cfg);
         cfg = (if wr_Timeout ref > 0 then cfg\<lparr>wc_Timeout := to_duration (wr_Timeout ref) (Seconds 1)\<rparr> else cfg);
         cfg = (if wr_BatchSize ref > 0 then cfg\<lparr>wc_BatchSize := wr_BatchSize ref\<rparr> else cfg)
     in cfg\<lparr>wc_TLSInsecureSkipVerify := wr_TLSInsecureSkipVerify ref, wc_Enabled := wr_Enabled ref,
          wc_PagerDutyRoutingKey := wr_PagerDutyRoutingKey ref, wc_SlackChannel := wr_SlackChannel ref,
          wc_SlackUsername := wr_SlackUsername ref\<rparr>)"

definition build_webhooks :: "config \<Rightarrow> (sink_kind \<times> base_sink) list option" where
  "build_webhooks c =
    (if gw_Sinks (cg_Webhook c) = [] then None else Some (NewWebhookManager (map sink_config (gw_Sinks (cg_Webhook c)))))"

definition build_manager :: "config \<Rightarrow> manager" where
  "build_manager c =
    NewManager \<lparr>mc_CRIEndpoint = ge_CRIEndpoint (cg_Enrichment c), mc_K8sNodeName = ga_K8sNodeName (cg_Agent c),
      mc_PIDCacheSize = ge_PIDCacheSize (cg_Enrichment c),
      mc_PIDCacheTTL = to_duration (ge_PIDCacheTTL (cg_Enrichment c)) (Seconds 1), mc_ProcFSPath = ga_ProcFSPath (cg_Agent c)\<rparr>"

definition load_rules :: "host \<Rightarrow> config \<Rightarrow> string + engine" where
  "load_rules h c =
    NewEngine (loadYAML (ht_macro_order h) (ht_duration h) (ht_nw h)) DefaultRuleCatalog (ht_paths h (gu_Paths (cg_Rules c)))"

text \<open>The event loader; a failed load or attach is logged.\<close>

definition build_loader :: "host \<Rightarrow> config \<Rightarrow> loader" where
  "build_loader h c =
    (let l = NewLoader (ht_bpf h) (ga_BPFObjectDir (cg_Agent c)) (ga_RingBufferSizeMB (cg_Agent c)) (100 * 1000000) 2048 in
     case ld_Load (ht_library h) l of
       (Some err, l) \<Rightarrow> l
     | (None, l) \<Rightarrow> snd (ld_Attach (ht_library h) l))"

text \<open>The network enforcer with its TC loader, which is wired only when it loads.\<close>

definition build_enforcer :: "host \<Rightarrow> config \<Rightarrow> tc_loader net_enforcer \<times> tc_loader option" where
  "build_enforcer h c =
    (case Load (ht_tc_object h (ga_BPFObjectDir (cg_Agent c))) (ht_tc_collection h) (NewTCLoader (ht_bpf h) [''eth0''] 0) of
       (Some err, t) \<Rightarrow> (ne_Start NewNetworkEnforcer, Some t)
     | (None, t) \<Rightarrow>
         (let (_, t) = Attach (ht_tc_programs h) (ht_tc_attach h) t in (ne_Start (SetTCLoader t NewNetworkEnforcer), None)))"

definition pipeline_config_of ::
    "config \<Rightarrow> string \<Rightarrow> engine \<Rightarrow> tc_loader net_enforcer \<Rightarrow> ai_connector \<Rightarrow> (tc_loader, ai_connector) pipeline_config" where
  "pipeline_config_of c mode e ne conn =
    \<lparr>pg_RuleEngine = Some e, pg_Enricher = Some (build_manager c), pg_AlertEmitter = Some NewAlertEmitterForTest,
     pg_MetricsExporter = Some NewMetricsExporter, pg_NetworkEnforcer = Some ne, pg_Correlator = Some NewCorrelator,
     pg_AIConnector = Some conn, pg_Mode = mode, pg_AnomalyThreshold = gi_AnomalyThreshold (cg_AI c),
     pg_AnomalyEnabled = False, pg_AIRuleSuggester = False, pg_SuggestionMinConfidence = 0, pg_TriageSuppressThreshold = 0,
     pg_TriageDowngradeThreshold = 0, pg_TriageAdjustThreshold = 0, pg_LearningMode = False, pg_MinEventsForBaseline = 0,
     pg_Workers = 0, pg_BatchSize = 0, pg_CoalesceWindow = 0\<rparr>"

definition build_pipeline ::
    "host \<Rightarrow> config \<Rightarrow> string \<Rightarrow> engine \<Rightarrow> tc_loader net_enforcer \<Rightarrow> (tc_loader, ai_connector) pipeline" where
  "build_pipeline h c mode e ne =
    (let conn = NewAIConnector (gi_Endpoint (cg_AI c)) (Seconds 5) (gi_Enabled (cg_AI c));
         p = NewPipeline (ht_pid h) (pipeline_config_of c mode e ne conn);
         p = InitCorrelationRules (SetAIRuleSuggester True (SetAIAlertTrier (Some conn) p))
     in p\<lparr>pi_enricher := map_option (discoverContainers (ht_fs h) (ht_now h)) (pi_enricher p)\<rparr>)"

definition initComponents :: "host \<Rightarrow> agent \<Rightarrow> string option \<times> agent" where
  "initComponents h a =
    (let c = at_config a; a = a\<lparr>at_metrics := True\<rparr>; hooks = build_webhooks c; file = go_AlertFile (cg_Output c) in
     case NewAlertEmitter (ht_mkdir h) (ht_open h) (ht_old h file) file (go_WebhookURL (cg_Output c) \<noteq> [] \<or> hooks \<noteq> None) of
       Inl err \<Rightarrow> (Some (''failed to initialize alert emitter: '' @ err), a)
     | Inr em \<Rightarrow>
         (let a = a\<lparr>at_emitter := Some em, at_webhooks := hooks\<rparr> in
          case load_rules h c of
            Inl err \<Rightarrow> (Some (''failed to initialize rule engine: '' @ err), a)
          | Inr e \<Rightarrow>
              (let (ne, tc) = build_enforcer h c
               in (None, a\<lparr>at_loader := Some (build_loader h c), at_tcLoader := tc,
                     at_pipeline := Some (build_pipeline h c (at_mode a) e ne)\<rparr>))))"

section \<open>Running\<close>

definition at_SetMode :: "string \<Rightarrow> agent \<Rightarrow> agent" where
  "at_SetMode mode a = a\<lparr>at_mode := mode, at_pipeline := map_option (pi_SetMode mode) (at_pipeline a)\<rparr>"

definition reload_engine :: "host \<Rightarrow> config \<Rightarrow> engine \<Rightarrow> engine \<times> string option" where
  "reload_engine h c e =
    Reload (loadYAML (ht_macro_order h) (ht_duration h) (ht_nw h)) DefaultRuleCatalog (ht_paths h (gu_Paths (cg_Rules c))) e"

definition reloadRules :: "host \<Rightarrow> agent \<Rightarrow> agent" where
  "reloadRules h a =
    a\<lparr>at_pipeline := map_option
       (\<lambda>p. p\<lparr>pi_ruleEngine := map_option (\<lambda>e. fst (reload_engine h (at_config a) e)) (pi_ruleEngine p)\<rparr>) (at_pipeline a)\<rparr>"

definition at_InjectEvent :: "real \<Rightarrow> scarlet_event \<Rightarrow> agent \<Rightarrow> agent" where
  "at_InjectEvent rand event a = a\<lparr>at_loader := map_option (InjectEvent rand event) (at_loader a)\<rparr>"

text \<open>The main loop over what its \<open>select\<close> receives; the engine's pointer is the pipeline's.\<close>

datatype received = ContextDone | SIGINT | SIGTERM | SIGHUP host

fun runLoop :: "received list \<Rightarrow> agent \<Rightarrow> agent" where
  "runLoop [] a = a"
| "runLoop (ContextDone # rs) a = a"
| "runLoop (SIGINT # rs) a = a"
| "runLoop (SIGTERM # rs) a = a"
| "runLoop (SIGHUP h # rs) a = runLoop rs (reloadRules h a)"

text \<open>\<open>Start\<close> up to the main loop.\<close>

definition at_Start :: "host \<Rightarrow> agent \<Rightarrow> string option \<times> agent" where
  "at_Start h a =
    (case initComponents h (setStatus StatusStarting a) of
       (Some err, a) \<Rightarrow> (Some (''agent initialization failed: '' @ err), setStatus StatusError a)
     | (None, a) \<Rightarrow> (None, setStatus StatusRunning a))"

text \<open>\<open>Pipeline.Stop\<close> as far as it changes the pipeline, and \<open>shutdown\<close> as far as it changes the components
  and can panic, which is \<open>None\<close>: closing the loader's stop channel a second time; the
  other channels a shutdown closes are made by the same start and closed here only. A value says nothing on
  when it returns. \<open>Pipeline.Stop\<close> and \<open>Manager.Stop\<close> wait for their goroutines, and these waits, which
  need not end, are the machines of theory Shutdown. \<open>ends\<close> gives the pending escalations their order
  and times.\<close>

definition stop_pipeline ::
    "kernel \<Rightarrow> (escalation list \<Rightarrow> (escalation \<times> time) list) \<Rightarrow>
     ((coalesce_key \<times> coalesce_entry) list \<Rightarrow> (coalesce_key \<times> coalesce_entry) list) \<Rightarrow> ('u, 't) pipeline \<Rightarrow> ('u, 't) pipeline" where
  "stop_pipeline K ends perm p =
    coalescer_tick perm (p\<lparr>pi_response := Stop K (ends (ra_pending (pi_response p))) (pi_response p)\<rparr>)"

definition stop_enforcer :: "tc_loader net_enforcer \<Rightarrow> tc_loader net_enforcer" where
  "stop_enforcer ne = (let ne = ne_Stop ne in ne\<lparr>ne_tcLoader := map_option tl_Close (ne_tcLoader ne)\<rparr>)"

definition stop_manager :: "manager \<Rightarrow> manager" where
  "stop_manager m = m\<lparr>mg_cri := CRI_Disconnect (mg_cri m)\<rparr>"

definition shutdown ::
    "kernel \<Rightarrow> (escalation list \<Rightarrow> (escalation \<times> time) list) \<Rightarrow>
     ((coalesce_key \<times> coalesce_entry) list \<Rightarrow> (coalesce_key \<times> coalesce_entry) list) \<Rightarrow> agent \<Rightarrow> agent option" where
  "shutdown K ends perm a =
    (case (case at_loader a of None \<Rightarrow> Some None | Some l \<Rightarrow> map_option Some (ld_Stop l)) of
       None \<Rightarrow> None
     | Some l \<Rightarrow> Some (a\<lparr>at_pipeline := map_option (\<lambda>p. (stop_pipeline K ends perm p)
           \<lparr>pi_aiTrier := map_option ac_Stop (pi_aiTrier p), pi_netEnforcer := map_option stop_enforcer (pi_netEnforcer p),
            pi_enricher := map_option stop_manager (pi_enricher p)\<rparr>) (at_pipeline a),
         at_tcLoader := map_option tl_Close (at_tcLoader a), at_loader := l\<rparr>))"

record agent_status =
  as_Status :: status
  as_Mode :: string
  as_StartTime :: time
  as_Version :: string
  as_NodeName :: string
  as_Containers :: nat
  as_RulesLoaded :: int
  as_EventsTotal :: u64
  as_AlertsTotal :: u64
  as_EnforceTotal :: u64

definition GetStatus :: "agent \<Rightarrow> agent_status" where
  "GetStatus a =
    \<lparr>as_Status = at_status a, as_Mode = at_mode a, as_StartTime = at_startTime a, as_Version = cg_Version (at_config a),
     as_NodeName = ga_K8sNodeName (cg_Agent (at_config a)),
     as_Containers = (case at_pipeline a of Some p \<Rightarrow> (case pi_enricher p of Some m \<Rightarrow> ContainerCount m | None \<Rightarrow> 0) | None \<Rightarrow> 0),
     as_RulesLoaded = (case at_pipeline a of Some p \<Rightarrow> (case pi_ruleEngine p of Some e \<Rightarrow> eg_ruleCount e | None \<Rightarrow> 0) | None \<Rightarrow> 0),
     as_EventsTotal = (case at_pipeline a of Some p \<Rightarrow> pi_eventsProcessed p | None \<Rightarrow> 0),
     as_AlertsTotal = (case at_pipeline a of Some p \<Rightarrow> pi_alertsEmitted p | None \<Rightarrow> 0),
     as_EnforceTotal = (case at_pipeline a of Some p \<Rightarrow> pi_enforcementsExec p | None \<Rightarrow> 0)\<rparr>"

end
