(* ===== verification/Agent_Facts.thy ===== *)
theory Agent_Facts
  imports Agent Pipeline_Machine
begin

text \<open>
  The agent as a whole: it starts unless its alert directory cannot be made, no reachable state panics on
  an event, as it is shipped it never gets an event, and parts of its configuration have no effect.
\<close>

section \<open>The running agent\<close>

text \<open>The steps of the goroutines the agent has started, in any order, with the clock: ring buffer readers,
  workers, the coalescer's tick, escalations, the sweep of the rate limiter, the purges of the correlator
  and the enforcer, the enrichment manager's own goroutines, a reload, a change of the mode.\<close>

inductive agent_step :: "time \<times> agent \<Rightarrow> time \<times> agent \<Rightarrow> bool" where
  ag_read: "at_loader a = Some l \<Longrightarrow> readEvents rand i sample l = Some l' \<Longrightarrow>
     agent_step (T, a) (T, a\<lparr>at_loader := Some l'\<rparr>)"
| ag_work: "at_loader a = Some l \<Longrightarrow> ld_eventCh l = event # rest \<Longrightarrow> at_pipeline a = Some p \<Longrightarrow>
     fair_orders (wd_orders w) \<Longrightarrow> T \<le> wd_now w \<Longrightarrow> processOneEvent w event p = Some p' \<Longrightarrow>
     agent_step (T, a) (wd_now w, a\<lparr>at_loader := Some (l\<lparr>ld_eventCh := rest\<rparr>), at_pipeline := Some p'\<rparr>)"
| ag_tick: "at_pipeline a = Some p \<Longrightarrow> \<forall>es. set (perm es) = set es \<Longrightarrow> agent_step (T, a) (T, a\<lparr>at_pipeline := Some (coalescer_tick perm p)\<rparr>)"
| ag_escalate: "at_pipeline a = Some p \<Longrightarrow> ra_pending (pi_response p) = gs @ g # hs \<Longrightarrow>
     agent_step (T, a) (T, a\<lparr>at_pipeline := Some (p\<lparr>pi_response := escalate K t g ((pi_response p)\<lparr>ra_pending := gs @ hs\<rparr>)\<rparr>)\<rparr>)"
| ag_sweep: "at_pipeline a = Some p \<Longrightarrow> agent_step (T, a)
     (T, a\<lparr>at_pipeline := Some (p\<lparr>pi_response := (pi_response p)\<lparr>ra_rateLimiter := cleanup_tick t (ra_rateLimiter (pi_response p))\<rparr>\<rparr>)\<rparr>)"
| ag_purge: "at_pipeline a = Some p \<Longrightarrow> pi_correlator p = Some c \<Longrightarrow> T \<le> now \<Longrightarrow>
     agent_step (T, a) (now, a\<lparr>at_pipeline := Some (p\<lparr>pi_correlator := Some (purgeExpiredWindows now c)\<rparr>)\<rparr>)"
| ag_expire: "at_pipeline a = Some p \<Longrightarrow> pi_netEnforcer p = Some ne \<Longrightarrow> \<forall>es. set (perm' es) = set es \<Longrightarrow>
     agent_step (T, a) (T, a\<lparr>at_pipeline := Some (p\<lparr>pi_netEnforcer := Some (removeExpiredBlocks ops perm' now ne)\<rparr>)\<rparr>)"
| ag_enrich: "at_pipeline a = Some p \<Longrightarrow> pi_enricher p = Some m \<Longrightarrow> manager_step m m' \<Longrightarrow>
     agent_step (T, a) (T, a\<lparr>at_pipeline := Some (p\<lparr>pi_enricher := Some m'\<rparr>)\<rparr>)"
| ag_reload: "agent_step (T, a) (T, reloadRules h a)"
| ag_mode: "agent_step (T, a) (T, at_SetMode mode a)"

text \<open>The same with events that a test injects.\<close>

inductive tested_step :: "time \<times> agent \<Rightarrow> time \<times> agent \<Rightarrow> bool" where
  ts_step: "agent_step s t \<Longrightarrow> tested_step s t"
| ts_inject: "tested_step (T, a) (T, at_InjectEvent rand event a)"

section \<open>Starting\<close>

lemma load_rules_ok:
  assumes "visits_all (ht_macro_order h)"
  shows "\<exists>e. load_rules h c = Inr e \<and> engine_total e"
proof -
  have "NewEngine (loadYAML (ht_macro_order h) (ht_duration h) (ht_nw h)) DefaultRuleCatalog [] = Inr catalog_engine"
    by (rule NewEngine_catalog[OF assms])
  then have "\<exists>e. load_rules h c = Inr e" by (auto simp: load_rules_def NewEngine_def loadRules_def split: prod.splits option.splits)
  then show ?thesis using NewEngine_total by (auto simp: load_rules_def)
qed

text \<open>No loaded rule has a correlation: neither the parser nor the catalog produces one.\<close>

definition no_correlation :: "engine \<Rightarrow> bool" where
  "no_correlation e \<longleftrightarrow> list_all (\<lambda>(i, r). cr_Correlate r = None) (eg_rules e)"

lemma no_correlation_add: "no_correlation e \<Longrightarrow> cr_Correlate r = None \<Longrightarrow> no_correlation (addCompiledRule r e)"
  using set_update_sub[of "cr_ID r" r "eg_rules e"] by (auto simp: no_correlation_def addCompiledRule_def Let_def list_all_iff)

lemma compile_rules_no_correlation:
  "no_correlation e \<Longrightarrow> \<forall>rd\<in>set rds. rd_Correlate rd = None \<Longrightarrow> no_correlation (compile_rules ord pd macros rds e)"
proof (induction rds arbitrary: e)
  case (Cons rd rds)
  have "cr_Correlate c = None" if "compileRule ord pd e rd macros = Inr c" for c
    using that Cons.prems(2) by (auto simp: compileRule_def Let_def split: option.splits sum.splits)
  then show ?case using Cons no_correlation_add by (auto split: sum.split)
qed simp

lemma loadYAML_no_correlation: "no_correlation (fst st) \<Longrightarrow> no_correlation (fst (fst (loadYAML ord pd nw d st)))"
proof (cases "parseRawItems d")
  case (Inl err)
  then show "no_correlation (fst st) \<Longrightarrow> ?thesis" by (simp add: loadYAML_def ParseYAML_def)
next
  case (Inr its)
  obtain rs ms ls where p: "ParseYAML nw d = Inr (rs, ms, ls)" "\<forall>r\<in>set rs. plain_rule r" using ParseYAML_result[OF Inr] by blast
  assume "no_correlation (fst st)"
  then have "no_correlation ((fst st)\<lparr>eg_lists := l\<rparr>)" for l by (simp add: no_correlation_def)
  then show ?thesis using p by (simp add: loadYAML_def Let_def plain_rule_def compile_rules_no_correlation)
qed

lemma load_rules_plain:
  assumes "load_rules h c = Inr e"
  shows "CorrelationRules e = []"
proof -
  have "no_correlation (loadDefaultLists empty_engine)" by (simp add: no_correlation_def loadDefaultLists_def empty_engine_def)
  then have "no_correlation (fst (loadRules (loadYAML (ht_macro_order h) (ht_duration h) (ht_nw h)) DefaultRuleCatalog
      (ht_paths h (gu_Paths (cg_Rules c))) (loadDefaultLists empty_engine)))"
    using loadRules_inv[of "\<lambda>st. no_correlation (fst st)" "loadYAML (ht_macro_order h) (ht_duration h) (ht_nw h)"
        "loadDefaultLists empty_engine" DefaultRuleCatalog "ht_paths h (gu_Paths (cg_Rules c))"] loadYAML_no_correlation by force
  then have "no_correlation e"
    using assms by (auto simp: load_rules_def NewEngine_def split: prod.splits option.splits)
  then show ?thesis by (auto simp: no_correlation_def CorrelationRules_def list_all_iff filter_empty_conv)
qed

text \<open>The pipeline the agent builds is a started one, with the AI hooks set and the containers discovered.\<close>

lemma init_commutes:
  "InitCorrelationRules (SetAIRuleSuggester b (SetAIAlertTrier t p)) = SetAIRuleSuggester b (SetAIAlertTrier t (InitCorrelationRules p))"
  by (simp add: InitCorrelationRules_def SetAIRuleSuggester_def SetAIAlertTrier_def split: option.split)

lemma built_pipeline:
  "build_pipeline h c mode e ne =
     (let conn = NewAIConnector (gi_Endpoint (cg_AI c)) (Seconds 5) (gi_Enabled (cg_AI c));
          p = SetAIRuleSuggester True (SetAIAlertTrier (Some conn) (started (ht_pid h) (pipeline_config_of c mode e ne conn)))
      in p\<lparr>pi_enricher := map_option (discoverContainers (ht_fs h) (ht_now h)) (pi_enricher p)\<rparr>)"
  by (simp add: build_pipeline_def started_def init_commutes Let_def)

lemma built_start:
  assumes "engine_total e" "CorrelationRules e = []"
  shows "start_config (pipeline_config_of c mode e ne conn)"
  using assms by (auto simp: start_config_def pipeline_config_of_def correlation_rules_ok_def build_manager_def)

lemma built_ok:
  assumes "load_rules h c = Inr e" "visits_all (ht_macro_order h)"
  shows "pipe_ok (T, build_pipeline h c mode e ne)"
proof -
  have e: "engine_total e" using load_rules_ok[OF assms(2), of c] assms(1) by simp
  let ?conn = "NewAIConnector (gi_Endpoint (cg_AI c)) (Seconds 5) (gi_Enabled (cg_AI c))"
  let ?p = "SetAIRuleSuggester True (SetAIAlertTrier (Some ?conn) (started (ht_pid h) (pipeline_config_of c mode e ne ?conn)))"
  have p: "pipe_ok (T, ?p)"
    using started_ok[OF built_start[OF e load_rules_plain[OF assms(1)], of c mode ne ?conn], of T "ht_pid h"]
    by (simp add: SetAIRuleSuggester_def SetAIAlertTrier_def pipe_ok_setters)
  show ?thesis
    unfolding built_pipeline Let_def
  proof (rule pipe_okI)
    fix m assume "pi_enricher (?p\<lparr>pi_enricher := map_option (discoverContainers (ht_fs h) (ht_now h)) (pi_enricher ?p)\<rparr>) = Some m"
    then obtain m0 where "pi_enricher ?p = Some m0" "m = discoverContainers (ht_fs h) (ht_now h) m0" by auto
    then show "bare_manager m" using pipe_okD(3)[OF p] enrichment.step_inv[OF _ mg_discover] by simp
  qed (use pipe_okD[OF p] in auto)
qed

section \<open>No reachable state panics\<close>

definition agent_ok :: "time \<times> agent \<Rightarrow> bool" where
  "agent_ok s \<longleftrightarrow> (case s of (T, a) \<Rightarrow>
    (\<exists>p. at_pipeline a = Some p \<and> pipe_ok (T, p)) \<and> (\<exists>l. at_loader a = Some l \<and> loader_ok l \<and> \<not> ld_stopClosed l))"

lemma emitter_made:
  "\<not> (path \<noteq> [] \<and> alert_dir path \<noteq> [] \<and> \<not> mkdir (alert_dir path)) \<Longrightarrow> \<exists>em. NewAlertEmitter mkdir op old path hook = Inr em"
  by (cases "path = []"; cases "op path") (auto simp: NewAlertEmitter_def Let_def)

lemma init_cases:
  assumes "initComponents h a = (r, a')" "visits_all (ht_macro_order h)"
  obtains (fails) err where "r = Some err" "alert_dir (go_AlertFile (cg_Output (at_config a))) \<noteq> []"
      "\<not> ht_mkdir h (alert_dir (go_AlertFile (cg_Output (at_config a))))"
    | (runs) em e ne tc where "r = None" "load_rules h (at_config a) = Inr e" "build_enforcer h (at_config a) = (ne, tc)"
      "a' = a\<lparr>at_metrics := True, at_emitter := Some em, at_webhooks := build_webhooks (at_config a),
         at_loader := Some (build_loader h (at_config a)), at_tcLoader := tc,
         at_pipeline := Some (build_pipeline h (at_config a) (at_mode a) e ne)\<rparr>"
      "alert_dir (go_AlertFile (cg_Output (at_config a))) = [] \<or> ht_mkdir h (alert_dir (go_AlertFile (cg_Output (at_config a))))"
proof -
  obtain e where e: "load_rules h (at_config a) = Inr e" using load_rules_ok[OF assms(2)] by blast
  obtain ne tc where ne: "build_enforcer h (at_config a) = (ne, tc)" by (metis surj_pair)
  let ?file = "go_AlertFile (cg_Output (at_config a))"
  show ?thesis
  proof (cases "?file \<noteq> [] \<and> alert_dir ?file \<noteq> [] \<and> \<not> ht_mkdir h (alert_dir ?file)")
    case True
    then show ?thesis using fails assms(1) by (auto simp: initComponents_def NewAlertEmitter_def Let_def)
  next
    case False
    moreover have "alert_dir [] = []" by (simp add: alert_dir_def lastIndex_def)
    ultimately have d: "alert_dir ?file = [] \<or> ht_mkdir h (alert_dir ?file)" by metis
    obtain em where "NewAlertEmitter (ht_mkdir h) (ht_open h) (ht_old h ?file) ?file
        (go_WebhookURL (cg_Output (at_config a)) \<noteq> [] \<or> build_webhooks (at_config a) \<noteq> None) = Inr em"
      using emitter_made[where mkdir = "ht_mkdir h" and path = ?file, OF False] by blast
    then have "r = None" "a' = a\<lparr>at_metrics := True, at_emitter := Some em, at_webhooks := build_webhooks (at_config a),
         at_loader := Some (build_loader h (at_config a)), at_tcLoader := tc,
         at_pipeline := Some (build_pipeline h (at_config a) (at_mode a) e ne)\<rparr>"
      using assms(1) e ne by (auto simp: initComponents_def Let_def)
    then show ?thesis using runs[OF _ e ne _ d] by blast
  qed
qed

lemma stop_flag_populate: "ld_stopClosed (populateKernelMaps h l) = ld_stopClosed l"
proof -
  obtain ms where "fold (\<lambda>nr l. snd (AddMonitoredSyscall h nr l)) nrs l' = l'\<lparr>ld_syscallMaps := ms nrs l'\<rparr>" for nrs l'
    using add_syscalls_maps by metis
  then show ?thesis by (simp add: populateKernelMaps_def Let_def)
qed

lemma stop_flag_categories: "ld_stopClosed (snd (load_categories h cats l)) = ld_stopClosed l"
  by (induction h cats l rule: load_categories.induct)
    (auto simp: stop_flag_populate keep_collection_def Let_def split: sum.split)

lemma stop_flag_load: "ld_stopClosed (snd (ld_Load h l)) = ld_stopClosed l"
  by (simp add: ld_Load_def stop_flag_categories split: option.split)

lemma stop_flag_attach: "ld_stopClosed (snd (ld_Attach h l)) = ld_stopClosed l"
  using attach_fold[of h "concat (map lc_programs (ld_collections l))" l] by (auto simp: ld_Attach_def)

lemma built_loader_ok: "loader_ok (build_loader h c) \<and> \<not> ld_stopClosed (build_loader h c)"
proof -
  let ?l = "NewLoader (ht_bpf h) (ga_BPFObjectDir (cg_Agent c)) (ga_RingBufferSizeMB (cg_Agent c)) (100 * 1000000) 2048"
  have l: "loader_ok ?l" by (rule loader_machine.init_inv) blast
  have m: "loader_ok (snd (ld_Load (ht_library h) ?l))" using loader_machine.step_inv[OF l lo_load] .
  then have "loader_ok (snd (ld_Attach (ht_library h) (snd (ld_Load (ht_library h) ?l))))"
    using loader_machine.step_inv[OF _ lo_attach] by blast
  moreover have "\<not> ld_stopClosed ?l" by (simp add: NewLoader_def Let_def)
  ultimately show ?thesis using m
    by (simp add: build_loader_def Let_def stop_flag_load stop_flag_attach split: prod.split option.split)
      (metis snd_conv stop_flag_load stop_flag_attach)
qed

lemma Start_cases:
  assumes "New fmt fmt_float now cfg = Inr a0" "at_Start h a0 = (r, a)" "visits_all (ht_macro_order h)"
  shows "case r of
      Some err \<Rightarrow> at_status a = StatusError \<and> \<not> ht_mkdir h (alert_dir (go_AlertFile (cg_Output cfg)))
    | None \<Rightarrow> at_status a = StatusRunning \<and> at_config a = cfg \<and> at_mode a = ga_Mode (cg_Agent cfg) \<and> agent_ok (T, a)"
proof -
  have a0: "at_config a0 = cfg" "at_mode a0 = ga_Mode (cg_Agent cfg)"
    using assms(1) by (auto simp: New_def ModeFromString_def split: option.splits if_splits)
  obtain r' a' where i: "initComponents h (setStatus StatusStarting a0) = (r', a')" by (metis surj_pair)
  from i assms(3) show ?thesis
  proof (cases rule: init_cases)
    case (fails err)
    then show ?thesis using assms(2) i a0 by (auto simp: at_Start_def setStatus_def)
  next
    case (runs em e ne tc)
    have "a = setStatus StatusRunning a'" "r = None" using assms(2) i runs(1) by (auto simp: at_Start_def)
    moreover have "agent_ok (T, a')"
      using runs a0 built_ok[OF runs(2) assms(3)] built_loader_ok by (simp add: agent_ok_def setStatus_def)
    ultimately show ?thesis using runs(4) a0 by (simp add: setStatus_def agent_ok_def)
  qed
qed

lemma agent_pipe: "agent_ok (T, a) \<Longrightarrow> at_pipeline a = Some p \<Longrightarrow> pipe_ok (T, p)"
  by (simp add: agent_ok_def)

lemma agent_ok_pipe: "agent_ok (T, a) \<Longrightarrow> pipe_ok (T', p) \<Longrightarrow> agent_ok (T', a\<lparr>at_pipeline := Some p\<rparr>)"
  by (simp add: agent_ok_def)

lemma agent_ok_loader: "agent_ok (T, a) \<Longrightarrow> loader_ok l \<Longrightarrow> \<not> ld_stopClosed l \<Longrightarrow> agent_ok (T, a\<lparr>at_loader := Some l\<rparr>)"
  by (simp add: agent_ok_def)

lemma stop_flag_deliver: "ld_stopClosed (ld_deliver rand e l) = ld_stopClosed l"
  using deliver_fields[of rand e l] by auto

lemma stop_flag_read: "readEvents rand i sample l = Some l' \<Longrightarrow> ld_stopClosed l' = ld_stopClosed l"
  by (auto simp: readEvents_def stop_flag_deliver split: if_splits option.splits sum.splits)

lemma agent_step_pipeline:
  assumes "pipeline_step (T, p) (T', p')" "agent_ok (T, a)" "at_pipeline a = Some p"
  shows "agent_ok (T', a\<lparr>at_pipeline := Some p'\<rparr>)"
  using pipeline_machine.step_inv[OF agent_pipe[OF assms(2,3)] assms(1)] agent_ok_pipe[OF assms(2)] by blast

lemma agent_step_ok: "agent_step s t \<Longrightarrow> agent_ok s \<Longrightarrow> agent_ok t"
proof (induction rule: agent_step.induct)
  case (ag_read a l rand i sample l' T)
  have "loader_ok l'" using loader_machine.step_inv[OF _ lo_read[OF ag_read(2)]] ag_read by (auto simp: agent_ok_def)
  then show ?case using ag_read stop_flag_read agent_ok_loader by (auto simp: agent_ok_def)
next
  case (ag_work a l event rest p w T p')
  have "agent_ok (wd_now w, a\<lparr>at_pipeline := Some p'\<rparr>)"
    by (rule agent_step_pipeline[OF pl_event[OF ag_work(4,5,6)] ag_work(7,3)])
  moreover have "loader_ok (l\<lparr>ld_eventCh := rest\<rparr>)"
    using loader_machine.step_inv[OF _ lo_receive[OF ag_work(2)]] ag_work(1,7) by (auto simp: agent_ok_def)
  ultimately show ?case using ag_work(1,7) by (simp add: agent_ok_def)
next
  case (ag_tick a p perm T)
  then show ?case using agent_step_pipeline[OF pl_tick] by blast
next
  case (ag_escalate a p gs g hs T K t)
  then show ?case using agent_step_pipeline[OF pl_actor[OF actor_step.step_escalate]] by blast
next
  case (ag_sweep a p T t)
  then show ?case using agent_step_pipeline[OF pl_actor[OF actor_step.step_sweep]] by blast
next
  case (ag_purge a p c T now)
  then show ?case using agent_step_pipeline[OF pl_correlator[OF _ corr_step.step_purge]] by blast
next
  case (ag_expire a p ne perm' T ops now)
  have "agent_ok (T, a\<lparr>at_pipeline := Some (SetNetworkEnforcer (Some (removeExpiredBlocks ops perm' now ne)) p)\<rparr>)"
    by (rule agent_step_pipeline[OF pl_enforcer ag_expire(4,1)])
  then show ?case by (simp add: SetNetworkEnforcer_def)
next
  case (ag_enrich a p m m' T)
  then show ?case using agent_step_pipeline[OF pl_manager] by blast
next
  case (ag_reload T a h)
  then obtain p where p: "at_pipeline a = Some p" by (auto simp: agent_ok_def)
  show ?case
  proof (cases "pi_ruleEngine p")
    case None
    have "pipe_ok (T, p\<lparr>pi_ruleEngine := None\<rparr>)"
      using pipe_okD[OF agent_pipe[OF ag_reload p]] by (auto intro!: pipe_okI)
    then show ?thesis using p ag_reload None by (simp add: reloadRules_def agent_ok_def)
  next
    case (Some e)
    show ?thesis
      using agent_step_pipeline[OF pl_reload[OF Some] ag_reload p] p Some by (simp add: reloadRules_def reload_engine_def)
  qed
next
  case (ag_mode T a mode)
  then obtain p where p: "at_pipeline a = Some p" by (auto simp: agent_ok_def)
  have "agent_ok (T, a\<lparr>at_pipeline := Some (pi_SetMode mode p)\<rparr>)" by (rule agent_step_pipeline[OF pl_mode ag_mode p])
  then show ?case using p by (simp add: at_SetMode_def agent_ok_def)
qed

lemma tested_step_ok: "tested_step s t \<Longrightarrow> agent_ok s \<Longrightarrow> agent_ok t"
proof (induction rule: tested_step.induct)
  case (ts_inject T a rand event)
  then obtain l where l: "at_loader a = Some l" "loader_ok l" "\<not> ld_stopClosed l" by (auto simp: agent_ok_def)
  then show ?case using ts_inject ok_deliver stop_flag_deliver by (simp add: at_InjectEvent_def InjectEvent_def agent_ok_def)
qed (rule agent_step_ok)

interpretation agent_machine: invariant_system
  "\<lambda>s. \<exists>T h a0 a fmt fmt_float now cfg. s = (T, a) \<and> visits_all (ht_macro_order h) \<and> New fmt fmt_float now cfg = Inr a0 \<and>
     at_Start h a0 = (None, a)" tested_step agent_ok
proof
  show "agent_ok s" if "\<exists>T h a0 a fmt fmt_float now cfg. s = (T, a) \<and> visits_all (ht_macro_order h) \<and>
      New fmt fmt_float now cfg = Inr a0 \<and> at_Start h a0 = (None, a)" for s
    using that Start_cases by fastforce
qed (rule tested_step_ok)

text \<open>The TC loader is either kept beside the enforcer, when it does not load, or wired into it.\<close>

lemma enforcer_tc:
  "build_enforcer h c = (ne, tc) \<Longrightarrow> ne_tcLoader ne = None \<longleftrightarrow> tc \<noteq> None"
  by (auto simp: build_enforcer_def ne_Start_def SetTCLoader_def NewNetworkEnforcer_def Let_def split: option.splits prod.splits if_splits)

text \<open>What \<open>initComponents\<close> leaves when it does not fail, component by component. (The gRPC client, which
  nothing but the shutdown uses again, is in theory Ai_Client.)\<close>

definition all_built :: "config \<Rightarrow> agent \<Rightarrow> bool" where
  "all_built cfg a \<longleftrightarrow>
     at_metrics a \<and> at_emitter a \<noteq> None \<and> (at_webhooks a \<noteq> None \<longleftrightarrow> gw_Sinks (cg_Webhook cfg) \<noteq> []) \<and> at_loader a \<noteq> None \<and>
     (\<exists>p ne. at_pipeline a = Some p \<and> pi_mode p = ga_Mode (cg_Agent cfg) \<and> ra_mode (pi_response p) = ga_Mode (cg_Agent cfg) \<and>
        pi_ruleEngine p \<noteq> None \<and> pi_enricher p \<noteq> None \<and> pi_alertEmit p \<noteq> None \<and> pi_metrics p \<noteq> None \<and>
        pi_netEnforcer p = Some ne \<and> (ne_tcLoader ne = None \<longleftrightarrow> at_tcLoader a \<noteq> None) \<and>
        pi_correlator p \<noteq> None \<and> pi_aiTrier p \<noteq> None \<and> pi_aiSuggester p)"

lemma pipeline_built:
  "pi_mode (build_pipeline h c mode e ne) = mode \<and> ra_mode (pi_response (build_pipeline h c mode e ne)) = mode \<and>
   pi_ruleEngine (build_pipeline h c mode e ne) \<noteq> None \<and> pi_enricher (build_pipeline h c mode e ne) \<noteq> None \<and>
   pi_alertEmit (build_pipeline h c mode e ne) \<noteq> None \<and> pi_metrics (build_pipeline h c mode e ne) \<noteq> None \<and>
   pi_netEnforcer (build_pipeline h c mode e ne) = Some ne \<and> pi_correlator (build_pipeline h c mode e ne) \<noteq> None \<and>
   pi_aiTrier (build_pipeline h c mode e ne) \<noteq> None \<and> pi_aiSuggester (build_pipeline h c mode e ne)"
  by (simp add: build_pipeline_def pipeline_config_of_def NewPipeline_def InitCorrelationRules_def SetAIRuleSuggester_def
      SetAIAlertTrier_def NewResponseActor_def NewResponseActorWithConfig_def Let_def)

text \<open>C17: Starting. Whatever the machine answers, and for every configuration that validates, starting the agent
  fails only because the directory of the alert file cannot be made; otherwise it runs in the configured
  mode and has every component: metrics, alert emitter, the webhooks exactly when sinks are configured, the
  event loader, and a pipeline and response actor in that mode with rule engine, enricher, alert
  emitter, metrics, network enforcer, correlator and AI connector, the TC loader wired into the
  enforcer or, when it does not load, beside it. No rule file, probe or TC program can make it fail.\<close>

theorem agent_starts:
  assumes "New fmt fmt_float now cfg = Inr a0" and "visits_all (ht_macro_order h)" and "at_Start h a0 = (r, a)"
  shows "case r of
      Some err \<Rightarrow> at_status a = StatusError \<and> \<not> ht_mkdir h (alert_dir (go_AlertFile (cg_Output cfg)))
    | None \<Rightarrow> at_status a = StatusRunning \<and> at_mode a = ga_Mode (cg_Agent cfg) \<and> all_built cfg a"
proof -
  note c = Start_cases[OF assms(1,3,2), of 0]
  show ?thesis
  proof (cases r)
    case (Some err)
    then show ?thesis using c by simp
  next
    case None
    have a0: "at_config a0 = cfg" "at_mode a0 = ga_Mode (cg_Agent cfg)"
      using assms(1) by (auto simp: New_def ModeFromString_def split: option.splits if_splits)
    obtain r' a' where i: "initComponents h (setStatus StatusStarting a0) = (r', a')" by (metis surj_pair)
    from i assms(2) have "all_built cfg a"
    proof (cases rule: init_cases)
      case (fails err)
      then show ?thesis using None assms(3) i by (auto simp: at_Start_def)
    next
      case (runs em e ne tc)
      have "a = setStatus StatusRunning a'" using runs(1) assms(3) i by (simp add: at_Start_def)
      then show ?thesis using runs(4) enforcer_tc[OF runs(3)] pipeline_built[of h cfg "ga_Mode (cg_Agent cfg)" e ne] a0
        by (simp add: all_built_def setStatus_def build_webhooks_def)
    qed
    then show ?thesis using c None by simp
  qed
qed

text \<open>C7: Running. In every state a started agent can reach, through its own goroutines, reloads, changes of the
  mode and injected events, the processing of any event returns, without a panic of a map, index or
  channel operation, and what the shutdown does to the components does not panic either. Whether the waits of a
  shutdown end is not stated here: it is \<open>pipeline_stop_liveness\<close> and \<open>manager_stop_liveness\<close> of theory
  Shutdown, the second of which shows the wait that does not end before the context is cancelled.\<close>

theorem agent_never_panics:
  assumes "New fmt fmt_float now cfg = Inr a0" and "visits_all (ht_macro_order h)" and "at_Start h a0 = (None, a)"
    and "tested_step\<^sup>*\<^sup>* (T0, a) (T, b)" and "fair_orders (wd_orders w)" and "T \<le> wd_now w"
  shows "\<exists>p p'. at_pipeline b = Some p \<and> ProcessEvent w raw p = Some p' \<and> shutdown K ends perm b \<noteq> None"
proof -
  have "agent_ok (T, b)" by (rule agent_machine.reachable_inv[OF _ assms(4)]) (use assms(1-3) in blast)
  then obtain p l where p: "at_pipeline b = Some p" "pipe_ok (T, p)" and l: "at_loader b = Some l" "\<not> ld_stopClosed l"
    by (auto simp: agent_ok_def)
  have "shutdown K ends perm b \<noteq> None" using l by (simp add: shutdown_def ld_Stop_def)
  then show ?thesis using event_ok[OF p(2) assms(5,6), of raw] p(1) by (auto simp: ProcessEvent_def)
qed

section \<open>The agent gets no events\<close>

text \<open>What holds as long as nothing is injected: the loader does not run, so no ring buffer is read, and no
  container is registered with the probes; the pipeline has seen nothing and done nothing.\<close>

definition blind :: "agent \<Rightarrow> bool" where
  "blind a \<longleftrightarrow>
    (\<exists>l. at_loader a = Some l \<and> \<not> ld_running l \<and> ld_readers l = [] \<and> ld_eventCh l = [] \<and>
       list_all (\<lambda>m. m = Map.empty) (ld_cgroupMaps l)) \<and>
    (\<exists>p. at_pipeline a = Some p \<and> pi_eventsProcessed p = 0 \<and> pi_alertsEmitted p = 0 \<and> pi_alertEmit p = Some \<lparr>te_alerts = []\<rparr> \<and>
       co_entries (pi_coalescer p) = [] \<and> ra_sent (pi_response p) = [] \<and> ra_pending (pi_response p) = [])"

lemma populate_keeps:
  "ld_running (populateKernelMaps h l) = ld_running l \<and> ld_readers (populateKernelMaps h l) = ld_readers l \<and>
   ld_eventCh (populateKernelMaps h l) = ld_eventCh l \<and> ld_cgroupMaps (populateKernelMaps h l) = ld_cgroupMaps l"
proof -
  obtain ms where "fold (\<lambda>nr l. snd (AddMonitoredSyscall h nr l)) nrs l' = l'\<lparr>ld_syscallMaps := ms nrs l'\<rparr>" for nrs l'
    using add_syscalls_maps by metis
  then show ?thesis by (simp add: populateKernelMaps_def Let_def)
qed

definition unread :: "loader \<Rightarrow> bool" where
  "unread l \<longleftrightarrow> \<not> ld_running l \<and> ld_readers l = [] \<and> ld_eventCh l = [] \<and> list_all (\<lambda>m. m = Map.empty) (ld_cgroupMaps l)"

lemma unread_categories: "unread l \<Longrightarrow> unread (snd (load_categories h cats l))"
proof (induction h cats l rule: load_categories.induct)
  case (2 h cat cats l)
  have "unread (keep_collection cat coll l)" for coll
    using 2(3) by (auto simp: unread_def keep_collection_def Let_def)
  then show ?case using 2 by (auto split: sum.split)
qed (simp add: unread_def populate_keeps)

lemma built_unread: "unread (build_loader h c)"
proof -
  let ?l = "NewLoader (ht_bpf h) (ga_BPFObjectDir (cg_Agent c)) (ga_RingBufferSizeMB (cg_Agent c)) (100 * 1000000) 2048"
  have "unread ?l" by (simp add: unread_def NewLoader_def Let_def)
  then have l: "unread (snd (ld_Load (ht_library h) ?l))"
    by (simp add: ld_Load_def unread_categories split: option.split)
  have "unread (snd (ld_Attach (ht_library h) l'))" if "unread l'" for l'
    using that attach_fold[of "ht_library h" "concat (map lc_programs (ld_collections l'))" l'] by (auto simp: ld_Attach_def unread_def)
  then show ?thesis using l
    by (auto simp: build_loader_def Let_def split: prod.split option.split)
qed

lemma built_blind: "blind (a\<lparr>at_loader := Some (build_loader h c), at_pipeline := Some (build_pipeline h c mode e ne)\<rparr>)"
  using built_unread[of h c]
  by (simp add: blind_def unread_def build_pipeline_def pipeline_config_of_def NewPipeline_def InitCorrelationRules_def
      SetAIRuleSuggester_def SetAIAlertTrier_def NewAlertEmitterForTest_def NewCoalescer_def NewResponseActor_def
      NewResponseActorWithConfig_def Let_def)

lemma started_blind:
  assumes "at_Start h a0 = (None, a)" "visits_all (ht_macro_order h)"
  shows "blind a"
proof -
  obtain r' a' where i: "initComponents h (setStatus StatusStarting a0) = (r', a')" by (metis surj_pair)
  from i assms(2) show ?thesis
  proof (cases rule: init_cases)
    case (fails err)
    then show ?thesis using assms(1) i by (auto simp: at_Start_def)
  next
    case (runs em e ne tc)
    let ?a = "(setStatus StatusStarting a0)\<lparr>at_metrics := True, at_emitter := Some em, at_webhooks := build_webhooks (at_config a0), at_tcLoader := tc\<rparr>"
    have "a = setStatus StatusRunning a'" using assms(1) i runs(1) by (auto simp: at_Start_def)
    moreover have "blind (?a\<lparr>at_loader := Some (build_loader h (at_config a0)),
        at_pipeline := Some (build_pipeline h (at_config a0) (at_mode a0) e ne)\<rparr>)" by (rule built_blind)
    ultimately show ?thesis using runs(4) by (simp add: setStatus_def blind_def)
  qed
qed

lemma blind_step: "agent_step s t \<Longrightarrow> blind (snd s) \<Longrightarrow> blind (snd t)"
proof (induction rule: agent_step.induct)
  case (ag_read a l rand i sample l' T)
  then show ?case by (auto simp: blind_def readEvents_def)
next
  case (ag_tick a p perm T)
  then have "perm [] = []" by (metis empty_set set_empty)
  then show ?case using ag_tick by (auto simp: blind_def coalescer_tick_def co_Flush_def)
qed (auto simp: blind_def reloadRules_def at_SetMode_def pi_SetMode_def SetMode_def)

lemma blind_steps: "agent_step\<^sup>*\<^sup>* s t \<Longrightarrow> blind (snd s) \<Longrightarrow> blind (snd t)"
  by (induction rule: rtranclp_induct) (auto intro: blind_step)

text \<open>C3: The shipped agent gets no events. The agent never starts the loader and never registers a container
  with the probes. So in every state that a started agent reaches by its own goroutines, whatever the
  kernel does, no ring buffer is read and no probe lets an event of any cgroup through; no event has been
  processed, no alert emitted, no signal sent.\<close>

theorem agent_gets_no_events:
  assumes "at_Start h a0 = (None, a)" and "visits_all (ht_macro_order h)" and "agent_step\<^sup>*\<^sup>* (T0, a) (T, b)"
  shows "as_EventsTotal (GetStatus b) = 0 \<and> as_AlertsTotal (GetStatus b) = 0 \<and>
    (\<exists>p. at_pipeline b = Some p \<and> pi_alertEmit p = Some \<lparr>te_alerts = []\<rparr> \<and> ra_sent (pi_response p) = []) \<and>
    (\<exists>l. at_loader b = Some l \<and> readEvents rand i sample l = Some l \<and> list_all (\<lambda>m. \<not> is_container_process m cg) (ld_cgroupMaps l))"
proof -
  have "blind b" using blind_steps[OF assms(3)] started_blind[OF assms(1,2)] by simp
  then obtain l p where "at_loader b = Some l" "ld_readers l = []" "list_all (\<lambda>m. m = Map.empty) (ld_cgroupMaps l)"
    "at_pipeline b = Some p" "pi_eventsProcessed p = 0" "pi_alertsEmitted p = 0" "pi_alertEmit p = Some \<lparr>te_alerts = []\<rparr>"
    "ra_sent (pi_response p) = []" by (auto simp: blind_def)
  then show ?thesis by (auto simp: GetStatus_def readEvents_def is_container_process_def list_all_iff)
qed

section \<open>Configuration without effect\<close>

text \<open>Another enforcement section, learning mode, procfs path and node name of the enrichment section, metrics
  switch and simulate minimum.\<close>

definition other_policy :: "enforcement_config \<Rightarrow> bool \<Rightarrow> string \<Rightarrow> string \<Rightarrow> bool \<Rightarrow> bool \<Rightarrow> config \<Rightarrow> config" where
  "other_policy f learning proc node metrics reload c =
    c\<lparr>cg_Enforcement := f, cg_AI := (cg_AI c)\<lparr>gi_LearningMode := learning\<rparr>,
      cg_Enrichment := (cg_Enrichment c)\<lparr>ge_ProcFSPath := proc, ge_K8sNodeName := node\<rparr>,
      cg_Metrics := (cg_Metrics c)\<lparr>gm_Enabled := metrics\<rparr>, cg_Rules := (cg_Rules c)\<lparr>gu_ReloadOnChange := reload\<rparr>\<rparr>"

lemma other_policy_builds:
  "build_webhooks (other_policy f learning proc node metrics reload c) = build_webhooks c"
  "build_loader h (other_policy f learning proc node metrics reload c) = build_loader h c"
  "build_enforcer h (other_policy f learning proc node metrics reload c) = build_enforcer h c"
  "build_pipeline h (other_policy f learning proc node metrics reload c) mode e ne = build_pipeline h c mode e ne"
  "load_rules h (other_policy f learning proc node metrics reload c) = load_rules h c"
  "reload_engine h (other_policy f learning proc node metrics reload c) e = reload_engine h c e"
  "cg_Output (other_policy f learning proc node metrics reload c) = cg_Output c"
  by (simp_all add: other_policy_def build_webhooks_def build_loader_def build_enforcer_def build_pipeline_def load_rules_def
      reload_engine_def pipeline_config_of_def build_manager_def)

definition relabel :: "(config \<Rightarrow> config) \<Rightarrow> agent \<Rightarrow> agent" where
  "relabel f a = a\<lparr>at_config := f (at_config a)\<rparr>"

lemma relabel_fields [simp]:
  "at_pipeline (relabel f a) = at_pipeline a" "at_loader (relabel f a) = at_loader a" "at_config (relabel f a) = f (at_config a)"
  "at_mode (relabel f a) = at_mode a" "relabel f (a\<lparr>at_pipeline := p\<rparr>) = (relabel f a)\<lparr>at_pipeline := p\<rparr>"
  "relabel f (a\<lparr>at_loader := l\<rparr>) = (relabel f a)\<lparr>at_loader := l\<rparr>" "relabel f (a\<lparr>at_mode := m\<rparr>) = (relabel f a)\<lparr>at_mode := m\<rparr>"
  "relabel f (setStatus st a) = setStatus st (relabel f a)"
  by (simp_all add: relabel_def setStatus_def)

lemma init_relabel:
  assumes "f = other_policy e learning proc node metrics reload"
  shows "initComponents h (relabel f a) = apsnd (relabel f) (initComponents h a)"
  by (simp add: initComponents_def assms other_policy_builds Let_def split: sum.split prod.split) (simp add: relabel_def)

lemma start_relabel:
  assumes "f = other_policy e learning proc node metrics reload"
  shows "at_Start h (relabel f a) = apsnd (relabel f) (at_Start h a)"
  using init_relabel[OF assms, of h "setStatus StatusStarting a"]
  by (simp add: at_Start_def split: prod.split option.split)

lemma step_relabel:
  assumes "f = other_policy e learning proc node metrics reload"
  shows "tested_step s t \<Longrightarrow> tested_step (apsnd (relabel f) s) (apsnd (relabel f) t)"
proof (induction rule: tested_step.induct)
  case (ts_inject T a rand event)
  show ?case using tested_step.ts_inject[of T "relabel f a" rand event] by (simp add: at_InjectEvent_def)
next
  case (ts_step s t)
  then have "agent_step (apsnd (relabel f) s) (apsnd (relabel f) t)"
  proof (induction rule: agent_step.induct)
    case (ag_reload T a h)
    have "relabel f (reloadRules h a) = reloadRules h (relabel f a)" by (simp add: reloadRules_def assms other_policy_builds)
    then show ?case by (simp add: agent_step.ag_reload)
  next
    case (ag_mode T a mode)
    have "relabel f (at_SetMode mode a) = at_SetMode mode (relabel f a)" by (simp add: at_SetMode_def)
    then show ?case by (simp add: agent_step.ag_mode)
  qed (auto intro: agent_step.intros)
  then show ?case by (rule tested_step.ts_step)
qed

text \<open>C16: Settings without effect. The protected namespaces, the kill limits and the simulate minimum of the
  enforcement section, the learning mode, the procfs path and node name of the enrichment section, the
  metrics switch and the reload switch change nothing: with other values for all of them the agent starts
  into the same components, and every run of one agent is, state by state, a run of the other.\<close>

theorem policy_settings_ignored:
  assumes "at_Start h a0 = (r, a)" and "tested_step\<^sup>*\<^sup>* (T0, a) (T, b)"
  shows "at_Start h (relabel (other_policy e learning proc node metrics reload) a0) =
      (r, relabel (other_policy e learning proc node metrics reload) a) \<and>
    tested_step\<^sup>*\<^sup>* (T0, relabel (other_policy e learning proc node metrics reload) a)
      (T, relabel (other_policy e learning proc node metrics reload) b)"
proof -
  let ?f = "other_policy e learning proc node metrics reload"
  have "tested_step\<^sup>*\<^sup>* (apsnd (relabel ?f) s) (apsnd (relabel ?f) t)" if "tested_step\<^sup>*\<^sup>* s t" for s t
    using that
  proof (induction rule: rtranclp_induct)
    case (step t u)
    then show ?case using step_relabel[OF refl, of t u] by (meson rtranclp.rtrancl_into_rtrancl)
  qed simp
  from this[OF assms(2)] show ?thesis using start_relabel[OF refl, where h = h and a = a0] assms(1) by simp
qed

section \<open>An agent\<close>

definition demo_host :: host where
  "demo_host =
    \<lparr>ht_now = 5, ht_pid = 42, ht_mkdir = (\<lambda>_. True), ht_open = (\<lambda>_. True), ht_old = (\<lambda>_. []), ht_fs = demo_fs,
     ht_macro_order = (\<lambda>k al. al), ht_duration = (\<lambda>_. 0), ht_nw = Inr, ht_paths = (\<lambda>_. []), ht_bpf = True, ht_library = demo_bpf,
     ht_tc_object = (\<lambda>_. True), ht_tc_collection = Inr (Some 3), ht_tc_programs = True, ht_tc_attach = (\<lambda>_. BothAttach)\<rparr>"

lemma demo_host_order: "visits_all (ht_macro_order demo_host)"
  by (simp add: visits_all_def demo_host_def)

definition demo_agent :: agent where
  "demo_agent =
    \<lparr>at_config = DefaultConfig [] ''node'', at_mode = ''audit'', at_status = StatusStarting, at_startTime = 0, at_metrics = False,
     at_emitter = None, at_webhooks = None, at_loader = None, at_tcLoader = None, at_pipeline = None\<rparr>"

definition demo_running :: agent where "demo_running = snd (at_Start demo_host demo_agent)"

lemma demo_new: "New (\<lambda>_. []) (\<lambda>_. []) 0 (DefaultConfig [] ''node'') = Inr demo_agent"
proof -
  have "ga_Mode (cg_Agent (DefaultConfig [] ''node'')) = ''audit''" by (simp add: DefaultConfig_def Let_def)
  then show ?thesis by (simp add: New_def valid_default ModeFromString_def demo_agent_def ModeAudit_def)
qed

lemma demo_starts: "at_Start demo_host demo_agent = (None, demo_running)"
proof -
  obtain r a where s: "at_Start demo_host demo_agent = (r, a)" by (metis surj_pair)
  from Start_cases[OF demo_new s demo_host_order, of 0] have "r = None" by (cases r) (auto simp: demo_host_def)
  then show ?thesis using s by (simp add: demo_running_def)
qed

theorem agent_starts_witness: "at_status demo_running = StatusRunning \<and> at_mode demo_running = ''audit''"
  using agent_starts[OF demo_new demo_host_order demo_starts] by (simp add: DefaultConfig_def Let_def)

theorem agent_never_panics_witness:
  "\<exists>p p'. at_pipeline demo_running = Some p \<and> ProcessEvent demo_world zero_event p = Some p' \<and>
     shutdown demo_kernel (map (\<lambda>g. (g, 0))) id demo_running \<noteq> None"
proof -
  have r: "tested_step\<^sup>*\<^sup>* (0, demo_running) (0, demo_running)" by simp
  show ?thesis by (rule agent_never_panics[OF demo_new demo_host_order demo_starts r demo_orders]) (simp add: demo_world_def)
qed

theorem agent_gets_no_events_witness: "as_EventsTotal (GetStatus demo_running) = 0"
  using agent_gets_no_events[OF demo_starts demo_host_order, of 0 0 demo_running] by simp

theorem policy_settings_ignored_witness:
  "at_pipeline (snd (at_Start demo_host (relabel (other_policy
      \<lparr>gf_ProtectedNamespaces = [''prod''], gf_MaxKillsPerPod = 1, gf_WindowSeconds = 3600, gf_SimulateMinHours = 0\<rparr>
      True [] [] False False) demo_agent))) = at_pipeline demo_running"
  using policy_settings_ignored[OF demo_starts, of 0 0 demo_running
      "\<lparr>gf_ProtectedNamespaces = [''prod''], gf_MaxKillsPerPod = 1, gf_WindowSeconds = 3600, gf_SimulateMinHours = 0\<rparr>"
      True "[]" "[]" False False] by simp

end
