(* ===== verification/Policy.thy ===== *)
theory Policy
  imports Response Net_Enforcer Engine
begin

text \<open>
  The policies (\<open>pkg/crd/types.go\<close>): the resource types, loading a directory of files, validation, and
  what applying a policy does to the response actor and the network enforcer. Reading the directory,
  YAML, \<open>time.ParseDuration\<close> and \<open>net.ParseIP\<close> are arguments. The watcher's goroutine is its number
  of running loops and the tick that reloads the directory.
\<close>

section \<open>Resources\<close>

record rule_selector =
  rq_IDs :: "string list"
  rq_Categories :: "string list"
  rq_Priorities :: "string list"
  rq_Tags :: "string list"
  rq_All :: bool

record policy_exception =
  px_Name :: string
  px_Fields :: "string list"
  px_Comps :: "string list"
  px_Values :: "string list list"
  px_Mode :: string

record enforcement_spec =
  pe_KillMode :: string
  pe_GracePeriodSeconds :: int
  pe_MaxKillsPerPod :: int
  pe_WindowSeconds :: int

record network_block =
  pb_DestIP :: string
  pb_DestPort :: u16
  pb_Protocol :: string
  pb_Reason :: string
  pb_TTL :: string

record network_policy =
  pn_Enabled :: bool
  pn_DefaultTTL :: string
  pn_BlockList :: "network_block list"

record policy_spec =
  ps_Mode :: string
  ps_RuleSelector :: rule_selector
  ps_Exceptions :: "policy_exception list"
  ps_EnforcementConfig :: enforcement_spec
  ps_ProtectedNamespaces :: "string list"
  ps_NetworkPolicy :: "network_policy option"

record object_meta =
  pm_Name :: string
  pm_Namespace :: string
  pm_Labels :: "string \<rightharpoonup> string"
  pm_Annotations :: "string \<rightharpoonup> string"
  pm_CreationTimestamp :: time
  pm_ResourceVersion :: string

record policy_status =
  pu_Phase :: string
  pu_Message :: string
  pu_ActiveRules :: int
  pu_LastUpdated :: time

record runtime_policy =
  rp_APIVersion :: string
  rp_Kind :: string
  rp_Metadata :: object_meta
  rp_Spec :: policy_spec
  rp_Status :: "policy_status option"

section \<open>The watcher\<close>

record 'u policy_watcher =
  pw_configDir :: string
  pw_nodeName :: string
  pw_namespace :: string
  pw_engine :: "engine option"
  pw_enforcer :: "'u net_enforcer option"
  pw_actor :: "response_actor option"
  pw_policies :: "(string \<times> runtime_policy) list"
  pw_connected :: bool
  pw_stopClosed :: bool
  pw_watchers :: nat
  pw_policiesLoaded :: nat
  pw_policiesApplied :: nat
  pw_loadErrors :: nat
  pw_lastLoadTime :: time

definition NewPolicyWatcher :: "string \<Rightarrow> string \<Rightarrow> 'u policy_watcher" where
  "NewPolicyWatcher configDir nodeName =
    \<lparr>pw_configDir = configDir, pw_nodeName = nodeName, pw_namespace = ''security-scarlet'', pw_engine = None,
     pw_enforcer = None, pw_actor = None, pw_policies = [], pw_connected = False, pw_stopClosed = False, pw_watchers = 0,
     pw_policiesLoaded = 0, pw_policiesApplied = 0, pw_loadErrors = 0, pw_lastLoadTime = 0\<rparr>"

definition pw_SetEngine :: "engine option \<Rightarrow> 'u policy_watcher \<Rightarrow> 'u policy_watcher" where
  "pw_SetEngine e pw = pw\<lparr>pw_engine := e\<rparr>"

definition pw_SetNetworkEnforcer :: "'u net_enforcer option \<Rightarrow> 'u policy_watcher \<Rightarrow> 'u policy_watcher" where
  "pw_SetNetworkEnforcer ne pw = pw\<lparr>pw_enforcer := ne\<rparr>"

definition SetResponseActor :: "response_actor option \<Rightarrow> 'u policy_watcher \<Rightarrow> 'u policy_watcher" where
  "SetResponseActor actor pw = pw\<lparr>pw_actor := actor\<rparr>"

text \<open>\<open>ValidatePolicy\<close>, with the selector it may complete.\<close>

definition empty_selector :: "rule_selector \<Rightarrow> bool" where
  "empty_selector s \<longleftrightarrow>
    \<not> rq_All s \<and> rq_IDs s = [] \<and> rq_Categories s = [] \<and> rq_Priorities s = [] \<and> rq_Tags s = []"

definition select_all :: "runtime_policy \<Rightarrow> runtime_policy" where
  "select_all p = p\<lparr>rp_Spec := (rp_Spec p)\<lparr>ps_RuleSelector := (ps_RuleSelector (rp_Spec p))\<lparr>rq_All := True\<rparr>\<rparr>\<rparr>"

definition ValidatePolicy :: "(string \<Rightarrow> string + duration) \<Rightarrow> runtime_policy \<Rightarrow> string + runtime_policy" where
  "ValidatePolicy parse_duration policy =
    (if rp_APIVersion policy \<noteq> ''securityscarlet.ai/v1alpha1'' then
       Inl (''unsupported apiVersion: '' @ rp_APIVersion policy @ '' (expected securityscarlet.ai/v1alpha1)'')
     else if rp_Kind policy \<noteq> ''ScarletRuntimePolicy'' then
       Inl (''unsupported kind: '' @ rp_Kind policy @ '' (expected ScarletRuntimePolicy)'')
     else if ps_Mode (rp_Spec policy) \<notin> {''audit'', ''enforce'', ''simulate'', []} then
       Inl (''invalid mode: '' @ ps_Mode (rp_Spec policy) @ '' (expected audit, enforce, or simulate)'')
     else
       (let policy = (if empty_selector (ps_RuleSelector (rp_Spec policy)) then select_all policy else policy) in
        case ps_NetworkPolicy (rp_Spec policy) of
          None \<Rightarrow> Inr policy
        | Some np \<Rightarrow>
            if pn_DefaultTTL np \<noteq> [] then
              (case parse_duration (pn_DefaultTTL np) of
                 Inl err \<Rightarrow> Inl (''invalid network policy TTL: '' @ err)
               | Inr d \<Rightarrow> Inr policy)
            else Inr policy))"

definition LoadPolicyFile ::
    "(string \<Rightarrow> string + duration) \<Rightarrow> (string + string + runtime_policy) \<Rightarrow> 'u policy_watcher \<Rightarrow> string option \<times> 'u policy_watcher" where
  "LoadPolicyFile parse_duration file pw =
    (case file of
       Inl err \<Rightarrow> (Some (''cannot read policy file: '' @ err), pw)
     | Inr (Inl err) \<Rightarrow> (Some (''cannot parse policy YAML: '' @ err), pw)
     | Inr (Inr policy) \<Rightarrow>
         (case ValidatePolicy parse_duration policy of
            Inl err \<Rightarrow> (Some (''invalid policy: '' @ err), pw)
          | Inr policy \<Rightarrow>
              (None, pw\<lparr>pw_policies := AList.update (pm_Name (rp_Metadata policy)) policy (pw_policies pw)\<rparr>)))"

text \<open>A directory entry: its name, whether it is a directory, and what reading and parsing it gives.\<close>

record policy_file =
  pl_Name :: string
  pl_IsDir :: bool
  pl_Data :: "string + string + runtime_policy"

text \<open>\<open>filepath.Ext\<close> is yaml or yml.\<close>

definition is_policy_file :: "policy_file \<Rightarrow> bool" where
  "is_policy_file f \<longleftrightarrow> \<not> pl_IsDir f \<and> (has_suffix (pl_Name f) ''.yaml'' \<or> has_suffix (pl_Name f) ''.yml'')"

fun load_files :: "(string \<Rightarrow> string + duration) \<Rightarrow> policy_file list \<Rightarrow> nat \<Rightarrow> 'u policy_watcher \<Rightarrow> nat \<times> 'u policy_watcher" where
  "load_files pd [] loaded pw = (loaded, pw)"
| "load_files pd (f # fs) loaded pw =
     (if \<not> is_policy_file f then load_files pd fs loaded pw
      else (case LoadPolicyFile pd (pl_Data f) pw of
              (Some err, pw) \<Rightarrow> load_files pd fs loaded (pw\<lparr>pw_loadErrors := pw_loadErrors pw + 1\<rparr>)
            | (None, pw) \<Rightarrow> load_files pd fs (loaded + 1) pw))"

text \<open>What \<open>os.ReadDir\<close> gives: the directory is missing, cannot be read, or has entries.\<close>

datatype directory = Missing | Unreadable string | Entries "policy_file list"

definition LoadFromDisk ::
    "(string \<Rightarrow> string + duration) \<Rightarrow> time \<Rightarrow> directory \<Rightarrow> 'u policy_watcher \<Rightarrow> string option \<times> 'u policy_watcher" where
  "LoadFromDisk pd now dir pw =
    (case dir of
       Missing \<Rightarrow> (None, pw)
     | Unreadable err \<Rightarrow> (Some (''cannot read policy directory '' @ pw_configDir pw @ '': '' @ err), pw)
     | Entries fs \<Rightarrow>
         (case load_files pd fs 0 pw of
            (loaded, pw) \<Rightarrow> (None, pw\<lparr>pw_policiesLoaded := loaded, pw_lastLoadTime := now\<rparr>)))"

section \<open>Starting and stopping\<close>

text \<open>\<open>pw_isRunningInK8s\<close>: the service account's token exists or the environment names the service.\<close>

definition pw_isRunningInK8s :: "bool \<Rightarrow> string \<Rightarrow> bool" where
  "pw_isRunningInK8s token_exists service_host \<longleftrightarrow> (if token_exists then True else service_host \<noteq> [])"

definition startFileWatcher :: "'u policy_watcher \<Rightarrow> 'u policy_watcher" where
  "startFileWatcher pw = pw\<lparr>pw_watchers := pw_watchers pw + 1\<rparr>"

definition startK8sWatcher :: "'u policy_watcher \<Rightarrow> 'u policy_watcher" where
  "startK8sWatcher pw = startFileWatcher pw"

definition pw_Start ::
    "(string \<Rightarrow> string + duration) \<Rightarrow> time \<Rightarrow> directory \<Rightarrow> bool \<Rightarrow> string \<Rightarrow> 'u policy_watcher \<Rightarrow> 'u policy_watcher" where
  "pw_Start pd now dir token_exists service_host pw =
    (case LoadFromDisk pd now dir pw of
       (err, pw) \<Rightarrow> if pw_isRunningInK8s token_exists service_host then startK8sWatcher pw else startFileWatcher pw)"

text \<open>One round of \<open>fileWatchLoop\<close>: it leaves on the context or the stop channel, else it reloads.\<close>

datatype watch_event = Context_Done | Stop_Closed | Tick time directory

definition watch_round :: "(string \<Rightarrow> string + duration) \<Rightarrow> watch_event \<Rightarrow> 'u policy_watcher \<Rightarrow> 'u policy_watcher" where
  "watch_round pd ev pw =
    (case ev of
       Context_Done \<Rightarrow> pw\<lparr>pw_watchers := pw_watchers pw - 1\<rparr>
     | Stop_Closed \<Rightarrow> pw\<lparr>pw_watchers := pw_watchers pw - 1\<rparr>
     | Tick now dir \<Rightarrow> snd (LoadFromDisk pd now dir pw))"

text \<open>\<open>Stop\<close> closes the channel, which panics the second time, and then waits for the loops.\<close>

definition pw_Stop :: "'u policy_watcher \<Rightarrow> 'u policy_watcher option" where
  "pw_Stop pw = (if pw_stopClosed pw then None else Some (pw\<lparr>pw_stopClosed := True\<rparr>))"

text \<open>The handlers of the Kubernetes informer only log.\<close>

definition handlePolicyAdd :: "'u policy_watcher \<Rightarrow> 'u policy_watcher" where "handlePolicyAdd pw = pw"
definition handlePolicyUpdate :: "'u policy_watcher \<Rightarrow> 'u policy_watcher" where "handlePolicyUpdate pw = pw"
definition handlePolicyDelete :: "'u policy_watcher \<Rightarrow> 'u policy_watcher" where "handlePolicyDelete pw = pw"

section \<open>Applying a policy\<close>

definition block_protocol :: "string \<Rightarrow> u8" where
  "block_protocol s =
    (if s = ''udp'' then ProtocolUDP else if s = ''any'' \<or> s = [] then ProtocolAny else if s = ''tcp'' then ProtocolTCP else ProtocolTCP)"

definition block_ttl :: "(string \<Rightarrow> string + duration) \<Rightarrow> string \<Rightarrow> duration" where
  "block_ttl pd s = (if s \<noteq> [] then (case pd s of Inr d \<Rightarrow> d | Inl err \<Rightarrow> Seconds 300) else Seconds 300)"

text \<open>\<open>ParseIP\<close>; a nil address is the empty list.\<close>

definition crd_ParseIP :: "(string \<Rightarrow> bytes) \<Rightarrow> string \<Rightarrow> bytes" where
  "crd_ParseIP net_ParseIP s = (if s = [] then [] else net_ParseIP s)"

definition apply_block ::
    "(string \<Rightarrow> string + duration) \<Rightarrow> (string \<Rightarrow> bytes) \<Rightarrow> 'u updater \<Rightarrow> time \<Rightarrow> string \<Rightarrow> network_block \<Rightarrow>
     'u net_enforcer \<Rightarrow> 'u net_enforcer" where
  "apply_block pd net_ParseIP ops now name block ne =
    (if pb_DestIP block \<noteq> [] then
       snd (BlockWithTTL ops now (crd_ParseIP net_ParseIP (pb_DestIP block)) (pb_DestPort block) (block_protocol (pb_Protocol block))
         (''CRD:'' @ name) (pb_Reason block) (block_ttl pd (pb_TTL block)) ne)
     else ne)"

text \<open>The configuration that \<open>ApplyPolicy\<close> puts together, logs, and does not use.\<close>

definition logged_config :: "policy_spec \<Rightarrow> response_config" where
  "logged_config sp =
    (let en = ps_EnforcementConfig sp; cfg = DefaultResponseActorConfig;
         cfg = (if pe_KillMode en = ''graceful'' then cfg\<lparr>rf_Mode := EnforceModeGraceful\<rparr> else cfg);
         cfg = (if pe_GracePeriodSeconds en > 0 then cfg\<lparr>rf_GracePeriodSeconds := pe_GracePeriodSeconds en\<rparr> else cfg);
         cfg = (if pe_MaxKillsPerPod en > 0 then cfg\<lparr>rf_MaxKillsPerPod := pe_MaxKillsPerPod en\<rparr> else cfg);
         cfg = (if pe_WindowSeconds en > 0 then cfg\<lparr>rf_WindowSeconds := pe_WindowSeconds en\<rparr> else cfg)
     in if ps_ProtectedNamespaces sp \<noteq> [] then cfg\<lparr>rf_ProtectedNamespaces := ps_ProtectedNamespaces sp\<rparr> else cfg)"

definition ApplyPolicy ::
    "(string \<Rightarrow> string + duration) \<Rightarrow> (string \<Rightarrow> bytes) \<Rightarrow> 'u updater \<Rightarrow> time \<Rightarrow> runtime_policy \<Rightarrow> 'u policy_watcher \<Rightarrow> 'u policy_watcher" where
  "ApplyPolicy pd net_ParseIP ops now policy pw =
    (let sp = rp_Spec policy;
         pw = (if ps_Mode sp \<noteq> [] then pw\<lparr>pw_actor := map_option (SetMode (ps_Mode sp)) (pw_actor pw)\<rparr> else pw);
         _ = (if pe_KillMode (ps_EnforcementConfig sp) \<noteq> [] then Some (logged_config sp) else None);
         pw = (case ps_NetworkPolicy sp of
                 None \<Rightarrow> pw
               | Some np \<Rightarrow>
                   if pn_Enabled np then
                     pw\<lparr>pw_enforcer := map_option
                       (fold (apply_block pd net_ParseIP ops now (pm_Name (rp_Metadata policy))) (pn_BlockList np)) (pw_enforcer pw)\<rparr>
                   else pw)
     in pw\<lparr>pw_policiesApplied := pw_policiesApplied pw + 1\<rparr>)"

section \<open>Accessors\<close>

definition ListPolicies :: "((string \<times> runtime_policy) list \<Rightarrow> (string \<times> runtime_policy) list) \<Rightarrow> 'u policy_watcher \<Rightarrow> runtime_policy list" where
  "ListPolicies perm pw = map snd (perm (pw_policies pw))"

definition GetPolicy :: "string \<Rightarrow> 'u policy_watcher \<Rightarrow> runtime_policy option" where
  "GetPolicy name pw = map_of (pw_policies pw) name"

record policy_stats =
  pv_PoliciesLoaded :: nat
  pv_PoliciesApplied :: nat
  pv_LoadErrors :: nat
  pv_LastLoadTime :: time
  pv_Connected :: bool
  pv_NodeName :: string
  pv_Namespace :: string

definition pw_Stats :: "'u policy_watcher \<Rightarrow> policy_stats" where
  "pw_Stats pw =
    \<lparr>pv_PoliciesLoaded = pw_policiesLoaded pw, pv_PoliciesApplied = pw_policiesApplied pw, pv_LoadErrors = pw_loadErrors pw,
     pv_LastLoadTime = pw_lastLoadTime pw, pv_Connected = pw_connected pw, pv_NodeName = pw_nodeName pw,
     pv_Namespace = pw_namespace pw\<rparr>"

end
