(* ===== verification/Policy_Facts.thy ===== *)
theory Policy_Facts
  imports Policy Machine
begin

text \<open>
  The policies a watcher stores are valid in every reachable state, and what applying a policy changes: the mode of
  the response actor and the blocklist, and nothing else. A watcher that is started and runs applies nothing.
\<close>

section \<open>Validation\<close>

text \<open>What validation promises; a selector that names nothing has been completed to all rules.\<close>

definition valid_policy :: "(string \<Rightarrow> string + duration) \<Rightarrow> runtime_policy \<Rightarrow> bool" where
  "valid_policy pd p \<longleftrightarrow>
    rp_APIVersion p = ''securityscarlet.ai/v1alpha1'' \<and> rp_Kind p = ''ScarletRuntimePolicy'' \<and>
    ps_Mode (rp_Spec p) \<in> {''audit'', ''enforce'', ''simulate'', []} \<and> \<not> empty_selector (ps_RuleSelector (rp_Spec p)) \<and>
    (\<forall>np. ps_NetworkPolicy (rp_Spec p) = Some np \<longrightarrow> pn_DefaultTTL np = [] \<or> (\<exists>d. pd (pn_DefaultTTL np) = Inr d))"

lemma select_all_fields [simp]:
  "rp_APIVersion (select_all p) = rp_APIVersion p" "rp_Kind (select_all p) = rp_Kind p"
  "rp_Metadata (select_all p) = rp_Metadata p" "ps_Mode (rp_Spec (select_all p)) = ps_Mode (rp_Spec p)"
  "ps_NetworkPolicy (rp_Spec (select_all p)) = ps_NetworkPolicy (rp_Spec p)"
  "\<not> empty_selector (ps_RuleSelector (rp_Spec (select_all p)))"
  by (simp_all add: select_all_def empty_selector_def)

lemma validate_valid:
  "ValidatePolicy pd p = Inr q \<Longrightarrow> valid_policy pd q \<and> q = (if empty_selector (ps_RuleSelector (rp_Spec p)) then select_all p else p)"
  by (auto simp: ValidatePolicy_def valid_policy_def Let_def split: if_splits option.splits sum.splits)

lemma validate_idempotent: "valid_policy pd p \<longleftrightarrow> ValidatePolicy pd p = Inr p"
proof
  assume "valid_policy pd p"
  then show "ValidatePolicy pd p = Inr p"
    by (auto simp: ValidatePolicy_def valid_policy_def Let_def split: option.splits sum.splits)
next
  assume "ValidatePolicy pd p = Inr p"
  then show "valid_policy pd p" using validate_valid by blast
qed

section \<open>What is stored\<close>

definition policies_ok :: "(string \<Rightarrow> string + duration) \<Rightarrow> 'u policy_watcher \<Rightarrow> bool" where
  "policies_ok pd pw \<longleftrightarrow>
    distinct (map fst (pw_policies pw)) \<and>
    (\<forall>(n, p)\<in>set (pw_policies pw). pm_Name (rp_Metadata p) = n \<and> valid_policy pd p) \<and> \<not> pw_connected pw"

text \<open>The parts of a watcher that loading leaves alone.\<close>

definition untouched :: "'u policy_watcher \<Rightarrow> 'u policy_watcher \<Rightarrow> bool" where
  "untouched pw pw' \<longleftrightarrow>
    pw_engine pw' = pw_engine pw \<and> pw_enforcer pw' = pw_enforcer pw \<and> pw_actor pw' = pw_actor pw \<and>
    pw_policiesApplied pw' = pw_policiesApplied pw \<and> set (map fst (pw_policies pw)) \<subseteq> set (map fst (pw_policies pw'))"

lemma untouched_refl: "untouched pw pw"
  by (simp add: untouched_def)

lemma untouched_trans: "untouched a b \<Longrightarrow> untouched b c \<Longrightarrow> untouched a c"
  by (auto simp: untouched_def)

lemma update_fsts: "fst ` set (AList.update k v xs) = insert k (fst ` set xs)"
  using dom_update[of k v xs] by simp

lemma update_subset: "set (AList.update k v xs) \<subseteq> insert (k, v) (set xs)"
  by (induction xs) auto

lemma load_file_keeps:
  assumes "LoadPolicyFile pd file pw = (err, pw')" "policies_ok pd pw"
  shows "policies_ok pd pw'" "untouched pw pw'"
proof -
  have "policies_ok pd pw' \<and> untouched pw pw'"
  proof (cases "\<exists>p q. file = Inr (Inr p) \<and> ValidatePolicy pd p = Inr q")
    case True
    then obtain p q where pq: "file = Inr (Inr p)" "ValidatePolicy pd p = Inr q" by blast
    then have pw': "pw' = pw\<lparr>pw_policies := AList.update (pm_Name (rp_Metadata q)) q (pw_policies pw)\<rparr>"
      using assms(1) by (simp add: LoadPolicyFile_def)
    have keys: "\<forall>(n, p)\<in>set (pw_policies pw'). pm_Name (rp_Metadata p) = n \<and> valid_policy pd p"
      using assms(2) validate_valid[OF pq(2)] update_subset[of "pm_Name (rp_Metadata q)" q "pw_policies pw"]
      unfolding policies_ok_def pw' by (auto split: prod.splits)
    show ?thesis unfolding policies_ok_def untouched_def using keys assms(2)
      by (auto simp: policies_ok_def pw' distinct_update update_fsts)
  next
    case False
    then have "pw' = pw" using assms(1) by (auto simp: LoadPolicyFile_def split: sum.splits)
    then show ?thesis using assms(2) untouched_refl by simp
  qed
  then show "policies_ok pd pw'" "untouched pw pw'" by simp_all
qed

lemma load_files_keeps:
  "load_files pd fs n pw = (m, pw') \<Longrightarrow> policies_ok pd pw \<Longrightarrow> policies_ok pd pw' \<and> untouched pw pw'"
proof (induction fs arbitrary: n pw)
  case (Cons f fs)
  show ?case
  proof (cases "is_policy_file f")
    case True
    obtain err q where q: "LoadPolicyFile pd (pl_Data f) pw = (err, q)" by (cases "LoadPolicyFile pd (pl_Data f) pw")
    note k = load_file_keeps[OF q Cons.prems(2)]
    show ?thesis
    proof (cases err)
      case None
      then have "load_files pd fs (n + 1) q = (m, pw')" using Cons.prems(1) True q by simp
      from Cons.IH[OF this k(1)] show ?thesis using k(2) untouched_trans by blast
    next
      case (Some e)
      let ?q = "q\<lparr>pw_loadErrors := pw_loadErrors q + 1\<rparr>"
      have u: "policies_ok pd ?q" "untouched pw ?q" using k by (simp_all add: policies_ok_def untouched_def)
      have "load_files pd fs n ?q = (m, pw')" using Cons.prems(1) True q Some by simp
      from Cons.IH[OF this u(1)] show ?thesis using u(2) untouched_trans by blast
    qed
  next
    case False
    then show ?thesis using Cons by simp
  qed
qed (auto simp: untouched_refl)

lemma load_keeps:
  "policies_ok pd pw \<Longrightarrow> policies_ok pd (snd (LoadFromDisk pd now dir pw)) \<and> untouched pw (snd (LoadFromDisk pd now dir pw))"
proof (cases dir)
  case (Entries fs)
  assume ok: "policies_ok pd pw"
  obtain m q where q: "load_files pd fs 0 pw = (m, q)" by (cases "load_files pd fs 0 pw")
  show ?thesis using load_files_keeps[OF q ok] by (simp add: LoadFromDisk_def Entries q policies_ok_def untouched_def)
qed (simp_all add: LoadFromDisk_def untouched_refl)

section \<open>Applying\<close>

text \<open>The part of a policy that is used when it is applied: its name, its mode and the blocks of an enabled network
  policy that name an address.\<close>

definition enabled_blocks :: "runtime_policy \<Rightarrow> network_block list" where
  "enabled_blocks p =
    (case ps_NetworkPolicy (rp_Spec p) of
       Some np \<Rightarrow> if pn_Enabled np then filter (\<lambda>b. pb_DestIP b \<noteq> []) (pn_BlockList np) else []
     | None \<Rightarrow> [])"

lemma fold_apply_block: "fold (apply_block pd ip ops now nm) bs ne = fold (apply_block pd ip ops now nm) (filter (\<lambda>b. pb_DestIP b \<noteq> []) bs) ne"
  by (induction bs arbitrary: ne) (simp_all add: apply_block_def)

lemma apply_policy_eq:
  "ApplyPolicy pd ip ops now p pw = pw
     \<lparr>pw_actor := (if ps_Mode (rp_Spec p) = [] then pw_actor pw else map_option (SetMode (ps_Mode (rp_Spec p))) (pw_actor pw)),
      pw_enforcer := map_option (fold (apply_block pd ip ops now (pm_Name (rp_Metadata p))) (enabled_blocks p)) (pw_enforcer pw),
      pw_policiesApplied := pw_policiesApplied pw + 1\<rparr>"
proof -
  have "fold (apply_block pd ip ops now nm) bs = fold (apply_block pd ip ops now nm) (filter (\<lambda>b. pb_DestIP b \<noteq> []) bs)" for nm bs
    using fold_apply_block by blast
  then show ?thesis
    by (cases pw) (simp add: ApplyPolicy_def Let_def enabled_blocks_def option.map_id0 split: option.splits)
qed

section \<open>Runs\<close>

text \<open>What happens to a watcher that is only started, ticks, and is stopped; and with it what a caller may do.\<close>

inductive run_step :: "(string \<Rightarrow> string + duration) \<Rightarrow> 'u policy_watcher \<Rightarrow> 'u policy_watcher \<Rightarrow> bool" for pd where
  run_start: "run_step pd pw (pw_Start pd now dir token host pw)"
| run_round: "0 < pw_watchers pw \<Longrightarrow> (ev = Stop_Closed \<Longrightarrow> pw_stopClosed pw) \<Longrightarrow> run_step pd pw (watch_round pd ev pw)"
| run_load: "run_step pd pw (snd (LoadFromDisk pd now dir pw))"
| run_file: "run_step pd pw (snd (LoadPolicyFile pd file pw))"
| run_stop: "pw_Stop pw = Some pw' \<Longrightarrow> run_step pd pw pw'"
| run_add: "run_step pd pw (handlePolicyAdd pw)"
| run_update: "run_step pd pw (handlePolicyUpdate pw)"
| run_delete: "run_step pd pw (handlePolicyDelete pw)"

inductive policy_step ::
    "(string \<Rightarrow> string + duration) \<Rightarrow> (string \<Rightarrow> bytes) \<Rightarrow> 'u updater \<Rightarrow> 'u policy_watcher \<Rightarrow> 'u policy_watcher \<Rightarrow> bool"
    for pd ip ops where
  policy_run: "run_step pd pw pw' \<Longrightarrow> policy_step pd ip ops pw pw'"
| policy_apply: "policy_step pd ip ops pw (ApplyPolicy pd ip ops now p pw)"
| policy_engine: "policy_step pd ip ops pw (pw_SetEngine e pw)"
| policy_enforcer: "policy_step pd ip ops pw (pw_SetNetworkEnforcer ne pw)"
| policy_actor: "policy_step pd ip ops pw (SetResponseActor a pw)"

definition loaded_by :: "(string \<Rightarrow> string + duration) \<Rightarrow> 'u policy_watcher \<Rightarrow> 'u policy_watcher \<Rightarrow> bool" where
  "loaded_by pd pw pw' \<longleftrightarrow> (policies_ok pd pw \<longrightarrow> policies_ok pd pw' \<and> untouched pw pw')"

lemma flags_keep [simp]:
  "policies_ok pd (pw\<lparr>pw_watchers := n\<rparr>) = policies_ok pd pw" "untouched a (pw\<lparr>pw_watchers := n\<rparr>) = untouched a pw"
  "policies_ok pd (pw\<lparr>pw_stopClosed := b\<rparr>) = policies_ok pd pw" "untouched a (pw\<lparr>pw_stopClosed := b\<rparr>) = untouched a pw"
  "policies_ok pd (pw\<lparr>pw_engine := e\<rparr>) = policies_ok pd pw" "policies_ok pd (pw\<lparr>pw_enforcer := x\<rparr>) = policies_ok pd pw"
  "policies_ok pd (pw\<lparr>pw_actor := y\<rparr>) = policies_ok pd pw"
  by (simp_all add: policies_ok_def untouched_def)

lemma start_loads: "loaded_by pd pw (pw_Start pd now dir token host pw)"
proof -
  obtain err q where q: "LoadFromDisk pd now dir pw = (err, q)" by (cases "LoadFromDisk pd now dir pw")
  show ?thesis using load_keeps[of pd pw now dir]
    by (simp add: loaded_by_def pw_Start_def q startK8sWatcher_def startFileWatcher_def)
qed

lemma run_step_loads: "run_step pd pw pw' \<Longrightarrow> loaded_by pd pw pw'"
proof (induction rule: run_step.induct)
  case (run_file pw f)
  obtain err q where q: "LoadPolicyFile pd f pw = (err, q)" by (cases "LoadPolicyFile pd f pw")
  then show ?case using load_file_keeps[OF q] by (simp add: loaded_by_def)
qed (auto simp: start_loads[unfolded loaded_by_def] loaded_by_def watch_round_def load_keeps pw_Stop_def untouched_refl handlePolicyAdd_def
      handlePolicyUpdate_def handlePolicyDelete_def split: watch_event.splits if_splits)

lemma apply_keeps: "policies_ok pd pw \<Longrightarrow> policies_ok pd (ApplyPolicy pd ip ops now p pw)"
  by (simp add: apply_policy_eq policies_ok_def)

interpretation policy: invariant_system
  "\<lambda>pw. \<exists>dir node. pw = NewPolicyWatcher dir node" "policy_step pd ip ops" "policies_ok pd" for pd ip ops
proof unfold_locales
  show "policies_ok pd s" if "\<exists>dir node. s = NewPolicyWatcher dir node" for s :: "'a policy_watcher"
    using that by (auto simp: policies_ok_def NewPolicyWatcher_def)
  show "policies_ok pd t" if "policies_ok pd s" "policy_step pd ip ops s t" for s t :: "'a policy_watcher"
    using that(2,1) by cases (auto dest: run_step_loads intro: apply_keeps
      simp: loaded_by_def pw_SetEngine_def pw_SetNetworkEnforcer_def SetResponseActor_def)
qed

lemma run_loads: "(run_step pd)\<^sup>*\<^sup>* pw pw' \<Longrightarrow> policies_ok pd pw \<Longrightarrow> policies_ok pd pw' \<and> untouched pw pw'"
proof (induction rule: rtranclp_induct)
  case (step y z)
  then show ?case using run_step_loads[OF step(2)] untouched_trans unfolding loaded_by_def by blast
qed (simp add: untouched_refl)

section \<open>The properties\<close>

text \<open>C14: In every reachable watcher a policy is found under its own name and passes validation unchanged; loading,
  applying and the setters, in any order and any number, cannot store another.\<close>

theorem stored_policies_valid:
  assumes "(policy_step pd ip ops)\<^sup>*\<^sup>* (NewPolicyWatcher dir node) pw" and "GetPolicy nm pw = Some p"
  shows "pm_Name (rp_Metadata p) = nm \<and> ValidatePolicy pd p = Inr p"
proof -
  have "policies_ok pd pw" using policy.reachable_inv[OF _ assms(1)] by blast
  moreover have "(nm, p) \<in> set (pw_policies pw)" using assms(2) by (simp add: GetPolicy_def map_of_SomeD)
  ultimately show ?thesis by (auto simp: policies_ok_def validate_idempotent)
qed

text \<open>C8: What a policy does. Applying it depends on its name, its mode and the enabled blocks with an address only, so
  rule selector, exceptions, kill mode and limits, protected namespaces and the default time to live have no effect; the
  engine stays as it is and the actor changes in its mode at most. A watcher that starts, ticks, reloads and stops applies
  no policy at all and forgets none, whatever the directory holds.\<close>

theorem policy_effect:
  assumes "pm_Name (rp_Metadata p) = pm_Name (rp_Metadata q)" "ps_Mode (rp_Spec p) = ps_Mode (rp_Spec q)"
    and "enabled_blocks p = enabled_blocks q" "(run_step pd)\<^sup>*\<^sup>* (ApplyPolicy pd ip ops now p pw) pw'" "policies_ok pd pw"
  shows "ApplyPolicy pd ip ops now p pw = ApplyPolicy pd ip ops now q pw \<and>
    pw_engine pw' = pw_engine pw \<and>
    pw_actor pw' = map_option (\<lambda>r. r\<lparr>ra_mode := if ps_Mode (rp_Spec q) = [] then ra_mode r else ps_Mode (rp_Spec q)\<rparr>) (pw_actor pw) \<and>
    pw_enforcer pw' = map_option (fold (apply_block pd ip ops now (pm_Name (rp_Metadata q))) (enabled_blocks q)) (pw_enforcer pw) \<and>
    pw_policiesApplied pw' = pw_policiesApplied pw + 1 \<and>
    (\<forall>nm. GetPolicy nm pw \<noteq> None \<longrightarrow> GetPolicy nm pw' \<noteq> None)"
proof -
  have u: "untouched (ApplyPolicy pd ip ops now p pw) pw'" using run_loads[OF assms(4) apply_keeps[OF assms(5)]] by simp
  have mode: "SetMode m r = r\<lparr>ra_mode := m\<rparr>" "r\<lparr>ra_mode := ra_mode r\<rparr> = r" for m r by (simp_all add: SetMode_def)
  have "GetPolicy nm pw' \<noteq> None" if "GetPolicy nm pw \<noteq> None" for nm
    using u that by (auto simp: untouched_def apply_policy_eq GetPolicy_def map_of_eq_None_iff)
  then show ?thesis using u assms(1-3)
    by (auto simp: untouched_def apply_policy_eq mode option.map_ident split: option.splits cong: option.map_cong)
qed

section \<open>Examples\<close>

definition demo_pd :: "string \<Rightarrow> string + duration" where
  "demo_pd s = (if s = ''1m'' then Inr (Seconds 60) else Inl (''invalid duration '' @ s))"

definition demo_policy :: runtime_policy where
  "demo_policy =
    \<lparr>rp_APIVersion = ''securityscarlet.ai/v1alpha1'', rp_Kind = ''ScarletRuntimePolicy'',
     rp_Metadata = \<lparr>pm_Name = ''p1'', pm_Namespace = [], pm_Labels = Map.empty, pm_Annotations = Map.empty,
                    pm_CreationTimestamp = 0, pm_ResourceVersion = []\<rparr>,
     rp_Spec = \<lparr>ps_Mode = ''enforce'',
                ps_RuleSelector = \<lparr>rq_IDs = [], rq_Categories = [], rq_Priorities = [], rq_Tags = [], rq_All = False\<rparr>,
                ps_Exceptions = [],
                ps_EnforcementConfig = \<lparr>pe_KillMode = ''graceful'', pe_GracePeriodSeconds = 9, pe_MaxKillsPerPod = 1, pe_WindowSeconds = 1\<rparr>,
                ps_ProtectedNamespaces = [''kube-system''],
                ps_NetworkPolicy = Some \<lparr>pn_Enabled = False, pn_DefaultTTL = ''1m'', pn_BlockList = []\<rparr>\<rparr>,
     rp_Status = None\<rparr>"

text \<open>The same name and mode with nothing else.\<close>

definition bare_policy :: runtime_policy where
  "bare_policy = demo_policy\<lparr>rp_Spec := (rp_Spec demo_policy)\<lparr>
     ps_EnforcementConfig := \<lparr>pe_KillMode = [], pe_GracePeriodSeconds = 0, pe_MaxKillsPerPod = 0, pe_WindowSeconds = 0\<rparr>,
     ps_ProtectedNamespaces := [], ps_NetworkPolicy := None\<rparr>\<rparr>"

definition demo_watcher :: "tc_loader policy_watcher" where
  "demo_watcher = SetResponseActor (Some (NewResponseActorWithConfig 1 ''audit'' DefaultResponseActorConfig)) (NewPolicyWatcher ''d'' ''n'')"

lemma demo_validates: "ValidatePolicy demo_pd demo_policy = Inr (select_all demo_policy)"
  by (simp add: ValidatePolicy_def demo_policy_def empty_selector_def demo_pd_def Let_def)

lemma stored_policies_valid_witness:
  "GetPolicy ''p1'' (snd (LoadPolicyFile demo_pd (Inr (Inr demo_policy)) (NewPolicyWatcher ''d'' ''n'' :: tc_loader policy_watcher)))
     = Some (select_all demo_policy) \<and>
   pm_Name (rp_Metadata (select_all demo_policy)) = ''p1'' \<and>
   ValidatePolicy demo_pd (select_all demo_policy) = Inr (select_all demo_policy)"
proof -
  let ?w = "snd (LoadPolicyFile demo_pd (Inr (Inr demo_policy)) (NewPolicyWatcher ''d'' ''n'' :: tc_loader policy_watcher))"
  have g: "GetPolicy ''p1'' ?w = Some (select_all demo_policy)"
    by (simp add: LoadPolicyFile_def demo_validates GetPolicy_def NewPolicyWatcher_def) (simp add: demo_policy_def)
  have "(policy_step demo_pd (\<lambda>_. []) tc_updater)\<^sup>*\<^sup>* (NewPolicyWatcher ''d'' ''n'') ?w"
    by (rule r_into_rtranclp, rule policy_run, rule run_file)
  from stored_policies_valid[OF this g] show ?thesis using g by simp
qed

lemma policy_effect_witness:
  "ApplyPolicy demo_pd (\<lambda>_. []) tc_updater 0 demo_policy demo_watcher = ApplyPolicy demo_pd (\<lambda>_. []) tc_updater 0 bare_policy demo_watcher \<and>
   map_option ra_mode (pw_actor (ApplyPolicy demo_pd (\<lambda>_. []) tc_updater 0 demo_policy demo_watcher)) = Some ''enforce''"
proof -
  have same: "pm_Name (rp_Metadata demo_policy) = pm_Name (rp_Metadata bare_policy)"
    "ps_Mode (rp_Spec demo_policy) = ps_Mode (rp_Spec bare_policy)" "enabled_blocks demo_policy = enabled_blocks bare_policy"
    by (simp_all add: bare_policy_def enabled_blocks_def demo_policy_def)
  have ok: "policies_ok demo_pd demo_watcher" by (simp add: demo_watcher_def policies_ok_def SetResponseActor_def NewPolicyWatcher_def)
  have "ps_Mode (rp_Spec bare_policy) = ''enforce''" by (simp add: bare_policy_def demo_policy_def)
  moreover have "\<exists>a. pw_actor demo_watcher = Some a" by (simp add: demo_watcher_def SetResponseActor_def)
  ultimately show ?thesis using policy_effect[OF same rtranclp.rtrancl_refl ok, of "\<lambda>_. []" tc_updater 0] by auto
qed

end
