(* ===== verification/Ai_Client.thy ===== *)
theory Ai_Client
  imports Machine Complex_Main
begin

text \<open>
  The gRPC client of the AI service (\<open>pkg/ai/proto/types.go\<close>) with its message types, and the event
  stream that stands in for a bidirectional stream. What \<open>grpc.DialContext\<close>, closing the connection and
  the health service answer are arguments. The remote procedures are stubs in the code as well.
\<close>

section \<open>Messages\<close>

record process_message =
  xp_Filename :: string
  xp_Args :: string

record file_message =
  xf_Path :: string
  xf_Flags :: u32
  xf_Mode :: u32

record network_message =
  xn_RemoteAddr :: "u8 list"
  xn_LocalAddr :: "u8 list"
  xn_RemotePort :: u32
  xn_LocalPort :: u32
  xn_Protocol :: u32

record escape_message =
  xe_NSType :: u32
  xe_TargetNS :: "u32 list"

record privilege_message =
  xv_OldUID :: u32
  xv_NewUID :: u32
  xv_Capability :: u32
  xv_ModeFlags :: u32

record security_event =
  xs_TimestampNS :: u64
  xs_PID :: u32
  xs_PPID :: u32
  xs_UID :: u32
  xs_GID :: u32
  xs_Category :: u32
  xs_EventType :: u32
  xs_SyscallNr :: u32
  xs_Comm :: string
  xs_ContainerID :: string
  xs_ContainerImage :: string
  xs_Namespace :: string
  xs_ProcessPayload :: "process_message option"
  xs_FilePayload :: "file_message option"
  xs_NetworkPayload :: "network_message option"
  xs_EscapePayload :: "escape_message option"
  xs_PrivilegePayload :: "privilege_message option"

record analysis =
  xa_AnomalyScore :: real
  xa_Classification :: string
  xa_Description :: string
  xa_EnforceRecommended :: bool
  xa_Confidence :: real
  xa_ModelVersion :: string

record profile_request =
  xq_Image :: string
  xq_ForceRebuild :: bool

record syscall_profile =
  xy_TopSyscalls :: "string \<rightharpoonup> real"
  xy_UniqueSyscallCount :: int
  xy_NgramHashes :: "u64 list"

record network_profile =
  xw_ExpectedPorts :: "u32 \<rightharpoonup> real"
  xw_ExpectedProtocols :: "string \<rightharpoonup> real"
  xw_ConnectionRate :: real

record file_profile =
  xz_ReadPaths :: "string list"
  xz_WritePaths :: "string list"
  xz_DriftBaseline :: "string list"

record profile =
  xb_Image :: string
  xb_SyscallProfile :: "syscall_profile option"
  xb_NetworkProfile :: "network_profile option"
  xb_FileProfile :: "file_profile option"
  xb_BaselineEvents :: u64
  xb_Confidence :: real

record alert_message =
  xl_RuleID :: string
  xl_Priority :: string
  xl_Namespace :: string
  xl_Container :: string
  xl_Output :: string
  xl_ProcessName :: string
  xl_PID :: u32
  xl_ContainerImage :: string

record triage =
  xt_FalsePositiveScore :: real
  xt_Priority :: string
  xt_Reasoning :: string
  xt_SuppressRecommended :: bool
  xt_Confidence :: real

record incident_event =
  xi_EventType :: string
  xi_ProcessName :: string
  xi_PID :: u32
  xi_Category :: string
  xi_TimestampNS :: u64
  xi_Details :: "string \<rightharpoonup> string"

record incident_context =
  xc_RuleID :: string
  xc_Events :: "incident_event list"
  xc_ContainerImage :: string
  xc_Namespace :: string
  xc_TimestampNS :: u64

record suggestion =
  xr_RuleYAML :: string
  xr_Reasoning :: string
  xr_BasedOnIncidents :: nat
  xr_Confidence :: real
  xr_Status :: string

section \<open>The client\<close>

text \<open>A connection is whatever \<open>DialContext\<close> gives; the health client holds the connection it was made on.\<close>

record 'c ai_client =
  xk_conn :: "'c option"
  xk_healthClient :: "'c option"
  xk_endpoint :: string
  xk_timeout :: duration
  xk_connected :: bool
  xk_healthy :: bool

definition NewSecurityScarletAIClient :: "string \<Rightarrow> duration \<Rightarrow> 'c ai_client" where
  "NewSecurityScarletAIClient endpoint timeout =
    \<lparr>xk_conn = None, xk_healthClient = None, xk_endpoint = endpoint,
     xk_timeout = (if timeout \<le> 0 then Seconds 5 else timeout), xk_connected = False, xk_healthy = False\<rparr>"

definition client_Connect :: "(string \<Rightarrow> duration \<Rightarrow> string + 'c) \<Rightarrow> 'c ai_client \<Rightarrow> string option \<times> 'c ai_client" where
  "client_Connect dial c =
    (if xk_connected c then (None, c)
     else (case dial (xk_endpoint c) (xk_timeout c) of
             Inl err \<Rightarrow> (Some (''gRPC connection to '' @ xk_endpoint c @ '' failed: '' @ err), c)
           | Inr conn \<Rightarrow> (None, c\<lparr>xk_conn := Some conn, xk_healthClient := Some conn, xk_connected := True\<rparr>)))"

definition client_Disconnect :: "('c \<Rightarrow> string option) \<Rightarrow> 'c ai_client \<Rightarrow> string option \<times> 'c ai_client" where
  "client_Disconnect close c =
    (case xk_conn c of
       None \<Rightarrow> (None, c)
     | Some conn \<Rightarrow>
         if \<not> xk_connected c then (None, c)
         else (close conn, c\<lparr>xk_connected := False, xk_healthy := False, xk_conn := None\<rparr>))"

definition client_IsConnected :: "'c ai_client \<Rightarrow> bool" where
  "client_IsConnected c = xk_connected c"

text \<open>The health service answers an error or whether the service is serving.\<close>

definition CheckHealth :: "('c \<Rightarrow> string + bool) \<Rightarrow> 'c ai_client \<Rightarrow> (bool \<times> string option) \<times> 'c ai_client" where
  "CheckHealth check c =
    (case xk_healthClient c of
       None \<Rightarrow> ((False, Some ''not connected''), c)
     | Some hc \<Rightarrow>
         (case check hc of
            Inl err \<Rightarrow> ((False, Some (''health check failed: '' @ err)), c\<lparr>xk_healthy := False\<rparr>)
          | Inr healthy \<Rightarrow> ((healthy, None), c\<lparr>xk_healthy := healthy\<rparr>)))"

definition client_AnalyzeEvents :: "'c ai_client \<Rightarrow> security_event \<Rightarrow> analysis" where
  "client_AnalyzeEvents c event =
    (if \<not> xk_connected c then
       \<lparr>xa_AnomalyScore = 0, xa_Classification = ''unknown'', xa_Description = ''AI service not connected'',
        xa_EnforceRecommended = False, xa_Confidence = 0, xa_ModelVersion = []\<rparr>
     else
       \<lparr>xa_AnomalyScore = 0, xa_Classification = ''unknown'',
        xa_Description = ''gRPC AnalyzeEvents stub (protobuf code generation pending)'',
        xa_EnforceRecommended = False, xa_Confidence = 0, xa_ModelVersion = ''stub-v0''\<rparr>)"

definition client_GetProfile :: "'c ai_client \<Rightarrow> profile_request \<Rightarrow> profile" where
  "client_GetProfile c req =
    (if \<not> xk_connected c then
       \<lparr>xb_Image = xq_Image req, xb_SyscallProfile = None, xb_NetworkProfile = None, xb_FileProfile = None,
        xb_BaselineEvents = 0, xb_Confidence = 0\<rparr>
     else
       \<lparr>xb_Image = xq_Image req, xb_SyscallProfile = None, xb_NetworkProfile = None, xb_FileProfile = None,
        xb_BaselineEvents = 0, xb_Confidence = 0\<rparr>)"

definition client_TriageAlert :: "'c ai_client \<Rightarrow> alert_message \<Rightarrow> triage" where
  "client_TriageAlert c alert =
    (if \<not> xk_connected c then
       \<lparr>xt_FalsePositiveScore = 1 / 2, xt_Priority = xl_Priority alert, xt_Reasoning = [], xt_SuppressRecommended = False,
        xt_Confidence = 0\<rparr>
     else
       \<lparr>xt_FalsePositiveScore = 1 / 2, xt_Priority = xl_Priority alert, xt_Reasoning = ''gRPC TriageAlert stub'',
        xt_SuppressRecommended = False, xt_Confidence = 0\<rparr>)"

definition client_SuggestRule :: "'c ai_client \<Rightarrow> incident_context \<Rightarrow> string + suggestion" where
  "client_SuggestRule c incident =
    (if \<not> xk_connected c then Inl ''AI service not connected for rule suggestion''
     else Inr
       \<lparr>xr_RuleYAML = ''# AI-suggested rule placeholder (gRPC SuggestRule stub)'',
        xr_Reasoning = ''Based on '' @ show_nat (length (xc_Events incident)) @ '' incidents related to '' @ xc_RuleID incident,
        xr_BasedOnIncidents = length (xc_Events incident), xr_Confidence = 0, xr_Status = ''draft''\<rparr>)"

section \<open>The event stream\<close>

text \<open>\<open>Send\<close> writes to a channel of capacity 100 with the mutex held, so on a full channel it blocks and keeps
  the mutex. A call returns, or blocks and leaves the state it has reached.\<close>

datatype 'r call = Returns 'r | Blocks

record event_stream =
  xm_events :: "security_event list"
  xm_results :: "analysis list"
  xm_closed :: bool
  xm_locked :: bool

definition NewEventStream :: event_stream where
  "NewEventStream = \<lparr>xm_events = [], xm_results = [], xm_closed = False, xm_locked = False\<rparr>"

definition stream_capacity :: nat where "stream_capacity = 100"

definition stream_Send :: "security_event \<Rightarrow> event_stream \<Rightarrow> string option call \<times> event_stream" where
  "stream_Send event s =
    (if xm_locked s then (Blocks, s)
     else if xm_closed s then (Returns (Some ''EOF''), s)
     else if length (xm_events s) < stream_capacity then (Returns None, s\<lparr>xm_events := xm_events s @ [event]\<rparr>)
     else (Blocks, s\<lparr>xm_locked := True\<rparr>))"

definition unknown_analysis :: analysis where
  "unknown_analysis =
    \<lparr>xa_AnomalyScore = 0, xa_Classification = ''unknown'', xa_Description = [], xa_EnforceRecommended = False,
     xa_Confidence = 0, xa_ModelVersion = []\<rparr>"

definition stream_Recv :: "event_stream \<Rightarrow> (string + analysis) call \<times> event_stream" where
  "stream_Recv s =
    (if xm_locked s then (Blocks, s)
     else if xm_closed s then (Returns (Inl ''EOF''), s)
     else (case xm_results s of
             r # rs \<Rightarrow> (Returns (Inr r), s\<lparr>xm_results := rs\<rparr>)
           | [] \<Rightarrow> (Returns (Inr unknown_analysis), s)))"

definition stream_Close :: "event_stream \<Rightarrow> unit call \<times> event_stream" where
  "stream_Close s = (if xm_locked s then (Blocks, s) else (Returns (), s\<lparr>xm_closed := True\<rparr>))"

section \<open>Properties\<close>

text \<open>The two branches of the profile request agree, and triage and analysis differ in their text only: the answer
  never depends on the event.\<close>

lemma profile_ignores_connection: "client_GetProfile c req = client_GetProfile c' req"
  by (simp add: client_GetProfile_def)

lemma answers_are_neutral:
  "xa_EnforceRecommended (client_AnalyzeEvents c e) = False" "xa_AnomalyScore (client_AnalyzeEvents c e) = 0"
  "xt_SuppressRecommended (client_TriageAlert c a) = False" "xt_Priority (client_TriageAlert c a) = xl_Priority a"
  by (simp_all add: client_AnalyzeEvents_def client_TriageAlert_def)

text \<open>\<open>connected\<close> and the connection stay together; the health client outlives the connection.\<close>

inductive client_step :: "'c ai_client \<Rightarrow> 'c ai_client \<Rightarrow> bool" where
  step_connect: "client_step c (snd (client_Connect dial c))"
| step_disconnect: "client_step c (snd (client_Disconnect close c))"
| step_health: "client_step c (snd (CheckHealth check c))"

definition client_ok :: "'c ai_client \<Rightarrow> bool" where
  "client_ok c \<longleftrightarrow>
    (xk_connected c \<longleftrightarrow> xk_conn c \<noteq> None) \<and> (xk_conn c \<noteq> None \<longrightarrow> xk_healthClient c = xk_conn c) \<and>
    (xk_healthy c \<longrightarrow> xk_healthClient c \<noteq> None) \<and> 0 < xk_timeout c"

interpretation ai_client: invariant_system
  "\<lambda>c. \<exists>endpoint timeout. c = NewSecurityScarletAIClient endpoint timeout" client_step client_ok
proof unfold_locales
  show "client_ok c" if "\<exists>endpoint timeout. c = NewSecurityScarletAIClient endpoint timeout" for c :: "'a ai_client"
    using that by (auto simp: client_ok_def NewSecurityScarletAIClient_def)
  show "client_ok t" if "client_ok s" "client_step s t" for s t :: "'a ai_client"
    using that(2,1) by cases
      (auto simp: client_ok_def client_Connect_def client_Disconnect_def CheckHealth_def split: option.splits sum.splits)
qed

lemma health_survives_disconnect:
  assumes "xk_conn c = Some conn" "xk_connected c" "xk_healthClient c = Some conn" "check conn = Inr True"
  shows "let c = snd (CheckHealth check (snd (client_Disconnect close c))) in \<not> client_IsConnected c \<and> xk_healthy c"
  using assms by (simp add: client_Disconnect_def CheckHealth_def client_IsConnected_def Let_def)

text \<open>Nothing takes an event out of the stream, so the 101st \<open>Send\<close> on an open stream blocks with the
  mutex, and after it every call blocks, \<open>Close\<close> included.\<close>

definition send_all :: "security_event list \<Rightarrow> event_stream \<Rightarrow> event_stream" where
  "send_all = fold (\<lambda>e s. snd (stream_Send e s))"

lemma sends_fill:
  "\<not> xm_closed s \<Longrightarrow> \<not> xm_locked s \<Longrightarrow> length (xm_events s) \<le> stream_capacity \<Longrightarrow>
     xm_locked (send_all es s) \<longleftrightarrow> length (xm_events s) + length es > stream_capacity"
proof (induction es arbitrary: s)
  case (Cons e es)
  show ?case
  proof (cases "length (xm_events s) < stream_capacity")
    case True
    then show ?thesis using Cons by (simp add: send_all_def stream_Send_def)
  next
    case False
    have locked: "xm_locked s \<Longrightarrow> fold (\<lambda>e s. snd (stream_Send e s)) es s = s" for s
      by (induction es) (simp_all add: stream_Send_def)
    have "snd (stream_Send e s) = s\<lparr>xm_locked := True\<rparr>" using False Cons.prems by (simp add: stream_Send_def)
    then show ?thesis using False Cons.prems by (simp add: send_all_def locked)
  qed
qed (simp add: send_all_def)

lemma stream_deadlock:
  "fst (stream_Close (send_all es NewEventStream)) = Blocks \<longleftrightarrow> length es > 100"
  "fst (stream_Recv (send_all es NewEventStream)) = Blocks \<longleftrightarrow> length es > 100"
  using sends_fill[of NewEventStream es]
  by (auto simp: NewEventStream_def stream_capacity_def stream_Close_def stream_Recv_def split: list.splits)

end
