(* ===== verification/Engine_Api.thy ===== *)
theory Engine_Api
  imports Catalog_Detection
begin

text \<open>
  The rest of \<open>pkg/rules/engine.go\<close>: the counters and lists that tools read, the validation of one file, and the
  engine's own placeholder for policies, which never suppresses a match.
\<close>

section \<open>Accessors\<close>

definition RuleCount :: "engine \<Rightarrow> int" where "RuleCount e = eg_ruleCount e"
definition EnforceCount :: "engine \<Rightarrow> int" where "EnforceCount e = eg_enforceCount e"
definition AlertCount :: "engine \<Rightarrow> int" where "AlertCount e = eg_alertCount e"
definition engine_Lists :: "engine \<Rightarrow> string \<rightharpoonup> string list" where "engine_Lists e = eg_lists e"

text \<open>\<open>ValidateFile\<close> on what reading the file gives.\<close>

definition ValidateFile ::
    "macro_order \<Rightarrow> (string \<Rightarrow> duration) \<Rightarrow> (string \<Rightarrow> string + string) \<Rightarrow> string + yaml_decoded \<Rightarrow> string + validation_result" where
  "ValidateFile ord pd nw file =
    (case file of Inl err \<Rightarrow> Inl err | Inr data \<Rightarrow> Inr (ValidateYAML ord pd nw data))"

section \<open>The policy placeholder\<close>

record rule_opa =
  ro_policies :: "(string \<times> string) list"
  ro_enabled :: bool

definition rules_NewOPAEvaluator :: rule_opa where
  "rules_NewOPAEvaluator = \<lparr>ro_policies = [], ro_enabled = True\<rparr>"

definition rules_AddPolicy :: "string \<Rightarrow> string \<Rightarrow> rule_opa \<Rightarrow> rule_opa" where
  "rules_AddPolicy ruleID regoQuery p = p\<lparr>ro_policies := AList.update ruleID regoQuery (ro_policies p)\<rparr>"

definition rules_RemovePolicy :: "string \<Rightarrow> rule_opa \<Rightarrow> rule_opa" where
  "rules_RemovePolicy ruleID p = p\<lparr>ro_policies := AList.delete ruleID (ro_policies p)\<rparr>"

definition rules_opa_Evaluate :: "string \<Rightarrow> rule_opa \<Rightarrow> bool" where
  "rules_opa_Evaluate ruleID p =
    (if \<not> ro_enabled p then False else if map_of (ro_policies p) ruleID = None then False else False)"

definition rules_PolicyCount :: "rule_opa \<Rightarrow> nat" where
  "rules_PolicyCount p = length (ro_policies p)"

definition rules_HasPolicy :: "string \<Rightarrow> rule_opa \<Rightarrow> bool" where
  "rules_HasPolicy ruleID p \<longleftrightarrow> map_of (ro_policies p) ruleID \<noteq> None"

text \<open>The count is the number of rules with a policy, whatever was added and removed; none of them suppresses anything.\<close>

definition opa_ok :: "rule_opa \<Rightarrow> bool" where
  "opa_ok p \<longleftrightarrow> distinct (map fst (ro_policies p))"

lemma opa_ok_keeps:
  "opa_ok rules_NewOPAEvaluator" "opa_ok p \<Longrightarrow> opa_ok (rules_AddPolicy i q p)" "opa_ok p \<Longrightarrow> opa_ok (rules_RemovePolicy i p)"
  by (simp_all add: opa_ok_def rules_NewOPAEvaluator_def rules_AddPolicy_def rules_RemovePolicy_def distinct_update
      distinct_delete)

lemma policy_count: "opa_ok p \<Longrightarrow> rules_PolicyCount p = card {i. rules_HasPolicy i p}"
proof -
  assume "opa_ok p"
  then have "length (ro_policies p) = card (set (map fst (ro_policies p)))"
    using distinct_card[of "map fst (ro_policies p)"] by (simp add: opa_ok_def)
  moreover have "set (map fst (ro_policies p)) = {i. rules_HasPolicy i p}"
    by (force simp: rules_HasPolicy_def map_of_eq_None_iff)
  ultimately show ?thesis by (simp add: rules_PolicyCount_def)
qed

lemma policies_never_suppress: "\<not> rules_opa_Evaluate ruleID p"
  by (simp add: rules_opa_Evaluate_def)

end
