(* ===== verification/Cli.thy ===== *)
theory Cli
  imports Agent Engine_Api "HOL-Library.Char_ord" "HOL-Library.List_Lexorder"
begin

text \<open>
  The command line (\<open>pkg/cli\<close>): a command's effect, its exit status and the numbers and rows it prints. Reading
  files and the flag parser of cobra are arguments; only \<open>start\<close> reaches an agent.
\<close>

section \<open>Starting the agent\<close>

definition loadAgentConfig ::
    "(string \<Rightarrow> string + string) \<Rightarrow> (string \<Rightarrow> config \<Rightarrow> string + config) \<Rightarrow> config \<Rightarrow> string \<Rightarrow> config" where
  "loadAgentConfig readFile unmarshal defaults path =
    (if path \<noteq> [] then (case LoadConfig readFile unmarshal defaults path of Inl err \<Rightarrow> defaults | Inr cfg \<Rightarrow> cfg)
     else defaults)"

definition runAgent :: "(int \<Rightarrow> string) \<Rightarrow> (real \<Rightarrow> string) \<Rightarrow> host \<Rightarrow> config \<Rightarrow> string option \<times> agent option" where
  "runAgent fmt fmt_float h cfg =
    (case New fmt fmt_float (ht_now h) cfg of
       Inl err \<Rightarrow> (Some (''failed to create agent: '' @ err), None)
     | Inr a \<Rightarrow> (case at_Start h a of (err, a) \<Rightarrow> (err, Some a)))"

record start_flags =
  sf_Config :: string
  sf_Mode :: string
  sf_RulesPath :: string
  sf_Verbose :: bool

definition startCmd ::
    "(string \<Rightarrow> string + string) \<Rightarrow> (string \<Rightarrow> config \<Rightarrow> string + config) \<Rightarrow> config \<Rightarrow>
     (int \<Rightarrow> string) \<Rightarrow> (real \<Rightarrow> string) \<Rightarrow> host \<Rightarrow> start_flags \<Rightarrow> string option \<times> agent option" where
  "startCmd readFile unmarshal defaults fmt fmt_float h fl =
    (let cfg = loadAgentConfig readFile unmarshal defaults (sf_Config fl)
     in runAgent fmt fmt_float h (ApplyOverrides (sf_Mode fl) (sf_RulesPath fl) (sf_Verbose fl) cfg))"

section \<open>Rules\<close>

text \<open>\<open>rules list\<close>: the header's counts and the rows, by rule ID.\<close>

definition rulesListCmd ::
    "(string + engine) \<Rightarrow> (compiled_rule list \<Rightarrow> compiled_rule list) \<Rightarrow> string + (int \<times> int \<times> int) \<times> (string \<times> string \<times> string \<times> string) list" where
  "rulesListCmd engine perm =
    (case engine of
       Inl err \<Rightarrow> Inl (''failed to load rule engine: '' @ err)
     | Inr e \<Rightarrow> Inr ((RuleCount e, EnforceCount e, AlertCount e),
         map (\<lambda>r. (cr_ID r, cr_Action r, cr_Priority r, cr_Name r)) (sort_key cr_ID (perm (AllRules e)))))"

text \<open>\<open>rules validate\<close>: the exit status and the errors printed.\<close>

definition rulesValidateCmd ::
    "macro_order \<Rightarrow> (string \<Rightarrow> duration) \<Rightarrow> (string \<Rightarrow> string + string) \<Rightarrow> string \<Rightarrow> string + yaml_decoded \<Rightarrow> string + nat \<times> string list" where
  "rulesValidateCmd ord pd nw path file =
    (case ValidateFile ord pd nw file of
       Inl err \<Rightarrow> Inl (''validate '' @ path @ '': '' @ err)
     | Inr res \<Rightarrow> if length (vr_Errors res) > 0 then Inr (1, vr_Errors res) else Inr (0, []))"

section \<open>The commands that only print\<close>

definition stopCmd :: "string list" where
  "stopCmd = [''Stopping SecurityScarlet Runtime Agent...'', ''Agent stopped.'']"

definition statusCmd :: "string \<Rightarrow> string list" where
  "statusCmd version =
    [''SecurityScarlet Runtime Agent Status'', ''==================================='', ''  Version:    '' @ version,
     ''  Status:     Not running'', [], ''  Use 'scarletctl start' to launch the agent.'']"

definition eventsCmd :: "string list" where
  "eventsCmd = [''Streaming live events... (press Ctrl+C to stop)'', ''Note: Agent must be running for events to appear.'']"

definition simulateCmd :: "string list" where
  "simulateCmd = [''Switching agent to SIMULATE mode...'', ''All enforce rules will log but not take action.'']"

definition enforceCmd :: "string list" where
  "enforceCmd = [''Switching agent to ENFORCE mode...'', ''WARNING: Enforcement actions (SIGKILL, LSM deny) are ACTIVE.'']"

text \<open>The dash of the last line is three bytes of UTF-8.\<close>

definition auditCmd :: "string list" where
  "auditCmd =
    [''Switching agent to AUDIT mode...'',
     ''All rules will alert only '' @ map char_of [0xE2, 0x80, 0x94 :: nat] @ '' no enforcement actions.'']"

definition versionCmd :: "string \<Rightarrow> string \<Rightarrow> string \<Rightarrow> string list" where
  "versionCmd version commit buildTime =
    [''SecurityScarlet Runtime '' @ version, ''  Commit:  '' @ commit, ''  Built:    '' @ buildTime]"

text \<open>A command line, with what it prints, and the agent it leaves behind. \<open>Execute\<close> turns a returned error into the
  exit status 1. What \<open>start\<close> prints before the agent runs is left out.\<close>

datatype command = Start_Cmd start_flags | Stop_Cmd | Status_Cmd | Events_Cmd | Simulate_Cmd | Enforce_Cmd | Audit_Cmd | Version_Cmd

definition Execute ::
    "(start_flags \<Rightarrow> string option \<times> agent option) \<Rightarrow> string \<Rightarrow> string \<Rightarrow> string \<Rightarrow> command \<Rightarrow> agent option \<Rightarrow>
     nat \<times> string list \<times> agent option" where
  "Execute start version commit buildTime c a =
    (case c of
       Start_Cmd fl \<Rightarrow> (case start fl of (Some err, b) \<Rightarrow> (1, [], b) | (None, b) \<Rightarrow> (0, [], b))
     | Stop_Cmd \<Rightarrow> (0, stopCmd, a)
     | Status_Cmd \<Rightarrow> (0, statusCmd version, a)
     | Events_Cmd \<Rightarrow> (0, eventsCmd, a)
     | Simulate_Cmd \<Rightarrow> (0, simulateCmd, a)
     | Enforce_Cmd \<Rightarrow> (0, enforceCmd, a)
     | Audit_Cmd \<Rightarrow> (0, auditCmd, a)
     | Version_Cmd \<Rightarrow> (0, versionCmd version commit buildTime, a))"

section \<open>What the commands do\<close>

text \<open>A configuration file that cannot be read or parsed is replaced by the defaults, in audit mode and with the
  built-in paths; the agent then starts as if no file had been named.\<close>

lemma broken_config_is_dropped:
  assumes "LoadConfig readFile unmarshal defaults (sf_Config fl) = Inl err"
  shows "startCmd readFile unmarshal defaults fmt ff h fl = startCmd readFile unmarshal defaults fmt ff h (fl\<lparr>sf_Config := []\<rparr>)"
  using assms by (simp add: startCmd_def loadAgentConfig_def)

text \<open>An unknown mode stops the start before an agent exists, whatever the file says.\<close>

lemma unknown_mode_fails:
  assumes "Validate fmt ff (loadAgentConfig readFile unmarshal defaults (sf_Config fl)) = None"
    and "sf_Mode fl \<notin> {[], ''audit'', ''enforce'', ''simulate''}"
  shows "\<exists>err. startCmd readFile unmarshal defaults fmt ff h fl = (Some err, None)"
  using overrides_valid[OF assms(1), of "sf_Mode fl" "sf_RulesPath fl" "sf_Verbose fl"] assms(2)
  by (auto simp: startCmd_def runAgent_def New_def Let_def split: option.splits)

text \<open>No command but \<open>start\<close> changes the agent, and the status is not running even when it runs.\<close>

lemma commands_change_nothing:
  "\<forall>fl. c \<noteq> Start_Cmd fl \<Longrightarrow> fst (Execute st v k b c a) = 0 \<and> snd (snd (Execute st v k b c a)) = a"
  by (cases c) (auto simp: Execute_def)

text \<open>The listed rows are sorted and are the rules of the engine, in whatever order the map is visited.\<close>

lemma rules_list_sorted:
  assumes "\<And>xs. mset (perm xs) = mset xs" "rulesListCmd (Inr e) perm = Inr (counts, rows)"
  shows "sorted (map fst rows)" "mset rows = mset (map (\<lambda>r. (cr_ID r, cr_Action r, cr_Priority r, cr_Name r)) (AllRules e))"
  using assms by (auto simp: rulesListCmd_def o_def)

lemma catalog_listing:
  assumes "rulesListCmd (Inr catalog_engine) perm = Inr (counts, rows)" "\<And>xs. mset (perm xs) = mset xs"
  shows "counts = (30, 12, 18) \<and> length rows = 30"
proof -
  have n: "eg_ruleCount catalog_engine = 30" "eg_enforceCount catalog_engine = 12" "eg_alertCount catalog_engine = 18"
    using catalog_engine_facts catalog_counts by (simp_all add: engine_inv_def)
  have "length (AllRules catalog_engine) = 30" using n catalog_engine_facts(1) by (simp add: engine_inv_def AllRules_def)
  then show ?thesis using assms(1) n size_mset[of "perm (AllRules catalog_engine)"] assms(2)
    by (auto simp: rulesListCmd_def RuleCount_def EnforceCount_def AlertCount_def)
qed

end
