(* ===== verification/Accessors.thy ===== *)
theory Accessors
  imports Agent
begin

text \<open>
  The accessors of the pipeline, the AI connector and the webhook sinks, which tools and tests call. They
  read one field, or hand a call on to a component.
\<close>

section \<open>Pipeline\<close>

definition AnomalyThreshold :: "('u, 't) pipeline \<Rightarrow> real" where "AnomalyThreshold p = pi_anomalyThreshold p"
definition IsAnomalyEnabled :: "('u, 't) pipeline \<Rightarrow> bool" where "IsAnomalyEnabled p = pi_anomalyEnabled p"
definition GetAIRuleSuggester :: "('u, 't) pipeline \<Rightarrow> bool" where "GetAIRuleSuggester p = pi_aiSuggester p"
definition SuggestionMinConfidence :: "('u, 't) pipeline \<Rightarrow> real" where
  "SuggestionMinConfidence p = pi_suggestionMinConfidence p"
definition TriageThresholds :: "('u, 't) pipeline \<Rightarrow> real \<times> real \<times> real" where
  "TriageThresholds p = (pi_triageSuppress p, pi_triageDowngrade p, pi_triageAdjust p)"
definition IsLearningMode :: "('u, 't) pipeline \<Rightarrow> bool" where "IsLearningMode p = pi_learningMode p"
definition MinEventsForBaseline :: "('u, 't) pipeline \<Rightarrow> int" where "MinEventsForBaseline p = pi_minEvents p"
definition GetBaseline :: "string \<Rightarrow> ('u, 't) pipeline \<Rightarrow> ngram_baseline option" where
  "GetBaseline img p = pi_baselines p img"
definition EventsProcessed :: "('u, 't) pipeline \<Rightarrow> u64" where "EventsProcessed p = pi_eventsProcessed p"
definition AlertsEmitted :: "('u, 't) pipeline \<Rightarrow> u64" where "AlertsEmitted p = pi_alertsEmitted p"
definition EnforcementsExecuted :: "('u, 't) pipeline \<Rightarrow> u64" where "EnforcementsExecuted p = pi_enforcementsExec p"

definition FeedSyscallForAnomaly :: "enriched_event \<Rightarrow> ('u, 't) pipeline \<Rightarrow> real \<times> ('u, 't) pipeline" where
  "FeedSyscallForAnomaly event p = feedSyscallForAnomaly event p"

definition FeedSyscallForAnomalyCgroupFallback :: "enriched_event \<Rightarrow> ('u, 't) pipeline \<Rightarrow> real \<times> ('u, 't) pipeline" where
  "FeedSyscallForAnomalyCgroupFallback event p = feedSyscallForAnomalyCgroupFallback event p"

definition EmitAnomalyAlert :: "('u, 't) world \<Rightarrow> enriched_event \<Rightarrow> ('u, 't) pipeline \<Rightarrow> ('u, 't) pipeline" where
  "EmitAnomalyAlert w event p = emitAnomalyAlert w event p"

section \<open>AI connector\<close>

definition ac_IsEnabled :: "ai_connector \<Rightarrow> bool" where "ac_IsEnabled a = ac_enabled a"
definition ac_IsConnected :: "ai_connector \<Rightarrow> bool" where "ac_IsConnected a = ac_connected a"

text \<open>No code counts a failed analysis.\<close>

record ai_stats =
  av_Connected :: bool
  av_Enabled :: bool
  av_Endpoint :: string
  av_AnalysesRequested :: u64
  av_AnalysesCompleted :: u64
  av_AnalysesFailed :: u64
  av_ProfilesRequested :: u64
  av_TriagesRequested :: u64
  av_SuggestionsMade :: u64
  av_LastInferenceMS :: int
  av_LastConnectTime :: time

definition ac_Stats :: "ai_connector \<Rightarrow> ai_stats" where
  "ac_Stats a =
    \<lparr>av_Connected = ac_connected a, av_Enabled = ac_enabled a, av_Endpoint = ac_endpoint a,
     av_AnalysesRequested = ac_analysesRequested a, av_AnalysesCompleted = ac_analysesCompleted a, av_AnalysesFailed = 0,
     av_ProfilesRequested = ac_profilesRequested a, av_TriagesRequested = ac_triagesRequested a,
     av_SuggestionsMade = ac_suggestionsMade a, av_LastInferenceMS = ac_lastInferenceMS a, av_LastConnectTime = ac_lastConnect a\<rparr>"

section \<open>Correlation, enforcer and loaders\<close>

definition corr_RuleCount :: "correlator \<Rightarrow> nat" where "corr_RuleCount c = length (cl_rules c)"
definition BlocksByRule :: "'u net_enforcer \<Rightarrow> (string \<times> int) list" where "BlocksByRule ne = ne_blocksAdded ne"
definition BlocklistMapFD :: "tc_loader \<Rightarrow> int" where "BlocklistMapFD t = tl_blocklistMapFD t"
definition tc_IsLoaded :: "tc_loader \<Rightarrow> bool" where "tc_IsLoaded t = tl_loaded t"
definition tc_IsAttached :: "tc_loader \<Rightarrow> bool" where "tc_IsAttached t = tl_attached t"
definition tc_IsMockMode :: "tc_loader \<Rightarrow> bool" where "tc_IsMockMode t = tl_mockMode t"
definition AttachedInterfaces :: "tc_loader \<Rightarrow> string list" where "AttachedInterfaces t = tl_ifaces t"
definition ld_Filter :: "loader \<Rightarrow> event_filter" where "ld_Filter l = ld_filter l"
definition ld_IsMockMode :: "loader \<Rightarrow> bool" where "ld_IsMockMode l = ld_mockMode l"
definition GetPipeline :: "agent \<Rightarrow> (tc_loader, ai_connector) pipeline option" where "GetPipeline a = at_pipeline a"

section \<open>Webhook sinks\<close>

definition NewSlackWebhookSink :: "webhook_config \<Rightarrow> sink_kind \<times> base_sink" where
  "NewSlackWebhookSink cfg = (Slack, newBaseWebhookSink (cfg\<lparr>wc_Type := WebhookSinkSlack\<rparr>))"

definition NewPagerDutyWebhookSink :: "webhook_config \<Rightarrow> sink_kind \<times> base_sink" where
  "NewPagerDutyWebhookSink cfg = (PagerDuty, newBaseWebhookSink (cfg\<lparr>wc_Type := WebhookSinkPagerDuty\<rparr>))"

definition NewGenericWebhookSink :: "webhook_config \<Rightarrow> sink_kind \<times> base_sink" where
  "NewGenericWebhookSink cfg = (Generic, newBaseWebhookSink (cfg\<lparr>wc_Type := WebhookSinkGeneric\<rparr>))"

text \<open>No sink buffers anything, so flushing or closing one changes nothing.\<close>

definition sink_Flush :: "sink_kind \<times> base_sink \<Rightarrow> string option \<times> sink_kind \<times> base_sink" where "sink_Flush s = (None, s)"
definition sink_Close :: "sink_kind \<times> base_sink \<Rightarrow> string option \<times> sink_kind \<times> base_sink" where "sink_Close s = (None, s)"

definition wm_Flush :: "(sink_kind \<times> base_sink) list \<Rightarrow> (sink_kind \<times> base_sink) list" where
  "wm_Flush sinks = map (snd \<circ> sink_Flush) sinks"

definition SinkCount :: "(sink_kind \<times> base_sink) list \<Rightarrow> nat" where
  "SinkCount sinks = length sinks"

text \<open>The constructors agree with \<open>NewWebhookSink\<close> on a configuration of their type; flushing keeps the sinks.\<close>

lemma constructors_agree:
  "wc_Type cfg = WebhookSinkSlack \<Longrightarrow> NewWebhookSink cfg = Inr (NewSlackWebhookSink cfg)"
  "wc_Type cfg = WebhookSinkPagerDuty \<Longrightarrow> NewWebhookSink cfg = Inr (NewPagerDutyWebhookSink cfg)"
  by (cases cfg, simp add: NewWebhookSink_def NewSlackWebhookSink_def NewPagerDutyWebhookSink_def WebhookSinkSlack_def
      WebhookSinkPagerDuty_def)+

lemma flush_keeps: "wm_Flush sinks = sinks"
  by (induction sinks) (simp_all add: wm_Flush_def sink_Flush_def)

end
