(* ===== verification/Lifecycle.thy ===== *)
theory Lifecycle
  imports Accessors
begin

text \<open>
  The background loops of the correlation engine and the network enforcer, which their \<open>Start\<close> and \<open>Stop\<close>
  begin and end, closing the alert emitter, and reading a duration in a rule file. A loop leaves as soon as its stop
  channel is closed, before its first tick; \<open>Stop\<close> waits for it.
\<close>

section \<open>Loops\<close>

record 'c service =
  sv_state :: 'c
  sv_running :: bool
  sv_closed :: bool
  sv_loops :: nat

definition new_service :: "'c \<Rightarrow> 'c service" where
  "new_service c = \<lparr>sv_state = c, sv_running = False, sv_closed = False, sv_loops = 0\<rparr>"

text \<open>The correlation engine: \<open>Start\<close> keeps the channel it was made with.\<close>

definition corr_Start :: "correlator service \<Rightarrow> correlator service" where
  "corr_Start s = (if sv_running s then s else s\<lparr>sv_running := True, sv_loops := sv_loops s + 1\<rparr>)"

definition corr_Stop :: "correlator service \<Rightarrow> correlator service option" where
  "corr_Stop s =
    (if \<not> sv_running s then Some s
     else if sv_closed s then None
     else Some (s\<lparr>sv_running := False, sv_closed := True, sv_loops := 0\<rparr>))"

definition purgeLoop :: "time \<Rightarrow> correlator service \<Rightarrow> correlator service" where
  "purgeLoop now s =
    (if sv_loops s = 0 then s
     else if sv_closed s then s\<lparr>sv_loops := sv_loops s - 1\<rparr>
     else s\<lparr>sv_state := purgeExpiredWindows now (sv_state s)\<rparr>)"

text \<open>The network enforcer makes a new channel.\<close>

definition enforcer_Start :: "'u net_enforcer service \<Rightarrow> 'u net_enforcer service" where
  "enforcer_Start s =
    (if sv_running s then s
     else s\<lparr>sv_state := ne_Start (sv_state s), sv_closed := False, sv_running := True, sv_loops := sv_loops s + 1\<rparr>)"

definition enforcer_Stop :: "'u net_enforcer service \<Rightarrow> 'u net_enforcer service option" where
  "enforcer_Stop s =
    (if \<not> sv_running s then Some s
     else if sv_closed s then None
     else Some (s\<lparr>sv_state := ne_Stop (sv_state s), sv_running := False, sv_closed := True, sv_loops := 0\<rparr>))"

definition expireBlocks ::
    "'u updater \<Rightarrow> ((blocklist_key \<times> blocklist_entry) list \<Rightarrow> (blocklist_key \<times> blocklist_entry) list) \<Rightarrow> time \<Rightarrow>
     'u net_enforcer service \<Rightarrow> 'u net_enforcer service" where
  "expireBlocks ops perm now s =
    (if sv_loops s = 0 then s
     else if sv_closed s then s\<lparr>sv_loops := sv_loops s - 1\<rparr>
     else s\<lparr>sv_state := removeExpiredBlocks ops perm now (sv_state s)\<rparr>)"

section \<open>Restarting\<close>

text \<open>A service that can be started and stopped in any order: the last call decides whether it is up.\<close>

locale restartable =
  fixes start :: "'s \<Rightarrow> 's" and stop :: "'s \<Rightarrow> 's option" and up :: "'s \<Rightarrow> bool" and ok :: "'s \<Rightarrow> bool"
  assumes start_ok: "ok s \<Longrightarrow> ok (start s)"
    and stop_ok: "ok s \<Longrightarrow> \<exists>t. stop s = Some t \<and> ok t \<and> \<not> up t"
    and start_up: "ok s \<Longrightarrow> up (start s)"
begin

definition call :: "bool \<Rightarrow> 's option \<Rightarrow> 's option" where
  "call b s = (case s of None \<Rightarrow> None | Some s \<Rightarrow> if b then Some (start s) else stop s)"

lemma call_ok: "ok s \<Longrightarrow> \<exists>t. call b (Some s) = Some t \<and> ok t \<and> (up t \<longleftrightarrow> b)"
  using start_ok[of s] stop_ok[of s] start_up[of s] by (cases b) (auto simp: call_def)

lemma calls_return: "ok s \<Longrightarrow> \<exists>t. fold call bs (Some s) = Some t \<and> ok t \<and> (bs \<noteq> [] \<longrightarrow> (up t \<longleftrightarrow> last bs))"
proof (induction bs arbitrary: s)
  case (Cons b bs)
  obtain t where t: "call b (Some s) = Some t" "ok t" "up t \<longleftrightarrow> b" using call_ok[OF Cons.prems] by blast
  then show ?case using Cons.IH[of t] by (cases bs) auto
qed simp

end

definition one_loop :: "'c service \<Rightarrow> bool" where
  "one_loop s \<longleftrightarrow> (if sv_running s then \<not> sv_closed s \<and> sv_loops s = 1 else sv_loops s = 0)"

interpretation enforcer_service: restartable enforcer_Start enforcer_Stop sv_running one_loop
  by unfold_locales (auto simp: enforcer_Start_def enforcer_Stop_def one_loop_def)

text \<open>The enforcer can be started and stopped at will, and its loop runs exactly while it is up.\<close>

lemma enforcer_restarts:
  "\<exists>t. fold enforcer_service.call bs (Some (new_service ne)) = Some t \<and> one_loop t \<and> (bs \<noteq> [] \<longrightarrow> (sv_running t \<longleftrightarrow> last bs))"
  by (rule enforcer_service.calls_return) (simp add: one_loop_def new_service_def)

text \<open>The correlation engine cannot: after a stop, a second start only makes a loop that leaves at once, so no window is
  purged any more, and the second stop panics.\<close>

definition corr_call :: "bool \<Rightarrow> correlator service option \<Rightarrow> correlator service option" where
  "corr_call b s = (case s of None \<Rightarrow> None | Some s \<Rightarrow> if b then Some (corr_Start s) else corr_Stop s)"

lemma correlator_restart_panics: "fold corr_call [True, False, True, False] (Some (new_service c)) = None"
  by (simp add: corr_call_def corr_Start_def corr_Stop_def new_service_def)

lemma no_purge_after_restart:
  assumes "sv_running s" "\<not> sv_closed s" "corr_Stop s = Some t"
  shows "sv_state (purgeLoop now (corr_Start t)) = sv_state s" "sv_loops (purgeLoop now (corr_Start t)) = 0"
  using assms by (auto simp: corr_Stop_def corr_Start_def purgeLoop_def)

text \<open>Once is fine: a panic needs two stops that each follow a start.\<close>

fun effective_stops :: "bool \<Rightarrow> bool list \<Rightarrow> nat" where
  "effective_stops up [] = 0"
| "effective_stops up (True # bs) = effective_stops True bs"
| "effective_stops up (False # bs) = (if up then 1 else 0) + effective_stops False bs"

lemma corr_call_Some: "corr_call b (Some s) = (if b then Some (corr_Start s) else corr_Stop s)"
  by (simp add: corr_call_def)

lemma corr_call_None: "fold corr_call bs None = None"
  by (induction bs) (simp_all add: corr_call_def)

lemma correlator_calls:
  "fold corr_call bs (Some s) = None \<longleftrightarrow> effective_stops (sv_running s) bs > (if sv_closed s then 0 else 1)"
proof (induction bs arbitrary: s)
  case (Cons b bs)
  show ?case
  proof (cases b)
    case True
    then show ?thesis using Cons[of "corr_Start s"] by (simp add: corr_call_Some corr_Start_def)
  next
    case False
    then show ?thesis using Cons[of s] Cons[of "s\<lparr>sv_running := False, sv_closed := True, sv_loops := 0\<rparr>"]
      by (auto simp: corr_call_Some corr_Stop_def corr_call_None)
  qed
qed simp

section \<open>Closing the alert emitter\<close>

text \<open>The emitter with its file and its webhook manager; a write to a closed file fails. Flushing syncs the file.\<close>

record open_emitter =
  oe_emitter :: alert_emitter
  oe_closed :: bool
  oe_sinks :: "(sink_kind \<times> base_sink) list option"

definition em_Flush :: "open_emitter \<Rightarrow> open_emitter" where
  "em_Flush e = e\<lparr>oe_sinks := map_option wm_Flush (oe_sinks e)\<rparr>"

definition em_Close :: "open_emitter \<Rightarrow> open_emitter" where
  "em_Close e = e\<lparr>oe_closed := oe_closed e \<or> em_file (oe_emitter e) \<noteq> None, oe_sinks := map_option wm_Close (oe_sinks e)\<rparr>"

definition em_Count :: "open_emitter \<Rightarrow> u64" where
  "em_Count e = em_count (oe_emitter e)"

definition open_Emit :: "json_encoder \<Rightarrow> bool \<Rightarrow> time \<Rightarrow> alert \<Rightarrow> open_emitter \<Rightarrow> open_emitter" where
  "open_Emit marshal written now a e = e\<lparr>oe_emitter := em_Emit marshal (written \<and> \<not> oe_closed e) now a (oe_emitter e)\<rparr>"

text \<open>\<open>sendWebhook\<close> reaches the sinks of the manager, or logs.\<close>

definition sendWebhook :: "formats \<Rightarrow> alert \<Rightarrow> http_env \<Rightarrow> open_emitter \<Rightarrow> ((sink_kind \<times> base_sink) \<times> http_env) list" where
  "sendWebhook fm a h e = (case oe_sinks e of Some sinks \<Rightarrow> wm_Send fm a (map (\<lambda>s. (s, h)) sinks) | None \<Rightarrow> [])"

text \<open>After closing, an alert is counted and goes nowhere: not to the file, not to the standard output, not to a sink.\<close>

lemma closed_emitter_loses:
  assumes "em_file (oe_emitter e) = Some lines"
  shows "let e' = open_Emit marshal written now a (em_Close e) in
    em_Count e' = em_Count e + 1 \<and> em_file (oe_emitter e') = Some lines \<and> em_stdout (oe_emitter e') = em_stdout (oe_emitter e) \<and>
    sendWebhook fm a h e' = []"
  using assms by (auto simp: Let_def open_Emit_def em_Close_def em_Emit_def em_Count_def sendWebhook_def wm_Send_def wm_Close_def
      split: option.split)

section \<open>Durations in rule files\<close>

text \<open>\<open>parseDuration\<close>: a text without a unit is read as seconds, if that works.\<close>

definition parseDuration :: "(string \<Rightarrow> string + duration) \<Rightarrow> string \<Rightarrow> string + duration" where
  "parseDuration lib s =
    (let s = trim_space s in
     if has_suffix s ''s'' then lib s
     else if has_suffix s ''m'' then lib s
     else if has_suffix s ''h'' then lib s
     else (case lib (s @ ''s'') of Inr d \<Rightarrow> Inr d | Inl err \<Rightarrow> lib s))"

lemma parse_duration_fails:
  "parseDuration lib s = Inl err \<Longrightarrow> lib (trim_space s) = Inl err"
  by (auto simp: parseDuration_def Let_def split: if_splits sum.splits)

end
