(* ===== verification/Spec2Isabelle.thy ===== *)
theory Spec2Isabelle
  imports Decode Catalog_Detection Exceptions Response Coalescer Correlate_Detect Net_Refine Pipeline_Kill
    Dns_Facts Dns_Suspicious Tls_Facts Shutdown Webhook_Overlap Agent_Facts Policy_Facts Ai_Client Engine_Api Cli Lifecycle
begin

text \<open>
  SecurityScarlet Runtime is an agent that watches the containers of a node with eBPF probes, matches the events
  against rules, and alerts, kills processes or blocks network destinations. This library models the Go code under
  \<open>src/pkg\<close> and the TC classifier (\<open>ebpf/probes/network_tc.bpf.c\<close>) and states what makes it correct, and where
  it is not.

  \<^bold>\<open>The program.\<close> Probes write fixed-size structs into ring buffers. \<open>ebpf/loader.go\<close> reads them, decodes them
  (\<open>ebpf/types.go\<close>), filters them (\<open>ebpf/filter.go\<close>) and puts them into a channel. The workers of
  \<open>pipeline/pipeline.go\<close> take an event, attribute it to a container (\<open>enrichment/\<close>), score its system calls
  (\<open>ai/connector.go\<close>), evaluate the rules (\<open>rules/\<close>), correlate the signals (\<open>correlate/\<close>) and route the match: to the
  coalescer and the alert emitters (\<open>output/\<close>), to the response actor, which sends signals under safety rules
  (\<open>pipeline/response.go\<close>), and to the network enforcer, whose blocklist the TC classifier reads
  (\<open>enforcement/network.go\<close>, \<open>ebpf/tc_loader.go\<close>). \<open>agent/\<close> builds and wires all of it from a configuration,
  \<open>crd/types.go\<close> loads policies, \<open>cli/\<close> is the command line.

  \<^bold>\<open>Theories and code.\<close>
  \<^item> Prelude, Bytes, Machine: machine types, Go's string functions, reads of a buffer, and the locale of a component with
    initial states, steps and an invariant, which every long-running component interprets.
  \<^item> Events, Decode: event types and accessors, the lists of categories, \<open>DecodeEvent\<close> (\<open>ebpf/types.go\<close>), and the two layouts
    of the C struct (\<open>ebpf/include/security_scarlet_event.h\<close>). Dns,
    Dns_Facts, Dns_Suspicious: \<open>ebpf/dns.go\<close>. Tls, Tls_Facts: the ClientHello parser of \<open>ebpf/types.go\<close>.
  \<^item> Cond_Parser, Cond_Print, Cond_Eval: the parser and the compiler of rule conditions (\<open>rules/compiler.go\<close>). Rule_Files:
    \<open>rules/parser.go\<close>. Engine, Engine_Facts, Engine_Total, Engine_Api, Exceptions: \<open>rules/engine.go\<close> and
    \<open>pipeline/exceptions.go\<close>. Catalog, Macro_Order, Catalog_Meaning, Catalog_Compile, Catalog_Engine, Catalog_Detection: the
    built-in rules of \<open>rules/catalog.go\<close>, the meaning of each and the engine they load into.
  \<^item> Alert, Webhook, Webhook_Overlap, Webhook_Sinks, Metrics: \<open>output/\<close>; a send alone, and sends that overlap. Audit_Log, Rate_Limiter, Response, Coalescer:
    \<open>enforcement_log.go\<close>, \<open>response.go\<close> and \<open>coalescer.go\<close> of \<open>pipeline/\<close>. Correlate, Correlate_Inv, Correlate_Detect:
    \<open>correlate/correlate.go\<close>.
  \<^item> Tc_Filter, Net_Enforcer, Net_Refine: the classifier and its loader, the enforcer, and the refinement between them.
  \<^item> Lru, Caches, Cgroup_Files, Enrichment, Enrichment_Facts: \<open>enrichment/\<close>. Anomaly, Ai_Connector: \<open>ai/connector.go\<close>;
    Ai_Client: \<open>ai/proto/types.go\<close>.
  \<^item> Pipeline, Pipeline_Facts, Pipeline_Machine, Pipeline_Routing, Pipeline_Kill: \<open>pipeline/pipeline.go\<close>. Shutdown: the goroutines and
    locks of starting and stopping. Event_Filter, Loader: \<open>ebpf/filter.go\<close> and \<open>ebpf/loader.go\<close>.
  \<^item> Agent_Config, Agent, Agent_Facts: \<open>agent/\<close>. Policy, Policy_Facts: \<open>crd/types.go\<close>. Cli: \<open>cli/\<close>. Accessors, Lifecycle:
    read-only accessors, and the background loops of several components.

  A struct is a record whose field names carry a prefix; a function keeps its name, with a prefix of its receiver where two
  clash. Bytes are 8-bit words, a Go string is a list of characters that are its bytes; unsigned integers have their width;
  an \<open>int\<close> is an integer, with its wrap-around written out where the code can reach it; times and durations are
  nanoseconds; a \<open>float64\<close> is a real. A panic is \<open>None\<close>, a returned error is \<open>Inl\<close> or an optional string beside the
  result. A map that is ranged over is an association list with the order of the range as an argument, so a theorem holds
  for every order; any other map is a function. Clock readings, random numbers, files, the kernel's answers and libraries
  are arguments. Shared pointers are threaded through the one component that holds them.

  \<^bold>\<open>What is shown.\<close> Codecs: decoding inverts an encoder of DNS messages, of a ClientHello and of the packed event
  struct, and no input panics; but the probes are compiled without the packing, and of what they write the decoder
  reads every member from the cgroup identifier on at the wrong place. Rules: the parser inverts a printer and always returns; the compiled condition means what the printed one
  says; the engine returns the first most severe applying rule; the thirty built-in rules compute stated predicates. Safety:
  a signal is sent exactly when mode, match, triage, attribution, every rule of the response actor and the budget allow it; a block needs a mode
  and a rule; limits hold in every window; an open circuit breaker lets through what it had admitted, whatever sends overlap. Refinement: the kernel's blocklist is what the enforcer's entries say, and the pointer
  lists of the caches represent lists. Detection: correlation is sound and, in a correlator of one rule with logic all,
  complete for a window. Liveness: exactly
  when stopping returns. Composition: the agent starts unless its alert directory cannot be made, no modelled run of it
  panics, and as shipped it receives no event from the kernel, since nothing starts the loader or registers a container. Policies: those
  stored are valid, and what applying one changes.

  \<^bold>\<open>Bounds and fuel.\<close> The mutual recursion of the condition parser has fuel: three times the length of its input and three
  more, which \<open>parse_fuel\<close> shows to suffice on every string. Macro expansion makes the ten rounds of the code. The DNS
  name loop ends since an offset is visited once, the loops over extensions and name entries since the offset grows.
  Retries, n-grams and the scan of processes recurse on a number or a list. No other definition needs fuel.

  \<^bold>\<open>Interfaces.\<close> The locales are \<open>invariant_system\<close> (a component's reachable states), \<open>bounded_log\<close> (the audit log and the
  system call trace), \<open>recency_cache\<close> (PID and CRI cache), \<open>alert_sink\<close> (the two emitters), \<open>triage_advisor\<close> (the AI
  connector as the pipeline sees it), \<open>blocklist_updater\<close> (the TC loader as the enforcer sees it) and \<open>restartable\<close> (the
  enforcer's loop); each is interpreted on the code's own operations.

  \<^bold>\<open>Not modelled.\<close> The process, file, network, escape and privilege probes are C code in the kernel; the model takes what
  they emit, in both layouts, and their container filter. YAML, JSON, gRPC, Prometheus, HTTP, cobra and the eBPF library are
  parameters with the answers the code distinguishes. Logging is left out, and so are data races: operations
  interleave as whole steps, except in Shutdown, which models the locks, and in Webhook_Overlap, which interleaves the
  locked sections of a send; so a scan of the containers and the use of a last-access time are one step each.
  \<open>strings.ToLower\<close> and \<open>TrimSpace\<close> are those of ASCII. The server interface of the AI service has no
  implementation in the repository. Deployment files are configuration.
\<close>

end
